(* ===== verification/Prelude.thy ===== *)
theory Prelude
  imports Main "HOL-Library.Word" "HOL-Library.List_Lexorder" "HOL-Library.Char_ord"
begin

text \<open>
  Shared vocabulary of the development: the machine integers, the standard-library
  containers and the string helpers that the components of MarketCow use.

  \<^item> \<open>u64\<close> and \<open>u32\<close> are words of the width the code declares; \<open>+\<close> wraps as the
    release build does, \<open>saturating_add1\<close> and \<open>checked_add1\<close> are the two guarded
    increments of the standard library.
  \<^item> \<open>btree\<close> is Rust's \<open>BTreeMap\<close>: an association list in strictly increasing key
    order (\<open>bt_wf\<close>), so iteration order, \<open>first_key_value\<close> and \<open>last_key_value\<close> are those
    of the code. A \<open>BTreeSet\<close> or \<open>HashSet\<close> of which only membership is observed is a set;
    one that is iterated is a strictly sorted list (\<open>bs_of_list\<close>).
  \<^item> a \<open>Result\<close> is a sum with the error on the left.
  \<^item> a timestamp is the instant in nanoseconds, a \<open>serde_json::Value\<close> a datatype with the
    constructors its documentation lists.
\<close>

named_theorems bt_simps \<open>lookup laws of the ordered map\<close>
named_theorems bt_intros \<open>preservation of the ordering invariant of the ordered map\<close>

section \<open>Machine integers\<close>

type_synonym u64 = "64 word"
type_synonym u32 = "32 word"
type_synonym timestamp = int

abbreviation max_u64 :: u64 where
  "max_u64 \<equiv> - 1"

definition saturating_add1 :: "'a::len word \<Rightarrow> 'a word" where
  "saturating_add1 x = (if x = - 1 then x else x + 1)"

definition checked_add1 :: "'a::len word \<Rightarrow> 'a word option" where
  "checked_add1 x = (if x = - 1 then None else Some (x + 1))"

lemma unat_add1: "(x::'a::len word) \<noteq> - 1 \<Longrightarrow> unat (x + 1) = Suc (unat x)"
  by (metis add.commute add_eq_0_iff unatSuc)

lemma checked_add1_Some_iff [simp]:
  "checked_add1 x = Some y \<longleftrightarrow> x \<noteq> - 1 \<and> y = x + 1"
  by (auto simp: checked_add1_def)

lemma checked_add1_unat: "checked_add1 x = Some y \<Longrightarrow> unat y = Suc (unat x)"
  by (auto simp: unat_add1)

lemma saturating_add1_unat: "unat (saturating_add1 x) = min (Suc (unat x)) (unat (- 1 :: 'a::len word))"
  for x :: "'a::len word"
proof (cases "x = - 1")
  case True
  then show ?thesis by (simp add: saturating_add1_def)
next
  case False
  have "unat (x + 1) \<le> unat (- 1 :: 'a word)"
    by (metis word_le_nat_alt word_n1_ge)
  with False show ?thesis by (simp add: saturating_add1_def unat_add1)
qed

section \<open>Options\<close>

definition is_none_or :: "('a \<Rightarrow> bool) \<Rightarrow> 'a option \<Rightarrow> bool" where
  "is_none_or P x = (case x of None \<Rightarrow> True | Some a \<Rightarrow> P a)"

definition is_some_and :: "('a \<Rightarrow> bool) \<Rightarrow> 'a option \<Rightarrow> bool" where
  "is_some_and P x = (case x of None \<Rightarrow> False | Some a \<Rightarrow> P a)"

definition opt_filter :: "('a \<Rightarrow> bool) \<Rightarrow> 'a option \<Rightarrow> 'a option" where
  "opt_filter P x = (case x of None \<Rightarrow> None | Some a \<Rightarrow> if P a then Some a else None)"

definition opt_or :: "'a option \<Rightarrow> 'a option \<Rightarrow> 'a option" where
  "opt_or x y = (case x of None \<Rightarrow> y | Some a \<Rightarrow> Some a)"

definition unwrap_or :: "'a \<Rightarrow> 'a option \<Rightarrow> 'a" where
  "unwrap_or d x = (case x of None \<Rightarrow> d | Some a \<Rightarrow> a)"

lemma opt_simps [simp]:
  "is_none_or P None" "is_none_or P (Some a) = P a"
  "\<not> is_some_and P None" "is_some_and P (Some a) = P a"
  "opt_filter P None = None" "opt_filter P (Some a) = (if P a then Some a else None)"
  "opt_or None y = y" "opt_or (Some a) y = Some a"
  "unwrap_or d None = d" "unwrap_or d (Some a) = a"
  by (simp_all add: is_none_or_def is_some_and_def opt_filter_def opt_or_def unwrap_or_def)

section \<open>Loops\<close>

text \<open>A loop whose body leaves an observation alone leaves it alone; one that keeps a property keeps it.\<close>

lemma fold_frame: "(\<And>y s. y \<in> set ys \<Longrightarrow> obs (f y s) = obs s) \<Longrightarrow> obs (fold f ys s) = obs s"
  by (induction ys arbitrary: s) auto

lemma fold_keeps: "(\<And>y s. y \<in> set ys \<Longrightarrow> P s \<Longrightarrow> P (f y s)) \<Longrightarrow> P s \<Longrightarrow> P (fold f ys s)"
  by (induction ys arbitrary: s) auto

section \<open>Ordered maps and sets\<close>

type_synonym ('k, 'v) btree = "('k \<times> 'v) list"

definition bt_wf :: "('k::linorder, 'v) btree \<Rightarrow> bool" where
  "bt_wf m = sorted_wrt (<) (map fst m)"

definition bt_get :: "('k, 'v) btree \<Rightarrow> 'k \<Rightarrow> 'v option" where
  "bt_get m k = map_of m k"

definition bt_contains :: "('k, 'v) btree \<Rightarrow> 'k \<Rightarrow> bool" where
  "bt_contains m k = (bt_get m k \<noteq> None)"

fun bt_insert :: "'k::linorder \<Rightarrow> 'v \<Rightarrow> ('k, 'v) btree \<Rightarrow> ('k, 'v) btree" where
  "bt_insert k v [] = [(k, v)]"
| "bt_insert k v ((k', v') # m) =
     (if k < k' then (k, v) # (k', v') # m
      else if k = k' then (k, v) # m
      else (k', v') # bt_insert k v m)"

definition bt_remove :: "'k \<Rightarrow> ('k, 'v) btree \<Rightarrow> ('k, 'v) btree" where
  "bt_remove k m = filter (\<lambda>(k', v). k' \<noteq> k) m"

definition bt_retain :: "('k \<Rightarrow> 'v \<Rightarrow> bool) \<Rightarrow> ('k, 'v) btree \<Rightarrow> ('k, 'v) btree" where
  "bt_retain P m = filter (\<lambda>(k, v). P k v) m"

definition bt_keys :: "('k, 'v) btree \<Rightarrow> 'k list" where
  "bt_keys m = map fst m"

definition bt_values :: "('k, 'v) btree \<Rightarrow> 'v list" where
  "bt_values m = map snd m"

definition bt_first :: "('k, 'v) btree \<Rightarrow> ('k \<times> 'v) option" where
  "bt_first m = (case m of [] \<Rightarrow> None | x # _ \<Rightarrow> Some x)"

definition bt_last :: "('k, 'v) btree \<Rightarrow> ('k \<times> 'v) option" where
  "bt_last m = (case rev m of [] \<Rightarrow> None | x # _ \<Rightarrow> Some x)"

text \<open>\<open>collect()\<close> into a map: a later entry with the same key wins.\<close>

definition bt_of_list :: "('k::linorder \<times> 'v) list \<Rightarrow> ('k, 'v) btree" where
  "bt_of_list xs = fold (\<lambda>(k, v) m. bt_insert k v m) xs []"

definition bt_map_value :: "('v \<Rightarrow> 'v) \<Rightarrow> 'k \<Rightarrow> ('k, 'v) btree \<Rightarrow> ('k, 'v) btree" where
  "bt_map_value f k m = map (\<lambda>(k', v). (k', if k' = k then f v else v)) m"

text \<open>\<open>collect()\<close> into an iterated \<open>BTreeSet\<close>.\<close>

definition bs_of_list :: "'k::linorder list \<Rightarrow> 'k list" where
  "bs_of_list xs = sort (remdups xs)"

subsection \<open>Lookup laws\<close>

lemma bt_get_empty [simp, bt_simps]: "bt_get [] k = None"
  by (simp add: bt_get_def)

lemma bt_get_Cons: "bt_get ((k, v) # m) k' = (if k' = k then Some v else bt_get m k')"
  by (simp add: bt_get_def)

lemma bt_get_insert [simp, bt_simps]:
  "bt_get (bt_insert k v m) k' = (if k' = k then Some v else bt_get m k')"
  by (induction m) (auto simp: bt_get_def)

lemma bt_get_remove [simp, bt_simps]:
  "bt_get (bt_remove k m) k' = (if k' = k then None else bt_get m k')"
  by (induction m) (auto simp: bt_get_def bt_remove_def)

lemma bt_get_retain_key [simp, bt_simps]:
  "bt_get (bt_retain (\<lambda>k v. P k) m) k' = (if P k' then bt_get m k' else None)"
  by (induction m) (auto simp: bt_get_def bt_retain_def)

lemma bt_get_map_value [simp, bt_simps]:
  "bt_get (bt_map_value f k m) k' =
     (if k' = k then map_option f (bt_get m k') else bt_get m k')"
  by (induction m) (auto simp: bt_get_def bt_map_value_def)

lemma bt_contains_insert [simp]: "bt_contains (bt_insert k v m) k' = (k' = k \<or> bt_contains m k')"
  by (simp add: bt_contains_def)

lemma bt_get_in_set: "bt_get m k = Some v \<Longrightarrow> (k, v) \<in> set m"
  by (simp add: bt_get_def map_of_SomeD)

lemma bt_get_in_values: "bt_get m k = Some v \<Longrightarrow> v \<in> set (bt_values m)"
  by (force simp: bt_values_def dest: bt_get_in_set)

lemma bt_contains_iff_keys: "bt_contains m k \<longleftrightarrow> k \<in> set (bt_keys m)"
  by (simp add: bt_contains_def bt_get_def bt_keys_def map_of_eq_None_iff)

subsection \<open>The ordering invariant\<close>

lemma bt_wf_empty [simp, bt_intros]: "bt_wf []"
  by (simp add: bt_wf_def)

lemma bt_wf_Cons: "bt_wf ((k, v) # m) \<longleftrightarrow> (\<forall>k' \<in> fst ` set m. k < k') \<and> bt_wf m"
  by (simp add: bt_wf_def)

lemma bt_wf_distinct: "bt_wf m \<Longrightarrow> distinct (map fst m)"
  by (simp add: bt_wf_def strict_sorted_iff)

lemma map_of_insert: "map_of (bt_insert k v m) = (map_of m)(k \<mapsto> v)"
  using bt_get_insert [of k v m] by (auto simp: bt_get_def fun_eq_iff)

lemma fst_set_insert: "fst ` set (bt_insert k v m) = insert k (fst ` set m)"
  by (simp add: map_of_insert flip: dom_map_of_conv_image_fst)

lemma bt_wf_insert [simp, bt_intros]: "bt_wf m \<Longrightarrow> bt_wf (bt_insert k v m)"
proof (induction m)
  case (Cons a m)
  then show ?case
    by (cases a) (fastforce simp: bt_wf_Cons fst_set_insert not_less_iff_gr_or_eq intro: less_trans)
qed (simp add: bt_wf_def)

lemma bt_wf_filter [bt_intros]: "bt_wf m \<Longrightarrow> bt_wf (filter P m)"
  by (induction m) (auto simp: bt_wf_Cons)

lemma bt_wf_remove [simp, bt_intros]: "bt_wf m \<Longrightarrow> bt_wf (bt_remove k m)"
  by (simp add: bt_remove_def bt_wf_filter)

lemma bt_wf_retain [simp, bt_intros]: "bt_wf m \<Longrightarrow> bt_wf (bt_retain P m)"
  by (simp add: bt_retain_def bt_wf_filter)

lemma fst_map_value: "map fst (bt_map_value f k m) = map fst m"
  by (simp add: bt_map_value_def comp_def case_prod_beta)

lemma bt_wf_map_value [simp, bt_intros]: "bt_wf m \<Longrightarrow> bt_wf (bt_map_value f k m)"
  by (simp add: bt_wf_def fst_map_value)

lemma bt_get_iff: "bt_wf m \<Longrightarrow> bt_get m k = Some v \<longleftrightarrow> (k, v) \<in> set m"
  by (simp add: bt_get_def bt_wf_distinct)

lemma bt_values_iff: "bt_wf m \<Longrightarrow> v \<in> set (bt_values m) \<longleftrightarrow> (\<exists>k. bt_get m k = Some v)"
  by (force simp: bt_values_def bt_get_iff)

lemma bt_get_retain: "bt_wf m \<Longrightarrow>
  bt_get (bt_retain P m) k = (case bt_get m k of None \<Rightarrow> None | Some v \<Rightarrow> if P k v then Some v else None)"
proof (induction m)
  case (Cons kv m)
  obtain a b where kv: "kv = (a, b)" by (cases kv)
  have "bt_get m a = None"
    using Cons.prems by (auto simp: kv bt_wf_Cons bt_get_def map_of_eq_None_iff)
  with Cons show ?case
    by (auto simp: kv bt_wf_Cons bt_get_Cons bt_retain_def)
qed (simp add: bt_retain_def)

text \<open>An ordered map is determined by its lookups: the list is canonical.\<close>

lemma bt_ext:
  assumes "bt_wf m" and "bt_wf n" and "\<And>k. bt_get m k = bt_get n k"
  shows "m = n"
proof -
  have s: "set m = set n"
    using bt_get_iff [OF assms(1)] bt_get_iff [OF assms(2)] assms(3) by auto
  have "map fst m = map fst n"
  proof (rule strict_sorted_equal)
    show "sorted_wrt (<) (map fst n)" "sorted_wrt (<) (map fst m)"
      using assms by (simp_all add: bt_wf_def)
    show "set (map fst m) = set (map fst n)" using s by simp
  qed
  then show ?thesis
    using s assms(1,2) by (metis bt_wf_distinct distinct_map inj_on_map_eq_map sup.idem)
qed

lemma bt_of_list_fold_wf: "bt_wf m \<Longrightarrow> bt_wf (fold (\<lambda>(k, v) m. bt_insert k v m) xs m)"
  by (induction xs arbitrary: m) auto

lemma bt_wf_of_list [simp, bt_intros]: "bt_wf (bt_of_list xs)"
  by (simp add: bt_of_list_def bt_of_list_fold_wf)

lemma bt_get_fold_insert:
  "bt_get (fold (\<lambda>(k, v) m. bt_insert k v m) xs m) k =
     (case map_of (rev xs) k of Some v \<Rightarrow> Some v | None \<Rightarrow> bt_get m k)"
  by (induction xs arbitrary: m) (auto simp: map_of_append map_add_def split: option.splits)

lemma bt_get_of_list [bt_simps]: "bt_get (bt_of_list xs) k = map_of (rev xs) k"
  by (simp add: bt_of_list_def bt_get_fold_insert split: option.splits)

subsection \<open>Ends\<close>

lemma bt_first_None [simp]: "bt_first m = None \<longleftrightarrow> m = []"
  by (cases m) (simp_all add: bt_first_def)

lemma bt_last_None [simp]: "bt_last m = None \<longleftrightarrow> m = []"
  by (cases m rule: rev_cases) (simp_all add: bt_last_def)

lemma bt_ends_Nil [simp]: "bt_first [] = None" "bt_last [] = None"
  by simp_all

lemma bt_first_least: "bt_wf m \<Longrightarrow> bt_first m = Some (k, v) \<Longrightarrow> k' \<in> fst ` set m \<Longrightarrow> k \<le> k'"
  by (cases m) (auto simp: bt_first_def bt_wf_Cons)

lemma bt_last_greatest: "bt_wf m \<Longrightarrow> bt_last m = Some (k, v) \<Longrightarrow> k' \<in> fst ` set m \<Longrightarrow> k' \<le> k"
  by (cases m rule: rev_cases) (auto simp: bt_last_def bt_wf_def sorted_wrt_append)

lemma bt_first_in: "bt_first m = Some kv \<Longrightarrow> kv \<in> set m"
  by (cases m) (auto simp: bt_first_def)

lemma bt_last_in: "bt_last m = Some kv \<Longrightarrow> kv \<in> set m"
  by (cases m rule: rev_cases) (auto simp: bt_last_def)

subsection \<open>Iterated sets\<close>

lemma bs_of_list_set [simp]: "set (bs_of_list xs) = set xs"
  by (simp add: bs_of_list_def)

lemma bs_of_list_sorted: "sorted_wrt (<) (bs_of_list xs)"
  by (simp add: bs_of_list_def strict_sorted_iff)

lemma bs_of_list_Nil [simp]: "bs_of_list xs = [] \<longleftrightarrow> xs = []"
  by (metis bs_of_list_set set_empty)

section \<open>The interface of an ordered map\<close>

text \<open>
  What the components rely on when they keep state in a \<open>BTreeMap\<close>: the lookup laws, the
  preserved ordering, and that iteration visits exactly the keys in increasing order.
\<close>

locale ordered_map =
  fixes empty :: 'm
    and lookup :: "'m \<Rightarrow> 'k::linorder \<Rightarrow> 'v option"
    and update :: "'k \<Rightarrow> 'v \<Rightarrow> 'm \<Rightarrow> 'm"
    and delete :: "'k \<Rightarrow> 'm \<Rightarrow> 'm"
    and keys :: "'m \<Rightarrow> 'k list"
    and invar :: "'m \<Rightarrow> bool"
  assumes lookup_empty: "lookup empty k = None"
    and lookup_update: "lookup (update k v m) k' = (if k' = k then Some v else lookup m k')"
    and lookup_delete: "lookup (delete k m) k' = (if k' = k then None else lookup m k')"
    and keys_lookup: "k \<in> set (keys m) \<longleftrightarrow> lookup m k \<noteq> None"
    and keys_sorted: "invar m \<Longrightarrow> sorted_wrt (<) (keys m)"
    and invar_empty: "invar empty"
    and invar_update: "invar m \<Longrightarrow> invar (update k v m)"
    and invar_delete: "invar m \<Longrightarrow> invar (delete k m)"
    and extensional: "invar m \<Longrightarrow> invar n \<Longrightarrow> (\<And>k. lookup m k = lookup n k) \<Longrightarrow> m = n"
begin

lemma update_twice: "invar m \<Longrightarrow> update k v (update k w m) = update k v m"
  by (rule extensional) (auto simp: lookup_update invar_update)

lemma update_commute: "invar m \<Longrightarrow> k \<noteq> k' \<Longrightarrow> update k v (update k' w m) = update k' w (update k v m)"
  by (rule extensional) (auto simp: lookup_update invar_update)

lemma update_same: "invar m \<Longrightarrow> lookup m k = Some v \<Longrightarrow> update k v m = m"
  by (rule extensional) (auto simp: lookup_update invar_update)

lemma delete_update: "invar m \<Longrightarrow> lookup m k = None \<Longrightarrow> delete k (update k v m) = m"
  by (rule extensional) (auto simp: lookup_update lookup_delete invar_update invar_delete)

lemma delete_absent: "invar m \<Longrightarrow> lookup m k = None \<Longrightarrow> delete k m = m"
  by (rule extensional) (auto simp: lookup_delete invar_delete)

lemma keys_update: "set (keys (update k v m)) = insert k (set (keys m))"
  by (rule set_eqI) (simp only: keys_lookup lookup_update insert_iff, simp)

lemma keys_delete: "set (keys (delete k m)) = set (keys m) - {k}"
  by (rule set_eqI) (simp only: keys_lookup lookup_delete Diff_iff, simp)

lemma keys_distinct: "invar m \<Longrightarrow> distinct (keys m)"
  using keys_sorted strict_sorted_iff by blast

end

interpretation bt: ordered_map "[]" bt_get bt_insert bt_remove bt_keys bt_wf
proof unfold_locales
  show "k \<in> set (bt_keys m) \<longleftrightarrow> bt_get m k \<noteq> None" for k :: 'a and m :: "('a, 'b) btree"
    using bt_contains_iff_keys [of m k] by (simp only: bt_contains_def)
  show "bt_wf m \<Longrightarrow> sorted_wrt (<) (bt_keys m)" for m :: "('a, 'b) btree"
    by (simp add: bt_wf_def bt_keys_def)
  show "bt_wf m \<Longrightarrow> bt_wf n \<Longrightarrow> (\<And>k. bt_get m k = bt_get n k) \<Longrightarrow> m = n"
    for m n :: "('a, 'b) btree"
    by (rule bt_ext)
qed simp_all

lemma bt_insert_last: "\<forall>k' \<in> fst ` set m. k' < k \<Longrightarrow> bt_insert k v m = m @ [(k, v)]"
  by (induction m) (auto simp: less_not_sym)

lemma bt_map_value_last: "bt_wf (m @ [(k, v)]) \<Longrightarrow> bt_map_value f k (m @ [(k, v)]) = m @ [(k, f v)]"
proof -
  assume "bt_wf (m @ [(k, v)])"
  then have "\<forall>(k', v') \<in> set m. k' \<noteq> k" by (auto simp: bt_wf_def sorted_wrt_append)
  then show ?thesis by (auto simp: bt_map_value_def intro!: map_idI)
qed

section \<open>Strings\<close>

definition ascii_hexdigit :: "char \<Rightarrow> bool" where
  "ascii_hexdigit c = (c \<in> set ''0123456789abcdefABCDEF'')"

definition ascii_lower :: "char \<Rightarrow> char" where
  "ascii_lower c =
     (let n = (of_char c :: nat) in if 65 \<le> n \<and> n \<le> 90 then char_of (n + 32) else c)"

definition to_ascii_lowercase :: "string \<Rightarrow> string" where
  "to_ascii_lowercase s = map ascii_lower s"

definition eq_ignore_ascii_case :: "string \<Rightarrow> string \<Rightarrow> bool" where
  "eq_ignore_ascii_case a b = (to_ascii_lowercase a = to_ascii_lowercase b)"

definition starts_with :: "string \<Rightarrow> string \<Rightarrow> bool" where
  "starts_with s pre = (take (length pre) s = pre)"

text \<open>The shape of a hexadecimal SHA-256 that the code checks at every boundary.\<close>

definition is_digest :: "string \<Rightarrow> bool" where
  "is_digest s = (length s = 64 \<and> list_all ascii_hexdigit s)"

section \<open>Zero-padded decimals\<close>

text \<open>\<open>{cursor:020}\<close>.\<close>

fun decimal_digits :: "nat \<Rightarrow> nat \<Rightarrow> string" where
  "decimal_digits 0 n = []"
| "decimal_digits (Suc k) n = char_of (48 + n div 10 ^ k mod 10) # decimal_digits k (n mod 10 ^ k)"

lemma list_less_same_prefix: "(as @ xs < as @ ys) = (xs < (ys :: string))"
  by (induction as) auto

lemma digit_less: "a < b \<Longrightarrow> b < 10 \<Longrightarrow> (char_of (48 + a :: nat) :: char) < char_of (48 + b)"
  by (simp add: less_char_def)

lemma decimal_digits_less:
  "a < b \<Longrightarrow> b < 10 ^ k \<Longrightarrow> decimal_digits k a @ s < decimal_digits k b @ s'"
proof (induction k arbitrary: a b)
  case (Suc k)
  have a: "a < 10 ^ Suc k" using Suc.prems by simp
  have lead: "n div 10 ^ k mod 10 = n div 10 ^ k" "n div 10 ^ k < 10" if "n < 10 ^ Suc k" for n :: nat
    using that by (simp_all add: less_mult_imp_div_less mult.commute)
  show ?case
  proof (cases "a div 10 ^ k = b div 10 ^ k")
    case True
    then have "a mod 10 ^ k < b mod 10 ^ k"
      using Suc.prems(1) by (metis div_mult_mod_eq nat_add_left_cancel_less)
    from Suc.IH [OF this] True show ?thesis by simp
  next
    case False
    then have "a div 10 ^ k < b div 10 ^ k"
      using Suc.prems(1) div_le_mono [of a b "10 ^ k"] by linarith
    with digit_less [OF this lead(2) [OF Suc.prems(2)]] show ?thesis
      by (simp only: decimal_digits.simps lead(1) [OF a] lead(1) [OF Suc.prems(2)]) simp
  qed
qed simp

section \<open>Paths\<close>

text \<open>
  \<open>Path::components\<close> on Unix: empty components and interior dots are dropped, a leading dot is
  \<open>CurDir\<close> and two dots are \<open>ParentDir\<close>.
\<close>

datatype path_component = RootDir | CurDir | ParentDir | Normal string

fun split_slash :: "string \<Rightarrow> string list" where
  "split_slash [] = [[]]"
| "split_slash (c # cs) =
     (if c = CHR ''/'' then [] # split_slash cs
      else (c # hd (split_slash cs)) # tl (split_slash cs))"

definition path_component_of :: "string \<Rightarrow> path_component option" where
  "path_component_of s =
     (if s = [] \<or> s = ''.'' then None else if s = ''..'' then Some ParentDir else Some (Normal s))"

definition path_is_absolute :: "string \<Rightarrow> bool" where
  "path_is_absolute path = starts_with path ''/''"

definition path_components :: "string \<Rightarrow> path_component list" where
  "path_components path =
     (if path_is_absolute path then [RootDir] else if hd (split_slash path) = ''.'' then [CurDir] else [])
      @ List.map_filter path_component_of (split_slash path)"

fun is_normal :: "path_component \<Rightarrow> bool" where
  "is_normal (Normal s) = True"
| "is_normal _ = False"

section \<open>JSON values\<close>

datatype json =
    JNull
  | JBool bool
  | JUInt u64
  | JInt int
  | JFloat string
  | JString string
  | JArray "json list"
  | JObject "(string \<times> json) list"

fun json_get :: "string \<Rightarrow> json \<Rightarrow> json option" where
  "json_get k (JObject members) = map_of members k"
| "json_get k v = None"

fun as_str :: "json \<Rightarrow> string option" where
  "as_str (JString s) = Some s"
| "as_str v = None"

fun as_u64 :: "json \<Rightarrow> u64 option" where
  "as_u64 (JUInt n) = Some n"
| "as_u64 v = None"

definition get_str :: "string \<Rightarrow> json \<Rightarrow> string option" where
  "get_str k v = Option.bind (json_get k v) as_str"

definition get_u64 :: "string \<Rightarrow> json \<Rightarrow> u64 option" where
  "get_u64 k v = Option.bind (json_get k v) as_u64"

section \<open>Durations\<close>

text \<open>\<open>Duration::num_milliseconds\<close> rounds toward zero.\<close>

definition num_milliseconds :: "int \<Rightarrow> int" where
  "num_milliseconds d = (if d \<ge> 0 then d div 1000000 else - ((- d) div 1000000))"

end
