(* ===== verification/Core_Model.thy ===== *)
theory Core_Model
  imports Prelude
begin

text \<open>
  The data of \<open>crates/marketcow-core/src/lib.rs\<close>: prices, levels and books, the market
  catalogue, canonical events with their source evidence, the per-market health records and
  the projection that the single writer publishes. Every struct is a record with the source's
  fields in the source's order (the prefix keeps field names of different structs apart), every
  enum a datatype with the source's variants.

  External code enters through the record \<open>ext\<close>: decimal parsing and remainder of
  \<open>rust_decimal\<close>, and SHA-256 over serialised values. A \<open>decimal\<close> is the exact value of a
  \<open>rust_decimal::Decimal\<close> in units of \<open>10 ^ -28\<close>, the finest scale that type has, so that
  \<open>ZERO\<close>, \<open>ONE\<close> and the comparisons are those of the integers and \<open>normalize\<close>, which keeps the
  value, is the identity.

  \<open>Projection::published_at\<close> is not kept: the source excludes it from the projection's hash as
  observability metadata, and no operation reads it.
\<close>

section \<open>Decimals and external functions\<close>

type_synonym decimal = int
type_synonym price = decimal

definition decimal_one :: decimal where
  "decimal_one = 10 ^ 28"

text \<open>The fields of the \<open>revision_material\<close> object that the code serialises and hashes.\<close>

record facts_material =
  fm_market_id :: string
  fm_condition_id :: string
  fm_price_increment :: price
  fm_size_increment :: decimal
  fm_minimum_order_size :: decimal
  fm_settlement_currency :: string
  fm_start_at :: timestamp
  fm_end_at :: timestamp
  fm_token_ticks :: "(string, price \<times> string) btree"

record ext =
  dec_parse :: "string \<Rightarrow> decimal option"
  dec_rem :: "decimal \<Rightarrow> decimal \<Rightarrow> decimal"
  sha_json :: "json \<Rightarrow> string"
  sha_text :: "string \<Rightarrow> string"
  sha_facts :: "facts_material \<Rightarrow> string"

section \<open>Errors\<close>

text \<open>
  \<open>RustPanic\<close> is not a variant of the Rust enum: it is the branch where the code unwinds
  (an \<open>expect\<close> on \<open>None\<close>, a decimal remainder by zero).
\<close>

datatype core_error =
    InvalidDecimal string
  | InvalidPrice string
  | InvalidQuantity
  | InvalidTickSize
  | SchemaMismatch
  | ScopeMismatch
  | InvalidSourceEvidence
  | DuplicateEvent string
  | CursorGap u64 u64
  | CrossedBook string
  | RecoveryRequired string
  | PathMustBeAbsolute
  | SegmentTooSmall
  | CorruptWal
  | WalStreamMismatch
  | CheckpointHash
  | PersistedWatermarkMismatch
  | ReplayDivergence u64
  | InvalidQueueCapacity
  | SlowConsumer nat
  | ConsumerDisconnected
  | IoError
  | JsonError
  | RustPanic string

section \<open>Books\<close>

record level =
  lv_price :: price
  lv_quantity :: decimal

record book =
  bk_bids :: "(price, decimal) btree"
  bk_asks :: "(price, decimal) btree"
  bk_tick_size :: "price option"
  bk_tick_version :: string
  bk_source_observed_at :: "timestamp option"
  bk_authoritative_refresh_received_at :: "timestamp option"
  bk_last_trade_price :: "price option"
  bk_last_trade_observed_at :: "timestamp option"

definition book_default :: book where
  "book_default = \<lparr> bk_bids = [], bk_asks = [], bk_tick_size = None, bk_tick_version = [],
     bk_source_observed_at = None, bk_authoritative_refresh_received_at = None,
     bk_last_trade_price = None, bk_last_trade_observed_at = None \<rparr>"

datatype side = Bid | Ask

record side_levels =
  sl_side :: side
  sl_levels :: "level list"

section \<open>Catalogue\<close>

datatype lifecycle = Active | Closed | Resolved | Invalid

record outcome_token =
  ot_token_id :: string
  ot_outcome :: string
  ot_instrument_id :: string

datatype fee_status = Executable | InformationalOnly

record fee_provenance =
  fp_source :: string
  fp_source_url :: string
  fp_revision :: string
  fp_payload_sha256 :: string
  fp_observed_at :: timestamp
  fp_field_paths :: "string list"

record fee_schedule =
  fs_schedule_id :: string
  fs_revision :: string
  fs_schedule_version :: string
  fs_currency :: string
  fs_maker_rate :: decimal
  fs_taker_rate :: decimal
  fs_formula_id :: string
  fs_formula :: string
  fs_exponent :: decimal
  fs_quantum :: decimal
  fs_rounding_mode :: string
  fs_tie_semantics :: string
  fs_calculation_status :: fee_status
  fs_effective_from :: timestamp
  fs_effective_to :: "timestamp option"
  fs_observed_at :: timestamp
  fs_provenance :: "fee_provenance list"

record instrument_facts =
  if_price_increment :: price
  if_size_increment :: decimal
  if_minimum_order_size :: decimal
  if_settlement_currency :: string
  if_start_at :: timestamp
  if_end_at :: timestamp
  if_revision :: string
  if_fee_schedule :: "fee_schedule option"

record market_record =
  mk_market_id :: string
  mk_condition_id :: string
  mk_outcomes :: "outcome_token \<times> outcome_token"
  mk_negative_risk_group :: "string option"
  mk_lifecycle_state :: lifecycle
  mk_resolution :: "string option"
  mk_metadata_revision :: string
  mk_observed_at :: timestamp
  mk_terminal_at :: "timestamp option"
  mk_instrument_facts :: "instrument_facts option"

record negative_risk_relation =
  nr_group_id :: string
  nr_member_market_ids :: "string set"
  nr_yes_token_ids :: "string set"
  nr_revision :: string
  nr_complete :: bool
  nr_valid_to :: "timestamp option"

text \<open>The two outcomes in array order.\<close>

definition outcomes :: "market_record \<Rightarrow> outcome_token list" where
  "outcomes m = [fst (mk_outcomes m), snd (mk_outcomes m)]"

section \<open>Events\<close>

datatype event_kind =
    CatalogSnapshot string "market_record list" "negative_risk_relation list"
  | NewMarket string
  | MarketResolved string "string option" "string option"
  | FullBook string "level list" "level list" price string
  | Delta string side "level list"
  | AtomicDelta string "side_levels list" "price option" "price option"
  | BestBidAsk string "price option" "price option"
  | LastTradePrice string price
  | TickSizeChange string "price option" price string
  | SourceGap string string

fun kind_token_id :: "event_kind \<Rightarrow> string" where
  "kind_token_id (CatalogSnapshot catalog_revision _ _) = catalog_revision"
| "kind_token_id (NewMarket condition_id) = condition_id"
| "kind_token_id (MarketResolved condition_id _ _) = condition_id"
| "kind_token_id (FullBook token_id _ _ _ _) = token_id"
| "kind_token_id (Delta token_id _ _) = token_id"
| "kind_token_id (AtomicDelta token_id _ _ _) = token_id"
| "kind_token_id (BestBidAsk token_id _ _) = token_id"
| "kind_token_id (LastTradePrice token_id _) = token_id"
| "kind_token_id (TickSizeChange token_id _ _ _) = token_id"
| "kind_token_id (SourceGap token_id _) = token_id"

record source_evidence =
  se_source :: string
  se_source_url :: "string option"
  se_requested_at :: timestamp
  se_responded_at :: timestamp
  se_observed_at :: timestamp
  se_raw_sha256 :: string
  se_update_frequency :: string
  se_revision :: string
  se_missing :: bool
  se_delayed :: bool
  se_duplicate :: bool
  se_revised :: bool

record canonical_event =
  ev_schema_version :: string
  ev_cursor :: u64
  ev_event_id :: string
  ev_scope_id :: string
  ev_received_at :: timestamp
  ev_source_observed_at :: timestamp
  ev_normalizer_version :: string
  ev_config_revision :: string
  ev_source :: source_evidence
  ev_raw_payload :: json
  ev_kind :: event_kind

section \<open>Health and metadata\<close>

datatype market_status = Recovering | Ready | TemporarilyUnavailable | Quarantined

datatype market_transition = TransitionQuarantined | RecoveryStarted | Recovered

record market_metadata =
  mm_market_id :: string
  mm_market_sequence :: u64
  mm_projection_generation :: u64
  mm_catalog_revision :: string
  mm_event_revision :: string
  mm_projection_status :: market_status
  mm_reason_code :: "string option"
  mm_transition :: "market_transition option"

record persisted_event =
  pe_event :: canonical_event
  pe_applied :: bool
  pe_fail_closed_reason :: "string option"
  pe_market :: "market_metadata option"

record market_health =
  mh_market_id :: string
  mh_projection_status :: market_status
  mh_last_market_sequence :: u64
  mh_gap_from :: "u64 option"
  mh_gap_to :: "u64 option"
  mh_reason_code :: "string option"
  mh_retryable :: bool
  mh_retry_after :: "timestamp option"
  mh_source_observed_at :: "timestamp option"
  mh_last_recovered_at :: "timestamp option"
  mh_projection_generation :: u64
  mh_catalog_revision :: "string option"
  mh_last_event_revision :: "string option"

record token_health =
  th_token_id :: string
  th_market_id :: string
  th_reason_code :: string
  th_retryable :: bool
  th_retry_after :: "timestamp option"
  th_unavailable_since :: timestamp
  th_source_observed_at :: timestamp
  th_projection_generation :: u64
  th_catalog_revision :: "string option"
  th_availability_revision :: string

definition health_recovering :: "string \<Rightarrow> u64 \<Rightarrow> string option \<Rightarrow> market_health" where
  "health_recovering market_id gen catalog_revision = \<lparr>
     mh_market_id = market_id,
     mh_projection_status = Recovering,
     mh_last_market_sequence = 0,
     mh_gap_from = None,
     mh_gap_to = None,
     mh_reason_code = Some ''initial_snapshot_required'',
     mh_retryable = True,
     mh_retry_after = None,
     mh_source_observed_at = None,
     mh_last_recovered_at = None,
     mh_projection_generation = gen,
     mh_catalog_revision = catalog_revision,
     mh_last_event_revision = None \<rparr>"

section \<open>The projection\<close>

record projection =
  pj_generation :: u64
  pj_cursor :: u64
  pj_persisted_cursor :: u64
  pj_scope_id :: string
  pj_books :: "(string, book) btree"
  pj_catalog_revision :: "string option"
  pj_markets :: "(string, market_record) btree"
  pj_condition_to_market :: "(string, string) btree"
  pj_negative_risk_relations :: "(string, negative_risk_relation) btree"
  pj_monitoring_markets :: "(string, market_record) btree"
  pj_monitoring_books :: "(string, book) btree"
  pj_market_health :: "(string, market_health) btree"
  pj_quarantined_token_ids :: "string set"
  pj_token_health :: "(string, token_health) btree"
  pj_market_recovery_token_ids :: "(string, string set) btree"
  pj_unresolved_gaps :: "string set"
  pj_recent_event_ids :: "string list"
  pj_ready :: bool
  pj_fail_closed_reason :: "string option"

definition bootstrap :: "string \<Rightarrow> projection" where
  "bootstrap scope_id = \<lparr>
     pj_generation = 0, pj_cursor = 0, pj_persisted_cursor = 0, pj_scope_id = scope_id,
     pj_books = [], pj_catalog_revision = None, pj_markets = [], pj_condition_to_market = [],
     pj_negative_risk_relations = [], pj_monitoring_markets = [], pj_monitoring_books = [],
     pj_market_health = [], pj_quarantined_token_ids = {}, pj_token_health = [],
     pj_market_recovery_token_ids = [], pj_unresolved_gaps = {}, pj_recent_event_ids = [],
     pj_ready = False, pj_fail_closed_reason = Some ''bootstrap_required'' \<rparr>"

section \<open>Parsing of prices, levels and quantities\<close>

definition price_parse :: "ext \<Rightarrow> string \<Rightarrow> core_error + price" where
  "price_parse x value =
     (case dec_parse x value of
        None \<Rightarrow> Inl (InvalidDecimal value)
      | Some parsed \<Rightarrow>
          if parsed < 0 \<or> parsed > decimal_one then Inl (InvalidPrice value) else Inr parsed)"

definition price_parse_tick :: "ext \<Rightarrow> string \<Rightarrow> core_error + price" where
  "price_parse_tick x value =
     (case price_parse x value of
        Inl e \<Rightarrow> Inl e
      | Inr tick \<Rightarrow> if tick = 0 then Inl InvalidTickSize else Inr tick)"

definition level_new :: "ext \<Rightarrow> string \<Rightarrow> string \<Rightarrow> core_error + level" where
  "level_new x price quantity =
     (case dec_parse x quantity of
        None \<Rightarrow> Inl (InvalidDecimal quantity)
      | Some q \<Rightarrow>
          if q < 0 then Inl InvalidQuantity
          else (case price_parse x price of
                  Inl e \<Rightarrow> Inl e
                | Inr p \<Rightarrow> Inr \<lparr> lv_price = p, lv_quantity = q \<rparr>))"

definition quantity_parse_positive :: "ext \<Rightarrow> string \<Rightarrow> core_error + decimal" where
  "quantity_parse_positive x value =
     (case dec_parse x value of
        None \<Rightarrow> Inl (InvalidDecimal value)
      | Some parsed \<Rightarrow> if parsed \<le> 0 then Inl InvalidQuantity else Inr parsed)"

lemma price_parse_range: "price_parse x v = Inr p \<Longrightarrow> 0 \<le> p \<and> p \<le> decimal_one"
  by (auto simp: price_parse_def split: option.splits if_splits)

lemma price_parse_tick_range: "price_parse_tick x v = Inr p \<Longrightarrow> 0 < p \<and> p \<le> decimal_one"
  using price_parse_range [of x v] by (fastforce simp: price_parse_tick_def split: sum.splits if_splits)

lemma level_new_range:
  "level_new x p q = Inr l \<Longrightarrow> 0 \<le> lv_quantity l \<and> 0 \<le> lv_price l \<and> lv_price l \<le> decimal_one"
  using price_parse_range [of x p] by (fastforce simp: level_new_def split: option.splits sum.splits if_splits)

end
