(* ===== verification/Core_Book.thy ===== *)
theory Core_Book
  imports Core_Model
begin

text \<open>
  The order book of \<open>marketcow-core\<close> (\<open>impl Book\<close>): replacement by a full snapshot, level
  updates, the expansion of a venue best-bid/best-ask into explicit level removals, and the
  crossed-or-locked test. The lemmas give each operation by the lookups of the resulting
  sides; the main one states that the expanded change list, replayed on the previous book,
  yields the pruned book, so the persisted delta needs no other evidence.
\<close>

section \<open>Operations\<close>

definition levels_tick_aligned :: "ext \<Rightarrow> price \<Rightarrow> level list \<Rightarrow> bool" where
  "levels_tick_aligned x tick_size levels =
     (tick_size \<noteq> 0 \<and> list_all (\<lambda>l. dec_rem x (lv_price l) tick_size = 0) levels)"

definition side_of_levels :: "level list \<Rightarrow> (price, decimal) btree" where
  "side_of_levels levels =
     bt_of_list (map (\<lambda>l. (lv_price l, lv_quantity l)) (filter (\<lambda>l. lv_quantity l \<noteq> 0) levels))"

definition book_replace ::
  "level list \<Rightarrow> level list \<Rightarrow> price \<Rightarrow> string \<Rightarrow> timestamp \<Rightarrow> book \<Rightarrow> book" where
  "book_replace bids asks tick_size tick_version at b = b\<lparr>
     bk_bids := side_of_levels bids,
     bk_asks := side_of_levels asks,
     bk_tick_size := Some tick_size,
     bk_tick_version := tick_version,
     bk_source_observed_at := Some at \<rparr>"

definition apply_level :: "level \<Rightarrow> (price, decimal) btree \<Rightarrow> (price, decimal) btree" where
  "apply_level l target =
     (if lv_quantity l = 0 then bt_remove (lv_price l) target
      else bt_insert (lv_price l) (lv_quantity l) target)"

definition book_apply :: "side \<Rightarrow> level list \<Rightarrow> timestamp \<Rightarrow> book \<Rightarrow> book" where
  "book_apply s levels at b =
     (case s of
        Bid \<Rightarrow> b\<lparr> bk_bids := fold apply_level levels (bk_bids b), bk_source_observed_at := Some at \<rparr>
      | Ask \<Rightarrow> b\<lparr> bk_asks := fold apply_level levels (bk_asks b), bk_source_observed_at := Some at \<rparr>)"

definition book_apply_batch :: "side_levels list \<Rightarrow> timestamp \<Rightarrow> book \<Rightarrow> book" where
  "book_apply_batch changes at b =
     fold (\<lambda>c. book_apply (sl_side c) (sl_levels c) at) changes b"

text \<open>\<open>bid_writes\<close> and \<open>ask_writes\<close>: the final assignment of every touched price of a side.\<close>

definition side_writes :: "side \<Rightarrow> side_levels list \<Rightarrow> (price, decimal) btree" where
  "side_writes s changes =
     fold (\<lambda>c target. fold (\<lambda>l. bt_insert (lv_price l) (lv_quantity l)) (sl_levels c) target)
       (filter (\<lambda>c. sl_side c = s) changes) []"

text \<open>
  The prices of a side to remove: those retained from the book and those written by the frame
  that lie outside the venue's range (\<open>outside\<close>) and are not deleted by the frame itself.
\<close>

definition side_removals ::
  "(price \<Rightarrow> bool) \<Rightarrow> (price, decimal) btree \<Rightarrow> (price, decimal) btree \<Rightarrow> price list" where
  "side_removals outside held writes =
     bs_of_list
       (filter (\<lambda>p. outside p \<and> is_none_or (\<lambda>q. q \<noteq> 0) (bt_get writes p)) (bt_keys held)
        @ map fst (filter (\<lambda>(p, q). q \<noteq> 0 \<and> outside p) writes))"

definition removal_levels :: "side \<Rightarrow> price list \<Rightarrow> side_levels list" where
  "removal_levels s removals =
     (if removals = [] then []
      else [\<lparr> sl_side = s, sl_levels = map (\<lambda>p. \<lparr> lv_price = p, lv_quantity = 0 \<rparr>) removals \<rparr>])"

definition expected_bid :: "price option \<Rightarrow> price option" where
  "expected_bid best_bid = opt_filter (\<lambda>p. p \<noteq> 0) best_bid"

definition expected_ask :: "price option \<Rightarrow> price option" where
  "expected_ask best_ask = opt_filter (\<lambda>p. p \<noteq> decimal_one) best_ask"

definition outside_bid :: "price option \<Rightarrow> price \<Rightarrow> bool" where
  "outside_bid expected p = is_none_or (\<lambda>e. p > e) expected"

definition outside_ask :: "price option \<Rightarrow> price \<Rightarrow> bool" where
  "outside_ask expected p = is_none_or (\<lambda>e. p < e) expected"

definition replay_complete_atomic_changes ::
  "side_levels list \<Rightarrow> price option \<Rightarrow> price option \<Rightarrow> book \<Rightarrow> side_levels list" where
  "replay_complete_atomic_changes changes best_bid best_ask b =
     (if best_bid = None \<and> best_ask = None then changes
      else
        let bid_removals = side_removals (outside_bid (expected_bid best_bid)) (bk_bids b) (side_writes Bid changes);
            ask_removals = side_removals (outside_ask (expected_ask best_ask)) (bk_asks b) (side_writes Ask changes)
        in changes @ removal_levels Bid bid_removals @ removal_levels Ask ask_removals)"

definition crossed_or_locked :: "book \<Rightarrow> bool" where
  "crossed_or_locked b =
     (case (bt_last (bk_bids b), bt_first (bk_asks b)) of
        (Some (bid, _), Some (ask, _)) \<Rightarrow> bid \<ge> ask
      | _ \<Rightarrow> False)"

section \<open>Invariant of a stored book\<close>

text \<open>
  What every book of a projection satisfies: both sides are ordered maps without empty levels,
  no bid reaches an ask, and every retained price is a multiple of a non-zero tick.
\<close>

definition side_wf :: "(price, decimal) btree \<Rightarrow> bool" where
  "side_wf m = (bt_wf m \<and> (\<forall>(p, q) \<in> set m. q \<noteq> 0))"

definition book_wf :: "book \<Rightarrow> bool" where
  "book_wf b = (side_wf (bk_bids b) \<and> side_wf (bk_asks b))"

definition book_aligned :: "ext \<Rightarrow> book \<Rightarrow> bool" where
  "book_aligned x b =
     (\<forall>p \<in> set (bt_keys (bk_bids b)) \<union> set (bt_keys (bk_asks b)).
        \<exists>t. bk_tick_size b = Some t \<and> dec_rem x p t = 0)"

definition book_ok :: "ext \<Rightarrow> book \<Rightarrow> bool" where
  "book_ok x b = (book_wf b \<and> \<not> crossed_or_locked b \<and> book_aligned x b)"

lemma side_wf_iff: "side_wf m \<longleftrightarrow> bt_wf m \<and> (\<forall>p. bt_get m p \<noteq> Some 0)"
  by (auto simp: side_wf_def bt_get_iff)

lemma side_wf_empty [simp]: "side_wf []"
  by (simp add: side_wf_def)

lemma side_wf_bt_wf: "side_wf m \<Longrightarrow> bt_wf m"
  by (simp add: side_wf_def)

lemma book_default_ok: "book_ok x book_default"
  by (simp add: book_ok_def book_wf_def book_aligned_def crossed_or_locked_def book_default_def
      bt_first_def bt_last_def bt_keys_def)

text \<open>Crossing, without reference to the list ends.\<close>

lemma crossed_or_locked_iff:
  assumes "bt_wf (bk_bids b)" and "bt_wf (bk_asks b)"
  shows "crossed_or_locked b \<longleftrightarrow>
    (\<exists>p \<in> set (bt_keys (bk_bids b)). \<exists>q \<in> set (bt_keys (bk_asks b)). p \<ge> q)"
proof
  assume "crossed_or_locked b"
  then show "\<exists>p \<in> set (bt_keys (bk_bids b)). \<exists>q \<in> set (bt_keys (bk_asks b)). p \<ge> q"
    by (auto simp: crossed_or_locked_def bt_keys_def split: option.splits dest!: bt_first_in bt_last_in)
      (metis fst_conv image_eqI)
next
  assume "\<exists>p \<in> set (bt_keys (bk_bids b)). \<exists>q \<in> set (bt_keys (bk_asks b)). p \<ge> q"
  then obtain p q where pq: "p \<in> fst ` set (bk_bids b)" "q \<in> fst ` set (bk_asks b)" "p \<ge> q"
    by (auto simp: bt_keys_def)
  then obtain k v k' v' where kv: "bt_last (bk_bids b) = Some (k, v)" "bt_first (bk_asks b) = Some (k', v')"
    by (cases "bt_last (bk_bids b)"; cases "bt_first (bk_asks b)") auto
  with assms pq have "k \<ge> k'"
    by (meson bt_first_least bt_last_greatest order.trans)
  with kv show "crossed_or_locked b" by (simp add: crossed_or_locked_def)
qed

section \<open>Level updates by lookups\<close>

lemma bt_get_apply_level:
  "bt_get (apply_level l m) p =
     (if p = lv_price l then (if lv_quantity l = 0 then None else Some (lv_quantity l)) else bt_get m p)"
  by (simp add: apply_level_def)

lemma side_wf_apply_level: "side_wf m \<Longrightarrow> side_wf (apply_level l m)"
  by (auto simp: side_wf_iff bt_get_apply_level) (auto simp: apply_level_def)

lemma side_wf_fold_apply: "side_wf m \<Longrightarrow> side_wf (fold apply_level ls m)"
  by (induction ls arbitrary: m) (auto simp: side_wf_apply_level)

text \<open>The value a change list assigns to a price: that of its last level with this price.\<close>

definition assigned :: "level list \<Rightarrow> price \<Rightarrow> decimal option" where
  "assigned ls p = map_of (rev (map (\<lambda>l. (lv_price l, lv_quantity l)) ls)) p"

lemma assigned_Nil [simp]: "assigned [] p = None"
  by (simp add: assigned_def)

lemma assigned_append: "assigned (ls @ ls') p = opt_or (assigned ls' p) (assigned ls p)"
  by (simp add: assigned_def map_add_def opt_or_def split: option.splits)

lemma assigned_single: "assigned [l] p = (if p = lv_price l then Some (lv_quantity l) else None)"
  by (simp add: assigned_def)

lemma assigned_Cons: "assigned (l # ls) p =
  opt_or (assigned ls p) (if p = lv_price l then Some (lv_quantity l) else None)"
  using assigned_append [of "[l]" ls p] by (simp add: assigned_single)

lemma bt_get_fold_apply:
  "bt_get (fold apply_level ls m) p =
     (case assigned ls p of None \<Rightarrow> bt_get m p | Some q \<Rightarrow> if q = 0 then None else Some q)"
  by (induction ls arbitrary: m)
    (auto simp: assigned_Cons bt_get_apply_level opt_or_def split: option.splits)

definition side_levels_of :: "side \<Rightarrow> side_levels list \<Rightarrow> level list" where
  "side_levels_of s changes = concat (map sl_levels (filter (\<lambda>c. sl_side c = s) changes))"

lemma side_levels_of_simps [simp]:
  "side_levels_of s [] = []"
  "side_levels_of s (c # cs) = (if sl_side c = s then sl_levels c else []) @ side_levels_of s cs"
  "side_levels_of s (cs @ cs') = side_levels_of s cs @ side_levels_of s cs'"
  by (simp_all add: side_levels_of_def)

lemma bk_bids_apply_batch:
  "bk_bids (book_apply_batch changes at b) = fold apply_level (side_levels_of Bid changes) (bk_bids b)"
  by (induction changes arbitrary: b)
    (auto simp: book_apply_batch_def book_apply_def split: side.splits)

lemma bk_asks_apply_batch:
  "bk_asks (book_apply_batch changes at b) = fold apply_level (side_levels_of Ask changes) (bk_asks b)"
  by (induction changes arbitrary: b)
    (auto simp: book_apply_batch_def book_apply_def split: side.splits)

lemma book_apply_frame [simp]:
  "bk_tick_size (book_apply s ls at b) = bk_tick_size b"
  "bk_tick_version (book_apply s ls at b) = bk_tick_version b"
  "bk_authoritative_refresh_received_at (book_apply s ls at b) = bk_authoritative_refresh_received_at b"
  "bk_source_observed_at (book_apply s ls at b) = Some at"
  by (simp_all add: book_apply_def split: side.splits)

lemma book_apply_batch_frame [simp]:
  "bk_tick_size (book_apply_batch cs at b) = bk_tick_size b"
  "bk_tick_version (book_apply_batch cs at b) = bk_tick_version b"
  "bk_authoritative_refresh_received_at (book_apply_batch cs at b) = bk_authoritative_refresh_received_at b"
  by (induction cs arbitrary: b) (auto simp: book_apply_batch_def)

lemma book_wf_apply: "book_wf b \<Longrightarrow> book_wf (book_apply s ls at b)"
  by (auto simp: book_wf_def book_apply_def side_wf_fold_apply split: side.splits)

lemma book_wf_apply_batch: "book_wf b \<Longrightarrow> book_wf (book_apply_batch cs at b)"
  by (simp add: book_wf_def bk_bids_apply_batch bk_asks_apply_batch side_wf_fold_apply)

lemma side_wf_of_levels: "side_wf (side_of_levels ls)"
proof -
  have "bt_get (side_of_levels ls) p \<noteq> Some 0" for p
    by (auto simp: side_of_levels_def bt_get_of_list dest!: map_of_SomeD)
  then show ?thesis by (simp add: side_wf_iff) (simp add: side_of_levels_def)
qed

lemma book_wf_replace: "book_wf (book_replace bids asks t v at b)"
  by (simp add: book_wf_def book_replace_def side_wf_of_levels)

section \<open>The expanded change list\<close>

lemma bt_get_fold_writes:
  "bt_get (fold (\<lambda>l. bt_insert (lv_price l) (lv_quantity l)) ls m) p = opt_or (assigned ls p) (bt_get m p)"
  by (induction ls arbitrary: m) (auto simp: assigned_Cons opt_or_def split: option.splits)

lemma bt_get_side_writes: "bt_get (side_writes s cs) p = assigned (side_levels_of s cs) p"
proof -
  have "bt_get (fold (\<lambda>c. fold (\<lambda>l. bt_insert (lv_price l) (lv_quantity l)) (sl_levels c)) cs m) p
    = opt_or (assigned (concat (map sl_levels cs)) p) (bt_get m p)" for cs :: "side_levels list" and m
    by (induction cs arbitrary: m)
      (auto simp: bt_get_fold_writes assigned_append opt_or_def split: option.splits)
  then show ?thesis
    by (simp add: side_writes_def side_levels_of_def opt_or_def split: option.splits)
qed

lemma bt_wf_fold_writes: "bt_wf m \<Longrightarrow> bt_wf (fold (\<lambda>l. bt_insert (lv_price l) (lv_quantity l)) ls m)"
  by (induction ls arbitrary: m) auto

lemma bt_wf_side_writes: "bt_wf (side_writes s cs)"
proof -
  have "bt_wf m \<Longrightarrow> bt_wf (fold (\<lambda>c. fold (\<lambda>l. bt_insert (lv_price l) (lv_quantity l)) (sl_levels c)) cs m)"
    for cs :: "side_levels list" and m
    by (induction cs arbitrary: m) (auto simp: bt_wf_fold_writes)
  then show ?thesis by (simp add: side_writes_def)
qed

lemma side_removals_set:
  assumes "bt_wf writes"
  shows "p \<in> set (side_removals outside held writes) \<longleftrightarrow>
    outside p \<and> (case bt_get writes p of None \<Rightarrow> p \<in> set (bt_keys held) | Some q \<Rightarrow> q \<noteq> 0)"
proof -
  have "p \<in> fst ` {y \<in> set writes. case y of (p, q) \<Rightarrow> q \<noteq> 0 \<and> outside p} \<longleftrightarrow>
    (\<exists>q. bt_get writes p = Some q \<and> q \<noteq> 0 \<and> outside p)"
    using assms by (force simp: bt_get_iff)
  then show ?thesis
    by (auto simp: side_removals_def split: option.splits)
qed

lemma assigned_removals:
  "assigned (map (\<lambda>p. \<lparr> lv_price = p, lv_quantity = 0 \<rparr>) ps) p = (if p \<in> set ps then Some 0 else None)"
  by (induction ps) (auto simp: assigned_Cons)

lemma side_levels_of_removals:
  "side_levels_of s (removal_levels s' ps) =
     (if s = s' then map (\<lambda>p. \<lparr> lv_price = p, lv_quantity = 0 \<rparr>) ps else [])"
  by (simp add: removal_levels_def)

text \<open>The two sides of the expanded list, by lookups.\<close>

definition bid_outside :: "price option \<Rightarrow> price \<Rightarrow> bool" where
  "bid_outside best_bid = outside_bid (expected_bid best_bid)"

definition ask_outside :: "price option \<Rightarrow> price \<Rightarrow> bool" where
  "ask_outside best_ask = outside_ask (expected_ask best_ask)"

lemma expanded_bids:
  assumes "\<not> (bb = None \<and> ba = None)"
  shows "assigned (side_levels_of Bid (replay_complete_atomic_changes cs bb ba b)) p =
    (if bid_outside bb p \<and> (case assigned (side_levels_of Bid cs) p of
        None \<Rightarrow> p \<in> set (bt_keys (bk_bids b)) | Some q \<Rightarrow> q \<noteq> 0)
     then Some 0 else assigned (side_levels_of Bid cs) p)"
  using assms
  by (auto simp: replay_complete_atomic_changes_def Let_def side_levels_of_removals assigned_append
      assigned_removals side_removals_set bt_wf_side_writes bt_get_side_writes bid_outside_def
      split: option.splits)

lemma expanded_asks:
  assumes "\<not> (bb = None \<and> ba = None)"
  shows "assigned (side_levels_of Ask (replay_complete_atomic_changes cs bb ba b)) p =
    (if ask_outside ba p \<and> (case assigned (side_levels_of Ask cs) p of
        None \<Rightarrow> p \<in> set (bt_keys (bk_asks b)) | Some q \<Rightarrow> q \<noteq> 0)
     then Some 0 else assigned (side_levels_of Ask cs) p)"
  using assms
  by (auto simp: replay_complete_atomic_changes_def Let_def side_levels_of_removals assigned_append
      assigned_removals side_removals_set bt_wf_side_writes bt_get_side_writes ask_outside_def
      split: option.splits)

text \<open>Pruning a book by the venue's best bid and ask: what the atomic-delta step does in place.\<close>

definition prune_bids :: "price option \<Rightarrow> (price, decimal) btree \<Rightarrow> (price, decimal) btree" where
  "prune_bids expected m =
     (case expected of Some e \<Rightarrow> bt_retain (\<lambda>p q. p \<le> e) m | None \<Rightarrow> [])"

definition prune_asks :: "price option \<Rightarrow> (price, decimal) btree \<Rightarrow> (price, decimal) btree" where
  "prune_asks expected m =
     (case expected of Some e \<Rightarrow> bt_retain (\<lambda>p q. p \<ge> e) m | None \<Rightarrow> [])"

lemma bt_get_prune_bids:
  "bt_get (prune_bids expected m) p = (if outside_bid expected p then None else bt_get m p)"
  by (auto simp: prune_bids_def outside_bid_def split: option.splits)

lemma bt_get_prune_asks:
  "bt_get (prune_asks expected m) p = (if outside_ask expected p then None else bt_get m p)"
  by (auto simp: prune_asks_def outside_ask_def split: option.splits)

lemma bt_wf_prune: "bt_wf m \<Longrightarrow> bt_wf (prune_bids e m)" "bt_wf m \<Longrightarrow> bt_wf (prune_asks e m)"
  by (auto simp: prune_bids_def prune_asks_def split: option.splits)

lemma side_wf_prune: "side_wf m \<Longrightarrow> side_wf (prune_bids e m)" "side_wf m \<Longrightarrow> side_wf (prune_asks e m)"
  by (auto simp: side_wf_iff bt_wf_prune bt_get_prune_bids bt_get_prune_asks)

lemma keys_bt_get: "p \<in> set (bt_keys m) \<longleftrightarrow> bt_get m p \<noteq> None"
  using bt_contains_iff_keys [of m p] by (simp add: bt_contains_def)

lemma expanded_apply_bids:
  assumes "\<not> (bb = None \<and> ba = None)" and "book_wf b"
  shows "bk_bids (book_apply_batch (replay_complete_atomic_changes cs bb ba b) at b)
    = prune_bids (expected_bid bb) (bk_bids (book_apply_batch cs at b))"
proof (rule bt_ext)
  fix p
  show "bt_get (bk_bids (book_apply_batch (replay_complete_atomic_changes cs bb ba b) at b)) p
    = bt_get (prune_bids (expected_bid bb) (bk_bids (book_apply_batch cs at b))) p"
    using expanded_bids [OF assms(1), of cs b p]
    by (simp add: bk_bids_apply_batch bt_get_fold_apply bt_get_prune_bids keys_bt_get bid_outside_def
        split: option.splits if_splits)
qed (use assms(2) in \<open>auto simp: book_wf_def bk_bids_apply_batch intro!: side_wf_bt_wf side_wf_fold_apply side_wf_prune\<close>)

lemma expanded_apply_asks:
  assumes "\<not> (bb = None \<and> ba = None)" and "book_wf b"
  shows "bk_asks (book_apply_batch (replay_complete_atomic_changes cs bb ba b) at b)
    = prune_asks (expected_ask ba) (bk_asks (book_apply_batch cs at b))"
proof (rule bt_ext)
  fix p
  show "bt_get (bk_asks (book_apply_batch (replay_complete_atomic_changes cs bb ba b) at b)) p
    = bt_get (prune_asks (expected_ask ba) (bk_asks (book_apply_batch cs at b))) p"
    using expanded_asks [OF assms(1), of cs b p]
    by (simp add: bk_asks_apply_batch bt_get_fold_apply bt_get_prune_asks keys_bt_get ask_outside_def
        split: option.splits if_splits)
qed (use assms(2) in \<open>auto simp: book_wf_def bk_asks_apply_batch intro!: side_wf_bt_wf side_wf_fold_apply side_wf_prune\<close>)

text \<open>Expanding an expanded list adds nothing: no price is left to remove.\<close>

lemma side_removals_empty:
  assumes "bt_wf writes"
    and "\<And>p. outside p \<Longrightarrow> (case bt_get writes p of None \<Rightarrow> p \<notin> set (bt_keys held) | Some q \<Rightarrow> q = 0)"
  shows "side_removals outside held writes = []"
proof -
  have "p \<notin> set (side_removals outside held writes)" for p
    using assms(2) [of p] by (auto simp: side_removals_set [OF assms(1)] split: option.splits)
  then show ?thesis by (metis last_in_set)
qed

lemma expand_idempotent:
  "replay_complete_atomic_changes (replay_complete_atomic_changes cs bb ba b) bb ba b
    = replay_complete_atomic_changes cs bb ba b"
proof (cases "bb = None \<and> ba = None")
  case True
  then show ?thesis by (simp add: replay_complete_atomic_changes_def)
next
  case False
  let ?cs' = "replay_complete_atomic_changes cs bb ba b"
  have "side_removals (outside_bid (expected_bid bb)) (bk_bids b) (side_writes Bid ?cs') = []"
    by (rule side_removals_empty [OF bt_wf_side_writes])
      (auto simp: bt_get_side_writes expanded_bids [OF False] bid_outside_def split: option.splits)
  moreover have "side_removals (outside_ask (expected_ask ba)) (bk_asks b) (side_writes Ask ?cs') = []"
    by (rule side_removals_empty [OF bt_wf_side_writes])
      (auto simp: bt_get_side_writes expanded_asks [OF False] ask_outside_def split: option.splits)
  ultimately show ?thesis
    using False
    by (subst replay_complete_atomic_changes_def) (simp add: Let_def removal_levels_def)
qed

text \<open>Every level of the expansion has a price of the book or of the frame.\<close>

lemma expand_levels_aligned:
  assumes "\<forall>c \<in> set cs. levels_tick_aligned x t (sl_levels c)" and "t \<noteq> 0"
    and "\<forall>p \<in> set (bt_keys (bk_bids b)) \<union> set (bt_keys (bk_asks b)). dec_rem x p t = 0"
  shows "\<forall>c \<in> set (replay_complete_atomic_changes cs bb ba b). levels_tick_aligned x t (sl_levels c)"
proof -
  have al: "dec_rem x p t = 0" if a: "assigned (side_levels_of s cs) p = Some q" for s p q
  proof -
    from a have "(p, q) \<in> (\<lambda>l. (lv_price l, lv_quantity l)) ` set (side_levels_of s cs)"
      by (auto simp: assigned_def dest: map_of_SomeD)
    then show ?thesis
      using assms(1) by (auto simp: side_levels_of_def levels_tick_aligned_def list_all_iff)
  qed
  have "p \<in> set (side_removals out held (side_writes s cs)) \<Longrightarrow> held = bk_bids b \<or> held = bk_asks b
    \<Longrightarrow> dec_rem x p t = 0" for p out held s
    using al [where p = p and s = s] assms(3)
    by (auto simp: side_removals_set [OF bt_wf_side_writes] bt_get_side_writes split: option.splits)
  then show ?thesis
    using assms(1,2)
    by (auto simp: replay_complete_atomic_changes_def Let_def removal_levels_def levels_tick_aligned_def
        list_all_iff split: if_splits)
qed

text \<open>Best prices of a side.\<close>

definition best_bid_of :: "book \<Rightarrow> price option" where
  "best_bid_of b = map_option fst (bt_last (bk_bids b))"

definition best_ask_of :: "book \<Rightarrow> price option" where
  "best_ask_of b = map_option fst (bt_first (bk_asks b))"

lemma crossed_or_locked_best:
  "crossed_or_locked b \<longleftrightarrow> (\<exists>p q. best_bid_of b = Some p \<and> best_ask_of b = Some q \<and> p \<ge> q)"
  by (auto simp: crossed_or_locked_def best_bid_of_def best_ask_of_def split: option.splits)

end
