(* ===== verification/Core_Projection.thy ===== *)
theory Core_Projection
  imports Core_Book
begin

text \<open>
  The read side of \<open>impl Projection\<close> (\<open>marketcow-core\<close>): which markets and tokens are
  configured, public, available or quarantined, the readiness predicates over books and ticks,
  and the pruning of gaps that belong only to retained markets; then the validation of a
  catalogue snapshot (\<open>validated_catalog\<close>) and of a fee schedule.
\<close>

section \<open>Fee schedules\<close>

definition provenance_complete :: "fee_provenance \<Rightarrow> bool" where
  "provenance_complete item =
     (fp_source item \<noteq> [] \<and> fp_source_url item \<noteq> [] \<and> fp_revision item \<noteq> []
      \<and> is_digest (fp_payload_sha256 item)
      \<and> fp_field_paths item \<noteq> [] \<and> list_all (\<lambda>path. path \<noteq> []) (fp_field_paths item))"

definition fee_schedule_is_complete :: "fee_schedule \<Rightarrow> bool" where
  "fee_schedule_is_complete s =
     (is_digest (fs_schedule_id s)
      \<and> is_digest (fs_revision s)
      \<and> fs_schedule_version s \<noteq> []
      \<and> fs_currency s \<noteq> []
      \<and> fs_maker_rate s \<ge> 0
      \<and> fs_taker_rate s \<ge> 0
      \<and> fs_formula_id s \<noteq> []
      \<and> fs_formula s \<noteq> []
      \<and> fs_exponent s \<ge> 0
      \<and> fs_quantum s > 0
      \<and> fs_rounding_mode s \<noteq> []
      \<and> fs_tie_semantics s \<noteq> []
      \<and> \<not> (fs_calculation_status s = Executable
            \<and> (eq_ignore_ascii_case (fs_rounding_mode s) ''UNSPECIFIED''
               \<or> eq_ignore_ascii_case (fs_tie_semantics s) ''unspecified''))
      \<and> is_none_or (\<lambda>to. to > fs_effective_from s) (fs_effective_to s)
      \<and> fs_provenance s \<noteq> []
      \<and> list_all provenance_complete (fs_provenance s))"

section \<open>Markets and tokens of a projection\<close>

abbreviation is_active :: "market_record \<Rightarrow> bool" where
  "is_active m \<equiv> mk_lifecycle_state m = Active"

definition market_tokens :: "market_record \<Rightarrow> string list" where
  "market_tokens m = map ot_token_id (outcomes m)"

definition has_token :: "string \<Rightarrow> market_record \<Rightarrow> bool" where
  "has_token t m = list_ex (\<lambda>outcome. ot_token_id outcome = t) (outcomes m)"

definition active_markets :: "projection \<Rightarrow> market_record list" where
  "active_markets p = filter is_active (bt_values (pj_markets p))"

definition market_is_public :: "projection \<Rightarrow> string \<Rightarrow> bool" where
  "market_is_public p market_id =
     is_none_or (\<lambda>h. mh_projection_status h = Ready) (bt_get (pj_market_health p) market_id)"

definition public_markets :: "projection \<Rightarrow> market_record list" where
  "public_markets p = filter (\<lambda>m. market_is_public p (mk_market_id m)) (active_markets p)"

definition market_id_for_token :: "projection \<Rightarrow> string \<Rightarrow> string option" where
  "market_id_for_token p t = map_option mk_market_id (find (has_token t) (bt_values (pj_markets p)))"

definition active_market_ids :: "projection \<Rightarrow> string set" where
  "active_market_ids p = set (map mk_market_id (public_markets p))"

definition configured_market_ids :: "projection \<Rightarrow> string set" where
  "configured_market_ids p = set (map mk_market_id (active_markets p))"

definition configured_token_ids :: "projection \<Rightarrow> string set" where
  "configured_token_ids p = set (concat (map market_tokens (active_markets p)))"

definition available_token_ids :: "projection \<Rightarrow> string set" where
  "available_token_ids p = configured_token_ids p - pj_quarantined_token_ids p"

definition unavailable_token_ids :: "projection \<Rightarrow> string set" where
  "unavailable_token_ids p = configured_token_ids p \<inter> pj_quarantined_token_ids p"

definition quarantined_market_ids :: "projection \<Rightarrow> string set" where
  "quarantined_market_ids p =
     set (map fst (filter
       (\<lambda>(market_id, h). is_some_and is_active (bt_get (pj_markets p) market_id)
          \<and> mh_projection_status h \<noteq> Ready)
       (pj_market_health p)))"

definition active_token_ids :: "projection \<Rightarrow> string set" where
  "active_token_ids p =
     (if pj_catalog_revision p = None then set (bt_keys (pj_books p))
      else set (concat (map market_tokens (public_markets p))))"

definition token_has_recovery_gap :: "projection \<Rightarrow> string \<Rightarrow> bool" where
  "token_has_recovery_gap p t = (t \<in> pj_unresolved_gaps p \<or> t \<in> pj_quarantined_token_ids p)"

section \<open>Readiness predicates\<close>

definition market_ticks_consistent :: "projection \<Rightarrow> market_record \<Rightarrow> bool" where
  "market_ticks_consistent p m =
     is_none_or (\<lambda>facts.
        list_all (\<lambda>t. is_some_and
            (\<lambda>b. bk_tick_version b \<noteq> [] \<and> bk_tick_size b = Some (if_price_increment facts))
            (bt_get (pj_books p) t)) (market_tokens m))
       (mk_instrument_facts m)"

definition instrument_ticks_consistent :: "projection \<Rightarrow> bool" where
  "instrument_ticks_consistent p =
     (pj_catalog_revision p = None \<or> list_all (market_ticks_consistent p) (public_markets p))"

definition active_market_books_two_sided :: "projection \<Rightarrow> bool" where
  "active_market_books_two_sided p =
     (pj_catalog_revision p = None \<or>
      list_all (\<lambda>m. list_all (\<lambda>t. is_some_and (\<lambda>b. bk_bids b \<noteq> [] \<and> bk_asks b \<noteq> [])
           (bt_get (pj_books p) t)) (market_tokens m)) (public_markets p))"

definition catalog_books_complete :: "projection \<Rightarrow> bool" where
  "catalog_books_complete p =
     (pj_catalog_revision p = None \<or>
      list_all (\<lambda>m. list_all (bt_contains (pj_books p)) (market_tokens m)) (public_markets p))"

definition usable_projection :: "projection \<Rightarrow> bool" where
  "usable_projection p =
     (if pj_catalog_revision p = None then pj_books p \<noteq> [] else active_market_ids p \<noteq> {})"

definition prune_stale_scope_gaps :: "projection \<Rightarrow> nat \<times> projection" where
  "prune_stale_scope_gaps p =
     (let configured_tokens = configured_token_ids p;
          known_tokens = configured_tokens
            \<union> set (concat (map market_tokens (bt_values (pj_monitoring_markets p))));
          gaps = Set.filter (\<lambda>gap. gap \<notin> known_tokens \<or> gap \<in> configured_tokens) (pj_unresolved_gaps p);
          removed = card (pj_unresolved_gaps p) - card gaps;
          q = p\<lparr> pj_unresolved_gaps := gaps \<rparr>
      in if removed > 0 then
           let ready = gaps = {} \<and> usable_projection q \<and> catalog_books_complete q
                 \<and> instrument_ticks_consistent q \<and> active_market_books_two_sided q;
               q' = q\<lparr> pj_ready := ready \<rparr>
           in (removed, if ready then q'\<lparr> pj_fail_closed_reason := None \<rparr> else q')
         else (removed, q))"

section \<open>Catalogue validation\<close>

text \<open>The accumulators of the first loop of \<open>validated_catalog\<close>.\<close>

record catalog_acc =
  ca_by_market :: "(string, market_record) btree"
  ca_by_condition :: "(string, string) btree"
  ca_active_tokens :: "string set"
  ca_expected_groups :: "(string, string set \<times> string set) btree"
  ca_all_tokens :: "string set"
  ca_all_instruments :: "string set"

definition catalog_acc_empty :: catalog_acc where
  "catalog_acc_empty = \<lparr> ca_by_market = [], ca_by_condition = [], ca_active_tokens = {},
     ca_expected_groups = [], ca_all_tokens = {}, ca_all_instruments = {} \<rparr>"

text \<open>
  The outcome scan: \<open>None\<close> when an outcome has an empty field or repeats a token or
  instrument seen anywhere before, the extended sets otherwise.
\<close>

fun scan_outcomes :: "outcome_token list \<Rightarrow> string set \<Rightarrow> string set \<Rightarrow> (string set \<times> string set) option" where
  "scan_outcomes [] toks insts = Some (toks, insts)"
| "scan_outcomes (o1 # os) toks insts =
     (if ot_token_id o1 = [] \<or> ot_outcome o1 = [] \<or> ot_instrument_id o1 = []
         \<or> ot_token_id o1 \<in> toks \<or> ot_instrument_id o1 \<in> insts
      then None
      else scan_outcomes os (insert (ot_token_id o1) toks) (insert (ot_instrument_id o1) insts))"

definition add_market :: "catalog_acc \<Rightarrow> market_record \<Rightarrow> catalog_acc option" where
  "add_market acc m =
     (let terminal = \<not> is_active m in
      if mk_market_id m = [] \<or> mk_condition_id m = [] \<or> mk_metadata_revision m = []
         \<or> terminal \<noteq> (mk_terminal_at m \<noteq> None)
         \<or> mk_lifecycle_state m = Resolved \<and> is_none_or (\<lambda>r. r = []) (mk_resolution m)
         \<or> card (set (market_tokens m)) \<noteq> 2
      then None
      else case scan_outcomes (outcomes m) (ca_all_tokens acc) (ca_all_instruments acc) of
        None \<Rightarrow> None
      | Some (toks, insts) \<Rightarrow>
          if bt_contains (ca_by_condition acc) (mk_condition_id m)
             \<or> bt_contains (ca_by_market acc) (mk_market_id m)
          then None
          else
            let acc1 = acc\<lparr>
                  ca_by_condition := bt_insert (mk_condition_id m) (mk_market_id m) (ca_by_condition acc),
                  ca_by_market := bt_insert (mk_market_id m) m (ca_by_market acc),
                  ca_all_tokens := toks, ca_all_instruments := insts,
                  ca_active_tokens := (if is_active m then ca_active_tokens acc \<union> set (market_tokens m)
                                       else ca_active_tokens acc) \<rparr>
            in case mk_negative_risk_group m of
                 None \<Rightarrow> Some acc1
               | Some group_id \<Rightarrow>
                   if group_id = [] \<or> \<not> is_active m then Some acc1
                   else
                     (case filter (\<lambda>outcome. eq_ignore_ascii_case (ot_outcome outcome) ''yes'') (outcomes m) of
                        [yes] \<Rightarrow>
                          (let (members, tokens) = unwrap_or ({}, {}) (bt_get (ca_expected_groups acc1) group_id)
                           in Some (acc1\<lparr> ca_expected_groups :=
                                bt_insert group_id (insert (mk_market_id m) members, insert (ot_token_id yes) tokens)
                                  (ca_expected_groups acc1) \<rparr>))
                      | _ \<Rightarrow> None))"

fun add_markets :: "catalog_acc \<Rightarrow> market_record list \<Rightarrow> catalog_acc option" where
  "add_markets acc [] = Some acc"
| "add_markets acc (m # ms) = (case add_market acc m of None \<Rightarrow> None | Some acc' \<Rightarrow> add_markets acc' ms)"

fun add_relations ::
  "(string, negative_risk_relation) btree \<Rightarrow> negative_risk_relation list
     \<Rightarrow> (string, negative_risk_relation) btree option" where
  "add_relations by_group [] = Some by_group"
| "add_relations by_group (r # rs) =
     (if nr_group_id r = [] \<or> nr_revision r = [] \<or> \<not> nr_complete r \<or> nr_valid_to r \<noteq> None
         \<or> card (nr_member_market_ids r) < 2 \<or> bt_contains by_group (nr_group_id r)
      then None
      else add_relations (bt_insert (nr_group_id r) r by_group) rs)"

type_synonym catalog_state =
  "(string, market_record) btree \<times> (string, string) btree
     \<times> (string, negative_risk_relation) btree \<times> string set"

definition validated_catalog ::
  "market_record list \<Rightarrow> negative_risk_relation list \<Rightarrow> catalog_state option" where
  "validated_catalog markets relations =
     (case add_markets catalog_acc_empty markets of
        None \<Rightarrow> None
      | Some acc \<Rightarrow>
          (case add_relations [] relations of
             None \<Rightarrow> None
           | Some by_group \<Rightarrow>
               if length (ca_expected_groups acc) \<noteq> length by_group
                  \<or> list_ex (\<lambda>(group_id, (members, tokens)).
                       is_none_or (\<lambda>r. nr_member_market_ids r \<noteq> members \<or> nr_yes_token_ids r \<noteq> tokens)
                         (bt_get by_group group_id)) (ca_expected_groups acc)
               then None
               else Some (ca_by_market acc, ca_by_condition acc, by_group, ca_active_tokens acc)))"

end
