(* ===== verification/Core_Health.thy ===== *)
theory Core_Health
  imports Core_Projection
begin

text \<open>
  Market-local fault handling of \<open>marketcow-core\<close>: to which market an event belongs, when a
  market's books are executable, how a market is quarantined, and how the catalogue's price
  increment is reconciled with the ticks of the two outcome books.
\<close>

section \<open>Attribution and executability\<close>

fun event_market_id :: "projection \<Rightarrow> event_kind \<Rightarrow> string option" where
  "event_market_id p (CatalogSnapshot _ _ _) = None"
| "event_market_id p (NewMarket _) = None"
| "event_market_id p (MarketResolved condition_id _ _) = bt_get (pj_condition_to_market p) condition_id"
| "event_market_id p (SourceGap token_id reason) =
     (if reason = ''upstream_connection_boundary'' then None else market_id_for_token p token_id)"
| "event_market_id p (FullBook token_id _ _ _ _) = market_id_for_token p token_id"
| "event_market_id p (Delta token_id _ _) = market_id_for_token p token_id"
| "event_market_id p (AtomicDelta token_id _ _ _) = market_id_for_token p token_id"
| "event_market_id p (BestBidAsk token_id _ _) = market_id_for_token p token_id"
| "event_market_id p (LastTradePrice token_id _) = market_id_for_token p token_id"
| "event_market_id p (TickSizeChange token_id _ _ _) = market_id_for_token p token_id"

fun market_event_is_locally_recoverable :: "event_kind \<Rightarrow> bool" where
  "market_event_is_locally_recoverable (FullBook _ _ _ _ _) = True"
| "market_event_is_locally_recoverable (Delta _ _ _) = True"
| "market_event_is_locally_recoverable (AtomicDelta _ _ _ _) = True"
| "market_event_is_locally_recoverable (BestBidAsk _ _ _) = True"
| "market_event_is_locally_recoverable (LastTradePrice _ _) = True"
| "market_event_is_locally_recoverable (SourceGap _ _) = True"
| "market_event_is_locally_recoverable _ = False"

definition facts_executable :: "projection \<Rightarrow> market_record \<Rightarrow> instrument_facts \<Rightarrow> bool" where
  "facts_executable p m facts =
     (\<not> (is_some_and (\<lambda>s. \<not> fee_schedule_is_complete s) (if_fee_schedule facts)
         \<or> list_ex (\<lambda>t. is_none_or (\<lambda>b. bk_tick_size b \<noteq> Some (if_price_increment facts))
               (bt_get (pj_books p) t)) (market_tokens m)))"

definition group_executable :: "projection \<Rightarrow> string \<Rightarrow> string \<Rightarrow> bool" where
  "group_executable p market_id group_id =
     (\<not> is_none_or (\<lambda>r. \<not> nr_complete r \<or> nr_revision r = [] \<or> market_id \<notin> nr_member_market_ids r)
        (bt_get (pj_negative_risk_relations p) group_id))"

definition token_executable :: "projection \<Rightarrow> string \<Rightarrow> bool" where
  "token_executable p t =
     (t \<notin> pj_quarantined_token_ids p
      \<and> is_some_and (\<lambda>b. bk_bids b \<noteq> [] \<and> bk_asks b \<noteq> [] \<and> bk_tick_size b \<noteq> None
             \<and> bk_tick_version b \<noteq> [] \<and> \<not> crossed_or_locked b)
          (bt_get (pj_books p) t))"

definition market_books_are_executable :: "projection \<Rightarrow> string \<Rightarrow> bool" where
  "market_books_are_executable p market_id =
     (case bt_get (pj_markets p) market_id of
        None \<Rightarrow> False
      | Some m \<Rightarrow>
          is_active m
          \<and> is_none_or (facts_executable p m) (mk_instrument_facts m)
          \<and> is_none_or (group_executable p market_id) (mk_negative_risk_group m)
          \<and> list_all (token_executable p) (market_tokens m))"

section \<open>Quarantine\<close>

definition nanos_per_second :: timestamp where
  "nanos_per_second = 1000000000"

text \<open>\<open>market_health.entry(id).or_insert_with(recovering)\<close>.\<close>

definition health_entry :: "projection \<Rightarrow> string \<Rightarrow> market_health" where
  "health_entry p market_id =
     unwrap_or (health_recovering market_id (pj_generation p) (pj_catalog_revision p))
       (bt_get (pj_market_health p) market_id)"

definition update_health ::
  "string \<Rightarrow> (market_health \<Rightarrow> market_health) \<Rightarrow> projection \<Rightarrow> projection" where
  "update_health market_id f p =
     p\<lparr> pj_market_health := bt_insert market_id (f (health_entry p market_id)) (pj_market_health p) \<rparr>"

definition quarantine_market ::
  "string \<Rightarrow> string \<Rightarrow> u64 \<Rightarrow> string \<Rightarrow> canonical_event \<Rightarrow> projection \<Rightarrow> projection" where
  "quarantine_market market_id token sequence reason e p =
     (let p1 = p\<lparr>
            pj_unresolved_gaps := pj_unresolved_gaps p - {token},
            pj_quarantined_token_ids := insert token (pj_quarantined_token_ids p),
            pj_token_health := bt_insert token \<lparr>
                th_token_id = token,
                th_market_id = market_id,
                th_reason_code = reason,
                th_retryable = True,
                th_retry_after = Some (ev_received_at e + nanos_per_second),
                th_unavailable_since = ev_received_at e,
                th_source_observed_at = ev_source_observed_at e,
                th_projection_generation = pj_generation p,
                th_catalog_revision = pj_catalog_revision p,
                th_availability_revision = ev_event_id e \<rparr> (pj_token_health p),
            pj_market_recovery_token_ids := bt_insert market_id {} (pj_market_recovery_token_ids p) \<rparr>
      in update_health market_id (\<lambda>h. h\<lparr>
            mh_projection_status := Quarantined,
            mh_gap_from := opt_or (mh_gap_from h) (Some sequence),
            mh_gap_to := Some sequence,
            mh_reason_code := Some reason,
            mh_retryable := True,
            mh_retry_after := Some (ev_received_at e + nanos_per_second) \<rparr>) p1)"

section \<open>Reconciliation of instrument ticks\<close>

text \<open>
  The loop over the two outcomes: \<open>None\<close> is \<open>complete = false\<close>, otherwise the common tick and
  the tick and version of every token.
\<close>

fun scan_ticks ::
  "projection \<Rightarrow> string list \<Rightarrow> price option \<Rightarrow> (string, price \<times> string) btree
     \<Rightarrow> (price option \<times> (string, price \<times> string) btree) option" where
  "scan_ticks p [] common_tick token_ticks = Some (common_tick, token_ticks)"
| "scan_ticks p (t # ts) common_tick token_ticks =
     (case bt_get (pj_books p) t of
        None \<Rightarrow> None
      | Some b \<Rightarrow>
          (case bk_tick_size b of
             None \<Rightarrow> None
           | Some tick_size \<Rightarrow>
               if bk_tick_version b = [] \<or> is_some_and (\<lambda>expected. expected \<noteq> tick_size) common_tick
               then None
               else scan_ticks p ts (opt_or common_tick (Some tick_size))
                      (bt_insert t (tick_size, bk_tick_version b) token_ticks)))"

definition facts_revision ::
  "ext \<Rightarrow> market_record \<Rightarrow> instrument_facts \<Rightarrow> price \<Rightarrow> (string, price \<times> string) btree \<Rightarrow> string" where
  "facts_revision x m facts price_increment token_ticks = sha_facts x \<lparr>
     fm_market_id = mk_market_id m,
     fm_condition_id = mk_condition_id m,
     fm_price_increment = price_increment,
     fm_size_increment = if_size_increment facts,
     fm_minimum_order_size = if_minimum_order_size facts,
     fm_settlement_currency = if_settlement_currency facts,
     fm_start_at = if_start_at facts,
     fm_end_at = if_end_at facts,
     fm_token_ticks = token_ticks \<rparr>"

text \<open>The updates of the first loop; \<open>None\<close> is the early \<open>return false\<close>.\<close>

fun collect_tick_updates ::
  "ext \<Rightarrow> projection \<Rightarrow> market_record list \<Rightarrow> (string \<times> price \<times> string) list option" where
  "collect_tick_updates x p [] = Some []"
| "collect_tick_updates x p (m # ms) =
     (case mk_instrument_facts m of
        None \<Rightarrow> collect_tick_updates x p ms
      | Some facts \<Rightarrow>
          (case scan_ticks p (market_tokens m) None [] of
             Some (Some price_increment, token_ticks) \<Rightarrow>
               map_option (\<lambda>updates. (mk_market_id m, price_increment,
                     facts_revision x m facts price_increment token_ticks) # updates)
                 (collect_tick_updates x p ms)
           | _ \<Rightarrow>
               if market_is_public p (mk_market_id m) then None else collect_tick_updates x p ms))"

fun apply_tick_updates ::
  "(string \<times> price \<times> string) list \<Rightarrow> (string, market_record) btree
     \<Rightarrow> core_error + (string, market_record) btree" where
  "apply_tick_updates [] markets = Inr markets"
| "apply_tick_updates ((market_id, price_increment, revision) # us) markets =
     (case bt_get markets market_id of
        None \<Rightarrow> Inl (RustPanic ''active market facts were validated above'')
      | Some m \<Rightarrow>
          (case mk_instrument_facts m of
             None \<Rightarrow> Inl (RustPanic ''active market facts were validated above'')
           | Some facts \<Rightarrow>
               apply_tick_updates us
                 (bt_insert market_id (m\<lparr> mk_instrument_facts :=
                     Some (facts\<lparr> if_price_increment := price_increment, if_revision := revision \<rparr>) \<rparr>) markets)))"

definition reconcile_active_market_instrument_ticks ::
  "ext \<Rightarrow> projection \<Rightarrow> core_error + (bool \<times> projection)" where
  "reconcile_active_market_instrument_ticks x p =
     (if pj_catalog_revision p = None then Inr (True, p)
      else case collect_tick_updates x p (active_markets p) of
        None \<Rightarrow> Inr (False, p)
      | Some updates \<Rightarrow>
          (case apply_tick_updates updates (pj_markets p) of
             Inl e \<Rightarrow> Inl e
           | Inr markets \<Rightarrow> Inr (True, p\<lparr> pj_markets := markets \<rparr>)))"

end
