(* ===== verification/Core_Evaluate.thy ===== *)
theory Core_Evaluate
  imports Core_Health
begin

text \<open>
  \<open>SingleWriter::evaluate_event\<close> of \<open>marketcow-core\<close>: the pure step that takes a projection and
  a canonical event to the next projection and the persisted outcome. The one Rust function is
  split along its own structure: the guards, the opening of the step, the tests for incremental
  frames superseded by a newer book, the expansion of an atomic delta, one definition per event
  kind, the local quarantine, the recovery boundary, the readiness bits and the market metadata.
\<close>

definition contract_version :: string where
  "contract_version = ''marketcow.polymarket.shadow.v1''"

definition normalizer_v2 :: string where
  "normalizer_v2 = ''marketcow.polymarket.normalizer.v2''"

text \<open>What the per-kind step returns: the projection, \<open>applied\<close> and \<open>rejected\<close>.\<close>

type_synonym verdict = "projection \<times> bool \<times> string option"

definition reject :: "string \<Rightarrow> string \<Rightarrow> projection \<Rightarrow> verdict" where
  "reject gap reason p = (p\<lparr> pj_unresolved_gaps := insert gap (pj_unresolved_gaps p) \<rparr>, False, Some reason)"

definition accept :: "projection \<Rightarrow> verdict" where
  "accept p = (p, True, None)"

definition put_book :: "string \<Rightarrow> book \<Rightarrow> projection \<Rightarrow> projection" where
  "put_book t b p = p\<lparr> pj_books := bt_insert t b (pj_books p) \<rparr>"

section \<open>Guards and opening\<close>

definition evidence_invalid :: "ext \<Rightarrow> bool \<Rightarrow> canonical_event \<Rightarrow> bool" where
  "evidence_invalid x validate_raw_payload e =
     (ev_normalizer_version e = []
      \<or> ev_config_revision e = []
      \<or> se_responded_at (ev_source e) < se_requested_at (ev_source e)
      \<or> \<not> is_digest (se_raw_sha256 (ev_source e))
      \<or> validate_raw_payload
         \<and> sha_json x (ev_raw_payload e) \<noteq> to_ascii_lowercase (se_raw_sha256 (ev_source e)))"

definition event_guard ::
  "ext \<Rightarrow> bool \<Rightarrow> bool \<Rightarrow> projection \<Rightarrow> canonical_event \<Rightarrow> core_error option" where
  "event_guard x validate_raw_payload validate_duplicate p e =
     (if ev_schema_version e \<noteq> contract_version then Some SchemaMismatch
      else if ev_scope_id e \<noteq> pj_scope_id p then Some ScopeMismatch
      else if evidence_invalid x validate_raw_payload e then Some InvalidSourceEvidence
      else if validate_duplicate \<and> ev_event_id e \<in> set (pj_recent_event_ids p)
        then Some (DuplicateEvent (ev_event_id e))
      else if ev_cursor e \<noteq> pj_cursor p + 1
        then Some (CursorGap (pj_cursor p + 1) (ev_cursor e))
      else None)"

text \<open>
  A market that has no health entry yet but whose books are executable enters as ready.
\<close>

definition open_event :: "projection \<Rightarrow> canonical_event \<Rightarrow> projection" where
  "open_event p e =
     (let p1 = p\<lparr> pj_generation := pj_generation p + 1, pj_cursor := ev_cursor e \<rparr> in
      case event_market_id p1 (ev_kind e) of
        None \<Rightarrow> p1
      | Some market_id \<Rightarrow>
          if \<not> bt_contains (pj_market_health p1) market_id \<and> market_books_are_executable p1 market_id
          then p1\<lparr> pj_market_health := bt_insert market_id
                 ((health_recovering market_id (pj_generation p1) (pj_catalog_revision p1))
                   \<lparr> mh_projection_status := Ready, mh_reason_code := None, mh_retryable := False \<rparr>)
                 (pj_market_health p1) \<rparr>
          else p1)"

definition next_market_sequence :: "projection \<Rightarrow> string \<Rightarrow> u64" where
  "next_market_sequence p market_id =
     (case bt_get (pj_market_health p) market_id of
        None \<Rightarrow> 1 | Some h \<Rightarrow> saturating_add1 (mh_last_market_sequence h))"

section \<open>Superseded increments\<close>

fun is_atomic_delta :: "event_kind \<Rightarrow> bool" where
  "is_atomic_delta (AtomicDelta _ _ _ _) = True"
| "is_atomic_delta _ = False"

fun is_best_bid_ask :: "event_kind \<Rightarrow> bool" where
  "is_best_bid_ask (BestBidAsk _ _ _) = True"
| "is_best_bid_ask _ = False"

definition event_book :: "projection \<Rightarrow> canonical_event \<Rightarrow> book option" where
  "event_book p e = bt_get (pj_books p) (kind_token_id (ev_kind e))"

definition delayed_superseded :: "projection \<Rightarrow> canonical_event \<Rightarrow> bool" where
  "delayed_superseded p e =
     (se_delayed (ev_source e)
      \<and> ev_normalizer_version e = normalizer_v2
      \<and> is_atomic_delta (ev_kind e)
      \<and> is_some_and (\<lambda>b. is_some_and (\<lambda>book_at. ev_source_observed_at e \<le> book_at)
            (bk_source_observed_at b)) (event_book p e))"

definition queued_superseded :: "projection \<Rightarrow> canonical_event \<Rightarrow> bool" where
  "queued_superseded p e =
     (ev_normalizer_version e = normalizer_v2
      \<and> is_atomic_delta (ev_kind e)
      \<and> is_some_and (\<lambda>b. is_some_and (\<lambda>refresh_at.
              ev_received_at e < refresh_at
              \<or> is_some_and (\<lambda>book_at. ev_source_observed_at e < book_at) (bk_source_observed_at b))
            (bk_authoritative_refresh_received_at b)) (event_book p e))"

definition bbo_superseded :: "projection \<Rightarrow> canonical_event \<Rightarrow> bool" where
  "bbo_superseded p e =
     (ev_normalizer_version e = normalizer_v2
      \<and> is_best_bid_ask (ev_kind e)
      \<and> is_some_and (\<lambda>b.
              is_some_and (\<lambda>refresh_at. ev_received_at e < refresh_at) (bk_authoritative_refresh_received_at b)
              \<or> is_some_and (\<lambda>book_at. ev_source_observed_at e < book_at) (bk_source_observed_at b))
            (event_book p e))"

definition incremental_superseded :: "projection \<Rightarrow> canonical_event \<Rightarrow> bool" where
  "incremental_superseded p e =
     (delayed_superseded p e \<or> queued_superseded p e \<or> bbo_superseded p e)"

section \<open>Making an atomic delta replay-complete\<close>

definition expand_event :: "bool \<Rightarrow> projection \<Rightarrow> canonical_event \<Rightarrow> canonical_event" where
  "expand_event enforce_freshness p e =
     (if \<not> se_missing (ev_source e)
         \<and> (\<not> se_delayed (ev_source e) \<or> \<not> enforce_freshness)
         \<and> \<not> incremental_superseded p e
         \<and> ev_normalizer_version e = normalizer_v2
      then (case ev_kind e of
              AtomicDelta token_id changes best_bid best_ask \<Rightarrow>
                (case bt_get (pj_books p) token_id of
                   None \<Rightarrow> e
                 | Some b \<Rightarrow> e\<lparr> ev_kind := AtomicDelta token_id
                     (replay_complete_atomic_changes changes best_bid best_ask b) best_bid best_ask \<rparr>)
            | _ \<Rightarrow> e)
      else e)"

fun clear_changes :: "event_kind \<Rightarrow> event_kind" where
  "clear_changes (AtomicDelta token_id changes best_bid best_ask) = AtomicDelta token_id [] best_bid best_ask"
| "clear_changes k = k"

section \<open>Catalogue snapshots\<close>

definition retire_market :: "string \<Rightarrow> market_record \<Rightarrow> projection \<Rightarrow> projection" where
  "retire_market catalog_revision m p =
     (let p1 = p\<lparr> pj_monitoring_books :=
            fold (\<lambda>t books. case bt_get (pj_books p) t of None \<Rightarrow> books | Some b \<Rightarrow> bt_insert t b books)
              (market_tokens m) (pj_monitoring_books p) \<rparr>;
          h = unwrap_or (health_recovering (mk_market_id m) (pj_generation p1) (Some catalog_revision))
                (bt_get (pj_market_health p1) (mk_market_id m))
      in p1\<lparr>
           pj_market_health := bt_insert (mk_market_id m) (h\<lparr>
               mh_projection_status := TemporarilyUnavailable,
               mh_reason_code := Some ''removed_from_scan_universe'',
               mh_retryable := False,
               mh_retry_after := None,
               mh_projection_generation := pj_generation p1,
               mh_catalog_revision := Some catalog_revision \<rparr>) (pj_market_health p1),
           pj_monitoring_markets := bt_insert (mk_market_id m) m (pj_monitoring_markets p1) \<rparr>)"

definition drop_monitoring :: "market_record \<Rightarrow> projection \<Rightarrow> projection" where
  "drop_monitoring m p =
     (case bt_get (pj_monitoring_markets p) (mk_market_id m) of
        None \<Rightarrow> p
      | Some retained \<Rightarrow> p\<lparr>
          pj_monitoring_markets := bt_remove (mk_market_id m) (pj_monitoring_markets p),
          pj_monitoring_books := fold bt_remove (market_tokens retained) (pj_monitoring_books p) \<rparr>)"

definition ensure_health :: "market_record \<Rightarrow> projection \<Rightarrow> projection" where
  "ensure_health m p = update_health (mk_market_id m) (\<lambda>h. h) p"

definition install_catalog :: "string \<Rightarrow> catalog_state \<Rightarrow> projection \<Rightarrow> projection" where
  "install_catalog catalog_revision cs p =
     (case cs of (catalog, conditions, relations, active_tokens) \<Rightarrow>
      let p1 = p\<lparr>
            pj_catalog_revision := Some catalog_revision,
            pj_markets := catalog,
            pj_condition_to_market := conditions,
            pj_negative_risk_relations := relations,
            pj_books := bt_retain (\<lambda>t b. t \<in> active_tokens) (pj_books p),
            pj_quarantined_token_ids := Set.filter (\<lambda>t. t \<in> active_tokens) (pj_quarantined_token_ids p),
            pj_token_health := bt_retain (\<lambda>t h. t \<in> active_tokens) (pj_token_health p),
            pj_market_recovery_token_ids :=
              bt_retain (\<lambda>market_id ts. bt_contains catalog market_id) (pj_market_recovery_token_ids p),
            pj_market_health :=
              bt_retain (\<lambda>market_id h. is_some_and is_active (bt_get catalog market_id)
                  \<or> bt_contains (pj_monitoring_markets p) market_id) (pj_market_health p) \<rparr>;
          p2 = fold ensure_health (active_markets p1) p1;
          p3 = p2\<lparr> pj_unresolved_gaps := Set.filter
                 (\<lambda>gap. \<not> starts_with gap ''catalog:'' \<and> \<not> starts_with gap ''negative_risk:'')
                 (pj_unresolved_gaps p2) \<rparr>
      in snd (prune_stale_scope_gaps p3))"

definition combined_markets :: "market_record list \<Rightarrow> projection \<Rightarrow> market_record list" where
  "combined_markets markets p =
     markets @ filter (\<lambda>existing. mk_lifecycle_state existing = Resolved
          \<and> \<not> list_ex (\<lambda>m. mk_market_id m = mk_market_id existing) markets)
        (bt_values (pj_markets p))"

definition replace_catalog :: "string \<Rightarrow> catalog_state \<Rightarrow> projection \<Rightarrow> projection" where
  "replace_catalog catalog_revision cs p =
     (let removed = filter (\<lambda>m. is_active m \<and> \<not> bt_contains (fst cs) (mk_market_id m)) (bt_values (pj_markets p));
          p1 = fold (retire_market catalog_revision) removed p;
          p2 = fold drop_monitoring (bt_values (fst cs)) p1
      in install_catalog catalog_revision cs p2)"

definition apply_catalog ::
  "string \<Rightarrow> market_record list \<Rightarrow> negative_risk_relation list \<Rightarrow> projection \<Rightarrow> verdict" where
  "apply_catalog catalog_revision markets relations p =
     (if catalog_revision = [] then reject ''catalog:invalid'' ''invalid_catalog_snapshot'' p
      else case validated_catalog (combined_markets markets p) relations of
        Some cs \<Rightarrow> accept (replace_catalog catalog_revision cs p)
      | None \<Rightarrow> reject ''catalog:invalid'' ''invalid_catalog_snapshot'' p)"

definition catalog_gap :: "string \<Rightarrow> string" where
  "catalog_gap condition_id = ''catalog:'' @ condition_id"

definition negative_risk_gap :: "string \<Rightarrow> string" where
  "negative_risk_gap group_id = ''negative_risk:'' @ group_id"

definition add_gap :: "string \<Rightarrow> projection \<Rightarrow> projection" where
  "add_gap gap p = p\<lparr> pj_unresolved_gaps := insert gap (pj_unresolved_gaps p) \<rparr>"

definition apply_new_market :: "string \<Rightarrow> projection \<Rightarrow> verdict" where
  "apply_new_market condition_id p =
     (add_gap (catalog_gap condition_id) p, True, Some ''catalog_refresh_required'')"

section \<open>Market resolution\<close>

definition chain_revision :: "ext \<Rightarrow> string \<Rightarrow> canonical_event \<Rightarrow> string" where
  "chain_revision x revision e = sha_text x (revision @ [CHR 0x00] @ se_raw_sha256 (ev_source e))"

definition resolved_record ::
  "ext \<Rightarrow> canonical_event \<Rightarrow> string option \<Rightarrow> string option \<Rightarrow> market_record \<Rightarrow> market_record" where
  "resolved_record x e winning_token_id winning_outcome m = m\<lparr>
     mk_lifecycle_state := Resolved,
     mk_resolution := opt_or winning_outcome (opt_or winning_token_id (Some ''resolved'')),
     mk_terminal_at := Some (ev_source_observed_at e),
     mk_metadata_revision := chain_revision x (mk_metadata_revision m) e \<rparr>"

definition close_group :: "ext \<Rightarrow> canonical_event \<Rightarrow> string \<Rightarrow> projection \<Rightarrow> projection" where
  "close_group x e group_id p = add_gap (negative_risk_gap group_id) (p\<lparr>
     pj_negative_risk_relations := bt_map_value (\<lambda>r. r\<lparr>
         nr_complete := False,
         nr_valid_to := Some (ev_source_observed_at e),
         nr_revision := chain_revision x (nr_revision r) e \<rparr>) group_id (pj_negative_risk_relations p) \<rparr>)"

definition resolve_market ::
  "ext \<Rightarrow> canonical_event \<Rightarrow> string \<Rightarrow> string \<Rightarrow> string option \<Rightarrow> string option \<Rightarrow> market_record
     \<Rightarrow> projection \<Rightarrow> projection" where
  "resolve_market x e condition_id market_id winning_token_id winning_outcome m p =
     (let p1 = p\<lparr>
            pj_markets := bt_insert market_id (resolved_record x e winning_token_id winning_outcome m) (pj_markets p),
            pj_books := fold bt_remove (market_tokens m) (pj_books p),
            pj_unresolved_gaps := pj_unresolved_gaps p - set (market_tokens m) \<rparr>;
          p2 = (case mk_negative_risk_group m of None \<Rightarrow> p1 | Some group_id \<Rightarrow> close_group x e group_id p1)
      in add_gap (catalog_gap condition_id) p2)"

definition apply_resolved ::
  "ext \<Rightarrow> canonical_event \<Rightarrow> string \<Rightarrow> string option \<Rightarrow> string option \<Rightarrow> projection \<Rightarrow> core_error + verdict" where
  "apply_resolved x e condition_id winning_token_id winning_outcome p =
     (case bt_get (pj_condition_to_market p) condition_id of
        None \<Rightarrow> Inr (reject (catalog_gap condition_id) ''catalog_refresh_required'' p)
      | Some market_id \<Rightarrow>
          (case bt_get (pj_markets p) market_id of
             None \<Rightarrow> Inl (RustPanic ''condition index is valid'')
           | Some m \<Rightarrow>
               if \<not> is_none_or (\<lambda>winner. has_token winner m) winning_token_id
                  \<or> \<not> is_none_or (\<lambda>winner. list_ex (\<lambda>outcome. ot_outcome outcome = winner) (outcomes m)) winning_outcome
               then Inr (reject (catalog_gap condition_id) ''market_resolution_source_mismatch'' p)
               else Inr (accept (resolve_market x e condition_id market_id winning_token_id winning_outcome m p))))"

section \<open>Book events\<close>

definition token_is_active :: "projection \<Rightarrow> string \<Rightarrow> bool" where
  "token_is_active p t =
     (pj_catalog_revision p = None
      \<or> list_ex (\<lambda>m. is_active m \<and> has_token t m) (bt_values (pj_markets p)))"

definition clob_http :: string where
  "clob_http = ''polymarket_clob_http''"

definition apply_full_book ::
  "ext \<Rightarrow> canonical_event \<Rightarrow> string \<Rightarrow> level list \<Rightarrow> level list \<Rightarrow> price \<Rightarrow> string \<Rightarrow> projection \<Rightarrow> verdict" where
  "apply_full_book x e t bids asks tick_size tick_version p =
     (if \<not> token_is_active p t then reject t ''token_not_in_active_catalog'' p
      else if tick_version = [] \<or> \<not> levels_tick_aligned x tick_size bids \<or> \<not> levels_tick_aligned x tick_size asks
        then reject t ''invalid_tick_full_book'' p
      else
        let b = (book_replace bids asks tick_size tick_version (ev_source_observed_at e)
                   (unwrap_or book_default (bt_get (pj_books p) t)))
                \<lparr> bk_authoritative_refresh_received_at :=
                    (if se_source (ev_source e) = clob_http then Some (ev_received_at e) else None) \<rparr>
        in if crossed_or_locked b then reject t ''crossed_or_locked_full_book'' p
           else accept ((put_book t b p)\<lparr> pj_unresolved_gaps := pj_unresolved_gaps p - {t} \<rparr>))"

text \<open>The book an incremental event may touch: present and without a recovery gap.\<close>

definition live_book :: "projection \<Rightarrow> string \<Rightarrow> book option" where
  "live_book p t = (if token_has_recovery_gap p t then None else bt_get (pj_books p) t)"

definition apply_delta ::
  "ext \<Rightarrow> canonical_event \<Rightarrow> string \<Rightarrow> side \<Rightarrow> level list \<Rightarrow> projection \<Rightarrow> verdict" where
  "apply_delta x e t s levels p =
     (case live_book p t of
        None \<Rightarrow> reject t ''full_book_recovery_required'' p
      | Some b0 \<Rightarrow>
          if \<not> is_some_and (\<lambda>tick. levels_tick_aligned x tick levels) (bk_tick_size b0)
          then reject t ''invalid_tick_delta'' p
          else
            let b = book_apply s levels (ev_source_observed_at e) b0
            in if crossed_or_locked b then reject t ''crossed_or_locked_delta'' p
               else accept (put_book t b p))"

definition source_expected_bid :: "canonical_event \<Rightarrow> price option \<Rightarrow> price option" where
  "source_expected_bid e best_bid = opt_filter (\<lambda>p. ev_normalizer_version e \<noteq> normalizer_v2 \<or> p \<noteq> 0) best_bid"

definition source_expected_ask :: "canonical_event \<Rightarrow> price option \<Rightarrow> price option" where
  "source_expected_ask e best_ask =
     opt_filter (\<lambda>p. ev_normalizer_version e \<noteq> normalizer_v2 \<or> p \<noteq> decimal_one) best_ask"

definition prune_to_bbo :: "price option \<Rightarrow> price option \<Rightarrow> book \<Rightarrow> book" where
  "prune_to_bbo exp_bid exp_ask b =
     b\<lparr> bk_bids := prune_bids exp_bid (bk_bids b), bk_asks := prune_asks exp_ask (bk_asks b) \<rparr>"

definition apply_atomic_delta ::
  "ext \<Rightarrow> canonical_event \<Rightarrow> string \<Rightarrow> side_levels list \<Rightarrow> price option \<Rightarrow> price option \<Rightarrow> projection \<Rightarrow> verdict" where
  "apply_atomic_delta x e t changes best_bid best_ask p =
     (case (if changes = [] then None else live_book p t) of
        None \<Rightarrow> reject t ''full_book_recovery_required'' p
      | Some b0 \<Rightarrow>
          if \<not> is_some_and (\<lambda>tick. list_all (\<lambda>c. levels_tick_aligned x tick (sl_levels c)) changes) (bk_tick_size b0)
          then reject t ''invalid_tick_atomic_delta'' p
          else
            let b1 = book_apply_batch changes (ev_source_observed_at e) b0;
                exp_bid = source_expected_bid e best_bid;
                exp_ask = source_expected_ask e best_ask;
                bbo_observed = (best_bid \<noteq> None \<or> best_ask \<noteq> None);
                invalid_source_quote =
                  (case (exp_bid, exp_ask) of (Some bid, Some ask) \<Rightarrow> bid \<ge> ask | _ \<Rightarrow> False);
                b = (if bbo_observed then prune_to_bbo exp_bid exp_ask b1 else b1);
                source_quote_mismatch =
                  (bbo_observed \<and> (best_bid_of b \<noteq> exp_bid \<or> best_ask_of b \<noteq> exp_ask))
            in if invalid_source_quote \<or> source_quote_mismatch
               then reject t ''best_bid_ask_source_mismatch'' p
               else if crossed_or_locked b then reject t ''crossed_or_locked_atomic_delta'' p
               else accept (put_book t b p))"

definition apply_best_bid_ask ::
  "canonical_event \<Rightarrow> string \<Rightarrow> price option \<Rightarrow> price option \<Rightarrow> projection \<Rightarrow> verdict" where
  "apply_best_bid_ask e t best_bid best_ask p =
     (case live_book p t of
        None \<Rightarrow> reject t ''full_book_recovery_required'' p
      | Some b \<Rightarrow>
          if best_bid_of b \<noteq> best_bid \<or> best_ask_of b \<noteq> best_ask
          then reject t ''best_bid_ask_source_mismatch'' p
          else accept (put_book t (b\<lparr> bk_source_observed_at := Some (ev_source_observed_at e) \<rparr>) p))"

text \<open>\<open>price.0 % tick.0\<close>: the remainder of \<open>rust_decimal\<close> panics on a zero divisor.\<close>

definition rem_is_zero :: "ext \<Rightarrow> price \<Rightarrow> price \<Rightarrow> core_error + bool" where
  "rem_is_zero x price tick =
     (if tick = 0 then Inl (RustPanic ''Division by zero'') else Inr (dec_rem x price tick = 0))"

definition apply_last_trade ::
  "ext \<Rightarrow> canonical_event \<Rightarrow> string \<Rightarrow> price \<Rightarrow> projection \<Rightarrow> core_error + verdict" where
  "apply_last_trade x e t price p =
     (case live_book p t of
        None \<Rightarrow> Inr (reject t ''full_book_recovery_required'' p)
      | Some b \<Rightarrow>
          (case (case bk_tick_size b of None \<Rightarrow> Inr False | Some tick \<Rightarrow> rem_is_zero x price tick) of
             Inl err \<Rightarrow> Inl err
           | Inr aligned \<Rightarrow>
               if \<not> aligned then Inr (reject t ''invalid_tick_last_trade'' p)
               else Inr (accept (put_book t (b\<lparr>
                 bk_last_trade_price := Some price,
                 bk_last_trade_observed_at := Some (ev_source_observed_at e) \<rparr>) p))))"

fun all_aligned :: "ext \<Rightarrow> price list \<Rightarrow> price \<Rightarrow> core_error + bool" where
  "all_aligned x [] tick = Inr True"
| "all_aligned x (p # ps) tick =
     (case rem_is_zero x p tick of
        Inl err \<Rightarrow> Inl err
      | Inr ok \<Rightarrow> if ok then all_aligned x ps tick else Inr False)"

definition apply_tick_size ::
  "ext \<Rightarrow> canonical_event \<Rightarrow> string \<Rightarrow> price option \<Rightarrow> price \<Rightarrow> string \<Rightarrow> projection \<Rightarrow> core_error + verdict" where
  "apply_tick_size x e t old_tick_size new_tick_size tick_version p =
     (case (if tick_version = [] then None else live_book p t) of
        None \<Rightarrow> Inr (reject t ''full_book_recovery_required'' p)
      | Some b \<Rightarrow>
          (case all_aligned x (bt_keys (bk_bids b) @ bt_keys (bk_asks b)) new_tick_size of
             Inl err \<Rightarrow> Inl err
           | Inr levels_align \<Rightarrow>
               if \<not> is_none_or (\<lambda>expected. bk_tick_size b = Some expected) old_tick_size
               then Inr (reject t ''tick_size_source_mismatch'' p)
               else if \<not> levels_align then Inr (reject t ''tick_size_recovery_required'' p)
               else Inr (accept (put_book t (b\<lparr>
                 bk_tick_size := Some new_tick_size, bk_tick_version := tick_version \<rparr>) p))))"

definition apply_source_gap :: "string \<Rightarrow> string \<Rightarrow> projection \<Rightarrow> verdict" where
  "apply_source_gap t reason p = reject t (''source_gap:'' @ reason) p"

fun apply_kind :: "ext \<Rightarrow> canonical_event \<Rightarrow> event_kind \<Rightarrow> projection \<Rightarrow> core_error + verdict" where
  "apply_kind x e (CatalogSnapshot revision markets relations) p = Inr (apply_catalog revision markets relations p)"
| "apply_kind x e (NewMarket condition_id) p = Inr (apply_new_market condition_id p)"
| "apply_kind x e (MarketResolved condition_id token out) p = apply_resolved x e condition_id token out p"
| "apply_kind x e (SourceGap t reason) p = Inr (apply_source_gap t reason p)"
| "apply_kind x e (FullBook t bids asks tick version) p = Inr (apply_full_book x e t bids asks tick version p)"
| "apply_kind x e (Delta t s levels) p = Inr (apply_delta x e t s levels p)"
| "apply_kind x e (AtomicDelta t changes bb ba) p = Inr (apply_atomic_delta x e t changes bb ba p)"
| "apply_kind x e (BestBidAsk t bb ba) p = Inr (apply_best_bid_ask e t bb ba p)"
| "apply_kind x e (LastTradePrice t price) p = apply_last_trade x e t price p"
| "apply_kind x e (TickSizeChange t old new version) p = apply_tick_size x e t old new version p"

section \<open>The decision\<close>

text \<open>
  Missing or (under enforcement) delayed evidence opens a gap; a superseded increment is a
  durable no-op whose changes are cleared; every other event is applied by kind.
\<close>

definition decide_event ::
  "ext \<Rightarrow> bool \<Rightarrow> projection \<Rightarrow> canonical_event \<Rightarrow> core_error + (canonical_event \<times> verdict)" where
  "decide_event x enforce_freshness p e0 =
     (let superseded = incremental_superseded p e0;
          e = expand_event enforce_freshness p e0 in
      if se_missing (ev_source e) \<or> enforce_freshness \<and> se_delayed (ev_source e) \<and> \<not> superseded
      then Inr (e, reject (kind_token_id (ev_kind e))
             (if se_missing (ev_source e) then ''source_data_missing'' else ''source_data_delayed'') p)
      else if superseded then Inr (e\<lparr> ev_kind := clear_changes (ev_kind e) \<rparr>, accept p)
      else (case apply_kind x e (ev_kind e) p of
              Inl err \<Rightarrow> Inl err
            | Inr v \<Rightarrow> Inr (e, v)))"

section \<open>Faults, recovery and publication\<close>

record eval_state =
  es_next :: projection
  es_rejected :: "string option"
  es_transition :: "market_transition option"
  es_reason :: "string option"

definition localize_fault ::
  "string option \<Rightarrow> u64 \<Rightarrow> canonical_event \<Rightarrow> projection \<Rightarrow> string option \<Rightarrow> eval_state" where
  "localize_fault market sequence e p rejected =
     (case (market, rejected) of
        (Some market_id, Some reason) \<Rightarrow>
          if market_event_is_locally_recoverable (ev_kind e)
          then \<lparr> es_next = quarantine_market market_id (kind_token_id (ev_kind e)) sequence reason e p,
                 es_rejected = None,
                 es_transition = Some TransitionQuarantined, es_reason = Some reason \<rparr>
          else \<lparr> es_next = p, es_rejected = rejected, es_transition = None, es_reason = None \<rparr>
      | _ \<Rightarrow> \<lparr> es_next = p, es_rejected = rejected, es_transition = None, es_reason = None \<rparr>)"

definition expected_recovery_tokens :: "projection \<Rightarrow> string \<Rightarrow> string set" where
  "expected_recovery_tokens p market_id =
     (case bt_get (pj_markets p) market_id of None \<Rightarrow> {} | Some m \<Rightarrow> set (market_tokens m))"

definition observe_recovery :: "string \<Rightarrow> string \<Rightarrow> projection \<Rightarrow> projection" where
  "observe_recovery market_id t p = p\<lparr> pj_market_recovery_token_ids :=
     bt_insert market_id (insert t (unwrap_or {} (bt_get (pj_market_recovery_token_ids p) market_id)))
       (pj_market_recovery_token_ids p) \<rparr>"

definition recovery_complete :: "projection \<Rightarrow> string \<Rightarrow> bool" where
  "recovery_complete p market_id =
     (let expected = expected_recovery_tokens p market_id in
      expected \<noteq> {} \<and> expected \<subseteq> unwrap_or {} (bt_get (pj_market_recovery_token_ids p) market_id))"

definition release_tokens :: "string \<Rightarrow> projection \<Rightarrow> projection" where
  "release_tokens market_id p =
     (let tokens = (case bt_get (pj_markets p) market_id of None \<Rightarrow> [] | Some m \<Rightarrow> market_tokens m)
      in p\<lparr> pj_quarantined_token_ids := pj_quarantined_token_ids p - set tokens,
            pj_token_health := fold bt_remove tokens (pj_token_health p),
            pj_market_recovery_token_ids := bt_remove market_id (pj_market_recovery_token_ids p) \<rparr>)"

definition mark_ready :: "string \<Rightarrow> canonical_event \<Rightarrow> projection \<Rightarrow> projection" where
  "mark_ready market_id e p = update_health market_id (\<lambda>h. h\<lparr>
     mh_projection_status := Ready,
     mh_gap_from := None,
     mh_gap_to := None,
     mh_reason_code := None,
     mh_retryable := False,
     mh_retry_after := None,
     mh_last_recovered_at := Some (ev_received_at e) \<rparr>) p"

definition incomplete_reason :: string where
  "incomplete_reason = ''atomic_market_snapshot_incomplete''"

definition mark_recovering :: "string \<Rightarrow> projection \<Rightarrow> projection" where
  "mark_recovering market_id p = update_health market_id (\<lambda>h. h\<lparr>
     mh_projection_status := Recovering, mh_reason_code := Some incomplete_reason \<rparr>) p"

fun is_full_book :: "event_kind \<Rightarrow> bool" where
  "is_full_book (FullBook _ _ _ _ _) = True"
| "is_full_book _ = False"

definition recover_market ::
  "string \<Rightarrow> market_status option \<Rightarrow> canonical_event \<Rightarrow> bool \<Rightarrow> eval_state \<Rightarrow> eval_state" where
  "recover_market market_id previous e applied s =
     (if is_full_book (ev_kind e) \<and> applied \<and> es_rejected s = None \<and> es_reason s = None then
        let recovering = (previous \<noteq> Some Ready);
            p1 = (if recovering then observe_recovery market_id (kind_token_id (ev_kind e)) (es_next s) else es_next s);
            complete = (if recovering then recovery_complete p1 market_id else True);
            p2 = (if complete then release_tokens market_id p1 else p1)
        in if complete \<and> market_books_are_executable p2 market_id
           then s\<lparr> es_next := mark_ready market_id e p2,
                   es_transition := (if recovering then Some Recovered else es_transition s) \<rparr>
           else if recovering
           then s\<lparr> es_next := mark_recovering market_id p2,
                   es_transition := Some RecoveryStarted, es_reason := Some incomplete_reason \<rparr>
           else s\<lparr> es_next := p2 \<rparr>
      else s)"

definition not_executable_reason :: string where
  "not_executable_reason = ''market_book_not_executable''"

definition demote_market ::
  "string \<Rightarrow> u64 \<Rightarrow> market_status option \<Rightarrow> canonical_event \<Rightarrow> eval_state \<Rightarrow> eval_state" where
  "demote_market market_id sequence previous e s =
     (if es_reason s = None \<and> es_rejected s = None \<and> previous = Some Ready
         \<and> market_event_is_locally_recoverable (ev_kind e)
         \<and> \<not> market_books_are_executable (es_next s) market_id
      then s\<lparr> es_next := quarantine_market market_id (kind_token_id (ev_kind e)) sequence
                 not_executable_reason e (es_next s),
              es_transition := Some TransitionQuarantined, es_reason := Some not_executable_reason \<rparr>
      else s)"

definition publish_readiness :: "bool \<Rightarrow> string option \<Rightarrow> projection \<Rightarrow> projection" where
  "publish_readiness ticks_consistent rejected p =
     (let two_sided = active_market_books_two_sided p;
          ready = (pj_unresolved_gaps p = {} \<and> usable_projection p \<and> catalog_books_complete p
                   \<and> ticks_consistent \<and> two_sided)
      in p\<lparr> pj_ready := ready,
            pj_fail_closed_reason :=
              opt_or rejected
               (opt_or (if \<not> ticks_consistent then Some ''instrument_tick_inconsistent'' else None)
                (opt_or (if \<not> two_sided then Some ''one_sided_active_book'' else None)
                 (if \<not> ready then Some (if pj_unresolved_gaps p = {} then ''no_healthy_markets'' else ''unresolved_gap'')
                  else None))) \<rparr>)"

definition record_market_event ::
  "string \<Rightarrow> u64 \<Rightarrow> canonical_event \<Rightarrow> projection \<Rightarrow> projection" where
  "record_market_event market_id sequence e p = update_health market_id (\<lambda>h. h\<lparr>
     mh_last_market_sequence := sequence,
     mh_source_observed_at := Some (ev_source_observed_at e),
     mh_projection_generation := pj_generation p,
     mh_catalog_revision := pj_catalog_revision p,
     mh_last_event_revision := Some (ev_event_id e) \<rparr>) p"

definition market_event_metadata ::
  "string \<Rightarrow> u64 \<Rightarrow> canonical_event \<Rightarrow> eval_state \<Rightarrow> projection \<Rightarrow> market_metadata" where
  "market_event_metadata market_id sequence e s p = \<lparr>
     mm_market_id = market_id,
     mm_market_sequence = sequence,
     mm_projection_generation = pj_generation p,
     mm_catalog_revision = unwrap_or [] (pj_catalog_revision p),
     mm_event_revision = ev_event_id e,
     mm_projection_status = mh_projection_status (health_entry p market_id),
     mm_reason_code = es_reason s,
     mm_transition = es_transition s \<rparr>"

definition recent_window :: nat where
  "recent_window = 10000"

definition remember_event :: "canonical_event \<Rightarrow> projection \<Rightarrow> projection" where
  "remember_event e p =
     (let ids = pj_recent_event_ids p @ [ev_event_id e]
      in p\<lparr> pj_persisted_cursor := ev_cursor e,
            pj_recent_event_ids := (if length ids > recent_window then tl ids else ids) \<rparr>)"

definition finish_event ::
  "ext \<Rightarrow> string option \<Rightarrow> u64 \<Rightarrow> market_status option \<Rightarrow> canonical_event \<Rightarrow> verdict
     \<Rightarrow> core_error + (projection \<times> persisted_event)" where
  "finish_event x market sequence previous e v =
     (case v of (p0, applied, rejected0) \<Rightarrow>
      let s0 = localize_fault market sequence e p0 rejected0 in
      case reconcile_active_market_instrument_ticks x (es_next s0) of
        Inl err \<Rightarrow> Inl err
      | Inr (ticks_consistent, p1) \<Rightarrow>
          let s1 = s0\<lparr> es_next := p1 \<rparr>;
              s2 = (case market of None \<Rightarrow> s1
                    | Some market_id \<Rightarrow>
                        demote_market market_id sequence previous e
                          (recover_market market_id previous e applied s1));
              p2 = publish_readiness ticks_consistent (es_rejected s2) (es_next s2);
              (p3, metadata) =
                (case market of None \<Rightarrow> (p2, None)
                 | Some market_id \<Rightarrow> (record_market_event market_id sequence e p2,
                     Some (market_event_metadata market_id sequence e s2 p2)))
          in Inr (remember_event e p3,
               \<lparr> pe_event = e, pe_applied = applied, pe_fail_closed_reason = es_rejected s2,
                 pe_market = metadata \<rparr>))"

definition evaluate_event ::
  "ext \<Rightarrow> bool \<Rightarrow> bool \<Rightarrow> bool \<Rightarrow> projection \<Rightarrow> canonical_event
     \<Rightarrow> core_error + (projection \<times> persisted_event)" where
  "evaluate_event x validate_raw_payload validate_duplicate enforce_freshness p e =
     (case event_guard x validate_raw_payload validate_duplicate p e of
        Some err \<Rightarrow> Inl err
      | None \<Rightarrow>
          let p1 = open_event p e;
              market = event_market_id p1 (ev_kind e);
              sequence = (case market of None \<Rightarrow> 0 | Some market_id \<Rightarrow> next_market_sequence p1 market_id);
              previous = (case market of None \<Rightarrow> None
                 | Some market_id \<Rightarrow> map_option mh_projection_status (bt_get (pj_market_health p1) market_id))
          in case decide_event x enforce_freshness p1 e of
               Inl err \<Rightarrow> Inl err
             | Inr (e', v) \<Rightarrow> finish_event x market sequence previous e' v)"

end
