(* ===== verification/Core_Frame.thy ===== *)
theory Core_Frame
  imports Core_Evaluate
begin

text \<open>
  Which fields each part of \<open>evaluate_event\<close> writes. The lemmas of the collection \<open>frame\<close> are
  the equations of the fields a part leaves alone; the elimination rules \<open>evaluate_eventE\<close> and
  \<open>finish_eventE\<close> cut a successful step into its stages, so that a property of a step is a
  property of the stage that writes the field.
\<close>

named_theorems frame \<open>fields a stage of the step leaves alone\<close>

section \<open>Stages that touch health only\<close>

lemma update_health_frame [simp, frame]:
  "pj_generation (update_health i f p) = pj_generation p"
  "pj_cursor (update_health i f p) = pj_cursor p"
  "pj_persisted_cursor (update_health i f p) = pj_persisted_cursor p"
  "pj_scope_id (update_health i f p) = pj_scope_id p"
  "pj_books (update_health i f p) = pj_books p"
  "pj_catalog_revision (update_health i f p) = pj_catalog_revision p"
  "pj_markets (update_health i f p) = pj_markets p"
  "pj_condition_to_market (update_health i f p) = pj_condition_to_market p"
  "pj_negative_risk_relations (update_health i f p) = pj_negative_risk_relations p"
  "pj_monitoring_markets (update_health i f p) = pj_monitoring_markets p"
  "pj_monitoring_books (update_health i f p) = pj_monitoring_books p"
  "pj_quarantined_token_ids (update_health i f p) = pj_quarantined_token_ids p"
  "pj_token_health (update_health i f p) = pj_token_health p"
  "pj_market_recovery_token_ids (update_health i f p) = pj_market_recovery_token_ids p"
  "pj_unresolved_gaps (update_health i f p) = pj_unresolved_gaps p"
  "pj_recent_event_ids (update_health i f p) = pj_recent_event_ids p"
  "pj_ready (update_health i f p) = pj_ready p"
  "pj_fail_closed_reason (update_health i f p) = pj_fail_closed_reason p"
  by (simp_all add: update_health_def)

lemma pj_market_health_update [simp]:
  "pj_market_health (update_health i f p) = bt_insert i (f (health_entry p i)) (pj_market_health p)"
  by (simp add: update_health_def)

lemma quarantine_market_frame [simp, frame]:
  "pj_generation (quarantine_market i t n r e p) = pj_generation p"
  "pj_cursor (quarantine_market i t n r e p) = pj_cursor p"
  "pj_persisted_cursor (quarantine_market i t n r e p) = pj_persisted_cursor p"
  "pj_scope_id (quarantine_market i t n r e p) = pj_scope_id p"
  "pj_books (quarantine_market i t n r e p) = pj_books p"
  "pj_catalog_revision (quarantine_market i t n r e p) = pj_catalog_revision p"
  "pj_markets (quarantine_market i t n r e p) = pj_markets p"
  "pj_condition_to_market (quarantine_market i t n r e p) = pj_condition_to_market p"
  "pj_negative_risk_relations (quarantine_market i t n r e p) = pj_negative_risk_relations p"
  "pj_monitoring_markets (quarantine_market i t n r e p) = pj_monitoring_markets p"
  "pj_monitoring_books (quarantine_market i t n r e p) = pj_monitoring_books p"
  "pj_recent_event_ids (quarantine_market i t n r e p) = pj_recent_event_ids p"
  "pj_ready (quarantine_market i t n r e p) = pj_ready p"
  "pj_fail_closed_reason (quarantine_market i t n r e p) = pj_fail_closed_reason p"
  by (simp_all add: quarantine_market_def)

lemma quarantine_market_effect [simp]:
  "pj_unresolved_gaps (quarantine_market i t n r e p) = pj_unresolved_gaps p - {t}"
  "pj_quarantined_token_ids (quarantine_market i t n r e p) = insert t (pj_quarantined_token_ids p)"
  "bt_get (pj_market_health (quarantine_market i t n r e p)) i' =
     (if i' = i then Some ((health_entry p i)\<lparr>
            mh_projection_status := Quarantined,
            mh_gap_from := opt_or (mh_gap_from (health_entry p i)) (Some n),
            mh_gap_to := Some n,
            mh_reason_code := Some r,
            mh_retryable := True,
            mh_retry_after := Some (ev_received_at e + nanos_per_second) \<rparr>)
      else bt_get (pj_market_health p) i')"
  by (simp_all add: quarantine_market_def health_entry_def)

lemma localize_fault_frame [simp, frame]:
  "pj_generation (es_next (localize_fault m n e p r)) = pj_generation p"
  "pj_cursor (es_next (localize_fault m n e p r)) = pj_cursor p"
  "pj_persisted_cursor (es_next (localize_fault m n e p r)) = pj_persisted_cursor p"
  "pj_scope_id (es_next (localize_fault m n e p r)) = pj_scope_id p"
  "pj_books (es_next (localize_fault m n e p r)) = pj_books p"
  "pj_catalog_revision (es_next (localize_fault m n e p r)) = pj_catalog_revision p"
  "pj_markets (es_next (localize_fault m n e p r)) = pj_markets p"
  "pj_condition_to_market (es_next (localize_fault m n e p r)) = pj_condition_to_market p"
  "pj_negative_risk_relations (es_next (localize_fault m n e p r)) = pj_negative_risk_relations p"
  "pj_monitoring_markets (es_next (localize_fault m n e p r)) = pj_monitoring_markets p"
  "pj_monitoring_books (es_next (localize_fault m n e p r)) = pj_monitoring_books p"
  "pj_recent_event_ids (es_next (localize_fault m n e p r)) = pj_recent_event_ids p"
  by (simp_all add: localize_fault_def split: option.splits)

lemma recovery_frame [simp, frame]:
  "pj_market_health (observe_recovery i t p) = pj_market_health p"
  "pj_market_health (release_tokens i p) = pj_market_health p"
  "pj_books (observe_recovery i t p) = pj_books p"
  "pj_books (release_tokens i p) = pj_books p"
  "pj_markets (observe_recovery i t p) = pj_markets p"
  "pj_markets (release_tokens i p) = pj_markets p"
  "pj_unresolved_gaps (observe_recovery i t p) = pj_unresolved_gaps p"
  "pj_unresolved_gaps (release_tokens i p) = pj_unresolved_gaps p"
  "pj_catalog_revision (observe_recovery i t p) = pj_catalog_revision p"
  "pj_catalog_revision (release_tokens i p) = pj_catalog_revision p"
  "pj_quarantined_token_ids (observe_recovery i t p) = pj_quarantined_token_ids p"
  by (simp_all add: observe_recovery_def release_tokens_def Let_def)

lemma recover_market_frame [simp, frame]:
  "pj_generation (es_next (recover_market i prev e a s)) = pj_generation (es_next s)"
  "pj_cursor (es_next (recover_market i prev e a s)) = pj_cursor (es_next s)"
  "pj_persisted_cursor (es_next (recover_market i prev e a s)) = pj_persisted_cursor (es_next s)"
  "pj_scope_id (es_next (recover_market i prev e a s)) = pj_scope_id (es_next s)"
  "pj_books (es_next (recover_market i prev e a s)) = pj_books (es_next s)"
  "pj_catalog_revision (es_next (recover_market i prev e a s)) = pj_catalog_revision (es_next s)"
  "pj_markets (es_next (recover_market i prev e a s)) = pj_markets (es_next s)"
  "pj_condition_to_market (es_next (recover_market i prev e a s)) = pj_condition_to_market (es_next s)"
  "pj_negative_risk_relations (es_next (recover_market i prev e a s)) = pj_negative_risk_relations (es_next s)"
  "pj_monitoring_markets (es_next (recover_market i prev e a s)) = pj_monitoring_markets (es_next s)"
  "pj_monitoring_books (es_next (recover_market i prev e a s)) = pj_monitoring_books (es_next s)"
  "pj_recent_event_ids (es_next (recover_market i prev e a s)) = pj_recent_event_ids (es_next s)"
  "pj_unresolved_gaps (es_next (recover_market i prev e a s)) = pj_unresolved_gaps (es_next s)"
  "es_rejected (recover_market i prev e a s) = es_rejected s"
  by (simp_all add: recover_market_def Let_def mark_ready_def mark_recovering_def observe_recovery_def release_tokens_def)

lemma demote_market_frame [simp, frame]:
  "pj_generation (es_next (demote_market i n prev e s)) = pj_generation (es_next s)"
  "pj_cursor (es_next (demote_market i n prev e s)) = pj_cursor (es_next s)"
  "pj_persisted_cursor (es_next (demote_market i n prev e s)) = pj_persisted_cursor (es_next s)"
  "pj_scope_id (es_next (demote_market i n prev e s)) = pj_scope_id (es_next s)"
  "pj_books (es_next (demote_market i n prev e s)) = pj_books (es_next s)"
  "pj_catalog_revision (es_next (demote_market i n prev e s)) = pj_catalog_revision (es_next s)"
  "pj_markets (es_next (demote_market i n prev e s)) = pj_markets (es_next s)"
  "pj_condition_to_market (es_next (demote_market i n prev e s)) = pj_condition_to_market (es_next s)"
  "pj_negative_risk_relations (es_next (demote_market i n prev e s)) = pj_negative_risk_relations (es_next s)"
  "pj_monitoring_markets (es_next (demote_market i n prev e s)) = pj_monitoring_markets (es_next s)"
  "pj_monitoring_books (es_next (demote_market i n prev e s)) = pj_monitoring_books (es_next s)"
  "pj_recent_event_ids (es_next (demote_market i n prev e s)) = pj_recent_event_ids (es_next s)"
  "es_rejected (demote_market i n prev e s) = es_rejected s"
  by (simp_all add: demote_market_def)

lemma publish_readiness_frame [simp, frame]:
  "pj_generation (publish_readiness c r p) = pj_generation p"
  "pj_cursor (publish_readiness c r p) = pj_cursor p"
  "pj_persisted_cursor (publish_readiness c r p) = pj_persisted_cursor p"
  "pj_scope_id (publish_readiness c r p) = pj_scope_id p"
  "pj_books (publish_readiness c r p) = pj_books p"
  "pj_catalog_revision (publish_readiness c r p) = pj_catalog_revision p"
  "pj_markets (publish_readiness c r p) = pj_markets p"
  "pj_condition_to_market (publish_readiness c r p) = pj_condition_to_market p"
  "pj_negative_risk_relations (publish_readiness c r p) = pj_negative_risk_relations p"
  "pj_monitoring_markets (publish_readiness c r p) = pj_monitoring_markets p"
  "pj_monitoring_books (publish_readiness c r p) = pj_monitoring_books p"
  "pj_market_health (publish_readiness c r p) = pj_market_health p"
  "pj_quarantined_token_ids (publish_readiness c r p) = pj_quarantined_token_ids p"
  "pj_token_health (publish_readiness c r p) = pj_token_health p"
  "pj_market_recovery_token_ids (publish_readiness c r p) = pj_market_recovery_token_ids p"
  "pj_unresolved_gaps (publish_readiness c r p) = pj_unresolved_gaps p"
  "pj_recent_event_ids (publish_readiness c r p) = pj_recent_event_ids p"
  by (simp_all add: publish_readiness_def Let_def)

lemma health_entry_publish [simp]:
  "health_entry (publish_readiness c r p) i = health_entry p i"
  by (simp add: health_entry_def)

lemma record_market_event_frame [simp, frame]:
  "pj_generation (record_market_event i n e p) = pj_generation p"
  "pj_cursor (record_market_event i n e p) = pj_cursor p"
  "pj_persisted_cursor (record_market_event i n e p) = pj_persisted_cursor p"
  "pj_scope_id (record_market_event i n e p) = pj_scope_id p"
  "pj_books (record_market_event i n e p) = pj_books p"
  "pj_catalog_revision (record_market_event i n e p) = pj_catalog_revision p"
  "pj_markets (record_market_event i n e p) = pj_markets p"
  "pj_condition_to_market (record_market_event i n e p) = pj_condition_to_market p"
  "pj_negative_risk_relations (record_market_event i n e p) = pj_negative_risk_relations p"
  "pj_monitoring_markets (record_market_event i n e p) = pj_monitoring_markets p"
  "pj_monitoring_books (record_market_event i n e p) = pj_monitoring_books p"
  "pj_quarantined_token_ids (record_market_event i n e p) = pj_quarantined_token_ids p"
  "pj_unresolved_gaps (record_market_event i n e p) = pj_unresolved_gaps p"
  "pj_recent_event_ids (record_market_event i n e p) = pj_recent_event_ids p"
  "pj_ready (record_market_event i n e p) = pj_ready p"
  "pj_fail_closed_reason (record_market_event i n e p) = pj_fail_closed_reason p"
  by (simp_all add: record_market_event_def)

lemma remember_event_frame [simp, frame]:
  "pj_generation (remember_event e p) = pj_generation p"
  "pj_cursor (remember_event e p) = pj_cursor p"
  "pj_persisted_cursor (remember_event e p) = ev_cursor e"
  "pj_scope_id (remember_event e p) = pj_scope_id p"
  "pj_books (remember_event e p) = pj_books p"
  "pj_catalog_revision (remember_event e p) = pj_catalog_revision p"
  "pj_markets (remember_event e p) = pj_markets p"
  "pj_condition_to_market (remember_event e p) = pj_condition_to_market p"
  "pj_negative_risk_relations (remember_event e p) = pj_negative_risk_relations p"
  "pj_monitoring_markets (remember_event e p) = pj_monitoring_markets p"
  "pj_monitoring_books (remember_event e p) = pj_monitoring_books p"
  "pj_market_health (remember_event e p) = pj_market_health p"
  "pj_quarantined_token_ids (remember_event e p) = pj_quarantined_token_ids p"
  "pj_token_health (remember_event e p) = pj_token_health p"
  "pj_market_recovery_token_ids (remember_event e p) = pj_market_recovery_token_ids p"
  "pj_unresolved_gaps (remember_event e p) = pj_unresolved_gaps p"
  "pj_ready (remember_event e p) = pj_ready p"
  "pj_fail_closed_reason (remember_event e p) = pj_fail_closed_reason p"
  by (simp_all add: remember_event_def Let_def)

section \<open>Reconciliation touches the instrument facts only\<close>

lemma reconcile_shape:
  assumes "reconcile_active_market_instrument_ticks x p = Inr (c, q)"
  shows "\<exists>markets. q = p\<lparr> pj_markets := markets \<rparr>"
proof (intro exI [of _ "pj_markets q"])
  show "q = p\<lparr> pj_markets := pj_markets q \<rparr>"
    using assms by (auto simp: reconcile_active_market_instrument_ticks_def split: if_splits option.splits sum.splits)
qed

lemma reconcile_frame:
  assumes "reconcile_active_market_instrument_ticks x p = Inr (c, q)"
  shows "pj_generation q = pj_generation p" "pj_cursor q = pj_cursor p"
    "pj_persisted_cursor q = pj_persisted_cursor p" "pj_scope_id q = pj_scope_id p"
    "pj_books q = pj_books p" "pj_catalog_revision q = pj_catalog_revision p"
    "pj_condition_to_market q = pj_condition_to_market p"
    "pj_negative_risk_relations q = pj_negative_risk_relations p"
    "pj_monitoring_markets q = pj_monitoring_markets p" "pj_monitoring_books q = pj_monitoring_books p"
    "pj_market_health q = pj_market_health p"
    "pj_quarantined_token_ids q = pj_quarantined_token_ids p" "pj_token_health q = pj_token_health p"
    "pj_market_recovery_token_ids q = pj_market_recovery_token_ids p"
    "pj_unresolved_gaps q = pj_unresolved_gaps p" "pj_recent_event_ids q = pj_recent_event_ids p"
  using reconcile_shape [OF assms] by auto

section \<open>Opening an event\<close>

lemma open_event_shape:
  "\<exists>h. open_event p e = p\<lparr> pj_generation := pj_generation p + 1, pj_cursor := ev_cursor e, pj_market_health := h \<rparr>"
proof (intro exI [of _ "pj_market_health (open_event p e)"])
  show "open_event p e = p\<lparr> pj_generation := pj_generation p + 1, pj_cursor := ev_cursor e,
      pj_market_health := pj_market_health (open_event p e) \<rparr>"
    by (simp add: open_event_def Let_def split: option.splits)
qed

lemma open_event_frame [simp, frame]:
  "pj_generation (open_event p e) = pj_generation p + 1"
  "pj_cursor (open_event p e) = ev_cursor e"
  "pj_persisted_cursor (open_event p e) = pj_persisted_cursor p"
  "pj_scope_id (open_event p e) = pj_scope_id p"
  "pj_books (open_event p e) = pj_books p"
  "pj_catalog_revision (open_event p e) = pj_catalog_revision p"
  "pj_markets (open_event p e) = pj_markets p"
  "pj_condition_to_market (open_event p e) = pj_condition_to_market p"
  "pj_negative_risk_relations (open_event p e) = pj_negative_risk_relations p"
  "pj_monitoring_markets (open_event p e) = pj_monitoring_markets p"
  "pj_monitoring_books (open_event p e) = pj_monitoring_books p"
  "pj_quarantined_token_ids (open_event p e) = pj_quarantined_token_ids p"
  "pj_token_health (open_event p e) = pj_token_health p"
  "pj_market_recovery_token_ids (open_event p e) = pj_market_recovery_token_ids p"
  "pj_unresolved_gaps (open_event p e) = pj_unresolved_gaps p"
  "pj_recent_event_ids (open_event p e) = pj_recent_event_ids p"
  using open_event_shape [of p e] by auto

section \<open>Cutting a step into its stages\<close>

lemma finish_eventE:
  assumes "finish_event x market n prev e (p0, applied, rejected) = Inr (q, r)"
  obtains c p1 s1 s2 where
    "reconcile_active_market_instrument_ticks x (es_next (localize_fault market n e p0 rejected)) = Inr (c, p1)"
    "s1 = (localize_fault market n e p0 rejected)\<lparr> es_next := p1 \<rparr>"
    "s2 = (case market of None \<Rightarrow> s1
       | Some i \<Rightarrow> demote_market i n prev e (recover_market i prev e applied s1))"
    "q = remember_event e (case market of None \<Rightarrow> publish_readiness c (es_rejected s2) (es_next s2)
       | Some i \<Rightarrow> record_market_event i n e (publish_readiness c (es_rejected s2) (es_next s2)))"
    "pe_event r = e" "pe_applied r = applied" "pe_fail_closed_reason r = es_rejected s2"
    "pe_market r = (case market of None \<Rightarrow> None
       | Some i \<Rightarrow> Some (market_event_metadata i n e s2 (publish_readiness c (es_rejected s2) (es_next s2))))"
  using assms
  by (cases market) (auto simp: finish_event_def Let_def split: sum.splits prod.splits)

lemma evaluate_eventE:
  assumes "evaluate_event x vr vd en p e = Inr (q, r)"
  obtains e' p0 applied rejected market n prev where
    "event_guard x vr vd p e = None"
    "market = event_market_id (open_event p e) (ev_kind e)"
    "n = (case market of None \<Rightarrow> 0 | Some i \<Rightarrow> next_market_sequence (open_event p e) i)"
    "prev = (case market of None \<Rightarrow> None
       | Some i \<Rightarrow> map_option mh_projection_status (bt_get (pj_market_health (open_event p e)) i))"
    "decide_event x en (open_event p e) e = Inr (e', p0, applied, rejected)"
    "finish_event x market n prev e' (p0, applied, rejected) = Inr (q, r)"
  using assms
  by (auto simp: evaluate_event_def Let_def split: option.splits sum.splits prod.splits)

lemma finish_event_frame:
  assumes "finish_event x market n prev e (p0, applied, rejected) = Inr (q, r)"
  shows "pj_generation q = pj_generation p0" "pj_cursor q = pj_cursor p0"
    "pj_persisted_cursor q = ev_cursor e" "pj_scope_id q = pj_scope_id p0"
    "pj_books q = pj_books p0" "pj_catalog_revision q = pj_catalog_revision p0"
    "pj_condition_to_market q = pj_condition_to_market p0"
    "pj_negative_risk_relations q = pj_negative_risk_relations p0"
    "pj_monitoring_markets q = pj_monitoring_markets p0" "pj_monitoring_books q = pj_monitoring_books p0"
    "pj_recent_event_ids q = (let ids = pj_recent_event_ids p0 @ [ev_event_id e]
       in if length ids > recent_window then tl ids else ids)"
    "pe_event r = e" "pe_applied r = applied"
  by (rule finish_eventE [OF assms],
      cases market; auto simp: reconcile_frame remember_event_def Let_def)+

section \<open>The decision\<close>

lemma reject_simps [simp]:
  "fst (reject g r p) = p\<lparr> pj_unresolved_gaps := insert g (pj_unresolved_gaps p) \<rparr>"
  "fst (snd (reject g r p)) = False"
  "snd (snd (reject g r p)) = Some r"
  by (simp_all add: reject_def)

lemma accept_simps [simp]: "fst (accept p) = p" "fst (snd (accept p)) = True" "snd (snd (accept p)) = None"
  by (simp_all add: accept_def)

lemma expand_event_frame [simp]:
  "ev_schema_version (expand_event en p e) = ev_schema_version e"
  "ev_cursor (expand_event en p e) = ev_cursor e"
  "ev_event_id (expand_event en p e) = ev_event_id e"
  "ev_scope_id (expand_event en p e) = ev_scope_id e"
  "ev_received_at (expand_event en p e) = ev_received_at e"
  "ev_source_observed_at (expand_event en p e) = ev_source_observed_at e"
  "ev_normalizer_version (expand_event en p e) = ev_normalizer_version e"
  "ev_config_revision (expand_event en p e) = ev_config_revision e"
  "ev_source (expand_event en p e) = ev_source e"
  "ev_raw_payload (expand_event en p e) = ev_raw_payload e"
  "kind_token_id (ev_kind (expand_event en p e)) = kind_token_id (ev_kind e)"
  "is_atomic_delta (ev_kind (expand_event en p e)) = is_atomic_delta (ev_kind e)"
  "is_best_bid_ask (ev_kind (expand_event en p e)) = is_best_bid_ask (ev_kind e)"
  "is_full_book (ev_kind (expand_event en p e)) = is_full_book (ev_kind e)"
  "market_event_is_locally_recoverable (ev_kind (expand_event en p e)) = market_event_is_locally_recoverable (ev_kind e)"
  "event_market_id q (ev_kind (expand_event en p e)) = event_market_id q (ev_kind e)"
  by (auto simp: expand_event_def split: event_kind.splits option.splits)

lemma clear_changes_frame [simp]:
  "kind_token_id (clear_changes k) = kind_token_id k"
  "is_atomic_delta (clear_changes k) = is_atomic_delta k"
  "is_best_bid_ask (clear_changes k) = is_best_bid_ask k"
  "is_full_book (clear_changes k) = is_full_book k"
  "market_event_is_locally_recoverable (clear_changes k) = market_event_is_locally_recoverable k"
  "event_market_id q (clear_changes k) = event_market_id q k"
  "clear_changes (clear_changes k) = clear_changes k"
  by (cases k; simp)+

text \<open>The event that is persisted differs from the one received only in the changes of an atomic delta.\<close>

lemma decide_event_persisted:
  assumes "decide_event x en p e = Inr (e', v)"
  shows "\<exists>k. e' = e\<lparr> ev_kind := k \<rparr> \<and> kind_token_id k = kind_token_id (ev_kind e)
    \<and> is_atomic_delta k = is_atomic_delta (ev_kind e) \<and> is_best_bid_ask k = is_best_bid_ask (ev_kind e)
    \<and> is_full_book k = is_full_book (ev_kind e)
    \<and> market_event_is_locally_recoverable k = market_event_is_locally_recoverable (ev_kind e)
    \<and> (\<forall>q. event_market_id q k = event_market_id q (ev_kind e))"
proof -
  have ex: "expand_event en p e = e\<lparr> ev_kind := ev_kind (expand_event en p e) \<rparr>"
    by (auto simp: expand_event_def split: event_kind.splits option.splits)
  have "e' = expand_event en p e \<or> e' = (expand_event en p e)\<lparr> ev_kind := clear_changes (ev_kind (expand_event en p e)) \<rparr>"
    using assms by (auto simp: decide_event_def Let_def split: if_splits sum.splits)
  then have "e' = e\<lparr> ev_kind := ev_kind e' \<rparr> \<and> (ev_kind e' = ev_kind (expand_event en p e)
    \<or> ev_kind e' = clear_changes (ev_kind (expand_event en p e)))"
  proof
    assume "e' = expand_event en p e"
    then show ?thesis using ex by simp
  next
    assume "e' = (expand_event en p e)\<lparr> ev_kind := clear_changes (ev_kind (expand_event en p e)) \<rparr>"
    then show ?thesis by (subst (asm) ex) simp
  qed
  then show ?thesis by (intro exI [of _ "ev_kind e'"]) auto
qed

end
