(* ===== verification/Core_Step.thy ===== *)
theory Core_Step
  imports Core_Frame
begin

text \<open>
  What one event does to a projection, kind by kind: the shape of a rejection, the book an
  accepted event stores, and the fields no kind of event writes. The theorems about whole steps
  rest on these lemmas and on the stage rules of \<open>Core_Frame\<close>.
\<close>

section \<open>Catalogue stages\<close>

lemma retire_market_frame [simp, frame]:
  "pj_generation (retire_market c m p) = pj_generation p"
  "pj_cursor (retire_market c m p) = pj_cursor p"
  "pj_persisted_cursor (retire_market c m p) = pj_persisted_cursor p"
  "pj_scope_id (retire_market c m p) = pj_scope_id p"
  "pj_books (retire_market c m p) = pj_books p"
  "pj_markets (retire_market c m p) = pj_markets p"
  "pj_unresolved_gaps (retire_market c m p) = pj_unresolved_gaps p"
  "pj_recent_event_ids (retire_market c m p) = pj_recent_event_ids p"
  by (simp_all add: retire_market_def Let_def)

lemma drop_monitoring_frame [simp, frame]:
  "pj_generation (drop_monitoring m p) = pj_generation p"
  "pj_cursor (drop_monitoring m p) = pj_cursor p"
  "pj_persisted_cursor (drop_monitoring m p) = pj_persisted_cursor p"
  "pj_scope_id (drop_monitoring m p) = pj_scope_id p"
  "pj_books (drop_monitoring m p) = pj_books p"
  "pj_markets (drop_monitoring m p) = pj_markets p"
  "pj_unresolved_gaps (drop_monitoring m p) = pj_unresolved_gaps p"
  "pj_recent_event_ids (drop_monitoring m p) = pj_recent_event_ids p"
  by (simp_all add: drop_monitoring_def split: option.splits)

lemma ensure_health_frame [simp, frame]:
  "pj_generation (ensure_health m p) = pj_generation p"
  "pj_cursor (ensure_health m p) = pj_cursor p"
  "pj_persisted_cursor (ensure_health m p) = pj_persisted_cursor p"
  "pj_scope_id (ensure_health m p) = pj_scope_id p"
  "pj_books (ensure_health m p) = pj_books p"
  "pj_markets (ensure_health m p) = pj_markets p"
  "pj_condition_to_market (ensure_health m p) = pj_condition_to_market p"
  "pj_catalog_revision (ensure_health m p) = pj_catalog_revision p"
  "pj_unresolved_gaps (ensure_health m p) = pj_unresolved_gaps p"
  "pj_recent_event_ids (ensure_health m p) = pj_recent_event_ids p"
  by (simp_all add: ensure_health_def)

lemma prune_gaps_frame [simp, frame]:
  "pj_generation (snd (prune_stale_scope_gaps p)) = pj_generation p"
  "pj_cursor (snd (prune_stale_scope_gaps p)) = pj_cursor p"
  "pj_persisted_cursor (snd (prune_stale_scope_gaps p)) = pj_persisted_cursor p"
  "pj_scope_id (snd (prune_stale_scope_gaps p)) = pj_scope_id p"
  "pj_books (snd (prune_stale_scope_gaps p)) = pj_books p"
  "pj_catalog_revision (snd (prune_stale_scope_gaps p)) = pj_catalog_revision p"
  "pj_markets (snd (prune_stale_scope_gaps p)) = pj_markets p"
  "pj_condition_to_market (snd (prune_stale_scope_gaps p)) = pj_condition_to_market p"
  "pj_market_health (snd (prune_stale_scope_gaps p)) = pj_market_health p"
  "pj_recent_event_ids (snd (prune_stale_scope_gaps p)) = pj_recent_event_ids p"
  by (simp_all add: prune_stale_scope_gaps_def Let_def)

lemma replace_catalog_frame [simp, frame]:
  "pj_generation (replace_catalog c cs p) = pj_generation p"
  "pj_cursor (replace_catalog c cs p) = pj_cursor p"
  "pj_persisted_cursor (replace_catalog c cs p) = pj_persisted_cursor p"
  "pj_scope_id (replace_catalog c cs p) = pj_scope_id p"
  "pj_recent_event_ids (replace_catalog c cs p) = pj_recent_event_ids p"
  by (simp_all add: replace_catalog_def install_catalog_def Let_def fold_frame split: prod.splits)

lemma pj_books_replace_catalog [simp]:
  "pj_books (replace_catalog c cs p) = bt_retain (\<lambda>t b. t \<in> snd (snd (snd cs))) (pj_books p)"
  by (simp add: replace_catalog_def install_catalog_def Let_def fold_frame split: prod.splits)

section \<open>Verdicts\<close>

lemma close_group_frame [simp, frame]:
  "pj_generation (close_group x e g p) = pj_generation p"
  "pj_cursor (close_group x e g p) = pj_cursor p"
  "pj_persisted_cursor (close_group x e g p) = pj_persisted_cursor p"
  "pj_scope_id (close_group x e g p) = pj_scope_id p"
  "pj_books (close_group x e g p) = pj_books p"
  "pj_markets (close_group x e g p) = pj_markets p"
  "pj_catalog_revision (close_group x e g p) = pj_catalog_revision p"
  "pj_condition_to_market (close_group x e g p) = pj_condition_to_market p"
  "pj_market_health (close_group x e g p) = pj_market_health p"
  "pj_recent_event_ids (close_group x e g p) = pj_recent_event_ids p"
  by (simp_all add: close_group_def add_gap_def)

lemma apply_kind_frame:
  assumes "apply_kind x e k p = Inr (q, a, r)"
  shows "pj_generation q = pj_generation p" "pj_cursor q = pj_cursor p"
    "pj_persisted_cursor q = pj_persisted_cursor p" "pj_scope_id q = pj_scope_id p"
    "pj_recent_event_ids q = pj_recent_event_ids p"
proof -
  have "pj_generation q = pj_generation p \<and> pj_cursor q = pj_cursor p
    \<and> pj_persisted_cursor q = pj_persisted_cursor p \<and> pj_scope_id q = pj_scope_id p
    \<and> pj_recent_event_ids q = pj_recent_event_ids p"
    using assms
    by (cases k)
      (auto simp: reject_def accept_def apply_catalog_def apply_new_market_def apply_resolved_def
        resolve_market_def add_gap_def apply_full_book_def apply_delta_def apply_atomic_delta_def
        apply_best_bid_ask_def apply_last_trade_def apply_tick_size_def apply_source_gap_def
        put_book_def Let_def split: if_splits option.splits sum.splits)
  then show "pj_generation q = pj_generation p" "pj_cursor q = pj_cursor p"
    "pj_persisted_cursor q = pj_persisted_cursor p" "pj_scope_id q = pj_scope_id p"
    "pj_recent_event_ids q = pj_recent_event_ids p" by auto
qed

text \<open>A verdict that is not applied is a rejection: the projection gains one gap and nothing else.\<close>

lemma apply_kind_rejected:
  assumes "apply_kind x e k p = Inr (q, False, r)"
  obtains g why where "q = p\<lparr> pj_unresolved_gaps := insert g (pj_unresolved_gaps p) \<rparr>" "r = Some why"
proof -
  have "\<exists>g why. q = p\<lparr> pj_unresolved_gaps := insert g (pj_unresolved_gaps p) \<rparr> \<and> r = Some why"
    using assms
    by (cases k)
      (auto simp: reject_def accept_def apply_catalog_def apply_new_market_def apply_resolved_def
        apply_full_book_def apply_delta_def apply_atomic_delta_def
        apply_best_bid_ask_def apply_last_trade_def apply_tick_size_def apply_source_gap_def
        Let_def split: if_splits option.splits sum.splits)
  with that show thesis by blast
qed

text \<open>
  For the kinds that are recovered locally a verdict either opens the gap of the event's own
  token or stores one book; a full book also closes the token's gap.
\<close>

definition local_verdict :: "string \<Rightarrow> bool \<Rightarrow> projection \<Rightarrow> verdict \<Rightarrow> bool" where
  "local_verdict t full p v \<longleftrightarrow> (\<exists>why. v = reject t why p)
     \<or> (\<exists>b. v = accept ((put_book t b p)\<lparr> pj_unresolved_gaps :=
          (if full then pj_unresolved_gaps p - {t} else pj_unresolved_gaps p) \<rparr>))"

lemma local_reject [intro, simp]: "local_verdict t full p (reject t why p)"
  by (auto simp: local_verdict_def)

lemma local_accept [intro, simp]: "local_verdict t False p (accept (put_book t b p))"
  unfolding local_verdict_def by (rule disjI2, rule exI [of _ b]) (simp add: put_book_def)

lemma local_accept_full [intro, simp]:
  "local_verdict t True p (accept ((put_book t b p)\<lparr> pj_unresolved_gaps := pj_unresolved_gaps p - {t} \<rparr>))"
  unfolding local_verdict_def by (rule disjI2, rule exI [of _ b]) simp

lemma local_kinds:
  "local_verdict t True p (apply_full_book x e t bids asks tick version p)"
  "local_verdict t False p (apply_delta x e t s levels p)"
  "local_verdict t False p (apply_atomic_delta x e t changes bb ba p)"
  "local_verdict t False p (apply_best_bid_ask e t bb ba p)"
  "apply_last_trade x e t price p = Inr v \<Longrightarrow> local_verdict t False p v"
  "local_verdict t False p (apply_source_gap t why p)"
proof -
  show "local_verdict t True p (apply_full_book x e t bids asks tick version p)"
    unfolding apply_full_book_def Let_def by simp
  show "local_verdict t False p (apply_delta x e t s levels p)"
    unfolding apply_delta_def Let_def by (simp split: option.split)
  show "local_verdict t False p (apply_atomic_delta x e t changes bb ba p)"
    unfolding apply_atomic_delta_def Let_def
    by (rule option.split [THEN iffD2], rule conjI) (simp_all)
  show "local_verdict t False p (apply_best_bid_ask e t bb ba p)"
    unfolding apply_best_bid_ask_def by (simp split: option.split)
  show "apply_last_trade x e t price p = Inr v \<Longrightarrow> local_verdict t False p v"
    unfolding apply_last_trade_def by (auto split: option.splits sum.splits if_splits)
  show "local_verdict t False p (apply_source_gap t why p)"
    unfolding apply_source_gap_def by simp
qed

lemma apply_kind_local:
  assumes "apply_kind x e k p = Inr v" and "market_event_is_locally_recoverable k"
  shows "local_verdict (kind_token_id k) (is_full_book k) p v"
  using assms by (cases k) (auto intro: local_kinds)

section \<open>The decision\<close>

text \<open>The three ways a decision is reached.\<close>

lemma decide_eventE:
  assumes "decide_event x en p e = Inr (e', q, a, r)"
  obtains
    (stale) why where "e' = expand_event en p e"
      "(q, a, r) = reject (kind_token_id (ev_kind e)) why p"
      "se_missing (ev_source e) \<or> en \<and> se_delayed (ev_source e) \<and> \<not> incremental_superseded p e"
  | (superseded) "e' = (expand_event en p e)\<lparr> ev_kind := clear_changes (ev_kind (expand_event en p e)) \<rparr>"
      "(q, a, r) = accept p" "incremental_superseded p e" "\<not> se_missing (ev_source e)"
  | (kind) "e' = expand_event en p e" "apply_kind x e' (ev_kind e') p = Inr (q, a, r)"
      "\<not> incremental_superseded p e" "\<not> se_missing (ev_source e)" "\<not> (en \<and> se_delayed (ev_source e))"
proof (cases "se_missing (ev_source e) \<or> en \<and> se_delayed (ev_source e) \<and> \<not> incremental_superseded p e")
  case True
  with assms have "e' = expand_event en p e"
    "(q, a, r) = reject (kind_token_id (ev_kind e))
       (if se_missing (ev_source e) then ''source_data_missing'' else ''source_data_delayed'') p"
    by (auto simp: decide_event_def Let_def)
  with True show thesis by (rule stale [rotated 2])
next
  case False
  note fresh = False
  show thesis
  proof (cases "incremental_superseded p e")
    case True
    with assms fresh show thesis
      by (intro superseded) (auto simp: decide_event_def Let_def)
  next
    case False
    with assms fresh have "apply_kind x (expand_event en p e) (ev_kind (expand_event en p e)) p = Inr (q, a, r)
        \<and> e' = expand_event en p e"
      by (auto simp: decide_event_def Let_def split: sum.splits)
    with False fresh show thesis by (intro kind) auto
  qed
qed

lemma decide_event_frame:
  assumes "decide_event x en p e = Inr (e', q, a, r)"
  shows "pj_generation q = pj_generation p" "pj_cursor q = pj_cursor p"
    "pj_persisted_cursor q = pj_persisted_cursor p" "pj_scope_id q = pj_scope_id p"
    "pj_recent_event_ids q = pj_recent_event_ids p"
  by (rule decide_eventE [OF assms]; simp add: reject_def accept_def apply_kind_frame)+

lemma decide_event_rejected:
  assumes "decide_event x en p e = Inr (e', q, False, r)"
  obtains g why where "q = p\<lparr> pj_unresolved_gaps := insert g (pj_unresolved_gaps p) \<rparr>" "r = Some why"
proof (rule decide_eventE [OF assms])
  fix why
  assume "(q, False, r) = reject (kind_token_id (ev_kind e)) why p"
  then show thesis by (auto simp: reject_def intro: that)
next
  assume "(q, False, r) = accept p"
  then show thesis by (simp add: accept_def)
next
  assume "apply_kind x e' (ev_kind e') p = Inr (q, False, r)"
  then show thesis by (rule apply_kind_rejected) (rule that)
qed

text \<open>So does a decision, which may also be a durable no-op.\<close>

lemma decide_event_local:
  assumes "decide_event x en p e = Inr (e', v)" and "market_event_is_locally_recoverable (ev_kind e)"
  shows "v = accept p \<or> local_verdict (kind_token_id (ev_kind e)) (is_full_book (ev_kind e)) p v"
proof -
  obtain q a r where v: "v = (q, a, r)" by (cases v)
  show ?thesis
  proof (rule decide_eventE [OF assms(1) [unfolded v]])
    fix why assume "(q, a, r) = reject (kind_token_id (ev_kind e)) why p"
    with v show ?thesis by simp
  next
    assume "(q, a, r) = accept p"
    with v show ?thesis by simp
  next
    assume e': "e' = expand_event en p e" and k: "apply_kind x e' (ev_kind e') p = Inr (q, a, r)"
    from e' assms(2) have "market_event_is_locally_recoverable (ev_kind e')" by simp
    from apply_kind_local [OF k this] e' v show ?thesis by simp
  qed
qed

end
