(* ===== verification/Core_Catalog.thy ===== *)
theory Core_Catalog
  imports Core_Step
begin

text \<open>
  The catalogue invariant: markets are stored under their own id, the condition index points
  at them, no token belongs to two markets and every active market has a health entry. A
  validated snapshot establishes it and every event keeps it, which is what makes the
  \<open>expect\<close> calls of the step unreachable.
\<close>

definition market_index_ok :: "(string, market_record) btree \<Rightarrow> bool" where
  "market_index_ok ms =
     (bt_wf ms
      \<and> (\<forall>(i, m) \<in> set ms. mk_market_id m = i)
      \<and> (\<forall>(i, m) \<in> set ms. \<forall>(j, n) \<in> set ms. i \<noteq> j \<longrightarrow> set (market_tokens m) \<inter> set (market_tokens n) = {}))"

definition condition_index_ok :: "(string, market_record) btree \<Rightarrow> (string, string) btree \<Rightarrow> bool" where
  "condition_index_ok ms cs =
     (bt_wf cs \<and> (\<forall>(c, i) \<in> set cs. is_some_and (\<lambda>m. mk_condition_id m = c) (bt_get ms i)))"

definition health_covers :: "(string, market_record) btree \<Rightarrow> (string, market_health) btree \<Rightarrow> bool" where
  "health_covers ms hs = (\<forall>(i, m) \<in> set ms. is_active m \<longrightarrow> bt_contains hs i)"

definition catalog_wf :: "projection \<Rightarrow> bool" where
  "catalog_wf p =
     (market_index_ok (pj_markets p)
      \<and> condition_index_ok (pj_markets p) (pj_condition_to_market p)
      \<and> health_covers (pj_markets p) (pj_market_health p))"

section \<open>The invariant by lookups\<close>

lemma market_index_iff: "market_index_ok ms \<longleftrightarrow> bt_wf ms
  \<and> (\<forall>i m. bt_get ms i = Some m \<longrightarrow> mk_market_id m = i)
  \<and> (\<forall>i j m n t. bt_get ms i = Some m \<longrightarrow> bt_get ms j = Some n \<longrightarrow> t \<in> set (market_tokens m)
       \<longrightarrow> t \<in> set (market_tokens n) \<longrightarrow> i = j)"
  unfolding market_index_ok_def by (auto simp: bt_get_iff disjoint_iff) blast

lemma condition_index_iff: "condition_index_ok ms cs \<longleftrightarrow> bt_wf cs
  \<and> (\<forall>c i. bt_get cs c = Some i \<longrightarrow> (\<exists>m. bt_get ms i = Some m \<and> mk_condition_id m = c))"
  unfolding condition_index_ok_def by (auto simp: bt_get_iff is_some_and_def split: option.splits) fastforce+

lemma health_covers_iff: "bt_wf ms \<Longrightarrow> health_covers ms hs \<longleftrightarrow>
  (\<forall>i m. bt_get ms i = Some m \<longrightarrow> is_active m \<longrightarrow> bt_contains hs i)"
  unfolding health_covers_def by (auto simp: bt_get_iff)

lemma market_tokens_two: "market_tokens m = [ot_token_id (fst (mk_outcomes m)), ot_token_id (snd (mk_outcomes m))]"
  by (simp add: market_tokens_def outcomes_def)

lemma has_token_iff: "has_token t m \<longleftrightarrow> t \<in> set (market_tokens m)"
  by (auto simp: has_token_def market_tokens_def list_ex_iff)

text \<open>The scan over all markets is a lookup in the token-to-market relation.\<close>

lemma market_id_for_token_iff:
  assumes "market_index_ok (pj_markets p)"
  shows "market_id_for_token p t = Some i \<longleftrightarrow>
    (\<exists>m. bt_get (pj_markets p) i = Some m \<and> t \<in> set (market_tokens m))"
proof -
  have ix: "bt_wf (pj_markets p)" "\<And>j m. bt_get (pj_markets p) j = Some m \<Longrightarrow> mk_market_id m = j"
    "\<And>j k m n. bt_get (pj_markets p) j = Some m \<Longrightarrow> bt_get (pj_markets p) k = Some n
       \<Longrightarrow> t \<in> set (market_tokens m) \<Longrightarrow> t \<in> set (market_tokens n) \<Longrightarrow> j = k"
    using assms unfolding market_index_iff by blast+
  show ?thesis
  proof
    assume "market_id_for_token p t = Some i"
    then obtain m where m: "find (has_token t) (bt_values (pj_markets p)) = Some m" "mk_market_id m = i"
      by (auto simp: market_id_for_token_def)
    from m(1) have "m \<in> set (bt_values (pj_markets p))" "has_token t m"
      by (auto simp: find_Some_iff in_set_conv_nth)
    with m(2) ix(1,2) show "\<exists>m. bt_get (pj_markets p) i = Some m \<and> t \<in> set (market_tokens m)"
      by (auto simp: bt_values_iff has_token_iff)
  next
    assume "\<exists>m. bt_get (pj_markets p) i = Some m \<and> t \<in> set (market_tokens m)"
    then obtain m where m: "bt_get (pj_markets p) i = Some m" "t \<in> set (market_tokens m)" by blast
    then have "m \<in> set (bt_values (pj_markets p))" "has_token t m"
      by (simp_all add: bt_get_in_values has_token_iff)
    then have "find (has_token t) (bt_values (pj_markets p)) \<noteq> None"
      by (auto simp: find_None_iff)
    then obtain n where n: "find (has_token t) (bt_values (pj_markets p)) = Some n" by blast
    then have "n \<in> set (bt_values (pj_markets p))" "has_token t n"
      by (auto simp: find_Some_iff in_set_conv_nth)
    with m ix have "mk_market_id n = i"
      by (metis bt_values_iff has_token_iff)
    with n show "market_id_for_token p t = Some i" by (simp add: market_id_for_token_def)
  qed
qed

section \<open>A validated snapshot\<close>

lemma scan_outcomes_sets:
  assumes "scan_outcomes os toks insts = Some (toks', insts')"
  shows "toks' = toks \<union> ot_token_id ` set os \<and> toks \<inter> ot_token_id ` set os = {}
    \<and> distinct (map ot_token_id os) \<and> insts' = insts \<union> ot_instrument_id ` set os
    \<and> insts \<inter> ot_instrument_id ` set os = {} \<and> distinct (map ot_instrument_id os)"
  using assms by (induction os arbitrary: toks insts) (force split: if_splits)+

text \<open>What the accumulators of the validation loop mean.\<close>

definition acc_ok :: "catalog_acc \<Rightarrow> bool" where
  "acc_ok acc \<longleftrightarrow> market_index_ok (ca_by_market acc)
     \<and> condition_index_ok (ca_by_market acc) (ca_by_condition acc)
     \<and> (\<forall>i m. bt_get (ca_by_market acc) i = Some m \<longrightarrow> set (market_tokens m) \<subseteq> ca_all_tokens acc
          \<and> distinct (market_tokens m) \<and> (is_active m \<longleftrightarrow> mk_terminal_at m = None))
     \<and> (\<forall>t. t \<in> ca_active_tokens acc \<longleftrightarrow>
          (\<exists>i m. bt_get (ca_by_market acc) i = Some m \<and> is_active m \<and> t \<in> set (market_tokens m)))"

lemma acc_ok_empty: "acc_ok catalog_acc_empty"
  by (simp add: acc_ok_def catalog_acc_empty_def market_index_iff condition_index_iff)

text \<open>The fields a market contributes, apart from the negative-risk group.\<close>

lemma add_market_fields:
  assumes "add_market acc m = Some acc'"
  shows "mk_market_id m \<noteq> []" "mk_condition_id m \<noteq> []" "is_active m \<longleftrightarrow> mk_terminal_at m = None"
    "set (market_tokens m) \<inter> ca_all_tokens acc = {}" "distinct (market_tokens m)"
    "\<not> bt_contains (ca_by_condition acc) (mk_condition_id m)"
    "\<not> bt_contains (ca_by_market acc) (mk_market_id m)"
    "ca_by_condition acc' = bt_insert (mk_condition_id m) (mk_market_id m) (ca_by_condition acc)"
    "ca_by_market acc' = bt_insert (mk_market_id m) m (ca_by_market acc)"
    "ca_all_tokens acc' = ca_all_tokens acc \<union> set (market_tokens m)"
    "ca_active_tokens acc' = ca_active_tokens acc \<union> (if is_active m then set (market_tokens m) else {})"
proof -
  obtain toks insts where sc: "scan_outcomes (outcomes m) (ca_all_tokens acc) (ca_all_instruments acc) = Some (toks, insts)"
    using assms by (auto simp: add_market_def Let_def split: if_splits option.splits)
  note s = scan_outcomes_sets [OF sc]
  show "mk_market_id m \<noteq> []" "mk_condition_id m \<noteq> []" "is_active m \<longleftrightarrow> mk_terminal_at m = None"
    "\<not> bt_contains (ca_by_condition acc) (mk_condition_id m)"
    "\<not> bt_contains (ca_by_market acc) (mk_market_id m)"
    using assms sc by (auto simp: add_market_def Let_def split: if_splits)
  show "set (market_tokens m) \<inter> ca_all_tokens acc = {}" "distinct (market_tokens m)"
    using s by (auto simp: market_tokens_def)
  have t: "toks = ca_all_tokens acc \<union> set (market_tokens m)"
    using s by (simp add: market_tokens_def)
  show "ca_by_condition acc' = bt_insert (mk_condition_id m) (mk_market_id m) (ca_by_condition acc)"
    "ca_by_market acc' = bt_insert (mk_market_id m) m (ca_by_market acc)"
    "ca_all_tokens acc' = ca_all_tokens acc \<union> set (market_tokens m)"
    "ca_active_tokens acc' = ca_active_tokens acc \<union> (if is_active m then set (market_tokens m) else {})"
    using assms sc unfolding t
    by (auto simp: add_market_def Let_def split: if_splits option.splits list.splits prod.splits)
qed

lemma acc_ok_add:
  assumes ok: "acc_ok acc" and add: "add_market acc m = Some acc'"
  shows "acc_ok acc'"
proof -
  note f = add_market_fields [OF add]
  have fresh: "bt_get (ca_by_market acc) (mk_market_id m) = None"
    "bt_get (ca_by_condition acc) (mk_condition_id m) = None"
    using f(6,7) by (simp_all add: bt_contains_def)
  have old: "i \<noteq> mk_market_id m" "t \<notin> set (market_tokens m) \<or> t \<notin> set (market_tokens n)"
    if "bt_get (ca_by_market acc) i = Some n" for i n t
    using that fresh ok f(4) by (auto simp: acc_ok_def)
  have 1: "market_index_ok (ca_by_market acc')"
    using ok old unfolding acc_ok_def market_index_iff f(9) by (auto split: if_splits)
  have 2: "condition_index_ok (ca_by_market acc') (ca_by_condition acc')"
    using ok old fresh unfolding acc_ok_def condition_index_iff f(8,9) by (auto split: if_splits) fastforce
  have 3: "set (market_tokens n) \<subseteq> ca_all_tokens acc' \<and> distinct (market_tokens n)
      \<and> (is_active n \<longleftrightarrow> mk_terminal_at n = None)"
    if "bt_get (ca_by_market acc') i = Some n" for i n
    using that ok f(3,5) unfolding acc_ok_def f(9,10) by (auto split: if_splits)
  have 4: "t \<in> ca_active_tokens acc' \<longleftrightarrow>
      (\<exists>i n. bt_get (ca_by_market acc') i = Some n \<and> is_active n \<and> t \<in> set (market_tokens n))" for t
  proof -
    have "(\<exists>i n. bt_get (ca_by_market acc') i = Some n \<and> is_active n \<and> t \<in> set (market_tokens n)) \<longleftrightarrow>
      (is_active m \<and> t \<in> set (market_tokens m))
      \<or> (\<exists>i n. bt_get (ca_by_market acc) i = Some n \<and> is_active n \<and> t \<in> set (market_tokens n))"
      using fresh unfolding f(9) by auto (metis option.distinct(1))
    with ok show ?thesis unfolding acc_ok_def f(11) by auto
  qed
  from 1 2 3 4 show ?thesis unfolding acc_ok_def by blast
qed

lemma acc_ok_add_markets: "acc_ok acc \<Longrightarrow> add_markets acc ms = Some acc' \<Longrightarrow> acc_ok acc'"
  by (induction ms arbitrary: acc) (auto split: option.splits dest: acc_ok_add)

text \<open>A snapshot that validates contains exactly the markets it was given.\<close>

lemma add_markets_values:
  "add_markets acc ms = Some acc' \<Longrightarrow> acc_ok acc \<Longrightarrow>
    set (bt_values (ca_by_market acc')) = set (bt_values (ca_by_market acc)) \<union> set ms"
proof (induction ms arbitrary: acc)
  case (Cons m ms)
  then obtain acc1 where a: "add_market acc m = Some acc1" "add_markets acc1 ms = Some acc'"
    by (auto split: option.splits)
  note f = add_market_fields [OF a(1)] and ok1 = acc_ok_add [OF Cons.prems(2) a(1)]
  have "bt_wf (ca_by_market acc)" "bt_wf (ca_by_market acc1)"
    using Cons.prems(2) ok1 by (simp_all add: acc_ok_def market_index_iff)
  moreover have "bt_get (ca_by_market acc) (mk_market_id m) = None"
    using f(7) by (simp add: bt_contains_def)
  ultimately have "set (bt_values (ca_by_market acc1)) = insert m (set (bt_values (ca_by_market acc)))"
    unfolding f(9) set_eq_iff by (simp add: bt_values_iff) (metis option.distinct(1) option.inject)
  with Cons.IH [OF a(2) ok1] show ?case by auto
qed simp

lemma validated_catalogE:
  assumes "validated_catalog ms rs = Some (by_market, by_condition, by_group, active)"
  obtains acc where "acc_ok acc" "by_market = ca_by_market acc" "by_condition = ca_by_condition acc"
    "active = ca_active_tokens acc" "set (bt_values by_market) = set ms"
proof -
  obtain acc where acc: "add_markets catalog_acc_empty ms = Some acc"
    and eq: "by_market = ca_by_market acc" "by_condition = ca_by_condition acc" "active = ca_active_tokens acc"
    using assms by (auto simp: validated_catalog_def split: option.splits if_splits)
  from acc_ok_add_markets [OF acc_ok_empty acc] eq add_markets_values [OF acc acc_ok_empty]
  show thesis by (intro that) (auto simp: catalog_acc_empty_def bt_values_def)
qed

section \<open>Every stage keeps the invariant\<close>

lemma catalog_wf_cong:
  "pj_markets p = pj_markets q \<Longrightarrow> pj_condition_to_market p = pj_condition_to_market q
   \<Longrightarrow> pj_market_health p = pj_market_health q \<Longrightarrow> catalog_wf p = catalog_wf q"
  by (simp add: catalog_wf_def)

lemma catalog_wf_more_health:
  assumes "catalog_wf p" "pj_markets q = pj_markets p" "pj_condition_to_market q = pj_condition_to_market p"
    and "\<And>i. bt_contains (pj_market_health p) i \<Longrightarrow> bt_contains (pj_market_health q) i"
  shows "catalog_wf q"
  using assms unfolding catalog_wf_def health_covers_def by auto

lemma catalog_wf_update_health: "catalog_wf p \<Longrightarrow> catalog_wf (update_health i f p)"
  by (rule catalog_wf_more_health) auto

lemma catalog_wf_quarantine: "catalog_wf p \<Longrightarrow> catalog_wf (quarantine_market i t n r e p)"
  unfolding quarantine_market_def Let_def
  by (rule catalog_wf_update_health) (simp add: catalog_wf_def)

lemma catalog_wf_localize: "catalog_wf p \<Longrightarrow> catalog_wf (es_next (localize_fault m n e p r))"
  by (simp add: localize_fault_def catalog_wf_quarantine split: option.splits)

lemma catalog_wf_recover:
  assumes "catalog_wf (es_next s)"
  shows "catalog_wf (es_next (recover_market i pv e a s))"
proof -
  have *: "catalog_wf (release_tokens i q)" "catalog_wf (observe_recovery i t q)"
    if "catalog_wf q" for q t
    using that by (simp_all add: catalog_wf_def release_tokens_def observe_recovery_def Let_def)
  show ?thesis
    using assms
    by (simp add: recover_market_def Let_def mark_ready_def mark_recovering_def catalog_wf_update_health *)
qed

lemma catalog_wf_demote: "catalog_wf (es_next s) \<Longrightarrow> catalog_wf (es_next (demote_market i n pv e s))"
  by (simp add: demote_market_def catalog_wf_quarantine)

lemma catalog_wf_publish: "catalog_wf p \<Longrightarrow> catalog_wf (publish_readiness c r p)"
  by (simp add: catalog_wf_def)

lemma catalog_wf_record: "catalog_wf p \<Longrightarrow> catalog_wf (record_market_event i n e p)"
  by (simp add: record_market_event_def catalog_wf_update_health)

lemma catalog_wf_remember: "catalog_wf p \<Longrightarrow> catalog_wf (remember_event e p)"
  by (simp add: catalog_wf_def)

lemma catalog_wf_open: "catalog_wf p \<Longrightarrow> catalog_wf (open_event p e)"
  by (erule catalog_wf_more_health) (auto simp: open_event_def Let_def split: option.splits)

text \<open>Reconciliation rewrites price increments and revisions of instrument facts only.\<close>

definition same_market :: "market_record \<Rightarrow> market_record \<Rightarrow> bool" where
  "same_market m m' \<longleftrightarrow> m' = m\<lparr> mk_instrument_facts := mk_instrument_facts m' \<rparr>"

lemma same_marketD:
  assumes "same_market m m'"
  shows "mk_market_id m' = mk_market_id m" "mk_condition_id m' = mk_condition_id m"
    "market_tokens m' = market_tokens m" "is_active m' \<longleftrightarrow> is_active m"
    "mk_negative_risk_group m' = mk_negative_risk_group m"
  using assms unfolding same_market_def market_tokens_def outcomes_def
  by (metis market_record.select_convs market_record.surjective market_record.update_convs(10))+

lemma same_market_refl [simp]: "same_market m m"
  by (simp add: same_market_def)

lemma same_market_trans: "same_market m n \<Longrightarrow> same_market n k \<Longrightarrow> same_market m k"
  unfolding same_market_def by (metis market_record.surjective market_record.update_convs(10))

lemma apply_tick_updates_same:
  assumes "apply_tick_updates us ms = Inr ms'"
  shows "rel_option same_market (bt_get ms i) (bt_get ms' i)"
  using assms
proof (induction us ms arbitrary: ms' rule: apply_tick_updates.induct)
  case (1 markets)
  then show ?case by (cases "bt_get markets i") auto
next
  case (2 mid inc rev us markets)
  then obtain m facts where m: "bt_get markets mid = Some m" "mk_instrument_facts m = Some facts"
    by (auto split: option.splits)
  let ?m = "m\<lparr> mk_instrument_facts := Some (facts\<lparr> if_price_increment := inc, if_revision := rev \<rparr>) \<rparr>"
  from 2 m have "rel_option same_market (bt_get (bt_insert mid ?m markets) i) (bt_get ms' i)"
    by simp
  moreover have "same_market m ?m" by (simp add: same_market_def)
  ultimately show ?case
    using m by (auto simp: option_rel_Some1 split: if_splits intro: same_market_trans)
qed

lemma apply_tick_updates_wf: "apply_tick_updates us ms = Inr ms' \<Longrightarrow> bt_wf ms \<Longrightarrow> bt_wf ms'"
  by (induction us ms arbitrary: ms' rule: apply_tick_updates.induct) (auto split: option.splits)

lemma catalog_wf_same_markets:
  assumes wf: "catalog_wf p" and ms: "bt_wf (pj_markets q)"
    "\<And>i. rel_option same_market (bt_get (pj_markets p) i) (bt_get (pj_markets q) i)"
    and q: "pj_condition_to_market q = pj_condition_to_market p" "pj_market_health q = pj_market_health p"
  shows "catalog_wf q"
proof -
  have bwd: "\<exists>m. bt_get (pj_markets p) i = Some m \<and> same_market m n" if "bt_get (pj_markets q) i = Some n" for i n
    using ms(2) [of i] that by (auto simp: option_rel_Some2)
  have fwd: "\<exists>n. bt_get (pj_markets q) i = Some n \<and> same_market m n" if "bt_get (pj_markets p) i = Some m" for i m
    using ms(2) [of i] that by (auto simp: option_rel_Some1)
  have "market_index_ok (pj_markets q)"
    unfolding market_index_iff
  proof (intro conjI allI impI)
    fix i n assume n: "bt_get (pj_markets q) i = Some n"
    from bwd [OF n] wf show "mk_market_id n = i"
      by (auto simp: catalog_wf_def market_index_iff same_marketD(1))
  next
    fix i j n k t
    assume n: "bt_get (pj_markets q) i = Some n" and k: "bt_get (pj_markets q) j = Some k"
      and t: "t \<in> set (market_tokens n)" "t \<in> set (market_tokens k)"
    from bwd [OF n] bwd [OF k] t obtain m l where
      "bt_get (pj_markets p) i = Some m" "bt_get (pj_markets p) j = Some l"
      "t \<in> set (market_tokens m)" "t \<in> set (market_tokens l)"
      by (auto simp: same_marketD(3))
    with wf show "i = j" unfolding catalog_wf_def market_index_iff by blast
  qed (rule ms(1))
  moreover have "condition_index_ok (pj_markets q) (pj_condition_to_market q)"
    using wf unfolding catalog_wf_def condition_index_iff q by (fastforce dest: fwd simp: same_marketD(2))
  moreover have "health_covers (pj_markets q) (pj_market_health q)"
    using wf ms(1) unfolding catalog_wf_def market_index_iff q
    by (auto simp: health_covers_iff same_marketD(4) dest!: bwd)
  ultimately show ?thesis by (simp add: catalog_wf_def)
qed

lemma catalog_wf_reconcile:
  assumes "catalog_wf p" "reconcile_active_market_instrument_ticks x p = Inr (c, q)"
  shows "catalog_wf q"
proof (cases "pj_markets q = pj_markets p")
  case True
  with assms show ?thesis by (simp add: catalog_wf_def reconcile_frame [OF assms(2)])
next
  case False
  with assms(2) obtain us where "apply_tick_updates us (pj_markets p) = Inr (pj_markets q)"
    by (auto simp: reconcile_active_market_instrument_ticks_def split: if_splits option.splits sum.splits)
  then show ?thesis
    using assms(1) apply_tick_updates_wf apply_tick_updates_same
    by (intro catalog_wf_same_markets [OF assms(1)]) (auto simp: reconcile_frame [OF assms(2)] catalog_wf_def market_index_iff)
qed

text \<open>The kinds that rewrite the catalogue.\<close>

lemma catalog_wf_resolved:
  assumes wf: "catalog_wf p" and step: "apply_resolved x e c tok out p = Inr v"
  shows "catalog_wf (fst v)"
proof (cases "pj_markets (fst v) = pj_markets p")
  case True
  with wf step show ?thesis
    by (auto simp: apply_resolved_def resolve_market_def catalog_wf_def add_gap_def accept_def reject_def Let_def
        split: option.splits if_splits)
next
  case False
  then obtain i m where i: "bt_get (pj_markets p) i = Some m"
    and v: "pj_markets (fst v) = bt_insert i (resolved_record x e tok out m) (pj_markets p)"
    and rest: "pj_condition_to_market (fst v) = pj_condition_to_market p"
      "pj_market_health (fst v) = pj_market_health p"
    using step by (auto simp: apply_resolved_def resolve_market_def add_gap_def accept_def reject_def Let_def
        split: option.splits if_splits)
  have r: "mk_market_id (resolved_record x e tok out m) = mk_market_id m"
    "mk_condition_id (resolved_record x e tok out m) = mk_condition_id m"
    "market_tokens (resolved_record x e tok out m) = market_tokens m"
    "\<not> is_active (resolved_record x e tok out m)"
    by (simp_all add: resolved_record_def market_tokens_def outcomes_def)
  have "market_index_ok (pj_markets (fst v))"
    using wf i unfolding catalog_wf_def market_index_iff v by (auto simp: r split: if_splits)
  moreover have "condition_index_ok (pj_markets (fst v)) (pj_condition_to_market (fst v))"
    using wf i unfolding catalog_wf_def condition_index_iff v rest by (auto simp: r) fastforce
  moreover have "health_covers (pj_markets (fst v)) (pj_market_health (fst v))"
    using wf unfolding catalog_wf_def market_index_iff v rest
    by (auto simp: r health_covers_iff split: if_splits)
  ultimately show ?thesis by (simp add: catalog_wf_def)
qed

lemma ensure_healths:
  "bt_contains (pj_market_health (fold ensure_health ms p)) i
     \<longleftrightarrow> bt_contains (pj_market_health p) i \<or> i \<in> mk_market_id ` set ms"
  by (induction ms arbitrary: p) (auto simp: ensure_health_def)

lemma replace_catalog_catalog:
  assumes "cs = (catalog, conditions, relations, active)"
  shows "pj_markets (replace_catalog c cs p) = catalog"
    "pj_condition_to_market (replace_catalog c cs p) = conditions"
    "m \<in> set (bt_values catalog) \<Longrightarrow> is_active m
       \<Longrightarrow> bt_contains (pj_market_health (replace_catalog c cs p)) (mk_market_id m)"
  using assms
  by (auto simp: replace_catalog_def install_catalog_def Let_def fold_frame ensure_healths active_markets_def)

lemma catalog_wf_catalog:
  assumes wf: "catalog_wf p"
  shows "catalog_wf (fst (apply_catalog revision ms rs p))"
proof (cases "revision = [] \<or> validated_catalog (combined_markets ms p) rs = None")
  case True
  with wf show ?thesis by (auto simp: apply_catalog_def reject_def catalog_wf_def)
next
  case False
  then obtain by_market by_condition by_group active where
    val: "validated_catalog (combined_markets ms p) rs = Some (by_market, by_condition, by_group, active)"
    and acc: "fst (apply_catalog revision ms rs p)
      = replace_catalog revision (by_market, by_condition, by_group, active) p"
    by (auto simp: apply_catalog_def)
  from val have ix: "market_index_ok by_market" "condition_index_ok by_market by_condition"
    by (auto elim!: validated_catalogE simp: acc_ok_def)
  have "bt_contains (pj_market_health (replace_catalog revision (by_market, by_condition, by_group, active) p)) i"
    if "bt_get by_market i = Some m" "is_active m" for i m
    using replace_catalog_catalog(3) [OF refl bt_get_in_values [OF that(1)] that(2)] that(1) ix(1)
    by (simp add: market_index_iff)
  then have "health_covers by_market
      (pj_market_health (replace_catalog revision (by_market, by_condition, by_group, active) p))"
    using ix(1) by (simp add: health_covers_iff market_index_iff)
  with ix show ?thesis
    unfolding acc by (simp add: catalog_wf_def replace_catalog_catalog [OF refl])
qed

lemma local_verdict_catalog:
  assumes "local_verdict t full p v"
  shows "pj_markets (fst v) = pj_markets p" "pj_condition_to_market (fst v) = pj_condition_to_market p"
    "pj_market_health (fst v) = pj_market_health p" "pj_catalog_revision (fst v) = pj_catalog_revision p"
  using assms by (auto simp: local_verdict_def put_book_def)

lemma catalog_wf_kind:
  assumes wf: "catalog_wf p" and step: "apply_kind x e k p = Inr v"
  shows "catalog_wf (fst v)"
proof (cases "market_event_is_locally_recoverable k")
  case True
  from local_verdict_catalog [OF apply_kind_local [OF step True]] wf show ?thesis
    by (simp add: catalog_wf_def)
next
  case False
  show ?thesis
  proof (cases k)
    case (CatalogSnapshot c ms rs)
    with step catalog_wf_catalog [OF wf, of c ms rs] show ?thesis by auto
  next
    case (NewMarket c)
    with step wf show ?thesis by (auto simp: apply_new_market_def add_gap_def catalog_wf_def)
  next
    case (MarketResolved c t out)
    with step show ?thesis by (auto intro: catalog_wf_resolved [OF wf])
  next
    case (TickSizeChange t old new version)
    with step have "apply_tick_size x e t old new version p = Inr v" by simp
    then have "pj_markets (fst v) = pj_markets p \<and> pj_condition_to_market (fst v) = pj_condition_to_market p
      \<and> pj_market_health (fst v) = pj_market_health p"
      by (auto simp: apply_tick_size_def put_book_def split: sum.splits option.splits if_splits)
    with wf show ?thesis by (simp add: catalog_wf_def)
  qed (use False in simp_all)
qed

lemma catalog_wf_decide:
  assumes wf: "catalog_wf p" and "decide_event x en p e = Inr (e', q, a, r)"
  shows "catalog_wf q"
proof (rule decide_eventE [OF assms(2)])
  fix why assume "(q, a, r) = reject (kind_token_id (ev_kind e)) why p"
  with wf show ?thesis by (simp add: reject_def catalog_wf_def)
next
  assume "(q, a, r) = accept p"
  with wf show ?thesis by (simp add: accept_def)
next
  assume "apply_kind x e' (ev_kind e') p = Inr (q, a, r)"
  from catalog_wf_kind [OF wf this] show ?thesis by simp
qed

lemma catalog_wf_finish:
  assumes wf: "catalog_wf p0" and "finish_event x market n prev e (p0, a, rj) = Inr (q, r)"
  shows "catalog_wf q"
proof (rule finish_eventE [OF assms(2)])
  fix c p1 s1 s2
  assume rec: "reconcile_active_market_instrument_ticks x (es_next (localize_fault market n e p0 rj)) = Inr (c, p1)"
    and s1: "s1 = (localize_fault market n e p0 rj)\<lparr> es_next := p1 \<rparr>"
    and s2: "s2 = (case market of None \<Rightarrow> s1
       | Some i \<Rightarrow> demote_market i n prev e (recover_market i prev e a s1))"
    and q: "q = remember_event e (case market of None \<Rightarrow> publish_readiness c (es_rejected s2) (es_next s2)
       | Some i \<Rightarrow> record_market_event i n e (publish_readiness c (es_rejected s2) (es_next s2)))"
  have "catalog_wf (es_next s1)"
    using catalog_wf_reconcile [OF catalog_wf_localize [OF wf] rec] s1 by simp
  then have "catalog_wf (es_next s2)"
    unfolding s2 by (cases market) (auto intro: catalog_wf_recover catalog_wf_demote)
  then show ?thesis
    unfolding q by (cases market) (auto intro: catalog_wf_remember catalog_wf_publish catalog_wf_record)
qed

lemma catalog_wf_step:
  assumes "catalog_wf p" and "evaluate_event x vr vd en p e = Inr (q, r)"
  shows "catalog_wf q"
  by (rule evaluate_eventE [OF assms(2)])
    (metis assms(1) catalog_wf_decide catalog_wf_finish catalog_wf_open)

lemma catalog_wf_bootstrap: "catalog_wf (bootstrap s)"
  by (simp add: catalog_wf_def bootstrap_def market_index_ok_def condition_index_ok_def health_covers_def)

end
