(* ===== verification/Core_Total.thy ===== *)
theory Core_Total
  imports Core_Catalog
begin

text \<open>
  The step is total up to its guards. Under the catalogue invariant and non-zero stored ticks
  none of the three unwinding branches (the condition index, the validated instrument facts, the
  decimal remainder) can be reached, and non-zero ticks are kept unless a tick-size event
  carries a zero tick, which the normalizer rejects but the step itself does not.
\<close>

definition ticks_nonzero :: "projection \<Rightarrow> bool" where
  "ticks_nonzero p = (\<forall>(t, b) \<in> set (pj_books p). bk_tick_size b \<noteq> Some 0)"

fun announces_zero_tick :: "event_kind \<Rightarrow> bool" where
  "announces_zero_tick (TickSizeChange _ _ new_tick_size _) = (new_tick_size = 0)"
| "announces_zero_tick _ = False"

lemma ticks_nonzero_get: "ticks_nonzero p \<Longrightarrow> bt_get (pj_books p) t = Some b \<Longrightarrow> bk_tick_size b \<noteq> Some 0"
  by (auto simp: ticks_nonzero_def dest!: bt_get_in_set)

lemma ticks_nonzero_cong: "pj_books p = pj_books q \<Longrightarrow> ticks_nonzero p = ticks_nonzero q"
  by (simp add: ticks_nonzero_def)

lemma set_bt_insert: "set (bt_insert k v m) \<subseteq> insert (k, v) (set m)"
proof (induction m)
  case (Cons kv m)
  then show ?case by (cases kv) (auto split: if_splits)
qed simp

lemma ticks_nonzero_put: "ticks_nonzero p \<Longrightarrow> bk_tick_size b \<noteq> Some 0 \<Longrightarrow> ticks_nonzero (put_book t b p)"
  using set_bt_insert [of t b "pj_books p"] by (auto simp: ticks_nonzero_def put_book_def)

lemma ticks_nonzero_subset: "ticks_nonzero p \<Longrightarrow> set (pj_books q) \<subseteq> set (pj_books p) \<Longrightarrow> ticks_nonzero q"
  by (auto simp: ticks_nonzero_def)

lemma set_fold_remove: "set (fold bt_remove ts m) \<subseteq> set m"
proof (induction ts arbitrary: m)
  case (Cons t ts)
  have "set (fold bt_remove ts (bt_remove t m)) \<subseteq> set (bt_remove t m)" by (rule Cons.IH)
  moreover have "set (bt_remove t m) \<subseteq> set m" by (auto simp: bt_remove_def)
  ultimately show ?case by simp
qed simp

section \<open>Books keep a non-zero tick\<close>

text \<open>The book an accepted event stores, with the tick it carries.\<close>

definition stores_tick :: "projection \<Rightarrow> verdict \<Rightarrow> bool" where
  "stores_tick p v \<longleftrightarrow> pj_books (fst v) = pj_books p
     \<or> (\<exists>t b. pj_books (fst v) = bt_insert t b (pj_books p) \<and> bk_tick_size b \<noteq> Some 0)"

lemma stores_reject [simp]: "stores_tick p (reject g why p)"
  by (simp add: stores_tick_def)

lemma stores_accept [intro]: "bk_tick_size b \<noteq> Some 0 \<Longrightarrow> stores_tick p (accept (put_book t b p))"
  by (auto simp: stores_tick_def put_book_def)

lemma live_book_tick: "ticks_nonzero p \<Longrightarrow> live_book p t = Some b \<Longrightarrow> bk_tick_size b \<noteq> Some 0"
  by (auto simp: live_book_def ticks_nonzero_get split: if_splits)

lemma stores_full_book: "stores_tick p (apply_full_book x e t bids asks tick version p)"
proof -
  have "stores_tick p (accept ((put_book t b p)\<lparr> pj_unresolved_gaps := g \<rparr>))" if "bk_tick_size b \<noteq> Some 0" for b g
    using that by (auto simp: stores_tick_def put_book_def)
  moreover have "tick \<noteq> 0" if "levels_tick_aligned x tick bids" using that by (simp add: levels_tick_aligned_def)
  ultimately show ?thesis
    by (simp add: apply_full_book_def Let_def book_replace_def)
qed

lemma stores_incremental:
  assumes nz: "ticks_nonzero p"
  shows "stores_tick p (apply_delta x e t s levels p)"
    "stores_tick p (apply_atomic_delta x e t cs bb ba p)"
    "stores_tick p (apply_best_bid_ask e t bb ba p)"
    "apply_last_trade x e t price p = Inr v \<Longrightarrow> stores_tick p v"
proof -
  note live = live_book_tick [OF nz]
  show "stores_tick p (apply_delta x e t s levels p)"
    unfolding apply_delta_def Let_def by (auto split: option.splits dest!: live intro!: stores_accept)
  show "stores_tick p (apply_best_bid_ask e t bb ba p)"
    unfolding apply_best_bid_ask_def by (auto split: option.splits dest!: live intro!: stores_accept)
  show "apply_last_trade x e t price p = Inr v \<Longrightarrow> stores_tick p v"
    unfolding apply_last_trade_def
    by (auto split: option.splits sum.splits if_splits dest!: live intro!: stores_accept)
  have prune: "bk_tick_size (prune_to_bbo eb ea b) = bk_tick_size b" for eb ea b
    by (simp add: prune_to_bbo_def)
  have acc: "stores_tick p (accept (put_book t (if c then prune_to_bbo eb ea b else b) p))"
    if "bk_tick_size b \<noteq> Some 0" for c eb ea b
    using that by (intro stores_accept) (simp add: prune)
  show "stores_tick p (apply_atomic_delta x e t cs bb ba p)"
  proof (cases "if cs = [] then None else live_book p t")
    case None
    then show ?thesis by (simp add: apply_atomic_delta_def)
  next
    case (Some b0)
    then have "bk_tick_size (book_apply_batch cs (ev_source_observed_at e) b0) \<noteq> Some 0"
      by (auto dest: live split: if_splits)
    with Some acc show ?thesis
      unfolding apply_atomic_delta_def Let_def by (simp only: option.case) simp
  qed
qed

lemma stores_tick_size:
  assumes "new \<noteq> 0" "apply_tick_size x e t old new version p = Inr v"
  shows "stores_tick p v"
  using assms unfolding apply_tick_size_def
  by (auto split: option.splits sum.splits if_splits intro!: stores_accept)

lemma ticks_nonzero_kind:
  assumes nz: "ticks_nonzero p" and k: "\<not> announces_zero_tick k" and step: "apply_kind x e k p = Inr v"
  shows "ticks_nonzero (fst v)"
proof -
  have store: ?thesis if "stores_tick p v"
    using that nz set_bt_insert by (fastforce simp: stores_tick_def ticks_nonzero_def)
  show ?thesis
  proof (cases k)
    case (CatalogSnapshot c ms rs)
    with step have "set (pj_books (fst v)) \<subseteq> set (pj_books p)"
      by (auto simp: apply_catalog_def bt_retain_def split: option.splits if_splits)
    with nz show ?thesis by (rule ticks_nonzero_subset)
  next
    case (NewMarket c)
    with step nz show ?thesis by (auto simp: apply_new_market_def add_gap_def ticks_nonzero_def)
  next
    case (MarketResolved c t out)
    with step have "set (pj_books (fst v)) \<subseteq> set (pj_books p)"
      using set_fold_remove by (fastforce simp: apply_resolved_def resolve_market_def add_gap_def Let_def
          split: option.splits if_splits)
    with nz show ?thesis by (rule ticks_nonzero_subset)
  next
    case (FullBook t bids asks tick version)
    with step have "stores_tick p v" by (auto intro: stores_full_book)
    then show ?thesis by (rule store)
  next
    case (Delta t s levels)
    with step have "stores_tick p v" by (auto intro: stores_incremental [OF nz])
    then show ?thesis by (rule store)
  next
    case (AtomicDelta t cs bb ba)
    with step have "stores_tick p v" by (auto intro: stores_incremental [OF nz])
    then show ?thesis by (rule store)
  next
    case (BestBidAsk t bb ba)
    with step have "stores_tick p v" by (auto intro: stores_incremental [OF nz])
    then show ?thesis by (rule store)
  next
    case (LastTradePrice t price)
    with step have "stores_tick p v" by (auto intro: stores_incremental(4) [OF nz])
    then show ?thesis by (rule store)
  next
    case (TickSizeChange t old new version)
    with step k have "stores_tick p v" by (auto intro: stores_tick_size)
    then show ?thesis by (rule store)
  next
    case (SourceGap t why)
    with step have "stores_tick p v" by (auto simp: apply_source_gap_def)
    then show ?thesis by (rule store)
  qed
qed

lemma ticks_nonzero_step:
  assumes nz: "ticks_nonzero p" and k: "\<not> announces_zero_tick (ev_kind e)"
    and step: "evaluate_event x vr vd en p e = Inr (q, r)"
  shows "ticks_nonzero q"
proof (rule evaluate_eventE [OF step])
  fix e' p0 a rj m n pv
  assume d: "decide_event x en (open_event p e) e = Inr (e', p0, a, rj)"
    and f: "finish_event x m n pv e' (p0, a, rj) = Inr (q, r)"
  have nz1: "ticks_nonzero (open_event p e)" using nz by (simp add: ticks_nonzero_def)
  have "\<not> announces_zero_tick (ev_kind (expand_event en (open_event p e) e))"
    using k by (auto simp: expand_event_def split: event_kind.splits option.splits)
  note kind = ticks_nonzero_kind [OF nz1 this]
  have "ticks_nonzero p0"
    by (rule decide_eventE [OF d]) (use nz1 kind in \<open>auto simp: reject_def accept_def ticks_nonzero_def\<close>)
  then show ?thesis by (simp add: ticks_nonzero_cong [OF finish_event_frame(5) [OF f]])
qed

section \<open>No unwinding\<close>

lemma all_aligned_total: "t \<noteq> 0 \<Longrightarrow> \<exists>ok. all_aligned x ps t = Inr ok"
  by (induction ps) (auto simp: rem_is_zero_def)

lemma apply_kind_total:
  assumes wf: "catalog_wf p" and nz: "ticks_nonzero p" and k: "\<not> announces_zero_tick k"
  shows "apply_kind x e k p \<noteq> Inl err"
proof (cases k)
  case (MarketResolved c t out)
  have "bt_get (pj_markets p) i \<noteq> None" if "bt_get (pj_condition_to_market p) c = Some i" for i
    using wf that by (auto simp: catalog_wf_def condition_index_iff)
  with MarketResolved show ?thesis
    by (auto simp: apply_resolved_def split: option.splits)
next
  case (LastTradePrice t price)
  with live_book_tick [OF nz] show ?thesis
    by (auto simp: apply_last_trade_def rem_is_zero_def split: option.splits sum.splits)
next
  case (TickSizeChange t old new version)
  then have "\<exists>ok. all_aligned x ps new = Inr ok" for ps using k all_aligned_total by simp
  then have "all_aligned x ps new \<noteq> Inl err" for ps err by (metis Inl_Inr_False)
  with TickSizeChange show ?thesis
    by (auto simp: apply_tick_size_def split: option.splits sum.splits)
qed simp_all

lemma collect_tick_updates_ids:
  "collect_tick_updates x p ms = Some us \<Longrightarrow>
     \<forall>u \<in> set us. \<exists>m \<in> set ms. fst u = mk_market_id m \<and> mk_instrument_facts m \<noteq> None"
proof (induction ms arbitrary: us)
  case (Cons m ms)
  from Cons.prems obtain vs where "collect_tick_updates x p ms = Some vs"
    "us = vs \<or> (\<exists>a b. us = (mk_market_id m, a, b) # vs) \<and> mk_instrument_facts m \<noteq> None"
    by (auto split: option.splits if_splits prod.splits)
  with Cons.IH [OF this(1)] show ?case by (elim disjE) fastforce+
qed simp

lemma apply_tick_updates_total:
  assumes "\<forall>u \<in> set us. \<exists>m. bt_get ms (fst u) = Some m \<and> mk_instrument_facts m \<noteq> None"
  shows "\<exists>ms'. apply_tick_updates us ms = Inr ms'"
  using assms
proof (induction us ms rule: apply_tick_updates.induct)
  case (2 i inc rev us ms)
  then obtain m facts where m: "bt_get ms i = Some m" "mk_instrument_facts m = Some facts" by auto
  show ?case
    using m 2 by auto
qed simp

lemma reconcile_total:
  assumes wf: "catalog_wf p"
  shows "\<exists>v. reconcile_active_market_instrument_ticks x p = Inr v"
proof (cases "collect_tick_updates x p (active_markets p)")
  case None
  then have "reconcile_active_market_instrument_ticks x p = Inr (pj_catalog_revision p = None, p)"
    by (auto simp: reconcile_active_market_instrument_ticks_def)
  then show ?thesis by blast
next
  case (Some us)
  have "\<exists>m. bt_get (pj_markets p) (fst u) = Some m \<and> mk_instrument_facts m \<noteq> None" if u: "u \<in> set us" for u
  proof -
    obtain m where m: "m \<in> set (active_markets p)" "fst u = mk_market_id m" "mk_instrument_facts m \<noteq> None"
      using collect_tick_updates_ids [OF Some] u by blast
    from m(1) wf have "bt_get (pj_markets p) (mk_market_id m) = Some m"
      by (auto simp: active_markets_def bt_values_iff catalog_wf_def market_index_iff)
    with m show ?thesis by auto
  qed
  then obtain ms' where "apply_tick_updates us (pj_markets p) = Inr ms'"
    using apply_tick_updates_total by blast
  with Some have "reconcile_active_market_instrument_ticks x p
      = Inr (True, if pj_catalog_revision p = None then p else p\<lparr> pj_markets := ms' \<rparr>)"
    by (simp add: reconcile_active_market_instrument_ticks_def)
  then show ?thesis by blast
qed

lemma decide_event_total:
  assumes "catalog_wf p" "ticks_nonzero p" "\<not> announces_zero_tick (ev_kind e)"
  shows "decide_event x en p e \<noteq> Inl err"
proof -
  have "\<not> announces_zero_tick (ev_kind (expand_event en p e))"
    using assms(3) by (auto simp: expand_event_def split: event_kind.splits option.splits)
  with apply_kind_total [OF assms(1,2)]
  have "apply_kind x (expand_event en p e) (ev_kind (expand_event en p e)) p \<noteq> Inl err" by blast
  then show ?thesis by (auto simp: decide_event_def Let_def split: sum.splits)
qed

lemma evaluate_event_total:
  assumes wf: "catalog_wf p" and nz: "ticks_nonzero p" and k: "\<not> announces_zero_tick (ev_kind e)"
  shows "evaluate_event x vr vd en p e = Inl err \<longleftrightarrow> event_guard x vr vd p e = Some err"
proof (cases "event_guard x vr vd p e")
  case None
  have wf1: "catalog_wf (open_event p e)" by (rule catalog_wf_open [OF wf])
  have nz1: "ticks_nonzero (open_event p e)" using nz by (simp add: ticks_nonzero_def)
  obtain e' p0 a rj where d: "decide_event x en (open_event p e) e = Inr (e', p0, a, rj)"
    using decide_event_total [OF wf1 nz1 k, of x en] by (cases "decide_event x en (open_event p e) e") auto
  have "reconcile_active_market_instrument_ticks x (es_next (localize_fault m n e' p0 rj)) \<noteq> Inl err" for m n err
    using reconcile_total [OF catalog_wf_localize [OF catalog_wf_decide [OF wf1 d]]] by (metis Inl_Inr_False)
  then have "finish_event x m n pv e' (p0, a, rj) \<noteq> Inl err" for m n pv err
    by (auto simp: finish_event_def Let_def split: prod.splits sum.splits)
  with None d show ?thesis by (simp add: evaluate_event_def Let_def)
qed (simp add: evaluate_event_def)

end
