(* ===== verification/Core_Local.thy ===== *)
theory Core_Local
  imports Core_Total
begin

text \<open>
  Market-local consequences of a step: a fault attributed to one market leaves every other
  market alone, a rejection quarantines its market, a market is published as ready only while
  its books are executable, sequences advance by one, and the projection is published as ready
  exactly when it has no reason to fail closed.
\<close>

section \<open>Attribution\<close>

lemma market_id_for_token_cong: "pj_markets p = pj_markets q \<Longrightarrow> market_id_for_token p = market_id_for_token q"
  by (simp add: market_id_for_token_def fun_eq_iff)

lemma event_market_id_cong:
  "pj_markets p = pj_markets q \<Longrightarrow> pj_condition_to_market p = pj_condition_to_market q
   \<Longrightarrow> event_market_id p k = event_market_id q k"
  by (cases k) (simp_all add: market_id_for_token_cong [of p q])

lemma event_market_id_open [simp]: "event_market_id (open_event p e) k = event_market_id p k"
  by (rule event_market_id_cong) simp_all

text \<open>Executability reads the catalogue, the books and the quarantined tokens.\<close>

lemma executable_cong:
  assumes "pj_markets p = pj_markets q" "pj_books p = pj_books q"
    "pj_negative_risk_relations p = pj_negative_risk_relations q"
    "pj_quarantined_token_ids p = pj_quarantined_token_ids q"
  shows "market_books_are_executable p i = market_books_are_executable q i"
proof -
  have "facts_executable p = facts_executable q" "group_executable p = group_executable q"
    "token_executable p = token_executable q"
    using assms by (simp_all add: fun_eq_iff facts_executable_def group_executable_def token_executable_def)
  then show ?thesis using assms by (simp add: market_books_are_executable_def split: option.split)
qed

lemma update_health_executable [simp]:
  "market_books_are_executable (update_health j f p) i = market_books_are_executable p i"
  by (rule executable_cong) simp_all

section \<open>Health of the other markets\<close>

lemma update_health_other: "j \<noteq> i \<Longrightarrow> bt_get (pj_market_health (update_health i f p)) j = bt_get (pj_market_health p) j"
  by simp

lemma open_event_other:
  "event_market_id p (ev_kind e) \<noteq> Some j
   \<Longrightarrow> bt_get (pj_market_health (open_event p e)) j = bt_get (pj_market_health p) j"
proof -
  have "event_market_id (p\<lparr> pj_generation := g, pj_cursor := c \<rparr>) (ev_kind e) = event_market_id p (ev_kind e)" for g c
    by (rule event_market_id_cong) simp_all
  then show "event_market_id p (ev_kind e) \<noteq> Some j \<Longrightarrow> ?thesis"
    by (simp add: open_event_def Let_def split: option.splits)
qed

lemma recover_market_other:
  "j \<noteq> i \<Longrightarrow> bt_get (pj_market_health (es_next (recover_market i pv e a s))) j
     = bt_get (pj_market_health (es_next s)) j"
  by (simp add: recover_market_def Let_def mark_ready_def mark_recovering_def)

lemma demote_market_other:
  "j \<noteq> i \<Longrightarrow> bt_get (pj_market_health (es_next (demote_market i n pv e s))) j
     = bt_get (pj_market_health (es_next s)) j"
  by (simp add: demote_market_def)

section \<open>The stages of an attributed local event\<close>

text \<open>
  The step of a locally recoverable event of market \<open>i\<close>, with its intermediate states named:
  \<open>p0\<close> after the decision, \<open>p1\<close> after quarantine and reconciliation, \<open>s2\<close> at publication.
\<close>

definition local_step ::
  "ext \<Rightarrow> bool \<Rightarrow> projection \<Rightarrow> canonical_event \<Rightarrow> string \<Rightarrow> projection \<Rightarrow> persisted_event
     \<Rightarrow> canonical_event \<Rightarrow> verdict \<Rightarrow> bool \<Rightarrow> projection \<Rightarrow> eval_state \<Rightarrow> bool" where
  "local_step x en p e i q r e' v c p1 s2 \<longleftrightarrow>
     decide_event x en (open_event p e) e = Inr (e', v)
     \<and> (let n = next_market_sequence (open_event p e) i;
            pv = map_option mh_projection_status (bt_get (pj_market_health (open_event p e)) i);
            s0 = localize_fault (Some i) n e' (fst v) (snd (snd v))
        in reconcile_active_market_instrument_ticks x (es_next s0) = Inr (c, p1)
           \<and> s2 = demote_market i n pv e' (recover_market i pv e' (fst (snd v)) (s0\<lparr> es_next := p1 \<rparr>))
           \<and> q = remember_event e' (record_market_event i n e' (publish_readiness c (es_rejected s2) (es_next s2)))
           \<and> pe_event r = e' \<and> pe_applied r = fst (snd v) \<and> pe_fail_closed_reason r = es_rejected s2
           \<and> pe_market r = Some (market_event_metadata i n e' s2 (publish_readiness c (es_rejected s2) (es_next s2))))"

lemma attributed_stepE:
  assumes "evaluate_event x vr vd en p e = Inr (q, r)" and "event_market_id p (ev_kind e) = Some i"
  obtains e' v c p1 s2 where "local_step x en p e i q r e' v c p1 s2"
proof (rule evaluate_eventE [OF assms(1)])
  fix e' p0 a rj m n pv
  assume m: "m = event_market_id (open_event p e) (ev_kind e)"
    and n: "n = (case m of None \<Rightarrow> 0 | Some i \<Rightarrow> next_market_sequence (open_event p e) i)"
    and pv: "pv = (case m of None \<Rightarrow> None
       | Some i \<Rightarrow> map_option mh_projection_status (bt_get (pj_market_health (open_event p e)) i))"
    and d: "decide_event x en (open_event p e) e = Inr (e', p0, a, rj)"
    and f: "finish_event x m n pv e' (p0, a, rj) = Inr (q, r)"
  have m: "m = Some i" using m assms(2) by simp
  note n = n [unfolded m option.case] and pv = pv [unfolded m option.case]
  show thesis
  proof (rule finish_eventE [OF f [unfolded m]])
    fix c p1 s1 s2
    assume "reconcile_active_market_instrument_ticks x (es_next (localize_fault (Some i) n e' p0 rj)) = Inr (c, p1)"
      and "s1 = (localize_fault (Some i) n e' p0 rj)\<lparr> es_next := p1 \<rparr>"
      and "s2 = (case Some i of None \<Rightarrow> s1 | Some i \<Rightarrow> demote_market i n pv e' (recover_market i pv e' a s1))"
      and "q = remember_event e' (case Some i of None \<Rightarrow> publish_readiness c (es_rejected s2) (es_next s2)
       | Some i \<Rightarrow> record_market_event i n e' (publish_readiness c (es_rejected s2) (es_next s2)))"
      and "pe_event r = e'" "pe_applied r = a" "pe_fail_closed_reason r = es_rejected s2"
      and "pe_market r = (case Some i of None \<Rightarrow> None
       | Some i \<Rightarrow> Some (market_event_metadata i n e' s2 (publish_readiness c (es_rejected s2) (es_next s2))))"
    then have "local_step x en p e i q r e' (p0, a, rj) c p1 s2"
      unfolding local_step_def Let_def n pv using d by simp
    then show thesis by (rule that)
  qed
qed

lemma local_stepD:
  assumes "local_step x en p e i q r e' v c p1 s2" and "market_event_is_locally_recoverable (ev_kind e)"
  shows "v = accept (open_event p e)
      \<or> local_verdict (kind_token_id (ev_kind e)) (is_full_book (ev_kind e)) (open_event p e) v"
    and "kind_token_id (ev_kind e') = kind_token_id (ev_kind e)"
    and "is_full_book (ev_kind e') = is_full_book (ev_kind e)"
    and "market_event_is_locally_recoverable (ev_kind e')"
    and "ev_event_id e' = ev_event_id e" "ev_received_at e' = ev_received_at e"
proof -
  have d: "decide_event x en (open_event p e) e = Inr (e', v)"
    using assms(1) by (simp add: local_step_def)
  from decide_event_local [OF d assms(2)]
  show "v = accept (open_event p e)
      \<or> local_verdict (kind_token_id (ev_kind e)) (is_full_book (ev_kind e)) (open_event p e) v" .
  obtain k where "e' = e\<lparr> ev_kind := k \<rparr>" "kind_token_id k = kind_token_id (ev_kind e)"
    "is_full_book k = is_full_book (ev_kind e)"
    "market_event_is_locally_recoverable k = market_event_is_locally_recoverable (ev_kind e)"
    using decide_event_persisted [OF d] by blast
  then show "kind_token_id (ev_kind e') = kind_token_id (ev_kind e)"
    "is_full_book (ev_kind e') = is_full_book (ev_kind e)"
    "market_event_is_locally_recoverable (ev_kind e')"
    "ev_event_id e' = ev_event_id e" "ev_received_at e' = ev_received_at e"
    using assms(2) by simp_all
qed

text \<open>A verdict of a local event, as a case distinction on the rejection.\<close>

lemma local_cases:
  assumes "v = accept p \<or> local_verdict t full p v"
  obtains (rejected) why where "v = reject t why p"
  | (accepted) p0 where "v = accept p0" "pj_market_health p0 = pj_market_health p"
      "pj_unresolved_gaps p0 \<subseteq> pj_unresolved_gaps p"
      "\<And>u. u \<noteq> t \<Longrightarrow> u \<in> pj_unresolved_gaps p0 \<longleftrightarrow> u \<in> pj_unresolved_gaps p"
      "pj_quarantined_token_ids p0 = pj_quarantined_token_ids p"
      "pj_market_recovery_token_ids p0 = pj_market_recovery_token_ids p" "pj_markets p0 = pj_markets p"
      "\<And>u. u \<noteq> t \<Longrightarrow> bt_get (pj_books p0) u = bt_get (pj_books p) u"
proof -
  consider (a) "v = accept p" | (r) why where "v = reject t why p"
    | (b) b g where "v = accept ((put_book t b p)\<lparr> pj_unresolved_gaps := g \<rparr>)"
        "g = (if full then pj_unresolved_gaps p - {t} else pj_unresolved_gaps p)"
    using assms unfolding local_verdict_def by blast
  then show thesis
  proof cases
    case a
    then show ?thesis by (intro accepted) auto
  next
    case r
    then show ?thesis by (rule rejected)
  next
    case (b bk g)
    then show ?thesis by (intro accepted [OF b(1)]) (auto simp: put_book_def split: if_splits)
  qed
qed

lemma localize_none: "localize_fault (Some i) n e p None = \<lparr> es_next = p, es_rejected = None, es_transition = None, es_reason = None \<rparr>"
  by (simp add: localize_fault_def)

lemma localize_some:
  "market_event_is_locally_recoverable (ev_kind e) \<Longrightarrow> localize_fault (Some i) n e p (Some why) =
     \<lparr> es_next = quarantine_market i (kind_token_id (ev_kind e)) n why e p, es_rejected = None,
       es_transition = Some TransitionQuarantined, es_reason = Some why \<rparr>"
  by (simp add: localize_fault_def)

section \<open>Isolation\<close>

lemma recover_quarantined: "pj_quarantined_token_ids (es_next (recover_market i pv e a s)) \<subseteq> pj_quarantined_token_ids (es_next s)"
  by (auto simp: recover_market_def Let_def mark_ready_def mark_recovering_def observe_recovery_def release_tokens_def)

lemma recover_quarantined_other:
  "t \<notin> expected_recovery_tokens (es_next s) i \<Longrightarrow>
   t \<in> pj_quarantined_token_ids (es_next (recover_market i pv e a s)) \<longleftrightarrow> t \<in> pj_quarantined_token_ids (es_next s)"
  by (auto simp: recover_market_def Let_def mark_ready_def mark_recovering_def observe_recovery_def release_tokens_def
      expected_recovery_tokens_def split: option.splits)

lemma local_step_isolation:
  assumes step: "local_step x en p e i q r e' v c p1 s2" and k: "market_event_is_locally_recoverable (ev_kind e)"
    and i: "event_market_id p (ev_kind e) = Some i"
  shows "j \<noteq> i \<Longrightarrow> bt_get (pj_market_health q) j = bt_get (pj_market_health p) j"
    and "t \<noteq> kind_token_id (ev_kind e) \<Longrightarrow> bt_get (pj_books q) t = bt_get (pj_books p) t"
    and "pj_unresolved_gaps q \<subseteq> pj_unresolved_gaps p"
    and "pj_quarantined_token_ids q \<subseteq> insert (kind_token_id (ev_kind e)) (pj_quarantined_token_ids p)"
    and "pe_fail_closed_reason r = None"
    and "t \<noteq> kind_token_id (ev_kind e) \<Longrightarrow> t \<in> pj_unresolved_gaps q \<longleftrightarrow> t \<in> pj_unresolved_gaps p"
    and "t \<noteq> kind_token_id (ev_kind e) \<Longrightarrow> t \<notin> expected_recovery_tokens q i
      \<Longrightarrow> t \<in> pj_quarantined_token_ids q \<longleftrightarrow> t \<in> pj_quarantined_token_ids p"
proof -
  let ?n = "next_market_sequence (open_event p e) i"
  let ?pv = "map_option mh_projection_status (bt_get (pj_market_health (open_event p e)) i)"
  let ?s0 = "localize_fault (Some i) ?n e' (fst v) (snd (snd v))"
  note l = local_stepD [OF step k]
  note st = step [unfolded local_step_def Let_def]
  from st have rec: "reconcile_active_market_instrument_ticks x (es_next ?s0) = Inr (c, p1)"
    and s2: "s2 = demote_market i ?n ?pv e' (recover_market i ?pv e' (fst (snd v)) (?s0\<lparr> es_next := p1 \<rparr>))"
    and q: "q = remember_event e' (record_market_event i ?n e' (publish_readiness c (es_rejected s2) (es_next s2)))"
    by auto
  note fr = reconcile_frame [OF rec]
  have s0: "(\<forall>j. j \<noteq> i \<longrightarrow> bt_get (pj_market_health (es_next ?s0)) j = bt_get (pj_market_health (open_event p e)) j)
    \<and> (\<forall>u. u \<noteq> kind_token_id (ev_kind e) \<longrightarrow> bt_get (pj_books (es_next ?s0)) u = bt_get (pj_books p) u)
    \<and> pj_unresolved_gaps (es_next ?s0) \<subseteq> pj_unresolved_gaps p
    \<and> pj_quarantined_token_ids (es_next ?s0) \<subseteq> insert (kind_token_id (ev_kind e)) (pj_quarantined_token_ids p)
    \<and> es_rejected ?s0 = None
    \<and> (\<forall>u. u \<noteq> kind_token_id (ev_kind e) \<longrightarrow> (u \<in> pj_unresolved_gaps (es_next ?s0) \<longleftrightarrow> u \<in> pj_unresolved_gaps p))
    \<and> (\<forall>u. u \<noteq> kind_token_id (ev_kind e) \<longrightarrow>
        (u \<in> pj_quarantined_token_ids (es_next ?s0) \<longleftrightarrow> u \<in> pj_quarantined_token_ids p))"
    using l(1)
  proof (cases rule: local_cases)
    case (rejected why)
    then show ?thesis using l(2,4) by (auto simp: localize_some reject_def)
  next
    case (accepted p0)
    then show ?thesis by (auto simp: localize_none accept_def)
  qed
  show "bt_get (pj_market_health q) j = bt_get (pj_market_health p) j" if "j \<noteq> i"
    using that s0 i unfolding q s2
    by (simp add: record_market_event_def demote_market_other recover_market_other fr open_event_other)
  show "bt_get (pj_books q) t = bt_get (pj_books p) t" if "t \<noteq> kind_token_id (ev_kind e)"
    using that s0 unfolding q s2 by (simp add: fr)
  have "pj_unresolved_gaps (es_next s2) \<subseteq> pj_unresolved_gaps p1"
    unfolding s2 by (auto simp: demote_market_def)
  then show "pj_unresolved_gaps q \<subseteq> pj_unresolved_gaps p"
    using s0 unfolding q by (auto simp: fr)
  have "pj_quarantined_token_ids (es_next s2) \<subseteq> insert (kind_token_id (ev_kind e)) (pj_quarantined_token_ids p1)"
    using recover_quarantined [of i ?pv e' "fst (snd v)" "?s0\<lparr> es_next := p1 \<rparr>"] l(2)
    unfolding s2 by (auto simp: demote_market_def)
  then show "pj_quarantined_token_ids q \<subseteq> insert (kind_token_id (ev_kind e)) (pj_quarantined_token_ids p)"
    using s0 unfolding q by (auto simp: fr)
  show "pe_fail_closed_reason r = None"
    using st s0 unfolding s2 by simp
  have "t \<in> pj_unresolved_gaps (es_next s2) \<longleftrightarrow> t \<in> pj_unresolved_gaps p1" if "t \<noteq> kind_token_id (ev_kind e)"
    using that l(2) unfolding s2 by (simp add: demote_market_def)
  then show "t \<in> pj_unresolved_gaps q \<longleftrightarrow> t \<in> pj_unresolved_gaps p" if "t \<noteq> kind_token_id (ev_kind e)"
    using that s0 unfolding q by (simp add: fr)
  show "t \<in> pj_quarantined_token_ids q \<longleftrightarrow> t \<in> pj_quarantined_token_ids p"
    if t: "t \<noteq> kind_token_id (ev_kind e)" and other: "t \<notin> expected_recovery_tokens q i"
  proof -
    have "t \<notin> expected_recovery_tokens p1 i"
      using other unfolding q s2 by (simp add: expected_recovery_tokens_def)
    then have "t \<in> pj_quarantined_token_ids (es_next s2) \<longleftrightarrow> t \<in> pj_quarantined_token_ids p1"
      using t l(2) recover_quarantined_other [of t "?s0\<lparr> es_next := p1 \<rparr>" i ?pv e' "fst (snd v)"]
      unfolding s2 by (simp add: demote_market_def)
    then show ?thesis using t s0 unfolding q by (simp add: fr)
  qed
qed

section \<open>Quarantine, sequence numbers and recovery\<close>

lemma recover_rejected [simp]: "recover_market i pv e False s = s"
  by (simp add: recover_market_def)

lemma recover_with_reason: "es_reason s \<noteq> None \<Longrightarrow> recover_market i pv e a s = s"
  by (auto simp: recover_market_def)

lemma demote_with_reason: "es_reason s \<noteq> None \<Longrightarrow> demote_market i n pv e s = s"
  by (auto simp: demote_market_def)

lemma record_status:
  "bt_get (pj_market_health (record_market_event i n e p)) i = Some ((health_entry p i)\<lparr>
     mh_last_market_sequence := n, mh_source_observed_at := Some (ev_source_observed_at e),
     mh_projection_generation := pj_generation p, mh_catalog_revision := pj_catalog_revision p,
     mh_last_event_revision := Some (ev_event_id e) \<rparr>)"
  by (simp add: record_market_event_def)

lemma health_entry_quarantine [simp]:
  "mh_projection_status (health_entry (quarantine_market i t n why e p) i) = Quarantined"
  "mh_retry_after (health_entry (quarantine_market i t n why e p) i) = Some (ev_received_at e + nanos_per_second)"
  "mh_reason_code (health_entry (quarantine_market i t n why e p) i) = Some why"
  by (simp_all add: health_entry_def unwrap_or_def)

lemma health_entry_same: "pj_market_health p = pj_market_health q \<Longrightarrow> pj_generation p = pj_generation q
  \<Longrightarrow> pj_catalog_revision p = pj_catalog_revision q \<Longrightarrow> health_entry p i = health_entry q i"
  by (simp add: health_entry_def)

lemma local_step_rejected:
  assumes step: "local_step x en p e i q r e' v c p1 s2" and k: "market_event_is_locally_recoverable (ev_kind e)"
    and rej: "\<not> pe_applied r"
  obtains h why where "bt_get (pj_market_health q) i = Some h" "mh_projection_status h = Quarantined"
    "mh_reason_code h = Some why" "mh_retry_after h = Some (ev_received_at e + nanos_per_second)"
    "kind_token_id (ev_kind e) \<in> pj_quarantined_token_ids q" "pj_books q = pj_books p"
    "map_option mm_transition (pe_market r) = Some (Some TransitionQuarantined)"
    "map_option mm_reason_code (pe_market r) = Some (Some why)"
proof -
  let ?n = "next_market_sequence (open_event p e) i"
  note l = local_stepD [OF step k]
  note st = step [unfolded local_step_def Let_def]
  from l(1) obtain why where v: "v = reject (kind_token_id (ev_kind e)) why (open_event p e)"
  proof (cases rule: local_cases)
    case (accepted p0)
    with st rej show ?thesis by (simp add: accept_def)
  qed (rule that)
  let ?q0 = "quarantine_market i (kind_token_id (ev_kind e)) ?n why e'
    ((open_event p e)\<lparr> pj_unresolved_gaps := insert (kind_token_id (ev_kind e)) (pj_unresolved_gaps p) \<rparr>)"
  from st v l(2,4) have rec: "reconcile_active_market_instrument_ticks x ?q0 = Inr (c, p1)"
    and s2: "s2 = \<lparr> es_next = p1, es_rejected = None, es_transition = Some TransitionQuarantined, es_reason = Some why \<rparr>"
    and q: "q = remember_event e' (record_market_event i ?n e' (publish_readiness c (es_rejected s2) (es_next s2)))"
    and r: "pe_market r = Some (market_event_metadata i ?n e' s2 (publish_readiness c (es_rejected s2) (es_next s2)))"
    by (simp_all add: reject_def localize_some demote_with_reason)
  note fr = reconcile_frame [OF rec]
  have h: "health_entry p1 i = health_entry ?q0 i"
    by (rule health_entry_same) (simp_all only: fr)
  show thesis
  proof (rule that)
    show "bt_get (pj_market_health q) i = Some ((health_entry p1 i)\<lparr>
        mh_last_market_sequence := ?n, mh_source_observed_at := Some (ev_source_observed_at e'),
        mh_projection_generation := pj_generation p1, mh_catalog_revision := pj_catalog_revision p1,
        mh_last_event_revision := Some (ev_event_id e') \<rparr>)"
      unfolding q s2 by (simp add: record_status)
  qed (auto simp: h l(6) q s2 r fr market_event_metadata_def)
qed

text \<open>Sequence numbers and metadata.\<close>

definition last_sequence :: "projection \<Rightarrow> string \<Rightarrow> u64" where
  "last_sequence p i = (case bt_get (pj_market_health p) i of None \<Rightarrow> 0 | Some h \<Rightarrow> mh_last_market_sequence h)"

lemma next_sequence_open:
  "event_market_id p (ev_kind e) = Some i \<Longrightarrow>
   next_market_sequence (open_event p e) i = saturating_add1 (last_sequence p i)"
proof -
  assume i: "event_market_id p (ev_kind e) = Some i"
  have "event_market_id (p\<lparr> pj_generation := g, pj_cursor := c \<rparr>) (ev_kind e) = Some i" for g c
    using i event_market_id_cong [of "p\<lparr> pj_generation := g, pj_cursor := c \<rparr>" p "ev_kind e"] by simp
  then show ?thesis
    by (simp add: open_event_def next_market_sequence_def last_sequence_def Let_def bt_contains_def
        health_recovering_def saturating_add1_def split: option.splits)
qed

lemma attributed_step_metadata:
  assumes step: "evaluate_event x vr vd en p e = Inr (q, r)" and i: "event_market_id p (ev_kind e) = Some i"
  obtains h md where "bt_get (pj_market_health q) i = Some h" "pe_market r = Some md"
    "mh_last_market_sequence h = saturating_add1 (last_sequence p i)"
    "mh_last_event_revision h = Some (ev_event_id e)"
    "mm_market_id md = i" "mm_market_sequence md = mh_last_market_sequence h"
    "mm_event_revision md = ev_event_id e" "mm_projection_status md = mh_projection_status h"
    "mm_projection_generation md = mh_projection_generation h"
proof (rule attributed_stepE [OF step i])
  fix e' v c p1 s2
  assume ls: "local_step x en p e i q r e' v c p1 s2"
  let ?n = "next_market_sequence (open_event p e) i"
  let ?p2 = "publish_readiness c (es_rejected s2) (es_next s2)"
  from ls have q: "q = remember_event e' (record_market_event i ?n e' ?p2)"
    and r: "pe_market r = Some (market_event_metadata i ?n e' s2 ?p2)"
    and d: "decide_event x en (open_event p e) e = Inr (e', v)"
    by (auto simp: local_step_def Let_def)
  have e': "ev_event_id e' = ev_event_id e" using decide_event_persisted [OF d] by auto
  show thesis
    by (rule that [of "(health_entry ?p2 i)\<lparr> mh_last_market_sequence := ?n,
        mh_source_observed_at := Some (ev_source_observed_at e'), mh_projection_generation := pj_generation ?p2,
        mh_catalog_revision := pj_catalog_revision ?p2, mh_last_event_revision := Some (ev_event_id e') \<rparr>"
        "market_event_metadata i ?n e' s2 ?p2"])
      (simp_all add: q r record_status next_sequence_open [OF i] e' market_event_metadata_def del: publish_readiness_frame)
qed

text \<open>A market that a local event leaves ready has executable books.\<close>

lemma health_entry_recovery [simp]:
  "health_entry (release_tokens j p) i = health_entry p i"
  "health_entry (observe_recovery j t p) i = health_entry p i"
  "health_entry (update_health i f p) i = f (health_entry p i)"
  by (simp_all add: health_entry_def release_tokens_def observe_recovery_def update_health_def unwrap_or_def Let_def)

lemma recover_ready:
  assumes "mh_projection_status (health_entry (es_next (recover_market i pv e a s)) i) = Ready"
    and "\<not> market_books_are_executable (es_next (recover_market i pv e a s)) i" and "es_reason s = None"
  shows "es_reason (recover_market i pv e a s) = None \<and> mh_projection_status (health_entry (es_next s) i) = Ready"
  using assms
  by (auto simp: recover_market_def Let_def mark_ready_def mark_recovering_def split: if_splits)

lemma local_step_ready:
  assumes step: "local_step x en p e i q r e' v c p1 s2" and k: "market_event_is_locally_recoverable (ev_kind e)"
    and h: "bt_get (pj_market_health q) i = Some h" "mh_projection_status h = Ready"
  shows "market_books_are_executable q i"
proof -
  let ?n = "next_market_sequence (open_event p e) i"
  let ?pv = "map_option mh_projection_status (bt_get (pj_market_health (open_event p e)) i)"
  let ?s0 = "localize_fault (Some i) ?n e' (fst v) (snd (snd v))"
  let ?s1 = "?s0\<lparr> es_next := p1 \<rparr>"
  let ?r1 = "recover_market i ?pv e' (fst (snd v)) ?s1"
  note l = local_stepD [OF step k]
  note st = step [unfolded local_step_def Let_def]
  from st have rec: "reconcile_active_market_instrument_ticks x (es_next ?s0) = Inr (c, p1)"
    and s2: "s2 = demote_market i ?n ?pv e' ?r1"
    and q: "q = remember_event e' (record_market_event i ?n e' (publish_readiness c (es_rejected s2) (es_next s2)))"
    by auto
  note fr = reconcile_frame [OF rec]
  have ready2: "mh_projection_status (health_entry (es_next s2) i) = Ready"
    using h unfolding q by (simp add: record_status) (auto simp: health_entry_def)
  have "market_books_are_executable (es_next s2) i"
    using l(1)
  proof (cases rule: local_cases)
    case (rejected why)
    then have "s2 = ?s1" "?s1 = \<lparr> es_next = p1, es_rejected = None,
        es_transition = Some TransitionQuarantined, es_reason = Some why \<rparr>"
      "es_next ?s0 = quarantine_market i (kind_token_id (ev_kind e')) ?n why e'
        ((open_event p e)\<lparr> pj_unresolved_gaps := insert (kind_token_id (ev_kind e)) (pj_unresolved_gaps p) \<rparr>)"
      using l(4) by (simp_all add: s2 reject_def localize_some demote_with_reason)
    moreover from this have "health_entry p1 i = health_entry (es_next ?s0) i"
      by (intro health_entry_same) (simp_all only: fr)
    ultimately show ?thesis using ready2 by simp
  next
    case (accepted p0)
    then have s1: "?s1 = \<lparr> es_next = p1, es_rejected = None, es_transition = None, es_reason = None \<rparr>"
      and p0: "es_next ?s0 = p0" by (simp_all add: accept_def localize_none)
    have prev: "?pv = Some Ready" if "mh_projection_status (health_entry p1 i) = Ready"
    proof -
      from that accepted(2) have "mh_projection_status
          (unwrap_or (health_recovering i (pj_generation p1) (pj_catalog_revision p1))
            (bt_get (pj_market_health (open_event p e)) i)) = Ready"
        by (simp add: health_entry_def fr p0)
      then show ?thesis
        by (auto simp: unwrap_or_def health_recovering_def split: option.splits)
    qed
    show ?thesis
    proof (rule ccontr)
      assume no: "\<not> market_books_are_executable (es_next s2) i"
      have "\<not> market_books_are_executable (es_next ?r1) i \<and> s2 = ?r1"
      proof (cases "s2 = ?r1")
        case False
        then have "mh_projection_status (health_entry (es_next s2) i) = Quarantined"
          unfolding s2 by (auto simp: demote_market_def split: if_splits)
        with ready2 show ?thesis by simp
      qed (use no in simp)
      then have no1: "\<not> market_books_are_executable (es_next ?r1) i" and eq: "s2 = ?r1" by auto
      have nodem: "\<not> (es_reason ?r1 = None \<and> ?pv = Some Ready)"
      proof (rule notI)
        assume c: "es_reason ?r1 = None \<and> ?pv = Some Ready"
        have "es_rejected ?r1 = None" by (simp add: s1)
        with c no1 l(4) have "es_reason s2 \<noteq> None" unfolding s2 by (simp add: demote_market_def)
        with c eq show False by simp
      qed
      have "es_reason ?r1 = None \<and> mh_projection_status (health_entry (es_next ?s1) i) = Ready"
        using ready2 unfolding eq by (rule recover_ready [OF _ no1]) (simp add: s1)
      with prev have "?pv = Some Ready \<and> es_reason ?r1 = None" by (simp add: s1)
      with nodem show False by blast
    qed
  qed
  moreover have "market_books_are_executable q i = market_books_are_executable (es_next s2) i"
    unfolding q by (rule executable_cong) simp_all
  ultimately show ?thesis by simp
qed

text \<open>What a published recovery means.\<close>

lemma local_step_recovered:
  assumes step: "local_step x en p e i q r e' v c p1 s2" and k: "market_event_is_locally_recoverable (ev_kind e)"
    and rec: "map_option mm_transition (pe_market r) = Some (Some Recovered)"
  shows "is_full_book (ev_kind e)" "pe_applied r"
    "map_option mh_projection_status (bt_get (pj_market_health p) i) \<noteq> Some Ready"
    "map_option mh_projection_status (bt_get (pj_market_health q) i) = Some Ready"
    "\<forall>m. bt_get (pj_markets q) i = Some m \<longrightarrow>
      set (market_tokens m) \<subseteq> insert (kind_token_id (ev_kind e))
        (unwrap_or {} (bt_get (pj_market_recovery_token_ids p) i))"
proof -
  let ?n = "next_market_sequence (open_event p e) i"
  let ?pv = "map_option mh_projection_status (bt_get (pj_market_health (open_event p e)) i)"
  let ?s0 = "localize_fault (Some i) ?n e' (fst v) (snd (snd v))"
  let ?s1 = "?s0\<lparr> es_next := p1 \<rparr>"
  let ?r1 = "recover_market i ?pv e' (fst (snd v)) ?s1"
  note l = local_stepD [OF step k]
  note st = step [unfolded local_step_def Let_def]
  from st have rc: "reconcile_active_market_instrument_ticks x (es_next ?s0) = Inr (c, p1)"
    and s2: "s2 = demote_market i ?n ?pv e' ?r1"
    and q: "q = remember_event e' (record_market_event i ?n e' (publish_readiness c (es_rejected s2) (es_next s2)))"
    and r: "pe_applied r = fst (snd v)" and tr: "es_transition s2 = Some Recovered"
    using rec by (auto simp: market_event_metadata_def)
  note fr = reconcile_frame [OF rc]
  have tr1: "es_transition ?r1 = Some Recovered" and eq: "s2 = ?r1"
    using tr unfolding s2 by (auto simp: demote_market_def split: if_splits)
  from l(1) obtain p0 where v: "v = accept p0"
    and p0: "pj_market_recovery_token_ids p0 = pj_market_recovery_token_ids p"
  proof (cases rule: local_cases)
    case (rejected why)
    with tr1 l(4) show ?thesis by (simp add: reject_def localize_some)
  next
    case (accepted p0)
    then show ?thesis by (intro that [of p0]) auto
  qed
  have s1: "?s1 = \<lparr> es_next = p1, es_rejected = None, es_transition = None, es_reason = None \<rparr>"
    and s0: "es_next ?s0 = p0" by (simp_all add: v accept_def localize_none)
  let ?o = "observe_recovery i (kind_token_id (ev_kind e')) p1"
  have full: "is_full_book (ev_kind e')" and pv: "?pv \<noteq> Some Ready" and complete: "recovery_complete ?o i"
    and r1: "es_next ?r1 = mark_ready i e' (release_tokens i ?o)"
    using tr1 unfolding s1 by (auto simp: recover_market_def Let_def split: if_splits)
  show "is_full_book (ev_kind e)" using full l(3) by simp
  show "pe_applied r" by (simp add: r v accept_def)
  have "bt_get (pj_market_health p) i = Some h \<Longrightarrow> bt_get (pj_market_health (open_event p e)) i = Some h" for h
    by (auto simp: open_event_def Let_def bt_contains_def split: option.splits)
  with pv show "map_option mh_projection_status (bt_get (pj_market_health p) i) \<noteq> Some Ready" by auto
  show "map_option mh_projection_status (bt_get (pj_market_health q) i) = Some Ready"
    unfolding q eq r1 by (simp add: record_status mark_ready_def health_entry_def unwrap_or_def)
  have m: "pj_markets q = pj_markets p1" unfolding q s2 by simp
  show "\<forall>m. bt_get (pj_markets q) i = Some m \<longrightarrow>
      set (market_tokens m) \<subseteq> insert (kind_token_id (ev_kind e))
        (unwrap_or {} (bt_get (pj_market_recovery_token_ids p) i))"
    using complete unfolding m
    by (auto simp: recovery_complete_def expected_recovery_tokens_def observe_recovery_def Let_def l(2)
        fr s0 p0 unwrap_or_def)
qed

text \<open>The change of status itself, whatever the record says of it.\<close>

lemma recover_unready:
  assumes "pv \<noteq> Some Ready" and "mh_projection_status (health_entry (es_next s) i) \<noteq> Ready"
    and "mh_projection_status (health_entry (es_next (recover_market i pv e a s)) i) = Ready"
  shows "es_transition (recover_market i pv e a s) = Some Recovered"
  using assms by (auto simp: recover_market_def Let_def mark_ready_def mark_recovering_def split: if_splits)

lemma recover_unchanged: "\<not> (is_full_book (ev_kind e) \<and> a) \<Longrightarrow> recover_market i pv e a s = s"
  by (auto simp: recover_market_def)

lemma local_step_status:
  assumes step: "local_step x en p e i q r e' v c p1 s2" and k: "market_event_is_locally_recoverable (ev_kind e)"
    and i: "event_market_id p (ev_kind e) = Some i"
    and before: "bt_get (pj_market_health p) i = Some h" "mh_projection_status h \<noteq> Ready"
  shows "map_option mh_projection_status (bt_get (pj_market_health q) i) = Some Ready
      \<Longrightarrow> map_option mm_transition (pe_market r) = Some (Some Recovered)"
    and "mh_projection_status h = Quarantined \<Longrightarrow> \<not> (is_full_book (ev_kind e) \<and> pe_applied r)
      \<Longrightarrow> map_option mh_projection_status (bt_get (pj_market_health q) i) = Some Quarantined"
proof -
  let ?n = "next_market_sequence (open_event p e) i"
  let ?pv = "map_option mh_projection_status (bt_get (pj_market_health (open_event p e)) i)"
  let ?s0 = "localize_fault (Some i) ?n e' (fst v) (snd (snd v))"
  let ?s1 = "?s0\<lparr> es_next := p1 \<rparr>"
  let ?r1 = "recover_market i ?pv e' (fst (snd v)) ?s1"
  note l = local_stepD [OF step k]
  note st = step [unfolded local_step_def Let_def]
  from st have rc: "reconcile_active_market_instrument_ticks x (es_next ?s0) = Inr (c, p1)"
    and s2: "s2 = demote_market i ?n ?pv e' ?r1"
    and q: "q = remember_event e' (record_market_event i ?n e' (publish_readiness c (es_rejected s2) (es_next s2)))"
    and r: "pe_applied r = fst (snd v)"
      "pe_market r = Some (market_event_metadata i ?n e' s2 (publish_readiness c (es_rejected s2) (es_next s2)))"
    by auto
  note fr = reconcile_frame [OF rc]
  have kept: "?pv = Some (mh_projection_status h)"
    using before by (auto simp: open_event_def Let_def bt_contains_def split: option.splits)
  then have pv: "?pv \<noteq> Some Ready" using before by auto
  then have eq: "s2 = ?r1" unfolding s2 by (auto simp: demote_market_def)
  have after: "map_option mh_projection_status (bt_get (pj_market_health q) i)
      = Some (mh_projection_status (health_entry (es_next ?r1) i))"
    unfolding q eq by (simp add: record_status)
  have "(pe_applied r \<longrightarrow> mh_projection_status (health_entry p1 i) \<noteq> Ready
        \<and> (?pv = Some Quarantined \<longrightarrow> mh_projection_status (health_entry p1 i) = Quarantined))
      \<and> (\<not> pe_applied r \<longrightarrow> map_option mh_projection_status (bt_get (pj_market_health q) i) = Some Quarantined)"
    using l(1)
  proof (cases rule: local_cases)
    case (rejected why)
    then have no: "\<not> pe_applied r" by (simp add: r reject_def)
    show ?thesis by (rule local_step_rejected [OF step k no]) (simp add: no)
  next
    case (accepted p0)
    then have p0: "es_next ?s0 = p0" and yes: "pe_applied r" by (simp_all add: r accept_def localize_none)
    have "mh_projection_status (health_entry p1 i) = unwrap_or Recovering ?pv"
      using accepted(2) by (cases "bt_get (pj_market_health (open_event p e)) i")
        (simp_all add: health_entry_def fr p0 unwrap_or_def health_recovering_def)
    with pv yes show ?thesis by (auto simp: unwrap_or_def split: option.splits)
  qed
  note stages = this
  show "map_option mm_transition (pe_market r) = Some (Some Recovered)"
    if "map_option mh_projection_status (bt_get (pj_market_health q) i) = Some Ready"
  proof -
    from that stages have "pe_applied r" by auto
    with stages have "mh_projection_status (health_entry (es_next ?s1) i) \<noteq> Ready" by simp
    with that after have "es_transition ?r1 = Some Recovered" by (intro recover_unready [OF pv]) auto
    then show ?thesis by (simp add: r eq market_event_metadata_def)
  qed
  show "map_option mh_projection_status (bt_get (pj_market_health q) i) = Some Quarantined"
    if "mh_projection_status h = Quarantined"
      and no: "\<not> (is_full_book (ev_kind e) \<and> pe_applied r)"
  proof (cases "pe_applied r")
    case True
    with no l(3) have "?r1 = ?s1" by (intro recover_unchanged) (simp add: r)
    then have "es_next ?r1 = p1" by simp
    moreover have "mh_projection_status (health_entry p1 i) = Quarantined"
      using stages True that(1) unfolding kept by blast
    ultimately show ?thesis using after by argo
  qed (use stages in simp)
qed

end
