(* ===== verification/Core_Ready.thy ===== *)
theory Core_Ready
  imports Core_Local
begin

text \<open>
  The published readiness bit: it is set exactly when the projection has no reason to fail
  closed, and a ready projection has no gap, both books of every public market with two sides,
  and instrument facts that agree with the ticks of those books.
\<close>

section \<open>Rejections leave a gap\<close>

lemma apply_kind_reason:
  assumes "apply_kind x e k p = Inr (q, a, Some why)"
  shows "pj_unresolved_gaps q \<noteq> {}"
proof (cases a)
  case False
  with assms have "apply_kind x e k p = Inr (q, False, Some why)" by simp
  then show ?thesis by (rule apply_kind_rejected) simp
next
  case True
  show ?thesis
  proof (cases "market_event_is_locally_recoverable k")
    case local: True
    from apply_kind_local [OF assms local] True show ?thesis
      by (auto simp: local_verdict_def reject_def accept_def)
  next
    case False
    with assms True show ?thesis
      by (cases k) (auto simp: apply_catalog_def apply_new_market_def apply_resolved_def apply_tick_size_def
          add_gap_def accept_def reject_def split: option.splits sum.splits if_splits)
  qed
qed

lemma decide_event_reason:
  assumes "decide_event x en p e = Inr (e', q, a, Some why)"
  shows "pj_unresolved_gaps q \<noteq> {}"
  by (rule decide_eventE [OF assms]) (auto simp: reject_def accept_def dest: apply_kind_reason)

lemma localize_reason:
  "es_rejected (localize_fault m n e p r) = Some why \<Longrightarrow> localize_fault m n e p r =
     \<lparr> es_next = p, es_rejected = r, es_transition = None, es_reason = None \<rparr>"
  by (auto simp: localize_fault_def split: option.splits if_splits)

section \<open>Public markets\<close>

lemma public_record: "market_is_public (record_market_event i n e p) j \<Longrightarrow> market_is_public p j"
  by (auto simp: market_is_public_def record_market_event_def health_entry_def unwrap_or_def is_none_or_def
      health_recovering_def split: option.splits if_splits)

lemma public_markets_record: "set (public_markets (record_market_event i n e p)) \<subseteq> set (public_markets p)"
  by (auto simp: public_markets_def active_markets_def dest: public_record)

text \<open>The readiness conditions only ask for less when fewer markets are public.\<close>

lemma conditions_mono:
  assumes "set (public_markets q) \<subseteq> set (public_markets p)" "pj_books q = pj_books p"
    "pj_catalog_revision q = pj_catalog_revision p"
  shows "catalog_books_complete p \<Longrightarrow> catalog_books_complete q"
    "active_market_books_two_sided p \<Longrightarrow> active_market_books_two_sided q"
    "instrument_ticks_consistent p \<Longrightarrow> instrument_ticks_consistent q"
  using assms
  by (auto simp: catalog_books_complete_def active_market_books_two_sided_def instrument_ticks_consistent_def
      market_ticks_consistent_def list_all_iff)

section \<open>Reconciled ticks\<close>

lemma scan_ticks_sound:
  "scan_ticks p ts common acc = Some (common', acc') \<Longrightarrow>
     (\<forall>c. common = Some c \<longrightarrow> common' = Some c)
     \<and> (\<forall>t \<in> set ts. \<exists>b. bt_get (pj_books p) t = Some b \<and> bk_tick_version b \<noteq> [] \<and> bk_tick_size b = common'
          \<and> common' \<noteq> None)"
proof (induction p ts common acc rule: scan_ticks.induct)
  case (2 p t ts common acc)
  then obtain b tick where b: "bt_get (pj_books p) t = Some b" "bk_tick_size b = Some tick"
    and v: "bk_tick_version b \<noteq> []" "\<not> is_some_and (\<lambda>expected. expected \<noteq> tick) common"
    and rest: "scan_ticks p ts (opt_or common (Some tick)) (bt_insert t (tick, bk_tick_version b) acc)
      = Some (common', acc')"
    by (auto split: option.splits if_splits)
  have "opt_or common (Some tick) = Some tick"
    using v(2) by (cases common) auto
  with 2(1) [OF b] v rest show ?case using b by (auto split: option.splits)
qed simp

lemma collect_tick_updates_sound:
  assumes "collect_tick_updates x p ms = Some us" "distinct (map mk_market_id ms)"
  shows "distinct (map fst us) \<and> (\<forall>m \<in> set ms. mk_instrument_facts m \<noteq> None \<longrightarrow> market_is_public p (mk_market_id m)
     \<longrightarrow> (\<exists>inc rev tt. (mk_market_id m, inc, rev) \<in> set us \<and> scan_ticks p (market_tokens m) None [] = Some (Some inc, tt)))"
  using assms
proof (induction ms arbitrary: us)
  case (Cons m ms)
  show ?case
  proof (cases "collect_tick_updates x p ms")
    case None
    with Cons.prems(1) show ?thesis by (auto split: option.splits prod.splits if_splits)
  next
    case (Some vs)
    note IH = Cons.IH [OF Some] and ids = collect_tick_updates_ids [OF Some]
    have d: "mk_market_id m \<notin> mk_market_id ` set ms" "distinct (map mk_market_id ms)" using Cons.prems(2) by auto
    have fresh: "mk_market_id m \<notin> fst ` set vs" using ids d(1) by force
    consider (skip) "us = vs" "mk_instrument_facts m = None \<or> \<not> market_is_public p (mk_market_id m)"
      | (upd) inc rev tt where "us = (mk_market_id m, inc, rev) # vs"
          "scan_ticks p (market_tokens m) None [] = Some (Some inc, tt)"
      using Cons.prems(1) Some by (auto split: option.splits prod.splits if_splits)
    then show ?thesis
    proof cases
      case skip
      then show ?thesis using IH d by auto
    next
      case (upd inc rev tt)
      then show ?thesis using IH d fresh by auto blast+
    qed
  qed
qed simp

definition retick :: "price \<times> string \<Rightarrow> market_record \<Rightarrow> market_record" where
  "retick u m = m\<lparr> mk_instrument_facts :=
     map_option (\<lambda>f. f\<lparr> if_price_increment := fst u, if_revision := snd u \<rparr>) (mk_instrument_facts m) \<rparr>"

lemma apply_tick_updates_get:
  assumes "apply_tick_updates us ms = Inr ms'" "distinct (map fst us)"
  shows "bt_get ms' i = (case map_of us i of None \<Rightarrow> bt_get ms i | Some u \<Rightarrow> map_option (retick u) (bt_get ms i))"
  using assms
proof (induction us ms rule: apply_tick_updates.induct)
  case (2 j inc rev us ms)
  then obtain m facts where m: "bt_get ms j = Some m" "mk_instrument_facts m = Some facts"
    by (auto split: option.splits)
  have "map_of us j = None" using 2(3) by (auto simp: map_of_eq_None_iff)
  with 2 m show ?case
    by (auto simp: retick_def split: option.splits)
qed simp

lemma reconcile_ticks:
  assumes wf: "catalog_wf p" and rec: "reconcile_active_market_instrument_ticks x p = Inr (True, q)"
    and cat: "pj_catalog_revision p \<noteq> None"
    and m: "bt_get (pj_markets q) i = Some m" "is_active m" and pub: "market_is_public p i"
  shows "market_ticks_consistent q m"
proof -
  obtain us where us: "collect_tick_updates x p (active_markets p) = Some us"
    and ms: "apply_tick_updates us (pj_markets p) = Inr (pj_markets q)"
    using rec cat by (auto simp: reconcile_active_market_instrument_ticks_def split: option.splits sum.splits)
  have ix: "bt_wf (pj_markets p)" "\<And>j n. bt_get (pj_markets p) j = Some n \<Longrightarrow> mk_market_id n = j"
    using wf by (auto simp: catalog_wf_def market_index_iff)
  have "map mk_market_id (active_markets p) = map fst (filter (\<lambda>(k, n). is_active n) (pj_markets p))"
    using ix unfolding active_markets_def bt_values_def
    by (auto simp: filter_map comp_def split_def bt_get_iff intro!: map_cong)
  then have d: "distinct (map mk_market_id (active_markets p))"
    using bt_wf_distinct [OF bt_wf_filter [OF ix(1)]] by simp
  note sound = collect_tick_updates_sound [OF us d]
  note get = apply_tick_updates_get [OF ms conjunct1 [OF sound], of i]
  obtain m0 where m0: "bt_get (pj_markets p) i = Some m0" and same: "same_market m0 m"
    using apply_tick_updates_same [OF ms, of i] m(1) by (auto simp: option_rel_Some2)
  note sm = same_marketD [OF same]
  have act: "m0 \<in> set (active_markets p)" "mk_market_id m0 = i"
    using m0 m(2) sm(4) ix bt_get_in_values [OF m0] by (auto simp: active_markets_def)
  show ?thesis
  proof (cases "mk_instrument_facts m0")
    case None
    with get m(1) m0 have "mk_instrument_facts m = None"
      by (auto simp: retick_def split: option.splits)
    then show ?thesis by (simp add: market_ticks_consistent_def)
  next
    case (Some f0)
    with sound act pub obtain inc rev tt where u: "(i, inc, rev) \<in> set us"
      and sc: "scan_ticks p (market_tokens m0) None [] = Some (Some inc, tt)" by blast
    with sound have "map_of us i = Some (inc, rev)" by simp
    with get m(1) m0 have "m = retick (inc, rev) m0" by simp
    with Some have "mk_instrument_facts m = Some (f0\<lparr> if_price_increment := inc, if_revision := rev \<rparr>)"
      by (simp add: retick_def)
    with scan_ticks_sound [OF sc] sm(3) show ?thesis
      by (auto simp: market_ticks_consistent_def list_all_iff reconcile_frame [OF rec])
  qed
qed

text \<open>A market becomes public after reconciliation only with executable books.\<close>

lemma executable_ticks:
  assumes "market_books_are_executable p i" "bt_get (pj_markets p) i = Some m"
  shows "market_ticks_consistent p m"
  using assms
  by (auto simp: market_books_are_executable_def market_ticks_consistent_def facts_executable_def
      token_executable_def list_all_iff list_ex_iff is_none_or_def is_some_and_def split: option.splits)

section \<open>The published bit\<close>

text \<open>The part of a step from reconciliation to publication, for any market attribution.\<close>

lemma publish_ready_iff:
  "r \<noteq> None \<Longrightarrow> pj_unresolved_gaps p \<noteq> {}
   \<Longrightarrow> pj_ready (publish_readiness c r p) \<longleftrightarrow> pj_fail_closed_reason (publish_readiness c r p) = None"
  "pj_ready (publish_readiness c None p) \<longleftrightarrow> pj_fail_closed_reason (publish_readiness c None p) = None"
  by (auto simp: publish_readiness_def Let_def opt_or_def split: option.splits)

lemma publish_ready_conditions:
  "pj_ready (publish_readiness c r p) \<longleftrightarrow> pj_unresolved_gaps p = {} \<and> usable_projection p
     \<and> catalog_books_complete p \<and> c \<and> active_market_books_two_sided p"
  by (simp add: publish_readiness_def Let_def)

lemma recover_public:
  assumes "market_is_public (es_next (recover_market i pv e a s)) j"
  shows "market_is_public (es_next s) j \<or> j = i \<and> market_books_are_executable (es_next (recover_market i pv e a s)) i"
  using assms
  by (auto simp: recover_market_def Let_def market_is_public_def mark_ready_def mark_recovering_def
      split: if_splits)

lemma demote_public:
  assumes "market_is_public (es_next (demote_market i n pv e s)) j"
  shows "market_is_public (es_next s) j \<and> (demote_market i n pv e s = s \<or> j \<noteq> i)"
  using assms
  by (auto simp: demote_market_def market_is_public_def split: if_splits)

lemma publication:
  assumes wf: "catalog_wf (es_next s0)"
    and rec: "reconcile_active_market_instrument_ticks x (es_next s0) = Inr (c, p1)"
    and s2: "s2 = (case market of None \<Rightarrow> s0\<lparr> es_next := p1 \<rparr>
       | Some i \<Rightarrow> demote_market i n prev e (recover_market i prev e a (s0\<lparr> es_next := p1 \<rparr>)))"
    and c: "c"
  shows "instrument_ticks_consistent (es_next s2)"
proof (cases "pj_catalog_revision (es_next s0) = None")
  case True
  then show ?thesis
    unfolding s2 by (cases market) (simp_all add: instrument_ticks_consistent_def reconcile_frame [OF rec])
next
  case False
  have wf1: "catalog_wf p1" by (rule catalog_wf_reconcile [OF wf rec])
  have ms: "pj_markets (es_next s2) = pj_markets p1" "pj_books (es_next s2) = pj_books p1"
    unfolding s2 by (cases market; simp)+
  have old: "market_ticks_consistent p1 m" if "bt_get (pj_markets p1) j = Some m" "is_active m"
    "market_is_public p1 j" for j m
    using reconcile_ticks [OF wf _ False that(1,2)] rec c that(3)
    by (auto simp: market_is_public_def market_ticks_consistent_def reconcile_frame [OF rec])
  have "market_ticks_consistent (es_next s2) m" if m: "m \<in> set (public_markets (es_next s2))" for m
  proof -
    from m have v: "m \<in> set (bt_values (pj_markets p1))" and act: "is_active m"
      and pub: "market_is_public (es_next s2) (mk_market_id m)"
      by (auto simp: public_markets_def active_markets_def ms)
    from v wf1 have g: "bt_get (pj_markets p1) (mk_market_id m) = Some m"
      by (auto simp: bt_values_iff catalog_wf_def market_index_iff)
    have "market_is_public p1 (mk_market_id m) \<or> market_books_are_executable (es_next s2) (mk_market_id m)"
    proof (cases market)
      case None
      with pub show ?thesis by (simp add: s2)
    next
      case (Some i)
      let ?r = "recover_market i prev e a (s0\<lparr> es_next := p1 \<rparr>)"
      from pub Some have d: "market_is_public (es_next ?r) (mk_market_id m)"
        "demote_market i n prev e ?r = ?r \<or> mk_market_id m \<noteq> i"
        using demote_public [of i n prev e ?r] by (auto simp: s2)
      from recover_public [OF d(1)] d(2) Some show ?thesis by (auto simp: s2)
    qed
    then show ?thesis
    proof
      assume "market_is_public p1 (mk_market_id m)"
      from old [OF g act this] show ?thesis by (simp add: market_ticks_consistent_def ms)
    next
      assume "market_books_are_executable (es_next s2) (mk_market_id m)"
      from executable_ticks [OF this] g show ?thesis by (simp add: ms)
    qed
  qed
  then show ?thesis by (simp add: instrument_ticks_consistent_def list_all_iff)
qed

lemma step_readiness:
  assumes wf: "catalog_wf p" and step: "evaluate_event x vr vd en p e = Inr (q, r)"
  shows "pj_ready q \<longleftrightarrow> pj_fail_closed_reason q = None"
    and "pj_ready q \<Longrightarrow> pj_unresolved_gaps q = {} \<and> catalog_books_complete q
      \<and> active_market_books_two_sided q \<and> instrument_ticks_consistent q"
proof -
  have "(pj_ready q \<longleftrightarrow> pj_fail_closed_reason q = None) \<and> (pj_ready q \<longrightarrow>
    pj_unresolved_gaps q = {} \<and> catalog_books_complete q \<and> active_market_books_two_sided q
      \<and> instrument_ticks_consistent q)"
  proof (rule evaluate_eventE [OF step])
    fix e' p0 a rj market n pv
    assume d: "decide_event x en (open_event p e) e = Inr (e', p0, a, rj)"
      and f: "finish_event x market n pv e' (p0, a, rj) = Inr (q, r)"
    show ?thesis
    proof (rule finish_eventE [OF f])
      fix c p1 s1 s2
      let ?s0 = "localize_fault market n e' p0 rj"
      assume rec: "reconcile_active_market_instrument_ticks x (es_next ?s0) = Inr (c, p1)"
        and s1: "s1 = ?s0\<lparr> es_next := p1 \<rparr>"
        and s2: "s2 = (case market of None \<Rightarrow> s1
           | Some i \<Rightarrow> demote_market i n pv e' (recover_market i pv e' a s1))"
        and q: "q = remember_event e' (case market of None \<Rightarrow> publish_readiness c (es_rejected s2) (es_next s2)
           | Some i \<Rightarrow> record_market_event i n e' (publish_readiness c (es_rejected s2) (es_next s2)))"
      let ?p2 = "publish_readiness c (es_rejected s2) (es_next s2)"
      have wf0: "catalog_wf (es_next ?s0)"
        by (intro catalog_wf_localize catalog_wf_decide [OF catalog_wf_open [OF wf] d])
      have bits: "pj_ready q = pj_ready ?p2" "pj_fail_closed_reason q = pj_fail_closed_reason ?p2"
        "pj_unresolved_gaps q = pj_unresolved_gaps (es_next s2)" "pj_books q = pj_books (es_next s2)"
        "pj_catalog_revision q = pj_catalog_revision (es_next s2)"
        unfolding q by (cases market; simp)+
      have "set (public_markets (record_market_event i n e' ?p2)) \<subseteq> set (public_markets (es_next s2))" for i
        using public_markets_record [of i n e' ?p2]
        by (simp add: public_markets_def active_markets_def market_is_public_def)
      then have pub: "set (public_markets q) \<subseteq> set (public_markets (es_next s2))"
        unfolding q by (cases market) (auto simp: public_markets_def active_markets_def market_is_public_def)
      have rj: "es_rejected s2 = es_rejected ?s0"
        unfolding s2 s1 by (cases market) simp_all
      have "pj_unresolved_gaps (es_next s2) \<noteq> {}" if why: "es_rejected ?s0 = Some why" for why
      proof -
        note s0 = localize_reason [OF why]
        with why have "pj_unresolved_gaps p0 \<noteq> {}" using decide_event_reason d by auto
        with s0 have "pj_unresolved_gaps (es_next s1) \<noteq> {}" by (simp add: s1 reconcile_frame [OF rec])
        moreover have "pj_unresolved_gaps (es_next s2) = pj_unresolved_gaps (es_next s1)"
          using why unfolding s2 by (cases market) (simp_all add: demote_market_def s1)
        ultimately show ?thesis by simp
      qed
      then have 1: "pj_ready q \<longleftrightarrow> pj_fail_closed_reason q = None"
        unfolding bits rj using publish_ready_iff(1) [of "es_rejected ?s0" "es_next s2" c] publish_ready_iff(2)
        by (cases "es_rejected ?s0") auto
      have 2: ?thesis if ready: "pj_ready q"
        using ready conditions_mono [OF pub bits(4,5)] publication [OF wf0 rec s2 [unfolded s1]] 1
        by (simp add: bits(1,3) publish_ready_conditions)
      from 1 2 show ?thesis by blast
    qed
  qed
  then show "pj_ready q \<longleftrightarrow> pj_fail_closed_reason q = None"
    "pj_ready q \<Longrightarrow> pj_unresolved_gaps q = {} \<and> catalog_books_complete q
      \<and> active_market_books_two_sided q \<and> instrument_ticks_consistent q" by blast+
qed

end
