(* ===== verification/Core_Safety.thy ===== *)
theory Core_Safety
  imports Core_Step
begin

text \<open>
  The safety invariant of the stored books: after every event each book of the projection has
  ordered sides without empty levels, no bid at or above an ask, and only prices that are
  multiples of the book's tick. One lemma per event kind, then the step.
\<close>

definition books_ok :: "ext \<Rightarrow> projection \<Rightarrow> bool" where
  "books_ok x p = (bt_wf (pj_books p) \<and> (\<forall>(t, b) \<in> set (pj_books p). book_ok x b))"

lemma books_ok_iff:
  "books_ok x p \<longleftrightarrow> bt_wf (pj_books p) \<and> (\<forall>t b. bt_get (pj_books p) t = Some b \<longrightarrow> book_ok x b)"
  by (auto simp: books_ok_def bt_get_iff)

lemma books_ok_get: "books_ok x p \<Longrightarrow> bt_get (pj_books p) t = Some b \<Longrightarrow> book_ok x b"
  by (simp add: books_ok_iff)

lemma books_ok_put: "books_ok x p \<Longrightarrow> book_ok x b \<Longrightarrow> books_ok x (put_book t b p)"
  by (auto simp: books_ok_iff put_book_def)

lemma books_ok_cong: "pj_books p = pj_books q \<Longrightarrow> books_ok x p = books_ok x q"
  by (simp add: books_ok_def)

section \<open>Alignment of a book\<close>

lemma book_alignedI:
  assumes "bk_tick_size b = Some t"
    and "\<And>p. p \<in> set (bt_keys (bk_bids b)) \<Longrightarrow> dec_rem x p t = 0"
    and "\<And>p. p \<in> set (bt_keys (bk_asks b)) \<Longrightarrow> dec_rem x p t = 0"
  shows "book_aligned x b"
  using assms by (auto simp: book_aligned_def)

lemma book_alignedD:
  assumes "book_aligned x b" and "bk_tick_size b = Some t"
    and "p \<in> set (bt_keys (bk_bids b)) \<or> p \<in> set (bt_keys (bk_asks b))"
  shows "dec_rem x p t = 0"
  using assms by (auto simp: book_aligned_def)

lemma keys_fold_apply:
  "p \<in> set (bt_keys (fold apply_level ls m)) \<Longrightarrow> p \<in> set (bt_keys m) \<or> p \<in> lv_price ` set ls"
proof -
  assume "p \<in> set (bt_keys (fold apply_level ls m))"
  then have "(case assigned ls p of None \<Rightarrow> bt_get m p | Some q \<Rightarrow> if q = 0 then None else Some q) \<noteq> None"
    by (simp add: keys_bt_get bt_get_fold_apply)
  then show ?thesis
    by (force simp: keys_bt_get assigned_def split: option.splits dest!: map_of_SomeD)
qed

lemma keys_side_of_levels: "p \<in> set (bt_keys (side_of_levels ls)) \<Longrightarrow> p \<in> lv_price ` set ls"
  by (force simp: keys_bt_get side_of_levels_def bt_get_of_list dest!: map_of_SomeD)

lemma levels_tick_alignedD: "levels_tick_aligned x t ls \<Longrightarrow> p \<in> lv_price ` set ls \<Longrightarrow> dec_rem x p t = 0"
  by (auto simp: levels_tick_aligned_def list_all_iff)

lemma aligned_replace:
  assumes "levels_tick_aligned x t bids" "levels_tick_aligned x t asks"
  shows "book_aligned x (book_replace bids asks t v at b)"
  using assms
  by (intro book_alignedI) (auto simp: book_replace_def dest!: keys_side_of_levels dest: levels_tick_alignedD)

lemma aligned_apply:
  assumes "book_aligned x b" "bk_tick_size b = Some t" "levels_tick_aligned x t ls"
  shows "book_aligned x (book_apply s ls at b)"
  by (rule book_alignedI [where t = t])
    (use assms in \<open>auto simp: book_apply_def split: side.splits dest!: keys_fold_apply
      intro: book_alignedD levels_tick_alignedD\<close>)

lemma aligned_apply_batch:
  assumes "book_aligned x b" "bk_tick_size b = Some t"
    and "list_all (\<lambda>c. levels_tick_aligned x t (sl_levels c)) cs"
  shows "book_aligned x (book_apply_batch cs at b)"
  using assms
proof (induction cs arbitrary: b)
  case (Cons c cs)
  then show ?case
    using Cons.IH [of "book_apply (sl_side c) (sl_levels c) at b"]
    by (simp add: book_apply_batch_def aligned_apply)
qed (simp add: book_apply_batch_def)

lemma aligned_prune: "book_aligned x b \<Longrightarrow> book_aligned x (prune_to_bbo eb ea b)"
  by (auto simp: book_aligned_def prune_to_bbo_def keys_bt_get bt_get_prune_bids bt_get_prune_asks
      split: if_splits)

lemma book_wf_prune: "book_wf b \<Longrightarrow> book_wf (prune_to_bbo eb ea b)"
  by (simp add: book_wf_def prune_to_bbo_def side_wf_prune)

lemma all_aligned_keys:
  "all_aligned x ps t = Inr True \<Longrightarrow> p \<in> set ps \<Longrightarrow> dec_rem x p t = 0"
  by (induction ps) (auto simp: rem_is_zero_def split: if_splits)

text \<open>The timestamps and the last trade are not part of the invariant.\<close>

lemma book_ok_stamps [simp]:
  "book_ok x (b\<lparr> bk_authoritative_refresh_received_at := r \<rparr>) = book_ok x b"
  "book_ok x (b\<lparr> bk_source_observed_at := at \<rparr>) = book_ok x b"
  "book_ok x (b\<lparr> bk_last_trade_price := lp, bk_last_trade_observed_at := la \<rparr>) = book_ok x b"
  "crossed_or_locked (b\<lparr> bk_authoritative_refresh_received_at := r \<rparr>) = crossed_or_locked b"
  by (simp_all add: book_ok_def book_wf_def book_aligned_def crossed_or_locked_def)

section \<open>One lemma per event kind\<close>

lemma books_ok_full_book:
  assumes ok: "books_ok x p"
  shows "books_ok x (fst (apply_full_book x e t bids asks tick version p))"
proof -
  let ?b0 = "unwrap_or book_default (bt_get (pj_books p) t)"
  let ?b = "(book_replace bids asks tick version (ev_source_observed_at e) ?b0)
    \<lparr> bk_authoritative_refresh_received_at :=
        (if se_source (ev_source e) = clob_http then Some (ev_received_at e) else None) \<rparr>"
  have "books_ok x (put_book t ?b p)"
    if "levels_tick_aligned x tick bids" "levels_tick_aligned x tick asks" "\<not> crossed_or_locked ?b"
  proof (rule books_ok_put [OF ok])
    show "book_ok x ?b"
      using that(3) by (simp only: book_ok_stamps) (simp only: book_ok_def book_wf_replace aligned_replace [OF that(1,2)] simp_thms)
  qed
  then have "books_ok x ((put_book t ?b p)\<lparr> pj_unresolved_gaps := g \<rparr>)"
    if "levels_tick_aligned x tick bids" "levels_tick_aligned x tick asks" "\<not> crossed_or_locked ?b" for g
    using that by (simp add: books_ok_def)
  with ok show ?thesis
    by (simp add: apply_full_book_def Let_def books_ok_def)
qed

lemma books_ok_delta:
  assumes ok: "books_ok x p"
  shows "books_ok x (fst (apply_delta x e t s levels p))"
proof (cases "live_book p t")
  case None
  with ok show ?thesis by (simp add: apply_delta_def books_ok_def)
next
  case (Some b0)
  then have b0: "book_ok x b0"
    using ok books_ok_get by (auto simp: live_book_def split: if_splits)
  let ?b = "book_apply s levels (ev_source_observed_at e) b0"
  have "book_ok x ?b" if "is_some_and (\<lambda>tick. levels_tick_aligned x tick levels) (bk_tick_size b0)"
    "\<not> crossed_or_locked ?b"
    using that b0 by (auto simp: book_ok_def is_some_and_def book_wf_apply aligned_apply split: option.splits)
  with ok Some show ?thesis
    by (simp add: apply_delta_def Let_def books_ok_put) (simp add: books_ok_def)
qed

lemma books_ok_atomic_delta:
  assumes ok: "books_ok x p"
  shows "books_ok x (fst (apply_atomic_delta x e t cs bb ba p))"
proof (cases "if cs = [] then None else live_book p t")
  case None
  with ok show ?thesis by (simp add: apply_atomic_delta_def books_ok_def)
next
  case (Some b0)
  then have b0: "book_ok x b0"
    using ok books_ok_get by (auto simp: live_book_def split: if_splits)
  let ?b1 = "book_apply_batch cs (ev_source_observed_at e) b0"
  let ?b = "if bb \<noteq> None \<or> ba \<noteq> None
    then prune_to_bbo (source_expected_bid e bb) (source_expected_ask e ba) ?b1 else ?b1"
  have "book_ok x ?b"
    if "is_some_and (\<lambda>tick. list_all (\<lambda>c. levels_tick_aligned x tick (sl_levels c)) cs) (bk_tick_size b0)"
      "\<not> crossed_or_locked ?b"
  proof -
    from that(1) obtain t where "bk_tick_size b0 = Some t" "list_all (\<lambda>c. levels_tick_aligned x t (sl_levels c)) cs"
      by (auto simp: is_some_and_def split: option.splits)
    with b0 have "book_wf ?b1 \<and> book_aligned x ?b1"
      by (simp add: book_ok_def book_wf_apply_batch aligned_apply_batch)
    then have "book_wf ?b \<and> book_aligned x ?b" by (simp add: book_wf_prune aligned_prune)
    with that(2) show ?thesis by (simp add: book_ok_def)
  qed
  with ok have "books_ok x (put_book t ?b p)"
    if "is_some_and (\<lambda>tick. list_all (\<lambda>c. levels_tick_aligned x tick (sl_levels c)) cs) (bk_tick_size b0)"
      "\<not> crossed_or_locked ?b"
    using that by (intro books_ok_put)
  moreover have "books_ok x (fst (reject t why p))" for why
    using ok by (simp add: books_ok_def)
  ultimately show ?thesis
    using Some unfolding apply_atomic_delta_def Let_def
    by (simp only: option.case if_split_mem1 split: if_split) (auto simp del: reject_simps)
qed

lemma books_ok_best_bid_ask:
  assumes ok: "books_ok x p"
  shows "books_ok x (fst (apply_best_bid_ask e t bb ba p))"
proof (cases "live_book p t")
  case None
  with ok show ?thesis by (simp add: apply_best_bid_ask_def books_ok_def)
next
  case (Some b0)
  then have "book_ok x b0"
    using ok books_ok_get by (auto simp: live_book_def split: if_splits)
  then have "book_ok x (b0\<lparr> bk_source_observed_at := Some (ev_source_observed_at e) \<rparr>)"
    by simp
  with ok Some show ?thesis
    by (simp add: apply_best_bid_ask_def books_ok_put) (simp add: books_ok_def)
qed

lemma books_ok_last_trade:
  assumes ok: "books_ok x p" and step: "apply_last_trade x e t price p = Inr v"
  shows "books_ok x (fst v)"
proof (cases "live_book p t")
  case None
  with ok step show ?thesis by (auto simp: apply_last_trade_def books_ok_def)
next
  case (Some b0)
  then have "book_ok x b0"
    using ok books_ok_get by (auto simp: live_book_def split: if_splits)
  then have "book_ok x (b0\<lparr> bk_last_trade_price := Some price,
      bk_last_trade_observed_at := Some (ev_source_observed_at e) \<rparr>)"
    by simp
  then have "books_ok x (put_book t (b0\<lparr> bk_last_trade_price := Some price,
      bk_last_trade_observed_at := Some (ev_source_observed_at e) \<rparr>) p)"
    by (rule books_ok_put [OF ok])
  moreover have "books_ok x (fst (reject t why p))" for why
    using ok by (simp add: books_ok_def)
  ultimately show ?thesis
    using step Some by (auto simp: apply_last_trade_def split: sum.splits option.splits if_splits
        simp del: reject_simps)
qed

lemma books_ok_tick_size:
  assumes ok: "books_ok x p" and step: "apply_tick_size x e t old new version p = Inr v"
  shows "books_ok x (fst v)"
proof (cases "if version = [] then None else live_book p t")
  case None
  with ok step show ?thesis by (auto simp: apply_tick_size_def books_ok_def)
next
  case (Some b0)
  then have b0: "book_ok x b0"
    using ok books_ok_get by (auto simp: live_book_def split: if_splits)
  have "book_ok x (b0\<lparr> bk_tick_size := Some new, bk_tick_version := version \<rparr>)"
    if "all_aligned x (bt_keys (bk_bids b0) @ bt_keys (bk_asks b0)) new = Inr True"
    using b0 all_aligned_keys [OF that]
    by (auto simp: book_ok_def book_wf_def book_aligned_def crossed_or_locked_def)
  then have "books_ok x (put_book t (b0\<lparr> bk_tick_size := Some new, bk_tick_version := version \<rparr>) p)"
    if "all_aligned x (bt_keys (bk_bids b0) @ bt_keys (bk_asks b0)) new = Inr True"
    using that by (intro books_ok_put ok)
  moreover have "books_ok x (fst (reject t why p))" for why
    using ok by (simp add: books_ok_def)
  ultimately show ?thesis
    using step Some by (auto simp: apply_tick_size_def split: sum.splits if_splits simp del: reject_simps)
qed

lemma books_ok_remove_tokens: "books_ok x p \<Longrightarrow> books_ok x (p\<lparr> pj_books := fold bt_remove ts (pj_books p) \<rparr>)"
proof (induction ts arbitrary: p)
  case (Cons t ts)
  have "books_ok x (p\<lparr> pj_books := bt_remove t (pj_books p) \<rparr>)"
    using Cons.prems by (auto simp: books_ok_iff)
  from Cons.IH [OF this] show ?case by simp
qed simp

lemma apply_resolved_books:
  assumes "apply_resolved x e cid tok out p = Inr v"
  shows "\<exists>ts. pj_books (fst v) = fold bt_remove ts (pj_books p)"
proof (cases "pj_books (fst v) = pj_books p")
  case True
  then show ?thesis by (intro exI [of _ "[]"]) simp
next
  case False
  with assms show ?thesis
    by (auto simp: apply_resolved_def resolve_market_def add_gap_def accept_def reject_def Let_def
        split: option.splits if_splits)
qed

lemma books_ok_resolved:
  assumes ok: "books_ok x p" and step: "apply_resolved x e cid tok out p = Inr v"
  shows "books_ok x (fst v)"
proof -
  obtain ts where "pj_books (fst v) = pj_books (p\<lparr> pj_books := fold bt_remove ts (pj_books p) \<rparr>)"
    using apply_resolved_books [OF step] by auto
  from books_ok_cong [OF this] books_ok_remove_tokens [OF ok] show ?thesis by simp
qed

lemma books_ok_catalog:
  assumes ok: "books_ok x p"
  shows "books_ok x (fst (apply_catalog revision ms rs p))"
  using ok by (auto simp: apply_catalog_def accept_def reject_def books_ok_iff split: option.splits)

lemma books_ok_kind:
  assumes "books_ok x p" and "apply_kind x e k p = Inr v"
  shows "books_ok x (fst v)"
  using assms
  by (cases k)
    (auto simp: books_ok_full_book books_ok_delta books_ok_atomic_delta books_ok_best_bid_ask books_ok_catalog
      intro: books_ok_last_trade books_ok_tick_size books_ok_resolved,
     simp_all add: apply_new_market_def apply_source_gap_def add_gap_def reject_def books_ok_def)

lemma books_ok_decide:
  assumes ok: "books_ok x p" and "decide_event x en p e = Inr (e', q, a, r)"
  shows "books_ok x q"
proof (rule decide_eventE [OF assms(2)])
  fix why assume "(q, a, r) = reject (kind_token_id (ev_kind e)) why p"
  with ok show ?thesis by (simp add: reject_def books_ok_def)
next
  assume "(q, a, r) = accept p"
  with ok show ?thesis by (simp add: accept_def)
next
  assume "apply_kind x e' (ev_kind e') p = Inr (q, a, r)"
  from books_ok_kind [OF ok this] show ?thesis by simp
qed

lemma books_ok_step:
  assumes "books_ok x p" and "evaluate_event x vr vd en p e = Inr (q, r)"
  shows "books_ok x q"
proof (rule evaluate_eventE [OF assms(2)])
  fix e' p0 a rj m n pv
  assume d: "decide_event x en (open_event p e) e = Inr (e', p0, a, rj)"
    and f: "finish_event x m n pv e' (p0, a, rj) = Inr (q, r)"
  have "books_ok x (open_event p e)"
    using assms(1) by (simp add: books_ok_def)
  from books_ok_decide [OF this d] show ?thesis
    by (simp add: books_ok_cong [OF finish_event_frame(5) [OF f]])
qed

end
