(* ===== verification/Core_Replay.thy ===== *)
theory Core_Replay
  imports Core_Safety
begin

text \<open>
  Evaluating a persisted event again: the event that a step writes to the log, evaluated on
  the same projection, leads to the same projection and the same outcome. This is what makes
  the log a faithful input of recovery; it rests on the expansion of an atomic delta being
  idempotent.
\<close>

lemma incremental_superseded_persisted:
  assumes "decide_event x en p e = Inr (e', v)"
  shows "incremental_superseded q e' = incremental_superseded q e"
proof -
  obtain k where "e' = e\<lparr> ev_kind := k \<rparr>" "kind_token_id k = kind_token_id (ev_kind e)"
    "is_atomic_delta k = is_atomic_delta (ev_kind e)" "is_best_bid_ask k = is_best_bid_ask (ev_kind e)"
    using decide_event_persisted [OF assms] by blast
  then show ?thesis
    by (simp add: incremental_superseded_def delayed_superseded_def queued_superseded_def bbo_superseded_def
        event_book_def)
qed

lemma expand_event_idempotent: "expand_event en p (expand_event en p e) = expand_event en p e"
proof (cases "expand_event en p e = e")
  case False
  then obtain t cs bb ba b where k: "ev_kind e = AtomicDelta t cs bb ba" and b: "bt_get (pj_books p) t = Some b"
    and ee: "expand_event en p e
      = e\<lparr> ev_kind := AtomicDelta t (replay_complete_atomic_changes cs bb ba b) bb ba \<rparr>"
    and c: "\<not> se_missing (ev_source e)" "\<not> se_delayed (ev_source e) \<or> \<not> en"
      "\<not> incremental_superseded p e" "ev_normalizer_version e = normalizer_v2"
    by (auto simp: expand_event_def split: if_splits event_kind.splits option.splits)
  have "incremental_superseded p (expand_event en p e) = incremental_superseded p e"
    unfolding ee by (simp add: incremental_superseded_def delayed_superseded_def queued_superseded_def
        bbo_superseded_def event_book_def k)
  with c b show ?thesis
    unfolding ee by (subst expand_event_def) (simp add: expand_idempotent)
qed simp

lemma expand_event_stale:
  "se_missing (ev_source e) \<or> en \<and> se_delayed (ev_source e) \<or> incremental_superseded p e \<Longrightarrow> expand_event en p e = e"
  by (auto simp: expand_event_def)

lemma decide_event_again:
  assumes d: "decide_event x en p e = Inr (e', v)"
  shows "decide_event x en p e' = Inr (e', v)"
proof -
  obtain q a r where v: "v = (q, a, r)" by (cases v)
  have sup: "incremental_superseded p e' = incremental_superseded p e"
    by (rule incremental_superseded_persisted [OF d])
  have src: "ev_source e' = ev_source e" using decide_event_persisted [OF d] by auto
  show ?thesis
  proof (rule decide_eventE [OF d [unfolded v]])
    assume e': "e' = expand_event en p e"
      and "se_missing (ev_source e) \<or> en \<and> se_delayed (ev_source e) \<and> \<not> incremental_superseded p e"
    then have "e' = e" by (auto simp: expand_event_stale)
    with d show ?thesis by simp
  next
    assume e': "e' = (expand_event en p e)\<lparr> ev_kind := clear_changes (ev_kind (expand_event en p e)) \<rparr>"
      and v': "(q, a, r) = accept p" and s: "incremental_superseded p e" "\<not> se_missing (ev_source e)"
    have "expand_event en p e' = e'" using s sup by (intro expand_event_stale) simp
    with s sup src e' v v' show ?thesis
      by (simp add: decide_event_def Let_def expand_event_stale)
  next
    assume e': "e' = expand_event en p e" and k: "apply_kind x e' (ev_kind e') p = Inr (q, a, r)"
      and s: "\<not> incremental_superseded p e" "\<not> se_missing (ev_source e)" "\<not> (en \<and> se_delayed (ev_source e))"
    have "expand_event en p e' = e'" by (simp add: e' expand_event_idempotent)
    with s sup src k v show ?thesis by (auto simp: decide_event_def Let_def)
  qed
qed

lemma event_guard_persisted:
  assumes "decide_event x en p e = Inr (e', v)"
  shows "event_guard x vr vd q e' = event_guard x vr vd q e"
proof -
  obtain k where "e' = e\<lparr> ev_kind := k \<rparr>"
    using decide_event_persisted [OF assms] by blast
  then show ?thesis by (cases e) (simp only: event_guard_def evidence_invalid_def canonical_event.simps)
qed

lemma open_event_persisted:
  assumes "decide_event x en p e = Inr (e', v)"
  shows "open_event q e' = open_event q e" and "event_market_id q (ev_kind e') = event_market_id q (ev_kind e)"
proof -
  obtain k where e': "e' = e\<lparr> ev_kind := k \<rparr>" and k: "\<And>q. event_market_id q k = event_market_id q (ev_kind e)"
    using decide_event_persisted [OF assms] by blast
  show "event_market_id q (ev_kind e') = event_market_id q (ev_kind e)" by (simp add: e' k)
  show "open_event q e' = open_event q e"
    unfolding open_event_def Let_def e' k by (simp only: canonical_event.simps k split: option.split) (simp add: k)
qed

text \<open>The outcome of a step, fed back into the same projection, is reproduced.\<close>

lemma evaluate_event_again:
  assumes step: "evaluate_event x vr vd en p e = Inr (q, r)"
  shows "evaluate_event x vr vd en p (pe_event r) = Inr (q, r)"
proof (rule evaluate_eventE [OF step])
  fix e' p0 a rj m n pv
  assume g: "event_guard x vr vd p e = None"
    and m: "m = event_market_id (open_event p e) (ev_kind e)"
    and n: "n = (case m of None \<Rightarrow> 0 | Some i \<Rightarrow> next_market_sequence (open_event p e) i)"
    and pv: "pv = (case m of None \<Rightarrow> None
       | Some i \<Rightarrow> map_option mh_projection_status (bt_get (pj_market_health (open_event p e)) i))"
    and d: "decide_event x en (open_event p e) e = Inr (e', p0, a, rj)"
    and f: "finish_event x m n pv e' (p0, a, rj) = Inr (q, r)"
  have r: "pe_event r = e'" by (rule finish_event_frame(12) [OF f])
  have d': "decide_event x en (open_event p e') e' = Inr (e', p0, a, rj)"
    unfolding open_event_persisted(1) [OF d] by (rule decide_event_again [OF d])
  show ?thesis
    unfolding r evaluate_event_def Let_def event_guard_persisted [OF d] g option.case d' sum.case prod.case
    unfolding open_event_persisted(1) [OF d] open_event_persisted(2) [OF d] m [symmetric] n [symmetric] pv [symmetric]
    by (rule f)
qed

text \<open>The guards on the raw payload and on duplicates play no part in what a step computes.\<close>

lemma evaluate_event_flags:
  assumes "evaluate_event x vr vd en p e = Inr (q, r)" and "event_guard x vr' vd' p e = None"
  shows "evaluate_event x vr' vd' en p e = Inr (q, r)"
  using assms by (simp add: evaluate_event_def split: option.splits)

section \<open>Best prices of an accepted atomic delta\<close>

lemma apply_atomic_delta_quotes:
  assumes "apply_atomic_delta x e t cs bb ba p = (q, True, r)" and "bb \<noteq> None \<or> ba \<noteq> None"
  shows "\<exists>b. bt_get (pj_books q) t = Some b \<and> best_bid_of b = source_expected_bid e bb
     \<and> best_ask_of b = source_expected_ask e ba"
  using assms
  by (auto simp: apply_atomic_delta_def Let_def accept_def reject_def put_book_def
      split: option.splits if_splits)

end
