(* ===== verification/Core_Writer.thy ===== *)
theory Core_Writer
  imports Core_Replay Core_Total
begin

text \<open>
  The single writer of \<open>marketcow-core\<close> (\<open>SingleWriter\<close>): validate against a candidate,
  append durably, publish. The log is any implementation of \<open>DurableLog\<close>; it enters as the
  append function, and the contract the writer relies on is the locale \<open>durable_log\<close>. Times
  of persistence and publication are measurements and are left out of the outcome.
\<close>

section \<open>The log interface\<close>

type_synonym 'l append = "persisted_event \<Rightarrow> 'l \<Rightarrow> core_error option \<times> 'l"
type_synonym 'l append_all = "persisted_event list \<Rightarrow> 'l \<Rightarrow> core_error option \<times> 'l"

text \<open>The default method of the trait: one append per outcome, stopping at the first error.\<close>

fun append_each :: "'l append \<Rightarrow> 'l append_all" where
  "append_each append_outcome [] log = (None, log)"
| "append_each append_outcome (r # rs) log =
     (case append_outcome r log of
        (Some err, log') \<Rightarrow> (Some err, log')
      | (None, log') \<Rightarrow> append_each append_outcome rs log')"

section \<open>The writer\<close>

record 'l writer =
  wr_current :: projection
  wr_recent_event_index :: "string set"
  wr_log :: 'l
  wr_enforce_source_freshness :: bool

definition writer_new :: "string \<Rightarrow> 'l \<Rightarrow> 'l writer" where
  "writer_new scope_id log = \<lparr> wr_current = bootstrap scope_id, wr_recent_event_index = {},
     wr_log = log, wr_enforce_source_freshness = True \<rparr>"

definition writer_new_data_delivery :: "string \<Rightarrow> 'l \<Rightarrow> 'l writer" where
  "writer_new_data_delivery scope_id log = \<lparr> wr_current = bootstrap scope_id, wr_recent_event_index = {},
     wr_log = log, wr_enforce_source_freshness = False \<rparr>"

definition writer_resume :: "projection \<Rightarrow> 'l \<Rightarrow> core_error + 'l writer" where
  "writer_resume p log =
     (if pj_cursor p \<noteq> pj_persisted_cursor p then Inl PersistedWatermarkMismatch
      else let q = snd (prune_stale_scope_gaps p)
           in Inr \<lparr> wr_current = q, wr_recent_event_index = set (pj_recent_event_ids q),
                wr_log = log, wr_enforce_source_freshness = True \<rparr>)"

definition apply_inner ::
  "ext \<Rightarrow> 'l append \<Rightarrow> bool \<Rightarrow> 'l writer \<Rightarrow> canonical_event
     \<Rightarrow> (core_error + (projection \<times> persisted_event)) \<times> 'l writer" where
  "apply_inner x append_outcome validate_raw_payload w e =
     (if ev_event_id e \<in> wr_recent_event_index w then (Inl (DuplicateEvent (ev_event_id e)), w)
      else
        let previous = wr_current w;
            evicted = (if length (pj_recent_event_ids previous) = recent_window
                       then {hd (pj_recent_event_ids previous)} else {})
        in case evaluate_event x validate_raw_payload False (wr_enforce_source_freshness w) previous e of
             Inl err \<Rightarrow> (Inl err, w)
           | Inr (next_projection, persisted) \<Rightarrow>
               (case append_outcome persisted (wr_log w) of
                  (Some err, log) \<Rightarrow> (Inl err, w\<lparr> wr_log := log \<rparr>)
                | (None, log) \<Rightarrow>
                    (Inr (next_projection, persisted), w\<lparr>
                       wr_current := next_projection,
                       wr_recent_event_index :=
                         insert (ev_event_id (pe_event persisted)) (wr_recent_event_index w - evicted),
                       wr_log := log \<rparr>)))"

definition apply_event ::
  "ext \<Rightarrow> 'l append \<Rightarrow> 'l writer \<Rightarrow> canonical_event
     \<Rightarrow> (core_error + (projection \<times> persisted_event)) \<times> 'l writer" where
  "apply_event x append_outcome w e = apply_inner x append_outcome True w e"

section \<open>Batches\<close>

definition frame_evidence_ok :: "ext \<Rightarrow> canonical_event list \<Rightarrow> bool" where
  "frame_evidence_ok x events =
     (let frame_raw_payload = ev_raw_payload (hd events);
          frame_raw_sha256 = sha_json x frame_raw_payload
      in list_all (\<lambda>e. ev_raw_payload e = frame_raw_payload
           \<and> eq_ignore_ascii_case (se_raw_sha256 (ev_source e)) frame_raw_sha256) events)"

fun first_duplicate :: "string set \<Rightarrow> canonical_event list \<Rightarrow> string option" where
  "first_duplicate ids [] = None"
| "first_duplicate ids (e # es) =
     (if ev_event_id e \<in> ids then Some (ev_event_id e) else first_duplicate (insert (ev_event_id e) ids) es)"

fun evaluate_all ::
  "ext \<Rightarrow> bool \<Rightarrow> projection \<Rightarrow> canonical_event list \<Rightarrow> core_error + (projection \<times> persisted_event list)" where
  "evaluate_all x enforce p [] = Inr (p, [])"
| "evaluate_all x enforce p (e # es) =
     (case evaluate_event x False False enforce p e of
        Inl err \<Rightarrow> Inl err
      | Inr (q, r) \<Rightarrow>
          (case evaluate_all x enforce q es of
             Inl err \<Rightarrow> Inl err
           | Inr (q', rs) \<Rightarrow> Inr (q', r # rs)))"

definition apply_batch ::
  "ext \<Rightarrow> 'l append_all \<Rightarrow> 'l writer \<Rightarrow> canonical_event list
     \<Rightarrow> (core_error + (projection \<times> persisted_event list)) \<times> 'l writer" where
  "apply_batch x append_outcomes w events =
     (if events = [] then (Inr (wr_current w, []), w)
      else if \<not> frame_evidence_ok x events then (Inl InvalidSourceEvidence, w)
      else case first_duplicate (wr_recent_event_index w) events of
        Some i \<Rightarrow> (Inl (DuplicateEvent i), w)
      | None \<Rightarrow>
          (case evaluate_all x (wr_enforce_source_freshness w) (wr_current w) events of
             Inl err \<Rightarrow> (Inl err, w)
           | Inr (final_projection, persisted) \<Rightarrow>
               (case append_outcomes persisted (wr_log w) of
                  (Some err, log) \<Rightarrow> (Inl err, w\<lparr> wr_log := log \<rparr>)
                | (None, log) \<Rightarrow>
                    (Inr (final_projection, persisted), w\<lparr>
                       wr_current := final_projection,
                       wr_recent_event_index := set (pj_recent_event_ids final_projection),
                       wr_log := log \<rparr>))))"

section \<open>Replay\<close>

text \<open>\<open>ReplayLog\<close>: every append succeeds and keeps nothing.\<close>

definition replay_log_append :: "unit append" where
  "replay_log_append r log = (None, log)"

fun replay_loop :: "ext \<Rightarrow> unit writer \<Rightarrow> persisted_event list \<Rightarrow> core_error + unit writer" where
  "replay_loop x w [] = Inr w"
| "replay_loop x w (persisted # rs) =
     (case apply_event x replay_log_append w (pe_event persisted) of
        (Inl err, w') \<Rightarrow> Inl err
      | (Inr (p, replayed), w') \<Rightarrow>
          if pe_applied replayed \<noteq> pe_applied persisted
             \<or> pe_fail_closed_reason replayed \<noteq> pe_fail_closed_reason persisted
             \<or> pe_market persisted \<noteq> None \<and> pe_market replayed \<noteq> pe_market persisted
          then Inl (ReplayDivergence (ev_cursor (pe_event persisted)))
          else replay_loop x w' rs)"

definition replay_after_checkpoint ::
  "ext \<Rightarrow> projection \<Rightarrow> persisted_event list \<Rightarrow> core_error + projection" where
  "replay_after_checkpoint x checkpoint records =
     (case writer_resume checkpoint () of
        Inl err \<Rightarrow> Inl err
      | Inr w \<Rightarrow>
          (case replay_loop x w (filter (\<lambda>r. ev_cursor (pe_event r) > pj_cursor checkpoint) records) of
             Inl err \<Rightarrow> Inl err
           | Inr w' \<Rightarrow> Inr (wr_current w')))"

section \<open>Failures publish nothing\<close>

lemma apply_inner_failure:
  assumes "apply_inner x ap vr w e = (Inl err, w')"
  shows "wr_current w' = wr_current w" "wr_recent_event_index w' = wr_recent_event_index w"
    "wr_enforce_source_freshness w' = wr_enforce_source_freshness w"
  using assms by (auto simp: apply_inner_def Let_def split: if_splits sum.splits prod.splits option.splits)

lemma apply_batch_failure:
  assumes "apply_batch x apa w es = (Inl err, w')"
  shows "wr_current w' = wr_current w" "wr_recent_event_index w' = wr_recent_event_index w"
    "wr_enforce_source_freshness w' = wr_enforce_source_freshness w"
  using assms by (auto simp: apply_batch_def Let_def split: if_splits sum.splits prod.splits option.splits)

text \<open>A successful operation, with what it evaluated and appended.\<close>

lemma apply_innerE:
  assumes "apply_inner x ap vr w e = (Inr (q, r), w')"
  obtains log' where "ev_event_id e \<notin> wr_recent_event_index w"
    "evaluate_event x vr False (wr_enforce_source_freshness w) (wr_current w) e = Inr (q, r)"
    "ap r (wr_log w) = (None, log')"
    "w' = w\<lparr> wr_current := q, wr_recent_event_index := insert (ev_event_id (pe_event r))
       (wr_recent_event_index w - (if length (pj_recent_event_ids (wr_current w)) = recent_window
          then {hd (pj_recent_event_ids (wr_current w))} else {})), wr_log := log' \<rparr>"
  using assms by (auto simp: apply_inner_def Let_def split: if_splits sum.splits prod.splits option.splits)

lemma apply_batchE:
  assumes "apply_batch x apa w es = (Inr (q, rs), w')" and "es \<noteq> []"
  obtains log' where "frame_evidence_ok x es" "first_duplicate (wr_recent_event_index w) es = None"
    "evaluate_all x (wr_enforce_source_freshness w) (wr_current w) es = Inr (q, rs)"
    "apa rs (wr_log w) = (None, log')"
    "w' = w\<lparr> wr_current := q, wr_recent_event_index := set (pj_recent_event_ids q), wr_log := log' \<rparr>"
  using assms by (auto simp: apply_batch_def Let_def split: if_splits sum.splits prod.splits option.splits)

section \<open>The duplicate index\<close>

definition push_recent :: "string list \<Rightarrow> string \<Rightarrow> string list" where
  "push_recent ids i = (if length (ids @ [i]) > recent_window then tl (ids @ [i]) else ids @ [i])"

text \<open>What one step does to the bookkeeping of the projection.\<close>

lemma evaluate_event_bookkeeping:
  assumes "evaluate_event x vr vd en p e = Inr (q, r)"
  shows "pj_recent_event_ids q = push_recent (pj_recent_event_ids p) (ev_event_id e)"
    and "pj_cursor q = pj_cursor p + 1" "pj_persisted_cursor q = pj_cursor p + 1"
    and "ev_cursor (pe_event r) = pj_cursor p + 1" "ev_event_id (pe_event r) = ev_event_id e"
    and "pj_generation q = pj_generation p + 1" "pj_scope_id q = pj_scope_id p"
    and "ev_raw_payload (pe_event r) = ev_raw_payload e" "ev_source (pe_event r) = ev_source e"
proof -
  have "pj_recent_event_ids q = push_recent (pj_recent_event_ids p) (ev_event_id e)
    \<and> pj_cursor q = pj_cursor p + 1 \<and> pj_persisted_cursor q = pj_cursor p + 1
    \<and> ev_cursor (pe_event r) = pj_cursor p + 1 \<and> ev_event_id (pe_event r) = ev_event_id e
    \<and> pj_generation q = pj_generation p + 1 \<and> pj_scope_id q = pj_scope_id p
    \<and> ev_raw_payload (pe_event r) = ev_raw_payload e \<and> ev_source (pe_event r) = ev_source e"
  proof (rule evaluate_eventE [OF assms])
    fix e' p0 a rj m n pv
    assume g: "event_guard x vr vd p e = None"
      and d: "decide_event x en (open_event p e) e = Inr (e', p0, a, rj)"
      and f: "finish_event x m n pv e' (p0, a, rj) = Inr (q, r)"
    have "ev_cursor e = pj_cursor p + 1" using g by (auto simp: event_guard_def split: if_splits)
    then show ?thesis
      using decide_event_persisted [OF d]
      by (auto simp: finish_event_frame [OF f] decide_event_frame [OF d] push_recent_def Let_def)
  qed
  then show "pj_recent_event_ids q = push_recent (pj_recent_event_ids p) (ev_event_id e)"
    "pj_cursor q = pj_cursor p + 1" "pj_persisted_cursor q = pj_cursor p + 1"
    "ev_cursor (pe_event r) = pj_cursor p + 1" "ev_event_id (pe_event r) = ev_event_id e"
    "pj_generation q = pj_generation p + 1" "pj_scope_id q = pj_scope_id p"
    "ev_raw_payload (pe_event r) = ev_raw_payload e" "ev_source (pe_event r) = ev_source e" by blast+
qed

text \<open>The index is the set of the window's ids, which are distinct and at most 10,000.\<close>

definition window_ok :: "string list \<Rightarrow> bool" where
  "window_ok ids = (distinct ids \<and> length ids \<le> recent_window)"

definition writer_ok :: "'l writer \<Rightarrow> bool" where
  "writer_ok w = (window_ok (pj_recent_event_ids (wr_current w))
     \<and> wr_recent_event_index w = set (pj_recent_event_ids (wr_current w)))"

lemma window_ok_push:
  assumes "window_ok ids" and "i \<notin> set ids"
  shows "window_ok (push_recent ids i)"
    and "set (push_recent ids i) = insert i (set ids - (if length ids = recent_window then {hd ids} else {}))"
proof -
  have w: "0 < recent_window" by (simp add: recent_window_def)
  show "window_ok (push_recent ids i)"
    using assms w by (cases ids) (auto simp: window_ok_def push_recent_def)
  show "set (push_recent ids i) = insert i (set ids - (if length ids = recent_window then {hd ids} else {}))"
    using assms w by (cases ids) (auto simp: window_ok_def push_recent_def)
qed

lemma window_ok_batch:
  assumes "evaluate_all x en p es = Inr (q, rs)" and "window_ok (pj_recent_event_ids p)"
    and "first_duplicate ids es = None" and "set (pj_recent_event_ids p) \<subseteq> ids"
  shows "window_ok (pj_recent_event_ids q)"
  using assms
proof (induction es arbitrary: p rs ids)
  case (Cons e es)
  then obtain p1 r rs' where ev: "evaluate_event x False False en p e = Inr (p1, r)"
    "evaluate_all x en p1 es = Inr (q, rs')"
    by (auto split: sum.splits prod.splits)
  have new: "ev_event_id e \<notin> ids" "first_duplicate (insert (ev_event_id e) ids) es = None"
    using Cons.prems(3) by (auto split: if_splits)
  note b = evaluate_event_bookkeeping(1) [OF ev(1)]
  have "ev_event_id e \<notin> set (pj_recent_event_ids p)" using new Cons.prems(4) by blast
  note push = window_ok_push [OF Cons.prems(2) this]
  show ?case
    by (rule Cons.IH [OF ev(2) _ new(2)]) (use push Cons.prems(4) in \<open>auto simp: b\<close>)
qed simp

lemma writer_ok_apply:
  assumes "writer_ok w" and "apply_inner x ap vr w e = (res, w')"
  shows "writer_ok w'"
proof (cases res)
  case (Inl err)
  from apply_inner_failure [OF assms(2) [unfolded this]] assms(1) show ?thesis by (simp add: writer_ok_def)
next
  case (Inr v)
  obtain q r where v: "v = (q, r)" by (cases v)
  from assms(2) [unfolded Inr v] show ?thesis
  proof (rule apply_innerE)
    fix log' assume new: "ev_event_id e \<notin> wr_recent_event_index w"
      and ev: "evaluate_event x vr False (wr_enforce_source_freshness w) (wr_current w) e = Inr (q, r)"
      and w': "w' = w\<lparr> wr_current := q, wr_recent_event_index := insert (ev_event_id (pe_event r))
       (wr_recent_event_index w - (if length (pj_recent_event_ids (wr_current w)) = recent_window
          then {hd (pj_recent_event_ids (wr_current w))} else {})), wr_log := log' \<rparr>"
    note b = evaluate_event_bookkeeping [OF ev]
    from assms(1) new have "window_ok (pj_recent_event_ids (wr_current w))"
      "ev_event_id e \<notin> set (pj_recent_event_ids (wr_current w))" by (auto simp: writer_ok_def)
    from window_ok_push [OF this] assms(1) show ?thesis by (simp add: w' writer_ok_def b)
  qed
qed

lemma writer_ok_batch:
  assumes ok: "writer_ok w" and step: "apply_batch x apa w es = (res, w')"
  shows "writer_ok w'"
proof (cases res)
  case (Inl err)
  from apply_batch_failure [OF step [unfolded this]] ok show ?thesis by (simp add: writer_ok_def)
next
  case (Inr v)
  obtain q rs where v: "v = (q, rs)" by (cases v)
  show ?thesis
  proof (cases "es = []")
    case True
    with step ok show ?thesis by (simp add: apply_batch_def)
  next
    case False
    from step [unfolded Inr v] False show ?thesis
    proof (rule apply_batchE)
      fix log' assume "first_duplicate (wr_recent_event_index w) es = None"
        and "evaluate_all x (wr_enforce_source_freshness w) (wr_current w) es = Inr (q, rs)"
        and "w' = w\<lparr> wr_current := q, wr_recent_event_index := set (pj_recent_event_ids q), wr_log := log' \<rparr>"
      with ok show ?thesis by (auto simp: writer_ok_def intro: window_ok_batch)
    qed
  qed
qed

lemma prune_recent [simp]: "pj_recent_event_ids (snd (prune_stale_scope_gaps p)) = pj_recent_event_ids p"
  by (simp add: prune_stale_scope_gaps_def Let_def)

lemma writer_ok_resume: "writer_resume p log = Inr w \<Longrightarrow> window_ok (pj_recent_event_ids p) \<Longrightarrow> writer_ok w"
  by (auto simp: writer_resume_def writer_ok_def Let_def split: if_splits)

text \<open>So the index test is the window scan it replaces.\<close>

lemma index_is_window_scan:
  assumes "writer_ok w"
  shows "ev_event_id e \<in> wr_recent_event_index w \<longleftrightarrow> ev_event_id e \<in> set (pj_recent_event_ids (wr_current w))"
  using assms by (simp add: writer_ok_def)

section \<open>Runs of the writer and their replay\<close>

text \<open>The successful operations of a writer, with the outcomes they append.\<close>

inductive writes :: "ext \<Rightarrow> 'l append \<Rightarrow> 'l append_all \<Rightarrow> 'l writer \<Rightarrow> persisted_event list \<Rightarrow> 'l writer \<Rightarrow> bool"
  for x ap apa where
  nothing: "writes x ap apa w [] w"
| single: "writes x ap apa w rs w' \<Longrightarrow> apply_event x ap w' e = (Inr (q, r), w'') \<Longrightarrow> writes x ap apa w (rs @ [r]) w''"
| batch: "writes x ap apa w rs w' \<Longrightarrow> apply_batch x apa w' es = (Inr (q, rs'), w'')
    \<Longrightarrow> writes x ap apa w (rs @ rs') w''"

inductive_cases writesE: "writes x ap apa w rs w'"

text \<open>The log of a run, step by step: every outcome reproduces itself, with the raw payload checked.\<close>

fun reproduces :: "ext \<Rightarrow> projection \<Rightarrow> persisted_event list \<Rightarrow> projection \<Rightarrow> bool" where
  "reproduces x p [] q = (p = q)"
| "reproduces x p (r # rs) q =
     (case evaluate_event x True False True p (pe_event r) of
        Inl err \<Rightarrow> False
      | Inr (p', r') \<Rightarrow> r' = r \<and> ev_event_id (pe_event r) \<notin> set (pj_recent_event_ids p) \<and> reproduces x p' rs q)"

lemma reproduces_append:
  "reproduces x p (rs @ rs') q \<longleftrightarrow> (\<exists>m. reproduces x p rs m \<and> reproduces x m rs' q)"
  by (induction rs arbitrary: p) (auto split: sum.splits prod.splits)

lemma guard_raw_payload:
  assumes "event_guard x False False p e = None"
    and "sha_json x (ev_raw_payload e) = to_ascii_lowercase (se_raw_sha256 (ev_source e))"
  shows "event_guard x True False p e = None"
  using assms by (auto simp: event_guard_def evidence_invalid_def split: if_splits)

lemma evaluate_all_reproduces:
  assumes "evaluate_all x True p es = Inr (q, rs)" and "first_duplicate ids es = None"
    and "set (pj_recent_event_ids p) \<subseteq> ids"
    and "\<forall>e \<in> set es. sha_json x (ev_raw_payload e) = to_ascii_lowercase (se_raw_sha256 (ev_source e))"
  shows "reproduces x p rs q"
  using assms
proof (induction es arbitrary: p rs ids)
  case (Cons e es)
  then obtain p1 r rs' where ev: "evaluate_event x False False True p e = Inr (p1, r)"
    and rest: "evaluate_all x True p1 es = Inr (q, rs')" and rs: "rs = r # rs'"
    by (auto split: sum.splits prod.splits)
  have new: "ev_event_id e \<notin> ids" "first_duplicate (insert (ev_event_id e) ids) es = None"
    using Cons.prems(2) by (auto split: if_splits)
  note b = evaluate_event_bookkeeping [OF ev]
  from ev have g: "event_guard x False False p e = None" by (auto elim: evaluate_eventE)
  have "evaluate_event x True False True p e = Inr (p1, r)"
    by (rule evaluate_event_flags [OF ev guard_raw_payload [OF g]]) (use Cons.prems(4) in simp)
  note again = evaluate_event_again [OF this]
  have "reproduces x p1 rs' q"
  proof (rule Cons.IH [OF rest new(2)])
    have "set (push_recent ids' i) \<subseteq> insert i (set ids')" for ids' i
      by (cases ids') (auto simp: push_recent_def)
    then show "set (pj_recent_event_ids p1) \<subseteq> insert (ev_event_id e) ids"
      using Cons.prems(3) by (auto simp: b(1))
  qed (use Cons.prems(4) in simp)
  moreover have "ev_event_id (pe_event r) \<notin> set (pj_recent_event_ids p)"
    using new Cons.prems(3) by (auto simp: b(5))
  ultimately show ?case by (simp add: rs again)
qed simp

lemma writes_reproduces:
  assumes "writes x ap apa w rs w'" and "writer_ok w" "wr_enforce_source_freshness w"
    and hex: "\<And>v. to_ascii_lowercase (sha_json x v) = sha_json x v"
  shows "reproduces x (wr_current w) rs (wr_current w') \<and> writer_ok w' \<and> wr_enforce_source_freshness w'"
  using assms(1-3)
proof (induction rule: writes.induct)
  case (single w rs w' e q r w'')
  then have ok: "writer_ok w'" and en: "wr_enforce_source_freshness w'"
    and rep: "reproduces x (wr_current w) rs (wr_current w')" by auto
  note st = single.hyps(2) [unfolded apply_event_def]
  have "writer_ok w''" by (rule writer_ok_apply [OF ok st])
  moreover have "reproduces x (wr_current w') [r] (wr_current w'') \<and> wr_enforce_source_freshness w''"
  proof (rule apply_innerE [OF st])
    fix log' assume "ev_event_id e \<notin> wr_recent_event_index w'"
      and ev: "evaluate_event x True False (wr_enforce_source_freshness w') (wr_current w') e = Inr (q, r)"
      and "w'' = w'\<lparr> wr_current := q, wr_recent_event_index := insert (ev_event_id (pe_event r))
       (wr_recent_event_index w' - (if length (pj_recent_event_ids (wr_current w')) = recent_window
          then {hd (pj_recent_event_ids (wr_current w'))} else {})), wr_log := log' \<rparr>"
    with en ok evaluate_event_again [OF ev] evaluate_event_bookkeeping [OF ev] show ?thesis
      by (simp add: writer_ok_def)
  qed
  ultimately show ?case using rep by (auto simp: reproduces_append)
next
  case (batch w rs w' es q rs' w'')
  then have ok: "writer_ok w'" and en: "wr_enforce_source_freshness w'"
    and rep: "reproduces x (wr_current w) rs (wr_current w')" by auto
  have "writer_ok w''" by (rule writer_ok_batch [OF ok batch.hyps(2)])
  moreover have "reproduces x (wr_current w') rs' (wr_current w'') \<and> wr_enforce_source_freshness w''"
  proof (cases "es = []")
    case True
    with batch.hyps(2) en show ?thesis by (auto simp: apply_batch_def)
  next
    case False
    from batch.hyps(2) False show ?thesis
    proof (rule apply_batchE)
      fix log' assume fr: "frame_evidence_ok x es" and dup: "first_duplicate (wr_recent_event_index w') es = None"
        and ev: "evaluate_all x (wr_enforce_source_freshness w') (wr_current w') es = Inr (q, rs')"
        and w'': "w'' = w'\<lparr> wr_current := q, wr_recent_event_index := set (pj_recent_event_ids q), wr_log := log' \<rparr>"
      have "\<forall>e \<in> set es. sha_json x (ev_raw_payload e) = to_ascii_lowercase (se_raw_sha256 (ev_source e))"
        using fr hex by (auto simp: frame_evidence_ok_def Let_def list_all_iff eq_ignore_ascii_case_def)
      then have "reproduces x (wr_current w') rs' q"
        using ok by (intro evaluate_all_reproduces [OF ev [unfolded eqTrueI [OF en]] dup]) (simp add: writer_ok_def)
      with en show ?thesis by (simp add: w'')
    qed
  qed
  ultimately show ?case using rep by (auto simp: reproduces_append)
qed simp

lemma replay_loop_reproduces:
  assumes "reproduces x (wr_current w) rs q" and "writer_ok w" "wr_enforce_source_freshness w"
  shows "\<exists>w'. replay_loop x w rs = Inr w' \<and> wr_current w' = q"
  using assms
proof (induction rs arbitrary: w)
  case (Cons r rs)
  then obtain p' where ev: "evaluate_event x True False True (wr_current w) (pe_event r) = Inr (p', r)"
    and new: "ev_event_id (pe_event r) \<notin> set (pj_recent_event_ids (wr_current w))" and rest: "reproduces x p' rs q"
    by (auto split: sum.splits prod.splits)
  obtain w1 where ap: "apply_event x replay_log_append w (pe_event r) = (Inr (p', r), w1)"
    and w1: "wr_current w1 = p'" "wr_enforce_source_freshness w1"
    using ev new Cons.prems(2,3) by (simp add: apply_event_def apply_inner_def Let_def replay_log_append_def writer_ok_def)
  have "writer_ok w1" by (rule writer_ok_apply [OF Cons.prems(2) ap [unfolded apply_event_def]])
  with Cons.IH [of w1] rest w1 ap show ?case by simp
qed simp

lemma word_step_less:
  fixes c :: u64
  assumes "unat c + Suc n < 2 ^ 64"
  shows "unat (c + 1) = Suc (unat c)"
proof (rule unat_add1)
  have "unat (- 1 :: u64) = 2 ^ 64 - 1" by (simp add: unsigned_minus_1_eq_mask mask_eq_exp_minus_1)
  with assms show "c \<noteq> - 1" by auto
qed

lemma reproduces_cursors:
  assumes "reproduces x p rs q" and "unat (pj_cursor p) + length rs < 2 ^ 64" and "r \<in> set rs"
  shows "unat (pj_cursor p) < unat (ev_cursor (pe_event r))"
  using assms
proof (induction rs arbitrary: p)
  case (Cons r' rs)
  then obtain p' where ev: "evaluate_event x True False True p (pe_event r') = Inr (p', r')"
    and rest: "reproduces x p' rs q" by (auto split: sum.splits prod.splits)
  note b = evaluate_event_bookkeeping [OF ev]
  have u: "unat (pj_cursor p + 1) = Suc (unat (pj_cursor p))"
    by (rule word_step_less [where n = "length rs"]) (use Cons.prems(2) in simp)
  show ?case
  proof (cases "r = r'")
    case True
    with b(4) u show ?thesis by simp
  next
    case False
    with Cons.IH [OF rest] Cons.prems(2,3) b(2) u show ?thesis by simp
  qed
qed simp

lemma replay_of_run:
  assumes run: "writes x ap apa w rs w'" and w: "writer_ok w" "wr_enforce_source_freshness w"
    and hex: "\<And>v. to_ascii_lowercase (sha_json x v) = sha_json x v"
    and cp: "pj_cursor (wr_current w) = pj_persisted_cursor (wr_current w)"
      "snd (prune_stale_scope_gaps (wr_current w)) = wr_current w"
    and room: "unat (pj_cursor (wr_current w)) + length rs < 2 ^ 64"
  shows "replay_after_checkpoint x (wr_current w) rs = Inr (wr_current w')"
proof -
  have rep: "reproduces x (wr_current w) rs (wr_current w')"
    using writes_reproduces [OF run w hex] by blast
  have all: "filter (\<lambda>r. ev_cursor (pe_event r) > pj_cursor (wr_current w)) rs = rs"
    using reproduces_cursors [OF rep room] by (simp add: word_less_nat_alt)
  let ?w0 = "\<lparr> wr_current = wr_current w, wr_recent_event_index = set (pj_recent_event_ids (wr_current w)),
    wr_log = (), wr_enforce_source_freshness = True \<rparr>"
  have r0: "writer_resume (wr_current w) () = Inr ?w0"
    by (simp add: writer_resume_def cp Let_def)
  obtain w1 where "replay_loop x ?w0 rs = Inr w1" "wr_current w1 = wr_current w'"
    using replay_loop_reproduces [of x ?w0 rs] rep w(1) by (auto simp: writer_ok_def)
  then show ?thesis by (simp add: replay_after_checkpoint_def r0 all)
qed

section \<open>Cursors of a run\<close>

abbreviation outcome_cursor :: "persisted_event \<Rightarrow> u64" where
  "outcome_cursor r \<equiv> ev_cursor (pe_event r)"

lemma evaluate_all_cursors:
  assumes "evaluate_all x en p es = Inr (q, rs)" and "es \<noteq> []"
  shows "rs \<noteq> []" "outcome_cursor (hd rs) = pj_cursor p + 1" "outcome_cursor (last rs) = pj_cursor q"
    "pj_cursor q = pj_cursor p + of_nat (length rs)"
proof -
  have "rs \<noteq> [] \<and> outcome_cursor (hd rs) = pj_cursor p + 1 \<and> outcome_cursor (last rs) = pj_cursor q
    \<and> pj_cursor q = pj_cursor p + of_nat (length rs)"
    using assms
  proof (induction es arbitrary: p rs)
    case (Cons e es)
    then obtain p1 r rs' where ev: "evaluate_event x False False en p e = Inr (p1, r)"
      and rest: "evaluate_all x en p1 es = Inr (q, rs')" and rs: "rs = r # rs'"
      by (auto split: sum.splits prod.splits)
    note b = evaluate_event_bookkeeping [OF ev]
    show ?case
    proof (cases "es = []")
      case True
      with rest rs b show ?thesis by simp
    next
      case False
      from Cons.IH [OF rest False] rs b show ?thesis by simp
    qed
  qed simp
  then show "rs \<noteq> []" "outcome_cursor (hd rs) = pj_cursor p + 1" "outcome_cursor (last rs) = pj_cursor q"
    "pj_cursor q = pj_cursor p + of_nat (length rs)" by blast+
qed

lemma unat_plus_of_nat: "unat (c :: u64) + n < 2 ^ 64 \<Longrightarrow> unat (c + of_nat n) = unat c + n"
  by (simp add: unat_word_ariths unat_of_nat)

section \<open>The contract of a durable log\<close>

text \<open>
  What the writer relies on: an append that succeeds extends what recovery reads back
  (\<open>contents\<close>) by exactly the outcomes it was given, as long as their cursors continue the log
  (\<open>fits\<close>) and a frame's outcomes carry the digest of their payload (\<open>evidence\<close>).
\<close>

locale durable_log =
  fixes append_outcome :: "'l append"
    and append_outcomes :: "'l append_all"
    and contents :: "'l \<Rightarrow> persisted_event list"
    and ok :: "'l \<Rightarrow> bool"
    and fits :: "'l \<Rightarrow> u64 \<Rightarrow> bool"
    and evidence :: "persisted_event \<Rightarrow> bool"
  assumes append_outcome_ok: "ok l \<Longrightarrow> fits l (outcome_cursor r) \<Longrightarrow> append_outcome r l = (None, l')
      \<Longrightarrow> contents l' = contents l @ [r] \<and> ok l'"
    and append_outcomes_ok: "ok l \<Longrightarrow> rs \<noteq> [] \<Longrightarrow> fits l (outcome_cursor (hd rs))
      \<Longrightarrow> outcome_cursor (hd rs) \<le> outcome_cursor (last rs) \<Longrightarrow> \<forall>r \<in> set rs. evidence r
      \<Longrightarrow> append_outcomes rs l = (None, l') \<Longrightarrow> contents l' = contents l @ rs \<and> ok l'"
    and fits_next: "ok l \<Longrightarrow> contents l \<noteq> [] \<Longrightarrow> c = outcome_cursor (last (contents l)) + 1 \<Longrightarrow> c \<noteq> 0 \<Longrightarrow> fits l c"
begin

definition follows :: "'l \<Rightarrow> projection \<Rightarrow> bool" where
  "follows l p \<longleftrightarrow> ok l \<and> (if contents l = [] then fits l (pj_cursor p + 1)
     else outcome_cursor (last (contents l)) = pj_cursor p)"

lemma follows_fits: "follows l p \<Longrightarrow> pj_cursor p + 1 \<noteq> 0 \<Longrightarrow> fits l (pj_cursor p + 1)"
  using fits_next [of l "pj_cursor p + 1"] by (auto simp: follows_def split: if_splits)

lemma apply_appends:
  assumes "apply_event x append_outcome w e = (Inr (q, r), w')" and "follows (wr_log w) (wr_current w)"
    and "pj_cursor (wr_current w) + 1 \<noteq> 0"
  shows "contents (wr_log w') = contents (wr_log w) @ [r] \<and> follows (wr_log w') (wr_current w')
    \<and> pj_cursor (wr_current w') = pj_cursor (wr_current w) + 1"
proof (rule apply_innerE [OF assms(1) [unfolded apply_event_def]])
  fix log' assume ev: "evaluate_event x True False (wr_enforce_source_freshness w) (wr_current w) e = Inr (q, r)"
    and ap: "append_outcome r (wr_log w) = (None, log')"
    and w': "w' = w\<lparr> wr_current := q, wr_recent_event_index := insert (ev_event_id (pe_event r))
       (wr_recent_event_index w - (if length (pj_recent_event_ids (wr_current w)) = recent_window
          then {hd (pj_recent_event_ids (wr_current w))} else {})), wr_log := log' \<rparr>"
  note b = evaluate_event_bookkeeping [OF ev]
  have "contents log' = contents (wr_log w) @ [r] \<and> ok log'"
    using append_outcome_ok [OF _ _ ap] follows_fits [OF assms(2,3)] assms(2) b by (simp add: follows_def)
  then show ?thesis by (simp add: w' follows_def b)
qed

lemma batch_appends:
  assumes "apply_batch x append_outcomes w es = (Inr (q, rs), w')" and "follows (wr_log w) (wr_current w)"
    and room: "unat (pj_cursor (wr_current w)) + length rs < 2 ^ 64" and ev: "\<forall>r \<in> set rs. evidence r"
  shows "contents (wr_log w') = contents (wr_log w) @ rs \<and> follows (wr_log w') (wr_current w')
    \<and> pj_cursor (wr_current w') = pj_cursor (wr_current w) + of_nat (length rs)"
proof (cases "es = []")
  case True
  with assms show ?thesis by (auto simp: apply_batch_def)
next
  case False
  show ?thesis
  proof (rule apply_batchE [OF assms(1) False])
    fix log' assume run: "evaluate_all x (wr_enforce_source_freshness w) (wr_current w) es = Inr (q, rs)"
      and ap: "append_outcomes rs (wr_log w) = (None, log')"
      and w': "w' = w\<lparr> wr_current := q, wr_recent_event_index := set (pj_recent_event_ids q), wr_log := log' \<rparr>"
    note c = evaluate_all_cursors [OF run False]
    from c(1) obtain n where n: "length rs = Suc n" by (cases rs) auto
    have one: "unat (pj_cursor (wr_current w) + 1) = Suc (unat (pj_cursor (wr_current w)))"
      by (rule word_step_less [where n = n]) (use room n in simp)
    have "pj_cursor (wr_current w) + 1 \<noteq> 0" using one by (metis Zero_not_Suc unat_0)
    note fit = follows_fits [OF assms(2) this]
    have "unat (pj_cursor (wr_current w) + 1) \<le> unat (pj_cursor (wr_current w) + of_nat (length rs))"
      using unat_plus_of_nat [OF room] one n by simp
    then have le: "outcome_cursor (hd rs) \<le> outcome_cursor (last rs)"
      by (simp only: c word_le_nat_alt)
    have "contents log' = contents (wr_log w) @ rs \<and> ok log'"
      using append_outcomes_ok [OF _ c(1) _ le ev ap] fit assms(2) c(2) by (simp add: follows_def)
    then show ?thesis using c by (simp add: w' follows_def)
  qed
qed

text \<open>The log of a run holds its outcomes, so the log alone restores the published projection.\<close>

lemma writes_contents:
  assumes "writes x append_outcome append_outcomes w rs w'" and "follows (wr_log w) (wr_current w)"
    and "unat (pj_cursor (wr_current w)) + length rs < 2 ^ 64" and "\<forall>r \<in> set rs. evidence r"
  shows "contents (wr_log w') = contents (wr_log w) @ rs \<and> follows (wr_log w') (wr_current w')
    \<and> pj_cursor (wr_current w') = pj_cursor (wr_current w) + of_nat (length rs)"
  using assms
proof (induction rule: writes.induct)
  case (single w rs w' e q r w'')
  then have IH: "contents (wr_log w') = contents (wr_log w) @ rs" "follows (wr_log w') (wr_current w')"
    "pj_cursor (wr_current w') = pj_cursor (wr_current w) + of_nat (length rs)" by auto
  have "unat (pj_cursor (wr_current w')) = unat (pj_cursor (wr_current w)) + length rs"
    unfolding IH(3) by (rule unat_plus_of_nat) (use single.prems(2) in simp)
  then have "unat (pj_cursor (wr_current w') + 1) = Suc (unat (pj_cursor (wr_current w')))"
    by (intro word_step_less [where n = 0]) (use single.prems(2) in simp)
  then have "pj_cursor (wr_current w') + 1 \<noteq> 0" by (metis Zero_not_Suc unat_0)
  from apply_appends [OF single.hyps(2) IH(2) this] IH show ?case by simp
next
  case (batch w rs w' es q rs' w'')
  then have IH: "contents (wr_log w') = contents (wr_log w) @ rs" "follows (wr_log w') (wr_current w')"
    "pj_cursor (wr_current w') = pj_cursor (wr_current w) + of_nat (length rs)" by auto
  have "unat (pj_cursor (wr_current w')) = unat (pj_cursor (wr_current w)) + length rs"
    unfolding IH(3) by (rule unat_plus_of_nat) (use batch.prems(2) in simp)
  then have "unat (pj_cursor (wr_current w')) + length rs' < 2 ^ 64" using batch.prems(2) by simp
  from batch_appends [OF batch.hyps(2) IH(2) this] batch.prems(3) IH show ?case by simp
qed simp

lemma recovery:
  assumes "writes x append_outcome append_outcomes w rs w'"
    and "ok (wr_log w)" "contents (wr_log w) = []" "fits (wr_log w) (pj_cursor (wr_current w) + 1)"
    and "\<forall>r \<in> set rs. evidence r" "writer_ok w" "wr_enforce_source_freshness w"
    and "\<And>v. to_ascii_lowercase (sha_json x v) = sha_json x v"
    and "pj_cursor (wr_current w) = pj_persisted_cursor (wr_current w)"
      "snd (prune_stale_scope_gaps (wr_current w)) = wr_current w"
    and room: "unat (pj_cursor (wr_current w)) + length rs < 2 ^ 64"
  shows "contents (wr_log w') = rs"
    and "replay_after_checkpoint x (wr_current w) (contents (wr_log w')) = Inr (wr_current w')"
proof -
  have "follows (wr_log w) (wr_current w)" using assms(2-4) by (simp add: follows_def)
  from writes_contents [OF assms(1) this room assms(5)] assms(3)
  show c: "contents (wr_log w') = rs" by simp
  show "replay_after_checkpoint x (wr_current w) (contents (wr_log w')) = Inr (wr_current w')"
    unfolding c by (rule replay_of_run [OF assms(1,6-11)])
qed

end

end
