(* ===== verification/Core_Wal.thy ===== *)
theory Core_Wal
  imports Core_Writer
begin

text \<open>
  The segmented write-ahead log of \<open>marketcow-core\<close> (\<open>SegmentedWal\<close>). A directory maps file
  names to files in name order, which is the order in which \<open>wal_paths\<close> returns them; a file is
  its first line, the JSON header, and the record lines after it, each as the value that
  \<open>serde_json\<close> reads back. Digests, checksums and serialised lengths are external functions of
  those values (\<open>wal_ext\<close>). Failures of the file system are not modelled, except the refusal of
  \<open>create_new\<close> to overwrite a file.
\<close>

section \<open>Records and files\<close>

record wal_record =
  wl_cursor :: u64
  wl_crc32c :: u32
  wl_payload_sha256 :: string
  wl_payload :: persisted_event

record wal_batch_record =
  wb_batch_version :: "8 word"
  wb_first_cursor :: u64
  wb_last_cursor :: u64
  wb_crc32c :: u32
  wb_payload_sha256 :: string
  wb_frame_raw_payload :: "json option"
  wb_payloads :: "persisted_event list"

text \<open>The values whose serialisation is checksummed.\<close>

datatype integrity =
    SinglePayload persisted_event
  | PayloadsV1 "persisted_event list"
  | PayloadsV2 json "persisted_event list"

datatype wal_line = BadLine | RecordLine wal_record | BatchLine wal_batch_record

datatype wal_header = MissingHeader | BadHeader | Header json

record wal_file =
  wf_header :: wal_header
  wf_lines :: "wal_line list"

record wal_ext =
  wx_crc32c :: "integrity \<Rightarrow> u32"
  wx_sha256 :: "integrity \<Rightarrow> string"
  wx_raw_sha256 :: "json \<Rightarrow> string"
  wx_header_sha256 :: "json \<Rightarrow> string"
  wx_file_sha256 :: "wal_file \<Rightarrow> string"
  wx_header_len :: "json \<Rightarrow> nat"
  wx_line_len :: "wal_line \<Rightarrow> nat"

definition strip_raw_payload :: "persisted_event \<Rightarrow> persisted_event" where
  "strip_raw_payload r = r\<lparr> pe_event := (pe_event r)\<lparr> ev_raw_payload := JNull \<rparr> \<rparr>"

definition restore_raw_payload :: "json \<Rightarrow> persisted_event \<Rightarrow> persisted_event" where
  "restore_raw_payload raw r = r\<lparr> pe_event := (pe_event r)\<lparr> ev_raw_payload := raw \<rparr> \<rparr>"

definition wal_batch_integrity_bytes :: "wal_batch_record \<Rightarrow> core_error + integrity" where
  "wal_batch_integrity_bytes r =
     (if wb_batch_version r = 1 \<and> wb_frame_raw_payload r = None then Inr (PayloadsV1 (wb_payloads r))
      else if wb_batch_version r = 2
      then (case wb_frame_raw_payload r of
              Some raw_payload \<Rightarrow> Inr (PayloadsV2 raw_payload (wb_payloads r))
            | None \<Rightarrow> Inl CorruptWal)
      else Inl CorruptWal)"

section \<open>Headers and names\<close>

fun read_wal_header :: "wal_file \<Rightarrow> core_error + json" where
  "read_wal_header f =
     (case wf_header f of
        MissingHeader \<Rightarrow> Inl CorruptWal
      | BadHeader \<Rightarrow> Inl JsonError
      | Header h \<Rightarrow> Inr h)"

definition segment_name :: "string \<Rightarrow> u64 \<Rightarrow> string" where
  "segment_name stream_id cursor = stream_id @ ''-'' @ decimal_digits 20 (unat cursor) @ ''.wal''"

definition header_json :: "string \<Rightarrow> u64 \<Rightarrow> string option \<Rightarrow> (u64 \<times> string) option \<Rightarrow> json" where
  "header_json stream_id cursor previous_segment_sha256 checkpoint = JObject
     ([(''magic'', JString ''MCWAL1''), (''wal_version'', JUInt 1),
       (''stream_id'', JString stream_id), (''first_cursor'', JUInt cursor),
       (''previous_segment_sha256'',
          case previous_segment_sha256 of None \<Rightarrow> JNull | Some h \<Rightarrow> JString h)]
      @ (case checkpoint of None \<Rightarrow> []
         | Some (checkpoint_cursor, checkpoint_sha256) \<Rightarrow>
             [(''checkpoint_cursor'', JUInt checkpoint_cursor), (''checkpoint_sha256'', JString checkpoint_sha256)]))"

section \<open>The log\<close>

record segmented_wal =
  sw_root :: string
  sw_directory :: "(string, wal_file) btree"
  sw_stream_id :: string
  sw_max_segment_bytes :: nat
  sw_segment_first_cursor :: "u64 option"
  sw_current_path :: "string option"
  sw_bytes :: nat
  sw_segment_has_records :: bool

record wal_anchor =
  wa_checkpoint_cursor :: u64
  wa_checkpoint_sha256 :: string
  wa_segment_first_cursor :: u64
  wa_segment_header_sha256 :: string

record verified_wal =
  vw_records :: "persisted_event list"
  vw_checkpoint_anchors :: "wal_anchor list"

definition file_bytes :: "wal_ext \<Rightarrow> wal_file \<Rightarrow> nat" where
  "file_bytes wx f =
     (case wf_header f of Header h \<Rightarrow> wx_header_len wx h + 1 | _ \<Rightarrow> 0)
     + sum_list (map (\<lambda>l. wx_line_len wx l + 1) (wf_lines f))"

section \<open>Verification\<close>

record verify_state =
  vs_output :: "persisted_event list"
  vs_anchors :: "wal_anchor list"
  vs_previous_segment_sha256 :: "string option"
  vs_stream_id :: "string option"

text \<open>\<open>output.last() + 1 == cursor || output.is_empty()\<close>\<close>

definition continues :: "persisted_event list \<Rightarrow> u64 \<Rightarrow> bool" where
  "continues output cursor = (output = [] \<or> ev_cursor (pe_event (last output)) + 1 = cursor)"

fun push_all :: "persisted_event list \<Rightarrow> persisted_event list \<Rightarrow> core_error + persisted_event list" where
  "push_all output [] = Inr output"
| "push_all output (r # rs) =
     (if continues output (ev_cursor (pe_event r)) then push_all (output @ [r]) rs else Inl CorruptWal)"

definition verify_batch ::
  "wal_ext \<Rightarrow> wal_batch_record \<Rightarrow> persisted_event list \<Rightarrow> core_error + persisted_event list" where
  "verify_batch wx r output =
     (case wal_batch_integrity_bytes r of
        Inl err \<Rightarrow> Inl err
      | Inr payload \<Rightarrow>
          if wb_payloads r = []
             \<or> ev_cursor (pe_event (hd (wb_payloads r))) \<noteq> wb_first_cursor r
             \<or> ev_cursor (pe_event (last (wb_payloads r))) \<noteq> wb_last_cursor r
             \<or> wx_crc32c wx payload \<noteq> wb_crc32c r
             \<or> wx_sha256 wx payload \<noteq> wb_payload_sha256 r
          then Inl CorruptWal
          else (case wb_frame_raw_payload r of
                  None \<Rightarrow> push_all output (wb_payloads r)
                | Some raw_payload \<Rightarrow>
                    if list_ex (\<lambda>p. se_raw_sha256 (ev_source (pe_event p)) \<noteq> wx_raw_sha256 wx raw_payload)
                         (wb_payloads r)
                    then Inl CorruptWal
                    else push_all output (map (restore_raw_payload raw_payload) (wb_payloads r))))"

definition verify_record ::
  "wal_ext \<Rightarrow> wal_record \<Rightarrow> persisted_event list \<Rightarrow> core_error + persisted_event list" where
  "verify_record wx r output =
     (if wx_crc32c wx (SinglePayload (wl_payload r)) \<noteq> wl_crc32c r
         \<or> wx_sha256 wx (SinglePayload (wl_payload r)) \<noteq> wl_payload_sha256 r
      then Inl CorruptWal
      else if \<not> continues output (wl_cursor r) then Inl CorruptWal
      else Inr (output @ [wl_payload r]))"

fun verify_line ::
  "wal_ext \<Rightarrow> wal_line \<Rightarrow> persisted_event list \<Rightarrow> core_error + persisted_event list" where
  "verify_line wx BadLine output = Inl JsonError"
| "verify_line wx (BatchLine r) output = verify_batch wx r output"
| "verify_line wx (RecordLine r) output = verify_record wx r output"

fun verify_lines ::
  "wal_ext \<Rightarrow> wal_line list \<Rightarrow> persisted_event list \<Rightarrow> core_error + persisted_event list" where
  "verify_lines wx [] output = Inr output"
| "verify_lines wx (l # ls) output =
     (case verify_line wx l output of Inl err \<Rightarrow> Inl err | Inr output' \<Rightarrow> verify_lines wx ls output')"

text \<open>The checkpoint fields of a header: both or neither, and consistent with the first cursor.\<close>

definition header_anchor :: "wal_ext \<Rightarrow> json \<Rightarrow> core_error + wal_anchor option" where
  "header_anchor wx h =
     (case (json_get ''checkpoint_cursor'' h, json_get ''checkpoint_sha256'' h) of
        (None, None) \<Rightarrow> Inr None
      | (Some cursor, Some sha) \<Rightarrow>
          (case (as_u64 cursor, opt_filter is_digest (as_str sha), get_u64 ''first_cursor'' h) of
             (Some checkpoint_cursor, Some checkpoint_sha256, Some segment_first_cursor) \<Rightarrow>
               if checked_add1 checkpoint_cursor \<noteq> Some segment_first_cursor then Inl CorruptWal
               else Inr (Some \<lparr> wa_checkpoint_cursor = checkpoint_cursor,
                      wa_checkpoint_sha256 = checkpoint_sha256,
                      wa_segment_first_cursor = segment_first_cursor,
                      wa_segment_header_sha256 = wx_header_sha256 wx h \<rparr>)
           | _ \<Rightarrow> Inl CorruptWal)
      | _ \<Rightarrow> Inl CorruptWal)"

definition verify_header :: "wal_ext \<Rightarrow> json \<Rightarrow> verify_state \<Rightarrow> core_error + verify_state" where
  "verify_header wx h st =
     (if get_str ''magic'' h \<noteq> Some ''MCWAL1'' then Inl CorruptWal
      else case get_str ''stream_id'' h of
        None \<Rightarrow> Inl CorruptWal
      | Some actual_stream_id \<Rightarrow>
          if unwrap_or actual_stream_id (vs_stream_id st) \<noteq> actual_stream_id then Inl WalStreamMismatch
          else if get_str ''previous_segment_sha256'' h \<noteq> vs_previous_segment_sha256 st then Inl CorruptWal
          else (case header_anchor wx h of
                  Inl err \<Rightarrow> Inl err
                | Inr anchor \<Rightarrow> Inr (st\<lparr> vs_stream_id := Some actual_stream_id,
                    vs_anchors := vs_anchors st @ (case anchor of None \<Rightarrow> [] | Some a \<Rightarrow> [a]) \<rparr>)))"

definition verify_file :: "wal_ext \<Rightarrow> wal_file \<Rightarrow> verify_state \<Rightarrow> core_error + verify_state" where
  "verify_file wx f st =
     (case read_wal_header f of
        Inl err \<Rightarrow> Inl err
      | Inr h \<Rightarrow>
          (case verify_header wx h st of
             Inl err \<Rightarrow> Inl err
           | Inr st1 \<Rightarrow>
               (case verify_lines wx (wf_lines f) (vs_output st1) of
                  Inl err \<Rightarrow> Inl err
                | Inr output \<Rightarrow> Inr (st1\<lparr> vs_output := output,
                    vs_previous_segment_sha256 := Some (wx_file_sha256 wx f) \<rparr>))))"

fun verify_files :: "wal_ext \<Rightarrow> wal_file list \<Rightarrow> verify_state \<Rightarrow> core_error + verify_state" where
  "verify_files wx [] st = Inr st"
| "verify_files wx (f # fs) st =
     (case verify_file wx f st of Inl err \<Rightarrow> Inl err | Inr st' \<Rightarrow> verify_files wx fs st')"

definition verify_start :: verify_state where
  "verify_start = \<lparr> vs_output = [], vs_anchors = [], vs_previous_segment_sha256 = None, vs_stream_id = None \<rparr>"

definition verify_with_anchors :: "wal_ext \<Rightarrow> (string, wal_file) btree \<Rightarrow> core_error + verified_wal" where
  "verify_with_anchors wx directory =
     (case verify_files wx (bt_values directory) verify_start of
        Inl err \<Rightarrow> Inl err
      | Inr st \<Rightarrow> Inr \<lparr> vw_records = vs_output st, vw_checkpoint_anchors = vs_anchors st \<rparr>)"

definition wal_verify :: "wal_ext \<Rightarrow> (string, wal_file) btree \<Rightarrow> core_error + persisted_event list" where
  "wal_verify wx directory =
     (case verify_with_anchors wx directory of Inl err \<Rightarrow> Inl err | Inr v \<Rightarrow> Inr (vw_records v))"

section \<open>Opening, rotating and appending\<close>

definition open_inner ::
  "wal_ext \<Rightarrow> string \<Rightarrow> (string, wal_file) btree \<Rightarrow> string \<Rightarrow> nat \<Rightarrow> bool \<Rightarrow> core_error + segmented_wal" where
  "open_inner wx root directory stream_id max_segment_bytes verify_chain =
     (if \<not> starts_with root ''/'' then Inl PathMustBeAbsolute
      else if max_segment_bytes < 1024 then Inl SegmentTooSmall
      else case bt_last directory of
        None \<Rightarrow> Inr \<lparr> sw_root = root, sw_directory = directory, sw_stream_id = stream_id,
            sw_max_segment_bytes = max_segment_bytes, sw_segment_first_cursor = None,
            sw_current_path = None, sw_bytes = 0, sw_segment_has_records = False \<rparr>
      | Some (path, f) \<Rightarrow>
          (case (if verify_chain then wal_verify wx directory else Inr []) of
             Inl err \<Rightarrow> Inl err
           | Inr _ \<Rightarrow>
               (case read_wal_header f of
                  Inl err \<Rightarrow> Inl err
                | Inr h \<Rightarrow>
                    if get_str ''stream_id'' h \<noteq> Some stream_id then Inl WalStreamMismatch
                    else case get_u64 ''first_cursor'' h of
                      None \<Rightarrow> Inl CorruptWal
                    | Some first_cursor \<Rightarrow> Inr \<lparr> sw_root = root, sw_directory = directory,
                        sw_stream_id = stream_id, sw_max_segment_bytes = max_segment_bytes,
                        sw_segment_first_cursor = Some first_cursor, sw_current_path = Some path,
                        sw_bytes = file_bytes wx f,
                        sw_segment_has_records = (file_bytes wx f > wx_header_len wx h + 1) \<rparr>)))"

definition current_file :: "segmented_wal \<Rightarrow> wal_file option" where
  "current_file w = Option.bind (sw_current_path w) (bt_get (sw_directory w))"

definition rotate_with_checkpoint_anchor ::
  "wal_ext \<Rightarrow> u64 \<Rightarrow> (u64 \<times> string) option \<Rightarrow> segmented_wal \<Rightarrow> (core_error + wal_anchor) \<times> segmented_wal" where
  "rotate_with_checkpoint_anchor wx cursor checkpoint w =
     (let previous = map_option (wx_file_sha256 wx) (current_file w);
          path = segment_name (sw_stream_id w) cursor;
          h = header_json (sw_stream_id w) cursor previous checkpoint
      in if bt_contains (sw_directory w) path then (Inl IoError, w)
         else (Inr \<lparr> wa_checkpoint_cursor = (case checkpoint of None \<Rightarrow> 0 | Some (c, _) \<Rightarrow> c),
                 wa_checkpoint_sha256 = (case checkpoint of None \<Rightarrow> [] | Some (_, s) \<Rightarrow> s),
                 wa_segment_first_cursor = cursor,
                 wa_segment_header_sha256 = wx_header_sha256 wx h \<rparr>,
               w\<lparr> sw_directory := bt_insert path \<lparr> wf_header = Header h, wf_lines = [] \<rparr> (sw_directory w),
                  sw_bytes := wx_header_len wx h + 1,
                  sw_segment_first_cursor := Some cursor,
                  sw_current_path := Some path,
                  sw_segment_has_records := False \<rparr>))"

definition anchor_checkpoint ::
  "wal_ext \<Rightarrow> u64 \<Rightarrow> string \<Rightarrow> segmented_wal \<Rightarrow> (core_error + wal_anchor) \<times> segmented_wal" where
  "anchor_checkpoint wx checkpoint_cursor checkpoint_sha256 w =
     (if \<not> is_digest checkpoint_sha256 then (Inl CheckpointHash, w)
      else case checked_add1 checkpoint_cursor of
        None \<Rightarrow> (Inl CorruptWal, w)
      | Some next_cursor \<Rightarrow>
          (case map_option read_wal_header (current_file w) of
             Some (Inl err) \<Rightarrow> (Inl err, w)
           | Some (Inr h) \<Rightarrow>
               if get_u64 ''first_cursor'' h = Some next_cursor
                  \<and> get_u64 ''checkpoint_cursor'' h = Some checkpoint_cursor
                  \<and> get_str ''checkpoint_sha256'' h = Some checkpoint_sha256
                  \<and> map_option (file_bytes wx) (current_file w) = Some (wx_header_len wx h + 1)
               then (Inr \<lparr> wa_checkpoint_cursor = checkpoint_cursor,
                       wa_checkpoint_sha256 = checkpoint_sha256,
                       wa_segment_first_cursor = next_cursor,
                       wa_segment_header_sha256 = wx_header_sha256 wx h \<rparr>, w)
               else rotate_with_checkpoint_anchor wx next_cursor (Some (checkpoint_cursor, checkpoint_sha256)) w
           | None \<Rightarrow>
               rotate_with_checkpoint_anchor wx next_cursor (Some (checkpoint_cursor, checkpoint_sha256)) w))"

text \<open>The rotation test and the write of one line, shared by both append paths.\<close>

definition write_line :: "wal_ext \<Rightarrow> u64 \<Rightarrow> wal_line \<Rightarrow> segmented_wal \<Rightarrow> core_error option \<times> segmented_wal" where
  "write_line wx cursor line w =
     (case (if sw_current_path w = None
               \<or> sw_segment_has_records w
                  \<and> sw_bytes w + wx_line_len wx line + 1 > sw_max_segment_bytes w
            then rotate_with_checkpoint_anchor wx cursor None w
            else (Inr \<lparr> wa_checkpoint_cursor = 0, wa_checkpoint_sha256 = [], wa_segment_first_cursor = 0,
                    wa_segment_header_sha256 = [] \<rparr>, w)) of
        (Inl err, w1) \<Rightarrow> (Some err, w1)
      | (Inr _, w1) \<Rightarrow>
          (case sw_current_path w1 of
             None \<Rightarrow> (Some (RustPanic ''rotated''), w1)
           | Some path \<Rightarrow> (None, w1\<lparr>
               sw_directory := bt_map_value (\<lambda>f. f\<lparr> wf_lines := wf_lines f @ [line] \<rparr>) path (sw_directory w1),
               sw_bytes := sw_bytes w1 + wx_line_len wx line + 1,
               sw_segment_has_records := True \<rparr>)))"

definition wal_append_outcome :: "wal_ext \<Rightarrow> segmented_wal append" where
  "wal_append_outcome wx outcome w =
     write_line wx (ev_cursor (pe_event outcome)) (RecordLine \<lparr>
       wl_cursor = ev_cursor (pe_event outcome),
       wl_crc32c = wx_crc32c wx (SinglePayload outcome),
       wl_payload_sha256 = wx_sha256 wx (SinglePayload outcome),
       wl_payload = outcome \<rparr>) w"

definition wal_append :: "wal_ext \<Rightarrow> canonical_event \<Rightarrow> segmented_wal \<Rightarrow> core_error option \<times> segmented_wal" where
  "wal_append wx e w = wal_append_outcome wx
     \<lparr> pe_event = e, pe_applied = True, pe_fail_closed_reason = None, pe_market = None \<rparr> w"

fun contiguous :: "persisted_event list \<Rightarrow> bool" where
  "contiguous (a # b # rs) =
     (ev_cursor (pe_event a) + 1 = ev_cursor (pe_event b) \<and> contiguous (b # rs))"
| "contiguous rs = True"

definition batch_line :: "wal_ext \<Rightarrow> persisted_event list \<Rightarrow> wal_line" where
  "batch_line wx batch =
     (let frame_raw_payload = ev_raw_payload (pe_event (hd batch));
          payloads = map strip_raw_payload batch;
          payload = PayloadsV2 frame_raw_payload payloads
      in BatchLine \<lparr>
           wb_batch_version = 2,
           wb_first_cursor = ev_cursor (pe_event (hd batch)),
           wb_last_cursor = ev_cursor (pe_event (last batch)),
           wb_crc32c = wx_crc32c wx payload,
           wb_payload_sha256 = wx_sha256 wx payload,
           wb_frame_raw_payload = Some frame_raw_payload,
           wb_payloads = payloads \<rparr>)"

definition wal_append_outcomes :: "wal_ext \<Rightarrow> segmented_wal append_all" where
  "wal_append_outcomes wx batch w =
     (if batch = [] then (None, w)
      else if \<not> contiguous batch then (Some CorruptWal, w)
      else if list_ex (\<lambda>outcome.
             se_raw_sha256 (ev_source (pe_event outcome)) \<noteq> se_raw_sha256 (ev_source (pe_event (hd batch)))
             \<or> ev_raw_payload (pe_event outcome) \<noteq> ev_raw_payload (pe_event (hd batch))) batch
      then (Some CorruptWal, w)
      else write_line wx (ev_cursor (pe_event (hd batch))) (batch_line wx batch) w)"

section \<open>Segment names are ordered like their cursors\<close>

lemma segment_name_less: "c < d \<Longrightarrow> segment_name s c < segment_name s d"
proof -
  assume "c < d"
  then have "unat c < unat d" by (simp add: word_less_nat_alt)
  moreover have "unat d < 10 ^ 20" using unsigned_less [of d, where 'a = nat] by simp
  ultimately show ?thesis
    unfolding segment_name_def by (simp add: list_less_same_prefix decimal_digits_less)
qed

section \<open>Verification of an extended directory\<close>

lemma verify_files_append:
  "verify_files wx (fs @ gs) st =
     (case verify_files wx fs st of Inl err \<Rightarrow> Inl err | Inr st' \<Rightarrow> verify_files wx gs st')"
  by (induction fs arbitrary: st) (auto split: sum.splits)

lemma verify_lines_append:
  "verify_lines wx (ls @ ls') out =
     (case verify_lines wx ls out of Inl err \<Rightarrow> Inl err | Inr out' \<Rightarrow> verify_lines wx ls' out')"
  by (induction ls arbitrary: out) (auto split: sum.splits)

lemma verify_file_extend:
  assumes "verify_file wx f st0 = Inr st" and "verify_line wx l (vs_output st) = Inr out"
  shows "\<exists>st'. verify_file wx (f\<lparr> wf_lines := wf_lines f @ [l] \<rparr>) st0 = Inr st' \<and> vs_output st' = out
    \<and> vs_stream_id st' = vs_stream_id st \<and> vs_anchors st' = vs_anchors st
    \<and> vs_previous_segment_sha256 st' = Some (wx_file_sha256 wx (f\<lparr> wf_lines := wf_lines f @ [l] \<rparr>))"
  using assms by (auto simp: verify_file_def verify_lines_append split: sum.splits wal_header.splits)

lemma verify_file_previous:
  "verify_file wx f st0 = Inr st \<Longrightarrow> vs_previous_segment_sha256 st = Some (wx_file_sha256 wx f)"
  by (auto simp: verify_file_def split: sum.splits wal_header.splits)

lemma header_json_fields:
  "get_str ''magic'' (header_json s c prev cp) = Some ''MCWAL1''"
  "get_str ''stream_id'' (header_json s c prev cp) = Some s"
  "get_u64 ''first_cursor'' (header_json s c prev cp) = Some c"
  "get_str ''previous_segment_sha256'' (header_json s c prev cp) = prev"
  by (auto simp: header_json_def get_str_def get_u64_def split: option.splits)

lemma header_json_anchor:
  "header_anchor wx (header_json s c prev None) = Inr None"
  "is_digest h \<Longrightarrow> checked_add1 k = Some c \<Longrightarrow> header_anchor wx (header_json s c prev (Some (k, h))) =
     Inr (Some \<lparr> wa_checkpoint_cursor = k, wa_checkpoint_sha256 = h, wa_segment_first_cursor = c,
       wa_segment_header_sha256 = wx_header_sha256 wx (header_json s c prev (Some (k, h))) \<rparr>)"
  by (auto simp: header_anchor_def header_json_def get_u64_def split: option.splits)

text \<open>A fresh segment extends a verified chain.\<close>

lemma verify_file_fresh:
  assumes "vs_stream_id st \<in> {None, Some s}" and "vs_previous_segment_sha256 st = prev"
    and "header_anchor wx (header_json s c prev cp) = Inr a"
  shows "\<exists>st'. verify_file wx \<lparr> wf_header = Header (header_json s c prev cp), wf_lines = [] \<rparr> st = Inr st'
    \<and> vs_output st' = vs_output st \<and> vs_stream_id st' = Some s
    \<and> vs_anchors st' = vs_anchors st @ (case a of None \<Rightarrow> [] | Some a \<Rightarrow> [a])"
  using assms by (auto simp: verify_file_def verify_header_def header_json_fields)

end
