(* ===== verification/Core_Durable.thy ===== *)
theory Core_Durable
  imports Core_Wal
begin

text \<open>
  The segmented log keeps the contract of \<open>durable_log\<close>: after any successful append,
  verification of the directory returns the outcomes appended so far, across rotations and
  checkpoint anchors. The invariant \<open>wal_ok\<close> ties the open segment to the end of a verified
  chain whose file names are ordered like the cursors they start with.
\<close>

definition wal_contents :: "wal_ext \<Rightarrow> segmented_wal \<Rightarrow> persisted_event list" where
  "wal_contents wx w = (case wal_verify wx (sw_directory w) of Inr rs \<Rightarrow> rs | Inl _ \<Rightarrow> [])"

definition wal_anchors :: "wal_ext \<Rightarrow> segmented_wal \<Rightarrow> wal_anchor list" where
  "wal_anchors wx w =
     (case verify_with_anchors wx (sw_directory w) of Inr v \<Rightarrow> vw_checkpoint_anchors v | Inl _ \<Rightarrow> [])"

definition wal_evidence :: "wal_ext \<Rightarrow> persisted_event \<Rightarrow> bool" where
  "wal_evidence wx r = (se_raw_sha256 (ev_source (pe_event r)) = wx_raw_sha256 wx (ev_raw_payload (pe_event r)))"

text \<open>The open segment \<open>c\<close>, its file, and the chain before it.\<close>

definition wal_open_ok :: "wal_ext \<Rightarrow> segmented_wal \<Rightarrow> verify_state \<Rightarrow> bool" where
  "wal_open_ok wx w st \<longleftrightarrow> (case sw_current_path w of
     None \<Rightarrow> sw_directory w = [] \<and> st = verify_start \<and> sw_segment_first_cursor w = None
   | Some path \<Rightarrow> (\<exists>m f c. sw_directory w = m @ [(path, f)] \<and> path = segment_name (sw_stream_id w) c
        \<and> sw_segment_first_cursor w = Some c
        \<and> (\<forall>name \<in> fst ` set m. \<exists>d < c. name = segment_name (sw_stream_id w) d)
        \<and> (if sw_segment_has_records w then vs_output st \<noteq> [] \<and> c \<le> outcome_cursor (last (vs_output st))
           else vs_output st \<noteq> [] \<longrightarrow> c = outcome_cursor (last (vs_output st)) + 1)))"

definition wal_ok :: "wal_ext \<Rightarrow> segmented_wal \<Rightarrow> bool" where
  "wal_ok wx w \<longleftrightarrow> bt_wf (sw_directory w)
     \<and> (\<exists>st. verify_files wx (bt_values (sw_directory w)) verify_start = Inr st
          \<and> vs_stream_id st \<in> {None, Some (sw_stream_id w)} \<and> wal_open_ok wx w st)"

definition wal_fits :: "wal_ext \<Rightarrow> segmented_wal \<Rightarrow> u64 \<Rightarrow> bool" where
  "wal_fits wx w cursor \<longleftrightarrow>
     (if wal_contents wx w \<noteq> [] then cursor = outcome_cursor (last (wal_contents wx w)) + 1 \<and> cursor \<noteq> 0
      else sw_segment_first_cursor w \<in> {None, Some cursor})"

lemma wal_contents_state:
  "verify_files wx (bt_values (sw_directory w)) verify_start = Inr st \<Longrightarrow> wal_contents wx w = vs_output st"
  by (simp add: wal_contents_def wal_verify_def verify_with_anchors_def)

lemma wal_anchors_state:
  "verify_files wx (bt_values (sw_directory w)) verify_start = Inr st \<Longrightarrow> wal_anchors wx w = vs_anchors st"
  by (simp add: wal_anchors_def verify_with_anchors_def)

lemma bt_values_snoc: "bt_values (m @ [(k, v)]) = bt_values m @ [v]"
  by (simp add: bt_values_def)

lemma word_less_succ: "(c :: u64) \<noteq> - 1 \<Longrightarrow> c < c + 1"
  using unat_add1 [of c] by (simp add: word_less_nat_alt)

lemma word_less_add1: "(c :: u64) + 1 \<noteq> 0 \<Longrightarrow> c < c + 1"
  by (rule word_less_succ) auto

lemma wal_open_okI:
  assumes "sw_current_path w = Some path" "sw_directory w = m @ [(path, f)]"
    "path = segment_name (sw_stream_id w) c" "sw_segment_first_cursor w = Some c"
    "\<forall>name \<in> fst ` set m. \<exists>d < c. name = segment_name (sw_stream_id w) d"
    "if sw_segment_has_records w then vs_output st \<noteq> [] \<and> c \<le> outcome_cursor (last (vs_output st))
     else vs_output st \<noteq> [] \<longrightarrow> c = outcome_cursor (last (vs_output st)) + 1"
  shows "wal_open_ok wx w st"
  using assms unfolding wal_open_ok_def by (simp only: option.case) blast

section \<open>Rotation\<close>

text \<open>A rotation to a cursor past the open segment appends a fresh, verified segment.\<close>

lemma rotate_ok:
  assumes ok: "wal_ok wx w"
    and st: "verify_files wx (bt_values (sw_directory w)) verify_start = Inr st"
    and past: "\<forall>c. sw_segment_first_cursor w = Some c \<longrightarrow> c < cursor"
    and cont: "vs_output st \<noteq> [] \<longrightarrow> cursor = outcome_cursor (last (vs_output st)) + 1"
    and hd: "\<And>prev. header_anchor wx (header_json (sw_stream_id w) cursor prev cp) = Inr (A prev)"
    and rot: "rotate_with_checkpoint_anchor wx cursor cp w = (res, w')"
  obtains a where "res = Inr a" "a = \<lparr> wa_checkpoint_cursor = (case cp of None \<Rightarrow> 0 | Some (c, _) \<Rightarrow> c),
      wa_checkpoint_sha256 = (case cp of None \<Rightarrow> [] | Some (_, s) \<Rightarrow> s), wa_segment_first_cursor = cursor,
      wa_segment_header_sha256 = wx_header_sha256 wx (header_json (sw_stream_id w) cursor
        (map_option (wx_file_sha256 wx) (current_file w)) cp) \<rparr>"
    "wal_anchors wx w' = wal_anchors wx w @ (case A (map_option (wx_file_sha256 wx) (current_file w)) of
        None \<Rightarrow> [] | Some a \<Rightarrow> [a])" "wal_ok wx w'" "wal_contents wx w' = wal_contents wx w"
    "sw_current_path w' = Some (segment_name (sw_stream_id w) cursor)"
    "sw_segment_first_cursor w' = Some cursor" "\<not> sw_segment_has_records w'"
    "sw_stream_id w' = sw_stream_id w"
proof -
  let ?path = "segment_name (sw_stream_id w) cursor"
  let ?prev = "map_option (wx_file_sha256 wx) (current_file w)"
  let ?h = "header_json (sw_stream_id w) cursor ?prev cp"
  let ?f = "\<lparr> wf_header = Header ?h, wf_lines = [] \<rparr>"
  from ok st have wf: "bt_wf (sw_directory w)" and stream: "vs_stream_id st \<in> {None, Some (sw_stream_id w)}"
    and op: "wal_open_ok wx w st" by (auto simp: wal_ok_def)
  have names: "\<forall>name \<in> fst ` set (sw_directory w). \<exists>d < cursor. name = segment_name (sw_stream_id w) d"
    and prev: "vs_previous_segment_sha256 st = ?prev"
  proof -
    have "(\<forall>name \<in> fst ` set (sw_directory w). \<exists>d < cursor. name = segment_name (sw_stream_id w) d)
      \<and> vs_previous_segment_sha256 st = ?prev"
    proof (cases "sw_current_path w")
      case None
      with op show ?thesis by (simp add: wal_open_ok_def current_file_def verify_start_def)
    next
      case (Some path)
      with op obtain m f c where d: "sw_directory w = m @ [(path, f)]" and p: "path = segment_name (sw_stream_id w) c"
        and c: "sw_segment_first_cursor w = Some c"
        and m: "\<forall>name \<in> fst ` set m. \<exists>d < c. name = segment_name (sw_stream_id w) d"
        by (auto simp: wal_open_ok_def)
      have "bt_get (sw_directory w) path = Some f"
        using wf d by (simp add: bt_get_iff)
      then have "?prev = Some (wx_file_sha256 wx f)" by (simp add: current_file_def Some)
      moreover obtain st0 where "verify_file wx f st0 = Inr st"
        using st by (auto simp: d bt_values_snoc verify_files_append split: sum.splits)
      ultimately have "vs_previous_segment_sha256 st = ?prev"
        by (metis verify_file_previous)
      moreover have "c < cursor" using past c by simp
      then have "\<forall>name \<in> fst ` set (sw_directory w). \<exists>d < cursor. name = segment_name (sw_stream_id w) d"
        using m p unfolding d by (auto intro: less_trans)
      ultimately show ?thesis by blast
    qed
    then show "\<forall>name \<in> fst ` set (sw_directory w). \<exists>d < cursor. name = segment_name (sw_stream_id w) d"
      "vs_previous_segment_sha256 st = ?prev" by blast+
  qed
  have less: "\<forall>k' \<in> fst ` set (sw_directory w). k' < ?path"
    using names segment_name_less by metis
  then have fresh: "\<not> bt_contains (sw_directory w) ?path"
    by (auto simp: bt_contains_iff_keys bt_keys_def)
  have ins: "bt_insert ?path ?f (sw_directory w) = sw_directory w @ [(?path, ?f)]"
    by (rule bt_insert_last [OF less])
  let ?a = "\<lparr> wa_checkpoint_cursor = (case cp of None \<Rightarrow> 0 | Some (c, _) \<Rightarrow> c),
      wa_checkpoint_sha256 = (case cp of None \<Rightarrow> [] | Some (_, s) \<Rightarrow> s), wa_segment_first_cursor = cursor,
      wa_segment_header_sha256 = wx_header_sha256 wx ?h \<rparr>"
  from rot fresh have res: "res = Inr ?a" and w': "w' = w\<lparr>
      sw_directory := sw_directory w @ [(?path, ?f)], sw_bytes := wx_header_len wx ?h + 1,
      sw_segment_first_cursor := Some cursor, sw_current_path := Some ?path, sw_segment_has_records := False \<rparr>"
    by (auto simp: rotate_with_checkpoint_anchor_def Let_def ins)
  obtain st' where vf: "verify_file wx ?f st = Inr st'" and st': "vs_output st' = vs_output st"
    "vs_stream_id st' = Some (sw_stream_id w)"
    "vs_anchors st' = vs_anchors st @ (case A ?prev of None \<Rightarrow> [] | Some a \<Rightarrow> [a])"
    using verify_file_fresh [OF stream prev hd] by blast
  have all: "verify_files wx (bt_values (sw_directory w')) verify_start = Inr st'"
    by (simp add: w' bt_values_snoc verify_files_append st vf)
  have "wal_open_ok wx w' st'"
    unfolding wal_open_ok_def w' using names cont by (simp add: st')
  moreover have "bt_wf (sw_directory w')"
    using bt_wf_insert [OF wf, of ?path ?f] by (simp add: w' ins)
  ultimately have "wal_ok wx w'" using all st' by (auto simp: wal_ok_def w')
  moreover have "wal_contents wx w' = wal_contents wx w"
    by (simp add: wal_contents_state [OF all] wal_contents_state [OF st] st')
  moreover have "wal_anchors wx w' = wal_anchors wx w @ (case A ?prev of None \<Rightarrow> [] | Some a \<Rightarrow> [a])"
    by (simp add: wal_anchors_state [OF all] wal_anchors_state [OF st] st')
  ultimately show thesis using res by (intro that [of ?a]) (simp_all add: w')
qed

section \<open>Writing a line\<close>

lemma extend_last:
  assumes ok: "wal_ok wx w" and path: "sw_current_path w = Some path"
    and st: "verify_files wx (bt_values (sw_directory w)) verify_start = Inr st"
    and line: "verify_line wx l (vs_output st) = Inr (vs_output st @ rs)" and rs: "rs \<noteq> []"
    and first: "\<forall>c. sw_segment_first_cursor w = Some c \<longrightarrow> c \<le> outcome_cursor (last rs)"
    and w': "w' = w\<lparr> sw_directory := bt_map_value (\<lambda>f. f\<lparr> wf_lines := wf_lines f @ [l] \<rparr>) path (sw_directory w),
       sw_bytes := b, sw_segment_has_records := True \<rparr>"
  shows "wal_ok wx w' \<and> wal_contents wx w' = wal_contents wx w @ rs"
proof -
  from ok st have wf: "bt_wf (sw_directory w)" and stream: "vs_stream_id st \<in> {None, Some (sw_stream_id w)}"
    and op: "wal_open_ok wx w st" by (auto simp: wal_ok_def)
  from op path obtain m f c where d: "sw_directory w = m @ [(path, f)]" and p: "path = segment_name (sw_stream_id w) c"
    and c: "sw_segment_first_cursor w = Some c"
    and m: "\<forall>name \<in> fst ` set m. \<exists>d < c. name = segment_name (sw_stream_id w) d"
    by (auto simp: wal_open_ok_def)
  let ?f = "f\<lparr> wf_lines := wf_lines f @ [l] \<rparr>"
  have dir: "sw_directory w' = m @ [(path, ?f)]"
    using bt_map_value_last [of m path f] wf by (simp add: w' d)
  obtain st0 where st0: "verify_files wx (bt_values m) verify_start = Inr st0" "verify_file wx f st0 = Inr st"
    using st by (auto simp: d bt_values_snoc verify_files_append split: sum.splits)
  obtain st' where st': "verify_file wx ?f st0 = Inr st'" "vs_output st' = vs_output st @ rs"
    "vs_stream_id st' = vs_stream_id st"
    using verify_file_extend [OF st0(2) line] by blast
  have all: "verify_files wx (bt_values (sw_directory w')) verify_start = Inr st'"
    by (simp add: dir bt_values_snoc verify_files_append st0 st')
  have "bt_wf (sw_directory w')"
    using bt_wf_map_value [OF wf] by (simp add: w')
  moreover have "wal_open_ok wx w' st'"
  proof (rule wal_open_okI [OF _ dir])
    show "sw_current_path w' = Some path" "path = segment_name (sw_stream_id w') c"
      "sw_segment_first_cursor w' = Some c" "\<forall>name \<in> fst ` set m. \<exists>d < c. name = segment_name (sw_stream_id w') d"
      using path p c m by (simp_all add: w')
    show "if sw_segment_has_records w' then vs_output st' \<noteq> [] \<and> c \<le> outcome_cursor (last (vs_output st'))
      else vs_output st' \<noteq> [] \<longrightarrow> c = outcome_cursor (last (vs_output st')) + 1"
      using first c rs by (simp add: w' st')
  qed
  ultimately have "wal_ok wx w'" using all stream by (auto simp: wal_ok_def w' st')
  then show ?thesis
    by (simp add: wal_contents_state [OF all] wal_contents_state [OF st] st')
qed

lemma write_line_ok:
  assumes ok: "wal_ok wx w" and fits: "wal_fits wx w cursor" and rs: "rs \<noteq> []"
    and le: "cursor \<le> outcome_cursor (last rs)"
    and line: "verify_line wx l (wal_contents wx w) = Inr (wal_contents wx w @ rs)"
    and wr: "write_line wx cursor l w = (None, w')"
  shows "wal_ok wx w' \<and> wal_contents wx w' = wal_contents wx w @ rs"
proof -
  from ok obtain st where st: "verify_files wx (bt_values (sw_directory w)) verify_start = Inr st"
    and op: "wal_open_ok wx w st" by (auto simp: wal_ok_def)
  note con = wal_contents_state [OF st]
  show ?thesis
  proof (cases "sw_current_path w = None \<or> sw_segment_has_records w
      \<and> sw_bytes w + wx_line_len wx l + 1 > sw_max_segment_bytes w")
    case True
    obtain res w1 where rot: "rotate_with_checkpoint_anchor wx cursor None w = (res, w1)"
      by (cases "rotate_with_checkpoint_anchor wx cursor None w")
    have past: "\<forall>c. sw_segment_first_cursor w = Some c \<longrightarrow> c < cursor"
    proof (cases "sw_current_path w")
      case None
      with op show ?thesis by (simp add: wal_open_ok_def)
    next
      case (Some path)
      with True op have "vs_output st \<noteq> []" and
        "\<forall>c. sw_segment_first_cursor w = Some c \<longrightarrow> c \<le> outcome_cursor (last (vs_output st))"
        by (auto simp: wal_open_ok_def)
      moreover from this fits have "outcome_cursor (last (vs_output st)) < cursor"
        using word_less_add1 [of "outcome_cursor (last (vs_output st))"] by (auto simp: wal_fits_def con)
      ultimately show ?thesis by (auto intro: le_less_trans)
    qed
    have cont: "vs_output st \<noteq> [] \<longrightarrow> cursor = outcome_cursor (last (vs_output st)) + 1"
      using fits by (simp add: wal_fits_def con)
    show ?thesis
    proof (rule rotate_ok [OF ok st past cont header_json_anchor(1) rot])
      fix a assume r: "res = Inr a" "wal_ok wx w1" "wal_contents wx w1 = wal_contents wx w"
        "sw_current_path w1 = Some (segment_name (sw_stream_id w) cursor)"
        "sw_segment_first_cursor w1 = Some cursor"
      from r(2) obtain st1 where st1: "verify_files wx (bt_values (sw_directory w1)) verify_start = Inr st1"
        by (auto simp: wal_ok_def)
      have eq: "vs_output st1 = wal_contents wx w" using r(3) wal_contents_state [OF st1] by simp
      have "wal_ok wx w' \<and> wal_contents wx w' = wal_contents wx w1 @ rs"
        by (rule extend_last [OF r(2,4) st1 _ rs])
          (use wr True rot r line le in \<open>auto simp: write_line_def eq\<close>)
      with r(3) show ?thesis by simp
    qed
  next
    case False
    then obtain path where path: "sw_current_path w = Some path" by auto
    have first: "c \<le> outcome_cursor (last rs)" if c: "sw_segment_first_cursor w = Some c" for c
    proof (cases "sw_segment_has_records w")
      case True
      with op path c have "vs_output st \<noteq> []" "c \<le> outcome_cursor (last (vs_output st))"
        by (auto simp: wal_open_ok_def)
      moreover from this fits have "outcome_cursor (last (vs_output st)) \<le> cursor"
        using less_imp_le [OF word_less_add1 [of "outcome_cursor (last (vs_output st))"]]
        by (auto simp: wal_fits_def con)
      ultimately show ?thesis using le by (metis order_trans)
    next
      case hr: False
      with op path c have "vs_output st \<noteq> [] \<longrightarrow> c = outcome_cursor (last (vs_output st)) + 1"
        by (auto simp: wal_open_ok_def)
      with fits c le show ?thesis by (auto simp: wal_fits_def con split: if_splits)
    qed
    show ?thesis
      by (rule extend_last [OF ok path st _ rs])
        (use wr False path line first in \<open>auto simp: write_line_def con\<close>)
  qed
qed

section \<open>The lines the log writes verify\<close>

lemma fits_continues: "wal_fits wx w c \<Longrightarrow> continues (wal_contents wx w) c"
  by (auto simp: wal_fits_def continues_def split: if_splits)

lemma verify_own_record:
  "continues out (outcome_cursor r) \<Longrightarrow> verify_line wx (RecordLine \<lparr> wl_cursor = outcome_cursor r,
     wl_crc32c = wx_crc32c wx (SinglePayload r), wl_payload_sha256 = wx_sha256 wx (SinglePayload r),
     wl_payload = r \<rparr>) out = Inr (out @ [r])"
  by (simp add: verify_record_def)

lemma restore_strip: "ev_raw_payload (pe_event r) = raw \<Longrightarrow> restore_raw_payload raw (strip_raw_payload r) = r"
  by (auto simp: restore_raw_payload_def strip_raw_payload_def)

lemma push_all_contiguous:
  "contiguous rs \<Longrightarrow> (rs \<noteq> [] \<longrightarrow> continues out (outcome_cursor (hd rs))) \<Longrightarrow> push_all out rs = Inr (out @ rs)"
proof (induction rs arbitrary: out)
  case (Cons r rs)
  then have "contiguous rs" "rs \<noteq> [] \<longrightarrow> outcome_cursor r + 1 = outcome_cursor (hd rs)"
    by (cases rs; simp)+
  with Cons.IH [of "out @ [r]"] Cons.prems(2) show ?case by (simp add: continues_def)
qed simp

lemma strip_fields [simp]:
  "ev_cursor (pe_event (strip_raw_payload r)) = outcome_cursor r"
  "ev_source (pe_event (strip_raw_payload r)) = ev_source (pe_event r)"
  by (simp_all add: strip_raw_payload_def)

lemma verify_own_batch:
  assumes rs: "rs \<noteq> []" "contiguous rs" and cont: "continues out (outcome_cursor (hd rs))"
    and raw: "\<forall>r \<in> set rs. ev_raw_payload (pe_event r) = ev_raw_payload (pe_event (hd rs))"
    and ev: "\<forall>r \<in> set rs. wal_evidence wx r"
  shows "verify_line wx (batch_line wx rs) out = Inr (out @ rs)"
proof -
  let ?raw = "ev_raw_payload (pe_event (hd rs))"
  have "map (restore_raw_payload ?raw) (map strip_raw_payload rs) = rs"
    using raw by (auto simp: restore_strip intro!: map_idI)
  moreover have "\<not> list_ex (\<lambda>p. se_raw_sha256 (ev_source (pe_event p)) \<noteq> wx_raw_sha256 wx ?raw)
      (map strip_raw_payload rs)"
    using ev raw by (auto simp: list_ex_iff wal_evidence_def)
  moreover have "hd (map strip_raw_payload rs) = strip_raw_payload (hd rs)"
    "last (map strip_raw_payload rs) = strip_raw_payload (last rs)"
    using rs(1) by (simp_all add: hd_map last_map)
  ultimately show ?thesis
    using push_all_contiguous [OF rs(2)] cont rs(1)
    by (simp add: batch_line_def Let_def verify_batch_def wal_batch_integrity_bytes_def del: map_map)
qed

lemma wal_append_outcome_ok:
  assumes "wal_ok wx w" "wal_fits wx w (outcome_cursor r)" "wal_append_outcome wx r w = (None, w')"
  shows "wal_contents wx w' = wal_contents wx w @ [r] \<and> wal_ok wx w'"
proof -
  note own = verify_own_record [OF fits_continues [OF assms(2)]]
  have "outcome_cursor r \<le> outcome_cursor (last [r])" by simp
  from write_line_ok [OF assms(1,2) _ this own assms(3) [unfolded wal_append_outcome_def]]
  show ?thesis by blast
qed

lemma wal_append_outcomes_ok:
  assumes ok: "wal_ok wx w" and rs: "rs \<noteq> []" and fits: "wal_fits wx w (outcome_cursor (hd rs))"
    and le: "outcome_cursor (hd rs) \<le> outcome_cursor (last rs)" and ev: "\<forall>r \<in> set rs. wal_evidence wx r"
    and ap: "wal_append_outcomes wx rs w = (None, w')"
  shows "wal_contents wx w' = wal_contents wx w @ rs \<and> wal_ok wx w'"
proof -
  let ?bad = "\<lambda>outcome. se_raw_sha256 (ev_source (pe_event outcome)) \<noteq> se_raw_sha256 (ev_source (pe_event (hd rs)))
     \<or> ev_raw_payload (pe_event outcome) \<noteq> ev_raw_payload (pe_event (hd rs))"
  have c: "contiguous rs" by (rule ccontr) (use ap rs in \<open>simp add: wal_append_outcomes_def\<close>)
  have nb: "\<not> list_ex ?bad rs"
  proof
    assume "list_ex ?bad rs"
    with ap rs c show False unfolding wal_append_outcomes_def by (simp only: if_True if_False not_True_eq_False) simp
  qed
  then have raw: "\<forall>r \<in> set rs. ev_raw_payload (pe_event r) = ev_raw_payload (pe_event (hd rs))"
    unfolding list_ex_iff by blast
  have wr: "write_line wx (outcome_cursor (hd rs)) (batch_line wx rs) w = (None, w')"
    using ap rs c nb unfolding wal_append_outcomes_def by (simp only: if_False not_True_eq_False simp_thms)
  from write_line_ok [OF ok fits rs le verify_own_batch [OF rs c fits_continues [OF fits] raw ev] wr]
  show ?thesis by blast
qed

interpretation wal: durable_log "wal_append_outcome wx" "wal_append_outcomes wx" "wal_contents wx" "wal_ok wx"
  "wal_fits wx" "wal_evidence wx" for wx
proof unfold_locales
  show "wal_ok wx l \<Longrightarrow> wal_contents wx l \<noteq> [] \<Longrightarrow> c = outcome_cursor (last (wal_contents wx l)) + 1 \<Longrightarrow> c \<noteq> 0
    \<Longrightarrow> wal_fits wx l c" for l c
    by (simp add: wal_fits_def)
qed (rule wal_append_outcome_ok wal_append_outcomes_ok; assumption)+

section \<open>Opening and anchoring\<close>

lemma open_empty:
  assumes "open_inner wx root [] stream limit vc = Inr w"
  shows "wal_ok wx w" "wal_contents wx w = []" "wal_fits wx w c"
proof -
  have w: "sw_directory w = []" "sw_current_path w = None" "sw_segment_first_cursor w = None"
    using assms by (auto simp: open_inner_def split: if_splits)
  have st: "verify_files wx (bt_values (sw_directory w)) verify_start = Inr verify_start"
    by (simp add: w bt_values_def)
  show "wal_ok wx w"
    unfolding wal_ok_def using st by (simp add: w wal_open_ok_def verify_start_def)
  show con: "wal_contents wx w = []"
    by (simp add: wal_contents_state [OF st] verify_start_def)
  show "wal_fits wx w c" by (simp add: wal_fits_def con w)
qed

text \<open>Anchoring a checkpoint taken at the end of the log keeps what it holds.\<close>

lemma verify_last_anchor:
  assumes "verify_file wx f st0 = Inr st" and "read_wal_header f = Inr h" and "header_anchor wx h = Inr (Some a)"
  shows "a \<in> set (vs_anchors st)"
  using assms by (auto simp: verify_file_def verify_header_def split: sum.splits option.splits if_splits)

lemma verified_header_anchor:
  assumes "verify_file wx f st0 = Inr st" and "read_wal_header f = Inr h"
    and "get_u64 ''first_cursor'' h = Some c" "get_u64 ''checkpoint_cursor'' h = Some k" "get_str ''checkpoint_sha256'' h = Some s"
  shows "header_anchor wx h = Inr (Some \<lparr> wa_checkpoint_cursor = k, wa_checkpoint_sha256 = s,
    wa_segment_first_cursor = c, wa_segment_header_sha256 = wx_header_sha256 wx h \<rparr>)"
proof -
  obtain a where "header_anchor wx h = Inr a"
    using assms(1,2) by (auto simp: verify_file_def verify_header_def split: sum.splits option.splits if_splits)
  then show ?thesis
    using assms(3-5) by (auto simp: header_anchor_def get_u64_def get_str_def opt_filter_def
        split: option.splits if_splits bind_splits)
qed

lemma anchor_keeps:
  assumes ok: "wal_ok wx w"
    and cp: "wal_contents wx w \<noteq> []" "checkpoint_cursor = outcome_cursor (last (wal_contents wx w))"
    and an: "anchor_checkpoint wx checkpoint_cursor sha w = (Inr a, w')"
  shows "wal_ok wx w' \<and> wal_contents wx w' = wal_contents wx w \<and> a \<in> set (wal_anchors wx w')
    \<and> wa_checkpoint_cursor a = checkpoint_cursor \<and> wa_checkpoint_sha256 a = sha
    \<and> wa_segment_first_cursor a = checkpoint_cursor + 1"
proof -
  from ok obtain st where st: "verify_files wx (bt_values (sw_directory w)) verify_start = Inr st"
    and op: "wal_open_ok wx w st" and wf: "bt_wf (sw_directory w)" by (auto simp: wal_ok_def)
  note con = wal_contents_state [OF st]
  have out: "vs_output st \<noteq> []" "checkpoint_cursor = outcome_cursor (last (vs_output st))" using cp con by auto
  have "sw_current_path w \<noteq> None"
  proof
    assume "sw_current_path w = None"
    with op have "st = verify_start" by (simp add: wal_open_ok_def)
    with out(1) show False by (simp add: verify_start_def)
  qed
  then obtain path m f c where path: "sw_current_path w = Some path" and d: "sw_directory w = m @ [(path, f)]"
    and p: "path = segment_name (sw_stream_id w) c" and c: "sw_segment_first_cursor w = Some c"
    and first: "if sw_segment_has_records w then c \<le> checkpoint_cursor else c = checkpoint_cursor + 1"
    using op out by (auto simp: wal_open_ok_def split: if_splits)
  have cf: "current_file w = Some f" using wf by (simp add: current_file_def path d bt_get_iff)
  obtain st0 where vf: "verify_file wx f st0 = Inr st"
    using st by (auto simp: d bt_values_snoc verify_files_append split: sum.splits)
  from an have dig: "is_digest sha" and nx: "checked_add1 checkpoint_cursor = Some (checkpoint_cursor + 1)"
    by (auto simp: anchor_checkpoint_def checked_add1_def split: if_splits)
  obtain h where h: "read_wal_header f = Inr h" using vf by (auto simp: verify_file_def split: sum.splits)
  consider (held) "w' = w" "a = \<lparr> wa_checkpoint_cursor = checkpoint_cursor, wa_checkpoint_sha256 = sha,
        wa_segment_first_cursor = checkpoint_cursor + 1, wa_segment_header_sha256 = wx_header_sha256 wx h \<rparr>"
      "get_u64 ''first_cursor'' h = Some (checkpoint_cursor + 1)"
      "get_u64 ''checkpoint_cursor'' h = Some checkpoint_cursor" "get_str ''checkpoint_sha256'' h = Some sha"
    | (rotated) "rotate_with_checkpoint_anchor wx (checkpoint_cursor + 1) (Some (checkpoint_cursor, sha)) w = (Inr a, w')"
  proof (cases "get_u64 ''first_cursor'' h = Some (checkpoint_cursor + 1)
      \<and> get_u64 ''checkpoint_cursor'' h = Some checkpoint_cursor
      \<and> get_str ''checkpoint_sha256'' h = Some sha
      \<and> map_option (file_bytes wx) (current_file w) = Some (wx_header_len wx h + 1)")
    case True
    with an dig nx h cf show ?thesis by (intro held) (simp_all add: anchor_checkpoint_def)
  next
    case False
    with an dig nx h cf show ?thesis
      unfolding anchor_checkpoint_def by (intro rotated) (simp only: option.case option.map sum.case if_False not_True_eq_False)
  qed
  then show ?thesis
  proof cases
    case held
    have "a \<in> set (vs_anchors st)"
      using verify_last_anchor [OF vf h verified_header_anchor [OF vf h held(3-5)]] by (simp add: held(2))
    then show ?thesis using ok held by (simp add: wal_anchors_state [OF st])
  next
    case rotated
    have "c < checkpoint_cursor + 1"
    proof (cases "sw_segment_has_records w")
      case True
      with first nx word_less_succ [of checkpoint_cursor] show ?thesis by (auto intro: le_less_trans)
    next
      case False
      with first p d rotated show ?thesis
        by (auto simp: rotate_with_checkpoint_anchor_def Let_def bt_contains_iff_keys bt_keys_def)
    qed
    with c have past: "\<forall>c. sw_segment_first_cursor w = Some c \<longrightarrow> c < checkpoint_cursor + 1" by simp
    have cont: "vs_output st \<noteq> [] \<longrightarrow> checkpoint_cursor + 1 = outcome_cursor (last (vs_output st)) + 1"
      using out by simp
    show ?thesis
      by (rule rotate_ok [OF ok st past cont header_json_anchor(2) [OF dig nx] rotated]) auto
  qed
qed

end
