(* ===== verification/Core_Demo.thy ===== *)
theory Core_Demo
  imports Core_Frame
begin

text \<open>
  A concrete scope for the witnesses: two binary markets \<open>m1\<close> (tokens \<open>t1\<close>, \<open>t2\<close>) and \<open>m2\<close>
  (tokens \<open>t3\<close>, \<open>t4\<close>), all four books two-sided on a one-cent tick, and an instance of the
  external functions. A step on this scope evaluates by \<open>simp add: eval_defs\<close>.
\<close>

definition cents :: "int \<Rightarrow> price" where
  "cents n = n * 10 ^ 26"

definition zero_digest :: string where
  "zero_digest = replicate 64 (CHR ''0'')"

definition demo_ext :: ext where
  "demo_ext = \<lparr> dec_parse = (\<lambda>s. if s = ''0'' then Some 0 else if s = ''1'' then Some decimal_one else None),
     dec_rem = (\<lambda>a b. a mod b), sha_json = (\<lambda>v. zero_digest), sha_text = (\<lambda>s. s),
     sha_facts = (\<lambda>m. ''facts:'' @ fm_market_id m) \<rparr>"

definition demo_source :: source_evidence where
  "demo_source = \<lparr> se_source = ''polymarket_clob_ws'', se_source_url = None, se_requested_at = 0,
     se_responded_at = 0, se_observed_at = 0, se_raw_sha256 = zero_digest, se_update_frequency = [],
     se_revision = [], se_missing = False, se_delayed = False, se_duplicate = False, se_revised = False \<rparr>"

definition demo_event :: "u64 \<Rightarrow> event_kind \<Rightarrow> canonical_event" where
  "demo_event c k = \<lparr> ev_schema_version = contract_version, ev_cursor = c, ev_event_id = ''e6'',
     ev_scope_id = ''scope'', ev_received_at = 50, ev_source_observed_at = 40,
     ev_normalizer_version = normalizer_v2, ev_config_revision = ''c1'', ev_source = demo_source,
     ev_raw_payload = JNull, ev_kind = k \<rparr>"

definition demo_outcome :: "string \<Rightarrow> string \<Rightarrow> outcome_token" where
  "demo_outcome t out = \<lparr> ot_token_id = t, ot_outcome = out, ot_instrument_id = ''i'' @ t \<rparr>"

definition demo_facts :: instrument_facts where
  "demo_facts = \<lparr> if_price_increment = cents 1, if_size_increment = 1, if_minimum_order_size = 1,
     if_settlement_currency = ''USDC'', if_start_at = 0, if_end_at = 100, if_revision = ''f0'',
     if_fee_schedule = None \<rparr>"

definition demo_market :: "string \<Rightarrow> string \<Rightarrow> string \<Rightarrow> string \<Rightarrow> market_record" where
  "demo_market i c t u = \<lparr> mk_market_id = i, mk_condition_id = c,
     mk_outcomes = (demo_outcome t ''Yes'', demo_outcome u ''No''), mk_negative_risk_group = None,
     mk_lifecycle_state = Active, mk_resolution = None, mk_metadata_revision = ''r'', mk_observed_at = 0,
     mk_terminal_at = None, mk_instrument_facts = Some demo_facts \<rparr>"

definition demo_book :: book where
  "demo_book = \<lparr> bk_bids = [(cents 40, 5), (cents 41, 3)], bk_asks = [(cents 45, 7)],
     bk_tick_size = Some (cents 1), bk_tick_version = ''v1'', bk_source_observed_at = Some 30,
     bk_authoritative_refresh_received_at = None, bk_last_trade_price = None,
     bk_last_trade_observed_at = None \<rparr>"

definition demo_health :: "string \<Rightarrow> market_status \<Rightarrow> market_health" where
  "demo_health i s = (health_recovering i 3 (Some ''r1''))
     \<lparr> mh_projection_status := s, mh_last_market_sequence := 2, mh_reason_code := None, mh_retryable := False \<rparr>"

definition demo_projection :: projection where
  "demo_projection = (bootstrap ''scope'')\<lparr>
     pj_generation := 5, pj_cursor := 5, pj_persisted_cursor := 5,
     pj_books := [(''t1'', demo_book), (''t2'', demo_book), (''t3'', demo_book), (''t4'', demo_book)],
     pj_catalog_revision := Some ''r1'',
     pj_markets := [(''m1'', demo_market ''m1'' ''c1'' ''t1'' ''t2''), (''m2'', demo_market ''m2'' ''c2'' ''t3'' ''t4'')],
     pj_condition_to_market := [(''c1'', ''m1''), (''c2'', ''m2'')],
     pj_market_health := [(''m1'', demo_health ''m1'' Ready), (''m2'', demo_health ''m2'' Ready)],
     pj_recent_event_ids := [''e5''],
     pj_ready := True, pj_fail_closed_reason := None \<rparr>"

definition demo_level :: "int \<Rightarrow> int \<Rightarrow> level" where
  "demo_level p q = \<lparr> lv_price = cents p, lv_quantity = q \<rparr>"

text \<open>A venue frame that raises one bid level and reports the best bid below a retained level.\<close>

definition demo_delta :: event_kind where
  "demo_delta = AtomicDelta ''t1'' [\<lparr> sl_side = Bid, sl_levels = [demo_level 40 9] \<rparr>]
     (Some (cents 40)) (Some (cents 45))"

lemma zero_digest_ok [simp]: "is_digest zero_digest" "to_ascii_lowercase zero_digest = zero_digest"
  by code_simp+

lemmas demo_defs = demo_ext_def demo_source_def demo_event_def demo_outcome_def demo_facts_def
  demo_market_def demo_book_def demo_health_def demo_projection_def demo_level_def demo_delta_def cents_def

lemmas eval_defs = demo_defs
  bootstrap_def health_recovering_def book_default_def outcomes_def decimal_one_def
  is_none_or_def is_some_and_def opt_filter_def opt_or_def unwrap_or_def saturating_add1_def
  bt_get_def bt_contains_def bt_remove_def bt_retain_def bt_keys_def bt_values_def bt_first_def
  bt_last_def bt_of_list_def bt_map_value_def bs_of_list_def starts_with_def
  levels_tick_aligned_def side_of_levels_def book_replace_def apply_level_def book_apply_def
  book_apply_batch_def side_writes_def side_removals_def removal_levels_def expected_bid_def
  expected_ask_def outside_bid_def outside_ask_def replay_complete_atomic_changes_def
  crossed_or_locked_def prune_bids_def prune_asks_def best_bid_of_def best_ask_of_def
  market_tokens_def has_token_def active_markets_def market_is_public_def public_markets_def
  market_id_for_token_def active_market_ids_def configured_token_ids_def token_has_recovery_gap_def
  market_ticks_consistent_def instrument_ticks_consistent_def active_market_books_two_sided_def
  catalog_books_complete_def usable_projection_def prune_stale_scope_gaps_def
  facts_executable_def group_executable_def token_executable_def market_books_are_executable_def
  nanos_per_second_def health_entry_def update_health_def quarantine_market_def facts_revision_def
  reconcile_active_market_instrument_ticks_def
  contract_version_def normalizer_v2_def reject_def accept_def put_book_def evidence_invalid_def
  event_guard_def open_event_def next_market_sequence_def event_book_def delayed_superseded_def
  queued_superseded_def bbo_superseded_def incremental_superseded_def expand_event_def
  catalog_gap_def negative_risk_gap_def add_gap_def apply_new_market_def chain_revision_def
  resolved_record_def close_group_def resolve_market_def apply_resolved_def token_is_active_def
  clob_http_def apply_full_book_def live_book_def apply_delta_def source_expected_bid_def
  source_expected_ask_def prune_to_bbo_def apply_atomic_delta_def apply_best_bid_ask_def
  rem_is_zero_def apply_last_trade_def apply_tick_size_def apply_source_gap_def decide_event_def
  localize_fault_def expected_recovery_tokens_def observe_recovery_def recovery_complete_def
  release_tokens_def mark_ready_def incomplete_reason_def mark_recovering_def recover_market_def
  not_executable_reason_def demote_market_def publish_readiness_def record_market_event_def
  market_event_metadata_def recent_window_def remember_event_def finish_event_def evaluate_event_def

lemmas eval_congs = let_weak_cong prod.case_cong_weak sum.case_cong_weak option.case_cong_weak
  list.case_cong_weak

definition demo_eval :: "projection \<Rightarrow> event_kind \<Rightarrow> core_error + (projection \<times> persisted_event)" where
  "demo_eval p k = evaluate_event demo_ext True False True p (demo_event 6 k)"

text \<open>The outcome of a step that succeeds, by name.\<close>

definition demo_next :: "projection \<Rightarrow> event_kind \<Rightarrow> projection" where
  "demo_next p k = (case demo_eval p k of Inr (q, r) \<Rightarrow> q | Inl _ \<Rightarrow> p)"

definition demo_record :: "projection \<Rightarrow> event_kind \<Rightarrow> persisted_event" where
  "demo_record p k = (case demo_eval p k of Inr (q, r) \<Rightarrow> r
     | Inl _ \<Rightarrow> \<lparr> pe_event = demo_event 6 k, pe_applied = False, pe_fail_closed_reason = None, pe_market = None \<rparr>)"

lemma demo_outcome_named:
  "case demo_eval p k of Inr (q, r) \<Rightarrow> P q r | Inl err \<Rightarrow> False \<Longrightarrow>
     evaluate_event demo_ext True False True p (demo_event 6 k) = Inr (demo_next p k, demo_record p k)
     \<and> P (demo_next p k) (demo_record p k)"
  by (auto simp: demo_next_def demo_record_def demo_eval_def split: sum.splits)

text \<open>A bid between two ticks: the frame is rejected and its market quarantined.\<close>

definition demo_misaligned :: event_kind where
  "demo_misaligned = AtomicDelta ''t1'' [\<lparr> sl_side = Bid, sl_levels = [\<lparr> lv_price = 5 * 10 ^ 25, lv_quantity = 9 \<rparr>] \<rparr>]
     None None"

text \<open>The market \<open>m1\<close> alone and quarantined, with its second book already observed again.\<close>

definition demo_recovering :: projection where
  "demo_recovering = demo_projection\<lparr>
     pj_books := [(''t1'', demo_book), (''t2'', demo_book)],
     pj_markets := [(''m1'', demo_market ''m1'' ''c1'' ''t1'' ''t2'')],
     pj_condition_to_market := [(''c1'', ''m1'')],
     pj_market_health := [(''m1'', demo_health ''m1'' Quarantined)],
     pj_quarantined_token_ids := {''t1''},
     pj_market_recovery_token_ids := [(''m1'', {''t2''})] \<rparr>"

definition demo_full_book :: event_kind where
  "demo_full_book = FullBook ''t1'' [demo_level 42 8] [demo_level 44 6] (cents 1) ''v2''"

lemmas scenario_defs = demo_eval_def demo_misaligned_def demo_recovering_def demo_full_book_def eval_defs

text \<open>The frame is applied, and the stale bid at 41 cents is gone.\<close>

lemma demo_delta_step:
  "case demo_eval demo_projection demo_delta of
     Inr (q, r) \<Rightarrow> pe_applied r \<and> pj_ready q
       \<and> map_option bk_bids (bt_get (pj_books q) ''t1'') = Some [(cents 40, 9)]
       \<and> map_option mh_projection_status (bt_get (pj_market_health q) ''m1'') = Some Ready
   | Inl err \<Rightarrow> False"
  by (simp add: scenario_defs cong: eval_congs split del: if_split)

lemma demo_misaligned_step:
  "case demo_eval demo_projection demo_misaligned of
     Inr (q, r) \<Rightarrow> \<not> pe_applied r
   | Inl err \<Rightarrow> False"
  by (simp add: scenario_defs cong: eval_congs split del: if_split)

lemma demo_recovery_step:
  "case demo_eval demo_recovering demo_full_book of
     Inr (q, r) \<Rightarrow> map_option mm_transition (pe_market r) = Some (Some Recovered)
   | Inl err \<Rightarrow> False"
  by (simp add: scenario_defs cong: eval_congs split del: if_split)

lemmas demo_accepted = demo_outcome_named [OF demo_delta_step]
lemmas demo_rejected = demo_outcome_named [OF demo_misaligned_step]
lemmas demo_recovered = demo_outcome_named [OF demo_recovery_step]

end
