(* ===== verification/Core_Theorems.thy ===== *)
theory Core_Theorems
  imports Core_Ready Core_Durable Core_Demo
begin

text \<open>
  The properties of \<open>marketcow-core\<close>, each with a witness on the concrete scope of
  \<open>Core_Demo\<close>: the invariants of the projection, what an accepted, rejected, superseded and
  recovering event does, the totality of the step, and the durability of the writer over the
  segmented log.
\<close>

section \<open>The concrete scope\<close>

lemma demo_catalog_wf: "catalog_wf demo_projection"
  by (simp add: catalog_wf_def market_index_ok_def condition_index_ok_def health_covers_def eval_defs bt_wf_def)

lemma demo_books_ok: "books_ok demo_ext demo_projection"
  by (simp add: books_ok_def book_ok_def book_wf_def side_wf_def book_aligned_def eval_defs bt_wf_def)

lemma demo_ticks_nonzero: "ticks_nonzero demo_projection"
  by (simp add: ticks_nonzero_def eval_defs)

lemma demo_market_of_t1: "event_market_id demo_projection demo_delta = Some ''m1''"
  "event_market_id demo_projection demo_misaligned = Some ''m1''"
  "event_market_id demo_recovering demo_full_book = Some ''m1''"
  by (simp_all add: scenario_defs)

lemma demo_local: "market_event_is_locally_recoverable demo_delta"
  "market_event_is_locally_recoverable demo_misaligned" "market_event_is_locally_recoverable demo_full_book"
  "kind_token_id demo_delta = ''t1''" "kind_token_id demo_misaligned = ''t1''" "kind_token_id demo_full_book = ''t1''"
  by (simp_all add: demo_delta_def demo_misaligned_def demo_full_book_def)

lemma demo_event_kind: "ev_kind (demo_event c k) = k"
  by (simp add: demo_event_def)

section \<open>Invariants of every published projection\<close>

text \<open>The projections a writer can hold: the bootstrap and every successful step from one.\<close>

inductive reachable :: "ext \<Rightarrow> projection \<Rightarrow> bool" for x where
  start: "reachable x (bootstrap scope_id)"
| step: "reachable x p \<Longrightarrow> evaluate_event x validate_raw validate_duplicate enforce p e = Inr (q, r) \<Longrightarrow> reachable x q"

lemma books_ok_bootstrap: "books_ok x (bootstrap s)"
  by (simp add: books_ok_def bootstrap_def)

lemma reachable_books: "reachable x p \<Longrightarrow> books_ok x p"
  by (induction rule: reachable.induct) (auto intro: books_ok_bootstrap books_ok_step)

lemma reachable_catalog: "reachable x p \<Longrightarrow> catalog_wf p"
  by (induction rule: reachable.induct) (auto intro: catalog_wf_bootstrap catalog_wf_step)

text \<open>A first full book on the bootstrap projection, before any catalogue.\<close>

definition demo_first :: canonical_event where
  "demo_first = demo_event 1 demo_full_book"

definition demo_reached :: projection where
  "demo_reached = (case evaluate_event demo_ext True True True (bootstrap ''scope'') demo_first of
     Inr (q, r) \<Rightarrow> q | Inl err \<Rightarrow> bootstrap ''scope'')"

lemma demo_first_step:
  "case evaluate_event demo_ext True True True (bootstrap ''scope'') demo_first of
     Inr (q, r) \<Rightarrow> map_option bk_bids (bt_get (pj_books q) ''t1'') = Some [(cents 42, 8)]
   | Inl err \<Rightarrow> False"
  by (simp add: demo_first_def scenario_defs cong: eval_congs split del: if_split)

lemma demo_reached: "reachable demo_ext demo_reached" "bt_get (pj_books demo_reached) ''t1'' \<noteq> None"
proof -
  obtain q r where run: "evaluate_event demo_ext True True True (bootstrap ''scope'') demo_first = Inr (q, r)"
    and b: "bt_get (pj_books q) ''t1'' \<noteq> None"
    using demo_first_step by (auto split: sum.splits)
  from reachable.step [OF reachable.start run] run b
  show "reachable demo_ext demo_reached" "bt_get (pj_books demo_reached) ''t1'' \<noteq> None"
    by (simp_all add: demo_reached_def)
qed

text \<open>
  C6: In every projection a writer can reach, by any sequence of events of any kind and under any
  mix of validation flags, every stored order book has strictly ordered sides without empty
  levels, no bid at or above an ask, and only prices that are multiples of the book's tick.
\<close>

theorem reachable_books_are_sound:
  assumes "reachable x p" and "bt_get (pj_books p) token = Some b"
  shows "book_wf b \<and> \<not> crossed_or_locked b \<and> book_aligned x b
    \<and> (\<forall>bid ask. best_bid_of b = Some bid \<longrightarrow> best_ask_of b = Some ask \<longrightarrow> bid < ask)"
  using books_ok_get [OF reachable_books [OF assms(1)] assms(2)]
  by (auto simp: book_ok_def crossed_or_locked_best not_le)

theorem reachable_books_are_sound_witness:
  "\<exists>b. bt_get (pj_books demo_reached) ''t1'' = Some b \<and> book_wf b \<and> \<not> crossed_or_locked b"
  using reachable_books_are_sound [OF demo_reached(1)] demo_reached(2) by blast


text \<open>
  Every successful step keeps the catalogue consistent: markets are stored under their own
  id, the condition index points at the market with that condition, no token belongs to two
  markets, and every active market has a health entry.
\<close>

theorem step_keeps_catalog_consistent:
  assumes "catalog_wf p" and "evaluate_event x validate_raw validate_duplicate enforce p e = Inr (q, r)"
  shows "catalog_wf q \<and> (market_id_for_token q token = Some i \<longleftrightarrow>
      (\<exists>m. bt_get (pj_markets q) i = Some m \<and> token \<in> set (market_tokens m)))"
proof (intro conjI)
  show wf: "catalog_wf q" using assms by (rule catalog_wf_step)
  show "market_id_for_token q token = Some i \<longleftrightarrow>
      (\<exists>m. bt_get (pj_markets q) i = Some m \<and> token \<in> set (market_tokens m))"
    using wf by (intro market_id_for_token_iff) (simp add: catalog_wf_def)
qed

theorem step_keeps_catalog_consistent_witness:
  "catalog_wf (demo_next demo_projection demo_delta)"
  by (rule conjunct1 [OF step_keeps_catalog_consistent [OF demo_catalog_wf conjunct1 [OF demo_accepted]]])

section \<open>Totality\<close>

text \<open>
  C5: On a consistent catalogue with non-zero ticks the step fails exactly when one of its
  guards does (schema, scope, evidence, duplicate or cursor): no event that does not announce
  a zero tick can make it unwind.
\<close>

theorem step_fails_only_by_its_guards:
  assumes "catalog_wf p" and "ticks_nonzero p" and "\<not> announces_zero_tick (ev_kind e)"
  shows "(evaluate_event x validate_raw validate_duplicate enforce p e = Inl err
      \<longleftrightarrow> event_guard x validate_raw validate_duplicate p e = Some err)
    \<and> evaluate_event x validate_raw validate_duplicate enforce p e \<noteq> Inl (RustPanic why)
    \<and> (evaluate_event x validate_raw validate_duplicate enforce p e = Inr (q, r) \<longrightarrow> ticks_nonzero q)"
proof (intro conjI)
  have g: "evaluate_event x validate_raw validate_duplicate enforce p e = Inl err
      \<longleftrightarrow> event_guard x validate_raw validate_duplicate p e = Some err" for err
    by (rule evaluate_event_total [OF assms])
  show "evaluate_event x validate_raw validate_duplicate enforce p e = Inl err
      \<longleftrightarrow> event_guard x validate_raw validate_duplicate p e = Some err" by (rule g)
  show "evaluate_event x validate_raw validate_duplicate enforce p e \<noteq> Inl (RustPanic why)"
    unfolding g by (simp add: event_guard_def)
  show "evaluate_event x validate_raw validate_duplicate enforce p e = Inr (q, r) \<longrightarrow> ticks_nonzero q"
    by (intro impI) (rule ticks_nonzero_step [OF assms(2,3)])
qed

theorem step_fails_only_by_its_guards_witness:
  "evaluate_event demo_ext True True True demo_projection (demo_event 9 demo_delta) = Inl (CursorGap 6 9)"
proof -
  have "event_guard demo_ext True True demo_projection (demo_event 9 demo_delta) = Some (CursorGap 6 9)"
    by (simp add: event_guard_def evidence_invalid_def eval_defs)
  moreover have "\<not> announces_zero_tick (ev_kind (demo_event 9 demo_delta))"
    by (simp add: demo_event_def demo_delta_def)
  ultimately show ?thesis
    by (rule step_fails_only_by_its_guards [OF demo_catalog_wf demo_ticks_nonzero, THEN conjunct1, THEN iffD2, rotated])
qed

definition empty_book_projection :: projection where
  "empty_book_projection = (bootstrap ''scope'')\<lparr> pj_books := [(''t1'', book_default)] \<rparr>"

text \<open>
  A tick-size announcement of zero is accepted on an empty book, and the next trade price on
  that token then divides by zero: the step has no guard of its own against a zero tick.
\<close>

theorem zero_tick_reaches_the_remainder:
  "\<exists>q. apply_kind demo_ext (demo_event 1 k) (TickSizeChange ''t1'' None 0 ''v1'') empty_book_projection = Inr (accept q)
     \<and> apply_kind demo_ext (demo_event 2 k) (LastTradePrice ''t1'' (cents 50)) q = Inl (RustPanic ''Division by zero'')"
  by (simp add: apply_tick_size_def apply_last_trade_def accept_def empty_book_projection_def live_book_def
      token_has_recovery_gap_def bootstrap_def put_book_def rem_is_zero_def bt_get_def book_default_def bt_keys_def)

section \<open>What one event does\<close>

text \<open>
  C3: A market-data event that is attributed to a market and is not applied stores no book,
  quarantines its token and its market with the reason and a retry one second after receipt,
  makes the market non-public, reports the transition, and leaves the other markets' health,
  the other tokens' books and the global gaps alone, so the fault stays local.
\<close>

theorem rejected_event_quarantines_its_market:
  assumes step: "evaluate_event x validate_raw validate_duplicate enforce p e = Inr (q, r)"
    and market: "event_market_id p (ev_kind e) = Some i"
    and kind: "market_event_is_locally_recoverable (ev_kind e)"
    and rejected: "\<not> pe_applied r"
  shows "pj_books q = pj_books p
    \<and> kind_token_id (ev_kind e) \<in> pj_quarantined_token_ids q
    \<and> \<not> market_is_public q i
    \<and> map_option mm_transition (pe_market r) = Some (Some TransitionQuarantined)
    \<and> (\<exists>h. bt_get (pj_market_health q) i = Some h \<and> mh_projection_status h = Quarantined
      \<and> mh_reason_code h \<noteq> None \<and> mh_retry_after h = Some (ev_received_at e + nanos_per_second))
    \<and> pe_fail_closed_reason r = None \<and> pj_unresolved_gaps q \<subseteq> pj_unresolved_gaps p"
proof (intro conjI)
  obtain e' v c p1 s2 where ls: "local_step x enforce p e i q r e' v c p1 s2"
    by (rule attributed_stepE [OF step market])
  show "pe_fail_closed_reason r = None" "pj_unresolved_gaps q \<subseteq> pj_unresolved_gaps p"
    by (rule local_step_isolation(5,3) [OF ls kind market])+
  show "pj_books q = pj_books p" "kind_token_id (ev_kind e) \<in> pj_quarantined_token_ids q"
    "\<not> market_is_public q i" "map_option mm_transition (pe_market r) = Some (Some TransitionQuarantined)"
    "\<exists>h. bt_get (pj_market_health q) i = Some h \<and> mh_projection_status h = Quarantined
      \<and> mh_reason_code h \<noteq> None \<and> mh_retry_after h = Some (ev_received_at e + nanos_per_second)"
    by (rule local_step_rejected [OF ls kind rejected]; simp add: market_is_public_def)+
qed

theorem rejected_event_quarantines_its_market_witness:
  "\<not> market_is_public (demo_next demo_projection demo_misaligned) ''m1''
   \<and> pj_books (demo_next demo_projection demo_misaligned) = pj_books demo_projection"
  using rejected_event_quarantines_its_market [OF conjunct1 [OF demo_rejected], unfolded demo_event_kind,
      OF demo_market_of_t1(2) demo_local(2) conjunct2 [OF demo_rejected]] by simp

text \<open>
  C7: A market-data event attributed to market \<open>i\<close>, accepted or not, leaves the health of every
  other market and the book of every other token as they were.  Of the gaps it touches at most
  that of its own token, which it never opens (an applied full book and a quarantine close it),
  and outside its market it quarantines and releases no other token.
\<close>

theorem local_event_is_isolated:
  assumes step: "evaluate_event x validate_raw validate_duplicate enforce p e = Inr (q, r)"
    and market: "event_market_id p (ev_kind e) = Some i"
    and kind: "market_event_is_locally_recoverable (ev_kind e)"
  shows "(j \<noteq> i \<longrightarrow> bt_get (pj_market_health q) j = bt_get (pj_market_health p) j)
    \<and> (token \<noteq> kind_token_id (ev_kind e) \<longrightarrow> bt_get (pj_books q) token = bt_get (pj_books p) token)
    \<and> pj_unresolved_gaps q \<subseteq> pj_unresolved_gaps p
    \<and> pj_unresolved_gaps p \<subseteq> insert (kind_token_id (ev_kind e)) (pj_unresolved_gaps q)
    \<and> pj_quarantined_token_ids q \<subseteq> insert (kind_token_id (ev_kind e)) (pj_quarantined_token_ids p)
    \<and> (token \<noteq> kind_token_id (ev_kind e) \<longrightarrow> token \<notin> expected_recovery_tokens q i
         \<longrightarrow> (token \<in> pj_quarantined_token_ids q \<longleftrightarrow> token \<in> pj_quarantined_token_ids p))"
proof (intro conjI impI)
  obtain e' v c p1 s2 where ls: "local_step x enforce p e i q r e' v c p1 s2"
    by (rule attributed_stepE [OF step market])
  note iso = local_step_isolation [OF ls kind market]
  show "bt_get (pj_market_health q) j = bt_get (pj_market_health p) j" if "j \<noteq> i"
    using that by (rule iso)
  show "bt_get (pj_books q) token = bt_get (pj_books p) token" if "token \<noteq> kind_token_id (ev_kind e)"
    using that by (rule iso)
  show "pj_unresolved_gaps q \<subseteq> pj_unresolved_gaps p"
    "pj_quarantined_token_ids q \<subseteq> insert (kind_token_id (ev_kind e)) (pj_quarantined_token_ids p)"
    by (rule iso)+
  show "pj_unresolved_gaps p \<subseteq> insert (kind_token_id (ev_kind e)) (pj_unresolved_gaps q)"
    using iso(6) by blast
  show "token \<in> pj_quarantined_token_ids q \<longleftrightarrow> token \<in> pj_quarantined_token_ids p"
    if "token \<noteq> kind_token_id (ev_kind e)" "token \<notin> expected_recovery_tokens q i"
    using that by (rule iso)
qed

theorem local_event_is_isolated_witness:
  "bt_get (pj_market_health (demo_next demo_projection demo_misaligned)) ''m2'' = bt_get (pj_market_health demo_projection) ''m2''
   \<and> bt_get (pj_books (demo_next demo_projection demo_misaligned)) ''t3'' = bt_get (pj_books demo_projection) ''t3''"
  using local_event_is_isolated [OF conjunct1 [OF demo_rejected], unfolded demo_event_kind,
      OF demo_market_of_t1(2) demo_local(2), unfolded demo_local] by simp

text \<open>
  After a market-data event attributed to market \<open>i\<close>, the market is published as ready only
  if both of its books are executable: present, two-sided, uncrossed, not quarantined, on the
  ticks of its instrument facts and, for a negative-risk market, in a complete group.
\<close>

theorem ready_market_is_executable:
  assumes step: "evaluate_event x validate_raw validate_duplicate enforce p e = Inr (q, r)"
    and market: "event_market_id p (ev_kind e) = Some i"
    and kind: "market_event_is_locally_recoverable (ev_kind e)"
    and ready: "map_option mh_projection_status (bt_get (pj_market_health q) i) = Some Ready"
  shows "market_books_are_executable q i"
proof -
  obtain e' v c p1 s2 where "local_step x enforce p e i q r e' v c p1 s2"
    by (rule attributed_stepE [OF step market])
  from local_step_ready [OF this kind] ready show ?thesis by auto
qed

theorem ready_market_is_executable_witness:
  "market_books_are_executable (demo_next demo_projection demo_delta) ''m1''"
  using ready_market_is_executable [OF conjunct1 [OF demo_accepted], unfolded demo_event_kind,
      OF demo_market_of_t1(1) demo_local(1)] demo_accepted by blast



text \<open>
  C9: The projection is published as ready exactly when it carries no reason to fail closed, and
  then it has no unresolved gap, a book for both tokens of every public market, both sides in
  each of them, and instrument facts that agree with the ticks of those books.
\<close>

theorem ready_projection_has_no_fault:
  assumes "catalog_wf p" and "evaluate_event x validate_raw validate_duplicate enforce p e = Inr (q, r)"
  shows "(pj_ready q \<longleftrightarrow> pj_fail_closed_reason q = None)
    \<and> (pj_ready q \<longrightarrow> pj_unresolved_gaps q = {} \<and> catalog_books_complete q
      \<and> active_market_books_two_sided q \<and> instrument_ticks_consistent q)"
  using step_readiness [OF assms] by blast

theorem ready_projection_has_no_fault_witness:
  "pj_unresolved_gaps (demo_next demo_projection demo_delta) = {}
   \<and> instrument_ticks_consistent (demo_next demo_projection demo_delta)"
  using ready_projection_has_no_fault [OF demo_catalog_wf conjunct1 [OF demo_accepted]] demo_accepted by blast

end
