(* ===== verification/Core_Log_Theorems.thy ===== *)
theory Core_Log_Theorems
  imports Core_Theorems
begin

text \<open>
  The properties of the writer and of its log: what is persisted suffices to repeat the step,
  duplicates, failures and batches, and recovery from the segmented log.
\<close>

section \<open>What is persisted\<close>

text \<open>
  C4: The expanded change list of an atomic delta is self-contained: applied to the previous book
  without the venue's best bid and ask, it yields the book that the original changes yield after
  pruning by that best bid and ask.
\<close>

theorem persisted_delta_is_self_contained:
  assumes "book_wf b" and "changes \<noteq> []" and "best_bid \<noteq> None \<or> best_ask \<noteq> None"
  shows "book_apply_batch (replay_complete_atomic_changes changes best_bid best_ask b) at b
    = prune_to_bbo (expected_bid best_bid) (expected_ask best_ask) (book_apply_batch changes at b)"
proof -
  let ?cs = "replay_complete_atomic_changes changes best_bid best_ask b"
  have n: "\<not> (best_bid = None \<and> best_ask = None)" using assms(3) by blast
  have ne: "?cs \<noteq> []" using assms(2) by (auto simp: replay_complete_atomic_changes_def Let_def)
  have at: "bk_source_observed_at (book_apply_batch cs at b) = Some at" if "cs \<noteq> []" for cs b
    using that by (induction cs arbitrary: b rule: list_nonempty_induct) (simp_all add: book_apply_batch_def)
  have frame: "bk_last_trade_price (book_apply_batch cs at b) = bk_last_trade_price b"
    "bk_last_trade_observed_at (book_apply_batch cs at b) = bk_last_trade_observed_at b" for cs b
    by (induction cs arbitrary: b) (auto simp: book_apply_batch_def book_apply_def split: side.splits)
  show ?thesis
    by (rule book.equality)
      (simp_all add: prune_to_bbo_def expanded_apply_bids [OF n assms(1)] expanded_apply_asks [OF n assms(1)]
        at [OF ne] at [OF assms(2)] frame)
qed

theorem persisted_delta_is_self_contained_witness:
  "bk_bids (book_apply_batch (replay_complete_atomic_changes [\<lparr> sl_side = Bid, sl_levels = [demo_level 40 9] \<rparr>]
      (Some (cents 40)) (Some (cents 45)) demo_book) 40 demo_book) = [(cents 40, 9)]"
proof -
  have "book_wf demo_book" by (simp add: book_wf_def side_wf_def eval_defs bt_wf_def)
  from persisted_delta_is_self_contained [OF this, of "[\<lparr> sl_side = Bid, sl_levels = [demo_level 40 9] \<rparr>]"
      "Some (cents 40)" "Some (cents 45)" 40]
  show ?thesis by (simp add: eval_defs)
qed

text \<open>
  C10: Evaluating the persisted event of a step again, on the projection the step started from,
  gives the same projection and the same outcome: a record of the log determines the step.
\<close>

theorem persisted_event_reproduces_step:
  assumes "evaluate_event x validate_raw validate_duplicate enforce p e = Inr (q, r)"
  shows "evaluate_event x validate_raw validate_duplicate enforce p (pe_event r) = Inr (q, r)"
  using assms by (rule evaluate_event_again)

theorem persisted_event_reproduces_step_witness:
  "evaluate_event demo_ext True False True demo_projection (pe_event (demo_record demo_projection demo_delta))
     = Inr (demo_next demo_projection demo_delta, demo_record demo_projection demo_delta)"
  by (rule persisted_event_reproduces_step [OF conjunct1 [OF demo_accepted]])

section \<open>Functional behaviour of a step\<close>

lemma expand_event_kind:
  assumes "ev_kind e = AtomicDelta token changes best_bid best_ask"
  shows "\<exists>cs. ev_kind (expand_event en p e) = AtomicDelta token cs best_bid best_ask"
proof (cases "expand_event en p e = e")
  case False
  then have "bt_get (pj_books p) token \<noteq> None" using assms by (auto simp: expand_event_def split: if_splits option.splits)
  with assms show ?thesis by (auto simp: expand_event_def)
qed (simp add: assms)

text \<open>
  When an atomic delta of the second normalizer is applied and not superseded, the best bid
  and ask of the stored book are the ones the venue reported with the frame, a reported bid of
  zero or ask of one standing for an empty side.
\<close>

theorem applied_delta_matches_venue_quotes:
  assumes step: "evaluate_event x validate_raw validate_duplicate enforce p e = Inr (q, r)"
    and kind: "ev_kind e = AtomicDelta token changes best_bid best_ask"
    and v2: "ev_normalizer_version e = normalizer_v2" and quoted: "best_bid \<noteq> None \<or> best_ask \<noteq> None"
    and applied: "pe_applied r" and fresh: "\<not> incremental_superseded p e"
  shows "\<exists>b. bt_get (pj_books q) token = Some b \<and> best_bid_of b = opt_filter (\<lambda>bid. bid \<noteq> 0) best_bid
    \<and> best_ask_of b = opt_filter (\<lambda>ask. ask \<noteq> decimal_one) best_ask"
proof (rule evaluate_eventE [OF step])
  fix e' p0 a rj m n pv
  assume d: "decide_event x enforce (open_event p e) e = Inr (e', p0, a, rj)"
    and f: "finish_event x m n pv e' (p0, a, rj) = Inr (q, r)"
  note fr = finish_event_frame [OF f]
  have a: "a" using fr(13) applied by simp
  have sup: "\<not> incremental_superseded (open_event p e) e"
    using fresh by (simp add: incremental_superseded_def delayed_superseded_def queued_superseded_def
        bbo_superseded_def event_book_def)
  show ?thesis
  proof (rule decide_eventE [OF d])
    fix why assume "(p0, a, rj) = reject (kind_token_id (ev_kind e)) why (open_event p e)"
    with a show ?thesis by (simp add: reject_def)
  next
    assume "incremental_superseded (open_event p e) e"
    with sup show ?thesis by simp
  next
    assume e': "e' = expand_event enforce (open_event p e) e"
      and k: "apply_kind x e' (ev_kind e') (open_event p e) = Inr (p0, a, rj)"
    obtain cs where "ev_kind e' = AtomicDelta token cs best_bid best_ask"
      using expand_event_kind [OF kind] unfolding e' by blast
    moreover have "ev_normalizer_version e' = normalizer_v2" using v2 by (simp add: e')
    ultimately show ?thesis
      using apply_atomic_delta_quotes [of x e' token cs best_bid best_ask "open_event p e" p0 rj] k a quoted
      by (simp add: fr source_expected_bid_def source_expected_ask_def)
  qed
qed

theorem applied_delta_matches_venue_quotes_witness:
  "\<exists>b. bt_get (pj_books (demo_next demo_projection demo_delta)) ''t1'' = Some b \<and> best_bid_of b = Some (cents 40)
     \<and> best_ask_of b = Some (cents 45)"
proof -
  have "\<not> incremental_superseded demo_projection (demo_event 6 demo_delta)"
    by (simp add: eval_defs)
  with applied_delta_matches_venue_quotes [OF conjunct1 [OF demo_accepted], of "''t1''"
      "[\<lparr> sl_side = Bid, sl_levels = [demo_level 40 9] \<rparr>]" "Some (cents 40)" "Some (cents 45)"] demo_accepted
  show ?thesis by (simp add: demo_event_def demo_delta_def cents_def decimal_one_def)
qed

text \<open>
  An increment that a newer full book supersedes is a durable no-op: it is recorded as
  applied with its changes cleared, and neither the books nor the gaps change.
\<close>

theorem superseded_increment_is_noop:
  assumes step: "evaluate_event x validate_raw validate_duplicate enforce p e = Inr (q, r)"
    and sup: "incremental_superseded p e" and present: "\<not> se_missing (ev_source e)"
  shows "pe_applied r \<and> pj_books q = pj_books p \<and> ev_kind (pe_event r) = clear_changes (ev_kind e)
    \<and> pj_unresolved_gaps q \<subseteq> pj_unresolved_gaps p"
proof (rule evaluate_eventE [OF step])
  fix e' p0 a rj m n pv
  assume d: "decide_event x enforce (open_event p e) e = Inr (e', p0, a, rj)"
    and f: "finish_event x m n pv e' (p0, a, rj) = Inr (q, r)"
  note fr = finish_event_frame [OF f]
  have sup': "incremental_superseded (open_event p e) e"
    using sup by (simp add: incremental_superseded_def delayed_superseded_def queued_superseded_def
        bbo_superseded_def event_book_def)
  have v: "e' = e\<lparr> ev_kind := clear_changes (ev_kind e) \<rparr>" "p0 = open_event p e" "a" "rj = None"
    using d sup' present by (simp_all add: decide_event_def Let_def accept_def expand_event_stale)
  have "pj_unresolved_gaps q \<subseteq> pj_unresolved_gaps p0"
  proof (rule finish_eventE [OF f])
    fix c p1 s1 s2
    assume rec: "reconcile_active_market_instrument_ticks x (es_next (localize_fault m n e' p0 rj)) = Inr (c, p1)"
      and s1: "s1 = (localize_fault m n e' p0 rj)\<lparr> es_next := p1 \<rparr>"
      and s2: "s2 = (case m of None \<Rightarrow> s1 | Some i \<Rightarrow> demote_market i n pv e' (recover_market i pv e' a s1))"
      and q: "q = remember_event e' (case m of None \<Rightarrow> publish_readiness c (es_rejected s2) (es_next s2)
         | Some i \<Rightarrow> record_market_event i n e' (publish_readiness c (es_rejected s2) (es_next s2)))"
    have "pj_unresolved_gaps p1 = pj_unresolved_gaps p0"
      using reconcile_frame(15) [OF rec] by (simp add: v(4) localize_fault_def split: option.splits)
    moreover have "pj_unresolved_gaps (es_next s2) \<subseteq> pj_unresolved_gaps p1"
      unfolding s2 s1 by (cases m) (auto simp: demote_market_def)
    ultimately show ?thesis unfolding q by (cases m) auto
  qed
  with v show ?thesis by (simp add: fr)
qed

text \<open>A frame received before the book's authoritative refresh.\<close>

definition demo_refreshed :: projection where
  "demo_refreshed = demo_recovering\<lparr> pj_books := [(''t1'', demo_book\<lparr> bk_authoritative_refresh_received_at := Some 60 \<rparr>),
     (''t2'', demo_book)] \<rparr>"

lemma demo_superseded: "incremental_superseded demo_refreshed (demo_event 6 demo_delta)"
  by (simp add: demo_refreshed_def scenario_defs)

lemma demo_superseded_step:
  "case demo_eval demo_refreshed demo_delta of Inr (q, r) \<Rightarrow> True | Inl err \<Rightarrow> False"
  by (simp add: demo_refreshed_def scenario_defs cong: eval_congs split del: if_split)

theorem superseded_increment_is_noop_witness:
  "pe_applied (demo_record demo_refreshed demo_delta) \<and> pj_books (demo_next demo_refreshed demo_delta) = pj_books demo_refreshed"
  using superseded_increment_is_noop [OF conjunct1 [OF demo_outcome_named [OF demo_superseded_step]] demo_superseded]
  by (simp add: demo_event_def demo_source_def)

text \<open>
  The outcome of an attributed event carries the market's next sequence number (one more than
  the last, saturating, starting from zero for a market without a health entry) and agrees with
  the market's health entry on sequence, status, revision and generation.
\<close>

theorem market_sequence_advances:
  assumes "evaluate_event x validate_raw validate_duplicate enforce p e = Inr (q, r)"
    and "event_market_id p (ev_kind e) = Some i"
  shows "\<exists>h md. bt_get (pj_market_health q) i = Some h \<and> pe_market r = Some md
    \<and> mh_last_market_sequence h = saturating_add1 (last_sequence p i)
    \<and> mm_market_id md = i \<and> mm_market_sequence md = mh_last_market_sequence h
    \<and> mm_event_revision md = ev_event_id e \<and> mh_last_event_revision h = Some (ev_event_id e)
    \<and> mm_projection_status md = mh_projection_status h
    \<and> mm_projection_generation md = mh_projection_generation h"
  by (rule attributed_step_metadata [OF assms]) metis

theorem market_sequence_advances_witness:
  "\<exists>h. bt_get (pj_market_health (demo_next demo_projection demo_delta)) ''m1'' = Some h \<and> mh_last_market_sequence h = 3"
proof -
  have "last_sequence demo_projection ''m1'' = 2" by (simp add: last_sequence_def eval_defs)
  with market_sequence_advances [OF conjunct1 [OF demo_accepted], unfolded demo_event_kind, OF demo_market_of_t1(1)]
  show ?thesis by (auto simp: saturating_add1_def)
qed

text \<open>
  Every successful step advances cursor, persisted cursor and generation by exactly one,
  leaves the persisted cursor equal to the cursor, stamps the outcome with that cursor and pushes
  the event's id into the bounded window of recent ids.
\<close>

theorem step_advances_cursor_and_window:
  assumes "evaluate_event x validate_raw validate_duplicate enforce p e = Inr (q, r)"
  shows "pj_cursor q = pj_cursor p + 1 \<and> pj_persisted_cursor q = pj_cursor q
    \<and> pj_generation q = pj_generation p + 1 \<and> ev_cursor (pe_event r) = pj_cursor q
    \<and> pj_recent_event_ids q = push_recent (pj_recent_event_ids p) (ev_event_id e)
    \<and> (length (pj_recent_event_ids p) \<le> recent_window \<longrightarrow> length (pj_recent_event_ids q) \<le> recent_window)"
  using evaluate_event_bookkeeping [OF assms]
  by (auto simp: push_recent_def recent_window_def)

theorem step_advances_cursor_and_window_witness:
  "pj_cursor (demo_next demo_projection demo_delta) = 6
   \<and> length (pj_recent_event_ids (demo_next demo_projection demo_delta)) \<le> recent_window"
proof -
  have "pj_cursor demo_projection = 5" "length (pj_recent_event_ids demo_projection) \<le> recent_window"
    by (simp_all add: demo_projection_def bootstrap_def recent_window_def)
  with step_advances_cursor_and_window [OF conjunct1 [OF demo_accepted]] show ?thesis by fastforce
qed

text \<open>
  A catalogue snapshot that validates is stored market by market under its id: exactly the
  markets given, with a condition index into them, disjoint pairs of distinct tokens, an
  active flag that agrees with the terminal time, and the tokens of the active markets as the
  tokens whose books are kept.
\<close>

theorem validated_catalog_is_consistent:
  assumes "validated_catalog markets relations = Some (by_market, by_condition, by_group, active_tokens)"
  shows "market_index_ok by_market \<and> condition_index_ok by_market by_condition
    \<and> set (bt_values by_market) = set markets
    \<and> (\<forall>m \<in> set markets. distinct (market_tokens m) \<and> (is_active m \<longleftrightarrow> mk_terminal_at m = None))
    \<and> active_tokens = (\<Union>m \<in> {m \<in> set markets. is_active m}. set (market_tokens m))"
proof (rule validated_catalogE [OF assms])
  fix acc
  assume ok: "acc_ok acc" and eq: "by_market = ca_by_market acc" "by_condition = ca_by_condition acc"
    "active_tokens = ca_active_tokens acc" and vals: "set (bt_values by_market) = set markets"
  have wf: "bt_wf by_market" using ok by (simp add: acc_ok_def market_index_iff eq)
  have mem: "m \<in> set markets \<longleftrightarrow> (\<exists>i. bt_get by_market i = Some m)" for m
    using vals bt_values_iff [OF wf] by auto
  have act: "active_tokens = (\<Union>m \<in> {m \<in> set markets. is_active m}. set (market_tokens m))"
    using ok mem unfolding acc_ok_def eq by (intro set_eqI) auto
  have each: "\<forall>m \<in> set markets. distinct (market_tokens m) \<and> (is_active m \<longleftrightarrow> mk_terminal_at m = None)"
    using ok mem unfolding acc_ok_def eq by auto
  show "market_index_ok by_market \<and> condition_index_ok by_market by_condition
    \<and> set (bt_values by_market) = set markets
    \<and> (\<forall>m \<in> set markets. distinct (market_tokens m) \<and> (is_active m \<longleftrightarrow> mk_terminal_at m = None))
    \<and> active_tokens = (\<Union>m \<in> {m \<in> set markets. is_active m}. set (market_tokens m))"
    using ok vals act each by (simp only: acc_ok_def eq simp_thms)
qed

theorem validated_catalog_is_consistent_witness:
  "\<exists>by_market by_condition by_group tokens.
     validated_catalog [demo_market ''m1'' ''c1'' ''t1'' ''t2'', demo_market ''m2'' ''c2'' ''t3'' ''t4''] []
       = Some (by_market, by_condition, by_group, tokens)
     \<and> market_index_ok by_market \<and> tokens = {''t1'', ''t2'', ''t3'', ''t4''}"
proof -
  let ?ms = "[demo_market ''m1'' ''c1'' ''t1'' ''t2'', demo_market ''m2'' ''c2'' ''t3'' ''t4'']"
  have "validated_catalog ?ms [] \<noteq> None"
    by code_simp
  then obtain by_market by_condition by_group tokens where
    v: "validated_catalog ?ms [] = Some (by_market, by_condition, by_group, tokens)" by auto
  have "tokens = (\<Union>m \<in> {m \<in> set ?ms. is_active m}. set (market_tokens m))"
    using validated_catalog_is_consistent [OF v] by blast
  also have "\<dots> = {''t1'', ''t2'', ''t3'', ''t4''}"
  proof -
    have "{m \<in> set ?ms. is_active m} = {demo_market ''m1'' ''c1'' ''t1'' ''t2'', demo_market ''m2'' ''c2'' ''t3'' ''t4''}"
      by (auto simp: demo_market_def)
    then show ?thesis by (simp add: demo_market_def demo_outcome_def market_tokens_def outcomes_def insert_commute)
  qed
  finally show ?thesis
    using v validated_catalog_is_consistent [OF v, THEN conjunct1] by (intro exI conjI)
qed

end
