(* ===== verification/Core_Durability_Theorems.thy ===== *)
theory Core_Durability_Theorems
  imports Core_Log_Theorems
begin

text \<open>
  The properties of the writer as a state machine over its log: failures, duplicates, batches,
  and recovery from the segmented write-ahead log.
\<close>

section \<open>The writer\<close>

definition demo_writer :: "'l \<Rightarrow> 'l writer" where
  "demo_writer log = \<lparr> wr_current = demo_projection, wr_recent_event_index = {''e5''}, wr_log = log,
     wr_enforce_source_freshness = True \<rparr>"

lemma demo_hex: "\<forall>v. to_ascii_lowercase (sha_json demo_ext v) = sha_json demo_ext v"
  by (simp add: demo_ext_def)

lemma demo_writer_ok: "writer_ok (demo_writer log)"
  by (simp add: writer_ok_def window_ok_def demo_writer_def demo_projection_def bootstrap_def recent_window_def)

lemma demo_apply:
  assumes "ap (demo_record demo_projection demo_delta) log = (None, log')"
  shows "\<exists>w'. apply_event demo_ext ap (demo_writer log) (demo_event 6 demo_delta)
    = (Inr (demo_next demo_projection demo_delta, demo_record demo_projection demo_delta), w')
    \<and> wr_log w' = log' \<and> wr_current w' = demo_next demo_projection demo_delta"
proof -
  have "ev_event_id (demo_event 6 demo_delta) = ''e6''" by (simp add: demo_event_def)
  with assms conjunct1 [OF demo_accepted] show ?thesis
    by (simp add: apply_event_def apply_inner_def demo_writer_def Let_def)
qed

text \<open>
  An operation that fails, at whatever stage (duplicate, guard, or the durable append), leaves
  the published projection and the duplicate index as they were, for single events and batches.
\<close>

theorem failed_operation_publishes_nothing:
  "(apply_inner x append_outcome validate_raw w e = (Inl err, w')
      \<longrightarrow> wr_current w' = wr_current w \<and> wr_recent_event_index w' = wr_recent_event_index w)
   \<and> (apply_batch x append_outcomes w es = (Inl err, w')
      \<longrightarrow> wr_current w' = wr_current w \<and> wr_recent_event_index w' = wr_recent_event_index w)"
  by (intro conjI impI; erule apply_inner_failure(1,2) apply_batch_failure(1,2))

theorem failed_operation_publishes_nothing_witness:
  "\<exists>w'. apply_event demo_ext (\<lambda>r log. (Some IoError, log + (1::nat))) (demo_writer 0) (demo_event 6 demo_delta) = (Inl IoError, w')
     \<and> wr_log w' = 1 \<and> wr_current w' = demo_projection"
proof -
  have id: "ev_event_id (demo_event 6 demo_delta) = ''e6''" by (simp add: demo_event_def)
  obtain w' where "apply_inner demo_ext (\<lambda>r log. (Some IoError, log + (1::nat))) True (demo_writer 0) (demo_event 6 demo_delta) = (Inl IoError, w')"
    "wr_log w' = 1"
    using conjunct1 [OF demo_accepted] id by (simp add: apply_inner_def demo_writer_def Let_def)
  with failed_operation_publishes_nothing [THEN conjunct1, THEN mp, OF this(1)] show ?thesis
    by (auto simp: apply_event_def demo_writer_def)
qed

text \<open>
  The duplicate index of a writer is always the set of the event ids in its bounded window,
  and the window holds distinct ids, at most ten thousand of them; so the constant-time test of
  the index decides exactly membership in the window.
\<close>

theorem duplicate_index_is_the_window:
  assumes "writer_ok w"
  shows "(apply_inner x append_outcome validate_raw w e = (res, w') \<longrightarrow> writer_ok w')
    \<and> (apply_batch x append_outcomes w es = (res', w'') \<longrightarrow> writer_ok w'')
    \<and> (ev_event_id e \<in> wr_recent_event_index w \<longleftrightarrow> ev_event_id e \<in> set (pj_recent_event_ids (wr_current w)))"
  using writer_ok_apply [OF assms] writer_ok_batch [OF assms] index_is_window_scan [OF assms] by blast

theorem duplicate_index_is_the_window_witness:
  "\<exists>w'. apply_event demo_ext replay_log_append (demo_writer ()) (demo_event 6 demo_delta)
     = (Inr (demo_next demo_projection demo_delta, demo_record demo_projection demo_delta), w') \<and> writer_ok w'"
proof -
  obtain w' where "apply_event demo_ext replay_log_append (demo_writer ()) (demo_event 6 demo_delta)
      = (Inr (demo_next demo_projection demo_delta, demo_record demo_projection demo_delta), w')"
    using demo_apply [where ap = replay_log_append and log = "()" and log' = "()"] by (auto simp: replay_log_append_def)
  with duplicate_index_is_the_window [OF demo_writer_ok, THEN conjunct1, THEN mp] show ?thesis by (auto simp: apply_event_def)
qed

section \<open>Batches\<close>

text \<open>
  The reference: the events of a frame applied one after the other, the raw payload checked for
  each and each outcome appended on its own.
\<close>

fun apply_each :: "ext \<Rightarrow> 'l append \<Rightarrow> 'l writer \<Rightarrow> canonical_event list
     \<Rightarrow> (core_error + persisted_event list) \<times> 'l writer" where
  "apply_each x append_outcome w [] = (Inr [], w)"
| "apply_each x append_outcome w (e # es) =
     (case apply_event x append_outcome w e of
        (Inl err, w') \<Rightarrow> (Inl err, w')
      | (Inr (p, r), w') \<Rightarrow>
          (case apply_each x append_outcome w' es of
             (Inl err, w'') \<Rightarrow> (Inl err, w'')
           | (Inr rs, w'') \<Rightarrow> (Inr (r # rs), w'')))"

definition unlogged :: "'l writer \<Rightarrow> unit writer" where
  "unlogged w = \<lparr> wr_current = wr_current w, wr_recent_event_index = wr_recent_event_index w, wr_log = (),
     wr_enforce_source_freshness = wr_enforce_source_freshness w \<rparr>"

abbreviation published :: "projection \<Rightarrow> 'l \<Rightarrow> 'l writer \<Rightarrow> 'l writer" where
  "published q log w \<equiv> w\<lparr> wr_current := q, wr_recent_event_index := set (pj_recent_event_ids q), wr_log := log \<rparr>"

lemma published_same: "writer_ok w \<Longrightarrow> published (wr_current w) (wr_log w) w = w"
  by (cases w) (simp add: writer_ok_def)

lemma append_each_replay: "append_each replay_log_append rs () = (None, ())"
  by (induction rs) (simp_all add: replay_log_append_def)

lemma evaluate_all_each:
  assumes "evaluate_all x (wr_enforce_source_freshness w) (wr_current w) es = Inr (q, rs)" and "writer_ok w"
    and "first_duplicate ids es = None" and "wr_recent_event_index w \<subseteq> ids"
    and "\<forall>e \<in> set es. sha_json x (ev_raw_payload e) = to_ascii_lowercase (se_raw_sha256 (ev_source e))"
    and "append_each ap rs (wr_log w) = (None, log)"
  shows "apply_each x ap w es = (Inr rs, published q log w)"
  using assms
proof (induction es arbitrary: w rs ids)
  case Nil
  then show ?case using published_same [of w] by simp
next
  case (Cons e es)
  then obtain p1 r rs' where ev: "evaluate_event x False False (wr_enforce_source_freshness w) (wr_current w) e = Inr (p1, r)"
    and rest: "evaluate_all x (wr_enforce_source_freshness w) p1 es = Inr (q, rs')" and rs: "rs = r # rs'"
    by (auto split: sum.splits prod.splits)
  have new: "ev_event_id e \<notin> ids" "first_duplicate (insert (ev_event_id e) ids) es = None"
    using Cons.prems(3) by (auto split: if_splits)
  from ev have g: "event_guard x False False (wr_current w) e = None" by (auto elim: evaluate_eventE)
  have ev': "evaluate_event x True False (wr_enforce_source_freshness w) (wr_current w) e = Inr (p1, r)"
    by (rule evaluate_event_flags [OF ev guard_raw_payload [OF g]]) (use Cons.prems(5) in simp)
  obtain log1 where log1: "ap r (wr_log w) = (None, log1)" "append_each ap rs' log1 = (None, log)"
    using Cons.prems(6) by (auto simp: rs split: prod.splits option.splits)
  obtain index where ap: "apply_event x ap w e = (Inr (p1, r),
      w\<lparr> wr_current := p1, wr_recent_event_index := index, wr_log := log1 \<rparr>)"
    and index: "index \<subseteq> insert (ev_event_id e) (wr_recent_event_index w)"
  proof -
    have "ev_event_id e \<notin> wr_recent_event_index w" using new(1) Cons.prems(4) by blast
    with ev' log1(1) evaluate_event_bookkeeping(5) [OF ev] show thesis
      by (intro that [of "insert (ev_event_id e) (wr_recent_event_index w
            - (if length (pj_recent_event_ids (wr_current w)) = recent_window
               then {hd (pj_recent_event_ids (wr_current w))} else {}))"])
        (simp_all add: apply_event_def apply_inner_def Let_def, blast)
  qed
  let ?w1 = "w\<lparr> wr_current := p1, wr_recent_event_index := index, wr_log := log1 \<rparr>"
  have ok1: "writer_ok ?w1" by (rule writer_ok_apply [OF Cons.prems(2) ap [unfolded apply_event_def]])
  have "apply_each x ap ?w1 es = (Inr rs', published q log ?w1)"
    by (rule Cons.IH [OF _ ok1 new(2)]) (use rest index log1(2) Cons.prems(4,5) in auto)
  with ap rs show ?case by simp
qed

text \<open>
  C2: A batch that succeeds leaves the writer exactly as its events applied one by one would, each
  checked against its raw payload: the same outcomes, projection and duplicate index, and the
  outcomes handed to the log in one append that succeeded.  With the log's default batch append,
  which appends them singly, the two writers are equal, log included.  So the shortcuts of the
  batch (one scan of the window, one digest of the frame, one publication) change nothing.
\<close>

theorem batch_equals_single_applications:
  assumes batch: "apply_batch x append_outcomes w es = (Inr (q, rs), w')" and ok: "writer_ok w"
    and hex: "\<forall>v. to_ascii_lowercase (sha_json x v) = sha_json x v"
  shows "wr_current w' = q
    \<and> (if es = [] then wr_log w' = wr_log w else append_outcomes rs (wr_log w) = (None, wr_log w'))
    \<and> apply_each x replay_log_append (unlogged w) es = (Inr rs, unlogged w')
    \<and> (\<forall>append_outcome. append_outcomes = append_each append_outcome
         \<longrightarrow> apply_each x append_outcome w es = (Inr rs, w'))"
proof (cases "es = []")
  case True
  with batch show ?thesis by (auto simp: apply_batch_def)
next
  case False
  from batch False show ?thesis
  proof (rule apply_batchE)
    fix log'
    assume fr: "frame_evidence_ok x es" and dup: "first_duplicate (wr_recent_event_index w) es = None"
      and ev: "evaluate_all x (wr_enforce_source_freshness w) (wr_current w) es = Inr (q, rs)"
      and log: "append_outcomes rs (wr_log w) = (None, log')" and w': "w' = published q log' w"
    have raw: "\<forall>e \<in> set es. sha_json x (ev_raw_payload e) = to_ascii_lowercase (se_raw_sha256 (ev_source e))"
      using fr hex by (auto simp: frame_evidence_ok_def Let_def list_all_iff eq_ignore_ascii_case_def)
    have "apply_each x replay_log_append (unlogged w) es = (Inr rs, published q () (unlogged w))"
      using ok by (intro evaluate_all_each [OF _ _ dup _ raw])
        (simp_all add: unlogged_def ev writer_ok_def append_each_replay)
    moreover have "published q () (unlogged w) = unlogged w'" by (simp add: w' unlogged_def)
    moreover have "apply_each x append_outcome w es = (Inr rs, w')" if "append_outcomes = append_each append_outcome" for append_outcome
      unfolding w' by (rule evaluate_all_each [OF ev ok dup subset_refl raw]) (use log that in simp)
    ultimately show ?thesis using False log by (simp add: w')
  qed
qed

lemma demo_batch:
  assumes "apa [demo_record demo_projection demo_delta] log = (None, log')"
  shows "\<exists>w'. apply_batch demo_ext apa (demo_writer log) [demo_event 6 demo_delta]
    = (Inr (demo_next demo_projection demo_delta, [demo_record demo_projection demo_delta]), w')"
proof -
  have "evaluate_event demo_ext False False True demo_projection (demo_event 6 demo_delta)
      = Inr (demo_next demo_projection demo_delta, demo_record demo_projection demo_delta)"
    by (rule evaluate_event_flags [OF conjunct1 [OF demo_accepted]])
      (simp add: event_guard_def evidence_invalid_def eval_defs)
  moreover have "ev_event_id (demo_event 6 demo_delta) = ''e6''"
    "se_raw_sha256 (ev_source (demo_event 6 demo_delta)) = zero_digest" "sha_json demo_ext v = zero_digest" for v
    by (simp_all add: demo_event_def demo_source_def demo_ext_def)
  ultimately show ?thesis
    using assms by (simp add: apply_batch_def frame_evidence_ok_def demo_writer_def eq_ignore_ascii_case_def Let_def)
qed

theorem batch_equals_single_applications_witness:
  "\<exists>w'. apply_each demo_ext (\<lambda>r log. (None, log + (1 :: nat))) (demo_writer 0) [demo_event 6 demo_delta]
     = (Inr [demo_record demo_projection demo_delta], w') \<and> wr_current w' = demo_next demo_projection demo_delta \<and> wr_log w' = 1"
proof -
  let ?ap = "\<lambda>r log. (None, log + (1 :: nat))"
  obtain w' where "apply_batch demo_ext (append_each ?ap) (demo_writer 0) [demo_event 6 demo_delta]
      = (Inr (demo_next demo_projection demo_delta, [demo_record demo_projection demo_delta]), w')"
    using demo_batch [where apa = "append_each ?ap" and log = 0 and log' = 1] by auto
  note same = batch_equals_single_applications [OF this demo_writer_ok demo_hex]
  from same have "wr_current w' = demo_next demo_projection demo_delta" "wr_log w' = 1"
    by (simp_all add: demo_writer_def)
  moreover from same have "apply_each demo_ext ?ap (demo_writer 0) [demo_event 6 demo_delta]
      = (Inr [demo_record demo_projection demo_delta], w')" by blast
  ultimately show ?thesis by blast
qed

section \<open>Recovery from the segmented log\<close>

definition demo_wal :: wal_ext where
  "demo_wal = \<lparr> wx_crc32c = (\<lambda>_. 0), wx_sha256 = (\<lambda>_. zero_digest), wx_raw_sha256 = (\<lambda>_. zero_digest),
     wx_header_sha256 = (\<lambda>_. zero_digest), wx_file_sha256 = (\<lambda>_. zero_digest), wx_header_len = (\<lambda>_. 200),
     wx_line_len = (\<lambda>_. 900) \<rparr>"

definition demo_log :: segmented_wal where
  "demo_log = \<lparr> sw_root = ''/wal'', sw_directory = [], sw_stream_id = ''s'', sw_max_segment_bytes = 1024,
     sw_segment_first_cursor = None, sw_current_path = None, sw_bytes = 0, sw_segment_has_records = False \<rparr>"

lemma demo_log_opened: "open_inner demo_wal ''/wal'' [] ''s'' 1024 True = Inr demo_log"
  by (simp add: open_inner_def demo_log_def starts_with_def)

lemma demo_append:
  "\<exists>log'. wal_append_outcome demo_wal r demo_log = (None, log')"
  by (simp add: wal_append_outcome_def write_line_def demo_log_def rotate_with_checkpoint_anchor_def
      Let_def bt_contains_def)

text \<open>
  C1: A writer that starts on a freshly opened segmented log from a projection without stale
  gaps, and whose operations succeed in any order and number (single events and frames), leaves a
  log that verifies, holds exactly its outcomes in order, and whose replay from the starting
  projection rebuilds the published projection, across segment rotations.
\<close>

theorem log_recovery_restores_the_projection:
  assumes opened: "open_inner wx root [] stream_id limit verify_chain = Inr (wr_log w)"
    and run: "writes x (wal_append_outcome wx) (wal_append_outcomes wx) w rs w'"
    and w: "writer_ok w" "wr_enforce_source_freshness w"
    and start: "pj_cursor (wr_current w) = pj_persisted_cursor (wr_current w)"
      "snd (prune_stale_scope_gaps (wr_current w)) = wr_current w"
    and evidence: "\<forall>r \<in> set rs. wal_evidence wx r"
    and hex: "\<forall>v. to_ascii_lowercase (sha_json x v) = sha_json x v"
    and room: "unat (pj_cursor (wr_current w)) + length rs < 2 ^ 64"
  shows "wal_verify wx (sw_directory (wr_log w')) = Inr rs
    \<and> replay_after_checkpoint x (wr_current w) rs = Inr (wr_current w')"
proof (intro conjI)
  note e = open_empty [OF opened]
  have f: "wal.follows wx (wr_log w) (wr_current w)" by (simp add: wal.follows_def e)
  have run': "wal_contents wx (wr_log w') = rs" "wal_ok wx (wr_log w')"
    using wal.writes_contents [OF run f room evidence] e(2) by (simp_all add: wal.follows_def)
  then show "wal_verify wx (sw_directory (wr_log w')) = Inr rs"
    by (auto simp: wal_ok_def wal_contents_def wal_verify_def verify_with_anchors_def)
  show "replay_after_checkpoint x (wr_current w) rs = Inr (wr_current w')"
    using hex by (intro replay_of_run [OF run w _ start room]) blast
qed

theorem log_recovery_restores_the_projection_witness:
  "\<exists>w' :: segmented_wal writer. wal_verify demo_wal (sw_directory (wr_log w')) = Inr [demo_record demo_projection demo_delta]
     \<and> replay_after_checkpoint demo_ext demo_projection [demo_record demo_projection demo_delta]
       = Inr (demo_next demo_projection demo_delta)"
proof -
  let ?r = "demo_record demo_projection demo_delta"
  obtain log' where ap: "wal_append_outcome demo_wal ?r demo_log = (None, log')" using demo_append by blast
  obtain w' where w': "apply_event demo_ext (wal_append_outcome demo_wal) (demo_writer demo_log) (demo_event 6 demo_delta)
      = (Inr (demo_next demo_projection demo_delta, ?r), w')" "wr_current w' = demo_next demo_projection demo_delta"
    using demo_apply [where ap = "wal_append_outcome demo_wal" and log = demo_log, OF ap] by auto
  have run: "writes demo_ext (wal_append_outcome demo_wal) (wal_append_outcomes demo_wal) (demo_writer demo_log) [?r] w'"
    using writes.single [OF writes.nothing w'(1)] by simp
  have op: "open_inner demo_wal ''/wal'' [] ''s'' 1024 True = Inr (wr_log (demo_writer demo_log))"
    using demo_log_opened by (simp add: demo_writer_def)
  have cur: "wr_current (demo_writer demo_log) = demo_projection" "wr_enforce_source_freshness (demo_writer demo_log)"
    by (simp_all add: demo_writer_def)
  have ev: "\<forall>r \<in> set [?r]. wal_evidence demo_wal r"
    using evaluate_event_bookkeeping(9) [OF conjunct1 [OF demo_accepted]]
    by (simp add: wal_evidence_def demo_wal_def demo_event_def demo_source_def)
  have "pj_cursor demo_projection = pj_persisted_cursor demo_projection"
    "unat (pj_cursor demo_projection) + length [?r] < 2 ^ 64"
    by (simp_all add: demo_projection_def)
  moreover have "snd (prune_stale_scope_gaps demo_projection) = demo_projection"
    by (simp add: prune_stale_scope_gaps_def Let_def demo_projection_def bootstrap_def)
  ultimately show ?thesis
    using log_recovery_restores_the_projection [OF op run demo_writer_ok cur(2) _ _ ev demo_hex, unfolded cur(1)]
    by (auto simp: w'(2))
qed

text \<open>
  Anchoring a checkpoint taken at the last cursor of a log keeps the log verified and its
  outcomes unchanged, and the anchor it returns names the checkpoint, starts the next segment at
  the following cursor and is found again by verification.
\<close>

theorem checkpoint_anchor_is_recovered:
  assumes "wal_ok wx log" and "wal_contents wx log \<noteq> []"
    and "checkpoint_cursor = ev_cursor (pe_event (last (wal_contents wx log)))"
    and "anchor_checkpoint wx checkpoint_cursor sha log = (Inr a, log')"
  shows "wal_verify wx (sw_directory log') = Inr (wal_contents wx log)
    \<and> (\<exists>v. verify_with_anchors wx (sw_directory log') = Inr v \<and> a \<in> set (vw_checkpoint_anchors v))
    \<and> wa_checkpoint_cursor a = checkpoint_cursor \<and> wa_checkpoint_sha256 a = sha
    \<and> wa_segment_first_cursor a = checkpoint_cursor + 1"
proof (intro conjI)
  note k = anchor_keeps [OF assms]
  then obtain v where v: "verify_with_anchors wx (sw_directory log') = Inr v"
    by (auto simp: wal_ok_def verify_with_anchors_def)
  with k show "wal_verify wx (sw_directory log') = Inr (wal_contents wx log)"
    "\<exists>v. verify_with_anchors wx (sw_directory log') = Inr v \<and> a \<in> set (vw_checkpoint_anchors v)"
    "wa_checkpoint_cursor a = checkpoint_cursor" "wa_checkpoint_sha256 a = sha"
    "wa_segment_first_cursor a = checkpoint_cursor + 1"
    by (auto simp: wal_contents_def wal_verify_def wal_anchors_def)
qed

theorem checkpoint_anchor_is_recovered_witness:
  "\<exists>log log' a. wal_append_outcome demo_wal (demo_record demo_projection demo_delta) demo_log = (None, log)
     \<and> anchor_checkpoint demo_wal 6 zero_digest log = (Inr a, log') \<and> wa_segment_first_cursor a = 7
     \<and> wal_verify demo_wal (sw_directory log') = Inr [demo_record demo_projection demo_delta]"
proof -
  let ?r = "demo_record demo_projection demo_delta"
  obtain log where ap: "wal_append_outcome demo_wal ?r demo_log = (None, log)" using demo_append by blast
  note e = open_empty [OF demo_log_opened]
  have c: "wal_contents demo_wal log = [?r]" and ok: "wal_ok demo_wal log"
    using wal_append_outcome_ok [OF e(1,3) ap] e(2) by simp_all
  have cur: "ev_cursor (pe_event ?r) = 6"
    using evaluate_event_bookkeeping(4) [OF conjunct1 [OF demo_accepted]] by (simp add: demo_projection_def)
  obtain a log' where an: "anchor_checkpoint demo_wal 6 zero_digest log = (Inr a, log')"
  proof -
    have l: "log = demo_log\<lparr> sw_directory := [(segment_name ''s'' 6, \<lparr> wf_header = Header (header_json ''s'' 6 None None),
        wf_lines = [RecordLine \<lparr> wl_cursor = 6, wl_crc32c = 0, wl_payload_sha256 = zero_digest, wl_payload = ?r \<rparr>] \<rparr>)],
        sw_bytes := 1102, sw_segment_first_cursor := Some 6, sw_current_path := Some (segment_name ''s'' 6),
        sw_segment_has_records := True \<rparr>"
      using ap cur by (simp add: wal_append_outcome_def write_line_def demo_log_def rotate_with_checkpoint_anchor_def
          Let_def bt_contains_def current_file_def bt_map_value_def demo_wal_def)
    have "segment_name ''s'' 6 \<noteq> segment_name ''s'' 7"
      using segment_name_less [of 6 7 "''s''"] by simp
    then have "\<exists>v. anchor_checkpoint demo_wal 6 zero_digest log = (Inr (fst v), snd v)"
      by (simp add: anchor_checkpoint_def l current_file_def bt_get_def header_json_fields
          rotate_with_checkpoint_anchor_def Let_def bt_contains_def demo_log_def checked_add1_def)
    then show thesis using that by blast
  qed
  from checkpoint_anchor_is_recovered [OF ok _ _ an] c cur ap an show ?thesis by auto
qed

text \<open>
  A frame whose events spell the digest of its payload in upper case passes the writer's
  evidence check and is appended by the log, but verification compares the spelling exactly: the
  log that accepted the frame can no longer be read back.
\<close>

theorem uppercase_digest_makes_the_log_unreadable:
  assumes opened: "open_inner wx root [] stream_id limit verify_chain = Inr log"
    and rs: "rs \<noteq> []" "contiguous rs"
    and same: "\<forall>r \<in> set rs. ev_raw_payload (pe_event r) = raw \<and> se_raw_sha256 (ev_source (pe_event r)) = digest"
    and spelled: "digest \<noteq> wx_raw_sha256 wx raw"
  shows "\<exists>log'. wal_append_outcomes wx rs log = (None, log') \<and> wal_verify wx (sw_directory log') = Inl CorruptWal"
proof -
  from opened have l: "sw_directory log = []" "sw_current_path log = None"
    by (auto simp: open_inner_def split: if_splits)
  let ?c = "ev_cursor (pe_event (hd rs))"
  let ?h = "header_json (sw_stream_id log) ?c None None"
  let ?f = "\<lparr> wf_header = Header ?h, wf_lines = [batch_line wx rs] \<rparr>"
  have nb: "\<not> list_ex (\<lambda>r. se_raw_sha256 (ev_source (pe_event r)) \<noteq> se_raw_sha256 (ev_source (pe_event (hd rs)))
     \<or> ev_raw_payload (pe_event r) \<noteq> ev_raw_payload (pe_event (hd rs))) rs"
    using same hd_in_set [OF rs(1)] by (auto simp: list_ex_iff)
  have ap: "wal_append_outcomes wx rs log = write_line wx ?c (batch_line wx rs) log"
    using rs nb unfolding wal_append_outcomes_def by (simp only: if_False not_True_eq_False simp_thms)
  obtain log' where wr: "write_line wx ?c (batch_line wx rs) log = (None, log')"
    and dir: "sw_directory log' = [(segment_name (sw_stream_id log) ?c, ?f)]"
    by (simp add: write_line_def l rotate_with_checkpoint_anchor_def Let_def bt_contains_def current_file_def
        bt_map_value_def)
  have raw: "ev_raw_payload (pe_event (hd rs)) = raw" using same hd_in_set [OF rs(1)] by blast
  have bad: "list_ex (\<lambda>p. se_raw_sha256 (ev_source (pe_event p)) \<noteq> wx_raw_sha256 wx raw) (map strip_raw_payload rs)"
    using same spelled hd_in_set [OF rs(1)] by (auto simp: list_ex_iff)
  have "verify_line wx (batch_line wx rs) [] = Inl CorruptWal"
    using bad by (simp add: batch_line_def Let_def verify_batch_def wal_batch_integrity_bytes_def raw)
  then have "verify_file wx ?f verify_start = Inl CorruptWal"
    by (simp add: verify_file_def verify_header_def header_json_fields header_json_anchor verify_start_def)
  then have "wal_verify wx (sw_directory log') = Inl CorruptWal"
    by (simp add: wal_verify_def verify_with_anchors_def dir bt_values_def)
  with ap wr show ?thesis by auto
qed

theorem uppercase_digest_makes_the_log_unreadable_witness:
  "let raw = JNull; digest = replicate 64 (CHR ''A'');
       wx = demo_wal\<lparr> wx_raw_sha256 := \<lambda>_. replicate 64 (CHR ''a'') \<rparr>;
       e = (demo_event 6 demo_delta)\<lparr> ev_source := demo_source\<lparr> se_raw_sha256 := digest \<rparr> \<rparr>;
       r = \<lparr> pe_event = e, pe_applied = True, pe_fail_closed_reason = None, pe_market = None \<rparr>
   in frame_evidence_ok (demo_ext\<lparr> sha_json := wx_raw_sha256 wx \<rparr>) [e]
      \<and> (\<exists>log'. wal_append_outcomes wx [r] demo_log = (None, log') \<and> wal_verify wx (sw_directory log') = Inl CorruptWal)"
proof -
  let ?digest = "replicate 64 (CHR ''A'')"
  let ?wx = "demo_wal\<lparr> wx_raw_sha256 := \<lambda>_. replicate 64 (CHR ''a'') \<rparr>"
  let ?e = "(demo_event 6 demo_delta)\<lparr> ev_source := demo_source\<lparr> se_raw_sha256 := ?digest \<rparr> \<rparr>"
  let ?r = "\<lparr> pe_event = ?e, pe_applied = True, pe_fail_closed_reason = None, pe_market = None \<rparr>"
  have "eq_ignore_ascii_case ?digest (replicate 64 (CHR ''a''))" by code_simp
  moreover have "open_inner ?wx ''/wal'' [] ''s'' 1024 True = Inr demo_log"
    by (simp add: open_inner_def demo_log_def starts_with_def)
  from uppercase_digest_makes_the_log_unreadable [OF this, of "[?r]" JNull ?digest]
  have "\<exists>log'. wal_append_outcomes ?wx [?r] demo_log = (None, log') \<and> wal_verify ?wx (sw_directory log') = Inl CorruptWal"
    by (simp add: demo_event_def)
  ultimately show ?thesis
    by (simp add: frame_evidence_ok_def Let_def)
qed

end
