(* ===== verification/Jobs.thy ===== *)
theory Jobs
  imports Prelude
begin

text \<open>
  The provider job state machine of \<open>crates/marketcow-jobs/src/lib.rs\<close>: jobs with idempotent
  submission, leases held by untrusted workers, retries, dispatch policies, expiry, cancellation
  and the recovery of the engine from persisted rows.

  A result \<open>Result<&ProviderJob, JobEngineError>\<close> of an operation on \<open>&mut self\<close> is a sum with the
  returned job and the new engine on the right; every operation of the source returns its error
  before it writes, so an error leaves the engine as it was. \<open>Uuid::new_v4\<close> is external: the
  fresh identifier is an argument. Digests of serialised JSON are the parameter \<open>sha\<close>. Times are
  nanoseconds; the range limits of \<open>chrono\<close> are not modelled. A string is its bytes, as for
  \<open>String::len\<close>.
\<close>

section \<open>Data\<close>

definition job_schema_version :: string where
  "job_schema_version = ''marketcow.job.v1''"

record dispatch_policy =
  dp_max_in_flight :: nat
  dp_minimum_interval_millis :: u64

text \<open>\<open>JobPanic\<close> is the branch where the source unwinds (indexing a map at a missing key).\<close>

datatype job_engine_error =
    InvalidInput
  | IdempotencyConflict
  | NotFound
  | InvalidTransition
  | LeaseRejected
  | DeadlineElapsed
  | InvalidResult
  | JobPanic string

definition policy_validate :: "dispatch_policy \<Rightarrow> job_engine_error + dispatch_policy" where
  "policy_validate p =
     (if \<not> (1 \<le> dp_max_in_flight p \<and> dp_max_in_flight p \<le> 1024) \<or> dp_minimum_interval_millis p > 86400000
      then Inl InvalidInput else Inr p)"

datatype job_status =
  Pending | Claimed | Running | Succeeded | FailedRetryable | FailedTerminal | Canceled

fun terminal :: "job_status \<Rightarrow> bool" where
  "terminal Succeeded = True"
| "terminal FailedTerminal = True"
| "terminal Canceled = True"
| "terminal _ = False"

record job_error =
  er_code :: string
  er_classification :: string
  er_redacted_message :: string

record staged_result =
  sr_relative_path :: string
  sr_sha256 :: string
  sr_size_bytes :: u64
  sr_media_type :: string

record provider_job =
  jb_schema_version :: string
  jb_job_id :: string
  jb_idempotency_key :: string
  jb_job_type :: string
  jb_request_schema :: string
  jb_request_sha256 :: string
  jb_request :: json
  jb_status :: job_status
  jb_revision :: u64
  jb_owner_id :: "string option"
  jb_lease_token :: "string option"
  jb_lease_expires_at :: "timestamp option"
  jb_claimed_at :: "timestamp option"
  jb_deadline :: timestamp
  jb_attempt :: u32
  jb_max_attempts :: u32
  jb_created_at :: timestamp
  jb_started_at :: "timestamp option"
  jb_finished_at :: "timestamp option"
  jb_error :: "job_error option"
  jb_result :: "staged_result option"
  jb_audit_actor :: string

record submit_job =
  sj_idempotency_key :: string
  sj_job_type :: string
  sj_request_schema :: string
  sj_request :: json
  sj_deadline :: timestamp
  sj_max_attempts :: u32
  sj_audit_actor :: string

record job_engine =
  je_jobs :: "(string, provider_job) btree"
  je_idempotency :: "string \<Rightarrow> string option"

definition engine_default :: job_engine where
  "engine_default = \<lparr> je_jobs = [], je_idempotency = (\<lambda>k. None) \<rparr>"

definition put_job :: "provider_job \<Rightarrow> job_engine \<Rightarrow> job_engine" where
  "put_job j e = e\<lparr> je_jobs := bt_insert (jb_job_id j) j (je_jobs e) \<rparr>"

section \<open>Validation\<close>

definition validate_submit :: "submit_job \<Rightarrow> timestamp \<Rightarrow> job_engine_error option" where
  "validate_submit input now =
     (if sj_idempotency_key input = []
         \<or> length (sj_idempotency_key input) > 256
         \<or> sj_job_type input = []
         \<or> sj_request_schema input = []
         \<or> sj_audit_actor input = []
         \<or> sj_max_attempts input = 0
         \<or> sj_max_attempts input > 20
         \<or> sj_deadline input \<le> now
      then Some InvalidInput else None)"

fun active :: "job_status \<Rightarrow> bool" where
  "active Claimed = True"
| "active Running = True"
| "active _ = False"

definition lease_fields_valid :: "provider_job \<Rightarrow> bool" where
  "lease_fields_valid j =
     (if active (jb_status j)
      then jb_owner_id j \<noteq> None \<and> jb_lease_token j \<noteq> None \<and> jb_lease_expires_at j \<noteq> None
      else jb_owner_id j = None \<and> jb_lease_token j = None \<and> jb_lease_expires_at j = None)"

definition status_fields_valid :: "provider_job \<Rightarrow> bool" where
  "status_fields_valid j =
     (case jb_status j of
        Pending \<Rightarrow> jb_finished_at j = None \<and> jb_result j = None
      | Claimed \<Rightarrow> jb_attempt j > 0 \<and> jb_finished_at j = None \<and> jb_result j = None
      | Running \<Rightarrow> jb_attempt j > 0 \<and> jb_started_at j \<noteq> None \<and> jb_finished_at j = None \<and> jb_result j = None
      | Succeeded \<Rightarrow> jb_started_at j \<noteq> None \<and> jb_finished_at j \<noteq> None \<and> jb_result j \<noteq> None \<and> jb_error j = None
      | FailedRetryable \<Rightarrow> jb_error j \<noteq> None \<and> jb_finished_at j = None \<and> jb_result j = None
      | FailedTerminal \<Rightarrow> jb_error j \<noteq> None \<and> jb_finished_at j \<noteq> None \<and> jb_result j = None
      | Canceled \<Rightarrow> jb_finished_at j \<noteq> None \<and> jb_result j = None)"

definition validate_recovered_job :: "(json \<Rightarrow> string) \<Rightarrow> provider_job \<Rightarrow> job_engine_error option" where
  "validate_recovered_job sha j =
     (if jb_schema_version j \<noteq> job_schema_version
         \<or> jb_job_id j = []
         \<or> jb_idempotency_key j = []
         \<or> jb_job_type j = []
         \<or> jb_request_schema j = []
         \<or> jb_audit_actor j = []
         \<or> jb_revision j = 0
         \<or> jb_max_attempts j = 0
         \<or> jb_max_attempts j > 20
         \<or> jb_attempt j > jb_max_attempts j
         \<or> jb_deadline j \<le> jb_created_at j
         \<or> (jb_attempt j = 0 \<and> jb_claimed_at j \<noteq> None)
         \<or> is_some_and (\<lambda>claimed. claimed < jb_created_at j \<or> claimed \<ge> jb_deadline j) (jb_claimed_at j)
         \<or> sha (jb_request j) \<noteq> jb_request_sha256 j
         \<or> \<not> lease_fields_valid j
         \<or> \<not> status_fields_valid j
      then Some InvalidInput else None)"

definition validate_result :: "staged_result \<Rightarrow> job_engine_error option" where
  "validate_result r =
     (if path_is_absolute (sr_relative_path r)
         \<or> sr_relative_path r = []
         \<or> length (sr_relative_path r) > 512
         \<or> \<not> list_all is_normal (path_components (sr_relative_path r))
         \<or> \<not> is_digest (sr_sha256 r)
         \<or> sr_media_type r = []
      then Some InvalidResult else None)"

section \<open>Recovery\<close>

definition replace_recovered ::
  "(json \<Rightarrow> string) \<Rightarrow> provider_job \<Rightarrow> job_engine \<Rightarrow> job_engine_error + job_engine" where
  "replace_recovered sha j e =
     (case validate_recovered_job sha j of
        Some err \<Rightarrow> Inl err
      | None \<Rightarrow>
          if is_some_and (\<lambda>job_id. job_id \<noteq> jb_job_id j) (je_idempotency e (jb_idempotency_key j))
          then Inl InvalidInput
          else (case bt_get (je_jobs e) (jb_job_id j) of
                  None \<Rightarrow> Inr (put_job j (e\<lparr> je_idempotency := (je_idempotency e)(jb_idempotency_key j \<mapsto> jb_job_id j) \<rparr>))
                | Some previous \<Rightarrow>
                    if jb_revision j < jb_revision previous then Inl InvalidInput
                    else
                      let ids = (if jb_idempotency_key previous \<noteq> jb_idempotency_key j
                                 then (je_idempotency e)(jb_idempotency_key previous := None)
                                 else je_idempotency e)
                      in Inr (put_job j (e\<lparr> je_idempotency := ids(jb_idempotency_key j \<mapsto> jb_job_id j) \<rparr>))))"

fun replace_all ::
  "(json \<Rightarrow> string) \<Rightarrow> provider_job list \<Rightarrow> job_engine \<Rightarrow> job_engine_error + job_engine" where
  "replace_all sha [] e = Inr e"
| "replace_all sha (j # js) e =
     (case replace_recovered sha j e of Inl err \<Rightarrow> Inl err | Inr e' \<Rightarrow> replace_all sha js e')"

definition recover :: "(json \<Rightarrow> string) \<Rightarrow> provider_job list \<Rightarrow> job_engine_error + job_engine" where
  "recover sha jobs = replace_all sha jobs engine_default"

definition snapshot :: "job_engine \<Rightarrow> provider_job list" where
  "snapshot e = bt_values (je_jobs e)"

section \<open>Submission\<close>

definition new_job :: "(json \<Rightarrow> string) \<Rightarrow> submit_job \<Rightarrow> timestamp \<Rightarrow> string \<Rightarrow> provider_job" where
  "new_job sha input now job_id = \<lparr>
     jb_schema_version = job_schema_version,
     jb_job_id = job_id,
     jb_idempotency_key = sj_idempotency_key input,
     jb_job_type = sj_job_type input,
     jb_request_schema = sj_request_schema input,
     jb_request_sha256 = sha (sj_request input),
     jb_request = sj_request input,
     jb_status = Pending,
     jb_revision = 1,
     jb_owner_id = None,
     jb_lease_token = None,
     jb_lease_expires_at = None,
     jb_claimed_at = None,
     jb_deadline = sj_deadline input,
     jb_attempt = 0,
     jb_max_attempts = sj_max_attempts input,
     jb_created_at = now,
     jb_started_at = None,
     jb_finished_at = None,
     jb_error = None,
     jb_result = None,
     jb_audit_actor = sj_audit_actor input \<rparr>"

definition submit ::
  "(json \<Rightarrow> string) \<Rightarrow> submit_job \<Rightarrow> timestamp \<Rightarrow> string \<Rightarrow> job_engine
     \<Rightarrow> job_engine_error + (provider_job \<times> job_engine)" where
  "submit sha input now uuid e =
     (case validate_submit input now of
        Some err \<Rightarrow> Inl err
      | None \<Rightarrow>
          (case je_idempotency e (sj_idempotency_key input) of
             Some job_id \<Rightarrow>
               (case bt_get (je_jobs e) job_id of
                  None \<Rightarrow> Inl (JobPanic ''no entry found for key'')
                | Some existing \<Rightarrow>
                    if jb_job_type existing = sj_job_type input
                       \<and> jb_request_schema existing = sj_request_schema input
                       \<and> jb_request_sha256 existing = sha (sj_request input)
                    then Inr (existing, e) else Inl IdempotencyConflict)
           | None \<Rightarrow>
               let job = new_job sha input now uuid in
               Inr (job, put_job job
                 (e\<lparr> je_idempotency := (je_idempotency e)(sj_idempotency_key input \<mapsto> uuid) \<rparr>))))"

section \<open>Claims and dispatch\<close>

definition claim ::
  "string \<Rightarrow> string \<Rightarrow> int \<Rightarrow> timestamp \<Rightarrow> string \<Rightarrow> job_engine
     \<Rightarrow> job_engine_error + (provider_job \<times> job_engine)" where
  "claim job_id worker_id lease_duration now uuid e =
     (if worker_id = [] \<or> lease_duration \<le> 0 then Inl InvalidInput
      else case bt_get (je_jobs e) job_id of
        None \<Rightarrow> Inl NotFound
      | Some j \<Rightarrow>
          if now \<ge> jb_deadline j then Inl DeadlineElapsed
          else if jb_status j \<noteq> Pending \<or> jb_attempt j \<ge> jb_max_attempts j then Inl InvalidTransition
          else
            let j' = j\<lparr> jb_status := Claimed,
                        jb_revision := jb_revision j + 1,
                        jb_attempt := jb_attempt j + 1,
                        jb_owner_id := Some worker_id,
                        jb_lease_token := Some uuid,
                        jb_lease_expires_at := Some (min (now + lease_duration) (jb_deadline j)),
                        jb_claimed_at := Some now \<rparr>
            in Inr (j', e\<lparr> je_jobs := bt_insert job_id j' (je_jobs e) \<rparr>))"

definition claim_found ::
  "string option \<Rightarrow> string \<Rightarrow> int \<Rightarrow> timestamp \<Rightarrow> string \<Rightarrow> job_engine
     \<Rightarrow> job_engine_error + (provider_job option \<times> job_engine)" where
  "claim_found found worker_id lease_duration now uuid e =
     (case found of
        None \<Rightarrow> Inr (None, e)
      | Some job_id \<Rightarrow>
          (case claim job_id worker_id lease_duration now uuid e of
             Inl err \<Rightarrow> Inl err | Inr (j, e') \<Rightarrow> Inr (Some j, e')))"

definition claimable :: "string list \<Rightarrow> timestamp \<Rightarrow> provider_job \<Rightarrow> bool" where
  "claimable capabilities now j =
     (jb_status j = Pending \<and> jb_attempt j < jb_max_attempts j \<and> now < jb_deadline j
      \<and> jb_job_type j \<in> set capabilities)"

definition claim_next ::
  "string \<Rightarrow> string list \<Rightarrow> int \<Rightarrow> timestamp \<Rightarrow> string \<Rightarrow> job_engine
     \<Rightarrow> job_engine_error + (provider_job option \<times> job_engine)" where
  "claim_next worker_id capabilities lease_duration now uuid e =
     claim_found (map_option jb_job_id (find (claimable capabilities now) (bt_values (je_jobs e))))
       worker_id lease_duration now uuid e"

definition in_flight :: "string \<Rightarrow> job_engine \<Rightarrow> provider_job list" where
  "in_flight job_type e =
     filter (\<lambda>j. jb_job_type j = job_type \<and> active (jb_status j)) (bt_values (je_jobs e))"

definition dispatched_at :: "provider_job \<Rightarrow> timestamp" where
  "dispatched_at j = unwrap_or (jb_created_at j) (opt_or (jb_claimed_at j) (jb_started_at j))"

definition dispatch_times :: "string \<Rightarrow> job_engine \<Rightarrow> timestamp list" where
  "dispatch_times job_type e =
     map dispatched_at (filter (\<lambda>j. jb_job_type j = job_type \<and> jb_attempt j > 0) (bt_values (je_jobs e)))"

definition last_dispatch :: "string \<Rightarrow> job_engine \<Rightarrow> timestamp option" where
  "last_dispatch job_type e =
     (case dispatch_times job_type e of [] \<Rightarrow> None | ts \<Rightarrow> Some (fold max ts (hd ts)))"

definition dispatchable ::
  "string list \<Rightarrow> (string, dispatch_policy) btree \<Rightarrow> timestamp \<Rightarrow> job_engine \<Rightarrow> provider_job \<Rightarrow> bool" where
  "dispatchable capabilities policies now e candidate =
     (case bt_get policies (jb_job_type candidate) of
        None \<Rightarrow> False
      | Some policy \<Rightarrow>
          claimable capabilities now candidate
          \<and> length (in_flight (jb_job_type candidate) e) < dp_max_in_flight policy
          \<and> is_none_or (\<lambda>last. num_milliseconds (now - last) \<ge> sint (dp_minimum_interval_millis policy))
              (last_dispatch (jb_job_type candidate) e))"

definition policies_invalid :: "(string, dispatch_policy) btree \<Rightarrow> bool" where
  "policies_invalid policies =
     list_ex (\<lambda>p. case policy_validate p of Inl err \<Rightarrow> True | Inr q \<Rightarrow> False) (bt_values policies)"

definition claim_next_with_policies ::
  "string \<Rightarrow> string list \<Rightarrow> (string, dispatch_policy) btree \<Rightarrow> int \<Rightarrow> timestamp \<Rightarrow> string \<Rightarrow> job_engine
     \<Rightarrow> job_engine_error + (provider_job option \<times> job_engine)" where
  "claim_next_with_policies worker_id capabilities policies lease_duration now uuid e =
     (if policies_invalid policies then Inl InvalidInput
      else claim_found (map_option jb_job_id
             (find (dispatchable capabilities policies now e) (bt_values (je_jobs e))))
           worker_id lease_duration now uuid e)"

section \<open>Operations of the lease holder\<close>

definition leased_job ::
  "string \<Rightarrow> string \<Rightarrow> timestamp \<Rightarrow> job_engine \<Rightarrow> job_engine_error + provider_job" where
  "leased_job job_id lease_token now e =
     (case bt_get (je_jobs e) job_id of
        None \<Rightarrow> Inl NotFound
      | Some j \<Rightarrow>
          if now \<ge> jb_deadline j then Inl DeadlineElapsed
          else if jb_lease_token j \<noteq> Some lease_token
                  \<or> is_none_or (\<lambda>expires. now \<ge> expires) (jb_lease_expires_at j)
          then Inl LeaseRejected
          else Inr j)"

definition clear_lease :: "provider_job \<Rightarrow> provider_job" where
  "clear_lease j = j\<lparr> jb_owner_id := None, jb_lease_token := None, jb_lease_expires_at := None \<rparr>"

definition store :: "string \<Rightarrow> provider_job \<Rightarrow> job_engine \<Rightarrow> provider_job \<times> job_engine" where
  "store job_id j e = (j, e\<lparr> je_jobs := bt_insert job_id j (je_jobs e) \<rparr>)"

definition start ::
  "string \<Rightarrow> string \<Rightarrow> timestamp \<Rightarrow> job_engine \<Rightarrow> job_engine_error + (provider_job \<times> job_engine)" where
  "start job_id lease_token now e =
     (case leased_job job_id lease_token now e of
        Inl err \<Rightarrow> Inl err
      | Inr j \<Rightarrow>
          if jb_status j \<noteq> Claimed then Inl InvalidTransition
          else Inr (store job_id (j\<lparr> jb_status := Running, jb_revision := jb_revision j + 1,
                 jb_started_at := opt_or (jb_started_at j) (Some now) \<rparr>) e))"

definition succeed ::
  "string \<Rightarrow> string \<Rightarrow> staged_result \<Rightarrow> timestamp \<Rightarrow> job_engine
     \<Rightarrow> job_engine_error + (provider_job \<times> job_engine)" where
  "succeed job_id lease_token res now e =
     (case validate_result res of
        Some err \<Rightarrow> Inl err
      | None \<Rightarrow>
          (case leased_job job_id lease_token now e of
             Inl err \<Rightarrow> Inl err
           | Inr j \<Rightarrow>
               if jb_status j \<noteq> Running then Inl InvalidTransition
               else Inr (store job_id (clear_lease (j\<lparr> jb_status := Succeeded, jb_revision := jb_revision j + 1,
                      jb_finished_at := Some now, jb_result := Some res \<rparr>)) e)))"

definition authorize_result ::
  "string \<Rightarrow> string \<Rightarrow> timestamp \<Rightarrow> job_engine \<Rightarrow> job_engine_error + provider_job" where
  "authorize_result job_id lease_token now e =
     (case bt_get (je_jobs e) job_id of
        None \<Rightarrow> Inl NotFound
      | Some j \<Rightarrow>
          if now \<ge> jb_deadline j then Inl DeadlineElapsed
          else if jb_lease_token j \<noteq> Some lease_token
                  \<or> is_none_or (\<lambda>expires. now \<ge> expires) (jb_lease_expires_at j)
          then Inl LeaseRejected
          else if jb_status j \<noteq> Running then Inl InvalidTransition
          else Inr j)"

definition finish_if_terminal :: "timestamp \<Rightarrow> provider_job \<Rightarrow> provider_job" where
  "finish_if_terminal now j = (if terminal (jb_status j) then j\<lparr> jb_finished_at := Some now \<rparr> else j)"

definition fail_job ::
  "string \<Rightarrow> string \<Rightarrow> job_error \<Rightarrow> bool \<Rightarrow> timestamp \<Rightarrow> job_engine
     \<Rightarrow> job_engine_error + (provider_job \<times> job_engine)" where
  "fail_job job_id lease_token err retryable now e =
     (if er_code err = [] \<or> er_classification err = [] \<or> length (er_redacted_message err) > 2048
      then Inl InvalidInput
      else case leased_job job_id lease_token now e of
        Inl er \<Rightarrow> Inl er
      | Inr j \<Rightarrow>
          if jb_status j \<noteq> Claimed \<and> jb_status j \<noteq> Running then Inl InvalidTransition
          else Inr (store job_id (clear_lease (finish_if_terminal now (j\<lparr>
                 jb_status := (if retryable \<and> jb_attempt j < jb_max_attempts j then FailedRetryable else FailedTerminal),
                 jb_revision := jb_revision j + 1, jb_error := Some err \<rparr>))) e))"

section \<open>Scheduler operations\<close>

definition requeue ::
  "string \<Rightarrow> timestamp \<Rightarrow> job_engine \<Rightarrow> job_engine_error + (provider_job \<times> job_engine)" where
  "requeue job_id now e =
     (case bt_get (je_jobs e) job_id of
        None \<Rightarrow> Inl NotFound
      | Some j \<Rightarrow>
          if jb_status j \<noteq> FailedRetryable \<or> now \<ge> jb_deadline j then Inl InvalidTransition
          else Inr (store job_id (j\<lparr> jb_status := Pending, jb_revision := jb_revision j + 1 \<rparr>) e))"

text \<open>A pass over all jobs that rewrites those selected and returns their ids.\<close>

definition sweep ::
  "(provider_job \<Rightarrow> bool) \<Rightarrow> (provider_job \<Rightarrow> provider_job) \<Rightarrow> job_engine \<Rightarrow> string list \<times> job_engine" where
  "sweep selected f e =
     (map jb_job_id (filter selected (bt_values (je_jobs e))),
      e\<lparr> je_jobs := map (\<lambda>(i, j). (i, if selected j then f j else j)) (je_jobs e) \<rparr>)"

definition requeue_retryable :: "timestamp \<Rightarrow> job_engine \<Rightarrow> string list \<times> job_engine" where
  "requeue_retryable now e =
     sweep (\<lambda>j. jb_status j = FailedRetryable \<and> now < jb_deadline j)
       (\<lambda>j. j\<lparr> jb_status := Pending, jb_revision := jb_revision j + 1 \<rparr>) e"

definition lease_expired_error :: job_error where
  "lease_expired_error = \<lparr> er_code = ''worker_lease_expired'', er_classification = ''worker_timeout'',
     er_redacted_message = ''worker lease expired'' \<rparr>"

definition lease_expired :: "timestamp \<Rightarrow> provider_job \<Rightarrow> bool" where
  "lease_expired now j =
     (active (jb_status j) \<and> is_some_and (\<lambda>deadline. now \<ge> deadline) (jb_lease_expires_at j))"

definition expire_job :: "timestamp \<Rightarrow> provider_job \<Rightarrow> provider_job" where
  "expire_job now j = clear_lease (finish_if_terminal now (j\<lparr>
     jb_status := (if jb_attempt j < jb_max_attempts j \<and> now < jb_deadline j then FailedRetryable else FailedTerminal),
     jb_revision := jb_revision j + 1,
     jb_error := Some lease_expired_error \<rparr>))"

definition expire_leases :: "timestamp \<Rightarrow> job_engine \<Rightarrow> string list \<times> job_engine" where
  "expire_leases now e = sweep (lease_expired now) (expire_job now) e"

definition cancel ::
  "string \<Rightarrow> string \<Rightarrow> timestamp \<Rightarrow> job_engine \<Rightarrow> job_engine_error + (provider_job \<times> job_engine)" where
  "cancel job_id actor now e =
     (if actor = [] then Inl InvalidInput
      else case bt_get (je_jobs e) job_id of
        None \<Rightarrow> Inl NotFound
      | Some j \<Rightarrow>
          if terminal (jb_status j) then Inl InvalidTransition
          else Inr (store job_id (clear_lease (j\<lparr> jb_status := Canceled, jb_revision := jb_revision j + 1,
                 jb_finished_at := Some now, jb_audit_actor := actor \<rparr>)) e))"

section \<open>Runs\<close>

text \<open>
  One call of the engine by its owner. The identifiers drawn by a call are the argument \<open>uuid\<close>;
  a run draws each of them at most once.
\<close>

datatype job_op =
    Submit submit_job string
  | Claim string string int string
  | ClaimNext string "string list" int string
  | ClaimNextPolicies string "string list" "(string, dispatch_policy) btree" int string
  | Start string string
  | Succeed string string staged_result
  | Fail string string job_error bool
  | Requeue string
  | RequeueRetryable
  | ExpireLeases
  | Cancel string string

fun op_uuids :: "job_op \<Rightarrow> string set" where
  "op_uuids (Submit input uuid) = {uuid}"
| "op_uuids (Claim job_id worker d uuid) = {uuid}"
| "op_uuids (ClaimNext worker caps d uuid) = {uuid}"
| "op_uuids (ClaimNextPolicies worker caps policies d uuid) = {uuid}"
| "op_uuids _ = {}"

fun job_exec :: "(json \<Rightarrow> string) \<Rightarrow> timestamp \<Rightarrow> job_op \<Rightarrow> job_engine \<Rightarrow> job_engine_error + job_engine" where
  "job_exec sha now (Submit input uuid) e = map_sum id snd (submit sha input now uuid e)"
| "job_exec sha now (Claim job_id worker d uuid) e = map_sum id snd (claim job_id worker d now uuid e)"
| "job_exec sha now (ClaimNext worker caps d uuid) e = map_sum id snd (claim_next worker caps d now uuid e)"
| "job_exec sha now (ClaimNextPolicies worker caps policies d uuid) e =
     map_sum id snd (claim_next_with_policies worker caps policies d now uuid e)"
| "job_exec sha now (Start job_id token) e = map_sum id snd (start job_id token now e)"
| "job_exec sha now (Succeed job_id token res) e = map_sum id snd (succeed job_id token res now e)"
| "job_exec sha now (Fail job_id token err retryable) e =
     map_sum id snd (fail_job job_id token err retryable now e)"
| "job_exec sha now (Requeue job_id) e = map_sum id snd (requeue job_id now e)"
| "job_exec sha now RequeueRetryable e = Inr (snd (requeue_retryable now e))"
| "job_exec sha now ExpireLeases e = Inr (snd (expire_leases now e))"
| "job_exec sha now (Cancel job_id actor) e = map_sum id snd (cancel job_id actor now e)"

text \<open>A configuration is the clock reading of the last call, the identifiers drawn so far, and the
  engine.  The callers read the clock before they wait for the lock on the engine, so a call may
  carry an earlier time than the one before it: nothing orders the times of a run.\<close>

type_synonym job_config = "timestamp \<times> string set \<times> job_engine"

inductive job_step :: "(json \<Rightarrow> string) \<Rightarrow> job_config \<Rightarrow> job_config \<Rightarrow> bool" for sha where
  call: "op_uuids op \<inter> used = {} \<Longrightarrow> [] \<notin> op_uuids op
    \<Longrightarrow> job_exec sha now op e = Inr e' \<Longrightarrow> job_step sha (t, used, e) (now, used \<union> op_uuids op, e')"

inductive_cases job_stepE: "job_step sha (t, used, e) (t', used', e')"

abbreviation job_run :: "(json \<Rightarrow> string) \<Rightarrow> timestamp \<Rightarrow> string set \<Rightarrow> job_engine \<Rightarrow> bool" where
  "job_run sha t used e \<equiv> \<exists>t0. (job_step sha)\<^sup>*\<^sup>* (t0, {}, engine_default) (t, used, e)"

end
