(* ===== verification/Jobs_Moves.thy ===== *)
theory Jobs_Moves
  imports Jobs
begin

text \<open>
  The abstract state machine of one job and the refinement of the engine to it: every
  successful call either submits a new job or moves each job by at most one transition of the
  machine, leaving the ids, the idempotency index and the order of the jobs alone. The
  invariant of the engine and the theorems about its runs rest on this.
\<close>

section \<open>The transitions of a job\<close>

text \<open>\<open>us\<close> are the identifiers drawn by the call: a claim takes its token from them.\<close>

inductive job_move :: "timestamp \<Rightarrow> string set \<Rightarrow> provider_job \<Rightarrow> provider_job \<Rightarrow> bool" for now us where
  claimed: "jb_status j = Pending \<Longrightarrow> jb_attempt j < jb_max_attempts j \<Longrightarrow> now < jb_deadline j
    \<Longrightarrow> token \<in> us \<Longrightarrow> now < expires \<Longrightarrow> expires \<le> jb_deadline j
    \<Longrightarrow> job_move now us j (j\<lparr> jb_status := Claimed, jb_revision := jb_revision j + 1, jb_attempt := jb_attempt j + 1,
          jb_owner_id := Some worker, jb_lease_token := Some token, jb_lease_expires_at := Some expires,
          jb_claimed_at := Some now \<rparr>)"
| started: "jb_status j = Claimed \<Longrightarrow> now < jb_deadline j \<Longrightarrow> job_move now us j (j\<lparr> jb_status := Running,
      jb_revision := jb_revision j + 1, jb_started_at := opt_or (jb_started_at j) (Some now) \<rparr>)"
| succeeded: "jb_status j = Running \<Longrightarrow> now < jb_deadline j \<Longrightarrow> validate_result res = None
    \<Longrightarrow> job_move now us j (clear_lease (j\<lparr> jb_status := Succeeded, jb_revision := jb_revision j + 1,
      jb_finished_at := Some now, jb_result := Some res \<rparr>))"
| failed: "active (jb_status j) \<Longrightarrow> s = FailedRetryable \<and> jb_attempt j < jb_max_attempts j \<or> s = FailedTerminal
    \<Longrightarrow> job_move now us j (clear_lease (finish_if_terminal now (j\<lparr> jb_status := s,
          jb_revision := jb_revision j + 1, jb_error := Some err \<rparr>)))"
| requeued: "jb_status j = FailedRetryable \<Longrightarrow> now < jb_deadline j
    \<Longrightarrow> job_move now us j (j\<lparr> jb_status := Pending, jb_revision := jb_revision j + 1 \<rparr>)"
| canceled: "\<not> terminal (jb_status j) \<Longrightarrow> actor \<noteq> [] \<Longrightarrow> job_move now us j (clear_lease (j\<lparr> jb_status := Canceled,
      jb_revision := jb_revision j + 1, jb_finished_at := Some now, jb_audit_actor := actor \<rparr>))"

inductive_cases job_moveE: "job_move now us j j'"

lemma clear_lease_fields [simp]:
  "jb_job_id (clear_lease j) = jb_job_id j" "jb_idempotency_key (clear_lease j) = jb_idempotency_key j"
  "jb_status (clear_lease j) = jb_status j" "jb_revision (clear_lease j) = jb_revision j"
  "jb_attempt (clear_lease j) = jb_attempt j" "jb_max_attempts (clear_lease j) = jb_max_attempts j"
  "jb_deadline (clear_lease j) = jb_deadline j" "jb_created_at (clear_lease j) = jb_created_at j"
  "jb_claimed_at (clear_lease j) = jb_claimed_at j" "jb_started_at (clear_lease j) = jb_started_at j"
  "jb_finished_at (clear_lease j) = jb_finished_at j" "jb_error (clear_lease j) = jb_error j"
  "jb_result (clear_lease j) = jb_result j" "jb_audit_actor (clear_lease j) = jb_audit_actor j"
  "jb_job_type (clear_lease j) = jb_job_type j" "jb_request_schema (clear_lease j) = jb_request_schema j"
  "jb_request (clear_lease j) = jb_request j" "jb_request_sha256 (clear_lease j) = jb_request_sha256 j"
  "jb_schema_version (clear_lease j) = jb_schema_version j"
  "jb_owner_id (clear_lease j) = None" "jb_lease_token (clear_lease j) = None" "jb_lease_expires_at (clear_lease j) = None"
  by (simp_all add: clear_lease_def)

lemma finish_if_terminal_fields [simp]:
  "jb_job_id (finish_if_terminal now j) = jb_job_id j" "jb_idempotency_key (finish_if_terminal now j) = jb_idempotency_key j"
  "jb_status (finish_if_terminal now j) = jb_status j" "jb_revision (finish_if_terminal now j) = jb_revision j"
  "jb_attempt (finish_if_terminal now j) = jb_attempt j" "jb_max_attempts (finish_if_terminal now j) = jb_max_attempts j"
  "jb_deadline (finish_if_terminal now j) = jb_deadline j" "jb_created_at (finish_if_terminal now j) = jb_created_at j"
  "jb_claimed_at (finish_if_terminal now j) = jb_claimed_at j" "jb_started_at (finish_if_terminal now j) = jb_started_at j"
  "jb_error (finish_if_terminal now j) = jb_error j" "jb_result (finish_if_terminal now j) = jb_result j"
  "jb_audit_actor (finish_if_terminal now j) = jb_audit_actor j" "jb_job_type (finish_if_terminal now j) = jb_job_type j"
  "jb_request_schema (finish_if_terminal now j) = jb_request_schema j" "jb_request (finish_if_terminal now j) = jb_request j"
  "jb_request_sha256 (finish_if_terminal now j) = jb_request_sha256 j"
  "jb_schema_version (finish_if_terminal now j) = jb_schema_version j"
  "jb_finished_at (finish_if_terminal now j) = (if terminal (jb_status j) then Some now else jb_finished_at j)"
  by (simp_all add: finish_if_terminal_def)

text \<open>What no transition changes, and what every transition does.\<close>

lemma job_move_identity:
  assumes "job_move now us j j'"
  shows "jb_job_id j' = jb_job_id j" "jb_idempotency_key j' = jb_idempotency_key j" "jb_job_type j' = jb_job_type j"
    "jb_request_schema j' = jb_request_schema j" "jb_request_sha256 j' = jb_request_sha256 j" "jb_request j' = jb_request j"
    "jb_deadline j' = jb_deadline j" "jb_max_attempts j' = jb_max_attempts j" "jb_created_at j' = jb_created_at j"
    "jb_schema_version j' = jb_schema_version j"
  using assms by (cases; simp)+

lemma job_move_revision: "job_move now us j j' \<Longrightarrow> jb_revision j' = jb_revision j + 1"
  by (cases rule: job_move.cases) auto

lemma job_move_not_terminal: "job_move now us j j' \<Longrightarrow> \<not> terminal (jb_status j)"
  by (cases rule: job_move.cases) (auto elim: active.elims)

lemma job_move_token:
  "job_move now us j j' \<Longrightarrow> jb_lease_token j' = Some token \<Longrightarrow> jb_lease_token j = Some token \<or> token \<in> us"
  by (cases rule: job_move.cases) auto

section \<open>Refinement of the engine\<close>

text \<open>
  Each job stays or moves, and the identifiers drawn by the call become the lease of one job at
  most.
\<close>

definition moves :: "timestamp \<Rightarrow> string set \<Rightarrow> job_engine \<Rightarrow> job_engine \<Rightarrow> bool" where
  "moves now us e e' \<longleftrightarrow> je_idempotency e' = je_idempotency e
     \<and> map fst (je_jobs e') = map fst (je_jobs e)
     \<and> (\<forall>i j. bt_get (je_jobs e) i = Some j \<longrightarrow>
          (\<exists>j'. bt_get (je_jobs e') i = Some j' \<and> (j' = j \<or> job_move now us j j')))
     \<and> (\<exists>i. \<forall>k j j'. k \<noteq> i \<longrightarrow> bt_get (je_jobs e) k = Some j \<longrightarrow> bt_get (je_jobs e') k = Some j'
          \<longrightarrow> jb_lease_token j' \<in> {None, jb_lease_token j})"

lemma keys_insert_present: "bt_wf m \<Longrightarrow> bt_get m k \<noteq> None \<Longrightarrow> map fst (bt_insert k v m) = map fst m"
proof (induction m)
  case (Cons kv m)
  obtain k' v' where kv: "kv = (k', v')" by (cases kv)
  have tail: "bt_wf m" and above: "\<forall>x \<in> fst ` set m. k' < x" using Cons.prems(1) by (auto simp: kv bt_wf_Cons)
  show ?case
  proof (cases "k = k'")
    case False
    then have "bt_get m k \<noteq> None" using Cons.prems(2) by (simp add: kv bt_get_Cons)
    moreover from this have "k \<in> fst ` set m" by (force dest: bt_get_in_set)
    then have "k' < k" using above by blast
    ultimately show ?thesis using Cons.IH tail by (auto simp: kv)
  qed (simp add: kv)
qed simp

lemma moves_insert:
  assumes "bt_wf (je_jobs e)" and "bt_get (je_jobs e) i = Some j" and "job_move now us j j'"
  shows "moves now us e (e\<lparr> je_jobs := bt_insert i j' (je_jobs e) \<rparr>)"
  using assms keys_insert_present [of "je_jobs e" i j'] by (simp add: moves_def)

lemma bt_get_map_entries: "bt_get (map (\<lambda>(i, j). (i, f j)) m) i = map_option f (bt_get m i)"
  by (induction m) (auto simp: bt_get_def)

lemma moves_sweep:
  assumes "\<And>j. selected j \<Longrightarrow> job_move now {} j (f j)"
  shows "moves now {} e (snd (sweep selected f e))"
proof -
  have "jb_lease_token (f j) \<in> {None, jb_lease_token j}" if "selected j" for j
    using job_move_token [OF assms [OF that]] by (cases "jb_lease_token (f j)") auto
  then show ?thesis
    using assms bt_get_map_entries [of "\<lambda>j. if selected j then f j else j" "je_jobs e"]
    by (auto simp: moves_def sweep_def o_def split_beta)
qed

lemma moves_refl: "moves now us e e"
  by (simp add: moves_def)

lemma leased_jobD:
  assumes "leased_job job_id token now e = Inr j"
  shows "bt_get (je_jobs e) job_id = Some j" "now < jb_deadline j" "jb_lease_token j = Some token"
    "\<exists>expires. jb_lease_expires_at j = Some expires \<and> now < expires"
  using assms by (auto simp: leased_job_def is_none_or_def split: option.splits if_splits)

lemma map_sum_snd_Inr: "map_sum id snd r = Inr e' \<longleftrightarrow> (\<exists>j. r = Inr (j, e'))"
  by (cases r) auto

lemma claimD:
  assumes "claim job_id worker d now uuid e = Inr (j', e')"
  obtains j where "bt_get (je_jobs e) job_id = Some j" "worker \<noteq> []" "0 < d" "now < jb_deadline j"
    "jb_status j = Pending" "jb_attempt j < jb_max_attempts j"
    "j' = j\<lparr> jb_status := Claimed, jb_revision := jb_revision j + 1, jb_attempt := jb_attempt j + 1,
       jb_owner_id := Some worker, jb_lease_token := Some uuid,
       jb_lease_expires_at := Some (min (now + d) (jb_deadline j)), jb_claimed_at := Some now \<rparr>"
    "e' = e\<lparr> je_jobs := bt_insert job_id j' (je_jobs e) \<rparr>"
  using assms by (auto simp: claim_def Let_def split: option.splits if_splits)

lemma claim_move:
  assumes "claim job_id worker d now uuid e = Inr (j', e')" and "bt_wf (je_jobs e)" and "uuid \<in> us"
  shows "moves now us e e'"
  using assms(1)
proof (rule claimD)
  fix j assume a: "bt_get (je_jobs e) job_id = Some j" "0 < d" "now < jb_deadline j" "jb_status j = Pending"
    "jb_attempt j < jb_max_attempts j" "e' = e\<lparr> je_jobs := bt_insert job_id j' (je_jobs e) \<rparr>"
    and j': "j' = j\<lparr> jb_status := Claimed, jb_revision := jb_revision j + 1, jb_attempt := jb_attempt j + 1,
       jb_owner_id := Some worker, jb_lease_token := Some uuid,
       jb_lease_expires_at := Some (min (now + d) (jb_deadline j)), jb_claimed_at := Some now \<rparr>"
  have "job_move now us j j'" unfolding j' using a assms(3) by (intro job_move.claimed) auto
  with a assms(2) show ?thesis by (auto intro: moves_insert)
qed

lemma claim_found_move:
  assumes "claim_found found worker d now uuid e = Inr (r, e')" and "bt_wf (je_jobs e)" and "uuid \<in> us"
  shows "moves now us e e'"
  using assms by (auto simp: claim_found_def moves_refl split: option.splits sum.splits intro: claim_move)

definition submits :: "(json \<Rightarrow> string) \<Rightarrow> timestamp \<Rightarrow> string set \<Rightarrow> job_engine \<Rightarrow> job_engine \<Rightarrow> bool" where
  "submits sha now us e e' \<longleftrightarrow> (\<exists>input uuid. uuid \<in> us \<and> validate_submit input now = None
     \<and> je_idempotency e (sj_idempotency_key input) = None
     \<and> e' = put_job (new_job sha input now uuid)
         (e\<lparr> je_idempotency := (je_idempotency e)(sj_idempotency_key input \<mapsto> uuid) \<rparr>))"

lemma submit_cases:
  assumes "submit sha input now uuid e = Inr (j, e')"
  shows "e' = e \<or> submits sha now {uuid} e e'"
  using assms unfolding submits_def submit_def by (auto simp: Let_def split: option.splits if_splits)

lemma store_move:
  assumes "store job_id j' e = (r, e')" and "bt_wf (je_jobs e)" and "bt_get (je_jobs e) job_id = Some j"
    and "job_move now us j j'"
  shows "moves now us e e'"
  using assms by (auto simp: store_def intro: moves_insert)

text \<open>A successful call submits a job or moves the jobs.\<close>

lemma job_exec_refines:
  assumes "job_exec sha now op e = Inr e'" and wf: "bt_wf (je_jobs e)"
  shows "moves now (op_uuids op) e e' \<or> submits sha now (op_uuids op) e e'"
proof (cases op)
  case (Submit input uuid)
  with assms(1) obtain j where "submit sha input now uuid e = Inr (j, e')" by (auto simp: map_sum_snd_Inr)
  from submit_cases [OF this] Submit show ?thesis by (auto simp: moves_refl)
next
  case (Claim job_id worker d uuid)
  with assms show ?thesis by (auto simp: map_sum_snd_Inr intro: claim_move)
next
  case (ClaimNext worker caps d uuid)
  with assms show ?thesis by (auto simp: map_sum_snd_Inr claim_next_def intro: claim_found_move)
next
  case (ClaimNextPolicies worker caps policies d uuid)
  with assms show ?thesis
    by (auto simp: map_sum_snd_Inr claim_next_with_policies_def split: if_splits intro: claim_found_move)
next
  case (Start job_id token)
  with assms(1) obtain j r where l: "leased_job job_id token now e = Inr j" and s: "jb_status j = Claimed"
    and st: "store job_id (j\<lparr> jb_status := Running, jb_revision := jb_revision j + 1,
      jb_started_at := opt_or (jb_started_at j) (Some now) \<rparr>) e = (r, e')"
    by (auto simp: map_sum_snd_Inr start_def split: sum.splits if_splits)
  from store_move [OF st wf leased_jobD(1) [OF l]] job_move.started [OF s leased_jobD(2) [OF l]] show ?thesis by blast
next
  case (Succeed job_id token res)
  with assms(1) obtain j r where l: "leased_job job_id token now e = Inr j" and s: "jb_status j = Running"
    and v: "validate_result res = None"
    and st: "store job_id (clear_lease (j\<lparr> jb_status := Succeeded, jb_revision := jb_revision j + 1,
      jb_finished_at := Some now, jb_result := Some res \<rparr>)) e = (r, e')"
    by (auto simp: map_sum_snd_Inr succeed_def split: sum.splits option.splits if_splits)
  from store_move [OF st wf leased_jobD(1) [OF l]] job_move.succeeded [OF s leased_jobD(2) [OF l] v] show ?thesis by blast
next
  case (Fail job_id token err retryable)
  with assms(1) obtain j r where l: "leased_job job_id token now e = Inr j" and s: "active (jb_status j)"
    and st: "store job_id (clear_lease (finish_if_terminal now (j\<lparr>
      jb_status := (if retryable \<and> jb_attempt j < jb_max_attempts j then FailedRetryable else FailedTerminal),
      jb_revision := jb_revision j + 1, jb_error := Some err \<rparr>))) e = (r, e')"
    by (auto simp: map_sum_snd_Inr fail_job_def split: sum.splits if_splits)
  have "job_move now (op_uuids op) j (clear_lease (finish_if_terminal now (j\<lparr>
      jb_status := (if retryable \<and> jb_attempt j < jb_max_attempts j then FailedRetryable else FailedTerminal),
      jb_revision := jb_revision j + 1, jb_error := Some err \<rparr>)))"
    by (rule job_move.failed [OF s]) auto
  from store_move [OF st wf leased_jobD(1) [OF l] this] show ?thesis by blast
next
  case (Requeue job_id)
  with assms(1) obtain j r where g: "bt_get (je_jobs e) job_id = Some j" and s: "jb_status j = FailedRetryable"
    "now < jb_deadline j"
    and st: "store job_id (j\<lparr> jb_status := Pending, jb_revision := jb_revision j + 1 \<rparr>) e = (r, e')"
    by (auto simp: map_sum_snd_Inr requeue_def split: option.splits if_splits)
  from store_move [OF st wf g] job_move.requeued [OF s] show ?thesis by blast
next
  case RequeueRetryable
  with assms(1) show ?thesis by (auto simp: requeue_retryable_def intro!: moves_sweep job_move.requeued)
next
  case ExpireLeases
  with assms(1) show ?thesis
    by (auto simp: expire_leases_def expire_job_def lease_expired_def intro!: moves_sweep job_move.failed)
next
  case (Cancel job_id actor)
  with assms(1) obtain j r where g: "bt_get (je_jobs e) job_id = Some j" and s: "\<not> terminal (jb_status j)" "actor \<noteq> []"
    and st: "store job_id (clear_lease (j\<lparr> jb_status := Canceled, jb_revision := jb_revision j + 1,
      jb_finished_at := Some now, jb_audit_actor := actor \<rparr>)) e = (r, e')"
    by (auto simp: map_sum_snd_Inr cancel_def split: option.splits if_splits)
  from store_move [OF st wf g] job_move.canceled [OF s] show ?thesis by blast
qed

end
