(* ===== verification/Jobs_Safety.thy ===== *)
theory Jobs_Safety
  imports Jobs_Moves
begin

text \<open>
  The invariant of the job engine over its runs, whatever the clock does between calls: every job
  passes the validation of a recovered row up to an error left over from an earlier attempt and
  a claim dated before the creation, its revision is bounded by its attempts,
  leases end by the deadline and no two jobs share a lease token, and the idempotency index and
  the jobs determine each other.
\<close>

section \<open>Well-formed jobs\<close>

definition leftover_error :: "provider_job \<Rightarrow> bool" where
  "leftover_error j = (jb_status j = Succeeded \<and> jb_error j \<noteq> None)"

definition early_claim :: "provider_job \<Rightarrow> bool" where
  "early_claim j = is_some_and (\<lambda>claimed. claimed < jb_created_at j) (jb_claimed_at j)"

definition forgive :: "provider_job \<Rightarrow> provider_job" where
  "forgive j = j\<lparr> jb_error := (if jb_status j = Succeeded then None else jb_error j),
     jb_claimed_at := map_option (max (jb_created_at j)) (jb_claimed_at j) \<rparr>"

text \<open>The most transitions a job can have made: four per attempt, one submission, one cancellation.\<close>

definition revision_bound :: "job_status \<Rightarrow> nat \<Rightarrow> nat" where
  "revision_bound s k = (case s of Pending \<Rightarrow> 4 * k + 1 | Claimed \<Rightarrow> 4 * k - 2 | Running \<Rightarrow> 4 * k - 1
     | Canceled \<Rightarrow> 4 * k + 2 | _ \<Rightarrow> 4 * k)"

definition job_ok :: "(json \<Rightarrow> string) \<Rightarrow> provider_job \<Rightarrow> bool" where
  "job_ok sha j \<longleftrightarrow> validate_recovered_job sha (forgive j) = None
     \<and> unat (jb_revision j) \<le> revision_bound (jb_status j) (unat (jb_attempt j))
     \<and> is_none_or (\<lambda>expires. expires \<le> jb_deadline j) (jb_lease_expires_at j)
     \<and> (jb_status j = FailedRetryable \<longrightarrow> jb_attempt j < jb_max_attempts j)"

lemma validate_recovered_None:
  "validate_recovered_job sha j = None \<longleftrightarrow>
     jb_schema_version j = job_schema_version \<and> jb_job_id j \<noteq> [] \<and> jb_idempotency_key j \<noteq> [] \<and> jb_job_type j \<noteq> []
     \<and> jb_request_schema j \<noteq> [] \<and> jb_audit_actor j \<noteq> [] \<and> jb_revision j \<noteq> 0 \<and> jb_max_attempts j \<noteq> 0
     \<and> jb_max_attempts j \<le> 20 \<and> jb_attempt j \<le> jb_max_attempts j \<and> jb_created_at j < jb_deadline j
     \<and> (jb_attempt j = 0 \<longrightarrow> jb_claimed_at j = None)
     \<and> is_none_or (\<lambda>claimed. jb_created_at j \<le> claimed \<and> claimed < jb_deadline j) (jb_claimed_at j)
     \<and> sha (jb_request j) = jb_request_sha256 j \<and> lease_fields_valid j \<and> status_fields_valid j"
  by (cases "jb_claimed_at j") (auto simp: validate_recovered_job_def not_less not_le)

lemma forgive_fields [simp]:
  "jb_schema_version (forgive j) = jb_schema_version j" "jb_job_id (forgive j) = jb_job_id j"
  "jb_idempotency_key (forgive j) = jb_idempotency_key j" "jb_job_type (forgive j) = jb_job_type j"
  "jb_request_schema (forgive j) = jb_request_schema j" "jb_audit_actor (forgive j) = jb_audit_actor j"
  "jb_revision (forgive j) = jb_revision j" "jb_max_attempts (forgive j) = jb_max_attempts j"
  "jb_attempt (forgive j) = jb_attempt j" "jb_deadline (forgive j) = jb_deadline j"
  "jb_created_at (forgive j) = jb_created_at j"
  "jb_claimed_at (forgive j) = map_option (max (jb_created_at j)) (jb_claimed_at j)"
  "jb_request (forgive j) = jb_request j" "jb_request_sha256 (forgive j) = jb_request_sha256 j"
  "jb_status (forgive j) = jb_status j" "lease_fields_valid (forgive j) = lease_fields_valid j"
  by (simp_all add: forgive_def lease_fields_valid_def)

lemma validate_recovered_cases: "validate_recovered_job sha j = None \<or> validate_recovered_job sha j = Some InvalidInput"
  by (simp add: validate_recovered_job_def)

lemma validate_forgive:
  "validate_recovered_job sha j = None \<longleftrightarrow>
     \<not> leftover_error j \<and> \<not> early_claim j \<and> validate_recovered_job sha (forgive j) = None"
  by (cases "jb_claimed_at j")
    (auto simp: validate_recovered_None leftover_error_def early_claim_def forgive_def status_fields_valid_def
      lease_fields_valid_def split: job_status.splits)

text \<open>The fields that depend on the status, without the clause on the error of a succeeded job.\<close>

lemma status_fields_forgive:
  "status_fields_valid (forgive j) \<longleftrightarrow> (case jb_status j of
        Succeeded \<Rightarrow> jb_started_at j \<noteq> None \<and> jb_finished_at j \<noteq> None \<and> jb_result j \<noteq> None
      | _ \<Rightarrow> status_fields_valid j)"
  by (auto simp: status_fields_valid_def forgive_def split: job_status.split)

lemma job_ok_iff:
  "job_ok sha j \<longleftrightarrow>
     jb_schema_version j = job_schema_version \<and> jb_job_id j \<noteq> [] \<and> jb_idempotency_key j \<noteq> [] \<and> jb_job_type j \<noteq> []
     \<and> jb_request_schema j \<noteq> [] \<and> jb_audit_actor j \<noteq> [] \<and> jb_revision j \<noteq> 0 \<and> jb_max_attempts j \<noteq> 0
     \<and> jb_max_attempts j \<le> 20 \<and> jb_attempt j \<le> jb_max_attempts j \<and> jb_created_at j < jb_deadline j
     \<and> (jb_attempt j = 0 \<longrightarrow> jb_claimed_at j = None)
     \<and> is_none_or (\<lambda>claimed. claimed < jb_deadline j) (jb_claimed_at j)
     \<and> sha (jb_request j) = jb_request_sha256 j \<and> lease_fields_valid j
     \<and> (case jb_status j of
          Succeeded \<Rightarrow> jb_started_at j \<noteq> None \<and> jb_finished_at j \<noteq> None \<and> jb_result j \<noteq> None
        | _ \<Rightarrow> status_fields_valid j)
     \<and> unat (jb_revision j) \<le> revision_bound (jb_status j) (unat (jb_attempt j))
     \<and> is_none_or (\<lambda>expires. expires \<le> jb_deadline j) (jb_lease_expires_at j)
     \<and> (jb_status j = FailedRetryable \<longrightarrow> jb_attempt j < jb_max_attempts j)"
proof -
  have claimed: "is_none_or (\<lambda>claimed. c \<le> claimed \<and> claimed < d) (map_option (max c) o1) \<longleftrightarrow> is_none_or (\<lambda>claimed. claimed < d) o1"
    if "c < d" for c d :: timestamp and o1
    using that by (cases o1) simp_all
  show ?thesis
    unfolding job_ok_def validate_recovered_None status_fields_forgive forgive_fields
    using claimed [of "jb_created_at j" "jb_deadline j" "jb_claimed_at j"]
    by (cases "jb_created_at j < jb_deadline j") (simp_all add: conj_assoc)
qed

lemmas job_ok_defs = job_ok_iff lease_fields_valid_def status_fields_valid_def revision_bound_def

section \<open>Transitions keep jobs well-formed\<close>

lemma attempt_succ:
  assumes "(a :: u32) < m" shows "unat (a + 1) = Suc (unat a)" "a + 1 \<le> m" "a + 1 \<noteq> 0"
proof -
  have "a \<noteq> - 1" using assms by (metis not_less word_n1_ge)
  then show s: "unat (a + 1) = Suc (unat a)" by (rule unat_add1)
  then show "a + 1 \<le> m" using assms by (simp add: word_le_nat_alt word_less_nat_alt)
  show "a + 1 \<noteq> 0" using s by (metis nat.distinct(1) unat_0)
qed

lemma revision_succ:
  assumes "job_ok sha j" shows "unat (jb_revision j + 1) = Suc (unat (jb_revision j))" "jb_revision j + 1 \<noteq> 0"
proof -
  have "unat (jb_attempt j) \<le> unat (20 :: u32)"
    using assms by (auto simp: job_ok_def validate_recovered_None word_le_nat_alt)
  then have "unat (jb_revision j) \<le> 82"
    using assms by (auto simp: job_ok_def revision_bound_def split: job_status.splits)
  then have "jb_revision j \<le> 82" by (simp add: word_le_nat_alt)
  moreover have "\<not> max_u64 \<le> 82" by code_simp
  ultimately have "jb_revision j \<noteq> - 1" by auto
  then show "unat (jb_revision j + 1) = Suc (unat (jb_revision j))" by (rule unat_add1)
  then show "jb_revision j + 1 \<noteq> 0" by (metis nat.distinct(1) unat_0)
qed

lemma job_ok_move:
  assumes ok: "job_ok sha j" and m: "job_move now us j j'"
  shows "job_ok sha j'"
proof -
  have "jb_attempt j \<noteq> 0 \<longrightarrow> 1 \<le> unat (jb_attempt j)" by (simp add: Suc_le_eq unat_gt_0)
  note rev = revision_succ [OF ok] this
  from m show ?thesis
  proof cases
    case (claimed token expires worker)
    note a = attempt_succ [OF claimed(3)]
    show ?thesis
      using ok claimed a rev
      by (auto simp: job_ok_defs word_gt_0)
  next
    case started
    then show ?thesis
      using ok rev
      by (cases "jb_started_at j")
        (auto simp: job_ok_defs word_gt_0)
  next
    case (succeeded res)
    then show ?thesis
      using ok rev
      by (auto simp: job_ok_defs)
  next
    case (failed s err)
    then show ?thesis
      using ok rev
      by (auto simp: job_ok_defs
          elim!: active.elims)
  next
    case requeued
    then show ?thesis
      using ok rev
      by (auto simp: job_ok_defs)
  next
    case (canceled actor)
    then show ?thesis
      using ok rev
      by (auto simp: job_ok_defs
          split: job_status.splits)
  qed
qed

lemma job_ok_new:
  assumes "validate_submit input now = None" and "uuid \<noteq> []" shows "job_ok sha (new_job sha input now uuid)"
  using assms by (auto simp: validate_submit_def job_ok_defs new_job_def job_schema_version_def split: if_splits)

lemma job_ok_revision:
  assumes "job_ok sha j" shows "1 \<le> unat (jb_revision j)" "unat (jb_revision j) \<le> 82" "unat (jb_attempt j) \<le> 20"
proof -
  have a: "unat (jb_attempt j) \<le> unat (jb_max_attempts j)" "unat (jb_max_attempts j) \<le> 20" "0 < unat (jb_revision j)"
    using assms by (simp_all add: job_ok_iff word_le_nat_alt unat_gt_0)
  then show "1 \<le> unat (jb_revision j)" "unat (jb_attempt j) \<le> 20" by simp_all
  with assms show "unat (jb_revision j) \<le> 82"
    by (auto simp: job_ok_iff revision_bound_def split: job_status.splits)
qed

section \<open>The invariant of the engine\<close>

definition tokens_ok :: "string set \<Rightarrow> job_engine \<Rightarrow> bool" where
  "tokens_ok used e \<longleftrightarrow>
     (\<forall>i j token. bt_get (je_jobs e) i = Some j \<longrightarrow> jb_lease_token j = Some token \<longrightarrow> token \<in> used
        \<and> (\<forall>i' j'. bt_get (je_jobs e) i' = Some j' \<longrightarrow> jb_lease_token j' = Some token \<longrightarrow> i' = i))"

definition index_ok :: "string set \<Rightarrow> job_engine \<Rightarrow> bool" where
  "index_ok used e \<longleftrightarrow> bt_wf (je_jobs e)
     \<and> (\<forall>i j. bt_get (je_jobs e) i = Some j \<longrightarrow>
          jb_job_id j = i \<and> i \<in> used \<and> je_idempotency e (jb_idempotency_key j) = Some i)
     \<and> (\<forall>k i. je_idempotency e k = Some i \<longrightarrow> (\<exists>j. bt_get (je_jobs e) i = Some j \<and> jb_idempotency_key j = k))"

definition jobs_ok :: "(json \<Rightarrow> string) \<Rightarrow> job_engine \<Rightarrow> bool" where
  "jobs_ok sha e \<longleftrightarrow> (\<forall>i j. bt_get (je_jobs e) i = Some j \<longrightarrow> job_ok sha j)"

lemma moves_get:
  "moves now us e e' \<Longrightarrow> bt_get (je_jobs e) i = Some j
   \<Longrightarrow> \<exists>j'. bt_get (je_jobs e') i = Some j' \<and> (j' = j \<or> job_move now us j j')"
  by (simp add: moves_def)

lemma index_okD:
  assumes "index_ok used e"
  shows "bt_wf (je_jobs e)"
    and "bt_get (je_jobs e) i = Some j \<Longrightarrow> jb_job_id j = i \<and> i \<in> used \<and> je_idempotency e (jb_idempotency_key j) = Some i"
    and "je_idempotency e k = Some i \<Longrightarrow> \<exists>j. bt_get (je_jobs e) i = Some j \<and> jb_idempotency_key j = k"
  using assms by (simp_all add: index_ok_def)

lemma moves_back:
  assumes "moves now us e e'" and "bt_get (je_jobs e') i = Some j'"
  obtains j where "bt_get (je_jobs e) i = Some j" "j' = j \<or> job_move now us j j'"
proof -
  have "set (bt_keys (je_jobs e')) = set (bt_keys (je_jobs e))" using assms(1) by (simp add: moves_def bt_keys_def)
  then obtain j where "bt_get (je_jobs e) i = Some j"
    using assms(2) by (metis bt_contains_def bt_contains_iff_keys option.exhaust option.simps(3))
  with moves_get [OF assms(1) this] assms(2) show thesis by (intro that) auto
qed

lemma moves_identity:
  assumes "j' = j \<or> job_move now us j j'"
  shows "jb_job_id j' = jb_job_id j" "jb_idempotency_key j' = jb_idempotency_key j"
  using assms job_move_identity by blast+

lemma index_ok_moves: "index_ok used e \<Longrightarrow> moves now us e e' \<Longrightarrow> index_ok (used \<union> us) e'"
proof -
  assume ok: "index_ok used e" and m: "moves now us e e'"
  have same: "je_idempotency e' = je_idempotency e" and wf: "bt_wf (je_jobs e')"
    using ok m by (simp_all add: index_ok_def moves_def bt_wf_def)
  have "jb_job_id j' = i \<and> i \<in> used \<union> us \<and> je_idempotency e' (jb_idempotency_key j') = Some i"
    if g: "bt_get (je_jobs e') i = Some j'" for i j'
  proof (rule moves_back [OF m g])
    fix j assume j: "bt_get (je_jobs e) i = Some j" and s: "j' = j \<or> job_move now us j j'"
    from index_okD(2) [OF ok j] show ?thesis by (simp add: same moves_identity [OF s])
  qed
  moreover have "\<exists>j'. bt_get (je_jobs e') i = Some j' \<and> jb_idempotency_key j' = k"
    if "je_idempotency e' k = Some i" for k i
  proof -
    from that have "je_idempotency e k = Some i" by (simp add: same)
    from index_okD(3) [OF ok this] obtain j where j: "bt_get (je_jobs e) i = Some j" "jb_idempotency_key j = k" by blast
    from moves_get [OF m j(1)] obtain j' where "bt_get (je_jobs e') i = Some j'" "j' = j \<or> job_move now us j j'" by blast
    with j(2) moves_identity(2) show ?thesis by blast
  qed
  ultimately show ?thesis using wf by (simp add: index_ok_def)
qed

lemma jobs_ok_moves: "jobs_ok sha e \<Longrightarrow> moves now us e e' \<Longrightarrow> jobs_ok sha e'"
  unfolding jobs_ok_def
proof (intro allI impI)
  fix i j' assume ok: "\<forall>i j. bt_get (je_jobs e) i = Some j \<longrightarrow> job_ok sha j" and m: "moves now us e e'"
    and g: "bt_get (je_jobs e') i = Some j'"
  show "job_ok sha j'"
  proof (rule moves_back [OF m g])
    fix j assume "bt_get (je_jobs e) i = Some j" and s: "j' = j \<or> job_move now us j j'"
    with ok have j: "job_ok sha j" by blast
    from s show ?thesis
    proof
      assume "j' = j" with j show ?thesis by simp
    next
      assume "job_move now us j j'" then show ?thesis by (rule job_ok_move [OF j])
    qed
  qed
qed

lemma tokens_ok_moves:
  assumes ok: "tokens_ok used e" and m: "moves now us e e'" and fresh: "us \<inter> used = {}"
  shows "tokens_ok (used \<union> us) e'"
proof -
  have old: "jb_lease_token j = Some token \<or> token \<in> us"
    if "j' = j \<or> job_move now us j j'" "jb_lease_token j' = Some token" for j j' token
    using that job_move_token by blast
  have src: "token \<in> used" if "bt_get (je_jobs e) i = Some j" "jb_lease_token j = Some token" for i j token
    using ok that unfolding tokens_ok_def by blast
  obtain c where other: "\<And>k j j'. k \<noteq> c \<Longrightarrow> bt_get (je_jobs e) k = Some j \<Longrightarrow> bt_get (je_jobs e') k = Some j'
      \<Longrightarrow> jb_lease_token j' \<in> {None, jb_lease_token j}"
    using m unfolding moves_def by blast
  have one: "i' = i" if g: "bt_get (je_jobs e') i = Some j'" "jb_lease_token j' = Some token"
    "bt_get (je_jobs e') i' = Some k'" "jb_lease_token k' = Some token" for i i' j' k' token
  proof -
    obtain j where j: "bt_get (je_jobs e) i = Some j" "j' = j \<or> job_move now us j j'" by (rule moves_back [OF m g(1)])
    obtain k where k: "bt_get (je_jobs e) i' = Some k" "k' = k \<or> job_move now us k k'" by (rule moves_back [OF m g(3)])
    show ?thesis
    proof (cases "token \<in> us")
      case True
      then have "token \<notin> used" using fresh by blast
      then have "i = c" "i' = c" using other j k g src by fastforce+
      then show ?thesis by simp
    next
      case False
      with old j k g have "jb_lease_token j = Some token" "jb_lease_token k = Some token" by blast+
      with ok j k show ?thesis unfolding tokens_ok_def by blast
    qed
  qed
  show ?thesis unfolding tokens_ok_def
  proof (intro allI impI conjI)
    fix i j' token assume g: "bt_get (je_jobs e') i = Some j'" "jb_lease_token j' = Some token"
    obtain j where "bt_get (je_jobs e) i = Some j" "j' = j \<or> job_move now us j j'" by (rule moves_back [OF m g(1)])
    with old [OF this(2) g(2)] src show "token \<in> used \<union> us" by blast
  qed (rule one)
qed

section \<open>Submission keeps the invariant\<close>

definition engine_ok :: "(json \<Rightarrow> string) \<Rightarrow> string set \<Rightarrow> job_engine \<Rightarrow> bool" where
  "engine_ok sha used e \<longleftrightarrow> index_ok used e \<and> jobs_ok sha e \<and> tokens_ok used e"

lemma engine_ok_default: "engine_ok sha used engine_default"
  by (simp add: engine_ok_def index_ok_def jobs_ok_def tokens_ok_def engine_default_def)

lemma bt_get_submitted:
  "bt_get (je_jobs (put_job (new_job sha input now uuid) (e\<lparr> je_idempotency := f \<rparr>))) i
     = (if i = uuid then Some (new_job sha input now uuid) else bt_get (je_jobs e) i)"
  by (simp add: put_job_def new_job_def)

lemma engine_ok_submits:
  assumes ok: "engine_ok sha used e" and s: "submits sha now us e e'"
    and fresh: "us \<inter> used = {}" "[] \<notin> us"
  shows "engine_ok sha (used \<union> us) e'"
proof -
  from s obtain input uuid where u: "uuid \<in> us" and v: "validate_submit input now = None"
    and k: "je_idempotency e (sj_idempotency_key input) = None"
    and e': "e' = put_job (new_job sha input now uuid)
         (e\<lparr> je_idempotency := (je_idempotency e)(sj_idempotency_key input \<mapsto> uuid) \<rparr>)"
    by (auto simp: submits_def)
  have i: "index_ok used e" and j: "jobs_ok sha e" and tk: "tokens_ok used e"
    using ok by (simp_all add: engine_ok_def)
  have get: "bt_get (je_jobs e') i = (if i = uuid then Some (new_job sha input now uuid) else bt_get (je_jobs e) i)" for i
    unfolding e' by (rule bt_get_submitted)
  have none: "bt_get (je_jobs e) uuid = None"
    using index_okD(2) [OF i, of uuid] u fresh(1) by (cases "bt_get (je_jobs e) uuid") auto
  have idem: "je_idempotency e' = (je_idempotency e)(sj_idempotency_key input \<mapsto> uuid)"
    and wf: "bt_wf (je_jobs e')"
    using index_okD(1) [OF i] by (simp_all add: e' put_job_def bt_wf_insert)
  have new: "jb_job_id (new_job sha input now uuid) = uuid" "jb_lease_token (new_job sha input now uuid) = None"
    "jb_idempotency_key (new_job sha input now uuid) = sj_idempotency_key input"
    by (simp_all add: new_job_def)
  have "index_ok (used \<union> us) e'" unfolding index_ok_def
  proof (intro conjI allI impI)
    fix n m assume "bt_get (je_jobs e') n = Some m"
    then show "jb_job_id m = n" "n \<in> used \<union> us" "je_idempotency e' (jb_idempotency_key m) = Some n"
      using index_okD(2) [OF i, of n m] u k by (auto simp: get idem new split: if_splits)
  next
    fix key n assume "je_idempotency e' key = Some n"
    then show "\<exists>m. bt_get (je_jobs e') n = Some m \<and> jb_idempotency_key m = key"
      using index_okD(3) [OF i, of key n] none by (auto simp: get idem new split: if_splits)
  qed (rule wf)
  moreover have "jobs_ok sha e'"
    unfolding jobs_ok_def get
  proof (intro allI impI)
    fix n m assume g: "(if n = uuid then Some (new_job sha input now uuid) else bt_get (je_jobs e) n) = Some m"
    have "uuid \<noteq> []" using u fresh(2) by auto
    then have "job_ok sha (new_job sha input now uuid)" by (rule job_ok_new [OF v])
    moreover have "job_ok sha m" if "bt_get (je_jobs e) n = Some m"
      using j that by (simp add: jobs_ok_def)
    ultimately show "job_ok sha m" using g by (auto split: if_splits)
  qed
  moreover have "tokens_ok (used \<union> us) e'"
    unfolding tokens_ok_def
  proof (intro allI impI conjI)
    have old: "bt_get (je_jobs e) n = Some m" if "bt_get (je_jobs e') n = Some m" "jb_lease_token m = Some token" for n m token
      using that new(2) by (auto simp: get split: if_splits)
    fix n m token assume g: "bt_get (je_jobs e') n = Some m" "jb_lease_token m = Some token"
    show "token \<in> used \<union> us" using tk old [OF g] g(2) unfolding tokens_ok_def by blast
    fix n' m' assume "bt_get (je_jobs e') n' = Some m'" "jb_lease_token m' = Some token"
    with tk old [OF g] old [OF this] g(2) show "n' = n" unfolding tokens_ok_def by blast
  qed
  ultimately show ?thesis unfolding engine_ok_def by blast
qed

section \<open>Runs keep the invariant\<close>

lemma engine_ok_step:
  assumes "job_step sha (t, used, e) (t', used', e')" and ok: "engine_ok sha used e"
  shows "engine_ok sha used' e'"
  using assms(1)
proof (rule job_stepE)
  fix op assume a: "used' = used \<union> op_uuids op" "op_uuids op \<inter> used = {}" "[] \<notin> op_uuids op"
    and x: "job_exec sha t' op e = Inr e'"
  have i: "index_ok used e" "jobs_ok sha e" "tokens_ok used e" using ok by (simp_all add: engine_ok_def)
  from job_exec_refines [OF x index_okD(1) [OF i(1)]] show ?thesis
  proof
    assume "moves t' (op_uuids op) e e'"
    with i a show ?thesis
      by (simp add: engine_ok_def index_ok_moves jobs_ok_moves tokens_ok_moves)
  next
    assume "submits sha t' (op_uuids op) e e'"
    from engine_ok_submits [OF ok this a(2,3)] a(1) show ?thesis by simp
  qed
qed

lemma engine_ok_steps:
  assumes "(job_step sha)\<^sup>*\<^sup>* c c'" and "engine_ok sha (fst (snd c)) (snd (snd c))"
  shows "engine_ok sha (fst (snd c')) (snd (snd c'))"
  using assms(1)
proof (induction rule: rtranclp_induct)
  case (step d d')
  obtain t used e t' used' e' where "d = (t, used, e)" "d' = (t', used', e')" by (cases d, cases d') auto
  with step engine_ok_step show ?case by simp
qed (rule assms(2))

lemma engine_ok_run: "job_run sha t used e \<Longrightarrow> engine_ok sha used e"
  using engine_ok_steps engine_ok_default by force

text \<open>What one step does to the jobs that exist before it.\<close>

lemma job_step_jobs:
  assumes "job_step sha (t, used, e) (t', used', e')" and ok: "engine_ok sha used e"
    and g: "bt_get (je_jobs e) i = Some j"
  shows "\<exists>j'. bt_get (je_jobs e') i = Some j' \<and> (j' = j \<or> (\<exists>us. us \<inter> used = {} \<and> job_move t' us j j'))"
  using assms(1)
proof (rule job_stepE)
  fix op assume a: "op_uuids op \<inter> used = {}" and x: "job_exec sha t' op e = Inr e'"
  have i: "index_ok used e" using ok by (simp add: engine_ok_def)
  from job_exec_refines [OF x index_okD(1) [OF i]] show ?thesis
  proof
    assume "moves t' (op_uuids op) e e'"
    from moves_get [OF this g] a show ?thesis by blast
  next
    assume "submits sha t' (op_uuids op) e e'"
    then obtain input uuid where u: "uuid \<in> op_uuids op"
      and e': "e' = put_job (new_job sha input t' uuid)
         (e\<lparr> je_idempotency := (je_idempotency e)(sj_idempotency_key input \<mapsto> uuid) \<rparr>)"
      by (auto simp: submits_def)
    have "i \<noteq> uuid" using index_okD(2) [OF i g] u a by auto
    with g show ?thesis by (simp add: e' bt_get_submitted)
  qed
qed

text \<open>A property of a job that no transition destroys holds after any further run.\<close>

lemma job_steps_keep:
  assumes "(job_step sha)\<^sup>*\<^sup>* (t, used, e) c'" and "engine_ok sha used e"
    and "bt_get (je_jobs e) i = Some j" and "P j"
    and keep: "\<And>now us j j'. P j \<Longrightarrow> job_ok sha j \<Longrightarrow> job_move now us j j' \<Longrightarrow> P j'"
  shows "\<exists>j'. bt_get (je_jobs (snd (snd c'))) i = Some j' \<and> P j'"
  using assms(1)
proof (induction rule: rtranclp_induct)
  case base
  show ?case using assms(3,4) by auto
next
  case (step d d')
  obtain t1 u1 e1 where d: "d = (t1, u1, e1)" by (cases d) auto
  obtain t2 u2 e2 where d': "d' = (t2, u2, e2)" by (cases d') auto
  have ok: "engine_ok sha u1 e1" using engine_ok_steps [OF step(1)] assms(2) by (simp add: d)
  obtain k where k: "bt_get (je_jobs e1) i = Some k" "P k" using step.IH by (auto simp: d)
  have jk: "job_ok sha k" using ok k(1) by (simp add: engine_ok_def jobs_ok_def)
  from job_step_jobs [OF step(2) [unfolded d d'] ok k(1)] keep [OF k(2) jk] k(2) show ?case
    by (auto simp: d')
qed

end
