(* ===== verification/Jobs_Theorems.thy ===== *)
theory Jobs_Theorems
  imports Jobs_Safety
begin

text \<open>
  The properties of the job engine: what its runs keep, which worker can act on a job, when a
  snapshot can be recovered, and what dispatch and expiry promise. The witnesses run a small
  engine through a failed attempt, a second claim and a success.
\<close>

section \<open>A concrete run\<close>

definition demo_sha :: "json \<Rightarrow> string" where
  "demo_sha v = replicate 64 (CHR ''0'')"

definition demo_input :: submit_job where
  "demo_input = \<lparr> sj_idempotency_key = ''k'', sj_job_type = ''bars'', sj_request_schema = ''v1'', sj_request = JNull,
     sj_deadline = 1000, sj_max_attempts = 3, sj_audit_actor = ''ops'' \<rparr>"

definition demo_result :: staged_result where
  "demo_result = \<lparr> sr_relative_path = ''out/a.json'', sr_sha256 = replicate 64 (CHR ''a''), sr_size_bytes = 1,
     sr_media_type = ''application/json'' \<rparr>"

definition demo_failure :: job_error where
  "demo_failure = \<lparr> er_code = ''http'', er_classification = ''upstream'', er_redacted_message = ''503'' \<rparr>"

fun exec_all :: "(json \<Rightarrow> string) \<Rightarrow> (timestamp \<times> job_op) list \<Rightarrow> job_engine \<Rightarrow> job_engine_error + job_engine" where
  "exec_all sha [] e = Inr e"
| "exec_all sha ((now, op) # ops) e =
     (case job_exec sha now op e of Inl err \<Rightarrow> Inl err | Inr e' \<Rightarrow> exec_all sha ops e')"

definition demo_claim :: "(timestamp \<times> job_op) list" where
  "demo_claim = [(0, Submit demo_input ''j1''), (1, Claim ''j1'' ''w1'' 100 ''t1'')]"

definition demo_fail :: "(timestamp \<times> job_op) list" where
  "demo_fail = [(2, Fail ''j1'' ''t1'' demo_failure True)]"

definition demo_again :: "(timestamp \<times> job_op) list" where
  "demo_again = [(3, Requeue ''j1''), (4, Claim ''j1'' ''w2'' 100 ''t2''),
     (5, Start ''j1'' ''t2''), (6, Succeed ''j1'' ''t2'' demo_result)]"

definition demo_retry :: "(timestamp \<times> job_op) list" where
  "demo_retry = demo_fail @ demo_again"

definition demo_engine :: "(timestamp \<times> job_op) list \<Rightarrow> job_engine" where
  "demo_engine ops = (case exec_all demo_sha ops engine_default of Inr e \<Rightarrow> e | Inl err \<Rightarrow> engine_default)"

fun timed :: "timestamp \<Rightarrow> string set \<Rightarrow> (timestamp \<times> job_op) list \<Rightarrow> bool" where
  "timed t used [] = True"
| "timed t used ((now, op) # ops) =
     (op_uuids op \<inter> used = {} \<and> [] \<notin> op_uuids op \<and> timed now (used \<union> op_uuids op) ops)"

fun drawn :: "(timestamp \<times> job_op) list \<Rightarrow> string set" where
  "drawn [] = {}"
| "drawn ((now, op) # ops) = op_uuids op \<union> drawn ops"

lemma exec_all_steps:
  assumes "exec_all sha ops e = Inr e'" and "timed t used ops"
  shows "(job_step sha)\<^sup>*\<^sup>* (t, used, e) (last (t # map fst ops), used \<union> drawn ops, e')"
  using assms
proof (induction ops arbitrary: t used e)
  case (Cons x ops)
  obtain now op where x: "x = (now, op)" by (cases x)
  from Cons.prems obtain e1 where e1: "job_exec sha now op e = Inr e1" "exec_all sha ops e1 = Inr e'"
    by (auto simp: x split: sum.splits)
  have "job_step sha (t, used, e) (now, used \<union> op_uuids op, e1)"
    using Cons.prems(2) e1(1) by (intro job_step.call) (auto simp: x)
  moreover have "(job_step sha)\<^sup>*\<^sup>* (now, used \<union> op_uuids op, e1) (last (now # map fst ops), used \<union> op_uuids op \<union> drawn ops, e')"
    using Cons.prems(2) by (intro Cons.IH [OF e1(2)]) (simp add: x)
  ultimately have "(job_step sha)\<^sup>*\<^sup>* (t, used, e) (last (now # map fst ops), used \<union> op_uuids op \<union> drawn ops, e')"
    by (rule converse_rtranclp_into_rtranclp)
  then show ?case by (simp add: x Un_assoc)
qed simp

lemma exec_all_append:
  "exec_all sha (xs @ ys) e = (case exec_all sha xs e of Inl err \<Rightarrow> Inl err | Inr e' \<Rightarrow> exec_all sha ys e')"
  by (induction sha xs e rule: exec_all.induct) (auto split: sum.splits)

lemma demo_run:
  assumes "exec_all demo_sha ops engine_default = Inr e" and "timed 0 {} ops"
  shows "job_run demo_sha (last (0 # map fst ops)) (drawn ops) e"
  using exec_all_steps [OF assms] by auto

lemmas demo_job_defs = submit_def validate_submit_def demo_input_def engine_default_def Let_def claim_def put_job_def
  new_job_def bt_get_def fail_job_def leased_job_def demo_failure_def store_def clear_lease_def finish_if_terminal_def
  requeue_def start_def succeed_def

definition sole_job :: "(provider_job \<Rightarrow> bool) \<Rightarrow> job_engine \<Rightarrow> bool" where
  "sole_job P e = (\<exists>j. je_jobs e = [(''j1'', j)] \<and> P j)"

lemma sole_job_get: "sole_job P e \<Longrightarrow> \<exists>j. bt_get (je_jobs e) ''j1'' = Some j \<and> P j"
  by (auto simp: sole_job_def bt_get_def)

lemma demo_claim_run:
  "exec_all demo_sha demo_claim engine_default = Inr (demo_engine demo_claim)"
  "sole_job (\<lambda>j. jb_status j = Claimed \<and> jb_lease_token j = Some ''t1'' \<and> jb_job_type j = ''bars''
     \<and> jb_lease_expires_at j = Some 101 \<and> jb_attempt j = 1) (demo_engine demo_claim)"
  "job_run demo_sha 1 {''j1'', ''t1''} (demo_engine demo_claim)"
proof -
  have "case exec_all demo_sha demo_claim engine_default of Inl err \<Rightarrow> False
    | Inr e \<Rightarrow> sole_job (\<lambda>j. jb_status j = Claimed \<and> jb_lease_token j = Some ''t1'' \<and> jb_job_type j = ''bars''
       \<and> jb_lease_expires_at j = Some 101 \<and> jb_attempt j = 1) e"
    by (simp add: demo_claim_def demo_job_defs sole_job_def)
  then show x: "exec_all demo_sha demo_claim engine_default = Inr (demo_engine demo_claim)"
    and "sole_job (\<lambda>j. jb_status j = Claimed \<and> jb_lease_token j = Some ''t1'' \<and> jb_job_type j = ''bars''
     \<and> jb_lease_expires_at j = Some 101 \<and> jb_attempt j = 1) (demo_engine demo_claim)"
    by (auto simp: demo_engine_def split: sum.splits)
  show "job_run demo_sha 1 {''j1'', ''t1''} (demo_engine demo_claim)"
    using demo_run [OF x] by (simp add: demo_claim_def insert_commute)
qed

lemma demo_claim_timely: "sole_job (\<lambda>j. \<not> early_claim j) (demo_engine demo_claim)"
proof -
  have "case exec_all demo_sha demo_claim engine_default of Inl err \<Rightarrow> False | Inr e \<Rightarrow> sole_job (\<lambda>j. \<not> early_claim j) e"
    by (simp add: demo_claim_def demo_job_defs sole_job_def early_claim_def)
  then show ?thesis by (simp add: demo_claim_run(1))
qed

lemma demo_retry_run:
  "exec_all demo_sha demo_retry (demo_engine demo_claim) = Inr (demo_engine (demo_claim @ demo_retry))"
  "job_run demo_sha 6 {''j1'', ''t1'', ''t2''} (demo_engine (demo_claim @ demo_retry))"
  "sole_job (\<lambda>j. jb_status j = Succeeded \<and> jb_error j = Some demo_failure) (demo_engine (demo_claim @ demo_retry))"
proof -
  have r: "validate_result demo_result = None" "\<not> (3 :: u32) \<le> 1" by code_simp+
  have "case exec_all demo_sha (demo_claim @ demo_retry) engine_default of Inl err \<Rightarrow> False
    | Inr e \<Rightarrow> sole_job (\<lambda>j. jb_status j = Succeeded \<and> jb_error j = Some demo_failure) e"
    by (simp add: demo_claim_def demo_retry_def demo_fail_def demo_again_def demo_job_defs sole_job_def r)
  then have s: "sole_job (\<lambda>j. jb_status j = Succeeded \<and> jb_error j = Some demo_failure) (demo_engine (demo_claim @ demo_retry))"
    and x: "exec_all demo_sha (demo_claim @ demo_retry) engine_default = Inr (demo_engine (demo_claim @ demo_retry))"
    by (auto simp: demo_engine_def split: sum.splits)
  show "job_run demo_sha 6 {''j1'', ''t1'', ''t2''} (demo_engine (demo_claim @ demo_retry))"
    using demo_run [OF x] by (simp add: demo_claim_def demo_retry_def demo_fail_def demo_again_def insert_commute)
  show "exec_all demo_sha demo_retry (demo_engine demo_claim) = Inr (demo_engine (demo_claim @ demo_retry))"
    using x by (simp add: exec_all_append demo_claim_run(1))
  show "sole_job (\<lambda>j. jb_status j = Succeeded \<and> jb_error j = Some demo_failure) (demo_engine (demo_claim @ demo_retry))"
    by (rule s)
qed

lemma demo_fail_run:
  "sole_job (\<lambda>j. jb_lease_token j = None \<and> jb_status j = FailedRetryable) (demo_engine (demo_claim @ demo_fail))"
  "job_run demo_sha 2 {''j1'', ''t1''} (demo_engine (demo_claim @ demo_fail))"
  "exec_all demo_sha demo_again (demo_engine (demo_claim @ demo_fail)) = Inr (demo_engine (demo_claim @ demo_retry))"
proof -
  have "case exec_all demo_sha (demo_claim @ demo_fail) engine_default of Inl err \<Rightarrow> False
    | Inr e \<Rightarrow> sole_job (\<lambda>j. jb_lease_token j = None \<and> jb_status j = FailedRetryable) e"
    by (simp add: demo_claim_def demo_fail_def demo_job_defs sole_job_def)
  then show "sole_job (\<lambda>j. jb_lease_token j = None \<and> jb_status j = FailedRetryable) (demo_engine (demo_claim @ demo_fail))"
    by (auto simp: demo_engine_def split: sum.splits)
  from \<open>case exec_all _ _ _ of Inl err \<Rightarrow> False | Inr e \<Rightarrow> _ e\<close>
  have x: "exec_all demo_sha (demo_claim @ demo_fail) engine_default = Inr (demo_engine (demo_claim @ demo_fail))"
    by (auto simp: demo_engine_def split: sum.splits)
  show "job_run demo_sha 2 {''j1'', ''t1''} (demo_engine (demo_claim @ demo_fail))"
    using demo_run [OF x] by (simp add: demo_claim_def demo_fail_def insert_commute)
  have "exec_all demo_sha demo_fail (demo_engine demo_claim) = Inr (demo_engine (demo_claim @ demo_fail))"
    using x by (simp add: exec_all_append demo_claim_run(1))
  with demo_retry_run(1) show "exec_all demo_sha demo_again (demo_engine (demo_claim @ demo_fail))
      = Inr (demo_engine (demo_claim @ demo_retry))"
    by (simp add: demo_retry_def exec_all_append)
qed

lemma demo_again_steps:
  "(job_step demo_sha)\<^sup>*\<^sup>* (2, {''j1'', ''t1''}, demo_engine (demo_claim @ demo_fail))
     (6, {''j1'', ''t1'', ''t2''}, demo_engine (demo_claim @ demo_retry))"
  using exec_all_steps [OF demo_fail_run(3), of 2 "{''j1'', ''t1''}"]
  by (simp add: demo_again_def insert_commute)

section \<open>Well-formed jobs\<close>

lemma run_job_valid:
  assumes "job_run sha t used e" and "bt_get (je_jobs e) i = Some j"
  shows "validate_recovered_job sha j = None \<longleftrightarrow> \<not> leftover_error j \<and> \<not> early_claim j" and "job_ok sha j"
proof -
  show ok: "job_ok sha j" using engine_ok_run [OF assms(1)] assms(2) by (auto simp: engine_ok_def jobs_ok_def)
  then have "validate_recovered_job sha (forgive j) = None" by (simp add: job_ok_def)
  with validate_forgive [of sha j]
  show "validate_recovered_job sha j = None \<longleftrightarrow> \<not> leftover_error j \<and> \<not> early_claim j" by simp
qed

text \<open>
  C11: In every reachable engine, whatever times its calls were given, every job passes the
  validation of a recovered row exactly when it did not succeed with an error left over from an
  earlier attempt and was not claimed at a time before its creation (the clock is read before
  the engine is locked, so a claim can carry an earlier time than the submission); it is found under its id and its
  idempotency key, never exceeds its attempts, and its lease ends by its deadline.
\<close>

theorem jobs_stay_well_formed:
  assumes "job_run sha t used e" and "bt_get (je_jobs e) i = Some j"
  shows "(validate_recovered_job sha j = None \<longleftrightarrow> \<not> leftover_error j \<and> \<not> early_claim j)
    \<and> jb_job_id j = i \<and> je_idempotency e (jb_idempotency_key j) = Some i
    \<and> jb_attempt j \<le> jb_max_attempts j \<and> jb_max_attempts j \<le> 20
    \<and> (\<forall>expires. jb_lease_expires_at j = Some expires \<longrightarrow> expires \<le> jb_deadline j)"
proof -
  from engine_ok_run [OF assms(1)] have i: "index_ok used e" by (simp add: engine_ok_def)
  from index_okD(2) [OF i assms(2)] run_job_valid [OF assms] show ?thesis by (auto simp: job_ok_iff)
qed

theorem jobs_stay_well_formed_witness:
  "\<exists>j. bt_get (je_jobs (demo_engine demo_claim)) ''j1'' = Some j \<and> validate_recovered_job demo_sha j = None"
proof -
  obtain j where j: "bt_get (je_jobs (demo_engine demo_claim)) ''j1'' = Some j" "jb_status j = Claimed" "\<not> early_claim j"
    using sole_job_get [OF demo_claim_run(2)] sole_job_get [OF demo_claim_timely] by auto
  with jobs_stay_well_formed [OF demo_claim_run(3) j(1)] show ?thesis by (auto simp: leftover_error_def)
qed

section \<open>Recovery\<close>

lemma validate_recovered_error: "validate_recovered_job sha j = Some err \<Longrightarrow> err = InvalidInput"
  by (auto simp: validate_recovered_job_def split: if_splits)

lemma replace_all_error: "replace_all sha js e = Inl err \<Longrightarrow> err = InvalidInput"
  by (induction sha js e rule: replace_all.induct)
    (auto simp: replace_recovered_def Let_def dest: validate_recovered_error split: option.splits sum.splits if_splits)

lemma replace_all_invalid:
  "j \<in> set js \<Longrightarrow> validate_recovered_job sha j \<noteq> None \<Longrightarrow> replace_all sha js e = Inl InvalidInput"
proof (induction js arbitrary: e)
  case (Cons k js)
  show ?case
  proof (cases "replace_recovered sha k e")
    case (Inl err)
    then have "replace_all sha (k # js) e = Inl err" by simp
    with replace_all_error [OF this] show ?thesis by simp
  next
    case (Inr e')
    then have "k \<noteq> j" using Cons.prems(2) by (auto simp: replace_recovered_def split: option.splits)
    with Cons.prems Inr show ?thesis by (simp add: Cons.IH)
  qed
qed simp

text \<open>The index restricted to the jobs already read back.\<close>

definition known :: "(string \<Rightarrow> string option) \<Rightarrow> (string, provider_job) btree \<Rightarrow> string \<Rightarrow> string option" where
  "known ids m k = (case ids k of None \<Rightarrow> None | Some i \<Rightarrow> if i \<in> fst ` set m then Some i else None)"

lemma replace_all_valid:
  assumes "bt_wf (m @ m')"
    and "\<forall>(i, j) \<in> set m'. jb_job_id j = i \<and> ids (jb_idempotency_key j) = Some i \<and> validate_recovered_job sha j = None"
    and "\<forall>k i j. (i, j) \<in> set m' \<longrightarrow> ids k = Some i \<longrightarrow> k = jb_idempotency_key j"
  shows "replace_all sha (map snd m') \<lparr> je_jobs = m, je_idempotency = known ids m \<rparr>
    = Inr \<lparr> je_jobs = m @ m', je_idempotency = known ids (m @ m') \<rparr>"
  using assms
proof (induction m' arbitrary: m)
  case (Cons x m')
  obtain i j where x: "x = (i, j)" by (cases x)
  have less: "\<forall>i' \<in> fst ` set m. i' < i" using Cons.prems(1) by (auto simp: x bt_wf_def sorted_wrt_append)
  then have new: "i \<notin> fst ` set m" "bt_get m i = None" by (auto simp: bt_get_def map_of_eq_None_iff)
  have j: "jb_job_id j = i" "ids (jb_idempotency_key j) = Some i" "validate_recovered_job sha j = None"
    using Cons.prems(2) by (auto simp: x)
  have key: "k = jb_idempotency_key j" if "ids k = Some i" for k
    using Cons.prems(3) that unfolding x by (meson list.set_intros(1))
  have upd: "(known ids m)(jb_idempotency_key j \<mapsto> i) = known ids (m @ [(i, j)])"
  proof (rule ext)
    fix k
    show "((known ids m)(jb_idempotency_key j \<mapsto> i)) k = known ids (m @ [(i, j)]) k"
    proof (cases "k = jb_idempotency_key j")
      case False
      then have "ids k \<noteq> Some i" using key by blast
      with False show ?thesis by (cases "ids k") (auto simp: known_def)
    qed (simp add: known_def j(2))
  qed
  have "replace_recovered sha j \<lparr> je_jobs = m, je_idempotency = known ids m \<rparr>
      = Inr \<lparr> je_jobs = m @ [(i, j)], je_idempotency = known ids (m @ [(i, j)]) \<rparr>"
    using j new by (simp add: replace_recovered_def known_def [of ids m "jb_idempotency_key j"] put_job_def bt_insert_last [OF less] upd)
  moreover have "replace_all sha (map snd m') \<lparr> je_jobs = m @ [(i, j)], je_idempotency = known ids (m @ [(i, j)]) \<rparr>
      = Inr \<lparr> je_jobs = (m @ [(i, j)]) @ m', je_idempotency = known ids ((m @ [(i, j)]) @ m') \<rparr>"
  proof (rule Cons.IH)
    show "bt_wf ((m @ [(i, j)]) @ m')" using Cons.prems(1) by (simp add: x)
    show "\<forall>(i, j) \<in> set m'. jb_job_id j = i \<and> ids (jb_idempotency_key j) = Some i \<and> validate_recovered_job sha j = None"
      using Cons.prems(2) by simp
    show "\<forall>k i j. (i, j) \<in> set m' \<longrightarrow> ids k = Some i \<longrightarrow> k = jb_idempotency_key j"
      using Cons.prems(3) by (meson list.set_intros(2))
  qed
  ultimately show ?case by (simp add: x)
qed simp

lemma recover_snapshot:
  assumes "index_ok used e" and "\<forall>j \<in> set (snapshot e). validate_recovered_job sha j = None"
  shows "recover sha (snapshot e) = Inr e"
proof -
  have get: "(i, j) \<in> set (je_jobs e) \<longleftrightarrow> bt_get (je_jobs e) i = Some j" for i j
    using bt_get_iff [OF index_okD(1) [OF assms(1)]] by blast
  have idem: "known (je_idempotency e) (je_jobs e) = je_idempotency e"
    using index_okD(3) [OF assms(1)] bt_get_in_set by (force simp: known_def fun_eq_iff split: option.splits)
  have "replace_all sha (map snd (je_jobs e)) \<lparr> je_jobs = [], je_idempotency = known (je_idempotency e) [] \<rparr>
      = Inr \<lparr> je_jobs = [] @ je_jobs e, je_idempotency = known (je_idempotency e) ([] @ je_jobs e) \<rparr>"
  proof (rule replace_all_valid)
    show "bt_wf ([] @ je_jobs e)" using index_okD(1) [OF assms(1)] by simp
    show "\<forall>(i, j) \<in> set (je_jobs e). jb_job_id j = i \<and> je_idempotency e (jb_idempotency_key j) = Some i
        \<and> validate_recovered_job sha j = None"
    proof clarify
      fix i j assume m: "(i, j) \<in> set (je_jobs e)"
      then have "j \<in> set (snapshot e)" by (force simp: snapshot_def bt_values_def)
      with assms(2) m index_okD(2) [OF assms(1), of i j] show "jb_job_id j = i
          \<and> je_idempotency e (jb_idempotency_key j) = Some i \<and> validate_recovered_job sha j = None"
        by (simp add: get)
    qed
    show "\<forall>k i j. (i, j) \<in> set (je_jobs e) \<longrightarrow> je_idempotency e k = Some i \<longrightarrow> k = jb_idempotency_key j"
      using index_okD(3) [OF assms(1)] by (force simp: get)
  qed
  moreover have "known ids [] = (\<lambda>k. None)" for ids
    by (auto simp: known_def fun_eq_iff split: option.split)
  ultimately show ?thesis
    using idem by (cases e) (simp add: recover_def snapshot_def bt_values_def engine_default_def)
qed

lemma recover_run:
  assumes "job_run sha t used e"
  shows "recover sha (snapshot e) = (if \<exists>j \<in> set (snapshot e). leftover_error j \<or> early_claim j then Inl InvalidInput else Inr e)"
proof -
  from engine_ok_run [OF assms] have i: "index_ok used e" and ok: "jobs_ok sha e" by (simp_all add: engine_ok_def)
  have valid: "validate_recovered_job sha j = None \<longleftrightarrow> \<not> (leftover_error j \<or> early_claim j)" if "j \<in> set (snapshot e)" for j
  proof -
    from that bt_values_iff [OF index_okD(1) [OF i]] obtain k where "bt_get (je_jobs e) k = Some j"
      by (auto simp: snapshot_def)
    with run_job_valid(1) [OF assms] show ?thesis by simp
  qed
  show ?thesis
  proof (cases "\<exists>j \<in> set (snapshot e). leftover_error j \<or> early_claim j")
    case True
    then obtain j where "j \<in> set (snapshot e)" "leftover_error j \<or> early_claim j" by blast
    with valid replace_all_invalid [of j "snapshot e" sha engine_default] True show ?thesis
      by (simp add: recover_def)
  next
    case False
    with valid recover_snapshot [OF i] show ?thesis by simp
  qed
qed

text \<open>
  C12: The snapshot of a reachable engine, whatever times its calls were given, is read back
  exactly, jobs, order and idempotency index, unless some job succeeded with an error left over
  from an earlier attempt or was claimed at a time before its creation; then the whole recovery
  fails.
\<close>

theorem snapshot_recovers_the_engine:
  assumes "job_run sha t used e"
  shows "recover sha (snapshot e) = (if \<exists>j \<in> set (snapshot e). leftover_error j \<or> early_claim j then Inl InvalidInput else Inr e)"
  using assms by (rule recover_run)

theorem snapshot_recovers_the_engine_witness:
  "recover demo_sha (snapshot (demo_engine demo_claim)) = Inr (demo_engine demo_claim)"
proof -
  have "\<forall>j \<in> set (snapshot (demo_engine demo_claim)). \<not> leftover_error j \<and> \<not> early_claim j"
    using demo_claim_run(2) demo_claim_timely by (auto simp: snapshot_def bt_values_def sole_job_def leftover_error_def)
  with snapshot_recovers_the_engine [OF demo_claim_run(3)] show ?thesis by simp
qed

text \<open>
  A job that fails retryably, is requeued and claimed again and then succeeds keeps the error
  of the failed attempt, and the engine that holds it can no longer be recovered from its
  snapshot: the daemon refuses to start from its own rows.
\<close>

theorem retried_success_blocks_recovery:
  assumes "job_run sha t used e"
    and "exec_all sha [(t1, Fail i token err True), (t2, Requeue i), (t3, Claim i worker d token'),
       (t4, Start i token'), (t5, Succeed i token' res)] e = Inr e'"
    and "timed t used [(t1, Fail i token err True), (t2, Requeue i), (t3, Claim i worker d token'),
       (t4, Start i token'), (t5, Succeed i token' res)]"
  shows "recover sha (snapshot e') = Inl InvalidInput"
proof -
  have run: "job_run sha t5 (used \<union> {token'}) e'"
    using assms(1) exec_all_steps [OF assms(2,3)] by (auto intro: rtranclp_trans)
  have "\<exists>j. bt_get (je_jobs e') i = Some j \<and> leftover_error j"
    using assms(2)
    by (auto simp: map_sum_snd_Inr fail_job_def requeue_def claim_def start_def succeed_def store_def Let_def
        leftover_error_def leased_job_def split: sum.splits option.splits if_splits)
  then have "\<exists>j \<in> set (snapshot e'). leftover_error j \<or> early_claim j"
    by (auto simp: snapshot_def intro: bt_get_in_values)
  with recover_run [OF run] show ?thesis by simp
qed

theorem retried_success_blocks_recovery_witness:
  "recover demo_sha (snapshot (demo_engine (demo_claim @ demo_retry))) = Inl InvalidInput"
proof -
  have "exec_all demo_sha [(2, Fail ''j1'' ''t1'' demo_failure True), (3, Requeue ''j1''), (4, Claim ''j1'' ''w2'' 100 ''t2''),
     (5, Start ''j1'' ''t2''), (6, Succeed ''j1'' ''t2'' demo_result)] (demo_engine demo_claim)
     = Inr (demo_engine (demo_claim @ demo_retry))"
    using demo_retry_run(1) by (simp add: demo_retry_def demo_fail_def demo_again_def del: exec_all.simps)
  from retried_success_blocks_recovery [OF demo_claim_run(3) this] show ?thesis by simp
qed

text \<open>
  A submission that read the clock at 5 and a claim that read it at 4 but got the lock later: both
  succeed, and the engine can no longer be recovered.
\<close>

definition demo_overtaken :: "(timestamp \<times> job_op) list" where
  "demo_overtaken = [(5, Submit demo_input ''j1''), (4, Claim ''j1'' ''w1'' 100 ''t1'')]"

lemma overtaken_claim_blocks_recovery:
  "job_run demo_sha 4 {''j1'', ''t1''} (demo_engine demo_overtaken)"
  "recover demo_sha (snapshot (demo_engine demo_overtaken)) = Inl InvalidInput"
proof -
  have "case exec_all demo_sha demo_overtaken engine_default of Inl err \<Rightarrow> False | Inr e \<Rightarrow> sole_job early_claim e"
    by (simp add: demo_overtaken_def demo_job_defs sole_job_def early_claim_def)
  then have x: "exec_all demo_sha demo_overtaken engine_default = Inr (demo_engine demo_overtaken)"
    and e: "sole_job early_claim (demo_engine demo_overtaken)"
    by (auto simp: demo_engine_def split: sum.splits)
  show run: "job_run demo_sha 4 {''j1'', ''t1''} (demo_engine demo_overtaken)"
    using demo_run [OF x] by (simp add: demo_overtaken_def insert_commute)
  have "\<exists>j \<in> set (snapshot (demo_engine demo_overtaken)). leftover_error j \<or> early_claim j"
    using e by (auto simp: sole_job_def snapshot_def bt_values_def)
  with recover_run [OF run] show "recover demo_sha (snapshot (demo_engine demo_overtaken)) = Inl InvalidInput" by simp
qed

section \<open>Leases\<close>

definition holds :: "string \<Rightarrow> job_engine \<Rightarrow> bool" where
  "holds token e = (\<exists>i j. bt_get (je_jobs e) i = Some j \<and> jb_lease_token j = Some token)"

lemma holds_step:
  assumes step: "job_step sha (t, used, e) (t', used', e')" and ok: "engine_ok sha used e"
    and "token \<in> used" and "\<not> holds token e"
  shows "token \<in> used' \<and> \<not> holds token e'"
  using step
proof (rule job_stepE)
  fix op assume u: "used' = used \<union> op_uuids op" "op_uuids op \<inter> used = {}" and x: "job_exec sha t' op e = Inr e'"
  have i: "index_ok used e" using ok by (simp add: engine_ok_def)
  have new: "token \<notin> op_uuids op" using u assms(3) by blast
  from job_exec_refines [OF x index_okD(1) [OF i]] have "\<not> holds token e'"
  proof
    assume m: "moves t' (op_uuids op) e e'"
    show ?thesis unfolding holds_def
    proof clarify
      fix k j' assume g: "bt_get (je_jobs e') k = Some j'" "jb_lease_token j' = Some token"
      obtain j where j: "bt_get (je_jobs e) k = Some j" "j' = j \<or> job_move t' (op_uuids op) j j'"
        by (rule moves_back [OF m g(1)])
      with g(2) new job_move_token have "jb_lease_token j = Some token" by blast
      with j(1) assms(4) show False by (auto simp: holds_def)
    qed
  next
    assume "submits sha t' (op_uuids op) e e'"
    then obtain input uuid where e': "e' = put_job (new_job sha input t' uuid)
        (e\<lparr> je_idempotency := (je_idempotency e)(sj_idempotency_key input \<mapsto> uuid) \<rparr>)"
      by (auto simp: submits_def)
    have "jb_lease_token (new_job sha input t' uuid) = None" by (simp add: new_job_def)
    then show ?thesis
      using assms(4) by (auto simp: holds_def e' bt_get_submitted split: if_splits)
  qed
  with u assms(3) show ?thesis by blast
qed

lemma holds_steps:
  assumes "(job_step sha)\<^sup>*\<^sup>* (t, used, e) c'" and ok: "engine_ok sha used e"
    and "token \<in> used" and "\<not> holds token e"
  shows "token \<in> fst (snd c') \<and> \<not> holds token (snd (snd c'))"
  using assms(1)
proof (induction rule: rtranclp_induct)
  case (step d d')
  obtain t1 u1 e1 t2 u2 e2 where d: "d = (t1, u1, e1)" "d' = (t2, u2, e2)" by (cases d, cases d') auto
  have "engine_ok sha u1 e1" using engine_ok_steps [OF step(1)] ok by (simp add: d)
  with holds_step [OF step(2) [unfolded d]] step.IH show ?case by (simp add: d)
qed (simp add: assms)

lemma leased_job_holds: "leased_job i token now e = Inr j \<Longrightarrow> holds token e"
  using leased_jobD(1,3) by (force simp: holds_def)

text \<open>
  C13: A lease token that was drawn once and that no job carries any more is locked out for good:
  whatever calls follow, no operation of a worker that presents it succeeds again.
\<close>

theorem stale_token_is_locked_out:
  assumes "job_run sha t used e" and "token \<in> used" and "\<not> holds token e"
    and "(job_step sha)\<^sup>*\<^sup>* (t, used, e) (t', used', e')"
  shows "start i token now e' \<noteq> Inr r \<and> succeed i token res now e' \<noteq> Inr r
    \<and> fail_job i token err retryable now e' \<noteq> Inr r \<and> authorize_result i token now e' \<noteq> Inr j"
proof -
  have "\<not> holds token e'"
    using holds_steps [OF assms(4) engine_ok_run [OF assms(1)] assms(2,3)] by simp
  then have "leased_job i token now e' \<noteq> Inr k" for k using leased_job_holds by blast
  moreover from \<open>\<not> holds token e'\<close> have "authorize_result i token now e' \<noteq> Inr j"
    by (auto simp: authorize_result_def holds_def split: option.splits)
  ultimately show ?thesis
    by (auto simp: start_def succeed_def fail_job_def split: sum.splits option.splits if_splits)
qed

theorem stale_token_is_locked_out_witness:
  "\<forall>r. succeed ''j1'' ''t1'' demo_result 7 (demo_engine (demo_claim @ demo_retry)) \<noteq> Inr r"
proof -
  have "\<not> holds ''t1'' (demo_engine (demo_claim @ demo_fail))"
    using demo_fail_run(1) by (auto simp: sole_job_def holds_def bt_get_def split: if_splits)
  from stale_token_is_locked_out [OF demo_fail_run(2) _ this demo_again_steps] show ?thesis by blast
qed

text \<open>
  At most one job carries a lease token, so a worker that presents it acts on the job it was
  given and on no other.
\<close>

theorem token_names_one_job:
  assumes "job_run sha t used e" and "leased_job i token now e = Inr j" and "leased_job i' token now' e = Inr j'"
  shows "i = i' \<and> j = j' \<and> jb_status j \<in> {Claimed, Running} \<and> now < jb_deadline j"
proof -
  from engine_ok_run [OF assms(1)] have tk: "tokens_ok used e" by (simp add: engine_ok_def)
  note l = leased_jobD [OF assms(2)] and l' = leased_jobD [OF assms(3)]
  from tk l(1,3) l'(1,3) have i: "i' = i" unfolding tokens_ok_def by blast
  from run_job_valid(2) [OF assms(1) l(1)] l(3) have "active (jb_status j)"
    by (auto simp: job_ok_iff lease_fields_valid_def split: if_splits)
  then have "jb_status j \<in> {Claimed, Running}" by (cases "jb_status j") auto
  with i l l' show ?thesis by simp
qed

theorem token_names_one_job_witness:
  "\<exists>j. leased_job ''j1'' ''t1'' 50 (demo_engine demo_claim) = Inr j \<and> jb_status j \<in> {Claimed, Running}"
proof -
  obtain j where j: "leased_job ''j1'' ''t1'' 50 (demo_engine demo_claim) = Inr j"
    using demo_claim_run(1) unfolding demo_engine_def
    by (simp add: demo_claim_def demo_job_defs)
  from token_names_one_job [OF demo_claim_run(3) this this] j show ?thesis by blast
qed

section \<open>Histories of a job\<close>

text \<open>
  A job that succeeded, failed terminally or was cancelled never changes again, whatever calls
  follow.
\<close>

theorem terminal_jobs_are_final:
  assumes "job_run sha t used e" and "bt_get (je_jobs e) i = Some j" and "terminal (jb_status j)"
    and "(job_step sha)\<^sup>*\<^sup>* (t, used, e) (t', used', e')"
  shows "bt_get (je_jobs e') i = Some j"
  using job_steps_keep [OF assms(4) engine_ok_run [OF assms(1)] assms(2), of "\<lambda>k. k = j"] assms(3)
    job_move_not_terminal by auto

theorem terminal_jobs_are_final_witness:
  "\<exists>j. bt_get (je_jobs (demo_engine (demo_claim @ demo_retry))) ''j1'' = Some j \<and> jb_status j = Succeeded
     \<and> (\<forall>t used e. (job_step demo_sha)\<^sup>*\<^sup>* (6, {''j1'', ''t1'', ''t2''}, demo_engine (demo_claim @ demo_retry)) (t, used, e)
          \<longrightarrow> bt_get (je_jobs e) ''j1'' = Some j)"
proof -
  obtain j where j: "bt_get (je_jobs (demo_engine (demo_claim @ demo_retry))) ''j1'' = Some j" "jb_status j = Succeeded"
    using sole_job_get [OF demo_retry_run(3)] by blast
  with terminal_jobs_are_final [OF demo_retry_run(2) j(1)] show ?thesis by fastforce
qed

text \<open>
  C14: The revision of a job identifies its versions: it only grows, grows whenever the job changes,
  and stays at most 82 (four transitions for each of at most twenty attempts, the submission and
  a cancellation), so no job goes on for ever and the counter never wraps.
\<close>

theorem revision_identifies_versions:
  assumes "job_run sha t used e" and "bt_get (je_jobs e) i = Some j"
    and "(job_step sha)\<^sup>*\<^sup>* (t, used, e) (t', used', e')"
  shows "\<exists>j'. bt_get (je_jobs e') i = Some j' \<and> unat (jb_revision j') \<le> 82
    \<and> unat (jb_revision j) \<le> unat (jb_revision j') \<and> (j' = j \<or> unat (jb_revision j) < unat (jb_revision j'))"
proof -
  have "\<exists>j'. bt_get (je_jobs e') i = Some j' \<and> (j' = j \<or> unat (jb_revision j) < unat (jb_revision j'))"
    using job_steps_keep [OF assms(3) engine_ok_run [OF assms(1)] assms(2),
        of "\<lambda>k. k = j \<or> unat (jb_revision j) < unat (jb_revision k)"]
      job_move_revision revision_succ(1) by fastforce
  moreover have "job_run sha t' used' e'" using assms(1,3) by (auto intro: rtranclp_trans)
  ultimately show ?thesis using run_job_valid(2) job_ok_revision(2) by fastforce
qed

theorem revision_identifies_versions_witness:
  "\<exists>j j'. bt_get (je_jobs (demo_engine (demo_claim @ demo_fail))) ''j1'' = Some j
     \<and> bt_get (je_jobs (demo_engine (demo_claim @ demo_retry))) ''j1'' = Some j'
     \<and> unat (jb_revision j) < unat (jb_revision j') \<and> unat (jb_revision j') \<le> 82"
proof -
  obtain j where j: "bt_get (je_jobs (demo_engine (demo_claim @ demo_fail))) ''j1'' = Some j" "jb_status j = FailedRetryable"
    using sole_job_get [OF demo_fail_run(1)] by blast
  obtain j' where j': "bt_get (je_jobs (demo_engine (demo_claim @ demo_retry))) ''j1'' = Some j'" "jb_status j' = Succeeded"
    using sole_job_get [OF demo_retry_run(3)] by blast
  have "j' \<noteq> j" using j(2) j'(2) by auto
  with revision_identifies_versions [OF demo_fail_run(2) j(1) demo_again_steps] j(1) j'(1) show ?thesis by auto
qed

section \<open>Submission, dispatch and expiry\<close>

lemma idempotency_step:
  assumes "job_step sha (t, used, e) (t', used', e')" and "engine_ok sha used e" and "je_idempotency e k = Some i"
  shows "je_idempotency e' k = Some i"
  using assms(1)
proof (rule job_stepE)
  fix op assume x: "job_exec sha t' op e = Inr e'"
  have i: "index_ok used e" using assms(2) by (simp add: engine_ok_def)
  from job_exec_refines [OF x index_okD(1) [OF i]] assms(3) show ?thesis
    by (auto simp: moves_def submits_def put_job_def)
qed

lemma idempotency_steps:
  assumes "(job_step sha)\<^sup>*\<^sup>* (t, used, e) c'" and ok: "engine_ok sha used e" and "je_idempotency e k = Some i"
  shows "je_idempotency (snd (snd c')) k = Some i"
  using assms(1)
proof (induction rule: rtranclp_induct)
  case (step d d')
  obtain t1 u1 e1 t2 u2 e2 where d: "d = (t1, u1, e1)" "d' = (t2, u2, e2)" by (cases d, cases d') auto
  have "engine_ok sha u1 e1" using engine_ok_steps [OF step(1)] ok by (simp add: d)
  with idempotency_step [OF step(2) [unfolded d]] step.IH show ?case by (simp add: d)
qed (simp add: assms)

text \<open>
  C15: Submission is idempotent for the life of the engine: after any further calls, submitting the
  same input again, with whatever fresh identifier, returns the job first submitted in its
  current state and changes nothing.
\<close>

theorem resubmission_returns_the_job:
  assumes run: "job_run sha t used e" and sub: "submit sha input now uuid e = Inr (j, e1)"
    and fresh: "uuid \<notin> used" "uuid \<noteq> []"
    and later: "(job_step sha)\<^sup>*\<^sup>* (now, used \<union> {uuid}, e1) (t', used', e')"
    and valid: "validate_submit input now' = None"
  shows "\<exists>j'. submit sha input now' uuid' e' = Inr (j', e') \<and> jb_job_id j' = jb_job_id j
    \<and> bt_get (je_jobs e') (jb_job_id j) = Some j'"
proof -
  have "job_step sha (t, used, e) (now, used \<union> {uuid}, e1)"
    using job_step.call [of "Submit input uuid" used sha now e e1 t] sub fresh by simp
  with engine_ok_step engine_ok_run [OF run] have ok: "engine_ok sha (used \<union> {uuid}) e1" by blast
  then have i1: "index_ok (used \<union> {uuid}) e1" by (simp add: engine_ok_def)
  let ?P = "\<lambda>j. jb_job_type j = sj_job_type input \<and> jb_request_schema j = sj_request_schema input
    \<and> jb_request_sha256 j = sha (sj_request input)"
  have e1: "bt_get (je_jobs e1) (jb_job_id j) = Some j \<and> je_idempotency e1 (sj_idempotency_key input) = Some (jb_job_id j) \<and> ?P j"
  proof (cases "je_idempotency e (sj_idempotency_key input)")
    case None
    with sub have "j = new_job sha input now uuid"
      and "e1 = put_job j (e\<lparr> je_idempotency := (je_idempotency e)(sj_idempotency_key input \<mapsto> uuid) \<rparr>)"
      by (auto simp: submit_def Let_def split: option.splits)
    then show ?thesis by (simp add: put_job_def new_job_def)
  next
    case (Some n)
    with sub have g: "bt_get (je_jobs e1) n = Some j" "e1 = e" "?P j"
      by (auto simp: submit_def split: option.splits if_splits)
    with index_okD(2) [OF i1 g(1)] Some show ?thesis by simp
  qed
  from job_steps_keep [OF later ok, of "jb_job_id j" j ?P] e1 job_move_identity
  obtain j' where j': "bt_get (je_jobs e') (jb_job_id j) = Some j'" "?P j'" by fastforce
  have "engine_ok sha used' e'" using engine_ok_steps [OF later] ok by simp
  then have "jb_job_id j' = jb_job_id j" using index_okD(2) [OF _ j'(1)] by (auto simp: engine_ok_def)
  moreover have "je_idempotency e' (sj_idempotency_key input) = Some (jb_job_id j)"
    using idempotency_steps [OF later ok] e1 by simp
  ultimately show ?thesis using j' valid by (simp add: submit_def)
qed

theorem resubmission_returns_the_job_witness:
  "\<exists>j'. submit demo_sha demo_input 9 ''z'' (put_job (new_job demo_sha demo_input 0 ''j1'')
      \<lparr> je_jobs = [], je_idempotency = [''k'' \<mapsto> ''j1''] \<rparr>) = Inr (j', put_job (new_job demo_sha demo_input 0 ''j1'')
      \<lparr> je_jobs = [], je_idempotency = [''k'' \<mapsto> ''j1''] \<rparr>) \<and> jb_job_id j' = ''j1''"
proof -
  let ?e = "put_job (new_job demo_sha demo_input 0 ''j1'') \<lparr> je_jobs = [], je_idempotency = [''k'' \<mapsto> ''j1''] \<rparr>"
  have s: "submit demo_sha demo_input 0 ''j1'' engine_default = Inr (new_job demo_sha demo_input 0 ''j1'', ?e)"
    by (simp add: submit_def validate_submit_def demo_input_def engine_default_def Let_def)
  have v: "validate_submit demo_input 9 = None" by (simp add: validate_submit_def demo_input_def)
  have run: "job_run demo_sha 0 {} engine_default" by auto
  have id: "jb_job_id (new_job demo_sha demo_input 0 ''j1'') = ''j1''" by (simp add: new_job_def)
  from resubmission_returns_the_job [OF run s _ _ rtranclp.rtrancl_refl v, of "''z''", unfolded id]
  show ?thesis by auto
qed

lemma filter_values_insert:
  "bt_wf m \<Longrightarrow> bt_get m k = Some v \<Longrightarrow>
     length (filter P (bt_values (bt_insert k v' m))) + (if P v then 1 else 0)
       = length (filter P (bt_values m)) + (if P v' then 1 else 0)"
proof (induction m)
  case (Cons kv m)
  obtain k0 v0 where kv: "kv = (k0, v0)" by (cases kv)
  have tail: "bt_wf m" and above: "\<forall>x \<in> fst ` set m. k0 < x" using Cons.prems(1) by (auto simp: kv bt_wf_Cons)
  show ?case
  proof (cases "k = k0")
    case True
    then show ?thesis using Cons.prems(2) by (simp add: kv bt_values_def bt_get_Cons)
  next
    case False
    then have g: "bt_get m k = Some v" using Cons.prems(2) by (simp add: kv bt_get_Cons)
    then have "k \<in> fst ` set m" by (force dest: bt_get_in_set)
    with above have "k0 < k" by blast
    with False Cons.IH [OF tail g] show ?thesis by (auto simp: kv bt_values_def)
  qed
qed simp

lemma fold_max_upper: "x \<in> set xs \<or> x \<le> a \<Longrightarrow> (x :: int) \<le> fold max xs a"
  by (induction xs arbitrary: a) (auto simp: le_max_iff_disj)

lemma last_dispatch_upper:
  "x \<in> set (dispatch_times ty e) \<Longrightarrow> \<exists>l. last_dispatch ty e = Some l \<and> x \<le> l"
  by (auto simp: last_dispatch_def fold_max_upper split: list.split)

lemma num_milliseconds_mono: "a \<le> b \<Longrightarrow> num_milliseconds a \<le> num_milliseconds b"
  by (auto simp: num_milliseconds_def zdiv_mono1 neg_0_le_iff_le intro: order_trans [of _ 0])

text \<open>
  C16: A job is dispatched only under a policy for its type, and then no more jobs of that type are
  claimed or running than the policy allows, and at least its minimum interval has passed since
  each earlier dispatch of that type.
\<close>

theorem dispatch_respects_the_policy:
  assumes "job_run sha t used e"
    and claim: "claim_next_with_policies worker caps policies d now uuid e = Inr (Some j, e')"
  shows "\<exists>policy. bt_get policies (jb_job_type j) = Some policy \<and> jb_job_type j \<in> set caps
    \<and> length (in_flight (jb_job_type j) e') \<le> dp_max_in_flight policy
    \<and> (\<forall>k \<in> set (snapshot e). jb_job_type k = jb_job_type j \<longrightarrow> jb_attempt k > 0 \<longrightarrow>
         num_milliseconds (now - dispatched_at k) \<ge> sint (dp_minimum_interval_millis policy))"
proof -
  from engine_ok_run [OF assms(1)] have i: "index_ok used e" by (simp add: engine_ok_def)
  from claim obtain c where f: "find (dispatchable caps policies now e) (bt_values (je_jobs e)) = Some c"
    and cl: "claim (jb_job_id c) worker d now uuid e = Inr (j, e')"
    by (auto simp: claim_next_with_policies_def claim_found_def split: if_splits option.splits sum.splits)
  then have c: "dispatchable caps policies now e c" "c \<in> set (bt_values (je_jobs e))"
    by (auto simp: find_Some_iff)
  have get: "bt_get (je_jobs e) (jb_job_id c) = Some c"
    using c(2) bt_values_iff [OF index_okD(1) [OF i]] index_okD(2) [OF i] by auto
  from cl obtain ty: "jb_job_type j = jb_job_type c" and st: "jb_status c = Pending" "jb_status j = Claimed"
    and e': "e' = e\<lparr> je_jobs := bt_insert (jb_job_id c) j (je_jobs e) \<rparr>"
    by (rule claimD) (use get in auto)
  from c(1) obtain policy where p: "bt_get policies (jb_job_type c) = Some policy" "claimable caps now c"
    "length (in_flight (jb_job_type c) e) < dp_max_in_flight policy"
    "is_none_or (\<lambda>last. num_milliseconds (now - last) \<ge> sint (dp_minimum_interval_millis policy)) (last_dispatch (jb_job_type c) e)"
    by (auto simp: dispatchable_def split: option.splits)
  have "length (in_flight (jb_job_type j) e') \<le> dp_max_in_flight policy"
    using filter_values_insert [OF index_okD(1) [OF i] get, of "\<lambda>k. jb_job_type k = jb_job_type c \<and> active (jb_status k)" j] p(3)
    by (simp add: in_flight_def e' ty st)
  moreover have "num_milliseconds (now - dispatched_at k) \<ge> sint (dp_minimum_interval_millis policy)"
    if k: "k \<in> set (snapshot e)" "jb_job_type k = jb_job_type j" "jb_attempt k > 0" for k
  proof -
    have "dispatched_at k \<in> set (dispatch_times (jb_job_type c) e)"
      using k by (auto simp: dispatch_times_def snapshot_def ty)
    then obtain l where l: "last_dispatch (jb_job_type c) e = Some l" "dispatched_at k \<le> l"
      using last_dispatch_upper by blast
    then have "num_milliseconds (now - l) \<le> num_milliseconds (now - dispatched_at k)" by (intro num_milliseconds_mono) simp
    with p(4) l(1) show ?thesis by simp
  qed
  ultimately show ?thesis using p(1,2) ty by (auto simp: claimable_def)
qed

definition demo_policies :: "(string, dispatch_policy) btree" where
  "demo_policies = [(''bars'', \<lparr> dp_max_in_flight = 1, dp_minimum_interval_millis = 0 \<rparr>)]"

definition demo_queued :: job_engine where
  "demo_queued = put_job (new_job demo_sha demo_input 0 ''j1'') \<lparr> je_jobs = [], je_idempotency = [''k'' \<mapsto> ''j1''] \<rparr>"

lemma demo_queued_run: "job_run demo_sha 0 {''j1''} demo_queued"
proof -
  have "job_exec demo_sha 0 (Submit demo_input ''j1'') engine_default = Inr demo_queued"
    by (simp add: submit_def validate_submit_def demo_input_def engine_default_def Let_def demo_queued_def)
  from job_step.call [OF _ _ this, of "{}" 0] show ?thesis by auto
qed

theorem dispatch_respects_the_policy_witness:
  "\<exists>j e'. claim_next_with_policies ''w'' [''bars''] demo_policies 100 5 ''t'' demo_queued = Inr (Some j, e')
     \<and> length (in_flight ''bars'' e') \<le> 1"
proof -
  have "\<exists>j e'. claim_next_with_policies ''w'' [''bars''] demo_policies 100 5 ''t'' demo_queued = Inr (Some j, e')
     \<and> jb_job_type j = ''bars''"
    by (simp add: claim_next_with_policies_def policies_invalid_def policy_validate_def demo_policies_def bt_values_def
        demo_queued_def put_job_def new_job_def dispatchable_def claimable_def in_flight_def last_dispatch_def
        dispatch_times_def bt_get_def demo_input_def claim_found_def claim_def Let_def)
  then obtain j e' where j: "claim_next_with_policies ''w'' [''bars''] demo_policies 100 5 ''t'' demo_queued = Inr (Some j, e')"
    "jb_job_type j = ''bars''" by blast
  from dispatch_respects_the_policy [OF demo_queued_run j(1)] j show ?thesis
    by (auto simp: demo_policies_def bt_get_def)
qed

text \<open>
  C17: After the expiry sweep at time \<open>now\<close>, a job is claimed or running only under a lease and a
  deadline that are both still ahead; every job that lost its lease is left retryable or terminal
  without a token and its id is reported. So no job outlives its deadline in a worker's hands.
\<close>

theorem expiry_releases_every_lapsed_job:
  assumes "job_run sha t used e" and "bt_get (je_jobs e) i = Some j"
  shows "\<exists>j'. bt_get (je_jobs (snd (expire_leases now e))) i = Some j'
    \<and> (active (jb_status j') \<longrightarrow> j' = j \<and> now < jb_deadline j \<and> is_some_and (\<lambda>expires. now < expires) (jb_lease_expires_at j))
    \<and> (lease_expired now j \<longrightarrow> jb_status j' \<in> {FailedRetryable, FailedTerminal} \<and> jb_lease_token j' = None
         \<and> i \<in> set (fst (expire_leases now e)))"
proof -
  have ok: "job_ok sha j" by (rule run_job_valid(2) [OF assms])
  have i: "index_ok used e" using engine_ok_run [OF assms(1)] by (simp add: engine_ok_def)
  have g: "bt_get (je_jobs (snd (expire_leases now e))) i = Some (if lease_expired now j then expire_job now j else j)"
    using assms(2) bt_get_map_entries [of "\<lambda>j. if lease_expired now j then expire_job now j else j" "je_jobs e" i]
    by (simp add: expire_leases_def sweep_def)
  have "j \<in> set (bt_values (je_jobs e))" "jb_job_id j = i"
    using bt_get_in_values [OF assms(2)] index_okD(2) [OF i assms(2)] by simp_all
  then have rep: "lease_expired now j \<Longrightarrow> i \<in> set (fst (expire_leases now e))"
    by (auto simp: expire_leases_def sweep_def)
  have "\<not> lease_expired now j \<Longrightarrow> active (jb_status j) \<Longrightarrow>
      now < jb_deadline j \<and> is_some_and (\<lambda>expires. now < expires) (jb_lease_expires_at j)"
    using ok by (cases "jb_lease_expires_at j") (auto simp: job_ok_iff lease_fields_valid_def lease_expired_def)
  then show ?thesis using rep by (simp add: g expire_job_def)
qed

theorem expiry_releases_every_lapsed_job_witness:
  "\<exists>j'. bt_get (je_jobs (snd (expire_leases 200 (demo_engine demo_claim)))) ''j1'' = Some j'
     \<and> jb_status j' \<in> {FailedRetryable, FailedTerminal} \<and> jb_lease_token j' = None"
proof -
  obtain j where j: "bt_get (je_jobs (demo_engine demo_claim)) ''j1'' = Some j" "jb_status j = Claimed"
    "jb_lease_expires_at j = Some 101"
    using sole_job_get [OF demo_claim_run(2)] by blast
  then have "lease_expired 200 j" by (simp add: lease_expired_def)
  with expiry_releases_every_lapsed_job [OF demo_claim_run(3) j(1), of 200] show ?thesis by blast
qed

end
