(* ===== verification/Realtime_Replay.thy ===== *)
theory Realtime_Replay
  imports Prelude
begin

text \<open>
  The provider-neutral events of \<open>crates/marketcow-realtime/src/lib.rs\<close> and the bounded replay
  window (\<open>SequencedReplay\<close>) that assigns public sequence numbers: commit, snapshot, restoration
  from a checkpoint tail and filtered replay. The digest of an event's identity is the external
  function \<open>sha\<close> of the values that the source serialises; decimals are exact integers in units
  of \<open>10 ^ -28\<close>.
\<close>

section \<open>Events\<close>

datatype aggressor_side = Buyer | Seller | NoAggressor

record event_quality =
  eq_status :: string
  eq_delayed :: bool
  eq_stale :: bool
  eq_degraded :: bool

definition quality_live :: event_quality where
  "quality_live = \<lparr> eq_status = ''live'', eq_delayed = False, eq_stale = False, eq_degraded = False \<rparr>"

definition quality_degraded :: event_quality where
  "quality_degraded = \<lparr> eq_status = ''degraded'', eq_delayed = False, eq_stale = False, eq_degraded = True \<rparr>"

record book_level =
  bl_price :: int
  bl_size :: int
  bl_order_id :: string
  bl_order_count :: "u64 option"

record asset_context =
  ac_mark_price :: "int option"
  ac_oracle_price :: "int option"
  ac_external_oracle_price :: "int option"
  ac_mid_price :: "int option"
  ac_funding_rate :: "int option"
  ac_open_interest :: "int option"
  ac_premium :: "int option"
  ac_market_status :: string
  ac_oracle_status :: string

text \<open>
  The variants with their fields in the source's order: \<open>book_type\<close>, \<open>depth\<close>, \<open>baseline_sequence\<close>,
  \<open>bids\<close>, \<open>asks\<close>, \<open>ts_event_source\<close>, \<open>provider_sequence\<close>; and so on.
\<close>

datatype provider_payload =
    OrderBookSnapshot string "8 word" u64 "book_level list" "book_level list" string "u64 option"
  | Quote int int int int string
  | Trade int int string aggressor_side string
  | AssetContext asset_context
  | MarketState string string bool "u64 option" string
  | StreamStatus string string "u64 option" bool

record provider_event =
  ne_contract_version :: string
  ne_normalizer_version :: string
  ne_instrument_id :: string
  ne_source :: string
  ne_source_observed_at :: timestamp
  ne_received_at :: timestamp
  ne_raw_sha256 :: string
  ne_normalizer_ordinal :: u64
  ne_event_id :: string
  ne_quality :: event_quality
  ne_payload :: provider_payload

text \<open>The JSON object whose digest is the event id.\<close>

record event_identity =
  ei_normalizer :: string
  ei_instrument_id :: string
  ei_source_observed_at :: timestamp
  ei_raw_sha256 :: string
  ei_ordinal :: u64
  ei_payload :: provider_payload

definition contract_version_rt :: string where
  "contract_version_rt = ''marketcow.realtime.provider-neutral.v1''"

definition hyperliquid_version :: string where
  "hyperliquid_version = ''marketcow.hyperliquid.normalizer.v1''"

definition longport_version :: string where
  "longport_version = ''marketcow.longport.normalizer.v1''"

definition valid_sha256_text :: "string \<Rightarrow> bool" where
  "valid_sha256_text value = (length value = 64 \<and> list_all (\<lambda>c. c \<in> set ''0123456789abcdef'') value)"

fun payload_quality_ok :: "string \<Rightarrow> provider_payload \<Rightarrow> event_quality \<Rightarrow> bool" where
  "payload_quality_ok source payload q =
     (if source = ''hyperliquid'' then q = quality_live
      else if source = ''longport'' then
        (case payload of
           Quote _ _ _ _ _ \<Rightarrow> q = quality_degraded
         | StreamStatus state _ _ _ \<Rightarrow>
             state = ''live'' \<and> q = quality_live \<or> state = ''degraded'' \<and> q = quality_degraded
         | _ \<Rightarrow> q = quality_live)
      else False)"

definition identity_of :: "provider_event \<Rightarrow> event_identity" where
  "identity_of e = \<lparr> ei_normalizer = ne_normalizer_version e, ei_instrument_id = ne_instrument_id e,
     ei_source_observed_at = ne_source_observed_at e, ei_raw_sha256 = ne_raw_sha256 e,
     ei_ordinal = ne_normalizer_ordinal e, ei_payload = ne_payload e \<rparr>"

definition evidence_is_valid :: "(event_identity \<Rightarrow> string) \<Rightarrow> provider_event \<Rightarrow> bool" where
  "evidence_is_valid sha e =
     (ne_contract_version e = contract_version_rt
      \<and> (ne_normalizer_version e = hyperliquid_version \<and> ne_source e = ''hyperliquid''
         \<or> ne_normalizer_version e = longport_version \<and> ne_source e = ''longport'')
      \<and> ne_instrument_id e \<noteq> []
      \<and> valid_sha256_text (ne_raw_sha256 e)
      \<and> ne_received_at e \<ge> ne_source_observed_at e
      \<and> ne_event_id e = sha (identity_of e)
      \<and> payload_quality_ok (ne_source e) (ne_payload e) (ne_quality e))"

datatype data_type = DtQuote | DtTrade | DtOrderBook | DtAssetContext | DtMarketState | DtStreamStatus

fun data_type_of :: "provider_payload \<Rightarrow> data_type" where
  "data_type_of (OrderBookSnapshot _ _ _ _ _ _ _) = DtOrderBook"
| "data_type_of (Quote _ _ _ _ _) = DtQuote"
| "data_type_of (Trade _ _ _ _ _) = DtTrade"
| "data_type_of (AssetContext _) = DtAssetContext"
| "data_type_of (MarketState _ _ _ _ _) = DtMarketState"
| "data_type_of (StreamStatus _ _ _ _) = DtStreamStatus"

record stream_event =
  st_stream_id :: string
  st_sequence :: u64
  st_event :: provider_event

datatype replay_frame =
    FrameEvent stream_event
  | SequenceWatermark string u64

record subscription_filter =
  sf_instruments :: "string set"
  sf_data_types :: "data_type set"

fun is_stream_status :: "provider_payload \<Rightarrow> bool" where
  "is_stream_status (StreamStatus _ _ _ _) = True"
| "is_stream_status _ = False"

definition filter_matches :: "subscription_filter \<Rightarrow> provider_event \<Rightarrow> bool" where
  "filter_matches f e =
     (ne_instrument_id e \<in> sf_instruments f
      \<and> (is_stream_status (ne_payload e) \<or> data_type_of (ne_payload e) \<in> sf_data_types f))"

section \<open>The replay window\<close>

datatype realtime_error =
    RtInvalidConfig
  | FrameNotObject
  | UnsupportedChannel string
  | MissingField string
  | InvalidPayload
  | InvalidRawEvidence
  | FinancialDecimalMustBeString
  | InvalidDecimal
  | InvalidTimestamp
  | UnknownInstrument
  | CrossedBook
  | BookTooDeep
  | RtEmptyBatch
  | StreamChanged
  | CursorAhead u64
  | GapUnrecoverable u64
  | SequenceOverflow
  | DuplicateCommit
  | SequenceMismatch u64 u64
  | InvalidReplaySnapshot

record sequenced_replay =
  sq_stream_id :: string
  sq_replay_capacity :: nat
  sq_sequence :: u64
  sq_recent_event_ids :: "string set"
  sq_recent_event_order :: "string list"
  sq_replay :: "stream_event list"

definition replay_new :: "string \<Rightarrow> nat \<Rightarrow> realtime_error + sequenced_replay" where
  "replay_new stream_id replay_capacity =
     (if stream_id = [] \<or> replay_capacity = 0 then Inl RtInvalidConfig
      else Inr \<lparr> sq_stream_id = stream_id, sq_replay_capacity = replay_capacity, sq_sequence = 0,
        sq_recent_event_ids = {}, sq_recent_event_order = [], sq_replay = [] \<rparr>)"

text \<open>The eviction loop: one element leaves each queue while the window is over its capacity.\<close>

function evict :: "sequenced_replay \<Rightarrow> sequenced_replay" where
  "evict r =
     (if length (sq_replay r) > sq_replay_capacity r then
        evict (case sq_recent_event_order r of
            [] \<Rightarrow> r\<lparr> sq_replay := tl (sq_replay r) \<rparr>
          | event_id # order \<Rightarrow> r\<lparr> sq_replay := tl (sq_replay r), sq_recent_event_order := order,
              sq_recent_event_ids := sq_recent_event_ids r - {event_id} \<rparr>)
      else r)"
  by pat_completeness auto
termination
  by (relation "measure (\<lambda>r. length (sq_replay r))") (auto split: list.split)

declare evict.simps [simp del]

definition commit_persisted ::
  "provider_event \<Rightarrow> u64 \<Rightarrow> sequenced_replay \<Rightarrow> realtime_error + (stream_event \<times> sequenced_replay)" where
  "commit_persisted e sequence r =
     (if ne_event_id e \<in> sq_recent_event_ids r then Inl DuplicateCommit
      else case checked_add1 (sq_sequence r) of
        None \<Rightarrow> Inl SequenceOverflow
      | Some expected \<Rightarrow>
          if sequence \<noteq> expected then Inl (SequenceMismatch expected sequence)
          else
            let stream = \<lparr> st_stream_id = sq_stream_id r, st_sequence = sequence, st_event = e \<rparr>
            in Inr (stream, evict (r\<lparr>
                 sq_sequence := sequence,
                 sq_recent_event_ids := insert (ne_event_id e) (sq_recent_event_ids r),
                 sq_recent_event_order := sq_recent_event_order r @ [ne_event_id e],
                 sq_replay := sq_replay r @ [stream] \<rparr>)))"

text \<open>\<open>windows(2)\<close>: some adjacent pair satisfies the condition.\<close>

fun any_adjacent :: "('a \<Rightarrow> 'a \<Rightarrow> bool) \<Rightarrow> 'a list \<Rightarrow> bool" where
  "any_adjacent P (a # b # xs) = (P a b \<or> any_adjacent P (b # xs))"
| "any_adjacent P xs = False"

definition last_or :: "('a \<Rightarrow> 'b) \<Rightarrow> 'b \<Rightarrow> 'a list \<Rightarrow> 'b" where
  "last_or f d xs = (if xs = [] then d else f (last xs))"

definition restore_tail ::
  "string \<Rightarrow> nat \<Rightarrow> u64 \<Rightarrow> stream_event list \<Rightarrow> realtime_error + sequenced_replay" where
  "restore_tail stream_id replay_capacity sequence events =
     (if length events > replay_capacity
         \<or> last_or (\<lambda>e. st_sequence e \<noteq> sequence) (sequence \<noteq> 0) events
         \<or> any_adjacent (\<lambda>a b. checked_add1 (st_sequence a) \<noteq> Some (st_sequence b)
              \<or> st_stream_id a \<noteq> stream_id \<or> st_stream_id b \<noteq> stream_id) events
         \<or> (events \<noteq> [] \<and> (st_stream_id (hd events) \<noteq> stream_id \<or> st_sequence (hd events) = 0))
      then Inl InvalidReplaySnapshot
      else
        let ids = map (\<lambda>e. ne_event_id (st_event e)) events
        in if card (set ids) \<noteq> length events then Inl InvalidReplaySnapshot
           else Inr \<lparr> sq_stream_id = stream_id, sq_replay_capacity = replay_capacity, sq_sequence = sequence,
             sq_recent_event_ids = set ids, sq_recent_event_order = ids, sq_replay = events \<rparr>)"

text \<open>The body shared by the two \<open>replay_after\<close> methods of the crate, over a window and its last sequence.\<close>

definition frame_of :: "string \<Rightarrow> subscription_filter \<Rightarrow> stream_event \<Rightarrow> replay_frame" where
  "frame_of stream_id f e =
     (if filter_matches f (st_event e) then FrameEvent e else SequenceWatermark stream_id (st_sequence e))"

definition replay_after ::
  "string \<Rightarrow> u64 \<Rightarrow> subscription_filter \<Rightarrow> sequenced_replay \<Rightarrow> realtime_error + replay_frame list" where
  "replay_after stream_id after f r =
     (if stream_id \<noteq> sq_stream_id r then Inl StreamChanged
      else if after > sq_sequence r then Inl (CursorAhead (sq_sequence r))
      else
        let earliest = (case sq_replay r of [] \<Rightarrow> saturating_add1 (sq_sequence r) | e # es \<Rightarrow> st_sequence e)
        in if saturating_add1 after < earliest then Inl (GapUnrecoverable earliest)
           else Inr (map (frame_of (sq_stream_id r) f) (filter (\<lambda>e. st_sequence e > after) (sq_replay r))))"

end
