(* ===== verification/Realtime_Wal.thy ===== *)
theory Realtime_Wal
  imports Realtime_Replay
begin

text \<open>
  The hash-chained segmented log of \<open>crates/marketcow-realtime/src/durability.rs\<close>
  (\<open>SegmentedRealtimeWal\<close>), its verification and its sparse cursor index. A directory maps file names
  to files in name order, as \<open>verify_wal\<close> sorts them; a file is its newline-terminated lines, each with
  its length and the value \<open>serde_json\<close> reads from it, and a flag for bytes after the last newline.
  Digests, checksums and serialised lengths are external functions of the values (\<open>rt_ext\<close>), the
  clock is an argument. The outcome of the one write of an append and of the write of the index file
  are arguments too; other failures of the file system, permissions and the writer lock are not
  modelled. Byte counts are natural numbers.
\<close>

section \<open>Records, lines and files\<close>

record persisted_rt =
  pr_schema_version :: string
  pr_wal_cursor :: u64
  pr_public_sequence :: "u64 option"
  pr_applied :: bool
  pr_fail_closed_reason :: "string option"
  pr_event :: provider_event
  pr_previous_record_sha256 :: "string option"
  pr_recorded_at :: timestamp
  pr_record_sha256 :: string
  pr_crc32c :: u32

record sparse_entry =
  sc_first_wal_cursor :: u64
  sc_last_wal_cursor :: u64
  sc_segment_id :: u64
  sc_byte_offset :: nat
  sc_previous_record_sha256 :: "string option"

record sparse_index =
  si_schema_version :: string
  si_stream_id :: string
  si_config_revision :: string
  si_stride :: u64
  si_entries :: "sparse_entry list"
  si_state_sha256 :: string

record rt_header =
  rh_schema_version :: string
  rh_stream_id :: string
  rh_config_revision :: string
  rh_segment_id :: u64
  rh_first_wal_cursor :: u64
  rh_previous_segment_sha256 :: "string option"
  rh_created_at :: timestamp
  rh_header_sha256 :: string

record rt_batch =
  rb_schema_version :: string
  rb_first_wal_cursor :: u64
  rb_last_wal_cursor :: u64
  rb_records :: "persisted_rt list"
  rb_batch_sha256 :: string
  rb_crc32c :: u32

record rt_decision =
  pd_event :: provider_event
  pd_public_sequence :: "u64 option"
  pd_applied :: bool
  pd_fail_closed_reason :: "string option"

text \<open>A line is its length in bytes and its content; a line that parses as neither type is \<open>BadText\<close>.\<close>

datatype rt_text = BadText | HeaderText rt_header | BatchText rt_batch

record rt_line =
  ln_bytes :: nat
  ln_text :: rt_text

record rt_file =
  rf_lines :: "rt_line list"
  rf_unterminated :: bool

type_synonym rt_directory = "(string, rt_file) btree"

text \<open>The index file, when there is one, holds what parses or \<open>None\<close>.\<close>

type_synonym index_file = "sparse_index option option"

record rt_ext =
  rx_event_id :: "event_identity \<Rightarrow> string"
  rx_record_sha256 :: "persisted_rt \<Rightarrow> string"
  rx_record_crc32c :: "persisted_rt \<Rightarrow> u32"
  rx_header_sha256 :: "rt_header \<Rightarrow> string"
  rx_batch_sha256 :: "rt_batch \<Rightarrow> string"
  rx_batch_crc32c :: "rt_batch \<Rightarrow> u32"
  rx_index_sha256 :: "sparse_index \<Rightarrow> string"
  rx_file_sha256 :: "rt_file \<Rightarrow> string"
  rx_text_len :: "rt_text \<Rightarrow> nat"

datatype durability_error =
    DuInvalidConfig
  | UnsafeStorageRoot
  | CorruptRtWal
  | WalScopeMismatch
  | CorruptCheckpoint
  | CheckpointWalDivergence
  | CursorOverflow
  | EmptyBatch
  | InvalidDecision
  | InvalidEventEvidence
  | WriterPoisoned
  | PublicationAfterPersistence realtime_error
  | DuRealtime realtime_error
  | DuIo
  | DuJson
  | DuPanic string

definition wal_version :: string where
  "wal_version = ''marketcow.realtime.wal.v1''"

definition wal_batch_version :: string where
  "wal_batch_version = ''marketcow.realtime.wal-batch.v1''"

definition wal_segment_version :: string where
  "wal_segment_version = ''marketcow.realtime.wal-segment.v1''"

definition sparse_index_version :: string where
  "sparse_index_version = ''marketcow.realtime.sparse-index.v1''"

definition index_stride :: u64 where
  "index_stride = 1024"

section \<open>What the digests cover\<close>

text \<open>Every field but the digest and the checksum themselves.\<close>

definition record_integrity :: "persisted_rt \<Rightarrow> persisted_rt" where
  "record_integrity r = r\<lparr> pr_record_sha256 := [], pr_crc32c := 0 \<rparr>"

definition header_integrity :: "rt_header \<Rightarrow> rt_header" where
  "header_integrity h = h\<lparr> rh_header_sha256 := [] \<rparr>"

definition batch_integrity :: "rt_batch \<Rightarrow> rt_batch" where
  "batch_integrity b = b\<lparr> rb_batch_sha256 := [], rb_crc32c := 0 \<rparr>"

definition index_integrity :: "sparse_index \<Rightarrow> sparse_index" where
  "index_integrity i = i\<lparr> si_state_sha256 := [] \<rparr>"

definition seal_sparse_index :: "rt_ext \<Rightarrow> sparse_index \<Rightarrow> sparse_index" where
  "seal_sparse_index rx i = i\<lparr> si_state_sha256 := rx_index_sha256 rx (index_integrity i) \<rparr>"

section \<open>The sparse cursor index\<close>

text \<open>
  \<open>partition_point\<close> of a slice that is partitioned by the predicate: the number of leading elements
  that satisfy it. The entries and the records it is applied to are sorted by cursor.
\<close>

definition partition_point :: "('a \<Rightarrow> bool) \<Rightarrow> 'a list \<Rightarrow> nat" where
  "partition_point P xs = length (takeWhile P xs)"

definition locate :: "u64 \<Rightarrow> sparse_index \<Rightarrow> sparse_entry option" where
  "locate cursor i =
     (case partition_point (\<lambda>entry. sc_first_wal_cursor entry \<le> cursor) (si_entries i) of
        0 \<Rightarrow> None
      | Suc k \<Rightarrow> Some (si_entries i ! k))"

definition sparse_index_prefix_digest :: "rt_ext \<Rightarrow> sparse_index \<Rightarrow> u64 \<Rightarrow> string" where
  "sparse_index_prefix_digest rx i wal_cursor =
     (let boundary = partition_point (\<lambda>entry. sc_first_wal_cursor entry \<le> wal_cursor) (si_entries i)
      in rx_index_sha256 rx (index_integrity (i\<lparr> si_entries := take boundary (si_entries i) \<rparr>)))"

definition should_index_batch :: "sparse_entry list \<Rightarrow> u64 \<Rightarrow> u64 \<Rightarrow> u64 \<Rightarrow> bool" where
  "should_index_batch entries segment_id first_wal_cursor last_wal_cursor =
     (entries = []
      \<or> sc_segment_id (last entries) \<noteq> segment_id
      \<or> sc_last_wal_cursor (last entries) div index_stride < last_wal_cursor div index_stride
      \<or> first_wal_cursor = 1)"

definition sparse_index_is_valid :: "rt_ext \<Rightarrow> sparse_index \<Rightarrow> bool" where
  "sparse_index_is_valid rx i =
     (si_schema_version i = sparse_index_version
      \<and> si_stream_id i \<noteq> [] \<and> si_config_revision i \<noteq> []
      \<and> si_stride i = index_stride
      \<and> list_all (\<lambda>e. 0 < sc_first_wal_cursor e \<and> sc_first_wal_cursor e \<le> sc_last_wal_cursor e) (si_entries i)
      \<and> \<not> any_adjacent (\<lambda>a b. \<not> (sc_first_wal_cursor a < sc_first_wal_cursor b
            \<and> sc_last_wal_cursor a < sc_first_wal_cursor b
            \<and> sc_segment_id a \<le> sc_segment_id b
            \<and> (sc_segment_id a \<noteq> sc_segment_id b \<or> sc_byte_offset a < sc_byte_offset b))) (si_entries i)
      \<and> rx_index_sha256 rx (index_integrity i) = si_state_sha256 i)"

text \<open>Writing the index: whether it succeeded and the file afterwards; the file system may refuse.\<close>

definition write_sparse_index :: "rt_ext \<Rightarrow> bool \<Rightarrow> sparse_index \<Rightarrow> index_file \<Rightarrow> bool \<times> index_file" where
  "write_sparse_index rx disk_ok i f =
     (if sparse_index_is_valid rx i \<and> disk_ok then (True, Some (Some i)) else (False, f))"

definition install_sparse_index :: "rt_ext \<Rightarrow> bool \<Rightarrow> sparse_index \<Rightarrow> index_file \<Rightarrow> bool \<times> index_file" where
  "install_sparse_index rx disk_ok verified f =
     (case f of
        Some (Some existing) \<Rightarrow>
          if sparse_index_is_valid rx existing \<and> existing = verified then (True, f)
          else write_sparse_index rx disk_ok verified f
      | _ \<Rightarrow> write_sparse_index rx disk_ok verified f)"

section \<open>Verification\<close>

definition rt_segment_filename :: "u64 \<Rightarrow> u64 \<Rightarrow> string" where
  "rt_segment_filename segment_id first_wal_cursor =
     ''segment-'' @ decimal_digits 20 (unat segment_id) @ ''-'' @ decimal_digits 20 (unat first_wal_cursor) @ ''.wal''"

text \<open>The variables of the loop of \<open>verify_wal\<close>; the two scope options are set together.\<close>

record rt_verify =
  vr_records :: "persisted_rt list"
  vr_previous_segment_sha256 :: "string option"
  vr_previous_record_sha256 :: "string option"
  vr_applied_event_ids :: "string set"
  vr_expected_public_sequence :: u64
  vr_scope :: "(string \<times> string) option"
  vr_last_segment_id :: u64
  vr_sparse_entries :: "sparse_entry list"

text \<open>\<open>records.len() as u64 + 1\<close>\<close>

definition next_cursor :: "persisted_rt list \<Rightarrow> u64" where
  "next_cursor records = of_nat (length records) + 1"

definition duplicate_reason :: "string option" where
  "duplicate_reason = Some ''duplicate_event''"

definition verify_record_rt :: "rt_ext \<Rightarrow> persisted_rt \<Rightarrow> rt_verify \<Rightarrow> durability_error + rt_verify" where
  "verify_record_rt rx r st =
     (if pr_schema_version r \<noteq> wal_version
         \<or> pr_wal_cursor r \<noteq> next_cursor (vr_records st)
         \<or> pr_previous_record_sha256 r \<noteq> vr_previous_record_sha256 st
         \<or> pr_record_sha256 r \<noteq> rx_record_sha256 rx (record_integrity r)
         \<or> pr_crc32c r \<noteq> rx_record_crc32c rx (record_integrity r)
         \<or> \<not> evidence_is_valid (rx_event_id rx) (pr_event r)
      then Inl CorruptRtWal
      else if pr_applied r then
        (case checked_add1 (vr_expected_public_sequence st) of
           None \<Rightarrow> Inl CursorOverflow
         | Some expected \<Rightarrow>
             if pr_public_sequence r \<noteq> Some expected \<or> pr_fail_closed_reason r \<noteq> None
                \<or> ne_event_id (pr_event r) \<in> vr_applied_event_ids st
             then Inl CorruptRtWal
             else Inr (st\<lparr> vr_expected_public_sequence := expected,
                    vr_applied_event_ids := insert (ne_event_id (pr_event r)) (vr_applied_event_ids st),
                    vr_previous_record_sha256 := Some (pr_record_sha256 r),
                    vr_records := vr_records st @ [r] \<rparr>))
      else if pr_public_sequence r \<noteq> None \<or> pr_fail_closed_reason r \<noteq> duplicate_reason
           \<or> ne_event_id (pr_event r) \<notin> vr_applied_event_ids st
      then Inl CorruptRtWal
      else Inr (st\<lparr> vr_previous_record_sha256 := Some (pr_record_sha256 r),
             vr_records := vr_records st @ [r] \<rparr>))"

fun verify_records_rt :: "rt_ext \<Rightarrow> persisted_rt list \<Rightarrow> rt_verify \<Rightarrow> durability_error + rt_verify" where
  "verify_records_rt rx [] st = Inr st"
| "verify_records_rt rx (r # rs) st =
     (case verify_record_rt rx r st of Inl err \<Rightarrow> Inl err | Inr st' \<Rightarrow> verify_records_rt rx rs st')"

definition index_entry :: "u64 \<Rightarrow> nat \<Rightarrow> u64 \<Rightarrow> u64 \<Rightarrow> string option \<Rightarrow> sparse_entry list \<Rightarrow> sparse_entry list" where
  "index_entry segment_id byte_offset first_wal_cursor last_wal_cursor previous entries =
     (if should_index_batch entries segment_id first_wal_cursor last_wal_cursor
      then entries @ [\<lparr> sc_first_wal_cursor = first_wal_cursor, sc_last_wal_cursor = last_wal_cursor,
        sc_segment_id = segment_id, sc_byte_offset = byte_offset, sc_previous_record_sha256 = previous \<rparr>]
      else entries)"

definition verify_batch_rt ::
  "rt_ext \<Rightarrow> u64 \<Rightarrow> nat \<Rightarrow> rt_batch \<Rightarrow> rt_verify \<Rightarrow> durability_error + rt_verify" where
  "verify_batch_rt rx segment_id batch_offset b st =
     (if rb_schema_version b \<noteq> wal_batch_version
         \<or> rb_records b = []
         \<or> rb_first_wal_cursor b \<noteq> next_cursor (vr_records st)
         \<or> pr_wal_cursor (hd (rb_records b)) \<noteq> rb_first_wal_cursor b
         \<or> pr_wal_cursor (last (rb_records b)) \<noteq> rb_last_wal_cursor b
         \<or> rb_batch_sha256 b \<noteq> rx_batch_sha256 rx (batch_integrity b)
         \<or> rb_crc32c b \<noteq> rx_batch_crc32c rx (batch_integrity b)
      then Inl CorruptRtWal
      else verify_records_rt rx (rb_records b)
        (st\<lparr> vr_sparse_entries := index_entry segment_id batch_offset (rb_first_wal_cursor b)
               (rb_last_wal_cursor b) (vr_previous_record_sha256 st) (vr_sparse_entries st) \<rparr>))"

fun verify_lines_rt ::
  "rt_ext \<Rightarrow> u64 \<Rightarrow> nat \<Rightarrow> rt_line list \<Rightarrow> rt_verify \<Rightarrow> durability_error + rt_verify" where
  "verify_lines_rt rx segment_id byte_offset [] st = Inr st"
| "verify_lines_rt rx segment_id byte_offset (l # ls) st =
     (if ln_bytes l = 0 then Inl CorruptRtWal
      else case ln_text l of
        BatchText b \<Rightarrow>
          (case verify_batch_rt rx segment_id byte_offset b st of
             Inl err \<Rightarrow> Inl err
           | Inr st' \<Rightarrow> verify_lines_rt rx segment_id (byte_offset + ln_bytes l + 1) ls st')
      | _ \<Rightarrow> Inl DuJson)"

definition verify_header_rt ::
  "rt_ext \<Rightarrow> (string \<times> string) option \<Rightarrow> string \<Rightarrow> rt_header \<Rightarrow> rt_verify \<Rightarrow> durability_error + rt_verify" where
  "verify_header_rt rx expected_scope path h st =
     (if rh_schema_version h \<noteq> wal_segment_version
         \<or> rx_header_sha256 rx (header_integrity h) \<noteq> rh_header_sha256 h
         \<or> rh_segment_id h \<noteq> saturating_add1 (vr_last_segment_id st)
         \<or> rh_first_wal_cursor h \<noteq> next_cursor (vr_records st)
         \<or> rh_previous_segment_sha256 h \<noteq> vr_previous_segment_sha256 st
         \<or> path \<noteq> rt_segment_filename (rh_segment_id h) (rh_first_wal_cursor h)
      then Inl CorruptRtWal
      else
        let scope = (rh_stream_id h, rh_config_revision h)
        in if unwrap_or scope (vr_scope st) \<noteq> scope then Inl WalScopeMismatch
           else if unwrap_or scope expected_scope \<noteq> scope then Inl WalScopeMismatch
           else Inr (st\<lparr> vr_scope := Some scope \<rparr>))"

definition verify_file_rt ::
  "rt_ext \<Rightarrow> (string \<times> string) option \<Rightarrow> string \<times> rt_file \<Rightarrow> rt_verify \<Rightarrow> durability_error + rt_verify" where
  "verify_file_rt rx expected_scope entry st =
     (if rf_unterminated (snd entry) \<or> rf_lines (snd entry) = [] then Inl CorruptRtWal
      else case ln_text (hd (rf_lines (snd entry))) of
        HeaderText h \<Rightarrow>
          (case verify_header_rt rx expected_scope (fst entry) h st of
             Inl err \<Rightarrow> Inl err
           | Inr st1 \<Rightarrow>
               (case verify_lines_rt rx (rh_segment_id h) (ln_bytes (hd (rf_lines (snd entry))) + 1)
                       (tl (rf_lines (snd entry))) st1 of
                  Inl err \<Rightarrow> Inl err
                | Inr st2 \<Rightarrow> Inr (st2\<lparr> vr_last_segment_id := rh_segment_id h,
                    vr_previous_segment_sha256 := Some (rx_file_sha256 rx (snd entry)) \<rparr>)))
      | _ \<Rightarrow> Inl DuJson)"

fun verify_files_rt ::
  "rt_ext \<Rightarrow> (string \<times> string) option \<Rightarrow> rt_directory \<Rightarrow> rt_verify \<Rightarrow> durability_error + rt_verify" where
  "verify_files_rt rx expected_scope [] st = Inr st"
| "verify_files_rt rx expected_scope (f # fs) st =
     (case verify_file_rt rx expected_scope f st of
        Inl err \<Rightarrow> Inl err
      | Inr st' \<Rightarrow> verify_files_rt rx expected_scope fs st')"

definition verify_start_rt :: rt_verify where
  "verify_start_rt = \<lparr> vr_records = [], vr_previous_segment_sha256 = None, vr_previous_record_sha256 = None,
     vr_applied_event_ids = {}, vr_expected_public_sequence = 0, vr_scope = None, vr_last_segment_id = 0,
     vr_sparse_entries = [] \<rparr>"

record verified_rt =
  vd_records :: "persisted_rt list"
  vd_last_segment_id :: u64
  vd_sparse_index :: sparse_index

definition index_of :: "rt_ext \<Rightarrow> string \<times> string \<Rightarrow> sparse_entry list \<Rightarrow> sparse_index" where
  "index_of rx scope entries = seal_sparse_index rx \<lparr> si_schema_version = sparse_index_version,
     si_stream_id = fst scope, si_config_revision = snd scope, si_stride = index_stride,
     si_entries = entries, si_state_sha256 = [] \<rparr>"

definition verify_wal_rt ::
  "rt_ext \<Rightarrow> (string \<times> string) option \<Rightarrow> rt_directory \<Rightarrow> durability_error + verified_rt" where
  "verify_wal_rt rx expected_scope directory =
     (case verify_files_rt rx expected_scope directory verify_start_rt of
        Inl err \<Rightarrow> Inl err
      | Inr st \<Rightarrow>
          (case opt_or (vr_scope st) expected_scope of
             None \<Rightarrow> Inl WalScopeMismatch
           | Some scope \<Rightarrow> Inr \<lparr> vd_records = vr_records st, vd_last_segment_id = vr_last_segment_id st,
               vd_sparse_index = index_of rx scope (vr_sparse_entries st) \<rparr>))"

section \<open>Opening and appending\<close>

record rt_wal =
  rw_directory :: rt_directory
  rw_index_file :: index_file
  rw_stream_id :: string
  rw_config_revision :: string
  rw_max_segment_bytes :: nat
  rw_current_path :: "string option"
  rw_current_bytes :: nat
  rw_current_segment_id :: u64
  rw_records :: "persisted_rt list"
  rw_applied_event_ids :: "string set"
  rw_sparse_index :: sparse_index
  rw_sparse_index_healthy :: bool
  rw_poisoned :: bool

definition validate_root :: "string \<Rightarrow> durability_error option" where
  "validate_root root =
     (if \<not> path_is_absolute root \<or> path_components root = [RootDir] \<or> ParentDir \<in> set (path_components root)
      then Some UnsafeStorageRoot else None)"

definition validate_config :: "string \<Rightarrow> string \<Rightarrow> string \<Rightarrow> nat \<Rightarrow> durability_error option" where
  "validate_config root stream_id config_revision max_segment_bytes =
     (case validate_root root of
        Some err \<Rightarrow> Some err
      | None \<Rightarrow>
          if stream_id = [] \<or> config_revision = [] \<or> max_segment_bytes < 1024 then Some DuInvalidConfig
          else None)"

definition rt_file_bytes :: "rt_file \<Rightarrow> nat" where
  "rt_file_bytes f = sum_list (map (\<lambda>l. ln_bytes l + 1) (rf_lines f))"

definition applied_ids :: "persisted_rt list \<Rightarrow> string set" where
  "applied_ids records = set (map (\<lambda>r. ne_event_id (pr_event r)) (filter pr_applied records))"

definition rt_wal_open ::
  "rt_ext \<Rightarrow> bool \<Rightarrow> rt_directory \<Rightarrow> index_file \<Rightarrow> string \<Rightarrow> string \<Rightarrow> string \<Rightarrow> nat \<Rightarrow> durability_error + rt_wal" where
  "rt_wal_open rx disk_ok directory index_file root stream_id config_revision max_segment_bytes =
     (case validate_config root stream_id config_revision max_segment_bytes of
        Some err \<Rightarrow> Inl err
      | None \<Rightarrow>
          (case verify_wal_rt rx (Some (stream_id, config_revision)) directory of
             Inl err \<Rightarrow> Inl err
           | Inr verified \<Rightarrow>
               let (healthy, index_file') = install_sparse_index rx disk_ok (vd_sparse_index verified) index_file
               in Inr \<lparr> rw_directory = directory, rw_index_file = index_file',
                    rw_stream_id = stream_id, rw_config_revision = config_revision,
                    rw_max_segment_bytes = max_segment_bytes,
                    rw_current_path = map_option fst (bt_last directory),
                    rw_current_bytes = (case bt_last directory of None \<Rightarrow> 0 | Some (path, f) \<Rightarrow> rt_file_bytes f),
                    rw_current_segment_id = vd_last_segment_id verified,
                    rw_records = vd_records verified,
                    rw_applied_event_ids = applied_ids (vd_records verified),
                    rw_sparse_index = vd_sparse_index verified,
                    rw_sparse_index_healthy = healthy,
                    rw_poisoned = False \<rparr>))"

definition wal_cursor_of :: "persisted_rt list \<Rightarrow> u64" where
  "wal_cursor_of records = last_or pr_wal_cursor 0 records"

definition rt_wal_cursor :: "rt_wal \<Rightarrow> u64" where
  "rt_wal_cursor w = wal_cursor_of (rw_records w)"

definition sha_of_last :: "persisted_rt list \<Rightarrow> string option" where
  "sha_of_last records = last_or (\<lambda>r. Some (pr_record_sha256 r)) None records"

definition decision_invalid :: "rt_decision \<Rightarrow> bool" where
  "decision_invalid d =
     (pd_applied d \<noteq> (pd_public_sequence d \<noteq> None)
      \<or> (pd_applied d \<and> pd_fail_closed_reason d \<noteq> None)
      \<or> (\<not> pd_applied d \<and> pd_fail_closed_reason d \<noteq> duplicate_reason))"

text \<open>\<open>first.checked_add(index)\<close>\<close>

definition cursor_at :: "u64 \<Rightarrow> nat \<Rightarrow> u64 option" where
  "cursor_at first index = (if unat first + index < 2 ^ 64 then Some (first + of_nat index) else None)"

definition seal_record :: "rt_ext \<Rightarrow> persisted_rt \<Rightarrow> persisted_rt" where
  "seal_record rx r = r\<lparr> pr_record_sha256 := rx_record_sha256 rx (record_integrity r),
     pr_crc32c := rx_record_crc32c rx (record_integrity r) \<rparr>"

text \<open>The record loop of \<open>append_decisions\<close> from the given index on, reading the clock once per record.\<close>

fun build_records ::
  "rt_ext \<Rightarrow> (nat \<Rightarrow> timestamp) \<Rightarrow> u64 \<Rightarrow> nat \<Rightarrow> string option \<Rightarrow> rt_decision list
   \<Rightarrow> durability_error + persisted_rt list" where
  "build_records rx clock first index previous [] = Inr []"
| "build_records rx clock first index previous (d # ds) =
     (if decision_invalid d then Inl InvalidDecision
      else case cursor_at first index of
        None \<Rightarrow> Inl CursorOverflow
      | Some wal_cursor \<Rightarrow>
          let r = seal_record rx \<lparr> pr_schema_version = wal_version, pr_wal_cursor = wal_cursor,
                pr_public_sequence = pd_public_sequence d, pr_applied = pd_applied d,
                pr_fail_closed_reason = pd_fail_closed_reason d, pr_event = pd_event d,
                pr_previous_record_sha256 = previous, pr_recorded_at = clock index,
                pr_record_sha256 = [], pr_crc32c = 0 \<rparr>
          in (case build_records rx clock first (Suc index) (Some (pr_record_sha256 r)) ds of
                Inl err \<Rightarrow> Inl err
              | Inr rs \<Rightarrow> Inr (r # rs)))"

definition seal_batch :: "rt_ext \<Rightarrow> rt_batch \<Rightarrow> rt_batch" where
  "seal_batch rx b = b\<lparr> rb_batch_sha256 := rx_batch_sha256 rx (batch_integrity b),
     rb_crc32c := rx_batch_crc32c rx (batch_integrity b) \<rparr>"

definition written_line :: "rt_ext \<Rightarrow> rt_text \<Rightarrow> rt_line" where
  "written_line rx t = \<lparr> ln_bytes = rx_text_len rx t, ln_text = t \<rparr>"

definition seal_header :: "rt_ext \<Rightarrow> rt_header \<Rightarrow> rt_header" where
  "seal_header rx h = h\<lparr> rh_header_sha256 := rx_header_sha256 rx (header_integrity h) \<rparr>"

text \<open>\<open>create_new\<close> refuses to overwrite a file.\<close>

definition ensure_segment ::
  "rt_ext \<Rightarrow> timestamp \<Rightarrow> u64 \<Rightarrow> nat \<Rightarrow> rt_wal \<Rightarrow> durability_error option \<times> rt_wal" where
  "ensure_segment rx now first_wal_cursor record_bytes w =
     (if rw_current_path w \<noteq> None \<and> rw_current_bytes w + record_bytes \<le> rw_max_segment_bytes w then (None, w)
      else case checked_add1 (rw_current_segment_id w) of
        None \<Rightarrow> (Some CursorOverflow, w)
      | Some segment_id \<Rightarrow>
          let previous = map_option (rx_file_sha256 rx) (Option.bind (rw_current_path w) (bt_get (rw_directory w)));
              path = rt_segment_filename segment_id first_wal_cursor;
              line = written_line rx (HeaderText (seal_header rx \<lparr> rh_schema_version = wal_segment_version,
                rh_stream_id = rw_stream_id w, rh_config_revision = rw_config_revision w,
                rh_segment_id = segment_id, rh_first_wal_cursor = first_wal_cursor,
                rh_previous_segment_sha256 = previous, rh_created_at = now, rh_header_sha256 = [] \<rparr>))
          in if bt_contains (rw_directory w) path then (Some DuIo, w)
             else (None, w\<lparr>
               rw_directory := bt_insert path \<lparr> rf_lines = [line], rf_unterminated = False \<rparr> (rw_directory w),
               rw_current_path := Some path,
               rw_current_bytes := ln_bytes line + 1,
               rw_current_segment_id := segment_id \<rparr>))"

text \<open>
  What the disk does with the line of an append: it is written and synchronised, refused before a
  byte is written, torn, or written but not synchronised.
\<close>

datatype disk_outcome = Written | Unwritten | Torn | Unsynced

definition put_line :: "disk_outcome \<Rightarrow> rt_line \<Rightarrow> rt_file \<Rightarrow> rt_file" where
  "put_line disk line f =
     (case disk of
        Unwritten \<Rightarrow> f
      | Torn \<Rightarrow> f\<lparr> rf_unterminated := True \<rparr>
      | _ \<Rightarrow> f\<lparr> rf_lines := rf_lines f @ [line] \<rparr>)"

text \<open>The closure of \<open>append_decisions\<close>: rotation, the write, and the sparse index.\<close>

definition write_batch ::
  "rt_ext \<Rightarrow> timestamp \<Rightarrow> disk_outcome \<Rightarrow> bool \<Rightarrow> rt_batch \<Rightarrow> string option \<Rightarrow> rt_wal
   \<Rightarrow> durability_error option \<times> rt_wal" where
  "write_batch rx now disk index_disk_ok b previous w =
     (let line = written_line rx (BatchText b)
      in case ensure_segment rx now (rb_first_wal_cursor b) (ln_bytes line + 1) w of
        (Some err, w1) \<Rightarrow> (Some err, w1)
      | (None, w1) \<Rightarrow>
          (case rw_current_path w1 of
             None \<Rightarrow> (Some CorruptRtWal, w1)
           | Some path \<Rightarrow>
               let w2 = w1\<lparr> rw_directory := bt_map_value (put_line disk line) path (rw_directory w1) \<rparr>
               in if disk \<noteq> Written then (Some DuIo, w2)
                  else
                    let entries = index_entry (rw_current_segment_id w1) (rw_current_bytes w1)
                          (rb_first_wal_cursor b) (rb_last_wal_cursor b) previous
                          (si_entries (rw_sparse_index w1));
                        changed = should_index_batch (si_entries (rw_sparse_index w1)) (rw_current_segment_id w1)
                          (rb_first_wal_cursor b) (rb_last_wal_cursor b);
                        i = (if changed then seal_sparse_index rx ((rw_sparse_index w1)\<lparr> si_entries := entries \<rparr>)
                             else rw_sparse_index w1);
                        (healthy, index_file) =
                          (if changed \<or> \<not> rw_sparse_index_healthy w1
                           then write_sparse_index rx index_disk_ok i (rw_index_file w1)
                           else (rw_sparse_index_healthy w1, rw_index_file w1))
                    in (None, w2\<lparr> rw_sparse_index := i, rw_sparse_index_healthy := healthy,
                          rw_index_file := index_file \<rparr>)))"

definition append_decisions ::
  "rt_ext \<Rightarrow> (nat \<Rightarrow> timestamp) \<Rightarrow> disk_outcome \<Rightarrow> bool \<Rightarrow> rt_decision list \<Rightarrow> rt_wal
   \<Rightarrow> (durability_error + persisted_rt list) \<times> rt_wal" where
  "append_decisions rx clock disk index_disk_ok decisions w =
     (if rw_poisoned w then (Inl WriterPoisoned, w)
      else if decisions = [] then (Inl EmptyBatch, w)
      else case checked_add1 (rt_wal_cursor w) of
        None \<Rightarrow> (Inl CursorOverflow, w)
      | Some first_wal_cursor \<Rightarrow>
          let previous = sha_of_last (rw_records w)
          in (case build_records rx clock first_wal_cursor 0 previous decisions of
                Inl err \<Rightarrow> (Inl err, w)
              | Inr records \<Rightarrow>
                  let b = seal_batch rx \<lparr> rb_schema_version = wal_batch_version,
                        rb_first_wal_cursor = first_wal_cursor,
                        rb_last_wal_cursor = pr_wal_cursor (last records),
                        rb_records = records, rb_batch_sha256 = [], rb_crc32c = 0 \<rparr>
                  in (case write_batch rx (clock (length decisions)) disk index_disk_ok b previous w of
                        (Some err, w1) \<Rightarrow> (Inl err, w1\<lparr> rw_poisoned := True \<rparr>)
                      | (None, w1) \<Rightarrow> (Inr records, w1\<lparr>
                          rw_current_bytes := rw_current_bytes w1 + rx_text_len rx (BatchText b) + 1,
                          rw_applied_event_ids := rw_applied_event_ids w1 \<union> applied_ids records,
                          rw_records := rw_records w1 @ records \<rparr>))))"

end
