(* ===== verification/Realtime_Writer.thy ===== *)
theory Realtime_Writer
  imports Realtime_Wal
begin

text \<open>
  The durable writer of \<open>crates/marketcow-realtime/src/durability.rs\<close> (\<open>DurableRealtimeWriter\<close>): it
  decides a frame of events against the ids it has applied, appends the decisions to the log as one
  batch, publishes the applied ones to the replay window, takes checkpoints of the window, and is
  reopened from the log and the newest usable checkpoint. Latency measurements are left out and
  the clock is an argument; a checkpoint is written without failures of the file system.
\<close>

section \<open>Checkpoints\<close>

record checkpoint =
  cp_schema_version :: string
  cp_stream_id :: string
  cp_config_revision :: string
  cp_wal_cursor :: u64
  cp_public_sequence :: u64
  cp_last_record_sha256 :: "string option"
  cp_replay_capacity :: nat
  cp_replay :: "stream_event list"
  cp_sparse_index_state_sha256 :: "string option"
  cp_boundary_segment_id :: "u64 option"
  cp_boundary_byte_offset :: "nat option"
  cp_created_at :: timestamp
  cp_state_sha256 :: string

datatype checkpoint_file = CheckpointText checkpoint | NotACheckpoint

record checkpoint_store =
  cs_current :: "checkpoint_file option"
  cs_previous :: "checkpoint_file option"

record durable_ext =
  dx_wal :: rt_ext
  dx_checkpoint_sha256 :: "checkpoint \<Rightarrow> string"

definition checkpoint_v1 :: string where
  "checkpoint_v1 = ''marketcow.realtime.checkpoint.v1''"

definition checkpoint_version :: string where
  "checkpoint_version = ''marketcow.realtime.checkpoint.v2''"

text \<open>What the digest of a checkpoint covers: version 1 has no index fields.\<close>

definition checkpoint_integrity :: "checkpoint \<Rightarrow> checkpoint option" where
  "checkpoint_integrity c =
     (if cp_schema_version c = checkpoint_v1 then
        Some (c\<lparr> cp_sparse_index_state_sha256 := None, cp_boundary_segment_id := None,
          cp_boundary_byte_offset := None, cp_state_sha256 := [] \<rparr>)
      else if cp_schema_version c = checkpoint_version then Some (c\<lparr> cp_state_sha256 := [] \<rparr>)
      else None)"

definition checkpoint_digest :: "durable_ext \<Rightarrow> checkpoint \<Rightarrow> string option" where
  "checkpoint_digest dx c = map_option (dx_checkpoint_sha256 dx) (checkpoint_integrity c)"

fun read_checkpoint :: "durable_ext \<Rightarrow> checkpoint_file \<Rightarrow> durability_error + checkpoint" where
  "read_checkpoint dx NotACheckpoint = Inl DuJson"
| "read_checkpoint dx (CheckpointText c) =
     (if checkpoint_digest dx c \<noteq> Some (cp_state_sha256 c) then Inl CorruptCheckpoint else Inr c)"

fun is_ok :: "'e + 'a \<Rightarrow> bool" where
  "is_ok (Inr a) = True"
| "is_ok (Inl e) = False"

definition write_checkpoint :: "durable_ext \<Rightarrow> checkpoint \<Rightarrow> checkpoint_store \<Rightarrow> checkpoint_store" where
  "write_checkpoint dx c store =
     (case cs_current store of
        Some current \<Rightarrow>
          if is_ok (read_checkpoint dx current)
          then \<lparr> cs_current = Some (CheckpointText c), cs_previous = Some current \<rparr>
          else store\<lparr> cs_current := Some (CheckpointText c) \<rparr>
      | None \<Rightarrow> store\<lparr> cs_current := Some (CheckpointText c) \<rparr>)"

section \<open>Recovery\<close>

text \<open>\<open>records.get(boundary.saturating_sub(1))\<close>, the digest of the record it finds.\<close>

definition boundary_sha256 :: "nat \<Rightarrow> persisted_rt list \<Rightarrow> string option" where
  "boundary_sha256 boundary records =
     (if boundary - 1 < length records then Some (pr_record_sha256 (records ! (boundary - 1))) else None)"

definition stream_of :: "string \<Rightarrow> persisted_rt \<Rightarrow> stream_event" where
  "stream_of stream_id r = \<lparr> st_stream_id = stream_id, st_sequence = the (pr_public_sequence r), st_event = pr_event r \<rparr>"

definition rt_last_sequence :: "persisted_rt list \<Rightarrow> u64" where
  "rt_last_sequence applied = last_or (\<lambda>r. unwrap_or 0 (pr_public_sequence r)) 0 applied"

definition index_fields_match :: "durable_ext \<Rightarrow> checkpoint \<Rightarrow> sparse_index \<Rightarrow> bool" where
  "index_fields_match dx c i =
     (if cp_schema_version c = checkpoint_version
      then cp_sparse_index_state_sha256 c = Some (sparse_index_prefix_digest (dx_wal dx) i (cp_wal_cursor c))
           \<and> cp_boundary_segment_id c = map_option sc_segment_id (locate (cp_wal_cursor c) i)
           \<and> cp_boundary_byte_offset c = map_option sc_byte_offset (locate (cp_wal_cursor c) i)
      else cp_sparse_index_state_sha256 c = None \<and> cp_boundary_segment_id c = None
           \<and> cp_boundary_byte_offset c = None)"

definition checkpoint_matches ::
  "durable_ext \<Rightarrow> checkpoint \<Rightarrow> string \<Rightarrow> string \<Rightarrow> nat \<Rightarrow> persisted_rt list \<Rightarrow> sparse_index \<Rightarrow> durability_error + bool" where
  "checkpoint_matches dx c stream_id config_revision replay_capacity records i =
     (if cp_schema_version c \<notin> {checkpoint_v1, checkpoint_version}
         \<or> cp_stream_id c \<noteq> stream_id \<or> cp_config_revision c \<noteq> config_revision
         \<or> cp_replay_capacity c \<noteq> replay_capacity
         \<or> checkpoint_digest dx c \<noteq> Some (cp_state_sha256 c)
      then Inr False
      else if \<not> index_fields_match dx c i then Inr False
      else
        let boundary = partition_point (\<lambda>r. pr_wal_cursor r \<le> cp_wal_cursor c) records
        in if boundary \<noteq> unat (cp_wal_cursor c) then Inr False
           else if boundary_sha256 boundary records \<noteq> cp_last_record_sha256 c then Inr False
           else
             let applied = filter pr_applied (take boundary records);
                 tail = rev (take replay_capacity (rev applied))
             in if \<exists>r \<in> set tail. pr_public_sequence r = None then Inl (DuPanic ''verified applied sequence'')
                else Inr (cp_public_sequence c = rt_last_sequence applied
                          \<and> cp_replay c = map (stream_of stream_id) tail))"

text \<open>The loop over the candidates, newest first: the selected checkpoint, if any.\<close>

fun select_checkpoint ::
  "durable_ext \<Rightarrow> string \<Rightarrow> string \<Rightarrow> nat \<Rightarrow> persisted_rt list \<Rightarrow> sparse_index \<Rightarrow> checkpoint_file option list
   \<Rightarrow> durability_error + checkpoint option" where
  "select_checkpoint dx stream_id config_revision replay_capacity records i [] = Inr None"
| "select_checkpoint dx stream_id config_revision replay_capacity records i (None # files) =
     select_checkpoint dx stream_id config_revision replay_capacity records i files"
| "select_checkpoint dx stream_id config_revision replay_capacity records i (Some f # files) =
     (case read_checkpoint dx f of
        Inl _ \<Rightarrow> select_checkpoint dx stream_id config_revision replay_capacity records i files
      | Inr c \<Rightarrow>
          if cp_stream_id c \<noteq> stream_id \<or> cp_config_revision c \<noteq> config_revision
          then Inl CheckpointWalDivergence
          else if cp_replay_capacity c \<noteq> replay_capacity
          then select_checkpoint dx stream_id config_revision replay_capacity records i files
          else case checkpoint_matches dx c stream_id config_revision replay_capacity records i of
            Inl err \<Rightarrow> Inl err
          | Inr True \<Rightarrow> Inr (Some c)
          | Inr False \<Rightarrow> Inl CheckpointWalDivergence)"

fun replay_records :: "u64 \<Rightarrow> persisted_rt list \<Rightarrow> sequenced_replay \<Rightarrow> durability_error + sequenced_replay" where
  "replay_records boundary [] replay = Inr replay"
| "replay_records boundary (r # rs) replay =
     (if pr_wal_cursor r > boundary \<and> pr_applied r then
        (case pr_public_sequence r of
           None \<Rightarrow> Inl CorruptRtWal
         | Some sequence \<Rightarrow>
             (case commit_persisted (pr_event r) sequence replay of
                Inl err \<Rightarrow> Inl (DuRealtime err)
              | Inr (_, replay') \<Rightarrow> replay_records boundary rs replay'))
      else replay_records boundary rs replay)"

definition recover_replay ::
  "durable_ext \<Rightarrow> checkpoint_store \<Rightarrow> string \<Rightarrow> string \<Rightarrow> nat \<Rightarrow> persisted_rt list \<Rightarrow> sparse_index
   \<Rightarrow> durability_error + (sequenced_replay \<times> u64 option)" where
  "recover_replay dx store stream_id config_revision replay_capacity records i =
     (case select_checkpoint dx stream_id config_revision replay_capacity records i
             [cs_current store, cs_previous store] of
        Inl err \<Rightarrow> Inl err
      | Inr selected \<Rightarrow>
          (case (case selected of
               Some c \<Rightarrow> restore_tail (cp_stream_id c) (cp_replay_capacity c) (cp_public_sequence c) (cp_replay c)
             | None \<Rightarrow> replay_new stream_id replay_capacity) of
             Inl err \<Rightarrow> Inl (DuRealtime err)
           | Inr replay \<Rightarrow>
               (case replay_records (case selected of Some c \<Rightarrow> cp_wal_cursor c | None \<Rightarrow> 0) records replay of
                  Inl err \<Rightarrow> Inl err
                | Inr replay' \<Rightarrow> Inr (replay', map_option cp_wal_cursor selected))))"

section \<open>The writer\<close>

record durable_writer =
  dw_root :: string
  dw_stream_id :: string
  dw_config_revision :: string
  dw_replay_capacity :: nat
  dw_wal :: rt_wal
  dw_checkpoints :: checkpoint_store
  dw_replay :: sequenced_replay
  dw_recovered_checkpoint_cursor :: "u64 option"
  dw_poisoned :: bool

definition writer_open ::
  "durable_ext \<Rightarrow> bool \<Rightarrow> rt_directory \<Rightarrow> index_file \<Rightarrow> checkpoint_store \<Rightarrow> string \<Rightarrow> string \<Rightarrow> string \<Rightarrow> nat \<Rightarrow> nat
   \<Rightarrow> durability_error + durable_writer" where
  "writer_open dx disk_ok directory index_file store root stream_id config_revision max_segment_bytes replay_capacity =
     (if replay_capacity = 0 then Inl DuInvalidConfig
      else case validate_root root of
        Some err \<Rightarrow> Inl err
      | None \<Rightarrow>
          (case rt_wal_open (dx_wal dx) disk_ok directory index_file (root @ ''/wal'') stream_id config_revision
                  max_segment_bytes of
             Inl err \<Rightarrow> Inl err
           | Inr wal \<Rightarrow>
               (case recover_replay dx store stream_id config_revision replay_capacity (rw_records wal)
                       (rw_sparse_index wal) of
                  Inl err \<Rightarrow> Inl err
                | Inr (replay, recovered) \<Rightarrow> Inr \<lparr> dw_root = root, dw_stream_id = stream_id,
                    dw_config_revision = config_revision, dw_replay_capacity = replay_capacity, dw_wal = wal,
                    dw_checkpoints = store, dw_replay = replay, dw_recovered_checkpoint_cursor = recovered,
                    dw_poisoned = False \<rparr>)))"

text \<open>The decision loop: an id seen before, in the log or in the frame, is a duplicate.\<close>

fun decide ::
  "string set \<Rightarrow> u64 \<Rightarrow> provider_event list \<Rightarrow> durability_error + rt_decision list" where
  "decide seen next_sequence [] = Inr []"
| "decide seen next_sequence (e # es) =
     (if ne_event_id e \<in> seen then
        (case decide seen next_sequence es of
           Inl err \<Rightarrow> Inl err
         | Inr ds \<Rightarrow> Inr (\<lparr> pd_event = e, pd_public_sequence = None, pd_applied = False,
             pd_fail_closed_reason = duplicate_reason \<rparr> # ds))
      else case checked_add1 next_sequence of
        None \<Rightarrow> Inl CursorOverflow
      | Some sequence \<Rightarrow>
          (case decide (insert (ne_event_id e) seen) sequence es of
             Inl err \<Rightarrow> Inl err
           | Inr ds \<Rightarrow> Inr (\<lparr> pd_event = e, pd_public_sequence = Some sequence, pd_applied = True,
               pd_fail_closed_reason = None \<rparr> # ds)))"

record durable_outcome =
  do_persisted :: persisted_rt
  do_published :: "stream_event option"

text \<open>The publication loop: its result and the window it leaves.\<close>

fun publish_all ::
  "persisted_rt list \<Rightarrow> sequenced_replay \<Rightarrow> (durability_error + durable_outcome list) \<times> sequenced_replay" where
  "publish_all [] replay = (Inr [], replay)"
| "publish_all (r # rs) replay =
     (if pr_applied r then
        (case pr_public_sequence r of
           None \<Rightarrow> (Inl InvalidDecision, replay)
         | Some sequence \<Rightarrow>
             (case commit_persisted (pr_event r) sequence replay of
                Inl err \<Rightarrow> (Inl (PublicationAfterPersistence err), replay)
              | Inr (e, replay1) \<Rightarrow>
                  (case publish_all rs replay1 of
                     (Inl err, replay2) \<Rightarrow> (Inl err, replay2)
                   | (Inr os, replay2) \<Rightarrow>
                       (Inr (\<lparr> do_persisted = r, do_published = Some e \<rparr> # os), replay2))))
      else
        (case publish_all rs replay of
           (Inl err, replay2) \<Rightarrow> (Inl err, replay2)
         | (Inr os, replay2) \<Rightarrow> (Inr (\<lparr> do_persisted = r, do_published = None \<rparr> # os), replay2)))"

definition publication_error :: "durability_error \<Rightarrow> bool" where
  "publication_error err = (case err of PublicationAfterPersistence _ \<Rightarrow> True | _ \<Rightarrow> False)"

definition apply_batch_rt ::
  "durable_ext \<Rightarrow> (nat \<Rightarrow> timestamp) \<Rightarrow> disk_outcome \<Rightarrow> bool \<Rightarrow> provider_event list \<Rightarrow> durable_writer
   \<Rightarrow> (durability_error + durable_outcome list) \<times> durable_writer" where
  "apply_batch_rt dx clock disk index_disk_ok events w =
     (if dw_poisoned w then (Inl WriterPoisoned, w)
      else if events = [] then (Inl EmptyBatch, w)
      else if list_ex (\<lambda>e. \<not> evidence_is_valid (rx_event_id (dx_wal dx)) e) events
      then (Inl InvalidEventEvidence, w)
      else case decide (rw_applied_event_ids (dw_wal w)) (sq_sequence (dw_replay w)) events of
        Inl err \<Rightarrow> (Inl err, w)
      | Inr decisions \<Rightarrow>
          (case append_decisions (dx_wal dx) clock disk index_disk_ok decisions (dw_wal w) of
             (Inl err, wal) \<Rightarrow> (Inl err, w\<lparr> dw_wal := wal \<rparr>)
           | (Inr persisted, wal) \<Rightarrow>
               (case publish_all persisted (dw_replay w) of
                  (Inl err, replay) \<Rightarrow> (Inl err,
                    if publication_error err
                    then w\<lparr> dw_wal := wal\<lparr> rw_poisoned := True \<rparr>, dw_replay := replay, dw_poisoned := True \<rparr>
                    else w\<lparr> dw_wal := wal, dw_replay := replay \<rparr>)
                | (Inr outs, replay) \<Rightarrow> (Inr outs, w\<lparr> dw_wal := wal, dw_replay := replay \<rparr>))))"

definition apply_rt ::
  "durable_ext \<Rightarrow> (nat \<Rightarrow> timestamp) \<Rightarrow> disk_outcome \<Rightarrow> bool \<Rightarrow> provider_event \<Rightarrow> durable_writer
   \<Rightarrow> (durability_error + durable_outcome) \<times> durable_writer" where
  "apply_rt dx clock disk index_disk_ok e w =
     (case apply_batch_rt dx clock disk index_disk_ok [e] w of
        (Inl err, w') \<Rightarrow> (Inl err, w')
      | (Inr [], w') \<Rightarrow> (Inl EmptyBatch, w')
      | (Inr outs, w') \<Rightarrow> (Inr (last outs), w'))"

definition seal_checkpoint :: "durable_ext \<Rightarrow> checkpoint \<Rightarrow> checkpoint" where
  "seal_checkpoint dx c = c\<lparr> cp_state_sha256 := unwrap_or [] (checkpoint_digest dx c) \<rparr>"

text \<open>The checkpoint of the present state, before it is written.\<close>

definition new_checkpoint :: "durable_ext \<Rightarrow> timestamp \<Rightarrow> durable_writer \<Rightarrow> checkpoint" where
  "new_checkpoint dx now w =
     (let wal_cursor = rt_wal_cursor (dw_wal w);
          i = rw_sparse_index (dw_wal w)
      in seal_checkpoint dx \<lparr> cp_schema_version = checkpoint_version, cp_stream_id = dw_stream_id w,
            cp_config_revision = dw_config_revision w, cp_wal_cursor = wal_cursor,
            cp_public_sequence = sq_sequence (dw_replay w),
            cp_last_record_sha256 = sha_of_last (rw_records (dw_wal w)),
            cp_replay_capacity = dw_replay_capacity w, cp_replay = sq_replay (dw_replay w),
            cp_sparse_index_state_sha256 = Some (sparse_index_prefix_digest (dx_wal dx) i wal_cursor),
            cp_boundary_segment_id = map_option sc_segment_id (locate wal_cursor i),
            cp_boundary_byte_offset = map_option sc_byte_offset (locate wal_cursor i),
            cp_created_at = now, cp_state_sha256 = [] \<rparr>)"

definition checkpoint_rt ::
  "durable_ext \<Rightarrow> timestamp \<Rightarrow> durable_writer \<Rightarrow> (durability_error + checkpoint) \<times> durable_writer" where
  "checkpoint_rt dx now w =
     (if dw_poisoned w \<or> rw_poisoned (dw_wal w) then (Inl WriterPoisoned, w)
      else if rt_wal_cursor (dw_wal w) > 0 \<and> locate (rt_wal_cursor (dw_wal w)) (rw_sparse_index (dw_wal w)) = None
      then (Inl CorruptRtWal, w)
      else let c = new_checkpoint dx now w
           in (Inr c, w\<lparr> dw_checkpoints := write_checkpoint dx c (dw_checkpoints w) \<rparr>))"

end
