(* ===== verification/Realtime_Window.thy ===== *)
theory Realtime_Window
  imports Realtime_Writer
begin

text \<open>
  The replay window as a function of the log: \<open>window_of\<close> is the window that the applied records of
  a log determine. Publication, restoration from a checkpoint and replay after a restart are shown
  to compute it.
\<close>

section \<open>The last elements of a list\<close>

definition lastn :: "nat \<Rightarrow> 'a list \<Rightarrow> 'a list" where
  "lastn n xs = drop (length xs - n) xs"

lemma rev_take_rev: "rev (take n (rev xs)) = lastn n xs"
  by (simp add: lastn_def take_rev)

lemma lastn_Nil [simp]: "lastn n [] = []"
  by (simp add: lastn_def)

lemma length_lastn [simp]: "length (lastn n xs) = min n (length xs)"
  by (simp add: lastn_def)

lemma lastn_snoc: "0 < n \<Longrightarrow> lastn n (xs @ [x]) = (if length xs < n then xs @ [x] else tl (lastn n xs) @ [x])"
  by (auto simp: lastn_def drop_Suc tl_drop Suc_diff_le)

lemma lastn_all: "length xs \<le> n \<Longrightarrow> lastn n xs = xs"
  by (simp add: lastn_def)

lemma set_lastn: "set (lastn n xs) \<subseteq> set xs"
  by (simp add: lastn_def set_drop_subset)

lemma map_lastn: "map f (lastn n xs) = lastn n (map f xs)"
  by (simp add: lastn_def drop_map)

lemma nth_lastn: "k < min n (length xs) \<Longrightarrow> lastn n xs ! k = xs ! (length xs - min n (length xs) + k)"
  by (cases "n \<le> length xs") (auto simp: lastn_def)

lemma lastn_eq_Nil: "lastn n xs = [] \<longleftrightarrow> n = 0 \<or> xs = []"
proof -
  have "lastn n xs = [] \<longleftrightarrow> min n (length xs) = 0" by (metis length_0_conv length_lastn)
  then show ?thesis by (auto simp: min_def split: if_splits)
qed

section \<open>Well-numbered logs\<close>

text \<open>
  The records of a log are numbered from one, the applied ones also by their public sequence, and no
  id is applied twice.
\<close>

definition numbered :: "persisted_rt list \<Rightarrow> bool" where
  "numbered rs =
     (length rs < 2 ^ 64
      \<and> (\<forall>k < length rs. pr_wal_cursor (rs ! k) = of_nat (Suc k))
      \<and> (\<forall>k < length (filter pr_applied rs). pr_public_sequence (filter pr_applied rs ! k) = Some (of_nat (Suc k)))
      \<and> distinct (map (\<lambda>r. ne_event_id (pr_event r)) (filter pr_applied rs)))"

definition applied_count :: "persisted_rt list \<Rightarrow> u64" where
  "applied_count rs = of_nat (length (filter pr_applied rs))"

lemma unat_of_nat_u64: "n < 2 ^ 64 \<Longrightarrow> unat (of_nat n :: u64) = n"
  by (simp add: unsigned_of_nat take_bit_nat_eq_self)

lemma of_nat_u64_eq: "a < 2 ^ 64 \<Longrightarrow> b < 2 ^ 64 \<Longrightarrow> (of_nat a :: u64) = of_nat b \<longleftrightarrow> a = b"
  by (metis unat_of_nat_u64)

lemma of_nat_u64_less: "a < 2 ^ 64 \<Longrightarrow> b < 2 ^ 64 \<Longrightarrow> (of_nat a :: u64) < of_nat b \<longleftrightarrow> a < b"
  by (simp add: word_less_nat_alt unat_of_nat_u64)

lemma of_nat_u64_le: "a < 2 ^ 64 \<Longrightarrow> b < 2 ^ 64 \<Longrightarrow> (of_nat a :: u64) \<le> of_nat b \<longleftrightarrow> a \<le> b"
  by (simp add: word_le_nat_alt unat_of_nat_u64)

lemma checked_add1_of_nat: "Suc n < 2 ^ 64 \<Longrightarrow> checked_add1 (of_nat n :: u64) = Some (of_nat (Suc n))"
proof -
  assume n: "Suc n < 2 ^ 64"
  have "(of_nat n :: u64) \<noteq> - 1"
  proof
    assume "(of_nat n :: u64) = - 1"
    then have "unat (of_nat n :: u64) = unat (- 1 :: u64)" by simp
    with n show False by (simp add: unat_of_nat_u64 unsigned_minus_1_eq_mask mask_eq_exp_minus_1)
  qed
  then show ?thesis by (simp add: add.commute)
qed

lemma numbered_Nil [simp]: "numbered []"
  by (simp add: numbered_def)

lemma numbered_applied_length: "numbered rs \<Longrightarrow> length (filter pr_applied rs) < 2 ^ 64"
  by (meson le_less_trans length_filter_le numbered_def)

lemma numbered_snoc:
  "numbered (rs @ [r]) \<longleftrightarrow> numbered rs \<and> Suc (length rs) < 2 ^ 64 \<and> pr_wal_cursor r = of_nat (Suc (length rs))
     \<and> (pr_applied r \<longrightarrow> pr_public_sequence r = Some (applied_count rs + 1)
          \<and> ne_event_id (pr_event r) \<notin> applied_ids rs)"
  by (auto simp: numbered_def applied_count_def applied_ids_def nth_append less_Suc_eq all_conj_distrib add.commute)

lemma numbered_take: "numbered rs \<Longrightarrow> numbered (take n rs)"
proof (induction rs rule: rev_induct)
  case (snoc r rs)
  then show ?case by (cases "n \<le> length rs") (auto simp: numbered_snoc)
qed simp

lemma numbered_cursor: "numbered rs \<Longrightarrow> k < length rs \<Longrightarrow> unat (pr_wal_cursor (rs ! k)) = Suc k"
  by (simp add: numbered_def unat_of_nat_u64 less_le_trans Suc_leI le_less_trans del: of_nat_Suc)

lemma numbered_wal_cursor: "numbered rs \<Longrightarrow> wal_cursor_of rs = of_nat (length rs)"
  by (cases rs rule: rev_cases) (auto simp: numbered_snoc wal_cursor_of_def last_or_def)

lemma applied_count_simps [simp]:
  "applied_count [] = 0"
  "applied_count (rs @ [r]) = (if pr_applied r then applied_count rs + 1 else applied_count rs)"
  by (simp_all add: applied_count_def)

lemma applied_ids_simps [simp]:
  "applied_ids [] = {}"
  "applied_ids (rs @ rs') = applied_ids rs \<union> applied_ids rs'"
  "applied_ids (r # rs) = (if pr_applied r then insert (ne_event_id (pr_event r)) (applied_ids rs) else applied_ids rs)"
  by (auto simp: applied_ids_def)

section \<open>The window of a log\<close>

definition window_of :: "string \<Rightarrow> nat \<Rightarrow> persisted_rt list \<Rightarrow> sequenced_replay" where
  "window_of stream_id capacity rs =
     (let tail = lastn capacity (filter pr_applied rs);
          ids = map (\<lambda>r. ne_event_id (pr_event r)) tail
      in \<lparr> sq_stream_id = stream_id, sq_replay_capacity = capacity, sq_sequence = applied_count rs,
           sq_recent_event_ids = set ids, sq_recent_event_order = ids, sq_replay = map (stream_of stream_id) tail \<rparr>)"

lemma window_of_simps [simp]:
  "sq_stream_id (window_of s c rs) = s"
  "sq_replay_capacity (window_of s c rs) = c"
  "sq_sequence (window_of s c rs) = applied_count rs"
  "sq_replay (window_of s c rs) = map (stream_of s) (lastn c (filter pr_applied rs))"
  "sq_recent_event_order (window_of s c rs) = map (\<lambda>r. ne_event_id (pr_event r)) (lastn c (filter pr_applied rs))"
  "sq_recent_event_ids (window_of s c rs) = set (map (\<lambda>r. ne_event_id (pr_event r)) (lastn c (filter pr_applied rs)))"
  by (simp_all add: window_of_def Let_def)

lemma window_of_skip: "\<not> pr_applied r \<Longrightarrow> window_of s c (rs @ [r]) = window_of s c rs"
  by (simp add: window_of_def)

lemma window_of_Nil: "s \<noteq> [] \<Longrightarrow> 0 < c \<Longrightarrow> replay_new s c = Inr (window_of s c [])"
  by (simp add: replay_new_def window_of_def)

lemma evict_step:
  "evict r = (if length (sq_replay r) > sq_replay_capacity r then
        evict (case sq_recent_event_order r of
            [] \<Rightarrow> r\<lparr> sq_replay := tl (sq_replay r) \<rparr>
          | event_id # order \<Rightarrow> r\<lparr> sq_replay := tl (sq_replay r), sq_recent_event_order := order,
              sq_recent_event_ids := sq_recent_event_ids r - {event_id} \<rparr>)
      else r)"
  by (rule evict.simps)

lemma evict_fits: "length (sq_replay r) \<le> sq_replay_capacity r \<Longrightarrow> evict r = r"
  by (subst evict_step) simp

text \<open>Publishing the next applied record computes the window of the longer log.\<close>

lemma commit_window:
  assumes n: "numbered (rs @ [r])" and r: "pr_applied r" "pr_public_sequence r = Some q" and c: "0 < c"
  shows "commit_persisted (pr_event r) q (window_of s c rs) = Inr (stream_of s r, window_of s c (rs @ [r]))"
proof -
  let ?A = "filter pr_applied rs" and ?id = "\<lambda>r. ne_event_id (pr_event r)"
  from n r have q: "q = applied_count rs + 1" and fresh: "?id r \<notin> applied_ids rs" by (auto simp: numbered_snoc)
  have "length (filter pr_applied (rs @ [r])) < 2 ^ 64" by (rule numbered_applied_length [OF n])
  with r have ca: "checked_add1 (applied_count rs) = Some q"
    unfolding q applied_count_def by (subst checked_add1_of_nat) (simp_all add: add.commute)
  from fresh have nin: "?id r \<notin> set (map ?id (lastn c ?A))"
    using set_lastn [of c ?A] by (auto simp: applied_ids_def)
  have d: "distinct (map ?id ?A)" using n by (simp add: numbered_snoc) (simp add: numbered_def)
  have stream: "\<lparr> st_stream_id = s, st_sequence = q, st_event = pr_event r \<rparr> = stream_of s r"
    by (simp add: stream_of_def r(2))
  let ?next = "(window_of s c rs)\<lparr> sq_sequence := q,
     sq_recent_event_ids := insert (?id r) (set (map ?id (lastn c ?A))),
     sq_recent_event_order := map ?id (lastn c ?A) @ [?id r],
     sq_replay := map (stream_of s) (lastn c ?A) @ [stream_of s r] \<rparr>"
  have "commit_persisted (pr_event r) q (window_of s c rs) = Inr (stream_of s r, evict ?next)"
    using nin ca by (simp add: commit_persisted_def stream Let_def del: checked_add1_Some_iff)
  moreover have "evict ?next = window_of s c (rs @ [r])"
  proof (cases "length ?A < c")
    case True
    then have l: "lastn c ?A = ?A" "lastn c (?A @ [r]) = ?A @ [r]" by (simp_all add: lastn_all)
    from True have "evict ?next = ?next" by (simp add: evict_fits)
    with r(1) q show ?thesis by (simp add: window_of_def Let_def l)
  next
    case False
    then have ne: "lastn c ?A \<noteq> []" using c by (auto simp: lastn_eq_Nil)
    then obtain a as where l: "lastn c ?A = a # as" by (cases "lastn c ?A") auto
    have "distinct (map ?id (lastn c ?A))" using d by (simp add: map_lastn) (simp add: lastn_def)
    then have "?id a \<notin> set (map ?id as)" "distinct (map ?id as)" by (simp_all add: l)
    moreover from nin have "?id r \<noteq> ?id a" by (auto simp: l)
    moreover have len: "length (a # as) = c" using False by (simp add: l [symmetric])
    ultimately have "evict ?next = ?next\<lparr> sq_replay := map (stream_of s) as @ [stream_of s r],
        sq_recent_event_order := map ?id as @ [?id r], sq_recent_event_ids := insert (?id r) (set (map ?id as)) \<rparr>"
      unfolding l by (subst evict_step) (simp add: evict_fits insert_Diff_if image_iff)
    with False r(1) q show ?thesis by (simp add: window_of_def Let_def lastn_snoc c l)
  qed
  ultimately show ?thesis by simp
qed

end
