(* ===== verification/Realtime_Recovery.thy ===== *)
theory Realtime_Recovery
  imports Realtime_Window
begin

text \<open>
  Recovery from a checkpoint and the log computes the window of the log: a checkpoint of a prefix
  of the log is accepted, its tail is restored to the window of the prefix, and the records after it
  are replayed. The one exception is a checkpoint taken before the first record.
\<close>

section \<open>Replaying records\<close>

lemma replay_records_skip:
  "\<forall>r \<in> set rs. pr_wal_cursor r \<le> b \<Longrightarrow> replay_records b (rs @ rs') replay = replay_records b rs' replay"
  by (induction rs) (auto simp: not_less)

lemma replay_records_window:
  assumes "numbered (rs @ rs')" and "\<forall>r \<in> set rs'. b < pr_wal_cursor r" and "0 < c"
  shows "replay_records b rs' (window_of s c rs) = Inr (window_of s c (rs @ rs'))"
  using assms
proof (induction rs' arbitrary: rs)
  case (Cons r rs')
  have n: "numbered (rs @ [r])" using numbered_take [OF Cons.prems(1), of "Suc (length rs)"] by simp
  from Cons.IH [of "rs @ [r]"] Cons.prems
  have IH: "replay_records b rs' (window_of s c (rs @ [r])) = Inr (window_of s c (rs @ r # rs'))" by simp
  show ?case
  proof (cases "pr_applied r")
    case True
    with n obtain q where "pr_public_sequence r = Some q" by (auto simp: numbered_snoc)
    with True Cons.prems(2) commit_window [OF n True this Cons.prems(3)] IH show ?thesis by simp
  qed (use IH in \<open>simp add: window_of_skip\<close>)
qed simp

lemma numbered_split:
  assumes "numbered rs" and "n \<le> length rs"
  shows "\<forall>r \<in> set (take n rs). pr_wal_cursor r \<le> of_nat n" and "\<forall>r \<in> set (drop n rs). of_nat n < pr_wal_cursor r"
proof -
  have n: "unat (of_nat n :: u64) = n" using assms by (simp add: numbered_def unat_of_nat_u64)
  show "\<forall>r \<in> set (take n rs). pr_wal_cursor r \<le> of_nat n"
    using assms(2) by (auto simp: in_set_conv_nth word_le_nat_alt n numbered_cursor [OF assms(1)])
  show "\<forall>r \<in> set (drop n rs). of_nat n < pr_wal_cursor r"
    using assms(2) by (auto simp: in_set_conv_nth word_less_nat_alt n numbered_cursor [OF assms(1)])
qed

lemma partition_point_append:
  "\<forall>x \<in> set xs. P x \<Longrightarrow> \<forall>x \<in> set ys. \<not> P x \<Longrightarrow> partition_point P (xs @ ys) = length xs"
  by (cases ys) (simp_all add: partition_point_def takeWhile_append takeWhile_eq_all_conv [THEN iffD2])

lemma partition_cursors:
  assumes "numbered rs" and "n \<le> length rs"
  shows "partition_point (\<lambda>r. pr_wal_cursor r \<le> of_nat n) rs = n"
proof -
  note s = numbered_split [OF assms]
  have "partition_point (\<lambda>r. pr_wal_cursor r \<le> of_nat n) (take n rs @ drop n rs) = length (take n rs)"
    by (rule partition_point_append) (use s in \<open>auto simp: not_le\<close>)
  with assms(2) show ?thesis by simp
qed

lemma replay_after_prefix:
  assumes "numbered rs" and "n \<le> length rs" and "0 < c"
  shows "replay_records (of_nat n) rs (window_of s c (take n rs)) = Inr (window_of s c rs)"
proof -
  note s = numbered_split [OF assms(1,2)]
  have "replay_records (of_nat n) (take n rs @ drop n rs) (window_of s c (take n rs))
      = replay_records (of_nat n) (drop n rs) (window_of s c (take n rs))"
    by (rule replay_records_skip) (use s in blast)
  moreover have "replay_records (of_nat n) (drop n rs) (window_of s c (take n rs))
      = Inr (window_of s c (take n rs @ drop n rs))"
    by (rule replay_records_window) (use assms s in auto)
  ultimately show ?thesis by simp
qed

section \<open>Restoring a tail\<close>

lemma any_adjacent_conv: "any_adjacent P xs \<longleftrightarrow> (\<exists>k. Suc k < length xs \<and> P (xs ! k) (xs ! Suc k))"
proof (induction P xs rule: any_adjacent.induct)
  case (1 P a b xs)
  have ex: "(\<exists>k. Q k) = (Q 0 \<or> (\<exists>k. Q (Suc k)))" for Q :: "nat \<Rightarrow> bool" by (metis not0_implies_Suc)
  show ?case
    by (subst ex [of "\<lambda>k. Suc k < length (a # b # xs) \<and> P ((a # b # xs) ! k) ((a # b # xs) ! Suc k)"])
      (simp add: 1)
qed simp_all

text \<open>The sequences of the window are consecutive and end at the sequence of the window.\<close>

lemma window_sequences:
  assumes n: "numbered rs" and k: "k < min c (length (filter pr_applied rs))"
  shows "unat (the (pr_public_sequence (lastn c (filter pr_applied rs) ! k)))
    = length (filter pr_applied rs) - min c (length (filter pr_applied rs)) + k + 1"
proof -
  let ?A = "filter pr_applied rs" and ?i = "length (filter pr_applied rs) - min c (length (filter pr_applied rs)) + k"
  have i: "?i < length ?A" using k by linarith
  then have "pr_public_sequence (?A ! ?i) = Some (of_nat (Suc ?i))" using n unfolding numbered_def by blast
  moreover have "unat (of_nat (Suc ?i) :: u64) = Suc ?i"
    using i numbered_applied_length [OF n] by (intro unat_of_nat_u64) linarith
  ultimately show ?thesis by (simp only: nth_lastn [OF k]) simp
qed

lemma checked_add1_consecutive: "unat (b :: u64) = Suc (unat a) \<Longrightarrow> checked_add1 a = Some b"
proof -
  assume b: "unat b = Suc (unat a)"
  then have "Suc (unat a) < 2 ^ 64" using unsigned_less [of b, where 'a = nat] by simp
  from checked_add1_of_nat [OF this] show ?thesis unfolding b [symmetric] by simp
qed

lemma restore_window:
  assumes n: "numbered rs" and c: "0 < c"
  shows "restore_tail s c (applied_count rs) (map (stream_of s) (lastn c (filter pr_applied rs))) = Inr (window_of s c rs)"
proof -
  let ?A = "filter pr_applied rs" and ?id = "\<lambda>r. ne_event_id (pr_event r)"
  let ?T = "lastn c ?A"
  let ?E = "map (stream_of s) ?T"
  have len: "length ?T = min c (length ?A)" by simp
  have seqs: "unat (st_sequence (?E ! k)) = length ?A - min c (length ?A) + k + 1" if "k < length ?E" for k
    using window_sequences [OF n, of k c] that by (simp add: stream_of_def)
  have adj: "\<not> any_adjacent (\<lambda>a b. checked_add1 (st_sequence a) \<noteq> Some (st_sequence b)
      \<or> st_stream_id a \<noteq> s \<or> st_stream_id b \<noteq> s) ?E"
  proof -
    have "checked_add1 (st_sequence (?E ! k)) = Some (st_sequence (?E ! Suc k))" if "Suc k < length ?E" for k
      using seqs [of k] seqs [OF that] that by (intro checked_add1_consecutive) simp
    moreover have "st_stream_id (?E ! k) = s" if "k < length ?E" for k using that by (simp add: stream_of_def)
    ultimately show ?thesis unfolding any_adjacent_conv by (metis Suc_lessD)
  qed
  have last: "\<not> last_or (\<lambda>e. st_sequence e \<noteq> applied_count rs) (applied_count rs \<noteq> 0) ?E"
  proof (cases "?A = []")
    case True
    then show ?thesis by (simp add: last_or_def applied_count_def)
  next
    case False
    with c have ne: "?E \<noteq> []" by (simp add: lastn_eq_Nil)
    from c False have k: "min c (length ?A) - 1 < length ?E" by (cases ?A) auto
    from ne have "last ?E = ?E ! (min c (length ?A) - 1)" by (simp add: last_conv_nth del: nth_map)
    moreover have "unat (st_sequence (?E ! (min c (length ?A) - 1))) = length ?A"
      using seqs [OF k] c False by (cases ?A) (simp_all del: nth_map)
    ultimately have "unat (st_sequence (last ?E)) = length ?A" by simp
    then have "st_sequence (last ?E) = applied_count rs" by (metis applied_count_def unat_of_nat_u64 numbered_applied_length [OF n] word_unat_eq_iff)
    with ne show ?thesis by (simp add: last_or_def)
  qed
  have head: "\<not> (?E \<noteq> [] \<and> (st_stream_id (hd ?E) \<noteq> s \<or> st_sequence (hd ?E) = 0))"
  proof
    assume h: "?E \<noteq> [] \<and> (st_stream_id (hd ?E) \<noteq> s \<or> st_sequence (hd ?E) = 0)"
    then have "0 < length ?E" by (simp only: length_greater_0_conv) simp
    from seqs [OF this] have "unat (st_sequence (hd ?E)) > 0" unfolding hd_conv_nth [OF conjunct1 [OF h]] by linarith
    moreover from h have "st_stream_id (hd ?E) = s" by (simp add: hd_map stream_of_def)
    ultimately show False using h by auto
  qed
  have ids: "map (\<lambda>e. ne_event_id (st_event e)) ?E = map ?id ?T" by (simp add: stream_of_def)
  have "distinct (map ?id ?A)" using n by (simp add: numbered_def)
  then have "distinct (map ?id ?T)" by (simp add: map_lastn) (simp add: lastn_def)
  then have card: "card (set (map ?id ?T)) = length ?E" by (simp only: distinct_card) simp
  have short: "\<not> length ?E > c" by simp
  have win: "\<lparr> sq_stream_id = s, sq_replay_capacity = c, sq_sequence = applied_count rs,
       sq_recent_event_ids = set (map ?id ?T), sq_recent_event_order = map ?id ?T, sq_replay = ?E \<rparr> = window_of s c rs"
    by (simp add: window_of_def Let_def)
  show ?thesis
    unfolding restore_tail_def Let_def ids win
    using short last adj head card by (simp only: simp_thms if_False if_True)
qed

section \<open>Accepting a checkpoint\<close>

lemma last_sequence_numbered: "numbered rs \<Longrightarrow> rt_last_sequence (filter pr_applied rs) = applied_count rs"
  by (induction rs rule: rev_induct) (auto simp: numbered_snoc rt_last_sequence_def last_or_def)

text \<open>The checkpoint describes a prefix of the log and of its index.\<close>

definition checkpoint_fits ::
  "durable_ext \<Rightarrow> string \<Rightarrow> string \<Rightarrow> nat \<Rightarrow> persisted_rt list \<Rightarrow> sparse_index \<Rightarrow> checkpoint \<Rightarrow> bool" where
  "checkpoint_fits dx stream_id config_revision capacity rs i c =
     (cp_schema_version c = checkpoint_version
      \<and> cp_stream_id c = stream_id \<and> cp_config_revision c = config_revision
      \<and> cp_replay_capacity c = capacity
      \<and> checkpoint_digest dx c = Some (cp_state_sha256 c)
      \<and> index_fields_match dx c i
      \<and> unat (cp_wal_cursor c) \<le> length rs
      \<and> cp_last_record_sha256 c = sha_of_last (take (unat (cp_wal_cursor c)) rs)
      \<and> cp_public_sequence c = applied_count (take (unat (cp_wal_cursor c)) rs)
      \<and> cp_replay c = map (stream_of stream_id)
           (lastn capacity (filter pr_applied (take (unat (cp_wal_cursor c)) rs))))"

lemma boundary_sha256_prefix:
  "n \<le> length rs \<Longrightarrow> boundary_sha256 n rs = sha_of_last (take n rs) \<longleftrightarrow> 0 < n \<or> rs = []"
proof (cases n)
  case (Suc k)
  assume "n \<le> length rs"
  with Suc show ?thesis
    by (simp add: boundary_sha256_def sha_of_last_def last_or_def last_conv_nth) (metis list.size(3) not_less_eq_eq zero_le)
qed (simp add: boundary_sha256_def sha_of_last_def last_or_def)

lemma checkpoint_matches_fits:
  assumes n: "numbered rs" and fits: "checkpoint_fits dx s r cap rs i c"
  shows "checkpoint_matches dx c s r cap rs i = Inr (cp_wal_cursor c \<noteq> 0 \<or> rs = [])"
proof -
  let ?n = "unat (cp_wal_cursor c)"
  let ?p = "take ?n rs"
  from fits have le: "?n \<le> length rs" by (simp add: checkpoint_fits_def)
  have pp: "partition_point (\<lambda>r. pr_wal_cursor r \<le> cp_wal_cursor c) rs = ?n"
    using partition_cursors [OF n le] by simp
  have np: "numbered ?p" by (rule numbered_take [OF n])
  have seqs: "\<not> (\<exists>r \<in> set (lastn cap (filter pr_applied ?p)). pr_public_sequence r = None)"
  proof
    assume "\<exists>r \<in> set (lastn cap (filter pr_applied ?p)). pr_public_sequence r = None"
    then have "\<exists>r \<in> set (filter pr_applied ?p). pr_public_sequence r = None" using set_lastn by fast
    then obtain k where "k < length (filter pr_applied ?p)" "pr_public_sequence (filter pr_applied ?p ! k) = None"
      by (metis in_set_conv_nth)
    with np show False by (simp add: numbered_def)
  qed
  have sha: "boundary_sha256 ?n rs = cp_last_record_sha256 c \<longleftrightarrow> cp_wal_cursor c \<noteq> 0 \<or> rs = []"
    using boundary_sha256_prefix [OF le] fits by (auto simp: checkpoint_fits_def unat_gt_0)
  have scope: "\<not> (cp_schema_version c \<notin> {checkpoint_v1, checkpoint_version}
      \<or> cp_stream_id c \<noteq> s \<or> cp_config_revision c \<noteq> r \<or> cp_replay_capacity c \<noteq> cap
      \<or> checkpoint_digest dx c \<noteq> Some (cp_state_sha256 c))" "\<not> \<not> index_fields_match dx c i"
    using fits by (auto simp: checkpoint_fits_def)
  have tail: "cp_public_sequence c = rt_last_sequence (filter pr_applied ?p)
      \<and> cp_replay c = map (stream_of s) (lastn cap (filter pr_applied ?p))"
    using fits last_sequence_numbered [OF np] by (simp add: checkpoint_fits_def)
  show ?thesis
    unfolding checkpoint_matches_def Let_def pp rev_take_rev sha
    using scope seqs tail by (simp only: simp_thms if_False if_True) (simp only: split: if_split, blast)
qed

section \<open>Recovery\<close>

definition readable :: "durable_ext \<Rightarrow> checkpoint_file option \<Rightarrow> checkpoint option" where
  "readable dx f = (case f of None \<Rightarrow> None
     | Some doc \<Rightarrow> (case read_checkpoint dx doc of Inl _ \<Rightarrow> None | Inr c \<Rightarrow> Some c))"

text \<open>The newest readable checkpoint of a store, and a store whose readable checkpoints all fit.\<close>

definition newest :: "durable_ext \<Rightarrow> checkpoint_store \<Rightarrow> checkpoint option" where
  "newest dx store = opt_or (readable dx (cs_current store)) (readable dx (cs_previous store))"

definition store_fits ::
  "durable_ext \<Rightarrow> string \<Rightarrow> string \<Rightarrow> nat \<Rightarrow> persisted_rt list \<Rightarrow> sparse_index \<Rightarrow> checkpoint_store \<Rightarrow> bool" where
  "store_fits dx s r cap rs i store =
     (\<forall>f \<in> {cs_current store, cs_previous store}. \<forall>c. readable dx f = Some c \<longrightarrow> checkpoint_fits dx s r cap rs i c)"

lemma select_one:
  assumes "numbered rs" and "\<forall>c. readable dx f = Some c \<longrightarrow> checkpoint_fits dx s r cap rs i c"
  shows "select_checkpoint dx s r cap rs i (f # fs) =
    (case readable dx f of
       None \<Rightarrow> select_checkpoint dx s r cap rs i fs
     | Some c \<Rightarrow> if cp_wal_cursor c = 0 \<and> rs \<noteq> [] then Inl CheckpointWalDivergence else Inr (Some c))"
proof (cases f)
  case (Some doc)
  show ?thesis
  proof (cases "read_checkpoint dx doc")
    case (Inr c)
    with assms(2) Some have fits: "checkpoint_fits dx s r cap rs i c" by (simp add: readable_def)
    then have "cp_stream_id c = s" "cp_config_revision c = r" "cp_replay_capacity c = cap"
      by (simp_all add: checkpoint_fits_def)
    with Inr Some checkpoint_matches_fits [OF assms(1) fits] show ?thesis
      by (cases "cp_wal_cursor c \<noteq> 0 \<or> rs = []") (simp_all add: readable_def)
  qed (simp add: Some readable_def)
qed (simp add: readable_def)

text \<open>
  Whatever checkpoints are left, recovery finds the window of the log, unless the newest readable
  one is empty and the log is not.
\<close>

lemma recover_replay_window:
  assumes n: "numbered rs" and st: "store_fits dx s r cap rs i store" and s: "s \<noteq> []" and cap: "0 < cap"
  shows "recover_replay dx store s r cap rs i =
    (if \<exists>c. newest dx store = Some c \<and> cp_wal_cursor c = 0 \<and> rs \<noteq> [] then Inl CheckpointWalDivergence
     else Inr (window_of s cap rs, map_option cp_wal_cursor (newest dx store)))"
proof -
  have f: "\<forall>c. readable dx (cs_current store) = Some c \<longrightarrow> checkpoint_fits dx s r cap rs i c"
    "\<forall>c. readable dx (cs_previous store) = Some c \<longrightarrow> checkpoint_fits dx s r cap rs i c"
    using st by (auto simp: store_fits_def)
  have sel: "select_checkpoint dx s r cap rs i [cs_current store, cs_previous store] =
      (case newest dx store of None \<Rightarrow> Inr None
       | Some c \<Rightarrow> if cp_wal_cursor c = 0 \<and> rs \<noteq> [] then Inl CheckpointWalDivergence else Inr (Some c))"
    unfolding select_one [OF n f(1)] select_one [OF n f(2)] newest_def
    by (cases "readable dx (cs_current store)"; cases "readable dx (cs_previous store)") simp_all
  show ?thesis
  proof (cases "newest dx store")
    case None
    have "replay_records 0 rs (window_of s cap []) = Inr (window_of s cap rs)"
      using replay_after_prefix [OF n, of 0] cap by simp
    with None sel show ?thesis by (simp add: recover_replay_def window_of_Nil [OF s cap])
  next
    case (Some c)
    then have fits: "checkpoint_fits dx s r cap rs i c"
      using f by (auto simp: newest_def split: option.splits) (cases "readable dx (cs_current store)"; simp)
    let ?p = "take (unat (cp_wal_cursor c)) rs"
    have le: "unat (cp_wal_cursor c) \<le> length rs" using fits by (simp add: checkpoint_fits_def)
    have rest: "restore_tail (cp_stream_id c) (cp_replay_capacity c) (cp_public_sequence c) (cp_replay c)
        = Inr (window_of s cap ?p)"
      using fits restore_window [OF numbered_take [OF n, of "unat (cp_wal_cursor c)"] cap, of s]
      by (simp add: checkpoint_fits_def)
    have "replay_records (cp_wal_cursor c) rs (window_of s cap ?p) = Inr (window_of s cap rs)"
      using replay_after_prefix [OF n le cap, of s] by simp
    with Some sel rest show ?thesis
      by (cases "cp_wal_cursor c = 0 \<and> rs \<noteq> []") (simp_all add: recover_replay_def)
  qed
qed

end
