(* ===== verification/Realtime_Chain.thy ===== *)
theory Realtime_Chain
  imports Realtime_Recovery
begin

text \<open>
  The log as verification sees it: what an append writes verifies, and extends the verified records
  and index by exactly what the writer keeps in memory.
\<close>

section \<open>Verification of decided records\<close>

text \<open>The loop variables of the verification agree with the records it has read.\<close>

definition vr_ok :: "rt_verify \<Rightarrow> bool" where
  "vr_ok st =
     (numbered (vr_records st)
      \<and> vr_previous_record_sha256 st = sha_of_last (vr_records st)
      \<and> vr_applied_event_ids st = applied_ids (vr_records st)
      \<and> vr_expected_public_sequence st = applied_count (vr_records st))"

definition advance :: "persisted_rt list \<Rightarrow> rt_verify \<Rightarrow> rt_verify" where
  "advance rs st = st\<lparr> vr_records := vr_records st @ rs,
     vr_previous_record_sha256 := sha_of_last (vr_records st @ rs),
     vr_applied_event_ids := applied_ids (vr_records st @ rs),
     vr_expected_public_sequence := applied_count (vr_records st @ rs) \<rparr>"

lemma vr_ok_cong [simp]:
  "vr_ok (st\<lparr> vr_sparse_entries := es \<rparr>) = vr_ok st"
  "vr_ok (st\<lparr> vr_last_segment_id := i \<rparr>) = vr_ok st"
  "vr_ok (st\<lparr> vr_previous_segment_sha256 := p \<rparr>) = vr_ok st"
  "vr_ok (st\<lparr> vr_scope := sc \<rparr>) = vr_ok st"
  by (simp_all add: vr_ok_def)

lemma vr_ok_start [simp]: "vr_ok verify_start_rt"
  by (simp add: vr_ok_def verify_start_rt_def sha_of_last_def last_or_def)

lemma advance_fields [simp]:
  "vr_records (advance rs st) = vr_records st @ rs"
  "vr_previous_segment_sha256 (advance rs st) = vr_previous_segment_sha256 st"
  "vr_scope (advance rs st) = vr_scope st"
  "vr_last_segment_id (advance rs st) = vr_last_segment_id st"
  "vr_sparse_entries (advance rs st) = vr_sparse_entries st"
  "vr_applied_event_ids (advance rs st) = applied_ids (vr_records st) \<union> applied_ids rs"
  by (simp_all add: advance_def)

lemma advance_Nil: "vr_ok st \<Longrightarrow> advance [] st = st"
  by (simp add: advance_def vr_ok_def)

lemma advance_advance: "advance rs' (advance rs st) = advance (rs @ rs') st"
  by (simp add: advance_def)

lemma vr_ok_advance: "vr_ok (advance rs st) \<longleftrightarrow> numbered (vr_records st @ rs)"
  by (simp add: vr_ok_def advance_def)

lemma sha_of_last_snoc [simp]: "sha_of_last (rs @ [r]) = Some (pr_record_sha256 r)" "sha_of_last [] = None"
  by (simp_all add: sha_of_last_def last_or_def)

lemma seal_record_fields [simp]:
  "record_integrity (seal_record rx r) = record_integrity r"
  "pr_record_sha256 (seal_record rx r) = rx_record_sha256 rx (record_integrity r)"
  "pr_crc32c (seal_record rx r) = rx_record_crc32c rx (record_integrity r)"
  "pr_schema_version (seal_record rx r) = pr_schema_version r"
  "pr_wal_cursor (seal_record rx r) = pr_wal_cursor r"
  "pr_public_sequence (seal_record rx r) = pr_public_sequence r"
  "pr_applied (seal_record rx r) = pr_applied r"
  "pr_fail_closed_reason (seal_record rx r) = pr_fail_closed_reason r"
  "pr_event (seal_record rx r) = pr_event r"
  "pr_previous_record_sha256 (seal_record rx r) = pr_previous_record_sha256 r"
  by (simp_all add: seal_record_def record_integrity_def)

lemma cursor_at_Some: "cursor_at first k = Some c \<longleftrightarrow> unat first + k < 2 ^ 64 \<and> c = of_nat (unat first + k)"
  by (auto simp: cursor_at_def)

text \<open>One decided and sealed record is accepted by the verification.\<close>

lemma verify_decided:
  assumes ok: "vr_ok st" and ev: "evidence_is_valid (rx_event_id rx) (pr_event r)"
    and len: "Suc (length (vr_records st)) < 2 ^ 64"
    and r: "r = seal_record rx r0" "pr_schema_version r = wal_version"
      "pr_wal_cursor r = of_nat (Suc (length (vr_records st)))"
      "pr_previous_record_sha256 r = vr_previous_record_sha256 st"
    and d: "if pr_applied r
        then checked_add1 (vr_expected_public_sequence st) = pr_public_sequence r \<and> pr_public_sequence r \<noteq> None
          \<and> pr_fail_closed_reason r = None \<and> ne_event_id (pr_event r) \<notin> vr_applied_event_ids st
        else pr_public_sequence r = None \<and> pr_fail_closed_reason r = duplicate_reason
          \<and> ne_event_id (pr_event r) \<in> vr_applied_event_ids st"
  shows "verify_record_rt rx r st = Inr (advance [r] st) \<and> vr_ok (advance [r] st)"
proof -
  have shape: "\<not> (pr_schema_version r \<noteq> wal_version
         \<or> pr_wal_cursor r \<noteq> next_cursor (vr_records st)
         \<or> pr_previous_record_sha256 r \<noteq> vr_previous_record_sha256 st
         \<or> pr_record_sha256 r \<noteq> rx_record_sha256 rx (record_integrity r)
         \<or> pr_crc32c r \<noteq> rx_record_crc32c rx (record_integrity r)
         \<or> \<not> evidence_is_valid (rx_event_id rx) (pr_event r))"
    using r ev by (auto simp: next_cursor_def add.commute)
  show ?thesis
  proof (cases "pr_applied r")
    case True
    with d obtain q where q: "pr_public_sequence r = Some q" "checked_add1 (vr_expected_public_sequence st) = Some q"
      by auto
    then have "q = applied_count (vr_records st) + 1" using ok by (auto simp: vr_ok_def)
    with True d q ok shape len r(3) show ?thesis
      by (simp add: verify_record_rt_def advance_def vr_ok_def numbered_snoc del: checked_add1_Some_iff)
  next
    case False
    with d ok shape len r(3) show ?thesis
      by (simp add: verify_record_rt_def advance_def vr_ok_def numbered_snoc)
  qed
qed

lemma decide_build_verifies:
  assumes "vr_ok st"
    and "decide (vr_applied_event_ids st) (vr_expected_public_sequence st) es = Inr ds"
    and "\<forall>e \<in> set es. evidence_is_valid (rx_event_id rx) e"
    and "build_records rx clock first k (vr_previous_record_sha256 st) ds = Inr rs"
    and "unat first + k = Suc (length (vr_records st))"
  shows "verify_records_rt rx rs st = Inr (advance rs st) \<and> vr_ok (advance rs st) \<and> map pr_event rs = es"
  using assms
proof (induction es arbitrary: st ds k rs)
  case Nil
  then show ?case by (simp add: advance_Nil)
next
  case (Cons e es)
  let ?dup = "ne_event_id e \<in> vr_applied_event_ids st"
  obtain d ds' where ds: "ds = d # ds'"
    and pd: "pd_event d = e" "pd_applied d = (\<not> ?dup)"
      "pd_fail_closed_reason d = (if ?dup then duplicate_reason else None)"
      "if ?dup then pd_public_sequence d = None
       else checked_add1 (vr_expected_public_sequence st) = pd_public_sequence d \<and> pd_public_sequence d \<noteq> None"
    and next_ds: "decide (if ?dup then vr_applied_event_ids st else insert (ne_event_id e) (vr_applied_event_ids st))
       (if ?dup then vr_expected_public_sequence st else vr_expected_public_sequence st + 1) es = Inr ds'"
  proof (cases ?dup)
    case True
    with Cons.prems(2) obtain ds' where "decide (vr_applied_event_ids st) (vr_expected_public_sequence st) es = Inr ds'"
      and "ds = \<lparr> pd_event = e, pd_public_sequence = None, pd_applied = False,
             pd_fail_closed_reason = duplicate_reason \<rparr> # ds'"
      by (auto split: sum.splits)
    with True show thesis by (intro that [of _ ds']) auto
  next
    case False
    with Cons.prems(2) obtain ds' where "vr_expected_public_sequence st \<noteq> - 1"
      and "decide (insert (ne_event_id e) (vr_applied_event_ids st)) (vr_expected_public_sequence st + 1) es = Inr ds'"
      and "ds = \<lparr> pd_event = e, pd_public_sequence = Some (vr_expected_public_sequence st + 1), pd_applied = True,
             pd_fail_closed_reason = None \<rparr> # ds'"
      by (auto split: sum.splits option.splits)
    with False show thesis by (intro that [of _ ds']) auto
  qed
  from Cons.prems(4) ds obtain c where c: "cursor_at first k = Some c" by (auto split: if_splits option.splits)
  let ?r0 = "\<lparr> pr_schema_version = wal_version, pr_wal_cursor = c, pr_public_sequence = pd_public_sequence d,
     pr_applied = pd_applied d, pr_fail_closed_reason = pd_fail_closed_reason d, pr_event = pd_event d,
     pr_previous_record_sha256 = vr_previous_record_sha256 st, pr_recorded_at = clock k,
     pr_record_sha256 = [], pr_crc32c = 0 \<rparr>"
  let ?r = "seal_record rx ?r0"
  from Cons.prems(4) ds c obtain rs' where rs: "rs = ?r # rs'"
    and tail: "build_records rx clock first (Suc k) (Some (pr_record_sha256 ?r)) ds' = Inr rs'"
    by (auto simp: Let_def split: if_splits sum.splits)
  have one: "verify_record_rt rx ?r st = Inr (advance [?r] st) \<and> vr_ok (advance [?r] st)"
  proof (rule verify_decided [OF Cons.prems(1)])
    show "evidence_is_valid (rx_event_id rx) (pr_event ?r)" using Cons.prems(3) pd(1) by simp
    show "Suc (length (vr_records st)) < 2 ^ 64" using c Cons.prems(5) by (simp add: cursor_at_Some)
    show "pr_wal_cursor ?r = of_nat (Suc (length (vr_records st)))"
      using c Cons.prems(5) by (simp add: cursor_at_Some del: of_nat_Suc of_nat_add)
  qed (use pd in \<open>auto split: if_splits\<close>)
  have ids: "vr_applied_event_ids (advance [?r] st) =
      (if ?dup then vr_applied_event_ids st else insert (ne_event_id e) (vr_applied_event_ids st))"
    using Cons.prems(1) pd by (simp add: vr_ok_def)
  have exp: "vr_expected_public_sequence (advance [?r] st) =
      (if ?dup then vr_expected_public_sequence st else vr_expected_public_sequence st + 1)"
    using Cons.prems(1) pd by (simp add: vr_ok_def advance_def)
  have prev: "vr_previous_record_sha256 (advance [?r] st) = Some (pr_record_sha256 ?r)"
    by (simp add: advance_def)
  have "verify_records_rt rx rs' (advance [?r] st) = Inr (advance rs' (advance [?r] st))
      \<and> vr_ok (advance rs' (advance [?r] st)) \<and> map pr_event rs' = es"
  proof (rule Cons.IH)
    show "vr_ok (advance [?r] st)" using one by blast
    show "decide (vr_applied_event_ids (advance [?r] st)) (vr_expected_public_sequence (advance [?r] st)) es = Inr ds'"
      using next_ds by (simp only: ids exp)
    show "\<forall>e \<in> set es. evidence_is_valid (rx_event_id rx) e" using Cons.prems(3) by simp
    show "build_records rx clock first (Suc k) (vr_previous_record_sha256 (advance [?r] st)) ds' = Inr rs'"
      using tail by (simp only: prev)
    show "unat first + Suc k = Suc (length (vr_records (advance [?r] st)))" using Cons.prems(5) by simp
  qed
  then show ?case using one pd(1) by (simp add: rs advance_advance)
qed

end
