(* ===== verification/Realtime_Log.thy ===== *)
theory Realtime_Log
  imports Realtime_Chain
begin

text \<open>
  The state of the log writer against the verification of its directory: opening reads exactly what
  an unbroken run of appends would hold in memory, an append that succeeds keeps the two in step,
  and one that fails leaves a directory that verifies to the records before it, or with its batch,
  or not at all.
\<close>

section \<open>Writer and directory in step\<close>

definition log_scope :: "rt_wal \<Rightarrow> string \<times> string" where
  "log_scope w = (rw_stream_id w, rw_config_revision w)"

definition log_state :: "rt_ext \<Rightarrow> rt_wal \<Rightarrow> rt_verify \<Rightarrow> bool" where
  "log_state rx w st =
     (bt_wf (rw_directory w)
      \<and> verify_files_rt rx (Some (log_scope w)) (rw_directory w) verify_start_rt = Inr st
      \<and> vr_ok st
      \<and> rw_stream_id w \<noteq> [] \<and> rw_config_revision w \<noteq> []
      \<and> rw_records w = vr_records st
      \<and> rw_applied_event_ids w = vr_applied_event_ids st
      \<and> rw_sparse_index w = index_of rx (log_scope w) (vr_sparse_entries st)
      \<and> rw_current_segment_id w = vr_last_segment_id st
      \<and> rw_current_path w = map_option fst (bt_last (rw_directory w))
      \<and> rw_current_bytes w = (case bt_last (rw_directory w) of None \<Rightarrow> 0 | Some (path, f) \<Rightarrow> rt_file_bytes f))"

lemma verify_files_rt_append:
  "verify_files_rt rx sc (fs @ gs) st =
     (case verify_files_rt rx sc fs st of Inl err \<Rightarrow> Inl err | Inr st' \<Rightarrow> verify_files_rt rx sc gs st')"
  by (induction fs arbitrary: st) (auto split: sum.splits)

lemma verify_lines_rt_append:
  "verify_lines_rt rx i off (ls @ ls') st =
     (case verify_lines_rt rx i off ls st of Inl err \<Rightarrow> Inl err
      | Inr st' \<Rightarrow> verify_lines_rt rx i (off + sum_list (map (\<lambda>l. ln_bytes l + 1) ls)) ls' st')"
  by (induction ls arbitrary: st off) (auto split: sum.splits rt_text.splits simp: add.assoc)

lemma verify_files_scope:
  "verify_files_rt rx (Some sc) fs st = Inr st' \<Longrightarrow> vr_scope st' = (if fs = [] then vr_scope st else Some sc)"
proof (induction fs arbitrary: st)
  case (Cons f fs)
  have keep: "vr_scope st2 = vr_scope st1" if "verify_lines_rt rx i off ls st1 = Inr st2" for i off ls st1 st2
    using that
  proof (induction ls arbitrary: off st1)
    case (Cons l ls)
    have rec: "vr_scope st2 = vr_scope st1" if "verify_records_rt rx rs st1 = Inr st2" for rs st1 st2
      using that by (induction rs arbitrary: st1)
        (auto simp: verify_record_rt_def Let_def split: if_splits sum.splits option.splits)
    from Cons.prems obtain b st' where "verify_batch_rt rx i off b st1 = Inr st'"
      and "verify_lines_rt rx i (off + ln_bytes l + 1) ls st' = Inr st2"
      by (auto split: if_splits rt_text.splits sum.splits)
    with Cons.IH rec show ?case by (fastforce simp: verify_batch_rt_def split: if_splits)
  qed simp
  from Cons.prems obtain st1 where f: "verify_file_rt rx (Some sc) f st = Inr st1"
    and fs: "verify_files_rt rx (Some sc) fs st1 = Inr st'" by (auto split: sum.splits)
  from f have "vr_scope st1 = Some sc"
    by (auto simp: verify_file_rt_def verify_header_rt_def Let_def dest!: keep
        split: if_splits rt_text.splits sum.splits)
  with Cons.IH [OF fs] show ?case by simp
qed simp

text \<open>The last file of a verified directory, and the state verification had reached before it.\<close>

lemma verified_last:
  assumes "verify_files_rt rx (Some sc) (front @ [(path, f)]) verify_start_rt = Inr st"
  obtains st0 where "verify_files_rt rx (Some sc) front verify_start_rt = Inr st0"
    and "verify_file_rt rx (Some sc) (path, f) st0 = Inr st"
  using assms by (auto simp: verify_files_rt_append split: sum.splits)

lemma verified_file:
  assumes "verify_file_rt rx sc (path, f) st0 = Inr st"
  obtains l ls h st1 st2 where "rf_lines f = l # ls" and "ln_text l = HeaderText h" and "\<not> rf_unterminated f"
    and "verify_header_rt rx sc path h st0 = Inr st1"
    and "verify_lines_rt rx (rh_segment_id h) (ln_bytes l + 1) ls st1 = Inr st2"
    and "st = st2\<lparr> vr_last_segment_id := rh_segment_id h, vr_previous_segment_sha256 := Some (rx_file_sha256 rx f) \<rparr>"
    and "path = rt_segment_filename (rh_segment_id h) (rh_first_wal_cursor h)"
proof -
  from assms obtain l ls where l: "rf_lines f = l # ls" "\<not> rf_unterminated f"
    by (cases "rf_lines f") (auto simp: verify_file_rt_def split: if_splits)
  with assms obtain h where h: "ln_text l = HeaderText h"
    by (auto simp: verify_file_rt_def split: rt_text.splits)
  with assms l obtain st1 where s1: "verify_header_rt rx sc path h st0 = Inr st1"
    by (auto simp: verify_file_rt_def split: sum.splits)
  with assms l h obtain st2 where s2: "verify_lines_rt rx (rh_segment_id h) (ln_bytes l + 1) ls st1 = Inr st2"
    and "st = st2\<lparr> vr_last_segment_id := rh_segment_id h, vr_previous_segment_sha256 := Some (rx_file_sha256 rx f) \<rparr>"
    by (auto simp: verify_file_rt_def split: sum.splits)
  moreover from s1 have "path = rt_segment_filename (rh_segment_id h) (rh_first_wal_cursor h)"
    by (auto simp: verify_header_rt_def split: if_splits)
  ultimately show thesis using that l h s1 by blast
qed

lemma segment_filename_less: "i < j \<Longrightarrow> rt_segment_filename i c < rt_segment_filename j d"
proof -
  assume "i < j"
  then have "unat i < unat j" by (simp add: word_less_nat_alt)
  moreover have "unat j < 10 ^ 20" using unsigned_less [of j, where 'a = nat] by simp
  ultimately show ?thesis unfolding rt_segment_filename_def by (simp only: list_less_same_prefix decimal_digits_less)
qed

section \<open>A new segment\<close>

lemma seal_header_fields [simp]:
  "header_integrity (seal_header rx h) = header_integrity h"
  "rh_schema_version (seal_header rx h) = rh_schema_version h"
  "rh_stream_id (seal_header rx h) = rh_stream_id h"
  "rh_config_revision (seal_header rx h) = rh_config_revision h"
  "rh_segment_id (seal_header rx h) = rh_segment_id h"
  "rh_first_wal_cursor (seal_header rx h) = rh_first_wal_cursor h"
  "rh_previous_segment_sha256 (seal_header rx h) = rh_previous_segment_sha256 h"
  "rh_header_sha256 (seal_header rx h) = rx_header_sha256 rx (header_integrity h)"
  by (simp_all add: seal_header_def header_integrity_def)

lemma log_state_previous:
  assumes "log_state rx w st"
  shows "vr_previous_segment_sha256 st =
    map_option (rx_file_sha256 rx) (Option.bind (rw_current_path w) (bt_get (rw_directory w)))"
proof (cases "rw_directory w" rule: rev_cases)
  case Nil
  with assms show ?thesis by (auto simp: log_state_def verify_start_rt_def)
next
  case (snoc front pf)
  obtain path f where pf: "pf = (path, f)" by (cases pf)
  have last: "bt_last (rw_directory w) = Some (path, f)" by (simp add: snoc pf bt_last_def)
  then have "bt_get (rw_directory w) path = Some f"
    using assms bt_last_in [OF last] by (simp add: log_state_def bt_get_iff)
  moreover from assms snoc pf obtain st0 where "verify_file_rt rx (Some (log_scope w)) (path, f) st0 = Inr st"
    by (auto simp: log_state_def elim!: verified_last)
  then have "vr_previous_segment_sha256 st = Some (rx_file_sha256 rx f)" by (elim verified_file) simp
  ultimately show ?thesis using assms last by (simp add: log_state_def)
qed

lemma log_state_names:
  assumes "log_state rx w st" and "vr_last_segment_id st < i"
  shows "\<forall>k \<in> fst ` set (rw_directory w). k < rt_segment_filename i c"
proof (cases "rw_directory w" rule: rev_cases)
  case (snoc front pf)
  obtain path f where pf: "pf = (path, f)" by (cases pf)
  from assms snoc pf obtain st0 where "verify_file_rt rx (Some (log_scope w)) (path, f) st0 = Inr st"
    by (auto simp: log_state_def elim!: verified_last)
  then obtain d where "path = rt_segment_filename (vr_last_segment_id st) d" by (elim verified_file) simp
  then have "path < rt_segment_filename i c" by (simp add: segment_filename_less assms(2))
  moreover have "k \<le> path" if "k \<in> fst ` set (rw_directory w)" for k
    using bt_last_greatest [of "rw_directory w" path f k] that assms(1)
    by (simp add: log_state_def snoc pf bt_last_def)
  ultimately show ?thesis by fastforce
qed simp

text \<open>Rotation extends the chain; it can only fail when the segment counter is exhausted.\<close>

lemma ensure_segment_ok:
  assumes w: "log_state rx w st" and c: "c = next_cursor (vr_records st)"
    and e: "ensure_segment rx now c n w = (res, w')"
  shows "(res = Some CursorOverflow \<and> w' = w) \<or>
    (res = None \<and> rw_current_path w' \<noteq> None \<and> (\<exists>st'. log_state rx w' st' \<and> vr_records st' = vr_records st)
      \<and> rw_records w' = rw_records w \<and> rw_index_file w' = rw_index_file w
      \<and> rw_sparse_index w' = rw_sparse_index w \<and> rw_sparse_index_healthy w' = rw_sparse_index_healthy w
      \<and> rw_max_segment_bytes w' = rw_max_segment_bytes w \<and> log_scope w' = log_scope w \<and> rw_poisoned w' = rw_poisoned w)"
proof (cases "rw_current_path w \<noteq> None \<and> rw_current_bytes w + n \<le> rw_max_segment_bytes w")
  case True
  with e w show ?thesis by (auto simp: ensure_segment_def)
next
  case fresh: False
  show ?thesis
  proof (cases "checked_add1 (rw_current_segment_id w)")
    case None
    with fresh e show ?thesis by (auto simp: ensure_segment_def)
  next
    case (Some i)
    then have i: "i = vr_last_segment_id st + 1" "vr_last_segment_id st \<noteq> - 1" using w by (auto simp: log_state_def)
    then have less: "vr_last_segment_id st < i" by (simp add: word_less_nat_alt unat_add1)
    let ?path = "rt_segment_filename i c"
    let ?h = "seal_header rx \<lparr> rh_schema_version = wal_segment_version, rh_stream_id = rw_stream_id w,
       rh_config_revision = rw_config_revision w, rh_segment_id = i, rh_first_wal_cursor = c,
       rh_previous_segment_sha256 = map_option (rx_file_sha256 rx) (Option.bind (rw_current_path w) (bt_get (rw_directory w))),
       rh_created_at = now, rh_header_sha256 = [] \<rparr>"
    let ?line = "written_line rx (HeaderText ?h)"
    let ?f = "\<lparr> rf_lines = [?line], rf_unterminated = False \<rparr>"
    let ?dir = "rw_directory w @ [(?path, ?f)]"
    note names = log_state_names [OF w less, of c]
    then have nin: "\<not> bt_contains (rw_directory w) ?path"
      unfolding bt_contains_iff_keys bt_keys_def by (auto simp: image_iff)
    have dir: "bt_insert ?path ?f (rw_directory w) = ?dir" by (rule bt_insert_last [OF names])
    have "ensure_segment rx now c n w = (None, w\<lparr> rw_directory := ?dir, rw_current_path := Some ?path,
        rw_current_bytes := ln_bytes ?line + 1, rw_current_segment_id := i \<rparr>)"
      unfolding ensure_segment_def if_not_P [OF fresh] Some option.case Let_def dir if_not_P [OF nin] by (rule refl)
    then have r: "res = None" and w': "w' = w\<lparr> rw_directory := ?dir, rw_current_path := Some ?path,
        rw_current_bytes := ln_bytes ?line + 1, rw_current_segment_id := i \<rparr>"
      using e by simp_all
    let ?st = "st\<lparr> vr_scope := Some (log_scope w), vr_last_segment_id := i,
       vr_previous_segment_sha256 := Some (rx_file_sha256 rx ?f) \<rparr>"
    have scope: "vr_scope st \<in> {None, Some (log_scope w)}"
      using w verify_files_scope [of rx "log_scope w" "rw_directory w" verify_start_rt st]
      by (auto simp: log_state_def verify_start_rt_def split: if_splits)
    have head: "verify_header_rt rx (Some (log_scope w)) ?path ?h st = Inr (st\<lparr> vr_scope := Some (log_scope w) \<rparr>)"
      using scope i c by (auto simp: verify_header_rt_def saturating_add1_def log_state_previous [OF w] log_scope_def)
    have "verify_files_rt rx (Some (log_scope w)) ?dir verify_start_rt = Inr ?st"
      using w head by (simp add: log_state_def verify_files_rt_append verify_file_rt_def written_line_def)
    moreover have "bt_wf (bt_insert ?path ?f (rw_directory w))" using w by (simp add: log_state_def)
    then have "bt_wf ?dir" unfolding dir .
    moreover have "log_scope w' = log_scope w" by (simp add: w' log_scope_def)
    ultimately have "log_state rx w' ?st"
      using w by (simp add: log_state_def w' bt_last_def rt_file_bytes_def)
    moreover have "vr_records ?st = vr_records st" by simp
    ultimately show ?thesis using r by (auto simp: w' log_scope_def)
  qed
qed

section \<open>One more batch\<close>

text \<open>What the code relies on in \<open>serde_json\<close>: a serialised batch is not empty.\<close>

definition text_nonempty :: "rt_ext \<Rightarrow> bool" where
  "text_nonempty rx \<longleftrightarrow> (\<forall>b. 0 < rx_text_len rx (BatchText b))"

lemma seal_batch_fields [simp]:
  "batch_integrity (seal_batch rx b) = batch_integrity b"
  "rb_schema_version (seal_batch rx b) = rb_schema_version b"
  "rb_first_wal_cursor (seal_batch rx b) = rb_first_wal_cursor b"
  "rb_last_wal_cursor (seal_batch rx b) = rb_last_wal_cursor b"
  "rb_records (seal_batch rx b) = rb_records b"
  "rb_batch_sha256 (seal_batch rx b) = rx_batch_sha256 rx (batch_integrity b)"
  "rb_crc32c (seal_batch rx b) = rx_batch_crc32c rx (batch_integrity b)"
  by (simp_all add: seal_batch_def batch_integrity_def)

definition batch_of :: "rt_ext \<Rightarrow> u64 \<Rightarrow> persisted_rt list \<Rightarrow> rt_batch" where
  "batch_of rx first rs = seal_batch rx \<lparr> rb_schema_version = wal_batch_version, rb_first_wal_cursor = first,
     rb_last_wal_cursor = pr_wal_cursor (last rs), rb_records = rs, rb_batch_sha256 = [], rb_crc32c = 0 \<rparr>"

text \<open>The index entries after a batch of the records \<open>rs\<close> at the given place.\<close>

definition next_entries :: "u64 \<Rightarrow> nat \<Rightarrow> persisted_rt list \<Rightarrow> rt_verify \<Rightarrow> sparse_entry list" where
  "next_entries i off rs st = index_entry i off (next_cursor (vr_records st)) (pr_wal_cursor (last rs))
     (sha_of_last (vr_records st)) (vr_sparse_entries st)"

text \<open>The loop over records reads and writes only its own variables.\<close>

lemma verify_record_frame:
  "verify_record_rt rx r (st\<lparr> vr_sparse_entries := es, vr_last_segment_id := a, vr_previous_segment_sha256 := b \<rparr>) =
     map_sum id (\<lambda>s. s\<lparr> vr_sparse_entries := es, vr_last_segment_id := a, vr_previous_segment_sha256 := b \<rparr>)
       (verify_record_rt rx r st)"
  by (cases "checked_add1 (vr_expected_public_sequence st)")
    (simp_all add: verify_record_rt_def if_distrib [of "map_sum id _"] del: checked_add1_Some_iff)

lemma verify_records_frame:
  "verify_records_rt rx rs (st\<lparr> vr_sparse_entries := es, vr_last_segment_id := a, vr_previous_segment_sha256 := b \<rparr>) =
     map_sum id (\<lambda>s. s\<lparr> vr_sparse_entries := es, vr_last_segment_id := a, vr_previous_segment_sha256 := b \<rparr>)
       (verify_records_rt rx rs st)"
  by (induction rs arbitrary: st) (auto simp: verify_record_frame split: sum.split)

lemma verify_records_other:
  assumes "verify_records_rt rx rs st = Inr (advance rs st)"
    and "st' = st\<lparr> vr_sparse_entries := es, vr_last_segment_id := a, vr_previous_segment_sha256 := b \<rparr>"
  shows "verify_records_rt rx rs st' = Inr (advance rs st')"
  using assms(1) unfolding assms(2) verify_records_frame by (simp add: advance_def)

lemma verify_own_batch_rt:
  assumes ok: "vr_ok st" and rs: "rs \<noteq> []" "verify_records_rt rx rs st = Inr (advance rs st)" "numbered (vr_records st @ rs)"
  shows "verify_batch_rt rx i off (batch_of rx (next_cursor (vr_records st)) rs) st =
    Inr (advance rs (st\<lparr> vr_sparse_entries := next_entries i off rs st \<rparr>))"
proof -
  have "pr_wal_cursor ((vr_records st @ rs) ! length (vr_records st)) = of_nat (Suc (length (vr_records st)))"
    using rs(1,3) unfolding numbered_def by (metis (no_types, lifting) length_append length_greater_0_conv less_add_same_cancel1)
  then have hd: "pr_wal_cursor (hd rs) = next_cursor (vr_records st)"
    using rs(1) by (simp add: nth_append hd_conv_nth next_cursor_def add.commute)
  have prev: "vr_previous_record_sha256 st = sha_of_last (vr_records st)" using ok by (simp add: vr_ok_def)
  have rec: "verify_records_rt rx rs (st\<lparr> vr_sparse_entries := es \<rparr>) = Inr (advance rs (st\<lparr> vr_sparse_entries := es \<rparr>))"
    for es by (rule verify_records_other [OF rs(2), where es = es and a = "vr_last_segment_id st" and
        b = "vr_previous_segment_sha256 st"]) simp
  show ?thesis
    using rs(1) hd by (simp add: verify_batch_rt_def batch_of_def rec next_entries_def prev)
qed

lemma map_value_last:
  assumes "bt_wf m" and "bt_last m = Some (k, v)"
  shows "bt_map_value g k m = butlast m @ [(k, g v)]"
proof (cases m rule: rev_cases)
  case (snoc m' kv)
  with assms(2) have "m = m' @ [(k, v)]" by (simp add: bt_last_def)
  with assms(1) show ?thesis by (simp add: bt_map_value_last)
qed (use assms(2) in simp)

lemma extend_log:
  assumes w: "log_state rx w st" and path: "rw_current_path w = Some path" and len: "text_nonempty rx"
    and rs: "rs \<noteq> []" "verify_records_rt rx rs st = Inr (advance rs st)" "numbered (vr_records st @ rs)"
    and w': "rw_directory w' = bt_map_value (\<lambda>f. f\<lparr> rf_lines := rf_lines f @
        [written_line rx (BatchText (batch_of rx (next_cursor (vr_records st)) rs))] \<rparr>) path (rw_directory w)"
      "log_scope w' = log_scope w" "rw_current_path w' = rw_current_path w"
      "rw_current_segment_id w' = rw_current_segment_id w"
      "rw_current_bytes w' = rw_current_bytes w + rx_text_len rx (BatchText (batch_of rx (next_cursor (vr_records st)) rs)) + 1"
      "rw_records w' = rw_records w @ rs"
      "rw_applied_event_ids w' = rw_applied_event_ids w \<union> applied_ids rs"
      "rw_sparse_index w' = index_of rx (log_scope w)
         (next_entries (rw_current_segment_id w) (rw_current_bytes w) rs st)"
  shows "\<exists>st'. log_state rx w' st' \<and> vr_records st' = vr_records st @ rs
    \<and> vr_sparse_entries st' = next_entries (rw_current_segment_id w) (rw_current_bytes w) rs st"
proof -
  let ?b = "batch_of rx (next_cursor (vr_records st)) rs" and ?i = "rw_current_segment_id w" and ?off = "rw_current_bytes w"
  let ?line = "written_line rx (BatchText ?b)"
  have wf: "bt_wf (rw_directory w)" using w by (simp add: log_state_def)
  have "map_option fst (bt_last (rw_directory w)) = Some path" using w path by (simp add: log_state_def)
  then obtain f where last: "bt_last (rw_directory w) = Some (path, f)" by auto
  then have dir: "rw_directory w = butlast (rw_directory w) @ [(path, f)]"
    by (cases "rw_directory w" rule: rev_cases) (simp_all add: bt_last_def)
  let ?f = "f\<lparr> rf_lines := rf_lines f @ [?line] \<rparr>"
  have dir': "rw_directory w' = butlast (rw_directory w) @ [(path, ?f)]"
    unfolding w'(1) by (rule map_value_last [OF wf last])
  have wf': "bt_wf (rw_directory w')" unfolding w'(1) using wf by simp
  have "verify_files_rt rx (Some (log_scope w)) (butlast (rw_directory w) @ [(path, f)]) verify_start_rt = Inr st"
    using w dir by (simp add: log_state_def)
  then obtain st0 where st0: "verify_files_rt rx (Some (log_scope w)) (butlast (rw_directory w)) verify_start_rt = Inr st0"
    and vf: "verify_file_rt rx (Some (log_scope w)) (path, f) st0 = Inr st" by (rule verified_last)
  from vf obtain l ls h st1 st2 where f: "rf_lines f = l # ls" "ln_text l = HeaderText h" "\<not> rf_unterminated f"
    and h: "verify_header_rt rx (Some (log_scope w)) path h st0 = Inr st1"
    and lines: "verify_lines_rt rx (rh_segment_id h) (ln_bytes l + 1) ls st1 = Inr st2"
    and st: "st = st2\<lparr> vr_last_segment_id := rh_segment_id h, vr_previous_segment_sha256 := Some (rx_file_sha256 rx f) \<rparr>"
    by (rule verified_file)
  have i: "rh_segment_id h = ?i" using w st by (simp add: log_state_def)
  have off: "ln_bytes l + 1 + sum_list (map (\<lambda>l. ln_bytes l + 1) ls) = ?off"
    using w last f(1) by (simp add: log_state_def rt_file_bytes_def)
  have ok2: "vr_ok st2" using w unfolding st by (simp add: log_state_def)
  have rec2: "verify_records_rt rx rs st2 = Inr (advance rs st2)"
    by (rule verify_records_other [OF rs(2), where es = "vr_sparse_entries st2" and a = "vr_last_segment_id st2" and
          b = "vr_previous_segment_sha256 st2"]) (simp add: st)
  have same: "vr_records st2 = vr_records st" "vr_sparse_entries st2 = vr_sparse_entries st" unfolding st by simp_all
  have ne: "next_entries ?i ?off rs st2 = next_entries ?i ?off rs st" by (simp add: next_entries_def same)
  let ?st2 = "advance rs (st2\<lparr> vr_sparse_entries := next_entries ?i ?off rs st \<rparr>)"
  have "verify_batch_rt rx ?i ?off ?b st2 = Inr ?st2"
    using verify_own_batch_rt [OF ok2 rs(1) rec2] rs(3) by (simp add: same ne)
  moreover have "verify_lines_rt rx (rh_segment_id h) (ln_bytes l + 1) (ls @ [?line]) st1 =
      verify_lines_rt rx ?i ?off [?line] st2"
    using lines off by (simp add: verify_lines_rt_append i)
  ultimately have lines': "verify_lines_rt rx (rh_segment_id h) (ln_bytes l + 1) (ls @ [?line]) st1 = Inr ?st2"
    using len by (simp add: written_line_def text_nonempty_def)
  let ?st = "?st2\<lparr> vr_last_segment_id := ?i, vr_previous_segment_sha256 := Some (rx_file_sha256 rx ?f) \<rparr>"
  have "verify_file_rt rx (Some (log_scope w)) (path, ?f) st0 = Inr ?st"
    using f h lines' by (simp add: verify_file_rt_def i)
  then have "verify_files_rt rx (Some (log_scope w')) (rw_directory w') verify_start_rt = Inr ?st"
    by (simp add: w'(2) dir' verify_files_rt_append st0)
  moreover have "vr_ok ?st" using rs(3) by (simp add: vr_ok_advance same)
  moreover have "rt_file_bytes ?f = rt_file_bytes f + rx_text_len rx (BatchText ?b) + 1"
    by (simp add: rt_file_bytes_def written_line_def)
  moreover have "bt_last (rw_directory w') = Some (path, ?f)" by (simp add: dir' bt_last_def)
  moreover have "vr_applied_event_ids st = applied_ids (vr_records st)" using w by (simp add: log_state_def vr_ok_def)
  ultimately have "log_state rx w' ?st"
    using w wf' last w'(2-) same by (simp add: log_state_def log_scope_def)
  then show ?thesis using same by (intro exI [of _ ?st]) simp
qed

end
