(* ===== verification/Realtime_Append.thy ===== *)
theory Realtime_Append
  imports Realtime_Log
begin

text \<open>
  Every outcome of an append: success, which extends the log by the decided records; a cursor
  overflow before anything is written; and a failure that poisons the writer and leaves a directory
  that verifies to the old records, to the old records with the new batch, or that is torn.
\<close>

text \<open>What a directory holds for a reader that opens it with the writer's scope.\<close>

definition disk_holds :: "rt_ext \<Rightarrow> rt_wal \<Rightarrow> persisted_rt list \<Rightarrow> sparse_entry list \<Rightarrow> bool" where
  "disk_holds rx w rs es \<longleftrightarrow>
     (\<exists>st. bt_wf (rw_directory w)
       \<and> verify_files_rt rx (Some (log_scope w)) (rw_directory w) verify_start_rt = Inr st
       \<and> vr_ok st \<and> vr_records st = rs \<and> vr_sparse_entries st = es)"

definition disk_torn :: "rt_ext \<Rightarrow> rt_wal \<Rightarrow> bool" where
  "disk_torn rx w \<longleftrightarrow>
     verify_files_rt rx (Some (log_scope w)) (rw_directory w) verify_start_rt = Inl CorruptRtWal"

lemma disk_holds_cong [simp]:
  "disk_holds rx (w\<lparr> rw_poisoned := p \<rparr>) rs es = disk_holds rx w rs es"
  "disk_torn rx (w\<lparr> rw_poisoned := p \<rparr>) = disk_torn rx w"
  by (simp_all add: disk_holds_def disk_torn_def log_scope_def)

lemma log_state_holds: "log_state rx w st \<Longrightarrow> disk_holds rx w (vr_records st) (vr_sparse_entries st)"
  by (auto simp: log_state_def disk_holds_def)

lemma log_state_poisoned [simp]: "log_state rx (w\<lparr> rw_poisoned := p \<rparr>) st = log_state rx w st"
  by (simp add: log_state_def log_scope_def)

section \<open>The decided records\<close>

lemma decide_valid: "decide seen q es = Inr ds \<Longrightarrow> list_all (\<lambda>d. \<not> decision_invalid d) ds"
  by (induction seen q es arbitrary: ds rule: decide.induct)
    (auto simp: decision_invalid_def split: if_splits sum.splits option.splits)

lemma decide_length: "decide seen q es = Inr ds \<Longrightarrow> length ds = length es"
  by (induction seen q es arbitrary: ds rule: decide.induct) (auto split: if_splits sum.splits option.splits)

lemma decide_error: "decide seen q es = Inl err \<Longrightarrow> err = CursorOverflow"
  by (induction seen q es rule: decide.induct) (auto split: if_splits sum.splits option.splits)

lemma build_error:
  "build_records rx clock first k prev ds = Inl err \<Longrightarrow> list_all (\<lambda>d. \<not> decision_invalid d) ds \<Longrightarrow> err = CursorOverflow"
  by (induction rx clock first k prev ds rule: build_records.induct)
    (auto simp: Let_def split: if_splits sum.splits option.splits)

lemma build_length: "build_records rx clock first k prev ds = Inr rs \<Longrightarrow> length rs = length ds"
  by (induction rx clock first k prev ds arbitrary: rs rule: build_records.induct)
    (auto simp: Let_def split: if_splits sum.splits option.splits)

section \<open>Writing the batch\<close>

lemma torn_last:
  assumes "log_state rx w st" and "rw_current_path w = Some path"
  shows "disk_torn rx (w\<lparr> rw_directory := bt_map_value (put_line Torn line) path (rw_directory w) \<rparr>)"
proof -
  have wf: "bt_wf (rw_directory w)" using assms by (simp add: log_state_def)
  have "map_option fst (bt_last (rw_directory w)) = Some path" using assms by (simp add: log_state_def)
  then obtain f where last: "bt_last (rw_directory w) = Some (path, f)" by auto
  then have dir: "rw_directory w = butlast (rw_directory w) @ [(path, f)]"
    by (cases "rw_directory w" rule: rev_cases) (simp_all add: bt_last_def)
  have "verify_files_rt rx (Some (log_scope w)) (butlast (rw_directory w) @ [(path, f)]) verify_start_rt = Inr st"
    using assms(1) dir by (simp add: log_state_def)
  then obtain st0 where "verify_files_rt rx (Some (log_scope w)) (butlast (rw_directory w)) verify_start_rt = Inr st0"
    by (rule verified_last)
  then show ?thesis
    by (simp add: disk_torn_def log_scope_def map_value_last [OF wf last] verify_files_rt_append verify_file_rt_def put_line_def)
qed

lemma put_line_simps [simp]:
  "put_line Unwritten l = (\<lambda>f. f)"
  "put_line Written l = (\<lambda>f. f\<lparr> rf_lines := rf_lines f @ [l] \<rparr>)"
  "put_line Unsynced l = (\<lambda>f. f\<lparr> rf_lines := rf_lines f @ [l] \<rparr>)"
  by (simp_all add: put_line_def fun_eq_iff)

lemma bt_map_value_ident [simp]: "bt_map_value (\<lambda>x. x) k m = m"
  by (auto simp: bt_map_value_def intro!: map_idI)

lemma index_of_simps [simp]:
  "si_entries (index_of rx sc es) = es"
  "si_stream_id (index_of rx sc es) = fst sc"
  "si_config_revision (index_of rx sc es) = snd sc"
  by (simp_all add: index_of_def seal_sparse_index_def)

lemma index_of_update: "seal_sparse_index rx ((index_of rx sc es)\<lparr> si_entries := es' \<rparr>) = index_of rx sc es'"
  by (simp add: index_of_def seal_sparse_index_def index_integrity_def)

text \<open>The entries a successful write of \<open>rs\<close> leaves: the old ones, or one more that starts after them.\<close>

definition entries_extend :: "rt_verify \<Rightarrow> persisted_rt list \<Rightarrow> sparse_entry list \<Rightarrow> bool" where
  "entries_extend st rs es \<longleftrightarrow>
     (es = vr_sparse_entries st
      \<or> (\<exists>e. es = vr_sparse_entries st @ [e] \<and> sc_first_wal_cursor e = next_cursor (vr_records st)
            \<and> sc_last_wal_cursor e = pr_wal_cursor (last rs))) \<and> es \<noteq> []"

lemma next_entries_extend: "entries_extend st rs (next_entries i off rs st)"
  by (auto simp: entries_extend_def next_entries_def index_entry_def should_index_batch_def)

lemma entries_extend_other:
  "entries_extend st rs es \<Longrightarrow> vr_sparse_entries st = vr_sparse_entries st' \<Longrightarrow> vr_records st = vr_records st'
   \<Longrightarrow> entries_extend st' rs es"
  by (simp add: entries_extend_def)

lemma write_batch_outcome:
  assumes w: "log_state rx w st" and len: "text_nonempty rx" and c: "first = next_cursor (vr_records st)"
    and rs: "rs \<noteq> []" "numbered (vr_records st @ rs)"
      "\<And>st1. vr_ok st1 \<Longrightarrow> vr_records st1 = vr_records st \<Longrightarrow> verify_records_rt rx rs st1 = Inr (advance rs st1)"
    and wb: "write_batch rx now disk idx (batch_of rx first rs) (sha_of_last (vr_records st)) w = (res, w')"
    and w2: "w2 = w'\<lparr> rw_current_bytes := rw_current_bytes w' + rx_text_len rx (BatchText (batch_of rx first rs)) + 1,
      rw_applied_event_ids := rw_applied_event_ids w' \<union> applied_ids rs, rw_records := rw_records w' @ rs \<rparr>"
  shows "log_scope w' = log_scope w \<and> rw_records w' = rw_records w \<and> rw_poisoned w' = rw_poisoned w
    \<and> rw_max_segment_bytes w' = rw_max_segment_bytes w
    \<and> (case res of
        None \<Rightarrow> disk = Written \<and> (\<exists>st'. log_state rx w2 st' \<and> vr_records st' = vr_records st @ rs
            \<and> entries_extend st rs (vr_sparse_entries st'))
      | Some err \<Rightarrow> err = CursorOverflow \<and> w' = w
          \<or> err = DuIo \<and> disk = Unwritten \<and> disk_holds rx w' (vr_records st) (vr_sparse_entries st)
          \<or> err = DuIo \<and> disk = Torn \<and> disk_torn rx w'
          \<or> err = DuIo \<and> disk = Unsynced \<and> (\<exists>es. disk_holds rx w' (vr_records st @ rs) es \<and> entries_extend st rs es))"
proof -
  let ?b = "batch_of rx first rs"
  let ?line = "written_line rx (BatchText ?b)"
  obtain r1 w1 where es: "ensure_segment rx now first (ln_bytes ?line + 1) w = (r1, w1)"
    by (cases "ensure_segment rx now first (ln_bytes ?line + 1) w")
  have fst_b: "rb_first_wal_cursor ?b = first" by (simp add: batch_of_def)
  have lst_b: "rb_last_wal_cursor ?b = pr_wal_cursor (last rs)" by (simp add: batch_of_def)
  from ensure_segment_ok [OF w c es] show ?thesis
  proof (elim disjE conjE exE)
    assume "r1 = Some CursorOverflow" "w1 = w"
    with wb es show ?thesis by (auto simp: write_batch_def fst_b Let_def)
  next
    fix st1
    assume r1: "r1 = None" and p: "rw_current_path w1 \<noteq> None" and s1: "log_state rx w1 st1"
      and rec: "vr_records st1 = vr_records st"
      and same: "rw_records w1 = rw_records w" "rw_index_file w1 = rw_index_file w" "rw_sparse_index w1 = rw_sparse_index w"
        "rw_sparse_index_healthy w1 = rw_sparse_index_healthy w" "rw_max_segment_bytes w1 = rw_max_segment_bytes w"
        "log_scope w1 = log_scope w" "rw_poisoned w1 = rw_poisoned w"
    from p obtain path where path: "rw_current_path w1 = Some path" by auto
    have ent: "vr_sparse_entries st1 = vr_sparse_entries st"
      using same(3,6) s1 w by (metis log_state_def index_of_simps(1))
    have ok1: "vr_ok st1" using s1 by (simp add: log_state_def)
    have v1: "verify_records_rt rx rs st1 = Inr (advance rs st1)" by (rule rs(3) [OF ok1 rec])
    have n1: "numbered (vr_records st1 @ rs)" using rs(2) rec by simp
    let ?i = "rw_current_segment_id w1" and ?off = "rw_current_bytes w1"
    let ?es = "next_entries ?i ?off rs st1"
    let ?w2 = "w1\<lparr> rw_directory := bt_map_value (put_line disk ?line) path (rw_directory w1) \<rparr>"
    have extended: "\<exists>st'. log_state rx v st' \<and> vr_records st' = vr_records st @ rs \<and> entries_extend st rs (vr_sparse_entries st')"
      if "rw_directory v = bt_map_value (put_line Written ?line) path (rw_directory w1)" "log_scope v = log_scope w1"
        "rw_current_path v = rw_current_path w1" "rw_current_segment_id v = ?i"
        "rw_current_bytes v = ?off + rx_text_len rx (BatchText ?b) + 1" "rw_records v = rw_records w1 @ rs"
        "rw_applied_event_ids v = rw_applied_event_ids w1 \<union> applied_ids rs"
        "rw_sparse_index v = index_of rx (log_scope w1) ?es" for v
    proof -
      have "\<exists>st'. log_state rx v st' \<and> vr_records st' = vr_records st1 @ rs \<and> vr_sparse_entries st' = ?es"
        by (rule extend_log [OF s1 path len rs(1) v1 n1]) (use that c rec in simp_all)
      then show ?thesis
        using entries_extend_other [OF next_entries_extend ent rec] rec by metis
    qed
    show ?thesis
    proof (cases "disk = Written")
      case False
      then have r: "res = Some DuIo" and w': "w' = ?w2"
        using wb es r1 path by (simp_all add: write_batch_def fst_b Let_def)
      have keep: "log_scope w' = log_scope w" "rw_records w' = rw_records w" "rw_poisoned w' = rw_poisoned w"
        "rw_max_segment_bytes w' = rw_max_segment_bytes w"
        using same by (simp_all add: w' log_scope_def)
      consider "disk = Unwritten" | "disk = Torn" | "disk = Unsynced" using False by (cases disk) auto
      then show ?thesis
      proof cases
        case 1
        then have "w' = w1" by (simp add: w')
        with log_state_holds [OF s1] rec ent 1 r keep show ?thesis by simp
      next
        case 2
        with torn_last [OF s1 path] r keep show ?thesis by (simp add: w')
      next
        case 3
        let ?v = "w1\<lparr> rw_directory := bt_map_value (put_line Written ?line) path (rw_directory w1),
          rw_current_bytes := ?off + rx_text_len rx (BatchText ?b) + 1, rw_records := rw_records w1 @ rs,
          rw_applied_event_ids := rw_applied_event_ids w1 \<union> applied_ids rs,
          rw_sparse_index := index_of rx (log_scope w1) ?es \<rparr>"
        obtain st' where "log_state rx ?v st'" "vr_records st' = vr_records st @ rs"
          "entries_extend st rs (vr_sparse_entries st')"
          using extended [of ?v] by (auto simp: log_scope_def)
        moreover from this(1) have "disk_holds rx w' (vr_records st') (vr_sparse_entries st')"
          using 3 by (auto simp: log_state_def disk_holds_def w' log_scope_def)
        ultimately show ?thesis using 3 r keep by auto
      qed
    next
      case True
      have ix: "rw_sparse_index w1 = index_of rx (log_scope w1) (vr_sparse_entries st1)"
        using s1 by (simp add: log_state_def)
      let ?changed = "should_index_batch (vr_sparse_entries st1) ?i first (pr_wal_cursor (last rs))"
      have es1: "index_entry ?i ?off first (pr_wal_cursor (last rs)) (sha_of_last (vr_records st)) (vr_sparse_entries st1) = ?es"
        by (simp add: next_entries_def c rec)
      have same_es: "\<not> ?changed \<Longrightarrow> ?es = vr_sparse_entries st1"
        by (simp add: next_entries_def index_entry_def c rec)
      obtain h ixf where hx: "(if ?changed \<or> \<not> rw_sparse_index_healthy w1
            then write_sparse_index rx idx (index_of rx (log_scope w1) ?es) (rw_index_file w1)
            else (rw_sparse_index_healthy w1, rw_index_file w1)) = (h, ixf)" by fastforce
      have "write_batch rx now disk idx ?b (sha_of_last (vr_records st)) w =
          (None, ?w2\<lparr> rw_sparse_index := index_of rx (log_scope w1) ?es, rw_sparse_index_healthy := h, rw_index_file := ixf \<rparr>)"
      proof (cases ?changed)
        case ch: True
        then show ?thesis
          using hx True es r1 path
          by (simp add: write_batch_def fst_b lst_b Let_def ix index_of_update es1)
      next
        case nch: False
        then show ?thesis
          using hx True es r1 path same_es [OF nch]
          by (simp add: write_batch_def fst_b lst_b Let_def ix split: if_splits)
      qed
      with wb have r: "res = None" and w': "w' = ?w2\<lparr> rw_sparse_index := index_of rx (log_scope w1) ?es,
          rw_sparse_index_healthy := h, rw_index_file := ixf \<rparr>" by simp_all
      have "\<exists>st'. log_state rx w2 st' \<and> vr_records st' = vr_records st @ rs \<and> entries_extend st rs (vr_sparse_entries st')"
        by (rule extended) (simp_all add: w2 w' True log_scope_def)
      then show ?thesis using r True same by (simp add: w' log_scope_def)
    qed
  qed
qed

section \<open>Appending decisions\<close>

lemma numbered_next: "numbered rs \<Longrightarrow> checked_add1 (wal_cursor_of rs) = Some first \<Longrightarrow>
  first = next_cursor rs \<and> unat first = Suc (length rs)"
  using checked_add1_unat [of "wal_cursor_of rs" first]
  by (auto simp: numbered_wal_cursor next_cursor_def numbered_def unat_of_nat_u64)

text \<open>The outcomes of one append of the decisions on \<open>es\<close>.\<close>

definition append_result ::
  "rt_ext \<Rightarrow> rt_wal \<Rightarrow> rt_verify \<Rightarrow> provider_event list \<Rightarrow> disk_outcome \<Rightarrow> durability_error + persisted_rt list \<Rightarrow> rt_wal \<Rightarrow> bool" where
  "append_result rx w st es disk res w' \<longleftrightarrow>
     log_scope w' = log_scope w \<and> rw_max_segment_bytes w' = rw_max_segment_bytes w \<and>
     (case res of
        Inr rs \<Rightarrow> disk = Written \<and> map pr_event rs = es \<and> \<not> rw_poisoned w'
          \<and> (\<exists>st'. log_state rx w' st' \<and> vr_records st' = vr_records st @ rs \<and> entries_extend st rs (vr_sparse_entries st'))
      | Inl err \<Rightarrow> rw_records w' = rw_records w \<and>
          (err = CursorOverflow \<and> w' = w
           \<or> rw_poisoned w' \<and> err = CursorOverflow \<and> w' = w\<lparr> rw_poisoned := True \<rparr>
           \<or> rw_poisoned w' \<and> err = DuIo \<and> disk = Unwritten \<and> disk_holds rx w' (vr_records st) (vr_sparse_entries st)
           \<or> rw_poisoned w' \<and> err = DuIo \<and> disk = Torn \<and> disk_torn rx w'
           \<or> rw_poisoned w' \<and> err = DuIo \<and> disk = Unsynced
             \<and> (\<exists>rs ix. map pr_event rs = es \<and> rs \<noteq> [] \<and> disk_holds rx w' (vr_records st @ rs) ix \<and> entries_extend st rs ix)))"

lemma append_outcome:
  assumes w: "log_state rx w st" "\<not> rw_poisoned w" and len: "text_nonempty rx"
    and es: "es \<noteq> []" "\<forall>e \<in> set es. evidence_is_valid (rx_event_id rx) e"
    and ds: "decide (vr_applied_event_ids st) (vr_expected_public_sequence st) es = Inr ds"
    and ap: "append_decisions rx clock disk idx ds w = (res, w')"
  shows "append_result rx w st es disk res w'"
proof -
  have ne: "ds \<noteq> []" using decide_length [OF ds] es(1) by auto
  have n: "numbered (vr_records st)" "vr_ok st" using w by (simp_all add: log_state_def vr_ok_def)
  have rec: "rw_records w = vr_records st" using w(1) by (simp add: log_state_def)
  have cur: "rt_wal_cursor w = wal_cursor_of (vr_records st)" by (simp add: rt_wal_cursor_def rec)
  show ?thesis
  proof (cases "checked_add1 (rt_wal_cursor w)")
    case None
    with ap w(2) ne have "res = Inl CursorOverflow" "w' = w" by (simp_all add: append_decisions_def)
    then show ?thesis by (simp add: append_result_def)
  next
    case (Some first)
    then have first: "first = next_cursor (vr_records st)" "unat first = Suc (length (vr_records st))"
      using numbered_next [OF n(1)] by (simp_all only: cur)
    show ?thesis
    proof (cases "build_records rx clock first 0 (sha_of_last (vr_records st)) ds")
      case (Inl err)
      with build_error [OF Inl decide_valid [OF ds]] ap w(2) ne Some have "res = Inl CursorOverflow" "w' = w"
        by (simp_all add: append_decisions_def Let_def rec del: checked_add1_Some_iff)
      then show ?thesis by (simp add: append_result_def)
    next
      case (Inr rs)
      have built: "verify_records_rt rx rs st1 = Inr (advance rs st1) \<and> vr_ok (advance rs st1) \<and> map pr_event rs = es"
        if "vr_ok st1" "vr_records st1 = vr_records st" for st1
      proof (rule decide_build_verifies)
        show "decide (vr_applied_event_ids st1) (vr_expected_public_sequence st1) es = Inr ds"
          using ds that n(2) by (simp add: vr_ok_def)
        show "build_records rx clock first 0 (vr_previous_record_sha256 st1) ds = Inr rs"
          using Inr that by (simp add: vr_ok_def)
      qed (use that es first in simp_all)
      from built [OF n(2)] have evs: "map pr_event rs = es" and num: "numbered (vr_records st @ rs)"
        by (simp_all add: vr_ok_advance)
      have rs: "rs \<noteq> []" using evs es(1) by auto
      obtain r1 w1 where wb: "write_batch rx (clock (length ds)) disk idx (batch_of rx first rs)
          (sha_of_last (vr_records st)) w = (r1, w1)" by fastforce
      note out = write_batch_outcome [OF w(1) len first(1) rs num _ wb refl]
      have vrec: "verify_records_rt rx rs st1 = Inr (advance rs st1)" if "vr_ok st1" "vr_records st1 = vr_records st" for st1
        using built [OF that] by blast
      show ?thesis
      proof (cases r1)
        case None
        then have res: "res = Inr rs" and weq: "w' = w1\<lparr> rw_current_bytes := rw_current_bytes w1 + rx_text_len rx (BatchText (batch_of rx first rs)) + 1,
            rw_applied_event_ids := rw_applied_event_ids w1 \<union> applied_ids rs, rw_records := rw_records w1 @ rs \<rparr>"
          using ap w(2) ne Some Inr wb
          by (simp_all add: append_decisions_def Let_def rec batch_of_def del: checked_add1_Some_iff)
        have "log_scope w' = log_scope w1" "rw_poisoned w' = rw_poisoned w1"
          "rw_max_segment_bytes w' = rw_max_segment_bytes w1" by (simp_all add: weq log_scope_def)
        with out [OF vrec, folded weq] None evs w(2) res show ?thesis by (simp add: append_result_def)
      next
        case (Some err)
        then have "res = Inl err" "w' = w1\<lparr> rw_poisoned := True \<rparr>"
          using ap w(2) ne \<open>checked_add1 (rt_wal_cursor w) = Some first\<close> Inr wb
          by (simp_all add: append_decisions_def Let_def rec batch_of_def del: checked_add1_Some_iff)
        with out [OF vrec] Some evs rs show ?thesis by (auto simp: append_result_def log_scope_def)
      qed
    qed
  qed
qed

section \<open>Opening\<close>

lemma verified_wal_open:
  assumes "disk_holds rx w rs es" and "log_scope w = (s, r)"
    and cfg: "validate_config root s r limit = None"
  shows "\<exists>w' st. rt_wal_open rx ok (rw_directory w) ixf root s r limit = Inr w' \<and> log_state rx w' st
    \<and> vr_records st = rs \<and> vr_sparse_entries st = es \<and> log_scope w' = (s, r) \<and> \<not> rw_poisoned w'
    \<and> rw_directory w' = rw_directory w \<and> rw_max_segment_bytes w' = limit"
proof -
  from assms(1,2) obtain st where st: "bt_wf (rw_directory w)"
    "verify_files_rt rx (Some (s, r)) (rw_directory w) verify_start_rt = Inr st" "vr_ok st"
    "vr_records st = rs" "vr_sparse_entries st = es" by (auto simp: disk_holds_def)
  have sc: "opt_or (vr_scope st) (Some (s, r)) = Some (s, r)"
    using verify_files_scope [OF st(2)] by (auto simp: verify_start_rt_def split: if_splits)
  obtain h f where inst: "install_sparse_index rx ok (index_of rx (s, r) es) ixf = (h, f)" by fastforce
  let ?w = "\<lparr> rw_directory = rw_directory w, rw_index_file = f, rw_stream_id = s, rw_config_revision = r,
     rw_max_segment_bytes = limit, rw_current_path = map_option fst (bt_last (rw_directory w)),
     rw_current_bytes = (case bt_last (rw_directory w) of None \<Rightarrow> 0 | Some (path, f) \<Rightarrow> rt_file_bytes f),
     rw_current_segment_id = vr_last_segment_id st, rw_records = rs, rw_applied_event_ids = applied_ids rs,
     rw_sparse_index = index_of rx (s, r) es, rw_sparse_index_healthy = h, rw_poisoned = False \<rparr>"
  have "rt_wal_open rx ok (rw_directory w) ixf root s r limit = Inr ?w"
    using st sc inst cfg by (simp add: rt_wal_open_def verify_wal_rt_def)
  moreover have "s \<noteq> []" "r \<noteq> []" using cfg by (auto simp: validate_config_def split: option.splits if_splits)
  then have "log_state rx ?w st" using st by (simp add: log_state_def log_scope_def vr_ok_def)
  ultimately show ?thesis using st by (intro exI [of _ ?w] exI [of _ st]) (simp add: log_scope_def)
qed

lemma torn_wal_open:
  assumes "disk_torn rx w" and "log_scope w = (s, r)" and "validate_config root s r limit = None"
  shows "rt_wal_open rx ok (rw_directory w) ixf root s r limit = Inl CorruptRtWal"
  using assms by (simp add: rt_wal_open_def verify_wal_rt_def disk_torn_def)

lemma log_state_unique: "log_state rx w st \<Longrightarrow> log_state rx w st' \<Longrightarrow> st = st'"
  by (simp add: log_state_def)

end
