(* ===== verification/Realtime_Durable.thy ===== *)
theory Realtime_Durable
  imports Realtime_Append
begin

text \<open>
  The durable writer across applications, checkpoints, damage to its checkpoint files and restarts:
  its replay window is always the window of its log, every readable checkpoint describes a prefix of
  what the disk holds, and a restart finds the log again.
\<close>

section \<open>The index only grows at its end\<close>

lemma takeWhile_snoc: "\<not> P e \<Longrightarrow> takeWhile P (es @ [e]) = takeWhile P es"
  by (induction es) auto

lemma partition_point_le: "partition_point P xs \<le> length xs"
  by (simp add: partition_point_def length_takeWhile_le)

lemma index_fields_extend:
  assumes "cp_wal_cursor c < sc_first_wal_cursor e"
  shows "index_fields_match dx c (index_of rx sc (es @ [e])) = index_fields_match dx c (index_of rx sc es)"
proof -
  let ?P = "\<lambda>entry. sc_first_wal_cursor entry \<le> cp_wal_cursor c"
  have pp: "partition_point ?P (es @ [e]) = partition_point ?P es"
    using assms by (simp add: partition_point_def takeWhile_snoc not_le)
  have loc: "locate (cp_wal_cursor c) (index_of rx sc (es @ [e])) = locate (cp_wal_cursor c) (index_of rx sc es)"
    using partition_point_le [of ?P es] by (simp add: locate_def pp nth_append split: nat.split)
  have dig: "sparse_index_prefix_digest x (index_of rx sc (es @ [e])) (cp_wal_cursor c) =
      sparse_index_prefix_digest x (index_of rx sc es) (cp_wal_cursor c)" for x
    using partition_point_le [of ?P es]
    by (simp add: sparse_index_prefix_digest_def pp Let_def index_of_def seal_sparse_index_def index_integrity_def)
  show ?thesis by (simp add: index_fields_match_def loc dig)
qed

lemma checkpoint_fits_extend:
  assumes fits: "checkpoint_fits dx s r cap rs (index_of rx sc es) c"
    and n: "Suc (length rs) < 2 ^ 64" and es': "es' = es \<or> (\<exists>e. es' = es @ [e] \<and> sc_first_wal_cursor e = next_cursor rs)"
  shows "checkpoint_fits dx s r cap (rs @ rs') (index_of rx sc es') c"
proof -
  have le: "unat (cp_wal_cursor c) \<le> length rs" using fits by (simp add: checkpoint_fits_def)
  have "cp_wal_cursor c < next_cursor rs"
  proof -
    have "next_cursor rs = of_nat (Suc (length rs))" by (simp add: next_cursor_def add.commute)
    then have "unat (next_cursor rs) = Suc (length rs)" using n by (simp only: unat_of_nat_u64)
    with le show ?thesis by (simp add: word_less_nat_alt)
  qed
  with es' have "index_fields_match dx c (index_of rx sc es') = index_fields_match dx c (index_of rx sc es)"
    by (auto simp: index_fields_extend)
  with fits le show ?thesis by (simp add: checkpoint_fits_def)
qed

lemma store_fits_extend:
  assumes "store_fits dx s r cap (vr_records st) (index_of rx sc (vr_sparse_entries st)) store"
    and "entries_extend st rs es" and "Suc (length (vr_records st)) < 2 ^ 64"
  shows "store_fits dx s r cap (vr_records st @ rs) (index_of rx sc es) store"
  using assms checkpoint_fits_extend [OF _ assms(3)]
  unfolding store_fits_def entries_extend_def by blast

text \<open>The index starts with the first record.\<close>

definition index_starts :: "persisted_rt list \<Rightarrow> sparse_entry list \<Rightarrow> bool" where
  "index_starts rs es \<longleftrightarrow> (if rs = [] then es = [] else es \<noteq> [] \<and> sc_first_wal_cursor (hd es) = 1)"

lemma index_starts_extend:
  "index_starts (vr_records st) (vr_sparse_entries st) \<Longrightarrow> entries_extend st rs es \<Longrightarrow> rs \<noteq> []
   \<Longrightarrow> index_starts (vr_records st @ rs) es"
  by (auto simp: index_starts_def entries_extend_def next_cursor_def split: if_splits)

section \<open>The invariant of the writer\<close>

text \<open>The disk holds a log that the checkpoints fit.\<close>

definition disk_ok :: "durable_ext \<Rightarrow> durable_writer \<Rightarrow> persisted_rt list \<Rightarrow> sparse_entry list \<Rightarrow> bool" where
  "disk_ok dx w rs es \<longleftrightarrow>
     disk_holds (dx_wal dx) (dw_wal w) rs es \<and> numbered rs \<and> index_starts rs es
     \<and> store_fits dx (dw_stream_id w) (dw_config_revision w) (dw_replay_capacity w) rs
         (index_of (dx_wal dx) (dw_stream_id w, dw_config_revision w) es) (dw_checkpoints w)"

text \<open>
  A healthy writer holds in memory what its disk holds; a poisoned one an initial part of it, or its
  last segment is torn.
\<close>

definition durable_ok :: "durable_ext \<Rightarrow> durable_writer \<Rightarrow> bool" where
  "durable_ok dx w \<longleftrightarrow>
     0 < dw_replay_capacity w \<and> dw_stream_id w \<noteq> [] \<and> dw_config_revision w \<noteq> []
     \<and> log_scope (dw_wal w) = (dw_stream_id w, dw_config_revision w)
     \<and> numbered (rw_records (dw_wal w))
     \<and> dw_replay w = window_of (dw_stream_id w) (dw_replay_capacity w) (rw_records (dw_wal w))
     \<and> \<not> dw_poisoned w
     \<and> (if rw_poisoned (dw_wal w)
        then disk_torn (dx_wal dx) (dw_wal w) \<or> (\<exists>rs es. disk_ok dx w (rw_records (dw_wal w) @ rs) es)
        else \<exists>st. log_state (dx_wal dx) (dw_wal w) st \<and> disk_ok dx w (rw_records (dw_wal w)) (vr_sparse_entries st))"

lemma disk_ok_cong:
  "disk_ok dx w rs es \<Longrightarrow> rw_directory (dw_wal w') = rw_directory (dw_wal w) \<Longrightarrow> log_scope (dw_wal w') = log_scope (dw_wal w)
   \<Longrightarrow> dw_stream_id w' = dw_stream_id w \<Longrightarrow> dw_config_revision w' = dw_config_revision w
   \<Longrightarrow> dw_replay_capacity w' = dw_replay_capacity w
   \<Longrightarrow> store_fits dx (dw_stream_id w) (dw_config_revision w) (dw_replay_capacity w) rs
         (index_of (dx_wal dx) (dw_stream_id w, dw_config_revision w) es) (dw_checkpoints w')
   \<Longrightarrow> disk_ok dx w' rs es"
  by (simp add: disk_ok_def disk_holds_def)

section \<open>Publication\<close>

text \<open>Publishing the records of an append computes the window of the longer log and cannot fail.\<close>

definition outcome_of :: "string \<Rightarrow> persisted_rt \<Rightarrow> durable_outcome" where
  "outcome_of s r = \<lparr> do_persisted = r, do_published = (if pr_applied r then Some (stream_of s r) else None) \<rparr>"

lemma publish_window:
  assumes "numbered (rs @ rs')" and "0 < cap"
  shows "publish_all rs' (window_of s cap rs) = (Inr (map (outcome_of s) rs'), window_of s cap (rs @ rs'))"
  using assms
proof (induction rs' arbitrary: rs)
  case (Cons r rs')
  have n: "numbered (rs @ [r])" using numbered_take [OF Cons.prems(1), of "Suc (length rs)"] by simp
  from Cons.IH [of "rs @ [r]"] Cons.prems
  have IH: "publish_all rs' (window_of s cap (rs @ [r])) =
      (Inr (map (outcome_of s) rs'), window_of s cap (rs @ r # rs'))" by simp
  show ?case
  proof (cases "pr_applied r")
    case True
    with n obtain q where "pr_public_sequence r = Some q" by (auto simp: numbered_snoc)
    with True commit_window [OF n True this Cons.prems(2)] IH show ?thesis by (simp add: outcome_of_def)
  next
    case False
    with IH show ?thesis by (simp add: window_of_skip outcome_of_def)
  qed
qed simp

section \<open>Application\<close>

lemma durable_ok_healthy:
  assumes "durable_ok dx w" and "\<not> rw_poisoned (dw_wal w)"
  obtains st where "log_state (dx_wal dx) (dw_wal w) st" and "disk_ok dx w (vr_records st) (vr_sparse_entries st)"
    and "rw_records (dw_wal w) = vr_records st"
    and "dw_replay w = window_of (dw_stream_id w) (dw_replay_capacity w) (vr_records st)"
    and "rw_applied_event_ids (dw_wal w) = vr_applied_event_ids st"
    and "sq_sequence (dw_replay w) = vr_expected_public_sequence st"
    and "log_scope (dw_wal w) = (dw_stream_id w, dw_config_revision w)"
proof -
  from assms obtain st where st: "log_state (dx_wal dx) (dw_wal w) st"
    "disk_ok dx w (rw_records (dw_wal w)) (vr_sparse_entries st)" by (auto simp: durable_ok_def)
  moreover have "rw_records (dw_wal w) = vr_records st" "rw_applied_event_ids (dw_wal w) = vr_applied_event_ids st"
    "vr_ok st" using st(1) by (simp_all add: log_state_def)
  ultimately show thesis using assms(1) by (intro that [of st]) (simp_all add: durable_ok_def vr_ok_def)
qed

text \<open>What an application does to a writer that satisfies the invariant.\<close>

definition frame_result ::
  "durable_ext \<Rightarrow> durable_writer \<Rightarrow> provider_event list \<Rightarrow> durability_error + durable_outcome list \<Rightarrow> durable_writer \<Rightarrow> bool" where
  "frame_result dx w events res w' \<longleftrightarrow>
     (case res of
        Inl err \<Rightarrow> dw_replay w' = dw_replay w \<and> rw_records (dw_wal w') = rw_records (dw_wal w)
          \<and> (w' = w \<or> rw_poisoned (dw_wal w') \<and> err \<in> {CursorOverflow, DuIo})
      | Inr outs \<Rightarrow> \<not> rw_poisoned (dw_wal w')
          \<and> map (\<lambda>out. pr_event (do_persisted out)) outs = events
          \<and> rw_records (dw_wal w') = rw_records (dw_wal w) @ map do_persisted outs
          \<and> outs = map (outcome_of (dw_stream_id w)) (map do_persisted outs))"

lemma apply_batch_cases:
  assumes ok: "durable_ok dx w" and len: "text_nonempty (dx_wal dx)"
    and ap: "apply_batch_rt dx clock disk idx events w = (res, w')"
  shows "durable_ok dx w' \<and> frame_result dx w events res w'"
proof -
  have np: "\<not> dw_poisoned w" using ok by (simp add: durable_ok_def)
  consider (early) err where "res = Inl err" "w' = w"
    | (go) decisions where "events \<noteq> []" "\<forall>e \<in> set events. evidence_is_valid (rx_event_id (dx_wal dx)) e"
      "decide (rw_applied_event_ids (dw_wal w)) (sq_sequence (dw_replay w)) events = Inr decisions"
    using ap np by (auto simp: apply_batch_rt_def list_ex_iff split: if_splits sum.splits)
  then show ?thesis
  proof cases
    case early
    then show ?thesis using ok by (simp add: frame_result_def)
  next
    case go
    obtain r1 wal where a: "append_decisions (dx_wal dx) clock disk idx decisions (dw_wal w) = (r1, wal)" by fastforce
    have bad: "\<not> list_ex (\<lambda>e. \<not> evidence_is_valid (rx_event_id (dx_wal dx)) e) events" using go(2) by (simp add: list_ex_iff)
    show ?thesis
    proof (cases "rw_poisoned (dw_wal w)")
      case True
      then have "r1 = Inl WriterPoisoned" "wal = dw_wal w" using a by (simp_all add: append_decisions_def)
      then have "res = Inl WriterPoisoned" "w' = w" using ap np bad go(1,3) a by (simp_all add: apply_batch_rt_def)
      then show ?thesis using ok by (simp add: frame_result_def)
    next
      case False
      from durable_ok_healthy [OF ok False] obtain st where st: "log_state (dx_wal dx) (dw_wal w) st"
        and d: "disk_ok dx w (vr_records st) (vr_sparse_entries st)" and rec: "rw_records (dw_wal w) = vr_records st"
        and win: "dw_replay w = window_of (dw_stream_id w) (dw_replay_capacity w) (vr_records st)"
        and ids: "rw_applied_event_ids (dw_wal w) = vr_applied_event_ids st"
        and sq: "sq_sequence (dw_replay w) = vr_expected_public_sequence st"
        and sc: "log_scope (dw_wal w) = (dw_stream_id w, dw_config_revision w)" .
      have ar: "append_result (dx_wal dx) (dw_wal w) st events disk r1 wal"
        by (rule append_outcome [OF st False len go(1,2) _ a]) (use go(3) ids sq in simp)
      have grow: "disk_ok dx v (vr_records st @ rs) es"
        if "disk_holds (dx_wal dx) (dw_wal v) (vr_records st @ rs) es" "entries_extend st rs es" "rs \<noteq> []"
          "numbered (vr_records st @ rs)" "dw_stream_id v = dw_stream_id w" "dw_config_revision v = dw_config_revision w"
          "dw_replay_capacity v = dw_replay_capacity w" "dw_checkpoints v = dw_checkpoints w" for v rs es
      proof -
        have "Suc (length (vr_records st)) \<le> length (vr_records st @ rs)" using that(3) by (cases rs) simp_all
        with that(4) have "Suc (length (vr_records st)) < 2 ^ 64" unfolding numbered_def by linarith
        from store_fits_extend [OF _ that(2) this] index_starts_extend [OF _ that(2,3)] d that
        show ?thesis by (simp add: disk_ok_def)
      qed
      have num_of: "numbered rs" if "disk_holds (dx_wal dx) v rs es" for v rs es
        using that by (auto simp: disk_holds_def vr_ok_def)
      show ?thesis
      proof (cases r1)
        case (Inl err)
        then have res: "res = Inl err" and w': "w' = w\<lparr> dw_wal := wal \<rparr>"
          using ap np bad go(1,3) a by (simp_all add: apply_batch_rt_def)
        have base: "log_scope wal = log_scope (dw_wal w)" "rw_records wal = rw_records (dw_wal w)"
          using ar Inl by (simp_all add: append_result_def)
        have poison: "durable_ok dx w' \<and> frame_result dx w events res w'"
          if "rw_poisoned wal" "err \<in> {CursorOverflow, DuIo}"
            "disk_torn (dx_wal dx) wal \<or> disk_ok dx w' (rw_records (dw_wal w') @ rs) es" for rs es
        proof -
          have "disk_torn (dx_wal dx) (dw_wal w') \<or> (\<exists>rs es. disk_ok dx w' (rw_records (dw_wal w') @ rs) es)"
            using that(3) by (auto simp: w')
          then show ?thesis using ok base that(1,2) by (simp add: durable_ok_def frame_result_def res w')
        qed
        from ar Inl consider "err = CursorOverflow" "wal = dw_wal w"
          | "err = CursorOverflow" "rw_poisoned wal" "wal = (dw_wal w)\<lparr> rw_poisoned := True \<rparr>"
          | "err = DuIo" "rw_poisoned wal" "disk_holds (dx_wal dx) wal (vr_records st) (vr_sparse_entries st)"
          | "err = DuIo" "rw_poisoned wal" "disk_torn (dx_wal dx) wal"
          | rs ix where "err = DuIo" "rw_poisoned wal" "map pr_event rs = events" "rs \<noteq> []"
            "disk_holds (dx_wal dx) wal (vr_records st @ rs) ix" "entries_extend st rs ix"
          unfolding append_result_def by (simp only: sum.case) blast
        then show ?thesis
        proof cases
          case 1
          then show ?thesis using ok w' by (simp add: frame_result_def res)
        next
          case 2
          have "disk_ok dx w' (rw_records (dw_wal w') @ []) (vr_sparse_entries st)"
            using d 2 rec by (simp add: disk_ok_def w')
          then show ?thesis using 2 by (intro poison [where rs = "[]" and es = "vr_sparse_entries st"]) auto
        next
          case 3
          have "disk_ok dx w' (rw_records (dw_wal w') @ []) (vr_sparse_entries st)"
            using d 3 rec base by (simp add: disk_ok_def w')
          then show ?thesis using 3 by (intro poison [where rs = "[]" and es = "vr_sparse_entries st"]) auto
        next
          case 4
          then show ?thesis by (intro poison) auto
        next
          case 5
          have "disk_ok dx w' (vr_records st @ rs) ix"
            by (rule grow) (use 5 num_of in \<open>auto simp: w'\<close>)
          then have "disk_ok dx w' (rw_records (dw_wal w') @ rs) ix" using base rec by (simp add: w')
          then show ?thesis using 5 by (intro poison [OF _ _ disjI2]) auto
        qed
      next
        case (Inr rs)
        with ar obtain st' where ev: "map pr_event rs = events" "\<not> rw_poisoned wal"
          and st': "log_state (dx_wal dx) wal st'" "vr_records st' = vr_records st @ rs" "entries_extend st rs (vr_sparse_entries st')"
          and base: "log_scope wal = log_scope (dw_wal w)"
          by (auto simp: append_result_def)
        have num: "numbered (vr_records st @ rs)" using st' by (simp add: log_state_def vr_ok_def)
        have cap: "0 < dw_replay_capacity w" using ok by (simp add: durable_ok_def)
        have rs: "rs \<noteq> []" using ev(1) go(1) by auto
        note pub = publish_window [OF num cap, of "dw_stream_id w", folded win]
        let ?w = "w\<lparr> dw_wal := wal, dw_replay := window_of (dw_stream_id w) (dw_replay_capacity w) (vr_records st @ rs) \<rparr>"
        have res: "res = Inr (map (outcome_of (dw_stream_id w)) rs)" and w': "w' = ?w"
          using ap np bad go(1,3) a Inr pub by (simp_all add: apply_batch_rt_def)
        have "disk_holds (dx_wal dx) (dw_wal ?w) (vr_records st @ rs) (vr_sparse_entries st')"
          using log_state_holds [OF st'(1)] st'(2) by simp
        from grow [OF this st'(3) rs num] have "disk_ok dx ?w (vr_records st @ rs) (vr_sparse_entries st')" by simp
        moreover have recs: "rw_records wal = vr_records st @ rs" using st' by (simp add: log_state_def)
        ultimately have "durable_ok dx ?w"
          using ok ev(2) st'(1) num base by (auto simp: durable_ok_def)
        moreover have "map (\<lambda>x. do_persisted (outcome_of (dw_stream_id w) x)) rs = rs"
          by (simp add: outcome_of_def)
        then have "frame_result dx w events res ?w"
          using ev recs rec by (simp add: frame_result_def res comp_def outcome_of_def)
        ultimately show ?thesis by (simp add: w')
      qed
    qed
  qed
qed

section \<open>Checkpoints\<close>

lemma seal_checkpoint_fields [simp]:
  "cp_schema_version (seal_checkpoint dx c) = cp_schema_version c"
  "cp_stream_id (seal_checkpoint dx c) = cp_stream_id c"
  "cp_config_revision (seal_checkpoint dx c) = cp_config_revision c"
  "cp_wal_cursor (seal_checkpoint dx c) = cp_wal_cursor c"
  "cp_public_sequence (seal_checkpoint dx c) = cp_public_sequence c"
  "cp_last_record_sha256 (seal_checkpoint dx c) = cp_last_record_sha256 c"
  "cp_replay_capacity (seal_checkpoint dx c) = cp_replay_capacity c"
  "cp_replay (seal_checkpoint dx c) = cp_replay c"
  "cp_sparse_index_state_sha256 (seal_checkpoint dx c) = cp_sparse_index_state_sha256 c"
  "cp_boundary_segment_id (seal_checkpoint dx c) = cp_boundary_segment_id c"
  "cp_boundary_byte_offset (seal_checkpoint dx c) = cp_boundary_byte_offset c"
  by (simp_all add: seal_checkpoint_def)

lemma sealed_digest:
  assumes "cp_schema_version c = checkpoint_version"
  shows "checkpoint_digest dx (seal_checkpoint dx c) = Some (cp_state_sha256 (seal_checkpoint dx c))"
  using assms
  by (simp add: seal_checkpoint_def checkpoint_digest_def checkpoint_integrity_def checkpoint_version_def checkpoint_v1_def)

lemma new_checkpoint_fits:
  assumes "durable_ok dx w" and "\<not> rw_poisoned (dw_wal w)"
  shows "checkpoint_fits dx (dw_stream_id w) (dw_config_revision w) (dw_replay_capacity w) (rw_records (dw_wal w))
    (rw_sparse_index (dw_wal w)) (new_checkpoint dx now w)"
proof -
  from assms have n: "numbered (rw_records (dw_wal w))"
    and win: "dw_replay w = window_of (dw_stream_id w) (dw_replay_capacity w) (rw_records (dw_wal w))"
    by (simp_all add: durable_ok_def)
  have "unat (rt_wal_cursor (dw_wal w)) = length (rw_records (dw_wal w))"
    using n by (simp add: rt_wal_cursor_def numbered_wal_cursor numbered_def unat_of_nat_u64)
  then show ?thesis
    unfolding checkpoint_fits_def new_checkpoint_def Let_def
    by (simp add: win index_fields_match_def sealed_digest)
qed

lemma locate_starts:
  assumes "index_starts rs es" and "rs \<noteq> []" and "0 < c"
  shows "locate c (index_of rx sc es) \<noteq> None"
proof -
  from assms obtain e es' where es: "es = e # es'" "sc_first_wal_cursor e = 1"
    by (cases es) (auto simp: index_starts_def)
  moreover from assms(3) have "1 \<le> c" by (simp add: inc_le word_gt_0 unat_gt_0 word_le_nat_alt Suc_le_eq)
  ultimately show ?thesis by (simp add: locate_def partition_point_def)
qed

lemma store_fits_write:
  assumes "store_fits dx s r cap rs i store" and "checkpoint_fits dx s r cap rs i c"
  shows "store_fits dx s r cap rs i (write_checkpoint dx c store)"
proof -
  have new: "d = c" if "readable dx (Some (CheckpointText c)) = Some d" for d
    using that by (auto simp: readable_def split: sum.splits if_splits)
  with assms show ?thesis
    by (auto simp: store_fits_def write_checkpoint_def split: option.split)
qed

text \<open>On a healthy writer a checkpoint is always taken, and the writer stays as it is.\<close>

lemma checkpoint_cases:
  assumes ok: "durable_ok dx w" and cp: "checkpoint_rt dx now w = (res, w')"
  shows "durable_ok dx w' \<and> (if rw_poisoned (dw_wal w) then res = Inl WriterPoisoned \<and> w' = w
    else res = Inr (new_checkpoint dx now w)
      \<and> w' = w\<lparr> dw_checkpoints := write_checkpoint dx (new_checkpoint dx now w) (dw_checkpoints w) \<rparr>)"
proof (cases "rw_poisoned (dw_wal w)")
  case True
  with cp ok show ?thesis by (simp add: checkpoint_rt_def)
next
  case False
  from durable_ok_healthy [OF ok False] obtain st where st: "log_state (dx_wal dx) (dw_wal w) st"
    and d: "disk_ok dx w (vr_records st) (vr_sparse_entries st)" and rec: "rw_records (dw_wal w) = vr_records st"
    and sc: "log_scope (dw_wal w) = (dw_stream_id w, dw_config_revision w)" by blast
  have ix: "rw_sparse_index (dw_wal w) = index_of (dx_wal dx) (dw_stream_id w, dw_config_revision w) (vr_sparse_entries st)"
    using st sc by (simp add: log_state_def)
  have np: "\<not> dw_poisoned w" using ok by (simp add: durable_ok_def)
  have "locate (rt_wal_cursor (dw_wal w)) (rw_sparse_index (dw_wal w)) \<noteq> None" if "0 < rt_wal_cursor (dw_wal w)"
  proof -
    from that have "vr_records st \<noteq> []" by (auto simp: rt_wal_cursor_def wal_cursor_of_def last_or_def rec)
    with d that show ?thesis unfolding ix by (intro locate_starts) (simp_all add: disk_ok_def)
  qed
  then have "\<not> (0 < rt_wal_cursor (dw_wal w) \<and> locate (rt_wal_cursor (dw_wal w)) (rw_sparse_index (dw_wal w)) = None)"
    by blast
  from cp [unfolded checkpoint_rt_def if_not_P [OF this] Let_def] False np have res: "res = Inr (new_checkpoint dx now w)"
    and w': "w' = w\<lparr> dw_checkpoints := write_checkpoint dx (new_checkpoint dx now w) (dw_checkpoints w) \<rparr>"
    by simp_all
  have "disk_ok dx w' (vr_records st) (vr_sparse_entries st)"
    using d store_fits_write [OF _ new_checkpoint_fits [OF ok False, unfolded ix rec, of now]]
    by (simp add: disk_ok_def w')
  then have "durable_ok dx w'" using ok st rec False by (auto simp: durable_ok_def w')
  with False res w' show ?thesis by simp
qed

section \<open>Damage and restart\<close>

text \<open>A checkpoint file is lost or becomes unreadable.\<close>

definition damaged :: "checkpoint_file option \<Rightarrow> checkpoint_file option \<Rightarrow> bool" where
  "damaged f f' \<longleftrightarrow> f' = f \<or> f' = None \<or> f' = Some NotACheckpoint"

lemma readable_damaged: "damaged f f' \<Longrightarrow> readable dx f' = Some c \<Longrightarrow> readable dx f = Some c"
  by (auto simp: damaged_def readable_def split: option.splits)

lemma store_fits_damaged:
  assumes "store_fits dx s r cap rs i store" and "damaged (cs_current store) cur" and "damaged (cs_previous store) prev"
  shows "store_fits dx s r cap rs i \<lparr> cs_current = cur, cs_previous = prev \<rparr>"
  using assms readable_damaged by (fastforce simp: store_fits_def)

lemma durable_ok_store:
  assumes "durable_ok dx w"
    and "\<And>rs i. store_fits dx (dw_stream_id w) (dw_config_revision w) (dw_replay_capacity w) rs i (dw_checkpoints w)
      \<Longrightarrow> store_fits dx (dw_stream_id w) (dw_config_revision w) (dw_replay_capacity w) rs i store"
  shows "durable_ok dx (w\<lparr> dw_checkpoints := store \<rparr>)"
proof -
  have d: "disk_ok dx w rs es \<Longrightarrow> disk_ok dx (w\<lparr> dw_checkpoints := store \<rparr>) rs es" for rs es
    using assms(2) by (simp add: disk_ok_def)
  show ?thesis
  proof (cases "rw_poisoned (dw_wal w)")
    case True
    then show ?thesis using assms(1) d by (simp add: durable_ok_def) blast
  next
    case False
    then show ?thesis using assms(1) d by (simp add: durable_ok_def) blast
  qed
qed

text \<open>Reopening the directory of a writer: the log the disk holds, under the newest readable checkpoint.\<close>

definition config_ok :: "string \<Rightarrow> string \<Rightarrow> string \<Rightarrow> nat \<Rightarrow> nat \<Rightarrow> bool" where
  "config_ok root s r limit cap \<longleftrightarrow>
     validate_root root = None \<and> validate_config (root @ ''/wal'') s r limit = None \<and> 0 < cap"

lemma config_ok_names: "config_ok root s r limit cap \<Longrightarrow> s \<noteq> [] \<and> r \<noteq> []"
  by (auto simp: config_ok_def validate_config_def split: option.splits if_splits)

definition stuck :: "durable_ext \<Rightarrow> checkpoint_store \<Rightarrow> persisted_rt list \<Rightarrow> bool" where
  "stuck dx store rs \<longleftrightarrow> (\<exists>c. newest dx store = Some c \<and> cp_wal_cursor c = 0 \<and> rs \<noteq> [])"

lemma reopen_disk:
  assumes d: "disk_ok dx w rs es" and sc: "log_scope (dw_wal w) = (dw_stream_id w, dw_config_revision w)"
    and cfg: "config_ok root (dw_stream_id w) (dw_config_revision w) limit (dw_replay_capacity w)"
  shows "if stuck dx (dw_checkpoints w) rs
    then writer_open dx ok (rw_directory (dw_wal w)) ixf (dw_checkpoints w) root (dw_stream_id w) (dw_config_revision w)
      limit (dw_replay_capacity w) = Inl CheckpointWalDivergence
    else \<exists>w' st. writer_open dx ok (rw_directory (dw_wal w)) ixf (dw_checkpoints w) root (dw_stream_id w)
          (dw_config_revision w) limit (dw_replay_capacity w) = Inr w'
        \<and> durable_ok dx w' \<and> \<not> rw_poisoned (dw_wal w') \<and> log_state (dx_wal dx) (dw_wal w') st
        \<and> vr_records st = rs \<and> vr_sparse_entries st = es
        \<and> rw_directory (dw_wal w') = rw_directory (dw_wal w) \<and> rw_max_segment_bytes (dw_wal w') = limit
        \<and> dw_checkpoints w' = dw_checkpoints w \<and> dw_stream_id w' = dw_stream_id w
        \<and> dw_config_revision w' = dw_config_revision w \<and> dw_replay_capacity w' = dw_replay_capacity w"
proof -
  from cfg have vr: "validate_root root = None" and vc: "validate_config (root @ ''/wal'') (dw_stream_id w) (dw_config_revision w) limit = None"
    and cap: "0 < dw_replay_capacity w" by (simp_all add: config_ok_def)
  note names = config_ok_names [OF cfg]
  from d have dh: "disk_holds (dx_wal dx) (dw_wal w) rs es" and n: "numbered rs"
    and sf: "store_fits dx (dw_stream_id w) (dw_config_revision w) (dw_replay_capacity w) rs
         (index_of (dx_wal dx) (dw_stream_id w, dw_config_revision w) es) (dw_checkpoints w)"
    and st0: "index_starts rs es" by (simp_all add: disk_ok_def)
  from verified_wal_open [OF dh sc vc, of ok ixf] obtain wal st where
    op: "rt_wal_open (dx_wal dx) ok (rw_directory (dw_wal w)) ixf (root @ ''/wal'') (dw_stream_id w) (dw_config_revision w) limit = Inr wal"
    and st: "log_state (dx_wal dx) wal st" "vr_records st = rs" "vr_sparse_entries st = es"
    and wal: "log_scope wal = (dw_stream_id w, dw_config_revision w)" "\<not> rw_poisoned wal"
      "rw_directory wal = rw_directory (dw_wal w)" "rw_max_segment_bytes wal = limit" by blast
  have rec: "rw_records wal = rs" and ix: "rw_sparse_index wal = index_of (dx_wal dx) (dw_stream_id w, dw_config_revision w) es"
    using st wal(1) by (simp_all add: log_state_def)
  note rr = recover_replay_window [OF n sf conjunct1 [OF names] cap]
  show ?thesis
  proof (cases "stuck dx (dw_checkpoints w) rs")
    case True
    with op rr vr cap show ?thesis by (simp add: writer_open_def rec ix stuck_def)
  next
    case False
    let ?w = "\<lparr> dw_root = root, dw_stream_id = dw_stream_id w, dw_config_revision = dw_config_revision w,
      dw_replay_capacity = dw_replay_capacity w, dw_wal = wal, dw_checkpoints = dw_checkpoints w,
      dw_replay = window_of (dw_stream_id w) (dw_replay_capacity w) rs,
      dw_recovered_checkpoint_cursor = map_option cp_wal_cursor (newest dx (dw_checkpoints w)), dw_poisoned = False \<rparr>"
    from False have nst: "\<not> (\<exists>c. newest dx (dw_checkpoints w) = Some c \<and> cp_wal_cursor c = 0 \<and> rs \<noteq> [])" by (simp add: stuck_def)
    have "writer_open dx ok (rw_directory (dw_wal w)) ixf (dw_checkpoints w) root (dw_stream_id w)
        (dw_config_revision w) limit (dw_replay_capacity w) = Inr ?w"
      using op rr [unfolded if_not_P [OF nst]] vr cap by (simp add: writer_open_def rec ix)
    moreover have "disk_holds (dx_wal dx) wal rs es" using log_state_holds [OF st(1)] st by simp
    then have "disk_ok dx ?w rs es" using d by (simp add: disk_ok_def)
    then have "durable_ok dx ?w" using st n names cap wal rec by (auto simp: durable_ok_def)
    ultimately show ?thesis using st wal unfolding if_not_P [OF False] by (intro exI [of _ ?w] exI [of _ st]) simp
  qed
qed

end
