(* ===== verification/Realtime_Hub.thy ===== *)
theory Realtime_Hub
  imports Realtime_Durable
begin

text \<open>
  The hub of \<open>crates/marketcow-realtime/src/hub.rs\<close> (\<open>DurableRealtimeHub\<close>): the lifecycle of the
  transport connection, the ingestion of its outputs into the durable writer, the projection that
  readers load, and the bounded queue of the gateway. The queue is tokio's bounded channel: its
  capacity, the events waiting in it and whether the receiver is gone.
\<close>

section \<open>Transport outputs and lifecycle\<close>

datatype transport_output =
    OutConnected u32
  | SubscriptionsReady u32
  | OutEvents u32 "provider_event list"
  | OutDegraded u32 string bool

datatype hub_health =
    HealthStarting
  | HealthConnected u32
  | HealthReady u32
  | HealthDegraded u32 string bool
  | HealthFailedClosed string

datatype hub_lifecycle =
    Starting
  | Connected u32
  | Ready u32
  | Degraded u32 bool
  | FailedClosed

record hub_projection =
  hp_schema_version :: string
  hp_stream_id :: string
  hp_config_revision :: string
  hp_public_sequence :: u64
  hp_wal_cursor :: u64
  hp_sparse_index_healthy :: bool
  hp_health :: hub_health
  hp_replay :: "stream_event list"
  hp_updated_at :: timestamp

record realtime_hub =
  hb_writer :: durable_writer
  hb_projection :: hub_projection
  hb_lifecycle :: hub_lifecycle
  hb_last_attempt :: u32

datatype hub_error =
    HubFailedClosed
  | InvalidTransition string
  | HubDurability durability_error

record gateway =
  gw_capacity :: nat
  gw_queue :: "stream_event list"
  gw_closed :: bool

definition hub_projection_version :: string where
  "hub_projection_version = ''marketcow.realtime.hub-projection.v1''"

definition projection_from_writer ::
  "timestamp \<Rightarrow> durable_writer \<Rightarrow> string \<Rightarrow> string \<Rightarrow> hub_health \<Rightarrow> hub_projection" where
  "projection_from_writer now w stream_id config_revision health =
     \<lparr> hp_schema_version = hub_projection_version, hp_stream_id = stream_id,
       hp_config_revision = config_revision, hp_public_sequence = sq_sequence (dw_replay w),
       hp_wal_cursor = rt_wal_cursor (dw_wal w),
       hp_sparse_index_healthy = rw_sparse_index_healthy (dw_wal w), hp_health = health,
       hp_replay = sq_replay (dw_replay w), hp_updated_at = now \<rparr>"

definition hub_store :: "timestamp \<Rightarrow> hub_health \<Rightarrow> realtime_hub \<Rightarrow> realtime_hub" where
  "hub_store now health h = h\<lparr> hb_projection := projection_from_writer now (hb_writer h)
     (hp_stream_id (hb_projection h)) (hp_config_revision (hb_projection h)) health \<rparr>"

definition fail_state :: "timestamp \<Rightarrow> string \<Rightarrow> realtime_hub \<Rightarrow> realtime_hub" where
  "fail_state now reason h = hub_store now (HealthFailedClosed reason) (h\<lparr> hb_lifecycle := FailedClosed \<rparr>)"

definition hub_fail :: "timestamp \<Rightarrow> string \<Rightarrow> realtime_hub \<Rightarrow> (hub_error + 'a) \<times> realtime_hub" where
  "hub_fail now reason h = (Inl (InvalidTransition reason), fail_state now reason h)"

definition fail_closed :: "timestamp \<Rightarrow> string \<Rightarrow> realtime_hub \<Rightarrow> realtime_hub" where
  "fail_closed now reason h = hub_store now
     (HealthFailedClosed (if reason = [] then ''unspecified_owner_failure'' else reason))
     (h\<lparr> hb_lifecycle := FailedClosed \<rparr>)"

definition hub_open ::
  "durable_ext \<Rightarrow> bool \<Rightarrow> timestamp \<Rightarrow> rt_directory \<Rightarrow> index_file \<Rightarrow> checkpoint_store \<Rightarrow> string \<Rightarrow> string \<Rightarrow> string
   \<Rightarrow> nat \<Rightarrow> nat \<Rightarrow> hub_error + realtime_hub" where
  "hub_open dx index_ok now directory index_file store root stream_id config_revision max_segment_bytes replay_capacity =
     (case writer_open dx index_ok directory index_file store root stream_id config_revision max_segment_bytes
             replay_capacity of
        Inl err \<Rightarrow> Inl (HubDurability err)
      | Inr w \<Rightarrow> Inr \<lparr> hb_writer = w,
          hb_projection = projection_from_writer now w stream_id config_revision HealthStarting,
          hb_lifecycle = Starting, hb_last_attempt = 0 \<rparr>)"

section \<open>The gateway queue\<close>

datatype reserve_error = QueueFull | QueueClosed

text \<open>\<open>try_reserve_many\<close>: more than the channel can ever hold is full, even when it is closed.\<close>

definition try_reserve_many :: "nat \<Rightarrow> gateway \<Rightarrow> reserve_error option" where
  "try_reserve_many n g =
     (if n > gw_capacity g then Some QueueFull
      else if gw_closed g then Some QueueClosed
      else if length (gw_queue g) + n > gw_capacity g then Some QueueFull else None)"

definition send_all :: "stream_event list \<Rightarrow> gateway \<Rightarrow> gateway" where
  "send_all events g = g\<lparr> gw_queue := gw_queue g @ events \<rparr>"

section \<open>Ingestion\<close>

definition connected_valid :: "u32 \<Rightarrow> hub_lifecycle \<Rightarrow> bool" where
  "connected_valid attempt l =
     (case l of
        Starting \<Rightarrow> attempt = 1
      | Degraded previous retryable \<Rightarrow> retryable \<and> checked_add1 previous = Some attempt
      | _ \<Rightarrow> False)"

definition degraded_valid :: "u32 \<Rightarrow> hub_lifecycle \<Rightarrow> bool" where
  "degraded_valid attempt l =
     (case l of
        Starting \<Rightarrow> attempt = 1
      | Connected active \<Rightarrow> active = attempt
      | Ready active \<Rightarrow> active = attempt
      | _ \<Rightarrow> False)"

definition published_events :: "durable_outcome list \<Rightarrow> stream_event list" where
  "published_events outs = List.map_filter do_published outs"

definition ingest_events ::
  "durable_ext \<Rightarrow> (nat \<Rightarrow> timestamp) \<Rightarrow> disk_outcome \<Rightarrow> bool \<Rightarrow> timestamp \<Rightarrow> u32 \<Rightarrow> provider_event list
   \<Rightarrow> gateway \<Rightarrow> realtime_hub \<Rightarrow> (hub_error + nat) \<times> realtime_hub \<times> gateway" where
  "ingest_events dx clock disk index_disk_ok now attempt events g h =
     (if hb_lifecycle h \<noteq> Ready attempt \<or> events = []
      then (let (r, h') = hub_fail now ''events_before_subscriptions_ready'' h in (r, h', g))
      else case try_reserve_many (length events) g of
        Some QueueFull \<Rightarrow> (let (r, h') = hub_fail now ''gateway_backpressure'' h in (r, h', g))
      | Some QueueClosed \<Rightarrow> (let (r, h') = hub_fail now ''gateway_closed'' h in (r, h', g))
      | None \<Rightarrow>
          (case apply_batch_rt dx clock disk index_disk_ok events (hb_writer h) of
             (Inl err, w) \<Rightarrow> (Inl (HubDurability err),
               fail_state now ''authoritative_persistence_failed'' (h\<lparr> hb_writer := w \<rparr>), g)
           | (Inr outs, w) \<Rightarrow> (Inr (length (published_events outs)),
               hub_store now (HealthReady attempt) (h\<lparr> hb_writer := w \<rparr>),
               send_all (published_events outs) g)))"

definition ingest ::
  "durable_ext \<Rightarrow> (nat \<Rightarrow> timestamp) \<Rightarrow> disk_outcome \<Rightarrow> bool \<Rightarrow> timestamp \<Rightarrow> transport_output
   \<Rightarrow> gateway \<Rightarrow> realtime_hub \<Rightarrow> (hub_error + nat) \<times> realtime_hub \<times> gateway" where
  "ingest dx clock disk index_disk_ok now out g h =
     (if hb_lifecycle h = FailedClosed then (Inl HubFailedClosed, h, g)
      else case out of
        OutConnected attempt \<Rightarrow>
          if \<not> connected_valid attempt (hb_lifecycle h) \<or> attempt \<le> hb_last_attempt h
          then (let (r, h') = hub_fail now ''invalid_connected_transition'' h in (r, h', g))
          else (Inr 0, hub_store now (HealthConnected attempt)
                 (h\<lparr> hb_lifecycle := Connected attempt, hb_last_attempt := attempt \<rparr>), g)
      | SubscriptionsReady attempt \<Rightarrow>
          if hb_lifecycle h \<noteq> Connected attempt
          then (let (r, h') = hub_fail now ''subscriptions_ready_before_connected'' h in (r, h', g))
          else (Inr 0, hub_store now (HealthReady attempt) (h\<lparr> hb_lifecycle := Ready attempt \<rparr>), g)
      | OutEvents attempt events \<Rightarrow> ingest_events dx clock disk index_disk_ok now attempt events g h
      | OutDegraded attempt reason retryable \<Rightarrow>
          if \<not> degraded_valid attempt (hb_lifecycle h) \<or> reason = [] \<or> attempt < hb_last_attempt h
          then (let (r, h') = hub_fail now ''invalid_degraded_transition'' h in (r, h', g))
          else (Inr 0, hub_store now (HealthDegraded attempt reason retryable)
                 (h\<lparr> hb_last_attempt := attempt, hb_lifecycle := Degraded attempt retryable \<rparr>), g))"

definition hub_checkpoint ::
  "durable_ext \<Rightarrow> timestamp \<Rightarrow> realtime_hub \<Rightarrow> (hub_error + checkpoint) \<times> realtime_hub" where
  "hub_checkpoint dx now h =
     (if hb_lifecycle h = FailedClosed then (Inl HubFailedClosed, h)
      else case checkpoint_rt dx now (hb_writer h) of
        (Inl err, w) \<Rightarrow> (Inl (HubDurability err), h\<lparr> hb_writer := w \<rparr>)
      | (Inr c, w) \<Rightarrow> (Inr c, h\<lparr> hb_writer := w \<rparr>))"

section \<open>Replay from the projection\<close>

definition hub_replay_after ::
  "string \<Rightarrow> u64 \<Rightarrow> subscription_filter \<Rightarrow> hub_projection \<Rightarrow> realtime_error + replay_frame list" where
  "hub_replay_after stream_id after f p =
     (if stream_id \<noteq> hp_stream_id p then Inl StreamChanged
      else if after > hp_public_sequence p then Inl (CursorAhead (hp_public_sequence p))
      else
        let earliest = (case hp_replay p of [] \<Rightarrow> saturating_add1 (hp_public_sequence p) | e # es \<Rightarrow> st_sequence e)
        in if saturating_add1 after < earliest then Inl (GapUnrecoverable earliest)
           else Inr (map (frame_of (hp_stream_id p) f) (filter (\<lambda>e. st_sequence e > after) (hp_replay p))))"

end
