(* ===== verification/Realtime_Normalizer.thy ===== *)
theory Realtime_Normalizer
  imports Realtime_Replay
begin

text \<open>
  The Hyperliquid normalizer of \<open>crates/marketcow-realtime/src/lib.rs\<close>: frames of the channels
  \<open>l2Book\<close>, \<open>bbo\<close>, \<open>trades\<close> and \<open>activeAssetCtx\<close> to provider-neutral events. External functions: the
  parser of \<open>rust_decimal\<close>, the text of a JSON number, the range of \<open>timestamp_millis_opt\<close> and the
  digest of an event identity. Configuration strings are ASCII, so \<open>trim\<close> removes ASCII white space.
\<close>

record norm_ext =
  nx_dec_parse :: "string \<Rightarrow> int option"
  nx_number_text :: "json \<Rightarrow> string"
  nx_millis_ok :: "int \<Rightarrow> bool"
  nx_event_id :: "event_identity \<Rightarrow> string"

type_synonym 'a rt_result = "realtime_error + 'a"

section \<open>Fields of a frame\<close>

text \<open>An object is its members; \<open>as_object\<close>, \<open>as_array\<close> and \<open>as_i64\<close> read a JSON value.\<close>

type_synonym json_map = "(string \<times> json) list"

fun as_object :: "json \<Rightarrow> json_map option" where
  "as_object (JObject members) = Some members"
| "as_object v = None"

fun as_array :: "json \<Rightarrow> json list option" where
  "as_array (JArray vs) = Some vs"
| "as_array v = None"

fun as_i64 :: "json \<Rightarrow> int option" where
  "as_i64 (JUInt n) = (if uint n < 2 ^ 63 then Some (uint n) else None)"
| "as_i64 (JInt i) = Some i"
| "as_i64 v = None"

definition ok_or :: "'e \<Rightarrow> 'a option \<Rightarrow> 'e + 'a" where
  "ok_or err x = (case x of None \<Rightarrow> Inl err | Some a \<Rightarrow> Inr a)"

definition required :: "json_map \<Rightarrow> string \<Rightarrow> json rt_result" where
  "required m field = ok_or (MissingField field) (map_of m field)"

definition required_string :: "json_map \<Rightarrow> string \<Rightarrow> string rt_result" where
  "required_string m field =
     (case required m field of
        Inl err \<Rightarrow> Inl err
      | Inr v \<Rightarrow> ok_or InvalidPayload (opt_filter (\<lambda>s. s \<noteq> []) (as_str v)))"

definition object_field :: "json_map \<Rightarrow> string \<Rightarrow> json_map rt_result" where
  "object_field m field =
     (case required m field of Inl err \<Rightarrow> Inl err | Inr v \<Rightarrow> ok_or InvalidPayload (as_object v))"

fun value_identifier :: "norm_ext \<Rightarrow> json \<Rightarrow> string rt_result" where
  "value_identifier nx (JString s) = (if s \<noteq> [] then Inr s else Inl InvalidPayload)"
| "value_identifier nx (JUInt n) = Inr (nx_number_text nx (JUInt n))"
| "value_identifier nx (JInt n) = Inr (nx_number_text nx (JInt n))"
| "value_identifier nx (JFloat n) = Inr (nx_number_text nx (JFloat n))"
| "value_identifier nx v = Inl InvalidPayload"

definition two_sides :: "json \<Rightarrow> (json list \<times> json list) rt_result" where
  "two_sides v =
     (case as_array v of
        Some [a, b] \<Rightarrow>
          (case as_array a of
             None \<Rightarrow> Inl InvalidPayload
           | Some bids \<Rightarrow> (case as_array b of None \<Rightarrow> Inl InvalidPayload | Some asks \<Rightarrow> Inr (bids, asks)))
      | _ \<Rightarrow> Inl InvalidPayload)"

fun bbo_side :: "json \<Rightarrow> (json list) rt_result" where
  "bbo_side JNull = Inr []"
| "bbo_side (JObject m) = Inr [JObject m]"
| "bbo_side v = Inl InvalidPayload"

definition book_sides :: "json_map \<Rightarrow> (json list \<times> json list) rt_result" where
  "book_sides data =
     (case map_of data ''levels'' of
        Some levels \<Rightarrow> two_sides levels
      | None \<Rightarrow>
          (case Option.bind (map_of data ''bbo'') as_array of
             Some [b, a] \<Rightarrow>
               (case bbo_side b of
                  Inl err \<Rightarrow> Inl err
                | Inr bids \<Rightarrow> (case bbo_side a of Inl err \<Rightarrow> Inl err | Inr asks \<Rightarrow> Inr (bids, asks)))
           | _ \<Rightarrow> Inl (MissingField ''levels/bbo'')))"

definition ascii_alphanumeric :: "char \<Rightarrow> bool" where
  "ascii_alphanumeric c =
     (let n = (of_char c :: nat) in 48 \<le> n \<and> n \<le> 57 \<or> 65 \<le> n \<and> n \<le> 90 \<or> 97 \<le> n \<and> n \<le> 122)"

definition valid_coin :: "string \<Rightarrow> bool" where
  "valid_coin value =
     (value \<noteq> [] \<and> length value \<le> 64 \<and> list_all (\<lambda>c. ascii_alphanumeric c \<or> c \<in> set ''@:/-_.'') value)"

definition ascii_upper :: "char \<Rightarrow> char" where
  "ascii_upper c = (let n = (of_char c :: nat) in if 97 \<le> n \<and> n \<le> 122 then char_of (n - 32) else c)"

definition to_ascii_uppercase :: "string \<Rightarrow> string" where
  "to_ascii_uppercase s = map ascii_upper s"

definition ascii_space :: "char \<Rightarrow> bool" where
  "ascii_space c = (let n = (of_char c :: nat) in 9 \<le> n \<and> n \<le> 13 \<or> n = 32)"

definition trim :: "string \<Rightarrow> string" where
  "trim s = rev (dropWhile ascii_space (rev (dropWhile ascii_space s)))"

section \<open>Decimals, levels and times\<close>

definition exact_positive :: "norm_ext \<Rightarrow> json \<Rightarrow> int rt_result" where
  "exact_positive nx v =
     (case as_str v of
        None \<Rightarrow> Inl FinancialDecimalMustBeString
      | Some text \<Rightarrow>
          (case nx_dec_parse nx text of
             None \<Rightarrow> Inl InvalidDecimal
           | Some d \<Rightarrow> if d \<le> 0 then Inl InvalidDecimal else Inr d))"

definition field_positive :: "norm_ext \<Rightarrow> json_map \<Rightarrow> string \<Rightarrow> int rt_result" where
  "field_positive nx m field = (case required m field of Inl err \<Rightarrow> Inl err | Inr v \<Rightarrow> exact_positive nx v)"

definition optional_positive :: "norm_ext \<Rightarrow> json option \<Rightarrow> (int option) rt_result" where
  "optional_positive nx v =
     (case opt_filter (\<lambda>v. v \<noteq> JNull) v of
        None \<Rightarrow> Inr None
      | Some v \<Rightarrow> map_sum id Some (exact_positive nx v))"

definition optional_decimal :: "norm_ext \<Rightarrow> json option \<Rightarrow> (int option) rt_result" where
  "optional_decimal nx v =
     (case opt_filter (\<lambda>v. v \<noteq> JNull) v of
        None \<Rightarrow> Inr None
      | Some v \<Rightarrow>
          (case as_str v of
             None \<Rightarrow> Inl FinancialDecimalMustBeString
           | Some text \<Rightarrow>
               (case nx_dec_parse nx text of None \<Rightarrow> Inl InvalidDecimal | Some d \<Rightarrow> Inr (Some d))))"

definition order_count_of :: "json option \<Rightarrow> (u64 option) rt_result" where
  "order_count_of v =
     (case opt_filter (\<lambda>v. v \<noteq> JNull) v of
        None \<Rightarrow> Inr None
      | Some v \<Rightarrow>
          (case opt_filter (\<lambda>count. count > 0) (as_u64 v) of
             None \<Rightarrow> Inl InvalidPayload
           | Some count \<Rightarrow> Inr (Some count)))"

fun parse_rows :: "norm_ext \<Rightarrow> int option \<Rightarrow> json list \<Rightarrow> (book_level list) rt_result" where
  "parse_rows nx previous [] = Inr []"
| "parse_rows nx previous (v # vs) =
     (case as_object v of
        None \<Rightarrow> Inl InvalidPayload
      | Some row \<Rightarrow>
          (case field_positive nx row ''px'' of
             Inl err \<Rightarrow> Inl err
           | Inr price \<Rightarrow>
               (case field_positive nx row ''sz'' of
                  Inl err \<Rightarrow> Inl err
                | Inr qty \<Rightarrow>
                    if previous = Some price then Inl InvalidPayload
                    else (case order_count_of (map_of row ''n'') of
                            Inl err \<Rightarrow> Inl err
                          | Inr order_count \<Rightarrow>
                              (case parse_rows nx (Some price) vs of
                                 Inl err \<Rightarrow> Inl err
                               | Inr levels \<Rightarrow> Inr (\<lparr> bl_price = price, bl_size = qty, bl_order_id = ''0'',
                                   bl_order_count = order_count \<rparr> # levels))))))"

definition parse_levels :: "norm_ext \<Rightarrow> json list \<Rightarrow> (book_level list) rt_result" where
  "parse_levels nx vs = (if length vs > 20 then Inl BookTooDeep else parse_rows nx None vs)"

definition strictly_descending :: "book_level list \<Rightarrow> bool" where
  "strictly_descending levels = (\<not> any_adjacent (\<lambda>a b. \<not> bl_price a > bl_price b) levels)"

definition strictly_ascending :: "book_level list \<Rightarrow> bool" where
  "strictly_ascending levels = (\<not> any_adjacent (\<lambda>a b. \<not> bl_price a < bl_price b) levels)"

text \<open>Instants are nanoseconds; the bound on the delay is in whole milliseconds.\<close>

definition timestamp_of :: "norm_ext \<Rightarrow> json \<Rightarrow> timestamp \<Rightarrow> int \<Rightarrow> timestamp rt_result" where
  "timestamp_of nx v received_at maximum_delay =
     (case as_i64 v of
        None \<Rightarrow> Inl InvalidTimestamp
      | Some milliseconds \<Rightarrow>
          if \<not> nx_millis_ok nx milliseconds then Inl InvalidTimestamp
          else let observed_at = milliseconds * 1000000;
                   delay = num_milliseconds (received_at - observed_at)
               in if delay < 0 \<or> delay > maximum_delay then Inl InvalidTimestamp else Inr observed_at)"

section \<open>The normalizer\<close>

record normalizer =
  nz_instrument_by_coin :: "(string, string) btree"
  nz_maximum_source_delay_millis :: int

fun insert_mappings :: "(string \<times> string) list \<Rightarrow> (string, string) btree \<Rightarrow> ((string, string) btree) rt_result" where
  "insert_mappings [] m = Inr m"
| "insert_mappings ((instrument_id, coin) # ms) m =
     (let normalized = to_ascii_uppercase (trim coin)
      in if trim instrument_id = [] \<or> \<not> valid_coin normalized \<or> bt_get m normalized \<noteq> None
         then Inl RtInvalidConfig
         else insert_mappings ms (bt_insert normalized instrument_id m))"

definition normalizer_new :: "(string \<times> string) list \<Rightarrow> int \<Rightarrow> normalizer rt_result" where
  "normalizer_new mappings maximum_source_delay_millis =
     (if maximum_source_delay_millis < 0 then Inl RtInvalidConfig
      else case insert_mappings mappings [] of
        Inl err \<Rightarrow> Inl err
      | Inr m \<Rightarrow>
          if m = [] then Inl RtInvalidConfig
          else Inr \<lparr> nz_instrument_by_coin = m, nz_maximum_source_delay_millis = maximum_source_delay_millis \<rparr>)"

definition instrument_of :: "normalizer \<Rightarrow> json_map \<Rightarrow> string rt_result" where
  "instrument_of nz data =
     (case required_string data ''coin'' of
        Inl err \<Rightarrow> Inl err
      | Inr coin \<Rightarrow> ok_or UnknownInstrument (bt_get (nz_instrument_by_coin nz) (to_ascii_uppercase coin)))"

definition observed_at_of :: "norm_ext \<Rightarrow> normalizer \<Rightarrow> json_map \<Rightarrow> timestamp \<Rightarrow> timestamp rt_result" where
  "observed_at_of nx nz data received_at =
     (case required data ''time'' of
        Inl err \<Rightarrow> Inl err
      | Inr v \<Rightarrow> timestamp_of nx v received_at (nz_maximum_source_delay_millis nz))"

text \<open>\<open>NormalizedProviderEvent::new\<close> with the metadata every Hyperliquid event shares.\<close>

definition new_event ::
  "norm_ext \<Rightarrow> string \<Rightarrow> timestamp \<Rightarrow> timestamp \<Rightarrow> string \<Rightarrow> nat \<Rightarrow> provider_payload \<Rightarrow> provider_event" where
  "new_event nx instrument_id observed_at received_at raw_sha256 ordinal payload =
     \<lparr> ne_contract_version = contract_version_rt, ne_normalizer_version = hyperliquid_version,
       ne_instrument_id = instrument_id, ne_source = ''hyperliquid'', ne_source_observed_at = observed_at,
       ne_received_at = received_at, ne_raw_sha256 = raw_sha256, ne_normalizer_ordinal = of_nat ordinal,
       ne_event_id = nx_event_id nx \<lparr> ei_normalizer = hyperliquid_version, ei_instrument_id = instrument_id,
         ei_source_observed_at = observed_at, ei_raw_sha256 = raw_sha256, ei_ordinal = of_nat ordinal,
         ei_payload = payload \<rparr>,
       ne_quality = quality_live, ne_payload = payload \<rparr>"

definition book_depth :: "nat \<Rightarrow> nat option" where
  "book_depth maximum_depth = find (\<lambda>candidate. maximum_depth \<le> candidate) [1, 5, 10, 20]"

text \<open>The book and its quote, once the frame is parsed.\<close>

definition book_events ::
  "norm_ext \<Rightarrow> string \<Rightarrow> timestamp \<Rightarrow> timestamp \<Rightarrow> string \<Rightarrow> book_level list \<Rightarrow> book_level list
   \<Rightarrow> (provider_event list) rt_result" where
  "book_events nx instrument_id observed_at received_at raw_sha256 bids asks =
     (if \<not> strictly_descending bids \<or> \<not> strictly_ascending asks then Inl InvalidPayload
      else if bids \<noteq> [] \<and> asks \<noteq> [] \<and> bl_price (hd bids) \<ge> bl_price (hd asks) then Inl CrossedBook
      else
        let maximum_depth = max (length bids) (length asks)
        in case book_depth maximum_depth of
          None \<Rightarrow> Inl BookTooDeep
        | Some depth \<Rightarrow>
            let book_type = (if maximum_depth > 1 then ''L2_MBP'' else ''L1_MBP'');
                event = new_event nx instrument_id observed_at received_at raw_sha256
            in Inr (event 0 (OrderBookSnapshot book_type (of_nat depth) 0 bids asks ''provider'' None)
                 # (if bids \<noteq> [] \<and> asks \<noteq> []
                    then [event 1 (Quote (bl_price (hd bids)) (bl_price (hd asks)) (bl_size (hd bids)) (bl_size (hd asks))
                            ''provider'')]
                    else [])))"

definition normalize_book ::
  "norm_ext \<Rightarrow> normalizer \<Rightarrow> json_map \<Rightarrow> timestamp \<Rightarrow> string \<Rightarrow> (provider_event list) rt_result" where
  "normalize_book nx nz frame received_at raw_sha256 =
     (case object_field frame ''data'' of
        Inl err \<Rightarrow> Inl err
      | Inr data \<Rightarrow>
     (case instrument_of nz data of
        Inl err \<Rightarrow> Inl err
      | Inr instrument_id \<Rightarrow>
     (case observed_at_of nx nz data received_at of
        Inl err \<Rightarrow> Inl err
      | Inr observed_at \<Rightarrow>
     (case book_sides data of
        Inl err \<Rightarrow> Inl err
      | Inr (bid_values, ask_values) \<Rightarrow>
     (case parse_levels nx bid_values of
        Inl err \<Rightarrow> Inl err
      | Inr bids \<Rightarrow>
     (case parse_levels nx ask_values of
        Inl err \<Rightarrow> Inl err
      | Inr asks \<Rightarrow> book_events nx instrument_id observed_at received_at raw_sha256 bids asks))))))"

text \<open>\<open>tid\<close>, else \<open>hash\<close>, else the observation time in milliseconds.\<close>

definition trade_id_of :: "norm_ext \<Rightarrow> json_map \<Rightarrow> timestamp \<Rightarrow> string rt_result" where
  "trade_id_of nx trade observed_at =
     (case opt_or (map_of trade ''tid'') (map_of trade ''hash'') of
        None \<Rightarrow> Inr (nx_number_text nx (JInt (observed_at div 1000000)))
      | Some v \<Rightarrow> value_identifier nx v)"

definition trade_side :: "json_map \<Rightarrow> aggressor_side rt_result" where
  "trade_side trade =
     (case required_string trade ''side'' of
        Inl err \<Rightarrow> Inl err
      | Inr side \<Rightarrow>
          if to_ascii_uppercase side = ''B'' then Inr Buyer
          else if to_ascii_uppercase side = ''A'' then Inr Seller
          else Inl InvalidPayload)"

definition normalize_trade ::
  "norm_ext \<Rightarrow> normalizer \<Rightarrow> timestamp \<Rightarrow> string \<Rightarrow> nat \<Rightarrow> json \<Rightarrow> provider_event rt_result" where
  "normalize_trade nx nz received_at raw_sha256 ordinal v =
     (case as_object v of
        None \<Rightarrow> Inl InvalidPayload
      | Some trade \<Rightarrow>
     (case instrument_of nz trade of
        Inl err \<Rightarrow> Inl err
      | Inr instrument_id \<Rightarrow>
     (case observed_at_of nx nz trade received_at of
        Inl err \<Rightarrow> Inl err
      | Inr observed_at \<Rightarrow>
     (case trade_id_of nx trade observed_at of
        Inl err \<Rightarrow> Inl err
      | Inr trade_id \<Rightarrow>
          if trade_id = [] then Inl InvalidPayload
          else
     (case trade_side trade of
        Inl err \<Rightarrow> Inl err
      | Inr side \<Rightarrow>
     (case field_positive nx trade ''px'' of
        Inl err \<Rightarrow> Inl err
      | Inr price \<Rightarrow>
     (case field_positive nx trade ''sz'' of
        Inl err \<Rightarrow> Inl err
      | Inr qty \<Rightarrow> Inr (new_event nx instrument_id observed_at received_at raw_sha256 ordinal
          (Trade price qty trade_id side ''regular'')))))))))"

fun collect_trades ::
  "norm_ext \<Rightarrow> normalizer \<Rightarrow> timestamp \<Rightarrow> string \<Rightarrow> nat \<Rightarrow> json list \<Rightarrow> (provider_event list) rt_result" where
  "collect_trades nx nz received_at raw_sha256 ordinal [] = Inr []"
| "collect_trades nx nz received_at raw_sha256 ordinal (v # vs) =
     (case normalize_trade nx nz received_at raw_sha256 ordinal v of
        Inl err \<Rightarrow> Inl err
      | Inr e \<Rightarrow>
          (case collect_trades nx nz received_at raw_sha256 (Suc ordinal) vs of
             Inl err \<Rightarrow> Inl err
           | Inr es \<Rightarrow> Inr (e # es)))"

definition normalize_trades ::
  "norm_ext \<Rightarrow> normalizer \<Rightarrow> json_map \<Rightarrow> timestamp \<Rightarrow> string \<Rightarrow> (provider_event list) rt_result" where
  "normalize_trades nx nz frame received_at raw_sha256 =
     (case Option.bind (map_of frame ''data'') as_array of
        None \<Rightarrow> Inl (MissingField ''data'')
      | Some trades \<Rightarrow>
          if trades = [] then Inl RtEmptyBatch
          else collect_trades nx nz received_at raw_sha256 0 trades)"

definition context_time ::
  "norm_ext \<Rightarrow> normalizer \<Rightarrow> json_map \<Rightarrow> json_map \<Rightarrow> timestamp \<Rightarrow> timestamp rt_result" where
  "context_time nx nz data ctx received_at =
     (case opt_or (map_of data ''time'') (map_of ctx ''time'') of
        None \<Rightarrow> Inr received_at
      | Some v \<Rightarrow> timestamp_of nx v received_at (nz_maximum_source_delay_millis nz))"

text \<open>The optional fields of the context, in the order the payload evaluates them.\<close>

definition context_payload :: "norm_ext \<Rightarrow> json_map \<Rightarrow> provider_payload rt_result" where
  "context_payload nx ctx =
     (case optional_positive nx (map_of ctx ''oraclePx'') of
        Inl err \<Rightarrow> Inl err
      | Inr oracle \<Rightarrow>
     (case optional_positive nx (map_of ctx ''externalPerpPx'') of
        Inl err \<Rightarrow> Inl err
      | Inr external \<Rightarrow>
     (case optional_positive nx (map_of ctx ''markPx'') of
        Inl err \<Rightarrow> Inl err
      | Inr mark \<Rightarrow>
     (case optional_positive nx (map_of ctx ''midPx'') of
        Inl err \<Rightarrow> Inl err
      | Inr mid \<Rightarrow>
     (case optional_decimal nx (map_of ctx ''funding'') of
        Inl err \<Rightarrow> Inl err
      | Inr funding \<Rightarrow>
     (case optional_positive nx (map_of ctx ''openInterest'') of
        Inl err \<Rightarrow> Inl err
      | Inr open_interest \<Rightarrow>
     (case optional_decimal nx (map_of ctx ''premium'') of
        Inl err \<Rightarrow> Inl err
      | Inr premium \<Rightarrow> Inr (AssetContext \<lparr> ac_mark_price = mark, ac_oracle_price = oracle,
          ac_external_oracle_price = external, ac_mid_price = mid, ac_funding_rate = funding,
          ac_open_interest = open_interest, ac_premium = premium, ac_market_status = ''active'',
          ac_oracle_status = (if external \<noteq> None then ''external_live''
            else if oracle \<noteq> None then ''internal_only'' else ''unavailable'') \<rparr>))))))))"

definition normalize_context ::
  "norm_ext \<Rightarrow> normalizer \<Rightarrow> json_map \<Rightarrow> timestamp \<Rightarrow> string \<Rightarrow> (provider_event list) rt_result" where
  "normalize_context nx nz frame received_at raw_sha256 =
     (case object_field frame ''data'' of
        Inl err \<Rightarrow> Inl err
      | Inr data \<Rightarrow>
     (case instrument_of nz data of
        Inl err \<Rightarrow> Inl err
      | Inr instrument_id \<Rightarrow>
          let ctx = unwrap_or data (Option.bind (map_of data ''ctx'') as_object)
          in
     (case context_time nx nz data ctx received_at of
        Inl err \<Rightarrow> Inl err
      | Inr observed_at \<Rightarrow>
     (case context_payload nx ctx of
        Inl err \<Rightarrow> Inl err
      | Inr payload \<Rightarrow> Inr [new_event nx instrument_id observed_at received_at raw_sha256 0 payload]))))"

definition normalize_with_raw_sha256 ::
  "norm_ext \<Rightarrow> normalizer \<Rightarrow> json \<Rightarrow> timestamp \<Rightarrow> string \<Rightarrow> (provider_event list) rt_result" where
  "normalize_with_raw_sha256 nx nz raw received_at raw_sha256 =
     (if \<not> valid_sha256_text raw_sha256 then Inl InvalidRawEvidence
      else case as_object raw of
        None \<Rightarrow> Inl FrameNotObject
      | Some frame \<Rightarrow>
          (case required_string frame ''channel'' of
             Inl err \<Rightarrow> Inl err
           | Inr channel \<Rightarrow>
               if channel = ''l2Book'' \<or> channel = ''bbo'' then normalize_book nx nz frame received_at raw_sha256
               else if channel = ''trades'' then normalize_trades nx nz frame received_at raw_sha256
               else if channel = ''activeAssetCtx'' then normalize_context nx nz frame received_at raw_sha256
               else Inl (UnsupportedChannel channel)))"

end
