(* ===== verification/Realtime_Transport.thy ===== *)
theory Realtime_Transport
  imports Realtime_Hub Realtime_Normalizer "HOL-Library.Product_Lexorder"
begin

text \<open>
  The Hyperliquid transport of \<open>crates/marketcow-realtime/src/lib.rs\<close>: the subscription set, control
  frames, one connection and the supervisor that reconnects. The socket is the sequence of what it
  yields, each message with the results of the sends the code makes on it; a list that ends stands
  for a connection that is still open. The output channel is a function from the number of messages
  sent to what \<open>try_send\<close> answers.
\<close>

section \<open>Subscriptions\<close>

datatype subscription_kind = L2Book | Trades | ActiveAssetCtx

fun kind_rank :: "subscription_kind \<Rightarrow> nat" where
  "kind_rank L2Book = 0"
| "kind_rank Trades = 1"
| "kind_rank ActiveAssetCtx = 2"

lemma kind_rank_inject: "kind_rank a = kind_rank b \<longleftrightarrow> a = b"
  by (cases a; cases b) simp_all

text \<open>The derived order of the enumeration.\<close>

instantiation subscription_kind :: linorder
begin

definition less_eq_subscription_kind :: "subscription_kind \<Rightarrow> subscription_kind \<Rightarrow> bool" where
  "less_eq_subscription_kind a b = (kind_rank a \<le> kind_rank b)"

definition less_subscription_kind :: "subscription_kind \<Rightarrow> subscription_kind \<Rightarrow> bool" where
  "less_subscription_kind a b = (kind_rank a < kind_rank b)"

instance
  by standard (auto simp: less_eq_subscription_kind_def less_subscription_kind_def kind_rank_inject)

end

type_synonym subscription = "string \<times> subscription_kind"

fun as_wire :: "subscription_kind \<Rightarrow> string" where
  "as_wire L2Book = ''l2Book''"
| "as_wire Trades = ''trades''"
| "as_wire ActiveAssetCtx = ''activeAssetCtx''"

definition wire_message :: "subscription \<Rightarrow> json" where
  "wire_message sub = JObject [(''method'', JString ''subscribe''),
     (''subscription'', JObject [(''type'', JString (as_wire (snd sub))), (''coin'', JString (fst sub))])]"

fun subscription_keys ::
  "bool \<Rightarrow> bool \<Rightarrow> bool \<Rightarrow> (string \<times> string) list \<Rightarrow> string set \<Rightarrow> (subscription list) rt_result" where
  "subscription_keys book trade context [] seen = Inr []"
| "subscription_keys book trade context ((instrument, symbol) # ms) seen =
     (let coin = to_ascii_uppercase (trim symbol)
      in if trim instrument = [] \<or> \<not> valid_coin coin \<or> coin \<in> seen then Inl RtInvalidConfig
         else (case subscription_keys book trade context ms (insert coin seen) of
                 Inl err \<Rightarrow> Inl err
               | Inr keys \<Rightarrow> Inr ((if book then [(coin, L2Book)] else []) @ (if trade then [(coin, Trades)] else [])
                   @ (if context then [(coin, ActiveAssetCtx)] else []) @ keys)))"

definition hyperliquid_subscriptions ::
  "(string, string) btree \<Rightarrow> data_type set \<Rightarrow> (subscription list) rt_result" where
  "hyperliquid_subscriptions mappings data_types =
     (if mappings = [] \<or> data_types = {} \<or> DtMarketState \<in> data_types \<or> DtStreamStatus \<in> data_types
      then Inl RtInvalidConfig
      else map_sum id bs_of_list
        (subscription_keys (DtQuote \<in> data_types \<or> DtOrderBook \<in> data_types) (DtTrade \<in> data_types)
           (DtAssetContext \<in> data_types) mappings {}))"

definition valid_subscription_set :: "subscription list \<Rightarrow> bool" where
  "valid_subscription_set subs =
     (list_all (\<lambda>sub. valid_coin (fst sub) \<and> fst sub = to_ascii_uppercase (fst sub)) subs \<and> distinct subs)"

section \<open>Configuration and errors\<close>

record transport_config =
  tc_scheme :: string
  tc_host :: "string option"
  tc_port :: "nat option"
  tc_path :: string
  tc_query :: "string option"
  tc_fragment :: "string option"
  tc_username :: string
  tc_password :: "string option"
  tc_connect_timeout :: nat
  tc_reconnect_delay :: nat
  tc_heartbeat_interval :: nat
  tc_maximum_reconnect_attempts :: u32
  tc_maximum_frame_bytes :: nat

datatype transport_error =
    TrInvalidConfig
  | ConnectTimeout
  | ConnectFailed
  | HandshakeRejected
  | SendFailed
  | ReadFailed
  | FrameTooLarge
  | InvalidJson
  | UnexpectedBinaryFrame
  | InvalidFrame
  | InvalidControlFrame
  | Normalization realtime_error
  | Backpressure
  | ConsumerClosed
  | ReconnectExhausted

fun reason_code :: "transport_error \<Rightarrow> string" where
  "reason_code TrInvalidConfig = ''invalid_config''"
| "reason_code ConnectTimeout = ''connect_timeout''"
| "reason_code ConnectFailed = ''connect_failed''"
| "reason_code HandshakeRejected = ''handshake_rejected''"
| "reason_code SendFailed = ''subscription_send_failed''"
| "reason_code ReadFailed = ''read_failed''"
| "reason_code FrameTooLarge = ''frame_too_large''"
| "reason_code InvalidJson = ''invalid_json''"
| "reason_code UnexpectedBinaryFrame = ''unexpected_binary_frame''"
| "reason_code InvalidFrame = ''invalid_frame''"
| "reason_code InvalidControlFrame = ''invalid_control_frame''"
| "reason_code (Normalization err) = ''normalization_failed''"
| "reason_code Backpressure = ''backpressure''"
| "reason_code ConsumerClosed = ''consumer_closed''"
| "reason_code ReconnectExhausted = ''reconnect_exhausted''"

definition transport_config_validate :: "transport_config \<Rightarrow> transport_error option" where
  "transport_config_validate c =
     (if \<not> (tc_scheme c = ''wss'' \<and> tc_host c = Some ''api.hyperliquid.xyz'' \<and> tc_port c = None
            \<and> tc_path c = ''/ws'' \<and> tc_query c = None \<and> tc_fragment c = None \<and> tc_username c = []
            \<and> tc_password c = None)
         \<or> tc_connect_timeout c = 0 \<or> tc_reconnect_delay c = 0 \<or> tc_heartbeat_interval c = 0
         \<or> tc_maximum_reconnect_attempts c = 0
         \<or> \<not> (1 \<le> tc_maximum_frame_bytes c \<and> tc_maximum_frame_bytes c \<le> 1048576)
      then Some TrInvalidConfig else None)"

definition production_config :: transport_config where
  "production_config = \<lparr> tc_scheme = ''wss'', tc_host = Some ''api.hyperliquid.xyz'', tc_port = None,
     tc_path = ''/ws'', tc_query = None, tc_fragment = None, tc_username = [], tc_password = None,
     tc_connect_timeout = 5000, tc_reconnect_delay = 500, tc_heartbeat_interval = 30000,
     tc_maximum_reconnect_attempts = 8, tc_maximum_frame_bytes = 1048576 \<rparr>"

section \<open>Control frames\<close>

definition control_kind :: "json_map \<Rightarrow> subscription_kind option" where
  "control_kind subscription =
     (case Option.bind (map_of subscription ''type'') as_str of
        None \<Rightarrow> None
      | Some t \<Rightarrow>
          if t = ''l2Book'' then Some L2Book
          else if t = ''trades'' then Some Trades
          else if t = ''activeAssetCtx'' then Some ActiveAssetCtx
          else None)"

definition handle_control_frame ::
  "json \<Rightarrow> subscription set \<Rightarrow> transport_error + (bool \<times> subscription set)" where
  "handle_control_frame raw pending =
     (case as_object raw of
        None \<Rightarrow> Inl InvalidControlFrame
      | Some members \<Rightarrow>
          let channel = Option.bind (map_of members ''channel'') as_str
          in if channel = Some ''pong'' then Inr (True, pending)
             else if channel = Some ''subscriptionResponse'' then
               (case Option.bind (map_of members ''data'') as_object of
                  None \<Rightarrow> Inl InvalidControlFrame
                | Some data \<Rightarrow>
                    let subscription = unwrap_or data (Option.bind (map_of data ''subscription'') as_object)
                    in (case opt_filter (\<lambda>coin. valid_coin coin \<and> coin = to_ascii_uppercase coin)
                               (Option.bind (map_of subscription ''coin'') as_str) of
                          None \<Rightarrow> Inl InvalidControlFrame
                        | Some coin \<Rightarrow>
                            (case control_kind subscription of
                               None \<Rightarrow> Inl InvalidControlFrame
                             | Some kind \<Rightarrow>
                                 if (coin, kind) \<notin> pending then Inl InvalidControlFrame
                                 else Inr (True, pending - {(coin, kind)}))))
             else Inr (False, pending))"

section \<open>One connection\<close>

datatype send_result = Sent | ChannelFull | ChannelClosed

text \<open>The messages sent so far, and the next one if the channel takes it.\<close>

definition try_output ::
  "(nat \<Rightarrow> send_result) \<Rightarrow> transport_output \<Rightarrow> transport_output list \<Rightarrow> transport_error option \<times> transport_output list" where
  "try_output channel msg outs =
     (case channel (length outs) of
        Sent \<Rightarrow> (None, outs @ [msg])
      | ChannelFull \<Rightarrow> (Some Backpressure, outs)
      | ChannelClosed \<Rightarrow> (Some ConsumerClosed, outs))"

datatype connect_outcome = ConnectTimedOut | ConnectRefused | ConnectStatus nat

text \<open>
  What the select loop of a connection sees: a change of the shutdown signal and whether it asks to
  stop, a text frame (length, parsed text, receive time, digest), and the other messages; a ping and
  a heartbeat carry whether the send they cause succeeds.
\<close>

datatype socket_event =
    ShutdownChanged bool
  | TextFrame nat "json option" timestamp string
  | PingFrame bool
  | PongFrame
  | CloseFrame
  | BinaryFrame
  | OtherFrame
  | ReadFault
  | StreamEnded
  | Heartbeat bool

record connection =
  cn_shutdown_before :: bool
  cn_connect :: connect_outcome
  cn_sends_ok :: bool
  cn_events :: "socket_event list"
  cn_shutdown_in_delay :: bool

datatype connection_result = Stopped | Disconnected | Broken transport_error | StillOpen

type_synonym transport_step = "connection_result \<times> transport_output list"

fun run_socket ::
  "transport_config \<Rightarrow> norm_ext \<Rightarrow> normalizer \<Rightarrow> (nat \<Rightarrow> send_result) \<Rightarrow> u32 \<Rightarrow> subscription set \<Rightarrow> bool
   \<Rightarrow> socket_event list \<Rightarrow> transport_output list \<Rightarrow> transport_step" where
  "run_socket c nx nz channel attempt pending reported [] outs = (StillOpen, outs)"
| "run_socket c nx nz channel attempt pending reported (ShutdownChanged stop # es) outs =
     (if stop then (Stopped, outs) else run_socket c nx nz channel attempt pending reported es outs)"
| "run_socket c nx nz channel attempt pending reported (TextFrame len text received_at raw_sha256 # es) outs =
     (if len > tc_maximum_frame_bytes c then (Broken FrameTooLarge, outs)
      else case text of
        None \<Rightarrow> (Broken InvalidJson, outs)
      | Some raw \<Rightarrow>
          (case handle_control_frame raw pending of
             Inl err \<Rightarrow> (Broken err, outs)
           | Inr (True, pending') \<Rightarrow>
               if pending' = {} \<and> \<not> reported
               then (case try_output channel (SubscriptionsReady attempt) outs of
                       (Some err, outs') \<Rightarrow> (Broken err, outs')
                     | (None, outs') \<Rightarrow> run_socket c nx nz channel attempt pending' True es outs')
               else run_socket c nx nz channel attempt pending' reported es outs
           | Inr (False, pending') \<Rightarrow>
               (case normalize_with_raw_sha256 nx nz raw received_at raw_sha256 of
                  Inl err \<Rightarrow> (Broken (Normalization err), outs)
                | Inr events \<Rightarrow>
                    (case try_output channel (OutEvents attempt events) outs of
                       (Some err, outs') \<Rightarrow> (Broken err, outs')
                     | (None, outs') \<Rightarrow> run_socket c nx nz channel attempt pending' reported es outs'))))"
| "run_socket c nx nz channel attempt pending reported (PingFrame sent # es) outs =
     (if sent then run_socket c nx nz channel attempt pending reported es outs else (Broken SendFailed, outs))"
| "run_socket c nx nz channel attempt pending reported (PongFrame # es) outs =
     run_socket c nx nz channel attempt pending reported es outs"
| "run_socket c nx nz channel attempt pending reported (CloseFrame # es) outs = (Disconnected, outs)"
| "run_socket c nx nz channel attempt pending reported (StreamEnded # es) outs = (Disconnected, outs)"
| "run_socket c nx nz channel attempt pending reported (BinaryFrame # es) outs = (Broken UnexpectedBinaryFrame, outs)"
| "run_socket c nx nz channel attempt pending reported (OtherFrame # es) outs = (Broken InvalidFrame, outs)"
| "run_socket c nx nz channel attempt pending reported (ReadFault # es) outs = (Broken ReadFailed, outs)"
| "run_socket c nx nz channel attempt pending reported (Heartbeat sent # es) outs =
     (if sent then run_socket c nx nz channel attempt pending reported es outs else (Broken SendFailed, outs))"

definition run_connection ::
  "transport_config \<Rightarrow> norm_ext \<Rightarrow> normalizer \<Rightarrow> subscription list \<Rightarrow> (nat \<Rightarrow> send_result) \<Rightarrow> u32 \<Rightarrow> connection
   \<Rightarrow> transport_output list \<Rightarrow> transport_step" where
  "run_connection c nx nz subs channel attempt conn outs =
     (case cn_connect conn of
        ConnectTimedOut \<Rightarrow> (Broken ConnectTimeout, outs)
      | ConnectRefused \<Rightarrow> (Broken ConnectFailed, outs)
      | ConnectStatus status \<Rightarrow>
          if status \<noteq> 101 then (Broken HandshakeRejected, outs)
          else if \<not> cn_sends_ok conn then (Broken SendFailed, outs)
          else (case try_output channel (OutConnected attempt) outs of
                  (Some err, outs') \<Rightarrow> (Broken err, outs')
                | (None, outs') \<Rightarrow>
                    run_socket c nx nz channel attempt (set subs) False (cn_events conn) outs'))"

section \<open>The supervisor\<close>

text \<open>
  The attempts from the given one on; \<open>None\<close> when the connections end before the supervisor does.
\<close>

fun run_attempts ::
  "transport_config \<Rightarrow> norm_ext \<Rightarrow> normalizer \<Rightarrow> subscription list \<Rightarrow> (nat \<Rightarrow> send_result) \<Rightarrow> u32 \<Rightarrow> connection list
   \<Rightarrow> transport_output list \<Rightarrow> (transport_error + unit) option \<times> transport_output list" where
  "run_attempts c nx nz subs channel attempt [] outs = (None, outs)"
| "run_attempts c nx nz subs channel attempt (conn # conns) outs =
     (if cn_shutdown_before conn then (Some (Inr ()), outs)
      else
        let after = (\<lambda>report. case report of
              (Some err, outs') \<Rightarrow> (Some (Inl err), outs')
            | (None, outs') \<Rightarrow>
                if attempt = tc_maximum_reconnect_attempts c then (Some (Inl ReconnectExhausted), outs')
                else if cn_shutdown_in_delay conn then (Some (Inr ()), outs')
                else run_attempts c nx nz subs channel (attempt + 1) conns outs')
        in case run_connection c nx nz subs channel attempt conn outs of
          (StillOpen, outs') \<Rightarrow> (None, outs')
        | (Stopped, outs') \<Rightarrow> (Some (Inr ()), outs')
        | (Disconnected, outs') \<Rightarrow> after (try_output channel (OutDegraded attempt ''upstream_disconnected'' True) outs')
        | (Broken err, outs') \<Rightarrow>
            if err = Backpressure then (Some (Inl Backpressure), outs')
            else after (try_output channel
              (OutDegraded attempt (reason_code err) (attempt < tc_maximum_reconnect_attempts c)) outs'))"

definition run_hyperliquid_transport ::
  "transport_config \<Rightarrow> norm_ext \<Rightarrow> normalizer \<Rightarrow> subscription list \<Rightarrow> (nat \<Rightarrow> send_result) \<Rightarrow> connection list
   \<Rightarrow> (transport_error + unit) option \<times> transport_output list" where
  "run_hyperliquid_transport c nx nz subs channel conns =
     (case transport_config_validate c of
        Some err \<Rightarrow> (Some (Inl err), [])
      | None \<Rightarrow>
          if subs = [] \<or> \<not> valid_subscription_set subs then (Some (Inl TrInvalidConfig), [])
          else run_attempts c nx nz subs channel 1 conns [])"

end
