(* ===== verification/Realtime_Safety.thy ===== *)
theory Realtime_Safety
  imports Realtime_Hub
begin

text \<open>
  Reachable hubs: opened on an empty directory, fed with transport outputs under any behaviour of the
  disk, checkpointed, closed, deprived of checkpoint files, and reopened from what the disk holds.
  The invariant \<open>hub_ok\<close> ties the projection to the writer and the writer to its disk.
\<close>

section \<open>Reachable hubs\<close>

inductive hub_run :: "durable_ext \<Rightarrow> string \<Rightarrow> string \<Rightarrow> nat \<Rightarrow> realtime_hub \<Rightarrow> bool"
  for dx s r cap where
  opened: "config_ok root s r limit cap \<Longrightarrow>
    hub_open dx ok now [] ixf \<lparr> cs_current = None, cs_previous = None \<rparr> root s r limit cap = Inr h \<Longrightarrow>
    hub_run dx s r cap h"
| ingested: "hub_run dx s r cap h \<Longrightarrow> ingest dx clock disk ok now out g h = (res, h', g') \<Longrightarrow> hub_run dx s r cap h'"
| checkpointed: "hub_run dx s r cap h \<Longrightarrow> hub_checkpoint dx now h = (res', h') \<Longrightarrow> hub_run dx s r cap h'"
| closed: "hub_run dx s r cap h \<Longrightarrow> hub_run dx s r cap (fail_closed now reason h)"
| damaged: "hub_run dx s r cap h \<Longrightarrow> damaged (cs_current (dw_checkpoints (hb_writer h))) cur \<Longrightarrow>
    damaged (cs_previous (dw_checkpoints (hb_writer h))) prev \<Longrightarrow>
    hub_run dx s r cap (h\<lparr> hb_writer := (hb_writer h)\<lparr> dw_checkpoints := \<lparr> cs_current = cur, cs_previous = prev \<rparr> \<rparr> \<rparr>)"
| reopened: "hub_run dx s r cap h \<Longrightarrow> config_ok root s r limit cap \<Longrightarrow>
    hub_open dx ok now (rw_directory (dw_wal (hb_writer h))) ixf (dw_checkpoints (hb_writer h)) root s r limit cap = Inr h' \<Longrightarrow>
    hub_run dx s r cap h'"

section \<open>The invariant\<close>

definition hub_ok :: "durable_ext \<Rightarrow> string \<Rightarrow> string \<Rightarrow> nat \<Rightarrow> realtime_hub \<Rightarrow> bool" where
  "hub_ok dx s r cap h \<longleftrightarrow>
     durable_ok dx (hb_writer h)
     \<and> dw_stream_id (hb_writer h) = s \<and> dw_config_revision (hb_writer h) = r \<and> dw_replay_capacity (hb_writer h) = cap
     \<and> hp_stream_id (hb_projection h) = s \<and> hp_config_revision (hb_projection h) = r
     \<and> hp_public_sequence (hb_projection h) = sq_sequence (dw_replay (hb_writer h))
     \<and> hp_wal_cursor (hb_projection h) = rt_wal_cursor (dw_wal (hb_writer h))
     \<and> hp_replay (hb_projection h) = sq_replay (dw_replay (hb_writer h))
     \<and> (rw_poisoned (dw_wal (hb_writer h)) \<longrightarrow> hb_lifecycle h = FailedClosed)"

lemma hub_store_fields [simp]:
  "hb_writer (hub_store now health h) = hb_writer h"
  "hb_lifecycle (hub_store now health h) = hb_lifecycle h"
  "hb_last_attempt (hub_store now health h) = hb_last_attempt h"
  by (simp_all add: hub_store_def)

lemma hub_fail_fields [simp]:
  "hub_fail now reason h = (Inl (InvalidTransition reason), fail_state now reason h)"
  "hb_writer (fail_state now reason h) = hb_writer h"
  "hb_lifecycle (fail_state now reason h) = FailedClosed"
  by (simp_all add: hub_fail_def fail_state_def)

text \<open>Publishing a projection of a writer that satisfies the invariant.\<close>

lemma hub_ok_store:
  assumes "durable_ok dx (hb_writer h)" and "dw_stream_id (hb_writer h) = s" and "dw_config_revision (hb_writer h) = r"
    and "dw_replay_capacity (hb_writer h) = cap" and "hp_stream_id (hb_projection h) = s"
    and "hp_config_revision (hb_projection h) = r" and "rw_poisoned (dw_wal (hb_writer h)) \<longrightarrow> hb_lifecycle h = FailedClosed"
  shows "hub_ok dx s r cap (hub_store now health h)"
  using assms by (simp add: hub_ok_def hub_store_def projection_from_writer_def)

lemma hub_ok_fail: "hub_ok dx s r cap h \<Longrightarrow> hub_ok dx s r cap (fail_state now reason h)"
  unfolding fail_state_def by (rule hub_ok_store) (simp_all add: hub_ok_def)

lemma apply_batch_frame:
  "apply_batch_rt dx clock disk ok events w = (res, w') \<Longrightarrow> dw_stream_id w' = dw_stream_id w
   \<and> dw_config_revision w' = dw_config_revision w \<and> dw_replay_capacity w' = dw_replay_capacity w
   \<and> dw_checkpoints w' = dw_checkpoints w"
  by (auto simp: apply_batch_rt_def split: if_splits sum.splits prod.splits)

text \<open>What one ingested batch does.\<close>

lemma ingest_events_cases:
  assumes h: "hub_ok dx s r cap h" and len: "text_nonempty (dx_wal dx)"
    and i: "ingest_events dx clock disk ok now attempt events g h = (res, h', g')"
  shows "hub_ok dx s r cap h' \<and>
    (case res of
       Inl err \<Rightarrow> hb_lifecycle h' = FailedClosed \<and> g' = g \<and> dw_replay (hb_writer h') = dw_replay (hb_writer h)
         \<and> rw_records (dw_wal (hb_writer h')) = rw_records (dw_wal (hb_writer h))
     | Inr n \<Rightarrow> hb_lifecycle h = Ready attempt \<and> hb_lifecycle h' = Ready attempt
         \<and> (\<exists>rs. rw_records (dw_wal (hb_writer h')) = rw_records (dw_wal (hb_writer h)) @ rs \<and> map pr_event rs = events
              \<and> g' = send_all (map (stream_of s) (filter pr_applied rs)) g \<and> n = length (filter pr_applied rs)
              \<and> length (gw_queue g') \<le> gw_capacity g'))"
proof (cases "hb_lifecycle h \<noteq> Ready attempt \<or> events = [] \<or> try_reserve_many (length events) g \<noteq> None")
  case True
  then obtain reason where "res = Inl (InvalidTransition reason)" "h' = fail_state now reason h" "g' = g"
    using i by (auto simp: ingest_events_def split: if_splits option.splits reserve_error.splits)
  with hub_ok_fail [OF h] show ?thesis by simp
next
  case False
  obtain res1 w where a: "apply_batch_rt dx clock disk ok events (hb_writer h) = (res1, w)" by fastforce
  have dok: "durable_ok dx (hb_writer h)" using h by (simp add: hub_ok_def)
  note fr = apply_batch_frame [OF a] and c = apply_batch_cases [OF dok len a]
  have np: "\<not> rw_poisoned (dw_wal (hb_writer h))" using h False by (auto simp: hub_ok_def)
  show ?thesis
  proof (cases res1)
    case (Inl err)
    then have "res = Inl (HubDurability err)" "g' = g"
      and h': "h' = fail_state now ''authoritative_persistence_failed'' (h\<lparr> hb_writer := w \<rparr>)"
      using i a False by (auto simp: ingest_events_def)
    moreover have "hub_ok dx s r cap h'"
      unfolding h' fail_state_def by (rule hub_ok_store) (use c fr h in \<open>simp_all add: hub_ok_def\<close>)
    ultimately show ?thesis using c Inl by (simp add: frame_result_def)
  next
    case (Inr outs)
    then have res: "res = Inr (length (published_events outs))" and g': "g' = send_all (published_events outs) g"
      and h': "h' = hub_store now (HealthReady attempt) (h\<lparr> hb_writer := w \<rparr>)"
      using i a False by (auto simp: ingest_events_def)
    let ?rs = "map do_persisted outs"
    from c Inr have outs: "outs = map (outcome_of s) ?rs" "\<not> rw_poisoned (dw_wal w)"
      "rw_records (dw_wal w) = rw_records (dw_wal (hb_writer h)) @ ?rs" "map pr_event ?rs = events"
      using h by (simp_all add: frame_result_def comp_def hub_ok_def)
    have pub: "published_events (map (outcome_of s) rs) = map (stream_of s) (filter pr_applied rs)" for rs
      by (induction rs) (simp_all add: published_events_def map_filter_simps outcome_of_def)
    have pub': "published_events outs = map (stream_of s) (filter pr_applied ?rs)"
      using pub [of ?rs] outs(1) by simp
    have "hub_ok dx s r cap h'"
      unfolding h' by (rule hub_ok_store) (use c fr h outs in \<open>simp_all add: hub_ok_def\<close>)
    moreover have "length (filter pr_applied ?rs) \<le> length events"
      using outs(4) length_filter_le [of pr_applied ?rs] by (metis length_map)
    then have "length (gw_queue g') \<le> gw_capacity g'"
      using False by (simp add: g' send_all_def pub' try_reserve_many_def split: if_splits)
    ultimately show ?thesis
      using False outs(3,4) by (simp add: res h' g' pub')
  qed
qed

lemma ingest_ok:
  assumes h: "hub_ok dx s r cap h" and len: "text_nonempty (dx_wal dx)"
    and i: "ingest dx clock disk ok now out g h = (res, h', g')"
  shows "hub_ok dx s r cap h'"
proof (cases out)
  case (OutEvents attempt events)
  with ingest_events_cases [OF h len] i h show ?thesis
    by (auto simp: ingest_def split: if_splits)
next
  case (OutConnected attempt)
  have "hub_ok dx s r cap (hub_store now (HealthConnected attempt) (h\<lparr> hb_lifecycle := Connected attempt, hb_last_attempt := attempt \<rparr>))"
    if "hb_lifecycle h \<noteq> FailedClosed" by (rule hub_ok_store) (use h that in \<open>auto simp: hub_ok_def\<close>)
  with OutConnected i h show ?thesis by (auto simp: ingest_def hub_ok_fail split: if_splits)
next
  case (SubscriptionsReady attempt)
  have "hub_ok dx s r cap (hub_store now (HealthReady attempt) (h\<lparr> hb_lifecycle := Ready attempt \<rparr>))"
    if "hb_lifecycle h \<noteq> FailedClosed" by (rule hub_ok_store) (use h that in \<open>auto simp: hub_ok_def\<close>)
  with SubscriptionsReady i h show ?thesis by (auto simp: ingest_def hub_ok_fail split: if_splits)
next
  case (OutDegraded attempt reason retryable)
  have "hub_ok dx s r cap (hub_store now (HealthDegraded attempt reason retryable)
      (h\<lparr> hb_last_attempt := attempt, hb_lifecycle := Degraded attempt retryable \<rparr>))"
    if "hb_lifecycle h \<noteq> FailedClosed" by (rule hub_ok_store) (use h that in \<open>auto simp: hub_ok_def\<close>)
  with OutDegraded i h show ?thesis by (auto simp: ingest_def hub_ok_fail split: if_splits)
qed

section \<open>Opening\<close>

text \<open>An empty directory, as the state of a writer that has written nothing.\<close>

definition fresh_writer :: "durable_ext \<Rightarrow> string \<Rightarrow> string \<Rightarrow> nat \<Rightarrow> durable_writer" where
  "fresh_writer dx s r cap = \<lparr> dw_root = [], dw_stream_id = s, dw_config_revision = r, dw_replay_capacity = cap,
     dw_wal = \<lparr> rw_directory = [], rw_index_file = None, rw_stream_id = s, rw_config_revision = r,
       rw_max_segment_bytes = 0, rw_current_path = None, rw_current_bytes = 0, rw_current_segment_id = 0,
       rw_records = [], rw_applied_event_ids = {}, rw_sparse_index = index_of (dx_wal dx) (s, r) [],
       rw_sparse_index_healthy = False, rw_poisoned = False \<rparr>,
     dw_checkpoints = \<lparr> cs_current = None, cs_previous = None \<rparr>, dw_replay = window_of s cap [],
     dw_recovered_checkpoint_cursor = None, dw_poisoned = False \<rparr>"

lemma fresh_disk_ok: "disk_ok dx (fresh_writer dx s r cap) [] []"
  by (auto simp: disk_ok_def disk_holds_def fresh_writer_def log_scope_def index_starts_def store_fits_def readable_def
      verify_start_rt_def vr_ok_def)

lemma hub_ok_opened:
  assumes d: "disk_ok dx w rs es" and sc: "log_scope (dw_wal w) = (dw_stream_id w, dw_config_revision w)"
    and cfg: "config_ok root (dw_stream_id w) (dw_config_revision w) limit (dw_replay_capacity w)"
    and op: "hub_open dx ok now (rw_directory (dw_wal w)) ixf (dw_checkpoints w) root (dw_stream_id w)
      (dw_config_revision w) limit (dw_replay_capacity w) = Inr h"
  shows "hub_ok dx (dw_stream_id w) (dw_config_revision w) (dw_replay_capacity w) h
    \<and> rw_records (dw_wal (hb_writer h)) = rs"
proof -
  from op obtain w' where w': "writer_open dx ok (rw_directory (dw_wal w)) ixf (dw_checkpoints w) root (dw_stream_id w)
      (dw_config_revision w) limit (dw_replay_capacity w) = Inr w'"
    and h: "h = \<lparr> hb_writer = w', hb_projection = projection_from_writer now w' (dw_stream_id w) (dw_config_revision w) HealthStarting,
      hb_lifecycle = Starting, hb_last_attempt = 0 \<rparr>" by (auto simp: hub_open_def split: sum.splits)
  have ns: "\<not> stuck dx (dw_checkpoints w) rs" using reopen_disk [OF d sc cfg, of ok ixf] w' by auto
  from reopen_disk [OF d sc cfg, of ok ixf, unfolded if_not_P [OF ns]] w' obtain st where
    "durable_ok dx w'" "\<not> rw_poisoned (dw_wal w')" "log_state (dx_wal dx) (dw_wal w') st" "vr_records st = rs"
    "dw_stream_id w' = dw_stream_id w" "dw_config_revision w' = dw_config_revision w"
    "dw_replay_capacity w' = dw_replay_capacity w" by auto
  then show ?thesis by (simp add: h hub_ok_def projection_from_writer_def log_state_def)
qed

text \<open>Everything the memory of a reachable writer holds is found again by a reopening that succeeds.\<close>

lemma reopened_extends:
  assumes h: "hub_ok dx s r cap h" and cfg: "config_ok root s r limit cap"
    and op: "hub_open dx ok now (rw_directory (dw_wal (hb_writer h))) ixf (dw_checkpoints (hb_writer h)) root s r limit cap = Inr h'"
  shows "hub_ok dx s r cap h' \<and> (\<exists>rs. rw_records (dw_wal (hb_writer h')) = rw_records (dw_wal (hb_writer h)) @ rs
    \<and> (\<not> rw_poisoned (dw_wal (hb_writer h)) \<longrightarrow> rs = []))"
proof -
  let ?w = "hb_writer h"
  have id: "dw_stream_id ?w = s" "dw_config_revision ?w = r" "dw_replay_capacity ?w = cap" and dok: "durable_ok dx ?w"
    using h by (simp_all add: hub_ok_def)
  have sc: "log_scope (dw_wal ?w) = (dw_stream_id ?w, dw_config_revision ?w)" using dok by (simp add: durable_ok_def)
  have vc: "validate_config (root @ ''/wal'') s r limit = None" "validate_root root = None" "0 < cap"
    using cfg by (simp_all add: config_ok_def)
  have nt: "\<not> disk_torn (dx_wal dx) (dw_wal ?w)"
  proof
    assume "disk_torn (dx_wal dx) (dw_wal ?w)"
    from torn_wal_open [OF this sc [unfolded id] vc(1)] op vc(2,3) show False
      by (simp add: hub_open_def writer_open_def)
  qed
  have "\<exists>rs es. disk_ok dx ?w (rw_records (dw_wal ?w) @ rs) es \<and> (\<not> rw_poisoned (dw_wal ?w) \<longrightarrow> rs = [])"
  proof (cases "rw_poisoned (dw_wal ?w)")
    case True
    then have "disk_torn (dx_wal dx) (dw_wal ?w) \<or> (\<exists>rs es. disk_ok dx ?w (rw_records (dw_wal ?w) @ rs) es)"
      using dok unfolding durable_ok_def by presburger
    with nt True show ?thesis by blast
  next
    case False
    from durable_ok_healthy [OF dok this] obtain es where "disk_ok dx ?w (rw_records (dw_wal ?w)) es" by metis
    then show ?thesis by (intro exI [of _ "[]"] exI [of _ es]) simp
  qed
  then obtain rs es where d: "disk_ok dx ?w (rw_records (dw_wal ?w) @ rs) es" "\<not> rw_poisoned (dw_wal ?w) \<longrightarrow> rs = []" by blast
  from hub_ok_opened [OF d(1) sc cfg [folded id] op [folded id]] d(2) show ?thesis by (auto simp: id)
qed

lemma hub_ok_run: "hub_run dx s r cap h \<Longrightarrow> text_nonempty (dx_wal dx) \<Longrightarrow> hub_ok dx s r cap h"
proof (induction rule: hub_run.induct)
  case (opened root limit ok now ixf h)
  have sc: "log_scope (dw_wal (fresh_writer dx s r cap)) = (dw_stream_id (fresh_writer dx s r cap), dw_config_revision (fresh_writer dx s r cap))"
    by (simp add: fresh_writer_def log_scope_def)
  from hub_ok_opened [OF fresh_disk_ok sc, of root limit ok now ixf h] opened.hyps
  show ?case by (simp add: fresh_writer_def)
next
  case (ingested h clock disk ok now out g res h' g')
  from ingest_ok [OF ingested.IH [OF ingested.prems] ingested.prems ingested.hyps(2)] show ?case .
next
  case (checkpointed h now res' h')
  then have h: "hub_ok dx s r cap h" by blast
  obtain res w' where cp: "checkpoint_rt dx now (hb_writer h) = (res, w')" by fastforce
  have dok: "durable_ok dx (hb_writer h)" using h by (simp add: hub_ok_def)
  from checkpoint_cases [OF dok cp] checkpointed.hyps(2) cp h show ?case
    by (auto simp: hub_checkpoint_def hub_ok_def split: if_splits sum.splits)
next
  case (closed h now reason)
  then have "hub_ok dx s r cap h" by blast
  then show ?case unfolding fail_closed_def by (intro hub_ok_store) (simp_all add: hub_ok_def)
next
  case (damaged h cur prev)
  then have h: "hub_ok dx s r cap h" by blast
  then have "durable_ok dx (hb_writer h)" by (simp add: hub_ok_def)
  from durable_ok_store [OF this store_fits_damaged [OF _ damaged.hyps(2,3)]]
  have "durable_ok dx ((hb_writer h)\<lparr> dw_checkpoints := \<lparr> cs_current = cur, cs_previous = prev \<rparr> \<rparr>)" by blast
  with h show ?case by (simp add: hub_ok_def)
next
  case (reopened h root limit ok now ixf h')
  then have "hub_ok dx s r cap h" by blast
  from reopened_extends [OF this reopened.hyps(2,3)] show ?case by blast
qed

end
