(* ===== verification/Realtime_Owner.thy ===== *)
theory Realtime_Owner
  imports Realtime_Transport Realtime_Safety
begin

text \<open>
  The owner task of \<open>crates/marketcowd/src/main.rs\<close> (\<open>start_hyperliquid_shadow\<close>): it drains the
  transport's outputs into the hub, records lifecycle transitions, takes a checkpoint after every
  thousand published events and at shutdown, while the gateway task forwards the queued events.
  An input carries one transport output with what the environment does around it.
\<close>

record owner_input =
  oi_output :: transport_output
  oi_taken :: nat \<comment> \<open>events the gateway task takes from its queue before this output\<close>
  oi_clock :: "nat \<Rightarrow> timestamp"
  oi_disk :: disk_outcome
  oi_index_disk_ok :: bool
  oi_now :: timestamp
  oi_audit_ok :: bool

record owner_end =
  oe_hub :: realtime_hub
  oe_gateway :: gateway
  oe_forwarded :: "stream_event list"

fun is_events :: "transport_output \<Rightarrow> bool" where
  "is_events (OutEvents attempt events) = True"
| "is_events out = False"

definition checkpoint_interval :: nat where
  "checkpoint_interval = 1000"

text \<open>The code after the loop: a transport that failed closes the hub, otherwise a last checkpoint.\<close>

definition owner_stop ::
  "durable_ext \<Rightarrow> string option \<Rightarrow> timestamp \<Rightarrow> gateway \<Rightarrow> stream_event list \<Rightarrow> realtime_hub \<Rightarrow> owner_end" where
  "owner_stop dx terminal now g forwarded h =
     \<lparr> oe_hub = (case terminal of
         Some reason \<Rightarrow> fail_closed now reason h
       | None \<Rightarrow> (case hub_checkpoint dx now h of
           (Inl err, h') \<Rightarrow> fail_closed now ''shutdown_checkpoint_failed'' h'
         | (Inr c, h') \<Rightarrow> h')),
       oe_gateway = g, oe_forwarded = forwarded \<rparr>"

fun run_owner ::
  "durable_ext \<Rightarrow> string option \<Rightarrow> timestamp \<Rightarrow> owner_input list \<Rightarrow> nat \<Rightarrow> gateway \<Rightarrow> stream_event list
   \<Rightarrow> realtime_hub \<Rightarrow> owner_end" where
  "run_owner dx terminal stopped_at [] published g forwarded h = owner_stop dx terminal stopped_at g forwarded h"
| "run_owner dx terminal stopped_at (i # is) published g forwarded h =
     (let g0 = g\<lparr> gw_queue := drop (oi_taken i) (gw_queue g) \<rparr>;
          forwarded' = forwarded @ take (oi_taken i) (gw_queue g)
      in case ingest dx (oi_clock i) (oi_disk i) (oi_index_disk_ok i) (oi_now i) (oi_output i) g0 h of
        (Inl err, h1, g1) \<Rightarrow> \<lparr> oe_hub = h1, oe_gateway = g1, oe_forwarded = forwarded' \<rparr>
      | (Inr n, h1, g1) \<Rightarrow>
          if \<not> is_events (oi_output i) \<and> \<not> oi_audit_ok i
          then \<lparr> oe_hub = fail_closed (oi_now i) ''lifecycle_audit_failed'' h1, oe_gateway = g1,
                 oe_forwarded = forwarded' \<rparr>
          else if published + n \<ge> checkpoint_interval then
            (case hub_checkpoint dx (oi_now i) h1 of
               (Inl err, h2) \<Rightarrow> \<lparr> oe_hub = fail_closed (oi_now i) ''checkpoint_failed'' h2, oe_gateway = g1,
                 oe_forwarded = forwarded' \<rparr>
             | (Inr c, h2) \<Rightarrow> run_owner dx terminal stopped_at is 0 g1 forwarded' h2)
          else run_owner dx terminal stopped_at is (published + n) g1 forwarded' h1)"

section \<open>What one step and one run change\<close>

lemma owner_stop_frame [simp]:
  "oe_gateway (owner_stop dx terminal now g fw h) = g"
  "oe_forwarded (owner_stop dx terminal now g fw h) = fw"
  by (simp_all add: owner_stop_def)

lemma hub_checkpoint_keeps:
  assumes "hub_checkpoint dx now h = (res, h')"
  shows "rw_records (dw_wal (hb_writer h')) = rw_records (dw_wal (hb_writer h))"
    and "hb_lifecycle h' = hb_lifecycle h"
  using assms by (auto simp: hub_checkpoint_def checkpoint_rt_def Let_def split: if_splits sum.splits prod.splits)

lemma fail_closed_keeps [simp]: "hb_writer (fail_closed now reason h) = hb_writer h"
  by (simp add: fail_closed_def hub_store_def)

lemma fail_closed_closes [simp]: "hb_lifecycle (fail_closed now reason h) = FailedClosed"
  by (simp add: fail_closed_def hub_store_def)

lemma owner_stop_records [simp]:
  "rw_records (dw_wal (hb_writer (oe_hub (owner_stop dx terminal now g fw h)))) = rw_records (dw_wal (hb_writer h))"
  by (auto simp: owner_stop_def dest: hub_checkpoint_keeps split: option.split sum.split prod.split)

text \<open>An ingestion forwards to the queue what it adds to the log, whatever it answers.\<close>

definition queued :: "string \<Rightarrow> persisted_rt list \<Rightarrow> stream_event list" where
  "queued s rs = map (stream_of s) (filter pr_applied rs)"

lemma queued_append [simp]: "queued s (rs @ rs') = queued s rs @ queued s rs'"
  by (simp add: queued_def)

lemma queued_Nil [simp]: "queued s [] = []"
  by (simp add: queued_def)

lemma ingest_queues:
  assumes h: "hub_ok dx s r cap h" and len: "text_nonempty (dx_wal dx)"
    and i: "ingest dx clock disk ok now out g h = (res, h', g')"
  shows "\<exists>rs. rw_records (dw_wal (hb_writer h')) = rw_records (dw_wal (hb_writer h)) @ rs
    \<and> gw_queue g' = gw_queue g @ queued s rs"
proof (cases "\<exists>attempt events. out = OutEvents attempt events \<and> hb_lifecycle h \<noteq> FailedClosed")
  case True
  then obtain attempt events where "ingest_events dx clock disk ok now attempt events g h = (res, h', g')"
    using i by (auto simp: ingest_def)
  from ingest_events_cases [OF h len this] show ?thesis
    by (auto simp: send_all_def queued_def split: sum.splits)
next
  case False
  with i have "hb_writer h' = hb_writer h" "g' = g"
    by (cases out; auto simp: ingest_def split: if_splits)+
  then show ?thesis by (intro exI [of _ "[]"]) simp
qed

lemma hub_checkpoint_ok:
  assumes "hub_ok dx s r cap h" and "hub_checkpoint dx now h = (res, h')"
  shows "hub_ok dx s r cap h'"
proof -
  obtain res1 w where cp: "checkpoint_rt dx now (hb_writer h) = (res1, w)" by fastforce
  have dok: "durable_ok dx (hb_writer h)" using assms(1) by (simp add: hub_ok_def)
  from checkpoint_cases [OF dok cp] assms cp show ?thesis
    by (auto simp: hub_checkpoint_def hub_ok_def split: if_splits sum.splits)
qed

lemma run_owner_forwards:
  assumes "text_nonempty (dx_wal dx)" and "hub_ok dx s r cap h"
  shows "\<exists>rs. rw_records (dw_wal (hb_writer (oe_hub (run_owner dx terminal t is n g fw h)))) = rw_records (dw_wal (hb_writer h)) @ rs
    \<and> oe_forwarded (run_owner dx terminal t is n g fw h) @ gw_queue (oe_gateway (run_owner dx terminal t is n g fw h))
      = fw @ gw_queue g @ queued s rs"
  using assms(2)
proof (induction "is" arbitrary: n g fw h)
  case (Cons i "is")
  let ?g0 = "g\<lparr> gw_queue := drop (oi_taken i) (gw_queue g) \<rparr>" and ?fw = "fw @ take (oi_taken i) (gw_queue g)"
  obtain res h1 g1 where ig: "ingest dx (oi_clock i) (oi_disk i) (oi_index_disk_ok i) (oi_now i) (oi_output i) ?g0 h = (res, h1, g1)"
    by (metis prod.collapse)
  from ingest_queues [OF Cons.prems assms(1) ig] obtain rs1 where
    rs1: "rw_records (dw_wal (hb_writer h1)) = rw_records (dw_wal (hb_writer h)) @ rs1" "?fw @ gw_queue g1 = fw @ gw_queue g @ queued s rs1"
    by auto
  have ok1: "hub_ok dx s r cap h1" by (rule ingest_ok [OF Cons.prems assms(1) ig])
  obtain res2 h2 where cp: "hub_checkpoint dx (oi_now i) h1 = (res2, h2)" by fastforce
  note keep = hub_checkpoint_keeps(1) [OF cp] and ok2 = hub_checkpoint_ok [OF ok1 cp]
  have step: "\<exists>rs. records = rw_records (dw_wal (hb_writer h)) @ rs \<and> out = fw @ gw_queue g @ queued s rs"
    if "\<exists>rs. records = rw_records (dw_wal (hb_writer h1)) @ rs \<and> out = ?fw @ gw_queue g1 @ queued s rs" for records out
  proof -
    from that obtain rs where "records = rw_records (dw_wal (hb_writer h1)) @ rs" "out = ?fw @ gw_queue g1 @ queued s rs" by blast
    with rs1 show ?thesis by (intro exI [of _ "rs1 @ rs"]) (metis append.assoc queued_append)
  qed
  show ?case
    using step [OF Cons.IH [OF ok1, of "n + _" g1 ?fw]] step [OF Cons.IH [OF ok2, of 0 g1 ?fw, unfolded keep]] rs1 keep
    by (auto simp: ig cp Let_def split: sum.split)
qed auto

end
