(* ===== verification/Realtime_Reader.thy ===== *)
theory Realtime_Reader
  imports Realtime_Safety
begin

text \<open>
  What a subscriber gets from a replay window: the contract of \<open>replay_after\<close> as a locale, and its
  two providers, the window itself and the projection of the hub.
\<close>

fun frame_sequence :: "replay_frame \<Rightarrow> u64" where
  "frame_sequence (FrameEvent e) = st_sequence e"
| "frame_sequence (SequenceWatermark stream_id sequence) = sequence"

lemma frame_sequence_of [simp]: "frame_sequence (frame_of stream_id f e) = st_sequence e"
  by (simp add: frame_of_def)

text \<open>The oldest sequence a window can still resume from is the one before its first event.\<close>

locale replay_source =
  fixes ok :: "'s \<Rightarrow> bool" and stream :: "'s \<Rightarrow> string" and current :: "'s \<Rightarrow> u64"
    and events :: "'s \<Rightarrow> stream_event list"
    and replay :: "string \<Rightarrow> u64 \<Rightarrow> subscription_filter \<Rightarrow> 's \<Rightarrow> realtime_error + replay_frame list"
  assumes consecutive: "ok s \<Longrightarrow> k < length (events s) \<Longrightarrow>
      unat (st_sequence (events s ! k)) + length (events s) = unat (current s) + k + 1"
    and changed: "sid \<noteq> stream s \<Longrightarrow> replay sid after f s = Inl StreamChanged"
    and ahead: "sid = stream s \<Longrightarrow> current s < after \<Longrightarrow> replay sid after f s = Inl (CursorAhead (current s))"
    and gap: "ok s \<Longrightarrow> sid = stream s \<Longrightarrow> unat after + length (events s) < unat (current s) \<Longrightarrow>
      \<exists>earliest. replay sid after f s = Inl (GapUnrecoverable earliest) \<and> unat earliest = unat (current s) + 1 - length (events s)"
    and tail: "ok s \<Longrightarrow> sid = stream s \<Longrightarrow> after \<le> current s \<Longrightarrow> unat (current s) \<le> unat after + length (events s) \<Longrightarrow>
      replay sid after f s = Inr (map (frame_of sid f) (filter (\<lambda>e. after < st_sequence e) (events s)))"
begin

lemma after_suffix:
  assumes "ok s" and "after \<le> current s" and "unat (current s) \<le> unat after + length (events s)"
  shows "filter (\<lambda>e. after < st_sequence e) (events s) = lastn (unat (current s) - unat after) (events s)"
proof -
  let ?n = "length (events s) - (unat (current s) - unat after)"
  have le: "unat after \<le> unat (current s)" using assms(2) by (simp add: word_le_nat_alt)
  have "filter (\<lambda>e. after < st_sequence e) (take ?n (events s) @ drop ?n (events s)) = drop ?n (events s)"
  proof -
    have "\<not> after < st_sequence e" if "e \<in> set (take ?n (events s))" for e
    proof -
      from that obtain k where "k < ?n" "k < length (events s)" "e = events s ! k" by (auto simp: in_set_conv_nth)
      with consecutive [OF assms(1), of k] le assms(3) show ?thesis by (simp add: word_less_nat_alt)
    qed
    moreover have "after < st_sequence e" if "e \<in> set (drop ?n (events s))" for e
    proof -
      from that obtain k where "?n + k < length (events s)" "e = events s ! (?n + k)"
        unfolding in_set_conv_nth by (metis add.commute length_drop less_diff_conv nth_drop less_imp_le_nat diff_le_self)
      with consecutive [OF assms(1), of "?n + k"] le assms(3) show ?thesis by (simp add: word_less_nat_alt)
    qed
    ultimately show ?thesis unfolding filter_append
      by (simp add: filter_empty_conv [THEN iffD2] filter_id_conv [THEN iffD2] del: append_take_drop_id)
  qed
  then show ?thesis by (simp add: lastn_def)
qed

text \<open>It succeeds exactly for a cursor of the stream that the window reaches back to.\<close>

lemma replay_succeeds:
  assumes "ok s"
  shows "(\<exists>frames. replay sid after f s = Inr frames) \<longleftrightarrow>
    sid = stream s \<and> after \<le> current s \<and> unat (current s) \<le> unat after + length (events s)"
proof (cases "sid = stream s")
  case sid: True
  consider "current s < after" | "unat after + length (events s) < unat (current s)"
    | "after \<le> current s" "unat (current s) \<le> unat after + length (events s)"
    by (meson linorder_not_less)
  then show ?thesis
  proof cases
    case 1
    with ahead [OF sid, of after f] show ?thesis by (auto simp: not_le)
  next
    case 2
    with gap [OF assms sid 2, of f] show ?thesis by auto
  next
    case 3
    with tail [OF assms sid, of after f] sid show ?thesis by simp
  qed
qed (simp add: changed)

text \<open>A replay that succeeds has one frame for every sequence after the cursor, in order.\<close>

lemma gapless:
  assumes "ok s" and "replay sid after f s = Inr frames"
  shows "map (\<lambda>fr. unat (frame_sequence fr)) frames = [unat after + 1 ..< unat (current s) + 1]"
proof -
  have sid: "sid = stream s" and le: "after \<le> current s" and win: "unat (current s) \<le> unat after + length (events s)"
    using replay_succeeds [OF assms(1), of sid after f] assms(2) by blast+
  let ?m = "unat (current s) - unat after"
  have fr: "frames = map (frame_of sid f) (lastn ?m (events s))"
    using tail [OF assms(1) sid le win] assms(2) after_suffix [OF assms(1) le win] by simp
  have n: "unat after \<le> unat (current s)" using le by (simp add: word_le_nat_alt)
  have "map (\<lambda>e. unat (st_sequence e)) (lastn ?m (events s)) = [unat after + 1 ..< unat (current s) + 1]"
  proof (rule nth_equalityI)
    fix k assume k: "k < length (map (\<lambda>e. unat (st_sequence e)) (lastn ?m (events s)))"
    then have "k < min ?m (length (events s))" by simp
    with nth_lastn [OF this] consecutive [OF assms(1), of "length (events s) - ?m + k"] win n
    show "map (\<lambda>e. unat (st_sequence e)) (lastn ?m (events s)) ! k = [unat after + 1 ..< unat (current s) + 1] ! k"
      by (simp add: min_def ac_simps del: upt_Suc upt.simps split: if_splits)
  qed (use win n in \<open>simp del: upt_Suc\<close>)
  then show ?thesis by (simp add: fr comp_def)
qed

text \<open>What is served are the last events of the window, as many as came after the cursor.\<close>

lemma served:
  assumes "ok s" and "after \<le> current s" and "unat (current s) \<le> unat after + length (events s)"
  shows "replay (stream s) after f s
    = Inr (map (frame_of (stream s) f) (lastn (unat (current s) - unat after) (events s)))"
  using tail [OF assms(1) refl assms(2,3)] after_suffix [OF assms] by simp

end

section \<open>The providers\<close>

lemma applied_count_unat: "numbered rs \<Longrightarrow> unat (applied_count rs) = length (filter pr_applied rs)"
  unfolding applied_count_def by (rule unat_of_nat_u64 [OF numbered_applied_length])

text \<open>The sequences of a window, and the cursor arithmetic of \<open>replay_after\<close>.\<close>

lemma window_consecutive:
  assumes "numbered rs" and "k < length (map (stream_of s) (lastn c (filter pr_applied rs)))"
  shows "unat (st_sequence (map (stream_of s) (lastn c (filter pr_applied rs)) ! k))
    + length (map (stream_of s) (lastn c (filter pr_applied rs))) = unat (applied_count rs) + k + 1"
  using window_sequences [OF assms(1), of k c] assms(2) by (simp add: stream_of_def applied_count_unat [OF assms(1)])

lemma earliest_unat:
  assumes cons: "\<And>k. k < length es \<Longrightarrow> unat (st_sequence (es ! k)) + length es = unat (newest_seq :: u64) + k + 1"
    and none: "es = [] \<Longrightarrow> newest_seq = 0"
    and after: "after \<le> newest_seq"
  shows "(saturating_add1 after < (case es of [] \<Rightarrow> saturating_add1 newest_seq | e # es' \<Rightarrow> st_sequence e))
      \<longleftrightarrow> unat after + length es < unat newest_seq"
    and "es = [] \<or> unat (case es of [] \<Rightarrow> saturating_add1 newest_seq | e # es' \<Rightarrow> st_sequence e) = unat newest_seq + 1 - length es"
proof -
  have m: "unat x \<le> unat (- 1 :: u64)" for x :: u64 by (simp add: word_le_nat_alt [symmetric])
  have le: "unat after \<le> unat newest_seq" using after by (simp add: word_le_nat_alt)
  show "(saturating_add1 after < (case es of [] \<Rightarrow> saturating_add1 newest_seq | e # es' \<Rightarrow> st_sequence e))
      \<longleftrightarrow> unat after + length es < unat newest_seq"
  proof (cases es)
    case Nil
    with none after show ?thesis by simp
  next
    case (Cons e es')
    with cons [of 0] m [of "st_sequence e"] m [of newest_seq] le show ?thesis
      by (simp add: word_less_nat_alt saturating_add1_unat) linarith
  qed
  show "es = [] \<or> unat (case es of [] \<Rightarrow> saturating_add1 newest_seq | e # es' \<Rightarrow> st_sequence e) = unat newest_seq + 1 - length es"
    using cons [of 0] by (cases es) auto
qed

definition replay_window_ok :: "sequenced_replay \<Rightarrow> bool" where
  "replay_window_ok w \<longleftrightarrow> (\<exists>s c rs. numbered rs \<and> 0 < c \<and> w = window_of s c rs)"

definition projection_ok :: "hub_projection \<Rightarrow> bool" where
  "projection_ok p \<longleftrightarrow> (\<exists>c rs. numbered rs \<and> 0 < c \<and> hp_public_sequence p = applied_count rs
     \<and> hp_replay p = map (stream_of (hp_stream_id p)) (lastn c (filter pr_applied rs)))"

lemma window_of_empty: "numbered rs \<Longrightarrow> 0 < c \<Longrightarrow> map f (lastn c (filter pr_applied rs)) = [] \<Longrightarrow> applied_count rs = 0"
  by (simp add: lastn_eq_Nil applied_count_def)

interpretation window: replay_source replay_window_ok sq_stream_id sq_sequence sq_replay replay_after
proof
  fix w k assume "replay_window_ok w" "k < length (sq_replay w)"
  then show "unat (st_sequence (sq_replay w ! k)) + length (sq_replay w) = unat (sq_sequence w) + k + 1"
    unfolding replay_window_ok_def using window_consecutive by (auto simp del: nth_map)
next
  fix w sid after f
  assume w: "replay_window_ok w" and sid: "sid = sq_stream_id w"
  have cons: "unat (st_sequence (sq_replay w ! k)) + length (sq_replay w) = unat (sq_sequence w) + k + 1"
    if "k < length (sq_replay w)" for k
    using w that unfolding replay_window_ok_def using window_consecutive by (auto simp del: nth_map)
  have none: "sq_sequence w = 0" if "sq_replay w = []"
    using w that window_of_empty unfolding replay_window_ok_def by fastforce
  note e = earliest_unat [OF cons none]
  show "\<exists>earliest. replay_after sid after f w = Inl (GapUnrecoverable earliest)
      \<and> unat earliest = unat (sq_sequence w) + 1 - length (sq_replay w)"
    if g: "unat after + length (sq_replay w) < unat (sq_sequence w)"
  proof -
    from g have le: "after \<le> sq_sequence w" by (simp add: word_le_nat_alt)
    have ne: "sq_replay w \<noteq> []" using none g by auto
    from e(1) [OF _ _ le] e(2) [OF _ _ le] g ne le sid show ?thesis
      by (auto simp: replay_after_def Let_def not_less)
  qed
  show "replay_after sid after f w = Inr (map (frame_of sid f) (filter (\<lambda>e. after < st_sequence e) (sq_replay w)))"
    if le: "after \<le> sq_sequence w" and t: "unat (sq_sequence w) \<le> unat after + length (sq_replay w)"
    using e(1) [OF _ _ le] le t sid by (simp add: replay_after_def Let_def not_less)
qed (auto simp: replay_after_def)

text \<open>The projection answers like a window with its contents.\<close>

definition window_view :: "hub_projection \<Rightarrow> sequenced_replay" where
  "window_view p = \<lparr> sq_stream_id = hp_stream_id p, sq_replay_capacity = 0, sq_sequence = hp_public_sequence p,
     sq_recent_event_ids = {}, sq_recent_event_order = [], sq_replay = hp_replay p \<rparr>"

lemma hub_replay_view: "hub_replay_after sid after f p = replay_after sid after f (window_view p)"
  unfolding hub_replay_after_def replay_after_def window_view_def by (simp only: sequenced_replay.simps)

lemma replay_after_cong:
  "sq_stream_id w = sq_stream_id w' \<Longrightarrow> sq_sequence w = sq_sequence w' \<Longrightarrow> sq_replay w = sq_replay w'
   \<Longrightarrow> replay_after sid after f w = replay_after sid after f w'"
  by (simp only: replay_after_def)

lemma projection_window:
  assumes "projection_ok p"
  shows "\<exists>w. replay_window_ok w \<and> sq_stream_id w = hp_stream_id p \<and> sq_sequence w = hp_public_sequence p
    \<and> sq_replay w = hp_replay p \<and> (\<forall>sid after f. hub_replay_after sid after f p = replay_after sid after f w)"
proof -
  from assms obtain c rs where p: "numbered rs" "0 < c" "hp_public_sequence p = applied_count rs"
    "hp_replay p = map (stream_of (hp_stream_id p)) (lastn c (filter pr_applied rs))" by (auto simp: projection_ok_def)
  let ?w = "window_of (hp_stream_id p) c rs"
  have "replay_window_ok ?w" using p(1,2) by (auto simp: replay_window_ok_def)
  moreover have "hub_replay_after sid after f p = replay_after sid after f ?w" for sid after f
    unfolding hub_replay_view by (rule replay_after_cong) (simp_all add: window_view_def p)
  ultimately show ?thesis using p(3,4) by (intro exI [of _ ?w]) simp
qed

interpretation projection: replay_source projection_ok hp_stream_id hp_public_sequence hp_replay hub_replay_after
proof
  fix p k assume "projection_ok p" "k < length (hp_replay p)"
  with projection_window [of p] window.consecutive
  show "unat (st_sequence (hp_replay p ! k)) + length (hp_replay p) = unat (hp_public_sequence p) + k + 1" by metis
next
  fix p sid after f
  assume p: "projection_ok p" and sid: "sid = hp_stream_id p"
  show "\<exists>earliest. hub_replay_after sid after f p = Inl (GapUnrecoverable earliest)
      \<and> unat earliest = unat (hp_public_sequence p) + 1 - length (hp_replay p)"
    if "unat after + length (hp_replay p) < unat (hp_public_sequence p)"
    using projection_window [OF p] that sid window.gap [of _ sid after f] by metis
  show "hub_replay_after sid after f p = Inr (map (frame_of sid f) (filter (\<lambda>e. after < st_sequence e) (hp_replay p)))"
    if "after \<le> hp_public_sequence p" "unat (hp_public_sequence p) \<le> unat after + length (hp_replay p)"
    using projection_window [OF p] that sid window.tail [of _ sid after f] by metis
qed (auto simp: hub_replay_after_def)

lemma hub_ok_log:
  assumes "hub_ok dx s r cap h"
  shows "numbered (rw_records (dw_wal (hb_writer h)))" and "0 < cap" and "hp_stream_id (hb_projection h) = s"
    and "unat (hp_public_sequence (hb_projection h)) = length (filter pr_applied (rw_records (dw_wal (hb_writer h))))"
    and "hp_replay (hb_projection h) = map (stream_of s) (lastn cap (filter pr_applied (rw_records (dw_wal (hb_writer h)))))"
  using assms by (simp_all add: hub_ok_def durable_ok_def applied_count_unat)

lemma hub_ok_projection: "hub_ok dx s r cap h \<Longrightarrow> projection_ok (hb_projection h)"
  unfolding projection_ok_def hub_ok_def durable_ok_def
  by (intro exI [of _ cap] exI [of _ "rw_records (dw_wal (hb_writer h))"]) auto

end
