(* ===== verification/Realtime_Theorems.thy ===== *)
theory Realtime_Theorems
  imports Realtime_Reader
begin

text \<open>
  The properties of the durable realtime stream: numbering, publication, replay to subscribers,
  restarts under damage and disk failures, and the lifecycle of the hub.
\<close>

section \<open>A concrete hub\<close>

definition demo_rt_ext :: rt_ext where
  "demo_rt_ext = \<lparr> rx_event_id = (\<lambda>i. if ei_ordinal i = 1 then ''a'' else ''b''),
     rx_record_sha256 = (\<lambda>r. if pr_wal_cursor r = 1 then ''r1'' else ''r2''), rx_record_crc32c = (\<lambda>r. 7),
     rx_header_sha256 = (\<lambda>h. ''h''), rx_batch_sha256 = (\<lambda>b. ''b''), rx_batch_crc32c = (\<lambda>b. 9),
     rx_index_sha256 = (\<lambda>i. ''i''), rx_file_sha256 = (\<lambda>f. ''f''), rx_text_len = (\<lambda>t. 600) \<rparr>"

definition demo_durable_ext :: durable_ext where
  "demo_durable_ext = \<lparr> dx_wal = demo_rt_ext, dx_checkpoint_sha256 = (\<lambda>c. ''c'') \<rparr>"

definition demo_rt_event :: "u64 \<Rightarrow> string \<Rightarrow> provider_event" where
  "demo_rt_event ordinal event_id = \<lparr> ne_contract_version = contract_version_rt, ne_normalizer_version = hyperliquid_version,
     ne_instrument_id = ''BTC'', ne_source = ''hyperliquid'', ne_source_observed_at = 5, ne_received_at = 6,
     ne_raw_sha256 = replicate 64 (CHR ''0''), ne_normalizer_ordinal = ordinal, ne_event_id = event_id,
     ne_quality = quality_live, ne_payload = Trade 1 2 ''t'' Buyer ''5'' \<rparr>"

definition demo_gateway :: gateway where
  "demo_gateway = \<lparr> gw_capacity = 8, gw_queue = [], gw_closed = False \<rparr>"

definition no_checkpoints :: checkpoint_store where
  "no_checkpoints = \<lparr> cs_current = None, cs_previous = None \<rparr>"

definition demo_open :: "rt_directory \<Rightarrow> checkpoint_store \<Rightarrow> hub_error + realtime_hub" where
  "demo_open directory store = hub_open demo_durable_ext True 0 directory None store ''/data'' ''s'' ''v'' 1024 2"

definition demo_ingest ::
  "disk_outcome \<Rightarrow> transport_output \<Rightarrow> gateway \<Rightarrow> realtime_hub \<Rightarrow> (hub_error + nat) \<times> realtime_hub \<times> gateway" where
  "demo_ingest disk out g h = ingest demo_durable_ext (\<lambda>k. 0) disk True 0 out g h"

definition the_right :: "'e + 'a \<Rightarrow> 'a" where
  "the_right x = (case x of Inr a \<Rightarrow> a)"

definition demo_fresh :: realtime_hub where
  "demo_fresh = the_right (demo_open [] no_checkpoints)"

definition demo_ready :: "realtime_hub \<Rightarrow> realtime_hub" where
  "demo_ready h = fst (snd (demo_ingest Written (SubscriptionsReady 1) demo_gateway
     (fst (snd (demo_ingest Written (OutConnected 1) demo_gateway h)))))"

definition demo_rt_batch :: "disk_outcome \<Rightarrow> realtime_hub \<Rightarrow> (hub_error + nat) \<times> realtime_hub \<times> gateway" where
  "demo_rt_batch disk h = demo_ingest disk
     (OutEvents 1 [demo_rt_event 1 ''a'', demo_rt_event 1 ''a'', demo_rt_event 2 ''b'']) demo_gateway h"

definition demo_fed :: realtime_hub where
  "demo_fed = fst (snd (demo_rt_batch Written (demo_ready demo_fresh)))"

lemmas demo_rt_defs = demo_rt_ext_def demo_durable_ext_def demo_gateway_def no_checkpoints_def
  demo_open_def demo_ingest_def the_right_def demo_ready_def demo_rt_batch_def

lemmas open_defs = hub_open_def writer_open_def rt_wal_open_def validate_root_def validate_config_def verify_wal_rt_def
  verify_start_rt_def path_is_absolute_def path_components_def path_component_of_def starts_with_def
  install_sparse_index_def write_sparse_index_def sparse_index_is_valid_def index_of_def seal_sparse_index_def
  index_integrity_def index_stride_def sparse_index_version_def recover_replay_def replay_new_def applied_ids_def
  projection_from_writer_def List.map_filter_simps hub_projection_version_def

lemma demo_fresh_eq: "demo_open [] no_checkpoints = Inr demo_fresh"
  by (simp add: demo_fresh_def demo_rt_defs open_defs)

lemmas ingest_defs = ingest_def ingest_events_def connected_valid_def degraded_valid_def hub_store_def
  try_reserve_many_def apply_batch_rt_def append_decisions_def rt_wal_cursor_def wal_cursor_of_def
  last_or_def sha_of_last_def decision_invalid_def cursor_at_def seal_record_def record_integrity_def Let_def
  seal_batch_def batch_integrity_def written_line_def seal_header_def header_integrity_def ensure_segment_def
  write_batch_def put_line_def index_entry_def should_index_batch_def rt_segment_filename_def duplicate_reason_def
  wal_version_def wal_batch_version_def wal_segment_version_def commit_persisted_def published_events_def send_all_def
  checked_add1_def saturating_add1_def evict_step publication_error_def bt_contains_def bt_get_def bt_map_value_def

lemma demo_ready_eq: "hb_lifecycle (demo_ready demo_fresh) = Ready 1"
  by (simp add: demo_fresh_def demo_rt_defs open_defs ingest_defs)

lemma demo_valid:
  "evidence_is_valid (rx_event_id demo_rt_ext) (demo_rt_event 1 ''a'')"
  "evidence_is_valid (rx_event_id demo_rt_ext) (demo_rt_event 2 ''b'')"
  by code_simp+

lemmas demo_evidence = demo_valid [unfolded demo_rt_ext_def, simplified]

lemma demo_event_id [simp]: "ne_event_id (demo_rt_event k i) = i"
  by (simp add: demo_rt_event_def)

lemma demo_fed_result: "fst (demo_rt_batch Written (demo_ready demo_fresh)) = Inr 2"
  by (simp add: demo_fresh_def demo_rt_defs open_defs ingest_defs demo_evidence)

lemma demo_fed_state:
  "hp_public_sequence (hb_projection demo_fed) = 2 \<and> length (rw_records (dw_wal (hb_writer demo_fed))) = 3
   \<and> \<not> rw_poisoned (dw_wal (hb_writer demo_fed)) \<and> dw_checkpoints (hb_writer demo_fed) = no_checkpoints
   \<and> gw_queue (snd (snd (demo_rt_batch Written (demo_ready demo_fresh)))) = sq_replay (dw_replay (hb_writer demo_fed))"
  by (simp add: demo_fed_def demo_fresh_def demo_rt_defs open_defs ingest_defs demo_evidence)

lemma demo_nonempty: "text_nonempty (dx_wal demo_durable_ext)"
  by (simp add: text_nonempty_def demo_durable_ext_def demo_rt_ext_def)

lemma demo_config: "config_ok ''/data'' ''s'' ''v'' 1024 2"
  by (simp add: config_ok_def open_defs)

lemma hub_run_ingest:
  "hub_run dx s r cap h \<Longrightarrow> hub_run dx s r cap (fst (snd (ingest dx clock disk ok now out g h)))"
  using hub_run.ingested [of dx s r cap h clock disk ok now out g] by (metis prod.collapse)

lemma demo_fresh_run: "hub_run demo_durable_ext ''s'' ''v'' 2 demo_fresh"
  using hub_run.opened [OF demo_config] demo_fresh_eq by (simp add: demo_open_def no_checkpoints_def)

lemma demo_ready_run: "hub_run demo_durable_ext ''s'' ''v'' 2 (demo_ready demo_fresh)"
  unfolding demo_ready_def demo_ingest_def by (intro hub_run_ingest demo_fresh_run)

lemma demo_fed_run: "hub_run demo_durable_ext ''s'' ''v'' 2 demo_fed"
  unfolding demo_fed_def demo_rt_batch_def demo_ingest_def by (intro hub_run_ingest demo_ready_run)

section \<open>Numbering and publication\<close>

text \<open>
  C20: In the log of every reachable hub, across restarts, disk failures and damaged checkpoints, the
  applied records carry the public sequences 1, 2, 3 and so on in log order, and no event identity is
  applied twice: each identity is published at most once, under one sequence, for the life of the stream.
\<close>

theorem identities_are_published_once:
  assumes "hub_run dx s r cap h" and "text_nonempty (dx_wal dx)"
  shows "map pr_public_sequence (filter pr_applied (rw_records (dw_wal (hb_writer h)))) =
      map (\<lambda>k. Some (of_nat (Suc k))) [0 ..< length (filter pr_applied (rw_records (dw_wal (hb_writer h))))]
    \<and> distinct (map (\<lambda>x. ne_event_id (pr_event x)) (filter pr_applied (rw_records (dw_wal (hb_writer h)))))"
proof -
  have "numbered (rw_records (dw_wal (hb_writer h)))" by (rule hub_ok_log [OF hub_ok_run [OF assms]])
  then show ?thesis unfolding numbered_def by (intro conjI nth_equalityI) simp_all
qed

theorem identities_are_published_once_witness:
  "distinct (map (\<lambda>x. ne_event_id (pr_event x)) (filter pr_applied (rw_records (dw_wal (hb_writer demo_fed)))))"
  by (rule conjunct2 [OF identities_are_published_once [OF demo_fed_run demo_nonempty]])

text \<open>
  C21: An ingested batch that succeeds was accepted in the ready state, extends the log by one record
  per event and sends the gateway exactly the applied ones, under the stream id and their sequences,
  within the capacity it reserved; one that fails sends nothing, changes neither the log in memory
  nor the replay window, and closes the hub.
\<close>

theorem gateway_receives_what_is_logged:
  assumes "hub_run dx s r cap h" and "text_nonempty (dx_wal dx)" and "hb_lifecycle h \<noteq> FailedClosed"
    and "ingest dx clock disk ok now (OutEvents attempt events) g h = (res, h', g')"
  shows "case res of
      Inl err \<Rightarrow> g' = g \<and> hb_lifecycle h' = FailedClosed \<and> dw_replay (hb_writer h') = dw_replay (hb_writer h)
        \<and> rw_records (dw_wal (hb_writer h')) = rw_records (dw_wal (hb_writer h))
    | Inr n \<Rightarrow> hb_lifecycle h = Ready attempt \<and> (\<exists>rs. rw_records (dw_wal (hb_writer h')) = rw_records (dw_wal (hb_writer h)) @ rs
        \<and> map pr_event rs = events \<and> n = length (filter pr_applied rs)
        \<and> gw_queue g' = gw_queue g @ map (stream_of s) (filter pr_applied rs) \<and> length (gw_queue g') \<le> gw_capacity g')"
proof -
  have "ingest_events dx clock disk ok now attempt events g h = (res, h', g')" using assms(3,4) by (simp add: ingest_def)
  from ingest_events_cases [OF hub_ok_run [OF assms(1,2)] assms(2) this] show ?thesis
    by (auto simp: send_all_def split: sum.splits)
qed

theorem gateway_receives_what_is_logged_witness:
  "length (gw_queue (snd (snd (demo_rt_batch Written (demo_ready demo_fresh))))) \<le> 8"
proof -
  obtain res h' g' where i: "demo_rt_batch Written (demo_ready demo_fresh) = (res, h', g')" by (metis prod.collapse)
  then have "res = Inr 2" using demo_fed_result by simp
  moreover have "gw_capacity g' = 8"
    using i by (auto simp: demo_fresh_def demo_rt_defs open_defs ingest_defs demo_evidence)
  ultimately show ?thesis
    using gateway_receives_what_is_logged [OF demo_ready_run demo_nonempty _ i [unfolded demo_rt_batch_def demo_ingest_def]]
    by (auto simp: demo_ready_eq i)
qed

section \<open>Subscribers\<close>

text \<open>
  C22: What a subscriber gets that resumes after a sequence from the projection of a reachable hub,
  case by case.  Another stream is refused as changed, and a sequence the hub has not reached as
  ahead.  When more events came after it than the window holds, the gap is refused as
  unrecoverable, with the earliest sequence still held.  Otherwise the subscriber is served the
  last events of the window, whole or as watermarks by its filter: one frame for every later
  sequence, in order and without a gap.
\<close>

theorem subscriber_replay_is_gapless:
  assumes "hub_run dx s r cap h" and "text_nonempty (dx_wal dx)"
  shows "if sid \<noteq> s then hub_replay_after sid after f (hb_projection h) = Inl StreamChanged
    else if hp_public_sequence (hb_projection h) < after
    then hub_replay_after sid after f (hb_projection h) = Inl (CursorAhead (hp_public_sequence (hb_projection h)))
    else if unat after + cap < unat (hp_public_sequence (hb_projection h))
    then \<exists>earliest. hub_replay_after sid after f (hb_projection h) = Inl (GapUnrecoverable earliest)
      \<and> unat earliest = unat (hp_public_sequence (hb_projection h)) + 1 - cap
    else \<exists>frames. hub_replay_after sid after f (hb_projection h) = Inr frames
      \<and> frames = map (frame_of s f)
          (lastn (unat (hp_public_sequence (hb_projection h)) - unat after) (hp_replay (hb_projection h)))
      \<and> map (\<lambda>fr. unat (frame_sequence fr)) frames = [unat after + 1 ..< unat (hp_public_sequence (hb_projection h)) + 1]"
    (is "if _ then ?changed else if _ then ?ahead else if _ then ?gap else ?served")
proof -
  note h = hub_ok_run [OF assms]
  note p = hub_ok_projection [OF h]
  note id = hub_ok_log(3) [OF h]
  have len: "length (hp_replay (hb_projection h)) = min cap (unat (hp_public_sequence (hb_projection h)))"
    by (simp add: hub_ok_log [OF h])
  have ?changed if "sid \<noteq> s" using that by (intro projection.changed) (simp add: id)
  moreover have ?ahead if "sid = s" "hp_public_sequence (hb_projection h) < after"
    using that by (intro projection.ahead) (simp_all add: id)
  moreover have ?gap if "sid = s" "unat after + cap < unat (hp_public_sequence (hb_projection h))"
    using projection.gap [OF p, of sid after f] that by (simp add: id len)
  moreover have ?served if "sid = s" "\<not> hp_public_sequence (hb_projection h) < after"
    "\<not> unat after + cap < unat (hp_public_sequence (hb_projection h))"
  proof -
    have "hub_replay_after sid after f (hb_projection h) = Inr (map (frame_of s f)
        (lastn (unat (hp_public_sequence (hb_projection h)) - unat after) (hp_replay (hb_projection h))))"
      using projection.served [OF p, of after f] that by (simp add: id len not_less)
    with projection.gapless [OF p this] show ?thesis by blast
  qed
  ultimately show ?thesis by presburger
qed

theorem subscriber_replay_is_gapless_witness:
  "\<exists>frames. hub_replay_after ''s'' 1 \<lparr> sf_instruments = {}, sf_data_types = {} \<rparr> (hb_projection demo_fed) = Inr frames
    \<and> map (\<lambda>fr. unat (frame_sequence fr)) frames = [2]"
proof -
  have "[Suc (Suc 0) ..< 3] = [2]" by (simp add: upt_conv_Cons)
  then show ?thesis
    using subscriber_replay_is_gapless [OF demo_fed_run demo_nonempty, of "''s''" 1 "\<lparr> sf_instruments = {}, sf_data_types = {} \<rparr>"]
      demo_fed_state by simp
qed

section \<open>Restarts\<close>

lemma stuck_iff: "stuck dx store rs \<longleftrightarrow> rs \<noteq> [] \<and> (\<exists>c. newest dx store = Some c \<and> cp_wal_cursor c = 0)"
  by (auto simp: stuck_def)

lemma reopen_hub:
  assumes h: "hub_ok dx s r cap h" and np: "\<not> rw_poisoned (dw_wal (hb_writer h))" and cfg: "config_ok root s r limit cap"
  shows "if stuck dx (dw_checkpoints (hb_writer h)) (rw_records (dw_wal (hb_writer h)))
    then hub_open dx ok now (rw_directory (dw_wal (hb_writer h))) ixf (dw_checkpoints (hb_writer h)) root s r limit cap
      = Inl (HubDurability CheckpointWalDivergence)
    else \<exists>h'. hub_open dx ok now (rw_directory (dw_wal (hb_writer h))) ixf (dw_checkpoints (hb_writer h)) root s r limit cap
        = Inr h' \<and> hub_ok dx s r cap h' \<and> dw_replay (hb_writer h') = dw_replay (hb_writer h)
        \<and> dw_wal (hb_writer h') = (dw_wal (hb_writer h))\<lparr> rw_max_segment_bytes := limit,
            rw_sparse_index_healthy := rw_sparse_index_healthy (dw_wal (hb_writer h')),
            rw_index_file := rw_index_file (dw_wal (hb_writer h')) \<rparr>"
proof -
  let ?w = "hb_writer h"
  have dok: "durable_ok dx ?w" and id: "dw_stream_id ?w = s" "dw_config_revision ?w = r" "dw_replay_capacity ?w = cap"
    using h by (simp_all add: hub_ok_def)
  from durable_ok_healthy [OF dok np] obtain st where st: "log_state (dx_wal dx) (dw_wal ?w) st"
    and d: "disk_ok dx ?w (vr_records st) (vr_sparse_entries st)" and rec: "rw_records (dw_wal ?w) = vr_records st"
    and win: "dw_replay ?w = window_of (dw_stream_id ?w) (dw_replay_capacity ?w) (vr_records st)"
    and sc: "log_scope (dw_wal ?w) = (dw_stream_id ?w, dw_config_revision ?w)" by blast
  note ro = reopen_disk [OF d sc cfg [folded id], of ok ixf, unfolded id]
  show ?thesis
  proof (cases "stuck dx (dw_checkpoints ?w) (rw_records (dw_wal ?w))")
    case True
    with ro rec show ?thesis by (simp add: hub_open_def)
  next
    case False
    then have ns: "\<not> stuck dx (dw_checkpoints ?w) (vr_records st)" by (simp add: rec)
    from ro [unfolded if_not_P [OF ns]] obtain w' st' where
      op: "writer_open dx ok (rw_directory (dw_wal ?w)) ixf (dw_checkpoints ?w) root s r limit cap = Inr w'"
      and w': "durable_ok dx w'" "\<not> rw_poisoned (dw_wal w')" "log_state (dx_wal dx) (dw_wal w') st'"
        "vr_records st' = vr_records st" "vr_sparse_entries st' = vr_sparse_entries st"
        "rw_directory (dw_wal w') = rw_directory (dw_wal ?w)" "rw_max_segment_bytes (dw_wal w') = limit"
        "dw_stream_id w' = s" "dw_config_revision w' = r" "dw_replay_capacity w' = cap" by blast
    have sc': "log_scope (dw_wal w') = (s, r)" using w'(1,8,9) by (simp add: durable_ok_def)
    have st_eq: "st' = st" using w'(3,6) st sc sc' id by (simp add: log_state_def)
    have "dw_wal w' = (dw_wal ?w)\<lparr> rw_max_segment_bytes := limit,
        rw_sparse_index_healthy := rw_sparse_index_healthy (dw_wal w'), rw_index_file := rw_index_file (dw_wal w') \<rparr>"
      by (rule rt_wal.equality)
        (use w' st sc sc' id np in \<open>simp_all add: log_state_def st_eq log_scope_def\<close>)
    moreover have "dw_replay w' = dw_replay ?w"
      using w'(1,3,4,8,10) win id by (simp add: durable_ok_def log_state_def)
    moreover have "hub_open dx ok now (rw_directory (dw_wal ?w)) ixf (dw_checkpoints ?w) root s r limit cap =
        Inr \<lparr> hb_writer = w', hb_projection = projection_from_writer now w' s r HealthStarting, hb_lifecycle = Starting, hb_last_attempt = 0 \<rparr>"
      using op by (simp add: hub_open_def)
    moreover have "hub_ok dx s r cap \<lparr> hb_writer = w', hb_projection = projection_from_writer now w' s r HealthStarting,
        hb_lifecycle = Starting, hb_last_attempt = 0 \<rparr>"
      using w' by (simp add: hub_ok_def projection_from_writer_def)
    ultimately show ?thesis unfolding if_not_P [OF False] by simp
  qed
qed

text \<open>
  C19: Reopening the disk of a reachable hub whose writer is healthy restores its writer exactly, the
  replay window, the records and the place of the next append, whatever is left of the checkpoint
  files and of the index file; the one exception is a newest readable checkpoint taken before the
  first record of a log that is no longer empty, and then the reopening is refused.
\<close>

theorem restart_restores_the_stream:
  assumes "hub_run dx s r cap h" and "text_nonempty (dx_wal dx)" and "\<not> rw_poisoned (dw_wal (hb_writer h))"
    and "config_ok root s r limit cap"
  shows "case hub_open dx ok now (rw_directory (dw_wal (hb_writer h))) ixf (dw_checkpoints (hb_writer h)) root s r limit cap of
      Inl err \<Rightarrow> err = HubDurability CheckpointWalDivergence \<and> rw_records (dw_wal (hb_writer h)) \<noteq> []
        \<and> (\<exists>c. newest dx (dw_checkpoints (hb_writer h)) = Some c \<and> cp_wal_cursor c = 0)
    | Inr h' \<Rightarrow> dw_replay (hb_writer h') = dw_replay (hb_writer h)
        \<and> dw_wal (hb_writer h') = (dw_wal (hb_writer h))\<lparr> rw_max_segment_bytes := limit,
            rw_sparse_index_healthy := rw_sparse_index_healthy (dw_wal (hb_writer h')),
            rw_index_file := rw_index_file (dw_wal (hb_writer h')) \<rparr>"
  using reopen_hub [OF hub_ok_run [OF assms(1,2)] assms(3,4), of ok now ixf]
  by (auto simp: stuck_iff split: if_splits)

theorem restart_restores_the_stream_witness:
  "case hub_open demo_durable_ext True 0 (rw_directory (dw_wal (hb_writer demo_fed))) None (dw_checkpoints (hb_writer demo_fed))
      ''/data'' ''s'' ''v'' 1024 2 of Inl err \<Rightarrow> False | Inr h' \<Rightarrow> dw_replay (hb_writer h') = dw_replay (hb_writer demo_fed)"
proof -
  have "newest demo_durable_ext (dw_checkpoints (hb_writer demo_fed)) = None"
    using demo_fed_state by (simp add: newest_def readable_def no_checkpoints_def)
  then show ?thesis
    using restart_restores_the_stream [OF demo_fed_run demo_nonempty _ demo_config, of True 0 None] demo_fed_state
    by (auto split: sum.splits)
qed

text \<open>
  C18: Whatever reopening of a reachable hub's disk succeeds, after any failed write and any loss of
  checkpoints, its log starts with every record the hub had in memory, so every event that reached
  the gateway is recovered under its sequence.
\<close>

theorem published_events_survive:
  assumes "hub_run dx s r cap h" and "text_nonempty (dx_wal dx)" and "config_ok root s r limit cap"
    and "hub_open dx ok now (rw_directory (dw_wal (hb_writer h))) ixf (dw_checkpoints (hb_writer h)) root s r limit cap = Inr h'"
  shows "\<exists>rs. rw_records (dw_wal (hb_writer h')) = rw_records (dw_wal (hb_writer h)) @ rs"
  using reopened_extends [OF hub_ok_run [OF assms(1,2)] assms(3,4)] by blast

theorem published_events_survive_witness:
  "\<exists>h' rs. demo_open (rw_directory (dw_wal (hb_writer demo_fed))) no_checkpoints = Inr h'
    \<and> rw_records (dw_wal (hb_writer h')) = rw_records (dw_wal (hb_writer demo_fed)) @ rs"
proof -
  have "newest demo_durable_ext no_checkpoints = None" by (simp add: newest_def readable_def no_checkpoints_def)
  then have "\<not> stuck demo_durable_ext (dw_checkpoints (hb_writer demo_fed)) (rw_records (dw_wal (hb_writer demo_fed)))"
    using demo_fed_state by (simp add: stuck_def)
  from reopen_hub [OF hub_ok_run [OF demo_fed_run demo_nonempty] _ demo_config, of True 0 None, unfolded if_not_P [OF this]]
  obtain h' where "hub_open demo_durable_ext True 0 (rw_directory (dw_wal (hb_writer demo_fed))) None
      (dw_checkpoints (hb_writer demo_fed)) ''/data'' ''s'' ''v'' 1024 2 = Inr h'"
    using demo_fed_state by auto
  with published_events_survive [OF demo_fed_run demo_nonempty demo_config this] demo_fed_state
  show ?thesis by (auto simp: demo_open_def)
qed

section \<open>The life of a hub in one process\<close>

inductive fed_step :: "durable_ext \<Rightarrow> realtime_hub \<Rightarrow> realtime_hub \<Rightarrow> bool" for dx where
  fed: "ingest dx clock disk ok now out g h = (res, h', g') \<Longrightarrow> fed_step dx h h'"
| shut: "fed_step dx h (fail_closed now reason h)"

lemma fed_step_ingest: "fed_step dx h (fst (snd (ingest dx clock disk ok now out g h)))"
  by (cases "ingest dx clock disk ok now out g h") (auto intro: fed_step.fed)

lemma fed_run: "(fed_step dx)\<^sup>*\<^sup>* h h' \<Longrightarrow> hub_run dx s r cap h \<Longrightarrow> hub_run dx s r cap h'"
  by (induction rule: rtranclp_induct) (auto elim!: fed_step.cases intro: hub_run.intros)

lemma ingest_keeps_checkpoints:
  "ingest dx clock disk ok now out g h = (res, h', g') \<Longrightarrow> dw_checkpoints (hb_writer h') = dw_checkpoints (hb_writer h)"
proof (cases out)
  case (OutEvents attempt events)
  moreover obtain res1 w where a: "apply_batch_rt dx clock disk ok events (hb_writer h) = (res1, w)" by fastforce
  moreover assume "ingest dx clock disk ok now out g h = (res, h', g')"
  ultimately show ?thesis using apply_batch_frame [OF a]
    by (auto simp: ingest_def ingest_events_def split: if_splits option.splits reserve_error.splits sum.splits)
qed (auto simp: ingest_def split: if_splits)

lemma fed_checkpoints: "(fed_step dx)\<^sup>*\<^sup>* h h' \<Longrightarrow> dw_checkpoints (hb_writer h') = dw_checkpoints (hb_writer h)"
  by (induction rule: rtranclp_induct) (auto elim!: fed_step.cases simp: ingest_keeps_checkpoints fail_closed_def)

text \<open>
  C23: A checkpoint taken before the first event, as a clean shutdown of an idle hub takes it, is
  valid for the empty log only: once events have been logged after it, the disk can no longer be
  reopened, although nothing on it is damaged.
\<close>

theorem empty_checkpoint_blocks_reopening:
  assumes "hub_run dx s r cap h" and "text_nonempty (dx_wal dx)" and "rw_records (dw_wal (hb_writer h)) = []"
    and "hub_checkpoint dx now h = (Inr c, h1)" and "(fed_step dx)\<^sup>*\<^sup>* h1 h2"
    and "rw_records (dw_wal (hb_writer h2)) \<noteq> []" and "\<not> rw_poisoned (dw_wal (hb_writer h2))"
    and "config_ok root s r limit cap"
  shows "hub_open dx ok now' (rw_directory (dw_wal (hb_writer h2))) ixf (dw_checkpoints (hb_writer h2)) root s r limit cap
    = Inl (HubDurability CheckpointWalDivergence)"
proof -
  note hok = hub_ok_run [OF assms(1,2)]
  have run1: "hub_run dx s r cap h1" by (rule hub_run.checkpointed [OF assms(1,4)])
  note ok2 = hub_ok_run [OF fed_run [OF assms(5) run1] assms(2)]
  have dok: "durable_ok dx (hb_writer h)" using hok by (simp add: hub_ok_def)
  obtain res w where cp: "checkpoint_rt dx now (hb_writer h) = (res, w)" by fastforce
  from assms(4) cp have res: "res = Inr c" "hb_writer h1 = w"
    by (auto simp: hub_checkpoint_def split: if_splits sum.splits)
  from checkpoint_cases [OF dok cp] res have np: "\<not> rw_poisoned (dw_wal (hb_writer h))"
    and c: "c = new_checkpoint dx now (hb_writer h)"
    and store: "dw_checkpoints w = write_checkpoint dx c (dw_checkpoints (hb_writer h))"
    by (auto split: if_splits)
  from new_checkpoint_fits [OF dok np, of now] have fits: "checkpoint_digest dx c = Some (cp_state_sha256 c)" "cp_wal_cursor c = 0"
    using assms(3) by (simp_all add: c checkpoint_fits_def unat_eq_zero)
  have "dw_checkpoints (hb_writer h2) = write_checkpoint dx c (dw_checkpoints (hb_writer h))"
    using fed_checkpoints [OF assms(5)] res store by simp
  then have "newest dx (dw_checkpoints (hb_writer h2)) = Some c"
    using fits(1) by (simp add: newest_def readable_def write_checkpoint_def split: option.split)
  then have "stuck dx (dw_checkpoints (hb_writer h2)) (rw_records (dw_wal (hb_writer h2)))"
    using fits(2) assms(6) by (simp add: stuck_def)
  with reopen_hub [OF ok2 assms(7,8), of ok now' ixf] show ?thesis by simp
qed

definition demo_checkpointed :: realtime_hub where
  "demo_checkpointed = snd (hub_checkpoint demo_durable_ext 0 demo_fresh)"

theorem empty_checkpoint_blocks_reopening_witness:
  "\<exists>h2. (fed_step demo_durable_ext)\<^sup>*\<^sup>* demo_checkpointed h2 \<and> demo_open (rw_directory (dw_wal (hb_writer h2)))
    (dw_checkpoints (hb_writer h2)) = Inl (HubDurability CheckpointWalDivergence)"
proof -
  have empty: "rw_records (dw_wal (hb_writer demo_fresh)) = []"
    by (simp add: demo_fresh_def demo_rt_defs open_defs)
  obtain c where cp: "hub_checkpoint demo_durable_ext 0 demo_fresh = (Inr c, demo_checkpointed)"
    by (simp add: demo_checkpointed_def demo_fresh_def demo_rt_defs open_defs hub_checkpoint_def checkpoint_rt_def
        rt_wal_cursor_def wal_cursor_of_def last_or_def Let_def)
  let ?h2 = "fst (snd (demo_rt_batch Written (demo_ready demo_checkpointed)))"
  have more: "(fed_step demo_durable_ext)\<^sup>*\<^sup>* h h' \<Longrightarrow>
      (fed_step demo_durable_ext)\<^sup>*\<^sup>* h (fst (snd (demo_ingest Written out g h')))" for h h' out g
    unfolding demo_ingest_def by (erule rtranclp.rtrancl_into_rtrancl) (rule fed_step_ingest)
  have steps: "(fed_step demo_durable_ext)\<^sup>*\<^sup>* demo_checkpointed ?h2"
    unfolding demo_rt_batch_def demo_ready_def by (intro more rtranclp.rtrancl_refl)
  have "length (rw_records (dw_wal (hb_writer ?h2))) = 3 \<and> \<not> rw_poisoned (dw_wal (hb_writer ?h2))"
    by (simp add: demo_checkpointed_def demo_fresh_def demo_rt_defs open_defs hub_checkpoint_def checkpoint_rt_def
        ingest_defs demo_evidence)
  then have "rw_records (dw_wal (hb_writer ?h2)) \<noteq> []" "\<not> rw_poisoned (dw_wal (hb_writer ?h2))" by auto
  from empty_checkpoint_blocks_reopening [OF demo_fresh_run demo_nonempty empty cp steps this demo_config] steps
  show ?thesis by (auto simp: demo_open_def)
qed

text \<open>
  A hub that has failed closed stays closed for the rest of its process: no transport output,
  checkpoint request or further failure makes it accept an event, take a checkpoint, or change its
  writer, and it sends nothing.
\<close>

theorem failed_hub_stays_closed:
  assumes "hb_lifecycle h = FailedClosed" and "(fed_step dx)\<^sup>*\<^sup>* h h'"
  shows "ingest dx clock disk ok now out g h' = (Inl HubFailedClosed, h', g)
    \<and> hub_checkpoint dx now' h' = (Inl HubFailedClosed, h') \<and> hb_writer h' = hb_writer h"
proof -
  from assms(2,1) have "hb_lifecycle h' = FailedClosed \<and> hb_writer h' = hb_writer h"
    by (induction rule: rtranclp_induct) (auto elim!: fed_step.cases simp: ingest_def fail_closed_def)
  then show ?thesis by (simp add: ingest_def hub_checkpoint_def)
qed

theorem failed_hub_stays_closed_witness:
  "hub_checkpoint demo_durable_ext 0 (fail_closed 0 [] demo_fed) = (Inl HubFailedClosed, fail_closed 0 [] demo_fed)"
proof -
  have "hb_lifecycle (fail_closed 0 [] demo_fed) = FailedClosed" by (simp add: fail_closed_def)
  from failed_hub_stays_closed [OF this rtranclp.rtrancl_refl] show ?thesis by blast
qed

end
