(* ===== verification/Realtime_Normalizer_Theorems.thy ===== *)
theory Realtime_Normalizer_Theorems
  imports Realtime_Theorems Realtime_Normalizer
begin

text \<open>
  What the Hyperliquid normalizer emits: well-formed books, the evidence the durable log asks for,
  and the instants for which the two disagree.
\<close>

section \<open>Levels\<close>

lemma exact_positive_gt: "exact_positive nx v = Inr d \<Longrightarrow> 0 < d"
  by (auto simp: exact_positive_def split: option.splits if_splits)

lemma field_positive_gt: "field_positive nx m field = Inr d \<Longrightarrow> 0 < d"
  by (auto simp: field_positive_def dest: exact_positive_gt split: sum.splits)

lemma parse_rows_positive:
  "parse_rows nx previous vs = Inr levels \<Longrightarrow>
    length levels = length vs \<and> list_all (\<lambda>l. 0 < bl_price l \<and> 0 < bl_size l) levels"
  by (induction vs arbitrary: previous levels)
     (auto dest: field_positive_gt split: option.splits sum.splits if_splits)

lemma parse_levels_positive:
  "parse_levels nx vs = Inr levels \<Longrightarrow> length levels \<le> 20 \<and> list_all (\<lambda>l. 0 < bl_price l \<and> 0 < bl_size l) levels"
  by (auto simp: parse_levels_def dest!: parse_rows_positive split: if_splits)

lemma any_adjacent_sorted:
  assumes "transp r"
  shows "\<not> any_adjacent (\<lambda>a b. \<not> r (f a) (f b)) xs \<longleftrightarrow> sorted_wrt (\<lambda>a b. r (f a) (f b)) xs"
proof (induction xs)
  case (Cons x xs)
  then show ?case
    by (cases xs) (auto dest: transpD [OF assms])
qed simp

lemma strictly_descending_iff: "strictly_descending levels \<longleftrightarrow> sorted_wrt (>) (map bl_price levels)"
  unfolding strictly_descending_def using any_adjacent_sorted [of "(>)" bl_price levels] by (simp add: sorted_wrt_map)

lemma strictly_ascending_iff: "strictly_ascending levels \<longleftrightarrow> sorted_wrt (<) (map bl_price levels)"
  unfolding strictly_ascending_def using any_adjacent_sorted [of "(<)" bl_price levels] by (simp add: sorted_wrt_map)

lemma book_depth_bound: "book_depth n = Some d \<Longrightarrow> n \<le> d \<and> d \<in> {1, 5, 10, 20}"
  by (auto simp: book_depth_def split: if_splits)

section \<open>Emitted events\<close>

text \<open>What every event of a frame carries, whatever its channel.\<close>

definition stamped :: "norm_ext \<Rightarrow> normalizer \<Rightarrow> timestamp \<Rightarrow> string \<Rightarrow> provider_event \<Rightarrow> bool" where
  "stamped nx nz received_at raw_sha256 e \<longleftrightarrow>
     (\<exists>instrument_id observed_at ordinal payload.
        e = new_event nx instrument_id observed_at received_at raw_sha256 ordinal payload
        \<and> instrument_id \<in> snd ` set (nz_instrument_by_coin nz)
        \<and> (observed_at = received_at \<or> (0 \<le> num_milliseconds (received_at - observed_at)
             \<and> num_milliseconds (received_at - observed_at) \<le> nz_maximum_source_delay_millis nz)))"

lemma timestamp_of_bound:
  "timestamp_of nx v received_at d = Inr t \<Longrightarrow> 0 \<le> num_milliseconds (received_at - t) \<and> num_milliseconds (received_at - t) \<le> d"
  by (auto simp: timestamp_of_def Let_def split: option.splits if_splits)

lemma observed_at_bound:
  "observed_at_of nx nz data received_at = Inr t \<Longrightarrow>
    0 \<le> num_milliseconds (received_at - t) \<and> num_milliseconds (received_at - t) \<le> nz_maximum_source_delay_millis nz"
  by (auto simp: observed_at_of_def dest: timestamp_of_bound split: sum.splits)

lemma context_time_bound:
  "context_time nx nz data ctx received_at = Inr t \<Longrightarrow>
    t = received_at \<or> (0 \<le> num_milliseconds (received_at - t) \<and> num_milliseconds (received_at - t) \<le> nz_maximum_source_delay_millis nz)"
  by (auto simp: context_time_def dest: timestamp_of_bound split: option.splits)

lemma instrument_known: "instrument_of nz data = Inr i \<Longrightarrow> i \<in> snd ` set (nz_instrument_by_coin nz)"
  by (auto simp: instrument_of_def ok_or_def bt_get_def dest!: map_of_SomeD intro!: rev_image_eqI split: sum.splits option.splits)

lemma stampedI:
  "i \<in> snd ` set (nz_instrument_by_coin nz) \<Longrightarrow>
    t = received_at \<or> 0 \<le> num_milliseconds (received_at - t) \<and> num_milliseconds (received_at - t) \<le> nz_maximum_source_delay_millis nz \<Longrightarrow>
    stamped nx nz received_at sha (new_event nx i t received_at sha ordinal payload)"
  unfolding stamped_def by blast

lemma book_events_stamped:
  assumes "book_events nx i t received_at sha bids asks = Inr es" and "i \<in> snd ` set (nz_instrument_by_coin nz)"
    and "t = received_at \<or> 0 \<le> num_milliseconds (received_at - t)
      \<and> num_milliseconds (received_at - t) \<le> nz_maximum_source_delay_millis nz"
  shows "list_all (stamped nx nz received_at sha) es"
  using assms(1) stampedI [OF assms(2,3)] by (auto simp: book_events_def Let_def split: if_splits option.splits)

lemma normalize_book_stamped:
  "normalize_book nx nz frame received_at sha = Inr es \<Longrightarrow> list_all (stamped nx nz received_at sha) es"
  unfolding normalize_book_def
  by (auto elim!: book_events_stamped dest: instrument_known observed_at_bound split: sum.splits)

lemma normalize_trade_stamped:
  "normalize_trade nx nz received_at sha k v = Inr e \<Longrightarrow> stamped nx nz received_at sha e"
  by (auto simp: normalize_trade_def intro!: stampedI dest: instrument_known observed_at_bound
      split: sum.splits if_splits option.splits)

lemma collect_trades_stamped:
  "collect_trades nx nz received_at sha k vs = Inr es \<Longrightarrow> list_all (stamped nx nz received_at sha) es"
  by (induction vs arbitrary: k es) (auto dest: normalize_trade_stamped split: sum.splits)

lemma normalize_context_stamped:
  "normalize_context nx nz frame received_at sha = Inr es \<Longrightarrow> list_all (stamped nx nz received_at sha) es"
  by (auto simp: normalize_context_def Let_def intro!: stampedI dest: instrument_known context_time_bound
      split: sum.splits)

lemma normalized_stamped:
  "normalize_with_raw_sha256 nx nz raw received_at sha = Inr es \<Longrightarrow>
    valid_sha256_text sha \<and> list_all (stamped nx nz received_at sha) es"
  by (auto simp: normalize_with_raw_sha256_def normalize_trades_def split: if_splits option.splits sum.splits
      dest: normalize_book_stamped collect_trades_stamped normalize_context_stamped)

section \<open>Configured instruments\<close>

lemma insert_mappings_names:
  "insert_mappings ms m = Inr m' \<Longrightarrow> \<forall>i \<in> snd ` set m. i \<noteq> [] \<Longrightarrow> \<forall>i \<in> snd ` set m'. i \<noteq> []"
proof (induction ms arbitrary: m)
  case (Cons x ms)
  obtain i coin where x: "x = (i, coin)" by fastforce
  have "set (bt_insert k v m) \<subseteq> insert (k, v) (set m)" for k v
    by (induction m) (auto split: if_splits)
  moreover have "i \<noteq> []" if "trim i \<noteq> []" using that by (auto simp: trim_def)
  ultimately show ?case
    using Cons by (fastforce simp: x Let_def split: if_splits)
qed simp

lemma normalizer_names: "normalizer_new mappings d = Inr nz \<Longrightarrow> \<forall>i \<in> snd ` set (nz_instrument_by_coin nz). i \<noteq> []"
  by (fastforce simp: normalizer_new_def dest!: insert_mappings_names split: if_splits sum.splits)

lemma normalizer_delay: "normalizer_new mappings d = Inr nz \<Longrightarrow> nz_maximum_source_delay_millis nz = d \<and> 0 \<le> d"
  by (auto simp: normalizer_new_def split: if_splits sum.splits)

lemma num_milliseconds_nonneg: "0 \<le> num_milliseconds d \<longleftrightarrow> - 1000000 < d"
  by (auto simp: num_milliseconds_def)

lemma num_milliseconds_le: "0 \<le> n \<Longrightarrow> num_milliseconds d \<le> n \<Longrightarrow> d < (n + 1) * 1000000"
  by (auto simp: num_milliseconds_def split: if_splits)

section \<open>Books\<close>

definition book_sound :: "book_level list \<Rightarrow> book_level list \<Rightarrow> nat \<Rightarrow> bool" where
  "book_sound bids asks depth \<longleftrightarrow>
     sorted_wrt (>) (map bl_price bids) \<and> sorted_wrt (<) (map bl_price asks)
     \<and> list_all (\<lambda>l. 0 < bl_price l \<and> 0 < bl_size l) (bids @ asks)
     \<and> (bids \<noteq> [] \<and> asks \<noteq> [] \<longrightarrow> bl_price (hd bids) < bl_price (hd asks))
     \<and> length bids \<le> depth \<and> length asks \<le> depth \<and> depth \<in> {1, 5, 10, 20}"

text \<open>
  C28: A book frame that is normalized yields one snapshot with strictly ordered, uncrossed sides of
  positive prices and sizes that fit the announced depth of at most twenty, followed by a quote
  exactly when both sides have a level, and the quote is the top of that snapshot.
\<close>

theorem normalized_books_are_sound:
  assumes "normalize_book nx nz frame received_at raw_sha256 = Inr es"
  shows "\<exists>book_type depth bids asks. book_sound bids asks depth
    \<and> map ne_payload es = OrderBookSnapshot book_type (of_nat depth) 0 bids asks ''provider'' None
        # (if bids \<noteq> [] \<and> asks \<noteq> []
           then [Quote (bl_price (hd bids)) (bl_price (hd asks)) (bl_size (hd bids)) (bl_size (hd asks)) ''provider'']
           else [])"
proof -
  from assms obtain i t bid_values ask_values bids asks where
    b: "parse_levels nx bid_values = Inr bids" "parse_levels nx ask_values = Inr asks"
      "book_events nx i t received_at raw_sha256 bids asks = Inr es"
    by (auto simp: normalize_book_def split: sum.splits prod.splits)
  from b(3) obtain depth where d: "book_depth (max (length bids) (length asks)) = Some depth"
    and ord: "strictly_descending bids" "strictly_ascending asks"
      "bids \<noteq> [] \<and> asks \<noteq> [] \<longrightarrow> bl_price (hd bids) < bl_price (hd asks)"
    by (auto simp: book_events_def Let_def split: if_splits option.splits)
  have "book_sound bids asks depth"
    unfolding book_sound_def
    using book_depth_bound [OF d] ord parse_levels_positive [OF b(1)] parse_levels_positive [OF b(2)]
    by (simp add: strictly_descending_iff strictly_ascending_iff)
  moreover obtain book_type where "map ne_payload es = OrderBookSnapshot book_type (of_nat depth) 0 bids asks ''provider'' None
        # (if bids \<noteq> [] \<and> asks \<noteq> []
           then [Quote (bl_price (hd bids)) (bl_price (hd asks)) (bl_size (hd bids)) (bl_size (hd asks)) ''provider'']
           else [])"
    using b(3) ord d by (auto simp: book_events_def Let_def new_event_def)
  ultimately show ?thesis
    by (intro exI [of _ book_type] exI [of _ depth] exI [of _ bids] exI [of _ asks]) (rule conjI)
qed

definition test_norm_ext :: norm_ext where
  "test_norm_ext = \<lparr> nx_dec_parse = (\<lambda>t. if t = ''2'' then Some 2 else if t = ''1'' then Some 1 else None),
     nx_number_text = (\<lambda>v. ''9''), nx_millis_ok = (\<lambda>n. True), nx_event_id = rx_event_id demo_rt_ext \<rparr>"

definition test_normalizer :: normalizer where
  "test_normalizer = \<lparr> nz_instrument_by_coin = [(''BTC'', ''BTC'')], nz_maximum_source_delay_millis = 5000 \<rparr>"

lemma test_normalizer_new: "normalizer_new [(''BTC'', ''btc '')] 5000 = Inr test_normalizer"
  by code_simp

definition test_level :: "string \<Rightarrow> json" where
  "test_level price = JObject [(''px'', JString price), (''sz'', JString ''1'')]"

definition test_book_frame :: json_map where
  "test_book_frame = [(''channel'', JString ''l2Book''), (''data'', JObject [(''coin'', JString ''BTC''), (''time'', JUInt 6),
     (''levels'', JArray [JArray [test_level ''1''], JArray [test_level ''2'']])])]"

lemma test_book: "case normalize_book test_norm_ext test_normalizer test_book_frame 6000000 [] of Inl err \<Rightarrow> False | Inr es \<Rightarrow> length es = 2"
  by code_simp

theorem normalized_books_are_sound_witness:
  "\<exists>es depth bids asks. normalize_book test_norm_ext test_normalizer test_book_frame 6000000 [] = Inr es
    \<and> book_sound bids asks depth \<and> bids \<noteq> [] \<and> asks \<noteq> []"
proof -
  from test_book obtain es where es: "normalize_book test_norm_ext test_normalizer test_book_frame 6000000 [] = Inr es" "length es = 2"
    by (auto split: sum.splits)
  from normalized_books_are_sound [OF es(1)] obtain book_type depth bids asks where
    b: "book_sound bids asks depth" and "map ne_payload es = OrderBookSnapshot book_type (of_nat depth) 0 bids asks ''provider'' None
        # (if bids \<noteq> [] \<and> asks \<noteq> []
           then [Quote (bl_price (hd bids)) (bl_price (hd asks)) (bl_size (hd bids)) (bl_size (hd asks)) ''provider'']
           else [])" by (elim exE conjE) (erule (1) that)
  then have "bids \<noteq> [] \<and> asks \<noteq> []" using es(2) arg_cong [OF \<open>map ne_payload es = _\<close>, of length] by (auto split: if_splits)
  with es b show ?thesis by blast
qed

section \<open>Evidence\<close>

text \<open>
  C29: Every event the normalizer emits is evidence the durable log accepts if and only if the venue's
  time is not after the receive time; the normalizer itself enforces this only to the millisecond, so
  an event may carry a source time up to one millisecond in the future, and none is older than the
  configured delay.
\<close>

theorem normalized_evidence_is_valid_iff_ordered:
  assumes "normalizer_new mappings maximum_delay = Inr nz"
    and "normalize_with_raw_sha256 nx nz raw received_at raw_sha256 = Inr es" and "e \<in> set es"
  shows "(evidence_is_valid (nx_event_id nx) e \<longleftrightarrow> ne_source_observed_at e \<le> ne_received_at e)
    \<and> ne_received_at e = received_at \<and> ne_source_observed_at e < received_at + 1000000
    \<and> received_at < ne_source_observed_at e + (maximum_delay + 1) * 1000000"
proof -
  note names = normalizer_names [OF assms(1)] and delay = normalizer_delay [OF assms(1)]
  from normalized_stamped [OF assms(2)] assms(3) have sha: "valid_sha256_text raw_sha256"
    and "stamped nx nz received_at raw_sha256 e" by (auto simp: list_all_iff)
  then obtain i t k payload where e: "e = new_event nx i t received_at raw_sha256 k payload" and i: "i \<noteq> []"
    and t: "t = received_at \<or> 0 \<le> num_milliseconds (received_at - t) \<and> num_milliseconds (received_at - t) \<le> maximum_delay"
    using names delay by (auto simp: stamped_def)
  have "t < received_at + 1000000 \<and> received_at < t + (maximum_delay + 1) * 1000000"
    using t delay num_milliseconds_nonneg [of "received_at - t"] num_milliseconds_le [of maximum_delay "received_at - t"] by auto
  moreover have "evidence_is_valid (nx_event_id nx) e \<longleftrightarrow> t \<le> received_at"
    using sha i by (simp add: e new_event_def evidence_is_valid_def identity_of_def quality_live_def)
  ultimately show ?thesis by (simp add: e new_event_def)
qed

definition test_frame :: json where
  "test_frame = JObject test_book_frame"

definition zero_digest_text :: string where
  "zero_digest_text = replicate 64 (CHR ''0'')"

lemma test_frames:
  "case normalize_with_raw_sha256 test_norm_ext test_normalizer test_frame 6000000 zero_digest_text of
     Inl err \<Rightarrow> False | Inr es \<Rightarrow> length es = 2 \<and> ne_source_observed_at (hd es) = 6000000"
  "case normalize_with_raw_sha256 test_norm_ext test_normalizer test_frame 5999999 zero_digest_text of
     Inl err \<Rightarrow> False | Inr es \<Rightarrow> length es = 2 \<and> ne_source_observed_at (hd es) = 6000000"
  by code_simp+

theorem normalized_evidence_is_valid_iff_ordered_witness:
  "\<exists>es. normalize_with_raw_sha256 test_norm_ext test_normalizer test_frame 6000000 zero_digest_text = Inr es
    \<and> evidence_is_valid (nx_event_id test_norm_ext) (hd es)"
proof -
  from test_frames(1) obtain es where es: "normalize_with_raw_sha256 test_norm_ext test_normalizer test_frame 6000000 zero_digest_text = Inr es"
    "length es = 2" "ne_source_observed_at (hd es) = 6000000" by (auto split: sum.splits)
  then have "hd es \<in> set es" by (intro hd_in_set) auto
  from normalized_evidence_is_valid_iff_ordered [OF test_normalizer_new es(1) this] es show ?thesis by auto
qed

text \<open>
  A frame whose venue time is less than one millisecond ahead of the local clock passes the
  normalizer, but the durable writer then refuses it as invalid evidence: the ready hub closes for the
  rest of its process, although the frame is within the tolerance the normalizer grants.
\<close>

theorem submillisecond_skew_closes_the_hub:
  assumes "normalize_with_raw_sha256 nx nz raw received_at raw_sha256 = Inr es" and "e \<in> set es"
    and "received_at < ne_source_observed_at e"
    and "hub_run dx s r cap h" and "text_nonempty (dx_wal dx)" and "hb_lifecycle h = Ready attempt"
    and "try_reserve_many (length es) g = None"
  shows "\<exists>h'. ingest dx clock disk ok now (OutEvents attempt es) g h = (Inl (HubDurability InvalidEventEvidence), h', g)
    \<and> hb_lifecycle h' = FailedClosed \<and> hb_writer h' = hb_writer h"
proof -
  have "hub_ok dx s r cap h" by (rule hub_ok_run [OF assms(4,5)])
  then have "\<not> rw_poisoned (dw_wal (hb_writer h))" "durable_ok dx (hb_writer h)" using assms(6) by (auto simp: hub_ok_def)
  then have np: "\<not> dw_poisoned (hb_writer h)" by (auto simp: durable_ok_def)
  have "stamped nx nz received_at raw_sha256 e" using normalized_stamped [OF assms(1)] assms(2) by (auto simp: list_all_iff)
  then have "ne_received_at e = received_at" by (auto simp: stamped_def new_event_def)
  then have "list_ex (\<lambda>e. \<not> evidence_is_valid (rx_event_id (dx_wal dx)) e) es"
    using assms(2,3) by (auto simp: list_ex_iff evidence_is_valid_def intro!: bexI [of _ e])
  moreover have "es \<noteq> []" using assms(2) by auto
  ultimately show ?thesis
    using assms(6,7) np by (simp add: ingest_def ingest_events_def apply_batch_rt_def)
qed

theorem submillisecond_skew_closes_the_hub_witness:
  "\<exists>es h'. normalize_with_raw_sha256 test_norm_ext test_normalizer test_frame 5999999 zero_digest_text = Inr es
    \<and> demo_ingest Written (OutEvents 1 es) demo_gateway (demo_ready demo_fresh)
      = (Inl (HubDurability InvalidEventEvidence), h', demo_gateway) \<and> hb_lifecycle h' = FailedClosed"
proof -
  from test_frames(2) obtain es where es: "normalize_with_raw_sha256 test_norm_ext test_normalizer test_frame 5999999 zero_digest_text = Inr es"
    "length es = 2" "ne_source_observed_at (hd es) = 6000000" by (auto split: sum.splits)
  then have "hd es \<in> set es" by (intro hd_in_set) auto
  moreover have "try_reserve_many (length es) demo_gateway = None" by (simp add: es(2) try_reserve_many_def demo_gateway_def)
  moreover have "5999999 < ne_source_observed_at (hd es)" by (simp add: es(3))
  ultimately obtain h' where "ingest demo_durable_ext (\<lambda>k. 0) Written True 0 (OutEvents 1 es) demo_gateway (demo_ready demo_fresh)
      = (Inl (HubDurability InvalidEventEvidence), h', demo_gateway)" "hb_lifecycle h' = FailedClosed"
    using submillisecond_skew_closes_the_hub [OF es(1) _ _ demo_ready_run demo_nonempty demo_ready_eq,
        of "hd es" demo_gateway "\<lambda>k. 0" Written True 0] by blast
  with es(1) show ?thesis unfolding demo_ingest_def by blast
qed

end
