(* ===== verification/Realtime_Transport_Theorems.thy ===== *)
theory Realtime_Transport_Theorems
  imports Realtime_Owner Realtime_Normalizer_Theorems
begin

text \<open>
  The properties of the Hyperliquid pipeline: what the normalizer emits, what a connection may
  report, when the supervisor ends, and what the hub and its owner make of the transport's outputs.
\<close>

section \<open>Outputs only grow\<close>


lemma try_output_Sent [simp]: "try_output (\<lambda>n. Sent) msg outs = (None, outs @ [msg])"
  by (simp add: try_output_def)

lemma run_socket_extends:
  "\<exists>more. snd (run_socket c nx nz channel attempt pending reported es outs) = outs @ more"
proof (induction es arbitrary: pending reported outs)
  case (Cons e es)
  have step: "\<exists>more. snd (run_socket c nx nz channel attempt p r es (outs @ msgs)) = outs @ more" for p r msgs
    using Cons.IH [of p r "outs @ msgs"] by auto
  show ?case
    using Cons.IH step
    by (cases e) (auto simp: try_output_def split: option.split sum.split prod.split bool.split send_result.split)
qed simp


text \<open>The report of a lost connection and what follows it.\<close>

definition after_report ::
  "transport_config \<Rightarrow> norm_ext \<Rightarrow> normalizer \<Rightarrow> subscription list \<Rightarrow> (nat \<Rightarrow> send_result) \<Rightarrow> u32 \<Rightarrow> connection \<Rightarrow> connection list
   \<Rightarrow> transport_error option \<times> transport_output list \<Rightarrow> (transport_error + unit) option \<times> transport_output list" where
  "after_report c nx nz subs channel attempt conn conns report =
     (case report of
        (Some err, outs') \<Rightarrow> (Some (Inl err), outs')
      | (None, outs') \<Rightarrow>
          if attempt = tc_maximum_reconnect_attempts c then (Some (Inl ReconnectExhausted), outs')
          else if cn_shutdown_in_delay conn then (Some (Inr ()), outs')
          else run_attempts c nx nz subs channel (attempt + 1) conns outs')"

lemma run_attempts_Cons:
  "run_attempts c nx nz subs channel attempt (conn # conns) outs =
    (if cn_shutdown_before conn then (Some (Inr ()), outs)
     else case run_connection c nx nz subs channel attempt conn outs of
       (StillOpen, outs') \<Rightarrow> (None, outs')
     | (Stopped, outs') \<Rightarrow> (Some (Inr ()), outs')
     | (Disconnected, outs') \<Rightarrow> after_report c nx nz subs channel attempt conn conns
         (try_output channel (OutDegraded attempt ''upstream_disconnected'' True) outs')
     | (Broken err, outs') \<Rightarrow>
         if err = Backpressure then (Some (Inl Backpressure), outs')
         else after_report c nx nz subs channel attempt conn conns (try_output channel
           (OutDegraded attempt (reason_code err) (attempt < tc_maximum_reconnect_attempts c)) outs'))"
  by (simp only: run_attempts.simps after_report_def Let_def)

declare run_attempts.simps(2) [simp del]


section \<open>Two failed reconnects\<close>


lemma reason_code_nonempty [simp]: "reason_code err \<noteq> []"
  by (cases err) simp_all








definition refused :: connection where
  "refused = \<lparr> cn_shutdown_before = False, cn_connect = ConnectRefused, cn_sends_ok = True, cn_events = [],
     cn_shutdown_in_delay = False \<rparr>"

definition demo_input :: "transport_output \<Rightarrow> owner_input" where
  "demo_input out = \<lparr> oi_output = out, oi_taken = 0, oi_clock = (\<lambda>k. 0), oi_disk = Written, oi_index_disk_ok = True,
     oi_now = 0, oi_audit_ok = True \<rparr>"




section \<open>From the transport to the subscribers\<close>

text \<open>
  C25: Over a whole run of the owner, whatever the transport, the disk, the audit log and the gateway
  do, the events forwarded to the public stream followed by those still in the gateway queue are
  exactly the applied records that the log gained, in log order: nothing is forwarded that is not in
  the log, and nothing logged as applied is lost or reordered on its way.
\<close>

theorem owner_forwards_exactly_the_log:
  assumes "hub_run dx s r cap h" and "text_nonempty (dx_wal dx)" and "gw_queue g = []"
  shows "\<exists>rs. rw_records (dw_wal (hb_writer (oe_hub (run_owner dx terminal stopped_at inputs 0 g [] h))))
      = rw_records (dw_wal (hb_writer h)) @ rs
    \<and> oe_forwarded (run_owner dx terminal stopped_at inputs 0 g [] h)
        @ gw_queue (oe_gateway (run_owner dx terminal stopped_at inputs 0 g [] h)) = map (stream_of s) (filter pr_applied rs)"
  using run_owner_forwards [OF assms(2) hub_ok_run [OF assms(1,2)], of terminal stopped_at inputs 0 g "[]"] assms(3)
  by (simp add: queued_def)

theorem owner_forwards_exactly_the_log_witness:
  "\<exists>rs. oe_forwarded (run_owner demo_durable_ext None 0 (map demo_input [OutConnected 1, SubscriptionsReady 1,
        OutEvents 1 [demo_rt_event 1 ''a'']]) 0 demo_gateway [] demo_fresh)
      @ gw_queue (oe_gateway (run_owner demo_durable_ext None 0 (map demo_input [OutConnected 1, SubscriptionsReady 1,
        OutEvents 1 [demo_rt_event 1 ''a'']]) 0 demo_gateway [] demo_fresh)) = map (stream_of ''s'') (filter pr_applied rs)"
proof -
  have "gw_queue demo_gateway = []" by (simp add: demo_gateway_def)
  from owner_forwards_exactly_the_log [OF demo_fresh_run demo_nonempty this] show ?thesis by blast
qed

section \<open>Subscriptions\<close>

text \<open>A frame that acknowledges one subscription.\<close>

definition acknowledges :: "subscription \<Rightarrow> socket_event \<Rightarrow> bool" where
  "acknowledges sub e = (case e of
     TextFrame len (Some raw) received_at raw_sha256 \<Rightarrow> handle_control_frame raw {sub} = Inr (True, {})
   | _ \<Rightarrow> False)"

lemma control_frame_ack:
  assumes "handle_control_frame raw pending = Inr (True, pending')"
  shows "pending' = pending \<or> (\<exists>sub \<in> pending. pending' = pending - {sub} \<and> handle_control_frame raw {sub} = Inr (True, {}))"
  using assms by (auto simp: handle_control_frame_def Let_def split: option.splits if_splits)

lemma control_frame_other: "handle_control_frame raw pending = Inr (False, pending') \<Longrightarrow> pending' = pending"
  by (auto simp: handle_control_frame_def Let_def split: option.splits if_splits)

lemma ready_acknowledged:
  assumes "snd (run_socket c nx nz channel attempt pending reported es outs) = outs @ later"
    and "SubscriptionsReady k \<in> set later"
  shows "k = attempt \<and> \<not> reported \<and> (\<forall>sub \<in> pending. \<exists>e \<in> set es. acknowledges sub e)"
  using assms
proof (induction es arbitrary: pending reported outs later)
  case (Cons e es)
  have tail: "k = attempt \<and> \<not> r \<and> (\<forall>sub \<in> p. \<exists>e \<in> set es. acknowledges sub e)"
    if "snd (run_socket c nx nz channel attempt p r es (outs @ ms)) = outs @ later" "SubscriptionsReady k \<notin> set ms" for p r ms
  proof -
    obtain m2 where m2: "snd (run_socket c nx nz channel attempt p r es (outs @ ms)) = (outs @ ms) @ m2"
      using run_socket_extends by blast
    then have "later = ms @ m2" using that by simp
    with Cons.IH [OF m2] Cons.prems(2) that show ?thesis by auto
  qed
  note same = tail [where ms = "[]", simplified]
  show ?case
  proof (cases e)
    case (TextFrame len body at sha)
    with Cons.prems obtain raw where body: "body = Some raw" by (cases body) (auto split: if_splits)
    with Cons.prems TextFrame obtain control p where h: "handle_control_frame raw pending = Inr (control, p)"
      by (auto split: if_splits sum.splits)
    show ?thesis
    proof (cases control)
      case False
      then have "p = pending" using h by (simp add: control_frame_other)
      then show ?thesis
        using Cons.prems TextFrame body h False same [of pending reported] tail [of pending reported "[OutEvents attempt _]"]
        by (auto simp: try_output_def split: if_splits sum.splits send_result.splits)
    next
      case True
      have ack: "acknowledges sub e" if "sub \<in> pending" "sub \<notin> p" for sub
        using control_frame_ack [of raw pending p] h True that TextFrame body by (auto simp: acknowledges_def)
      show ?thesis
      proof (cases "p = {} \<and> \<not> reported")
        case p: True
        have "k = attempt" if "channel (length outs) = Sent"
        proof -
          obtain m2 where m2: "snd (run_socket c nx nz channel attempt p True es (outs @ [SubscriptionsReady attempt])) = (outs @ [SubscriptionsReady attempt]) @ m2"
            using run_socket_extends by blast
          with Cons.prems TextFrame body h True p that have "later = SubscriptionsReady attempt # m2"
            by (simp add: try_output_def split: if_splits)
          with Cons.IH [OF m2] Cons.prems(2) show ?thesis by auto
        qed
        moreover have "channel (length outs) = Sent"
          using Cons.prems TextFrame body h True p by (auto simp: try_output_def split: if_splits send_result.splits)
        ultimately show ?thesis using p ack by auto
      next
        case False
        then show ?thesis
          using Cons.prems TextFrame body h True same [of p reported] ack by (auto split: if_splits)
      qed
    qed
  qed (use Cons.prems same [of pending reported] in \<open>auto split: if_splits\<close>)
qed simp

text \<open>
  C26: A connection reports its subscriptions ready only under its own attempt number, only after it
  reported itself connected, and only when each subscription of the set was acknowledged by a control
  frame of that connection.
\<close>

theorem ready_means_acknowledged:
  assumes "snd (run_connection c nx nz subs channel attempt conn outs) = outs @ later"
    and "SubscriptionsReady k \<in> set later"
  shows "k = attempt \<and> hd later = OutConnected attempt \<and> (\<forall>sub \<in> set subs. \<exists>e \<in> set (cn_events conn). acknowledges sub e)"
proof -
  from assms have sock: "snd (run_socket c nx nz channel attempt (set subs) False (cn_events conn) (outs @ [OutConnected attempt]))
      = outs @ later"
    by (auto simp: run_connection_def try_output_def split: connect_outcome.splits if_splits send_result.splits)
  then obtain ms where ms: "later = OutConnected attempt # ms"
    using run_socket_extends [of c nx nz channel attempt "set subs" False "cn_events conn" "outs @ [OutConnected attempt]"] by auto
  from ready_acknowledged [of c nx nz channel attempt "set subs" False "cn_events conn" "outs @ [OutConnected attempt]" ms k] sock ms assms(2)
  show ?thesis by auto
qed

definition demo_ack :: socket_event where
  "demo_ack = TextFrame 9 (Some (JObject [(''channel'', JString ''subscriptionResponse''), (''data'', JObject
     [(''subscription'', JObject [(''coin'', JString ''BTC''), (''type'', JString ''l2Book'')])])])) 0 []"

lemma demo_ack_frame: "\<forall>sub \<in> {(''BTC'', L2Book)}. acknowledges sub demo_ack"
  by code_simp

theorem ready_means_acknowledged_witness:
  "\<exists>e \<in> set [demo_ack]. acknowledges (''BTC'', L2Book) e"
proof -
  have h: "handle_control_frame (JObject [(''channel'', JString ''subscriptionResponse''), (''data'', JObject
     [(''subscription'', JObject [(''coin'', JString ''BTC''), (''type'', JString ''l2Book'')])])]) {(''BTC'', L2Book)} = Inr (True, {})"
    by code_simp
  have "snd (run_connection production_config test_norm_ext test_normalizer [(''BTC'', L2Book)] (\<lambda>n. Sent) 1
      (refused\<lparr> cn_connect := ConnectStatus 101, cn_events := [demo_ack] \<rparr>) []) = [] @ [OutConnected 1, SubscriptionsReady 1]"
    by (simp add: run_connection_def refused_def demo_ack_def production_config_def h)
  from ready_means_acknowledged [OF this, of 1] show ?thesis by (simp add: refused_def)
qed

section \<open>The end of the supervisor\<close>

text \<open>A connection that does not stay open for ever.\<close>

definition ends_by_itself :: "connection \<Rightarrow> bool" where
  "ends_by_itself conn \<longleftrightarrow> cn_connect conn \<noteq> ConnectStatus 101 \<or> \<not> cn_sends_ok conn
     \<or> list_ex (\<lambda>e. e \<in> {ShutdownChanged True, CloseFrame, StreamEnded, BinaryFrame, OtherFrame, ReadFault}) (cn_events conn)"

fun degraded_attempt :: "transport_output \<Rightarrow> u32 option" where
  "degraded_attempt (OutDegraded attempt reason retryable) = Some attempt"
| "degraded_attempt out = None"

definition degraded_attempts :: "transport_output list \<Rightarrow> u32 list" where
  "degraded_attempts outs = List.map_filter degraded_attempt outs"

lemma degraded_attempts_simps [simp]:
  "degraded_attempts [] = []"
  "degraded_attempts (outs @ outs') = degraded_attempts outs @ degraded_attempts outs'"
  "degraded_attempts (out # outs) = (case degraded_attempt out of None \<Rightarrow> [] | Some k \<Rightarrow> [k]) @ degraded_attempts outs"
  by (simp_all add: degraded_attempts_def List.map_filter_def split: option.split)

lemma run_socket_ends:
  "list_ex (\<lambda>e. e \<in> {ShutdownChanged True, CloseFrame, StreamEnded, BinaryFrame, OtherFrame, ReadFault}) es \<Longrightarrow>
    fst (run_socket c nx nz channel attempt pending reported es outs) \<noteq> StillOpen"
proof (induction es arbitrary: pending reported outs)
  case (Cons e es)
  then show ?case
    by (cases e) (auto split: option.split sum.split prod.split bool.split)
qed simp

lemma run_socket_degraded:
  "degraded_attempts (snd (run_socket c nx nz channel attempt pending reported es outs)) = degraded_attempts outs"
proof (induction es arbitrary: pending reported outs)
  case (Cons e es)
  then show ?case
    by (cases e) (auto simp: try_output_def split: option.split sum.split prod.split bool.split send_result.split)
qed simp

lemma run_connection_degraded:
  "degraded_attempts (snd (run_connection c nx nz subs channel attempt conn outs)) = degraded_attempts outs"
  by (auto simp: run_connection_def try_output_def run_socket_degraded split: connect_outcome.split send_result.split)

lemma run_connection_ends:
  "ends_by_itself conn \<Longrightarrow> fst (run_connection c nx nz subs channel attempt conn outs) \<noteq> StillOpen"
  by (auto simp: run_connection_def ends_by_itself_def run_socket_ends split: connect_outcome.split option.split prod.split)

definition supervisor_results :: "(transport_error + unit) set" where
  "supervisor_results = {Inr (), Inl Backpressure, Inl ConsumerClosed, Inl ReconnectExhausted}"

lemma run_attempts_end:
  assumes "0 < attempt" and "attempt \<le> tc_maximum_reconnect_attempts c"
    and "unat (tc_maximum_reconnect_attempts c) < unat attempt + length conns" and "list_all ends_by_itself conns"
  shows "(\<exists>result \<in> supervisor_results. fst (run_attempts c nx nz subs channel attempt conns outs) = Some result)
    \<and> (\<exists>m. unat attempt + m \<le> unat (tc_maximum_reconnect_attempts c) + 1
      \<and> degraded_attempts (snd (run_attempts c nx nz subs channel attempt conns outs))
        = degraded_attempts outs @ map of_nat [unat attempt ..< unat attempt + m])"
  using assms
proof (induction conns arbitrary: attempt outs)
  case (Cons conn conns)
  let ?max = "tc_maximum_reconnect_attempts c"
  obtain res outs1 where r: "run_connection c nx nz subs channel attempt conn outs = (res, outs1)" by fastforce
  have deg: "degraded_attempts outs1 = degraded_attempts outs"
    using run_connection_degraded [of c nx nz subs channel attempt conn outs] r by simp
  have res: "res \<noteq> StillOpen" using run_connection_ends [of conn c nx nz subs channel attempt outs] r Cons.prems by simp
  have none: "\<exists>m. unat attempt + m \<le> unat ?max + 1 \<and> degraded_attempts outs = degraded_attempts outs @ map of_nat [unat attempt ..< unat attempt + m]"
    using Cons.prems(2) by (intro exI [of _ 0]) (simp add: word_le_nat_alt)
  have after: "(\<exists>result \<in> supervisor_results. fst (after_report c nx nz subs channel attempt conn conns
        (try_output channel (OutDegraded attempt reason retryable) outs1)) = Some result)
    \<and> (\<exists>m. unat attempt + m \<le> unat ?max + 1 \<and> degraded_attempts (snd (after_report c nx nz subs channel attempt conn conns
        (try_output channel (OutDegraded attempt reason retryable) outs1))) = degraded_attempts outs @ map of_nat [unat attempt ..< unat attempt + m])"
    for reason retryable
  proof -
    let ?outs2 = "outs1 @ [OutDegraded attempt reason retryable]"
    have one: "\<exists>m. unat attempt + m \<le> unat ?max + 1 \<and> degraded_attempts ?outs2 = degraded_attempts outs @ map of_nat [unat attempt ..< unat attempt + m]"
      using Cons.prems(2) deg by (intro exI [of _ 1]) (simp add: word_le_nat_alt)
    have next_attempt: "(\<exists>result \<in> supervisor_results. fst (run_attempts c nx nz subs channel (attempt + 1) conns ?outs2) = Some result)
      \<and> (\<exists>m. unat attempt + m \<le> unat ?max + 1 \<and> degraded_attempts (snd (run_attempts c nx nz subs channel (attempt + 1) conns ?outs2))
          = degraded_attempts outs @ map of_nat [unat attempt ..< unat attempt + m])" if ne: "attempt \<noteq> ?max"
    proof -
      have less: "unat attempt < unat ?max" using ne Cons.prems(2) by (simp add: word_le_nat_alt word_unat_eq_iff)
      then have "attempt < ?max" by (simp add: word_less_nat_alt)
      then have "attempt \<noteq> - 1" using word_order.extremum_strict by metis
      then have u: "unat (attempt + 1) = unat attempt + 1" by (simp add: unat_add1)
      have p: "0 < attempt + 1" "attempt + 1 \<le> ?max" "unat ?max < unat (attempt + 1) + length conns" "list_all ends_by_itself conns"
        using u less Cons.prems by (simp_all add: word_less_nat_alt word_le_nat_alt)
      note ih = conjunct1 [OF Cons.IH [OF p, of ?outs2]] conjunct2 [OF Cons.IH [OF p, of ?outs2], unfolded u]
      from ih(2) obtain m where "unat attempt + 1 + m \<le> unat ?max + 1"
        "degraded_attempts (snd (run_attempts c nx nz subs channel (attempt + 1) conns ?outs2))
          = degraded_attempts ?outs2 @ map of_nat [unat attempt + 1 ..< unat attempt + 1 + m]" by blast
      then show ?thesis
        using ih(1) deg by (intro conjI exI [of _ "Suc m"]) (simp_all add: upt_conv_Cons del: upt_Suc)
    qed
    show ?thesis
      using none one next_attempt deg
      by (auto simp: after_report_def try_output_def supervisor_results_def split: send_result.split)
  qed
  show ?case
    using after none deg res
    by (auto simp: run_attempts_Cons r supervisor_results_def split: connection_result.split)
qed (simp add: word_le_nat_alt)

text \<open>
  C27: With a valid configuration and subscription set the supervisor always ends once every connection
  does, after at most the configured number of attempts: it answers a shutdown, a full or closed
  consumer queue, or an exhausted reconnect budget, and the losses it reports are those of the
  attempts 1, 2, 3 and so on, one each.
\<close>

theorem supervisor_always_ends:
  assumes "transport_config_validate c = None" and "subs \<noteq> []" and "valid_subscription_set subs"
    and "unat (tc_maximum_reconnect_attempts c) \<le> length conns" and "list_all ends_by_itself conns"
  shows "(\<exists>result \<in> {Inr (), Inl Backpressure, Inl ConsumerClosed, Inl ReconnectExhausted}.
      fst (run_hyperliquid_transport c nx nz subs channel conns) = Some result)
    \<and> (\<exists>m \<le> unat (tc_maximum_reconnect_attempts c).
        degraded_attempts (snd (run_hyperliquid_transport c nx nz subs channel conns)) = map of_nat [1 ..< 1 + m])"
proof -
  have "tc_maximum_reconnect_attempts c \<noteq> 0" using assms(1) by (auto simp: transport_config_validate_def split: if_splits)
  then have "1 \<le> tc_maximum_reconnect_attempts c" by (simp add: word_le_nat_alt unat_eq_zero Suc_le_eq unat_gt_0)
  from run_attempts_end [OF _ this, of conns nx nz subs channel "[]"] assms show ?thesis
    by (simp add: run_hyperliquid_transport_def supervisor_results_def del: upt_Suc)
qed

theorem supervisor_always_ends_witness:
  "\<exists>m \<le> 8. degraded_attempts (snd (run_hyperliquid_transport production_config test_norm_ext test_normalizer
     [(''BTC'', L2Book)] (\<lambda>n. Sent) (replicate 8 refused))) = map of_nat [1 ..< 1 + m]"
proof -
  have "transport_config_validate production_config = None"
    by (simp add: transport_config_validate_def production_config_def)
  moreover have "valid_subscription_set [(''BTC'', L2Book)]" by code_simp
  moreover have "list_all ends_by_itself (replicate 8 refused)" by (simp add: ends_by_itself_def refused_def list_all_iff)
  moreover have "unat (tc_maximum_reconnect_attempts production_config) = 8" by (simp add: production_config_def)
  ultimately show ?thesis
    using supervisor_always_ends [of production_config "[(''BTC'', L2Book)]" "replicate 8 refused" test_norm_ext test_normalizer "\<lambda>n. Sent"]
    by simp
qed

end
