(* ===== verification/Results.thy ===== *)
theory Results
  imports Prelude
begin

text \<open>
  Fallible code as values of a sum: \<open>and_then\<close> is the \<open>?\<close> operator, \<open>ensure\<close> a check that returns early
  with its error. The elimination rules give the steps of a computation that succeeded.
\<close>

definition and_then :: "'e + 'a \<Rightarrow> ('a \<Rightarrow> 'e + 'b) \<Rightarrow> 'e + 'b" where
  "and_then r f = (case r of Inl err \<Rightarrow> Inl err | Inr a \<Rightarrow> f a)"

definition ensure :: "bool \<Rightarrow> 'e \<Rightarrow> 'e + unit" where
  "ensure b err = (if b then Inr () else Inl err)"

definition of_option :: "'e \<Rightarrow> 'a option \<Rightarrow> 'e + 'a" where
  "of_option err x = (case x of None \<Rightarrow> Inl err | Some a \<Rightarrow> Inr a)"

lemma and_then_simps [simp]: "and_then (Inl err) f = Inl err" "and_then (Inr a) f = f a"
  by (simp_all add: and_then_def)

lemma and_then_Inr_iff: "and_then r f = Inr b \<longleftrightarrow> (\<exists>a. r = Inr a \<and> f a = Inr b)"
  by (cases r) simp_all

lemma ensure_simps [simp]: "ensure True err = Inr ()" "ensure False err = Inl err"
  by (simp_all add: ensure_def)

lemma ensure_Inr_iff [simp]: "ensure b err = Inr u \<longleftrightarrow> b"
  by (simp add: ensure_def)

lemma ensure_Inl_iff [simp]: "ensure b err = Inl e \<longleftrightarrow> \<not> b \<and> e = err"
  by (auto simp: ensure_def)

lemma of_option_Inr_iff [simp]: "of_option err x = Inr a \<longleftrightarrow> x = Some a"
  by (auto simp: of_option_def split: option.split)

lemma of_option_simps [simp]: "of_option err None = Inl err" "of_option err (Some a) = Inr a"
  by (simp_all add: of_option_def)

end
