(* ===== verification/Sdk_Book.thy ===== *)
theory Sdk_Book
  imports Results
begin

text \<open>
  The local market state of the SDK, \<open>sdk/crates/marketcow-sdk/src/book.rs\<close>: two token books kept
  from full snapshots and absolute depth deltas, with the size of the encoded state maintained from
  the touched levels only. A decimal is its value in units of 1e-28. External functions: the parser
  \<open>Decimal::from_str_exact\<close> and the encoded lengths of protobuf messages (\<open>encoded_len\<close>).
\<close>

section \<open>Wire messages\<close>

record price_level =
  pl_price :: string
  pl_size :: string

record trade_mark =
  tm_price :: string
  tm_source_at :: "string option"

record confirmation =
  cf_source_at :: string
  cf_received_at :: string
  cf_source :: string
  cf_bound_quote_source_at :: string
  cf_bound_book_revision :: u64
  cf_evidence_id :: "string option"

record token_metadata =
  tk_token_id :: string
  tk_outcome :: string
  tk_tick_size :: "string option"
  tk_quote_source_at :: "string option"
  tk_last_trade :: "trade_mark option"
  tk_confirmation :: "confirmation option"
  tk_data_valid :: bool
  tk_invalid_reason :: "string option"
  tk_received_at :: "string option"
  tk_book_revision :: u64

record token_book =
  tb_metadata :: "token_metadata option"
  tb_bids :: "price_level list"
  tb_asks :: "price_level list"

record snapshot_message =
  sn_books :: "token_book list"
  sn_source_status :: string
  sn_reason :: "string option"

record depth_change =
  dc_token_id :: string
  dc_side :: string
  dc_price :: string
  dc_size :: string

record book_base =
  bb_token_id :: string
  bb_book_revision :: u64

record price_change =
  pc_base_sequence :: u64
  pc_changes :: "depth_change list"
  pc_post_metadata :: "token_metadata list"
  pc_source_status :: string
  pc_reason :: "string option"
  pc_base_books :: "book_base list"

datatype frame_body = SnapshotBody snapshot_message | ChangeBody price_change

record market_key =
  mk_market_id :: string
  mk_condition_id :: string
  mk_window_id :: string
  mk_start_at :: string
  mk_end_at :: string
  mk_up_token_id :: string
  mk_down_token_id :: string
  mk_rules :: "(string \<times> u64) option"

record market_frame =
  mf_schema_version :: string
  mf_key :: "market_key option"
  mf_stream_id :: string
  mf_state_sequence :: u64
  mf_published_at :: string
  mf_body :: "frame_body option"

record delivery_budget =
  db_maximum_frame_bytes :: u64
  db_maximum_state_bytes :: u64
  db_maximum_levels_per_side :: u64
  db_maximum_changes :: u64

record market_binding =
  mb_key :: "market_key option"
  mb_role :: string
  mb_stream_id :: string

record sdk_ext =
  sx_parse :: "string \<Rightarrow> int option"
  sx_level_len :: "price_level \<Rightarrow> nat"
  sx_meta_len :: "token_metadata \<Rightarrow> nat"
  sx_snapshot_len :: "snapshot_message \<Rightarrow> nat"

text \<open>
  \<open>error.rs\<close>; \<open>SdkPanic\<close> stands for an arithmetic panic. Of a transport or websocket failure the model keeps
  what the code asks of it: the status and the parsed retry-after delay of an HTTP answer.
\<close>

datatype websocket_error = WsHttp nat "u64 option" | WsCapacity | WsOther

datatype sdk_error =
    Io string
  | Timeout string
  | Configuration string
  | Transport bool
  | WebSocket websocket_error
  | Decode string
  | Protocol string
  | Limit string
  | Remote nat string bool "u64 option"
  | HistoryGap string
  | Cancelled
  | SdkPanic string

fun retryable :: "sdk_error \<Rightarrow> bool" where
  "retryable (Timeout _) = True"
| "retryable (Transport transient) = transient"
| "retryable (WebSocket _) = True"
| "retryable (Remote _ _ again _) = again"
| "retryable _ = False"

definition market_schema :: string where
  "market_schema = ''marketcow.polymarket.btc5m.market-local.v7''"

section \<open>Decimals and levels\<close>

definition sdk_require :: "bool \<Rightarrow> string \<Rightarrow> sdk_error + unit" where
  "sdk_require ok message = ensure ok (Protocol message)"

definition plain_char :: "char \<Rightarrow> bool" where
  "plain_char c = (c \<in> set ''0123456789.'')"

definition sdk_decimal :: "sdk_ext \<Rightarrow> string \<Rightarrow> bool \<Rightarrow> sdk_error + int" where
  "sdk_decimal sx value positive =
     and_then (sdk_require (value \<noteq> [] \<and> length value \<le> 96 \<and> \<not> list_ex (\<lambda>c. c \<in> set ''eE+'') value
        \<and> list_all plain_char value) ''plain decimal required'') (\<lambda>_.
     and_then (of_option (Protocol ''decimal precision/value'') (sx_parse sx value)) (\<lambda>d.
     and_then (sdk_require (if positive then 0 < d else 0 \<le> d) ''decimal sign'') (\<lambda>_.
     Inr d)))"

record sdk_level =
  lv_price :: string
  lv_size :: string
  lv_numeric_size :: int
  lv_encoded_bytes :: nat

record sdk_book =
  bo_metadata :: token_metadata
  bo_bids :: "(int, sdk_level) btree"
  bo_asks :: "(int, sdk_level) btree"
  bo_depth_bytes :: nat

definition best_bid :: "sdk_book \<Rightarrow> sdk_level option" where
  "best_bid b = map_option snd (bt_last (bo_bids b))"

definition best_ask :: "sdk_book \<Rightarrow> sdk_level option" where
  "best_ask b = map_option snd (bt_first (bo_asks b))"

record market_state =
  ms_key :: market_key
  ms_stream_id :: string
  ms_sequence :: "u64 option"
  ms_books :: "sdk_book list"
  ms_source_status :: string
  ms_reason :: "string option"
  ms_published_at :: string
  ms_budget :: delivery_budget

definition sdk_one :: int where
  "sdk_one = 10 ^ 28"

definition check_metadata :: "sdk_ext \<Rightarrow> token_metadata \<Rightarrow> string \<Rightarrow> string \<Rightarrow> sdk_error + unit" where
  "check_metadata sx value token outcome =
     and_then (sdk_require (tk_token_id value = token \<and> tk_outcome value = outcome \<and> tk_book_revision value > 0)
        ''book token/outcome/revision'') (\<lambda>_.
     and_then (case tk_tick_size value of None \<Rightarrow> Inr 0 | Some tick \<Rightarrow> sdk_decimal sx tick True) (\<lambda>_.
     and_then (case tk_last_trade value of None \<Rightarrow> Inr 0 | Some trade \<Rightarrow> sdk_decimal sx (tm_price trade) False) (\<lambda>_.
     case tk_confirmation value of
       None \<Rightarrow> Inr ()
     | Some confirm \<Rightarrow> sdk_require (cf_bound_book_revision confirm = tk_book_revision value
          \<and> Some (cf_bound_quote_source_at confirm) = tk_quote_source_at value \<and> cf_source_at confirm \<noteq> [])
          ''confirmation book binding'')))"

definition tick_value :: "sdk_ext \<Rightarrow> token_metadata \<Rightarrow> int option" where
  "tick_value sx m = Option.bind (tk_tick_size m) (\<lambda>s. case sdk_decimal sx s True of Inl err \<Rightarrow> None | Inr d \<Rightarrow> Some d)"

definition economic_metadata_equal :: "sdk_ext \<Rightarrow> token_metadata \<Rightarrow> token_metadata \<Rightarrow> bool" where
  "economic_metadata_equal sx a b =
     (tick_value sx a = tick_value sx b \<and> tk_quote_source_at a = tk_quote_source_at b
      \<and> tk_data_valid a = tk_data_valid b \<and> tk_invalid_reason a = tk_invalid_reason b)"

definition make_level :: "sdk_ext \<Rightarrow> string \<Rightarrow> string \<Rightarrow> sdk_error + (int \<times> sdk_level)" where
  "make_level sx price qty =
     and_then (sdk_decimal sx price False) (\<lambda>numeric_price.
     and_then (sdk_require (numeric_price \<le> sdk_one) ''prediction price exceeds one'') (\<lambda>_.
     and_then (sdk_decimal sx qty False) (\<lambda>numeric_size.
     Inr (numeric_price, \<lparr> lv_price = price, lv_size = qty, lv_numeric_size = numeric_size,
       lv_encoded_bytes = sx_level_len sx \<lparr> pl_price = price, pl_size = qty \<rparr> \<rparr>))))"

section \<open>Encoded lengths\<close>

fun varint_bytes :: "nat \<Rightarrow> nat" where
  "varint_bytes n = (if n < 128 then 1 else Suc (varint_bytes (n div 128)))"

declare varint_bytes.simps [simp del]

definition nested_bytes :: "nat \<Rightarrow> nat" where
  "nested_bytes n = 1 + varint_bytes n + n"

definition string_bytes :: "string \<Rightarrow> bool \<Rightarrow> nat" where
  "string_bytes value optional = (if value = [] \<and> \<not> optional then 0 else nested_bytes (length value))"

section \<open>Full snapshots\<close>

fun side_levels_loop ::
  "sdk_ext \<Rightarrow> price_level list \<Rightarrow> (int, sdk_level) btree \<Rightarrow> nat \<Rightarrow> sdk_error + ((int, sdk_level) btree \<times> nat)" where
  "side_levels_loop sx [] m bytes = Inr (m, bytes)"
| "side_levels_loop sx (v # vs) m bytes =
     and_then (make_level sx (pl_price v) (pl_size v)) (\<lambda>(price, l).
     and_then (sdk_require (lv_numeric_size l > 0 \<and> bt_get m price = None) ''snapshot zero/duplicate level'') (\<lambda>_.
     side_levels_loop sx vs (bt_insert price l m) (bytes + nested_bytes (lv_encoded_bytes l))))"

definition book_side :: "sdk_ext \<Rightarrow> price_level list \<Rightarrow> u64 \<Rightarrow> sdk_error + ((int, sdk_level) btree \<times> nat)" where
  "book_side sx vs maximum =
     and_then (ensure (length vs \<le> unat maximum) (Limit ''book levels'')) (\<lambda>_. side_levels_loop sx vs [] 0)"

definition same_side :: "(int, sdk_level) btree \<Rightarrow> (int, sdk_level) btree \<Rightarrow> bool" where
  "same_side a b = (length a = length b
     \<and> list_all (\<lambda>((pa, la), (pb, lb)). pa = pb \<and> lv_numeric_size la = lv_numeric_size lb) (zip a b))"

definition replace_book :: "sdk_ext \<Rightarrow> market_state \<Rightarrow> nat \<Rightarrow> token_book \<Rightarrow> sdk_error + sdk_book" where
  "replace_book sx st index value =
     and_then (of_option (Protocol ''book metadata missing'') (tb_metadata value)) (\<lambda>meta.
     and_then (check_metadata sx meta (if index = 0 then mk_up_token_id (ms_key st) else mk_down_token_id (ms_key st))
        (if index = 0 then ''Up'' else ''Down'')) (\<lambda>_.
     and_then (book_side sx (tb_bids value) (db_maximum_levels_per_side (ms_budget st))) (\<lambda>(bids, bid_bytes).
     and_then (book_side sx (tb_asks value) (db_maximum_levels_per_side (ms_budget st))) (\<lambda>(asks, ask_bytes).
     and_then (if index < length (ms_books st) then
          (let old = ms_books st ! index in
             and_then (sdk_require (tk_book_revision meta \<ge> tk_book_revision (bo_metadata old))
               ''snapshot book revision regression'') (\<lambda>_.
             if tk_book_revision meta = tk_book_revision (bo_metadata old)
             then sdk_require (economic_metadata_equal sx meta (bo_metadata old)
                    \<and> same_side bids (bo_bids old) \<and> same_side asks (bo_asks old)) ''same revision changed book facts''
             else Inr ()))
        else Inr ()) (\<lambda>_.
     Inr \<lparr> bo_metadata = meta, bo_bids = bids, bo_asks = asks, bo_depth_bytes = bid_bytes + ask_bytes \<rparr>)))))"

definition replace_state :: "sdk_ext \<Rightarrow> snapshot_message \<Rightarrow> market_state \<Rightarrow> sdk_error + market_state" where
  "replace_state sx sn st =
     and_then (sdk_require (length (sn_books sn) = 2) ''snapshot must contain two books'') (\<lambda>_.
     and_then (ensure (sx_snapshot_len sx sn \<le> unat (db_maximum_state_bytes (ms_budget st)))
        (Limit ''snapshot state bytes'')) (\<lambda>_.
     and_then (replace_book sx st 0 (sn_books sn ! 0)) (\<lambda>up.
     and_then (replace_book sx st 1 (sn_books sn ! 1)) (\<lambda>down.
     Inr (st\<lparr> ms_books := [up, down], ms_source_status := sn_source_status sn, ms_reason := sn_reason sn \<rparr>)))))"

section \<open>Depth deltas\<close>

text \<open>
  The arrays \<open>changed\<close>, \<open>bytes\<close> and \<open>counts\<close> are functions of the token index (and of whether the side
  is the ask side); a subtraction that would underflow is a panic.
\<close>

record staging =
  sg_changed :: "nat \<Rightarrow> bool"
  sg_bytes :: "nat \<Rightarrow> nat"
  sg_counts :: "nat \<Rightarrow> bool \<Rightarrow> nat"
  sg_seen :: "(nat \<times> bool \<times> int) set"
  sg_staged :: "(nat \<times> bool \<times> int \<times> sdk_level) list"

definition side_of :: "bool \<Rightarrow> sdk_book \<Rightarrow> (int, sdk_level) btree" where
  "side_of ask b = (if ask then bo_asks b else bo_bids b)"

definition token_index :: "market_key \<Rightarrow> string \<Rightarrow> nat option" where
  "token_index key token =
     (if token = mk_up_token_id key then Some 0 else if token = mk_down_token_id key then Some 1 else None)"

definition side_is_ask :: "string \<Rightarrow> bool option" where
  "side_is_ask s = (if s = ''BUY'' then Some False else if s = ''SELL'' then Some True else None)"

definition checked_sub :: "nat \<Rightarrow> nat \<Rightarrow> sdk_error + nat" where
  "checked_sub a b = (if b \<le> a then Inr (a - b) else Inl (SdkPanic ''attempt to subtract with overflow''))"

definition count_after :: "bool \<Rightarrow> bool \<Rightarrow> nat \<Rightarrow> sdk_error + nat" where
  "count_after present positive count =
     (if \<not> present \<and> positive then Inr (count + 1)
      else if present \<and> \<not> positive then checked_sub count 1
      else Inr count)"

definition stage_delta :: "sdk_ext \<Rightarrow> market_state \<Rightarrow> depth_change \<Rightarrow> staging \<Rightarrow> sdk_error + staging" where
  "stage_delta sx st d sg =
     and_then (of_option (Protocol ''unknown depth token'') (token_index (ms_key st) (dc_token_id d))) (\<lambda>index.
     and_then (of_option (Protocol ''unknown depth side'') (side_is_ask (dc_side d))) (\<lambda>ask.
     and_then (make_level sx (dc_price d) (dc_size d)) (\<lambda>(price, value).
     and_then (sdk_require ((index, ask, price) \<notin> sg_seen sg) ''duplicate depth change'') (\<lambda>_.
     let old = bt_get (side_of ask (ms_books st ! index)) price;
         old_size = (case old of None \<Rightarrow> 0 | Some l \<Rightarrow> lv_numeric_size l);
         positive = (lv_numeric_size value > 0)
     in and_then (case old of None \<Rightarrow> Inr (sg_bytes sg index)
          | Some l \<Rightarrow> checked_sub (sg_bytes sg index) (nested_bytes (lv_encoded_bytes l))) (\<lambda>bytes.
     and_then (count_after (old \<noteq> None) positive (sg_counts sg index ask)) (\<lambda>count.
     and_then (ensure (count \<le> unat (db_maximum_levels_per_side (ms_budget st))) (Limit ''book levels'')) (\<lambda>_.
     Inr \<lparr> sg_changed = (sg_changed sg)(index := sg_changed sg index \<or> old_size \<noteq> lv_numeric_size value),
       sg_bytes = (sg_bytes sg)(index := if positive then bytes + nested_bytes (lv_encoded_bytes value) else bytes),
       sg_counts = (sg_counts sg)(index := (sg_counts sg index)(ask := count)),
       sg_seen = insert (index, ask, price) (sg_seen sg),
       sg_staged = sg_staged sg @ [(index, ask, price, value)] \<rparr>)))))))"

fun stage_all :: "sdk_ext \<Rightarrow> market_state \<Rightarrow> depth_change list \<Rightarrow> staging \<Rightarrow> sdk_error + staging" where
  "stage_all sx st [] sg = Inr sg"
| "stage_all sx st (d # ds) sg = and_then (stage_delta sx st d sg) (stage_all sx st ds)"

definition staging_start :: "market_state \<Rightarrow> staging" where
  "staging_start st = \<lparr> sg_changed = (\<lambda>i. False), sg_bytes = (\<lambda>i. bo_depth_bytes (ms_books st ! i)),
     sg_counts = (\<lambda>i ask. length (side_of ask (ms_books st ! i))), sg_seen = {}, sg_staged = [] \<rparr>"

text \<open>The metadata loop for one token: the size of its encoded book, once its base and revision are checked.\<close>

definition check_post :: "sdk_ext \<Rightarrow> market_state \<Rightarrow> price_change \<Rightarrow> staging \<Rightarrow> nat \<Rightarrow> sdk_error + nat" where
  "check_post sx st ch sg index =
     (let old = bo_metadata (ms_books st ! index);
          post = pc_post_metadata ch ! index
      in and_then (check_metadata sx post (tk_token_id old) (tk_outcome old)) (\<lambda>_.
         and_then (sdk_require (bb_token_id (pc_base_books ch ! index) = tk_token_id old
              \<and> bb_book_revision (pc_base_books ch ! index) = tk_book_revision old) ''token book base'') (\<lambda>_.
         let changed = (sg_changed sg index \<or> \<not> economic_metadata_equal sx old post)
         in and_then (sdk_require (if changed then tk_book_revision post > tk_book_revision old
              else tk_book_revision post = tk_book_revision old) ''book revision/facts relationship'') (\<lambda>_.
            Inr (nested_bytes (sg_bytes sg index + nested_bytes (sx_meta_len sx post)))))))"

definition put_side :: "bool \<Rightarrow> (int, sdk_level) btree \<Rightarrow> sdk_book \<Rightarrow> sdk_book" where
  "put_side ask m b = (if ask then b\<lparr> bo_asks := m \<rparr> else b\<lparr> bo_bids := m \<rparr>)"

definition commit_level :: "nat \<times> bool \<times> int \<times> sdk_level \<Rightarrow> sdk_book list \<Rightarrow> sdk_book list" where
  "commit_level x books =
     (case x of (index, ask, price, value) \<Rightarrow>
        let side = side_of ask (books ! index)
        in books[index := put_side ask
             (if lv_numeric_size value = 0 then bt_remove price side else bt_insert price value side) (books ! index)])"

definition commit_meta :: "price_change \<Rightarrow> staging \<Rightarrow> nat \<Rightarrow> sdk_book \<Rightarrow> sdk_book" where
  "commit_meta ch sg index b =
     b\<lparr> bo_metadata := pc_post_metadata ch ! index, bo_depth_bytes := sg_bytes sg index \<rparr>"

definition change_state :: "sdk_ext \<Rightarrow> price_change \<Rightarrow> market_state \<Rightarrow> sdk_error + market_state" where
  "change_state sx ch st =
     and_then (sdk_require (ms_sequence st = Some (pc_base_sequence ch) \<and> length (ms_books st) = 2
        \<and> length (pc_base_books ch) = 2 \<and> length (pc_post_metadata ch) = 2) ''delta base/shape'') (\<lambda>_.
     and_then (ensure (length (pc_changes ch) \<le> unat (db_maximum_changes (ms_budget st))) (Limit ''depth changes'')) (\<lambda>_.
     and_then (stage_all sx st (pc_changes ch) (staging_start st)) (\<lambda>sg.
     let head_bytes = string_bytes (pc_source_status ch) False
           + (case pc_reason ch of None \<Rightarrow> 0 | Some s \<Rightarrow> string_bytes s True)
     in and_then (check_post sx st ch sg 0) (\<lambda>up_bytes.
     and_then (check_post sx st ch sg 1) (\<lambda>down_bytes.
     and_then (ensure (head_bytes + up_bytes + down_bytes \<le> unat (db_maximum_state_bytes (ms_budget st)))
        (Limit ''book state bytes'')) (\<lambda>_.
     let books = fold commit_level (sg_staged sg) (ms_books st)
     in Inr (st\<lparr> ms_books := [commit_meta ch sg 0 (books ! 0), commit_meta ch sg 1 (books ! 1)],
          ms_source_status := pc_source_status ch, ms_reason := pc_reason ch \<rparr>)))))))"

section \<open>The state\<close>

definition state_new :: "market_binding \<Rightarrow> delivery_budget \<Rightarrow> sdk_error + market_state" where
  "state_new binding budget =
     and_then (of_option (Protocol ''missing market key'') (mb_key binding)) (\<lambda>key.
     and_then (sdk_require (mk_market_id key \<noteq> [] \<and> mk_condition_id key \<noteq> [] \<and> mk_up_token_id key \<noteq> []
        \<and> mk_down_token_id key \<noteq> [] \<and> mk_up_token_id key \<noteq> mk_down_token_id key
        \<and> is_some_and (\<lambda>(id, revision). id \<noteq> [] \<and> revision > 0) (mk_rules key) \<and> mb_stream_id binding \<noteq> [])
        ''market identity'') (\<lambda>_.
     and_then (sdk_require (db_maximum_frame_bytes budget > 0 \<and> db_maximum_state_bytes budget > 0
        \<and> db_maximum_levels_per_side budget > 0 \<and> db_maximum_changes budget > 0) ''market budget'') (\<lambda>_.
     Inr \<lparr> ms_key = key, ms_stream_id = mb_stream_id binding, ms_sequence = None, ms_books = [],
       ms_source_status = ''unavailable'', ms_reason = None, ms_published_at = [], ms_budget = budget \<rparr>)))"

definition state_apply :: "sdk_ext \<Rightarrow> market_frame \<Rightarrow> market_state \<Rightarrow> sdk_error + market_state" where
  "state_apply sx f st =
     and_then (sdk_require (mf_schema_version f = market_schema \<and> mf_key f = Some (ms_key st)
        \<and> mf_stream_id f = ms_stream_id st \<and> is_none_or (\<lambda>s. mf_state_sequence f > s) (ms_sequence st))
        ''market frame identity/sequence'') (\<lambda>_.
     and_then (of_option (Protocol ''missing market body'') (mf_body f)) (\<lambda>body.
     and_then (case body of SnapshotBody sn \<Rightarrow> replace_state sx sn st | ChangeBody ch \<Rightarrow> change_state sx ch st) (\<lambda>st'.
     Inr (st'\<lparr> ms_sequence := Some (mf_state_sequence f), ms_published_at := mf_published_at f \<rparr>))))"

definition wire_level :: "sdk_level \<Rightarrow> price_level" where
  "wire_level l = \<lparr> pl_price = lv_price l, pl_size = lv_size l \<rparr>"

definition wire_book :: "sdk_book \<Rightarrow> token_book" where
  "wire_book b = \<lparr> tb_metadata = Some (bo_metadata b), tb_bids = map wire_level (rev (bt_values (bo_bids b))),
     tb_asks = map wire_level (bt_values (bo_asks b)) \<rparr>"

definition snapshot_of :: "market_state \<Rightarrow> snapshot_message" where
  "snapshot_of st = \<lparr> sn_books = map wire_book (ms_books st), sn_source_status = ms_source_status st,
     sn_reason = ms_reason st \<rparr>"

definition state_snapshot :: "market_state \<Rightarrow> market_frame option" where
  "state_snapshot st = map_option (\<lambda>sequence. \<lparr> mf_schema_version = market_schema, mf_key = Some (ms_key st),
     mf_stream_id = ms_stream_id st, mf_state_sequence = sequence, mf_published_at = ms_published_at st,
     mf_body = Some (SnapshotBody (snapshot_of st)) \<rparr>) (ms_sequence st)"

definition state_available :: "market_state \<Rightarrow> bool" where
  "state_available st = (ms_source_status st = ''available'')"

text \<open>What \<open>MarketSubscription\<close> does to the state when its socket is lost, closed or opened again.\<close>

definition state_disconnect :: "market_state \<Rightarrow> market_state" where
  "state_disconnect st = st\<lparr> ms_source_status := ''unavailable'' \<rparr>"

definition state_reconnect :: "market_state \<Rightarrow> market_state" where
  "state_reconnect st = st\<lparr> ms_sequence := None, ms_source_status := ''unavailable'' \<rparr>"

section \<open>Views\<close>

definition top_level :: "market_state \<Rightarrow> nat \<Rightarrow> bool \<Rightarrow> (string \<times> string) option" where
  "top_level st index ask =
     (if index < length (ms_books st)
      then map_option (\<lambda>l. (lv_price l, lv_size l)) (if ask then best_ask (ms_books st ! index) else best_bid (ms_books st ! index))
      else None)"

definition state_top :: "market_state \<Rightarrow> bool \<times> (string \<times> string) option list" where
  "state_top st = (state_available st, [top_level st 0 False, top_level st 0 True, top_level st 1 False, top_level st 1 True])"

record book_depth_view =
  bd_metadata :: token_metadata
  bd_bids :: "price_level list"
  bd_asks :: "price_level list"
  bd_truncated :: bool

record depth_snapshot =
  dp_key :: market_key
  dp_stream_id :: string
  dp_sequence :: "u64 option"
  dp_published_at :: string
  dp_source_status :: string
  dp_reason :: "string option"
  dp_books :: "book_depth_view list"

text \<open>No depth means no bound (\<open>usize::MAX\<close>).\<close>

definition take_depth :: "nat option \<Rightarrow> 'a list \<Rightarrow> 'a list" where
  "take_depth depth xs = (case depth of None \<Rightarrow> xs | Some n \<Rightarrow> take n xs)"

definition depth_view :: "nat option \<Rightarrow> market_state \<Rightarrow> sdk_error + depth_snapshot" where
  "depth_view depth st =
     and_then (ensure (is_none_or (\<lambda>d. d \<le> unat (db_maximum_levels_per_side (ms_budget st))) depth)
        (Limit ''requested depth'')) (\<lambda>_.
     Inr \<lparr> dp_key = ms_key st, dp_stream_id = ms_stream_id st, dp_sequence = ms_sequence st,
       dp_published_at = ms_published_at st, dp_source_status = ms_source_status st, dp_reason = ms_reason st,
       dp_books = map (\<lambda>b. \<lparr> bd_metadata = bo_metadata b,
        bd_bids = map wire_level (take_depth depth (rev (bt_values (bo_bids b)))),
        bd_asks = map wire_level (take_depth depth (bt_values (bo_asks b))),
        bd_truncated = is_some_and (\<lambda>n. length (bo_bids b) > n \<or> length (bo_asks b) > n) depth \<rparr>) (ms_books st) \<rparr>)"

section \<open>Checks\<close>

lemma sdk_require_Inr [simp]: "sdk_require b m = Inr u \<longleftrightarrow> b"
  by (simp add: sdk_require_def)

lemma sdk_require_simps [simp]: "sdk_require True m = Inr ()" "sdk_require False m = Inl (Protocol m)"
  by (simp_all add: sdk_require_def)

end
