(* ===== verification/Map_Sums.thy ===== *)
theory Map_Sums
  imports Prelude
begin

text \<open>
  Sums of a weight over the values of an ordered map, and how inserting and removing change them.
\<close>

section \<open>Sums over an ordered map\<close>

definition bt_sum :: "('v \<Rightarrow> nat) \<Rightarrow> ('k, 'v) btree \<Rightarrow> nat" where
  "bt_sum f m = sum_list (map (\<lambda>(k, v). f v) m)"

lemma bt_sum_simps [simp]: "bt_sum f [] = 0" "bt_sum f ((k, v) # m) = f v + bt_sum f m"
  by (simp_all add: bt_sum_def)

lemma bt_sum_length [simp]: "bt_sum (\<lambda>v. Suc 0) m = length m"
  by (induction m) auto

text \<open>What an entry weighs, nothing when it is absent.\<close>

definition weight :: "('v \<Rightarrow> nat) \<Rightarrow> 'v option \<Rightarrow> nat" where
  "weight f v = (case v of None \<Rightarrow> 0 | Some v \<Rightarrow> f v)"

lemma weight_simps [simp]: "weight f None = 0" "weight f (Some v) = f v"
  by (simp_all add: weight_def)

lemma bt_get_smaller: "bt_wf ((k, v) # m) \<Longrightarrow> k' < k \<Longrightarrow> bt_get m k' = None"
  by (auto simp: bt_wf_Cons bt_get_def map_of_eq_None_iff)

lemma bt_sum_insert: "bt_wf m \<Longrightarrow> bt_sum f (bt_insert k v m) + weight f (bt_get m k) = bt_sum f m + f v"
proof (induction m)
  case (Cons x m)
  obtain k' v' where x: "x = (k', v')" by fastforce
  with Cons.prems have "bt_wf m" by (simp add: bt_wf_Cons)
  from Cons.IH [OF this] show ?case
    using bt_get_smaller [of k' v' m k] Cons.prems by (auto simp: x bt_get_Cons not_less_iff_gr_or_eq)
qed simp

lemma bt_remove_absent: "bt_get m k = None \<Longrightarrow> bt_remove k m = m"
  by (induction m) (auto simp: bt_get_Cons bt_remove_def split: if_splits)

lemma bt_sum_remove: "bt_wf m \<Longrightarrow> bt_sum f (bt_remove k m) + weight f (bt_get m k) = bt_sum f m"
proof (induction m)
  case (Cons x m)
  obtain k' v' where x: "x = (k', v')" by fastforce
  with Cons.prems have wf: "bt_wf m" and k': "bt_get m k' = None"
    by (auto simp: bt_wf_Cons bt_get_def map_of_eq_None_iff)
  from Cons.IH [OF wf] bt_remove_absent [OF k'] show ?case
    by (auto simp: x bt_get_Cons bt_remove_def)
qed (simp add: bt_remove_def)

lemma weight_le_sum: "bt_wf m \<Longrightarrow> weight f (bt_get m k) \<le> bt_sum f m"
  using bt_sum_remove [of m f k] by simp

end
