(* ===== verification/Sdk_Book_Safety.thy ===== *)
theory Sdk_Book_Safety
  imports Sdk_Book Map_Sums
begin

text \<open>
  The invariant of the SDK's market state: well-formed sides, exact byte accounting, and what staging
  a delta says about the books that committing it produces.
\<close>

section \<open>Sides and books\<close>

definition level_ok :: "sdk_ext \<Rightarrow> int \<Rightarrow> sdk_level \<Rightarrow> bool" where
  "level_ok sx k l \<longleftrightarrow> make_level sx (lv_price l) (lv_size l) = Inr (k, l) \<and> 0 < lv_numeric_size l"

definition side_ok :: "sdk_ext \<Rightarrow> (int, sdk_level) btree \<Rightarrow> bool" where
  "side_ok sx m \<longleftrightarrow> bt_wf m \<and> (\<forall>k l. bt_get m k = Some l \<longrightarrow> level_ok sx k l)"

definition level_bytes :: "sdk_level \<Rightarrow> nat" where
  "level_bytes l = nested_bytes (lv_encoded_bytes l)"

definition sides_bytes :: "sdk_book \<Rightarrow> nat" where
  "sides_bytes b = bt_sum level_bytes (bo_bids b) + bt_sum level_bytes (bo_asks b)"

definition sdk_book_ok :: "sdk_ext \<Rightarrow> market_state \<Rightarrow> nat \<Rightarrow> sdk_book \<Rightarrow> bool" where
  "sdk_book_ok sx st index b \<longleftrightarrow>
     side_ok sx (bo_bids b) \<and> side_ok sx (bo_asks b)
     \<and> length (bo_bids b) \<le> unat (db_maximum_levels_per_side (ms_budget st))
     \<and> length (bo_asks b) \<le> unat (db_maximum_levels_per_side (ms_budget st))
     \<and> bo_depth_bytes b = sides_bytes b
     \<and> check_metadata sx (bo_metadata b) (if index = 0 then mk_up_token_id (ms_key st) else mk_down_token_id (ms_key st))
          (if index = 0 then ''Up'' else ''Down'') = Inr ()"

definition state_ok :: "sdk_ext \<Rightarrow> market_state \<Rightarrow> bool" where
  "state_ok sx st \<longleftrightarrow>
     mk_up_token_id (ms_key st) \<noteq> mk_down_token_id (ms_key st)
     \<and> (ms_books st = [] \<and> ms_sequence st = None
        \<or> (\<exists>b0 b1. ms_books st = [b0, b1] \<and> sdk_book_ok sx st 0 b0 \<and> sdk_book_ok sx st 1 b1))"

lemma make_levelD:
  assumes "make_level sx price qty = Inr (k, l)"
  shows "lv_price l = price" "lv_size l = qty" "0 \<le> lv_numeric_size l"
    "lv_encoded_bytes l = sx_level_len sx (wire_level l)"
  using assms by (auto simp: make_level_def sdk_decimal_def wire_level_def and_then_Inr_iff)

lemma side_ok_insert: "side_ok sx m \<Longrightarrow> level_ok sx k l \<Longrightarrow> side_ok sx (bt_insert k l m)"
  by (simp add: side_ok_def)

lemma side_ok_remove: "side_ok sx m \<Longrightarrow> side_ok sx (bt_remove k m)"
  by (simp add: side_ok_def)

lemma side_ok_empty [simp]: "side_ok sx []"
  by (simp add: side_ok_def)

lemma side_levels_loop_ok:
  assumes "side_levels_loop sx vs m bytes = Inr (m', bytes')" and "side_ok sx m"
  shows "side_ok sx m' \<and> bytes' + bt_sum level_bytes m = bytes + bt_sum level_bytes m'
    \<and> length m' = length m + length vs"
  using assms
proof (induction vs arbitrary: m bytes)
  case (Cons v vs)
  from Cons.prems(1) obtain k l where l: "make_level sx (pl_price v) (pl_size v) = Inr (k, l)"
    and pos: "0 < lv_numeric_size l" and new: "bt_get m k = None"
    and rest: "side_levels_loop sx vs (bt_insert k l m) (bytes + nested_bytes (lv_encoded_bytes l)) = Inr (m', bytes')"
    by (auto simp: and_then_Inr_iff)
  have "level_ok sx k l" using l pos make_levelD [OF l] by (simp add: level_ok_def)
  with Cons.prems(2) have "side_ok sx (bt_insert k l m)" by (simp add: side_ok_insert)
  moreover have wf: "bt_wf m" using Cons.prems(2) by (simp add: side_ok_def)
  ultimately show ?case
    using Cons.IH [OF rest] bt_sum_insert [OF wf, of level_bytes k l] bt_sum_insert [OF wf, of "\<lambda>v. Suc 0" k l] new
    by (simp flip: level_bytes_def)
qed simp

lemma book_side_ok:
  assumes "book_side sx vs maximum = Inr (m, bytes)"
  shows "side_ok sx m" "bytes = bt_sum level_bytes m" "length m \<le> unat maximum"
  using assms side_levels_loop_ok [of sx vs "[]" 0 m bytes]
  by (auto simp: book_side_def and_then_Inr_iff)

lemma replace_bookE:
  assumes "replace_book sx st index value = Inr b"
  obtains meta bids bb asks ab where
    "tb_metadata value = Some meta"
    "check_metadata sx meta (if index = 0 then mk_up_token_id (ms_key st) else mk_down_token_id (ms_key st))
        (if index = 0 then ''Up'' else ''Down'') = Inr ()"
    "book_side sx (tb_bids value) (db_maximum_levels_per_side (ms_budget st)) = Inr (bids, bb)"
    "book_side sx (tb_asks value) (db_maximum_levels_per_side (ms_budget st)) = Inr (asks, ab)"
    "index < length (ms_books st) \<Longrightarrow> tk_book_revision (bo_metadata (ms_books st ! index)) \<le> tk_book_revision meta"
    "index < length (ms_books st) \<Longrightarrow> tk_book_revision meta = tk_book_revision (bo_metadata (ms_books st ! index)) \<Longrightarrow>
      economic_metadata_equal sx meta (bo_metadata (ms_books st ! index))
      \<and> same_side bids (bo_bids (ms_books st ! index)) \<and> same_side asks (bo_asks (ms_books st ! index))"
    "b = \<lparr> bo_metadata = meta, bo_bids = bids, bo_asks = asks, bo_depth_bytes = bb + ab \<rparr>"
  using assms by (auto simp: replace_book_def and_then_Inr_iff Let_def split: if_splits)

lemma replace_book_ok:
  assumes "replace_book sx st index value = Inr b"
  shows "sdk_book_ok sx st index b"
proof -
  from assms obtain meta bids bb asks ab where m: "check_metadata sx meta (if index = 0 then mk_up_token_id (ms_key st) else mk_down_token_id (ms_key st))
        (if index = 0 then ''Up'' else ''Down'') = Inr ()"
    and bids: "book_side sx (tb_bids value) (db_maximum_levels_per_side (ms_budget st)) = Inr (bids, bb)"
    and asks: "book_side sx (tb_asks value) (db_maximum_levels_per_side (ms_budget st)) = Inr (asks, ab)"
    and b: "b = \<lparr> bo_metadata = meta, bo_bids = bids, bo_asks = asks, bo_depth_bytes = bb + ab \<rparr>"
    by (rule replace_bookE)
  then show ?thesis
    using book_side_ok [OF bids] book_side_ok [OF asks] by (simp add: sdk_book_ok_def sides_bytes_def)
qed

section \<open>Numeric equality of sides\<close>

definition numeric_side :: "(int, sdk_level) btree \<Rightarrow> int \<Rightarrow> int option" where
  "numeric_side m k = map_option lv_numeric_size (bt_get m k)"

lemma same_side_map: "same_side a b \<longleftrightarrow> map (map_prod id lv_numeric_size) a = map (map_prod id lv_numeric_size) b"
proof -
  have "length a = length b \<Longrightarrow> list_all (\<lambda>((pa, la), (pb, lb)). pa = pb \<and> lv_numeric_size la = lv_numeric_size lb) (zip a b)
      \<longleftrightarrow> map (map_prod id lv_numeric_size) a = map (map_prod id lv_numeric_size) b"
    by (induction a b rule: list_induct2) auto
  then show ?thesis unfolding same_side_def using map_eq_imp_length_eq by blast
qed

lemma bt_get_map_prod: "bt_get (map (map_prod id f) m) k = map_option f (bt_get m k)"
  by (induction m) (auto simp: bt_get_def)

lemma bt_wf_map_prod: "bt_wf (map (map_prod id f) m) \<longleftrightarrow> bt_wf m"
  by (simp add: bt_wf_def comp_def)

lemma same_side_numeric:
  "bt_wf a \<Longrightarrow> bt_wf b \<Longrightarrow> same_side a b \<longleftrightarrow> numeric_side a = numeric_side b"
  unfolding same_side_map numeric_side_def fun_eq_iff bt_get_map_prod [symmetric]
  by (metis bt_ext bt_wf_map_prod)

section \<open>Staging a delta\<close>

definition put_level :: "int \<Rightarrow> sdk_level \<Rightarrow> (int, sdk_level) btree \<Rightarrow> (int, sdk_level) btree" where
  "put_level p v m = (if lv_numeric_size v = 0 then bt_remove p m else bt_insert p v m)"

lemma commit_level_simps [simp]:
  assumes "i < length books"
  shows "length (commit_level (i, ask, p, v) books) = length books"
    and "side_of a (commit_level (i, ask, p, v) books ! j) =
      (if j = i \<and> a = ask then put_level p v (side_of ask (books ! i)) else side_of a (books ! j))"
    and "bo_metadata (commit_level (i, ask, p, v) books ! j) = bo_metadata (books ! j)"
  using assms by (auto simp: commit_level_def put_side_def side_of_def put_level_def Let_def nth_list_update)

lemma put_level_get: "bt_get (put_level p v m) q = (if q = p then if lv_numeric_size v = 0 then None else Some v else bt_get m q)"
  by (simp add: put_level_def)

lemma put_level_sum:
  "bt_wf m \<Longrightarrow> bt_sum f (put_level p v m) + weight f (bt_get m p) = bt_sum f m + (if lv_numeric_size v = 0 then 0 else f v)"
  using bt_sum_insert [of m f p v] bt_sum_remove [of m f p] by (simp add: put_level_def)

lemma put_level_ok:
  assumes "side_ok sx m" and "make_level sx price qty = Inr (p, v)"
  shows "side_ok sx (put_level p v m)"
proof -
  have "level_ok sx p v" if "lv_numeric_size v \<noteq> 0"
    using assms(2) make_levelD [OF assms(2)] that by (simp add: level_ok_def)
  with assms(1) show ?thesis by (simp add: put_level_def side_ok_insert side_ok_remove)
qed

lemma sides_bytes_side_of: "sides_bytes b = bt_sum level_bytes (side_of False b) + bt_sum level_bytes (side_of True b)"
  by (simp add: sides_bytes_def side_of_def)

abbreviation level_limit :: "market_state \<Rightarrow> nat" where
  "level_limit st \<equiv> unat (db_maximum_levels_per_side (ms_budget st))"

definition staged_books :: "market_state \<Rightarrow> staging \<Rightarrow> sdk_book list" where
  "staged_books st sg = fold commit_level (sg_staged sg) (ms_books st)"

text \<open>What staging knows of one side of one book, and of the bytes of a book.\<close>

definition side_staged :: "sdk_ext \<Rightarrow> market_state \<Rightarrow> staging \<Rightarrow> nat \<Rightarrow> bool \<Rightarrow> bool" where
  "side_staged sx st sg i ask \<longleftrightarrow>
     side_ok sx (side_of ask (staged_books st sg ! i))
     \<and> sg_counts sg i ask = length (side_of ask (staged_books st sg ! i))
     \<and> sg_counts sg i ask \<le> level_limit st
     \<and> (\<forall>p. (i, ask, p) \<notin> sg_seen sg \<longrightarrow>
           bt_get (side_of ask (staged_books st sg ! i)) p = bt_get (side_of ask (ms_books st ! i)) p)
     \<and> (\<not> sg_changed sg i \<longrightarrow> numeric_side (side_of ask (staged_books st sg ! i)) = numeric_side (side_of ask (ms_books st ! i)))"

definition staging_ok :: "sdk_ext \<Rightarrow> market_state \<Rightarrow> staging \<Rightarrow> bool" where
  "staging_ok sx st sg \<longleftrightarrow>
     length (staged_books st sg) = 2
     \<and> (\<forall>i < 2. sg_bytes sg i = sides_bytes (staged_books st sg ! i)
          \<and> bo_metadata (staged_books st sg ! i) = bo_metadata (ms_books st ! i)
          \<and> (\<forall>ask. side_staged sx st sg i ask))"

lemma token_index_less: "token_index key token = Some i \<Longrightarrow> i < 2"
  by (auto simp: token_index_def split: if_splits)

lemma checked_sub_Inr: "b \<le> a \<Longrightarrow> checked_sub a b = Inr (a - b)"
  by (simp add: checked_sub_def)

text \<open>One staged change, once its token, side and level are known: its effect, and that nothing underflows.\<close>

lemma count_after_length:
  assumes "bt_wf m" and "count = length m" and "0 \<le> lv_numeric_size v"
  shows "count_after (bt_get m p \<noteq> None) (0 < lv_numeric_size v) count = Inr (length (put_level p v m))"
proof -
  have "bt_get m p \<noteq> None \<Longrightarrow> 1 \<le> length m" by (cases m) auto
  then show ?thesis
    using assms put_level_sum [OF assms(1), of "\<lambda>v. Suc 0" p v]
    by (cases "bt_get m p") (auto simp: count_after_def checked_sub_def)
qed

lemma stage_delta_ok:
  assumes ok: "staging_ok sx st sg" and step: "stage_delta sx st d sg = res"
  shows "case res of Inl err \<Rightarrow> \<forall>m. err \<noteq> SdkPanic m | Inr sg' \<Rightarrow> staging_ok sx st sg'"
proof -
  let ?B = "staged_books st sg"
  show ?thesis
  proof (cases "\<exists>i ask p v. token_index (ms_key st) (dc_token_id d) = Some i \<and> side_is_ask (dc_side d) = Some ask
      \<and> make_level sx (dc_price d) (dc_size d) = Inr (p, v) \<and> (i, ask, p) \<notin> sg_seen sg")
    case False
    have "make_level sx (dc_price d) (dc_size d) \<noteq> Inl (SdkPanic m)" for m
      by (auto simp: make_level_def sdk_decimal_def and_then_def ensure_def sdk_require_def of_option_def split: sum.splits option.splits if_splits)
    with False step show ?thesis
      by (auto simp: stage_delta_def and_then_def of_option_def sdk_require_def ensure_def split: option.splits sum.splits)
  next
    case True
    then obtain i ask p v where t: "token_index (ms_key st) (dc_token_id d) = Some i" "side_is_ask (dc_side d) = Some ask"
      "make_level sx (dc_price d) (dc_size d) = Inr (p, v)" "(i, ask, p) \<notin> sg_seen sg" by blast
    have i: "i < 2" by (rule token_index_less [OF t(1)])
    have len: "length ?B = 2" and bytes: "sg_bytes sg i = sides_bytes (?B ! i)" and sides: "side_staged sx st sg i a" for a
      using ok i by (auto simp: staging_ok_def)
    let ?m = "side_of ask (?B ! i)"
    have old: "bt_get (side_of ask (ms_books st ! i)) p = bt_get ?m p" and wf: "bt_wf ?m"
      and count: "sg_counts sg i ask = length ?m" and mok: "side_ok sx ?m"
      using sides [of ask] t(4) by (auto simp: side_staged_def side_ok_def)
    note size = make_levelD(3) [OF t(3)]
    have le: "weight level_bytes (bt_get ?m p) \<le> sg_bytes sg i"
      using weight_le_sum [OF wf, of level_bytes p] bytes by (cases ask) (auto simp: sides_bytes_side_of)
    have sub: "(case bt_get ?m p of None \<Rightarrow> Inr (sg_bytes sg i) | Some l \<Rightarrow> checked_sub (sg_bytes sg i) (nested_bytes (lv_encoded_bytes l)))
        = Inr (sg_bytes sg i - weight level_bytes (bt_get ?m p))"
      using le by (auto simp: checked_sub_Inr level_bytes_def split: option.split)
    let ?count = "length (put_level p v ?m)"
    let ?sg = "\<lparr> sg_changed = (sg_changed sg)(i := sg_changed sg i
         \<or> (case bt_get ?m p of None \<Rightarrow> 0 | Some l \<Rightarrow> lv_numeric_size l) \<noteq> lv_numeric_size v),
       sg_bytes = (sg_bytes sg)(i := if lv_numeric_size v > 0 then sg_bytes sg i - weight level_bytes (bt_get ?m p) + nested_bytes (lv_encoded_bytes v)
         else sg_bytes sg i - weight level_bytes (bt_get ?m p)),
       sg_counts = (sg_counts sg)(i := (sg_counts sg i)(ask := ?count)),
       sg_seen = insert (i, ask, p) (sg_seen sg),
       sg_staged = sg_staged sg @ [(i, ask, p, v)] \<rparr>"
    have pos: "bt_get ?m p = Some l \<Longrightarrow> 0 < lv_numeric_size l" for l using mok by (simp add: side_ok_def level_ok_def)
    obtain sg' where sg': "sg' = ?sg" by blast
    note fields = sg' [THEN arg_cong, of sg_bytes, simplified] sg' [THEN arg_cong, of sg_counts, simplified]
      sg' [THEN arg_cong, of sg_changed, simplified] sg' [THEN arg_cong, of sg_seen, simplified] sg' [THEN arg_cong, of sg_staged, simplified]
    have res: "res = (if ?count \<le> level_limit st then Inr sg' else Inl (Limit ''book levels''))"
      using step count_after_length [OF wf count size, of p]
      by (auto simp: stage_delta_def t old sub Let_def sdk_require_def sg')
    have B': "staged_books st sg' = commit_level (i, ask, p, v) ?B" by (simp add: staged_books_def fields)
    have i': "i < length ?B" using i len by simp
    have side': "side_of a (staged_books st sg' ! j) = (if j = i \<and> a = ask then put_level p v ?m else side_of a (?B ! j))" for a j
      unfolding B' by (rule commit_level_simps(2) [OF i'])
    have "sg_bytes sg' j = sides_bytes (staged_books st sg' ! j)" if "j < 2" for j
    proof (cases "j = i")
      case True
      have "bt_sum level_bytes (put_level p v ?m) + weight level_bytes (bt_get ?m p)
          = bt_sum level_bytes ?m + (if lv_numeric_size v = 0 then 0 else level_bytes v)" by (rule put_level_sum [OF wf])
      then show ?thesis
        using True le bytes size unfolding sides_bytes_side_of side' fields
        by (cases ask) (auto simp: level_bytes_def sides_bytes_side_of)
    next
      case False
      then show ?thesis using ok that by (simp add: staging_ok_def sides_bytes_side_of side' fields)
    qed
    moreover have "bo_metadata (staged_books st sg' ! j) = bo_metadata (ms_books st ! j)" if "j < 2" for j
      unfolding B' using ok that by (simp add: commit_level_simps(3) [OF i'] staging_ok_def)
    moreover have "side_staged sx st sg' j a" if "j < 2" "?count \<le> level_limit st" for j a
    proof (cases "j = i \<and> a = ask")
      case True
      have "numeric_side (put_level p v ?m) = numeric_side ?m"
        if "(case bt_get ?m p of None \<Rightarrow> 0 | Some l \<Rightarrow> lv_numeric_size l) = lv_numeric_size v"
        using that pos by (auto simp: fun_eq_iff numeric_side_def put_level_get split: option.splits)
      then show ?thesis
        using True sides [of ask] that put_level_ok [OF mok t(3)]
        by (auto simp: side_staged_def side' put_level_get fields)
    next
      case False
      have "side_staged sx st sg j a" using ok that by (simp add: staging_ok_def)
      then show ?thesis using False by (auto simp: side_staged_def side' fields)
    qed
    moreover have "length (staged_books st sg') = 2" unfolding B' using len i' by simp
    ultimately show ?thesis by (auto simp: res staging_ok_def)
  qed
qed

lemma stage_all_ok:
  "staging_ok sx st sg \<Longrightarrow> case stage_all sx st ds sg of Inl err \<Rightarrow> \<forall>m. err \<noteq> SdkPanic m | Inr sg' \<Rightarrow> staging_ok sx st sg'"
proof (induction ds arbitrary: sg)
  case (Cons d ds)
  with stage_delta_ok [OF Cons.prems refl, of d] show ?case
    by (cases "stage_delta sx st d sg") auto
qed simp

lemma staging_start_ok:
  assumes "ms_books st = [b0, b1]" and "sdk_book_ok sx st 0 b0" and "sdk_book_ok sx st 1 b1"
  shows "staging_ok sx st (staging_start st)"
proof -
  have "sdk_book_ok sx st i (ms_books st ! i)" if "i < 2" for i
    using assms that by (auto simp: less_2_cases_iff)
  then show ?thesis
    using assms(1) by (auto simp: staging_ok_def staging_start_def staged_books_def side_staged_def sdk_book_ok_def side_of_def)
qed

section \<open>Revisions\<close>

text \<open>The revision of a book never falls, and stays the same only if the facts of the book do.\<close>

definition same_facts :: "sdk_ext \<Rightarrow> sdk_book \<Rightarrow> sdk_book \<Rightarrow> bool" where
  "same_facts sx b b' \<longleftrightarrow> economic_metadata_equal sx (bo_metadata b) (bo_metadata b')
     \<and> numeric_side (bo_bids b) = numeric_side (bo_bids b') \<and> numeric_side (bo_asks b) = numeric_side (bo_asks b')"

definition book_step :: "sdk_ext \<Rightarrow> sdk_book \<Rightarrow> sdk_book \<Rightarrow> bool" where
  "book_step sx b b' \<longleftrightarrow> tk_book_revision (bo_metadata b) \<le> tk_book_revision (bo_metadata b')
     \<and> (tk_book_revision (bo_metadata b) = tk_book_revision (bo_metadata b') \<longrightarrow> same_facts sx b b')"

lemma book_step_refl [simp]: "book_step sx b b"
  by (simp add: book_step_def same_facts_def economic_metadata_equal_def)

lemma book_step_trans: "book_step sx a b \<Longrightarrow> book_step sx b c \<Longrightarrow> book_step sx a c"
proof -
  assume ab: "book_step sx a b" and bc: "book_step sx b c"
  then have le: "tk_book_revision (bo_metadata a) \<le> tk_book_revision (bo_metadata b)"
    "tk_book_revision (bo_metadata b) \<le> tk_book_revision (bo_metadata c)" by (simp_all add: book_step_def)
  show ?thesis
  proof (cases "tk_book_revision (bo_metadata a) = tk_book_revision (bo_metadata c)")
    case True
    with le have "tk_book_revision (bo_metadata a) = tk_book_revision (bo_metadata b)" by simp
    with True ab bc show ?thesis by (simp add: book_step_def same_facts_def economic_metadata_equal_def)
  next
    case False
    with order.trans [OF le] show ?thesis by (simp add: book_step_def)
  qed
qed

section \<open>Operations keep the invariant\<close>

lemma sides_bytes_commit [simp]: "sides_bytes (commit_meta ch sg i b) = sides_bytes b"
  by (simp add: commit_meta_def sides_bytes_def)

lemma side_of_commit [simp]: "side_of ask (commit_meta ch sg i b) = side_of ask b"
  by (simp add: commit_meta_def side_of_def)

lemma check_postD:
  assumes "check_post sx st ch sg i = Inr n"
  shows "check_metadata sx (pc_post_metadata ch ! i) (tk_token_id (bo_metadata (ms_books st ! i)))
      (tk_outcome (bo_metadata (ms_books st ! i))) = Inr ()"
    and "if sg_changed sg i \<or> \<not> economic_metadata_equal sx (bo_metadata (ms_books st ! i)) (pc_post_metadata ch ! i)
      then tk_book_revision (bo_metadata (ms_books st ! i)) < tk_book_revision (pc_post_metadata ch ! i)
      else tk_book_revision (pc_post_metadata ch ! i) = tk_book_revision (bo_metadata (ms_books st ! i))"
    and "n = nested_bytes (sg_bytes sg i + nested_bytes (sx_meta_len sx (pc_post_metadata ch ! i)))"
  using assms by (auto simp: check_post_def and_then_Inr_iff Let_def split: if_splits)

lemma check_metadata_names: "check_metadata sx m token outcome = Inr () \<Longrightarrow> tk_token_id m = token \<and> tk_outcome m = outcome"
  by (auto simp: check_metadata_def and_then_Inr_iff)

lemma committed_book:
  assumes "staging_ok sx st sg" and "i < 2" and "sdk_book_ok sx st i (ms_books st ! i)" and "check_post sx st ch sg i = Inr n"
  shows "sdk_book_ok sx st i (commit_meta ch sg i (staged_books st sg ! i))
    \<and> book_step sx (ms_books st ! i) (commit_meta ch sg i (staged_books st sg ! i))
    \<and> n = nested_bytes (sides_bytes (staged_books st sg ! i) + nested_bytes (sx_meta_len sx (pc_post_metadata ch ! i)))"
proof -
  let ?b = "staged_books st sg ! i"
  have s: "side_staged sx st sg i ask" and bytes: "sg_bytes sg i = sides_bytes ?b" for ask
    using assms(1,2) by (simp_all add: staging_ok_def)
  note post = check_postD [OF assms(4)]
  have names: "tk_token_id (bo_metadata (ms_books st ! i)) = (if i = 0 then mk_up_token_id (ms_key st) else mk_down_token_id (ms_key st))
    \<and> tk_outcome (bo_metadata (ms_books st ! i)) = (if i = 0 then ''Up'' else ''Down'')"
    using assms(3) by (intro check_metadata_names [of sx]) (simp add: sdk_book_ok_def)
  have "sdk_book_ok sx st i (commit_meta ch sg i ?b)"
    using s [of False] s [of True] post(1) bytes names
    by (simp add: sdk_book_ok_def side_staged_def side_of_def commit_meta_def sides_bytes_def)
  moreover have "book_step sx (ms_books st ! i) (commit_meta ch sg i ?b)"
    using s [of False] s [of True] post(2)
    by (auto simp: book_step_def same_facts_def side_staged_def side_of_def commit_meta_def split: if_splits)
  ultimately show ?thesis using post(3) bytes by simp
qed

lemma commit_books: "length (ms_books st) = 2 \<Longrightarrow> staging_ok sx st sg \<Longrightarrow>
  fold commit_level (sg_staged sg) (ms_books st) = staged_books st sg"
  by (simp add: staged_books_def)

lemma change_state_cases:
  assumes b: "ms_books st = [b0, b1]" "sdk_book_ok sx st 0 b0" "sdk_book_ok sx st 1 b1"
  shows "case change_state sx ch st of
      Inl err \<Rightarrow> \<forall>m. err \<noteq> SdkPanic m
    | Inr st' \<Rightarrow> \<exists>b0' b1'. st' = st\<lparr> ms_books := [b0', b1'], ms_source_status := pc_source_status ch, ms_reason := pc_reason ch \<rparr>
        \<and> sdk_book_ok sx st 0 b0' \<and> sdk_book_ok sx st 1 b1' \<and> book_step sx b0 b0' \<and> book_step sx b1 b1'
        \<and> ms_sequence st = Some (pc_base_sequence ch)
        \<and> string_bytes (pc_source_status ch) False + (case pc_reason ch of None \<Rightarrow> 0 | Some s \<Rightarrow> string_bytes s True)
          + nested_bytes (sides_bytes b0' + nested_bytes (sx_meta_len sx (bo_metadata b0')))
          + nested_bytes (sides_bytes b1' + nested_bytes (sx_meta_len sx (bo_metadata b1')))
          \<le> unat (db_maximum_state_bytes (ms_budget st))"
proof (cases "change_state sx ch st")
  case (Inl err)
  have "check_metadata sx m token outcome \<noteq> Inl (SdkPanic x)" for m token outcome x
    by (auto simp: check_metadata_def sdk_decimal_def and_then_def ensure_def sdk_require_def of_option_def
        split: sum.splits option.splits if_splits)
  then have "check_post sx st ch sg i \<noteq> Inl (SdkPanic x)" for sg i x
    by (auto simp: check_post_def and_then_def ensure_def sdk_require_def Let_def split: sum.splits if_splits)
  moreover have "stage_all sx st (pc_changes ch) (staging_start st) \<noteq> Inl (SdkPanic x)" for x
    using stage_all_ok [OF staging_start_ok [OF b], of "pc_changes ch"] by (auto split: sum.splits)
  ultimately show ?thesis
    using Inl by (auto simp: change_state_def and_then_def ensure_def sdk_require_def Let_def split: sum.splits if_splits)
next
  case (Inr st')
  then obtain sg n0 n1 where sg: "stage_all sx st (pc_changes ch) (staging_start st) = Inr sg"
    and base: "ms_sequence st = Some (pc_base_sequence ch)"
    and post: "check_post sx st ch sg 0 = Inr n0" "check_post sx st ch sg 1 = Inr n1"
    and total: "string_bytes (pc_source_status ch) False + (case pc_reason ch of None \<Rightarrow> 0 | Some s \<Rightarrow> string_bytes s True)
      + n0 + n1 \<le> unat (db_maximum_state_bytes (ms_budget st))"
    and st': "st' = st\<lparr> ms_books := [commit_meta ch sg 0 (staged_books st sg ! 0), commit_meta ch sg 1 (staged_books st sg ! 1)],
        ms_source_status := pc_source_status ch, ms_reason := pc_reason ch \<rparr>"
    by (auto simp: change_state_def and_then_Inr_iff Let_def staged_books_def split: if_splits)
  have ok: "staging_ok sx st sg" using stage_all_ok [OF staging_start_ok [OF b], of "pc_changes ch"] sg by simp
  note c0 = committed_book [OF ok _ _ post(1)] and c1 = committed_book [OF ok _ _ post(2)]
  have meta: "bo_metadata (commit_meta ch sg i x) = pc_post_metadata ch ! i" for i x by (simp add: commit_meta_def)
  show ?thesis
    using b c0 c1 total base
    by (simp add: Inr) (intro exI conjI, rule st', simp_all add: meta)
qed

lemma replace_state_cases:
  assumes "replace_state sx sn st = Inr st'"
  shows "\<exists>b0 b1. st' = st\<lparr> ms_books := [b0, b1], ms_source_status := sn_source_status sn, ms_reason := sn_reason sn \<rparr>
    \<and> replace_book sx st 0 (sn_books sn ! 0) = Inr b0 \<and> replace_book sx st 1 (sn_books sn ! 1) = Inr b1
    \<and> length (sn_books sn) = 2 \<and> sx_snapshot_len sx sn \<le> unat (db_maximum_state_bytes (ms_budget st))"
  using assms by (auto simp: replace_state_def and_then_Inr_iff)

end
