(* ===== verification/Sdk_Book_Theorems.thy ===== *)
theory Sdk_Book_Theorems
  imports Sdk_Book_Safety
begin

text \<open>
  The properties of the SDK's market state: exact byte accounting without re-encoding, a snapshot that
  reproduces the state, and revisions that identify the facts of a book.
\<close>

section \<open>Replaying a snapshot\<close>

lemma side_levels_loop_levels:
  assumes "distinct (map fst xs)" and "\<forall>(k, l) \<in> set xs. level_ok sx k l" and "\<forall>(k, l) \<in> set xs. bt_get m k = None"
  shows "side_levels_loop sx (map (\<lambda>(k, l). wire_level l) xs) m bytes
    = Inr (fold (\<lambda>(k, l) m. bt_insert k l m) xs m, bytes + bt_sum level_bytes xs)"
  using assms
proof (induction xs arbitrary: m bytes)
  case (Cons x xs)
  obtain k l where x: "x = (k, l)" by fastforce
  have new: "\<forall>(k', l') \<in> set xs. bt_get (bt_insert k l m) k' = None"
    using Cons.prems(1,3) by (force simp: x)
  from Cons.prems(2) have "make_level sx (lv_price l) (lv_size l) = Inr (k, l)" "0 < lv_numeric_size l"
    by (simp_all add: x level_ok_def)
  with Cons.prems Cons.IH [OF _ _ new, of "bytes + nested_bytes (lv_encoded_bytes l)"] show ?case
    by (simp add: x wire_level_def level_bytes_def)
qed simp

lemma book_side_wire:
  assumes "side_ok sx m" and "length m \<le> unat maximum" and "xs = m \<or> xs = rev m"
  shows "book_side sx (map (\<lambda>(k, l). wire_level l) xs) maximum = Inr (m, bt_sum level_bytes m)"
proof -
  have wf: "bt_wf m" using assms(1) by (simp add: side_ok_def)
  have d: "distinct (map fst xs)" using bt_wf_distinct [OF wf] assms(3) by (auto simp flip: rev_map)
  have s: "set xs = set m" using assms(3) by auto
  have "\<forall>(k, l) \<in> set xs. level_ok sx k l" using assms(1) by (auto simp: s side_ok_def bt_get_iff [OF wf])
  from side_levels_loop_levels [OF d this, of "[]" 0]
  have "side_levels_loop sx (map (\<lambda>(k, l). wire_level l) xs) [] 0 = Inr (bt_of_list xs, bt_sum level_bytes xs)"
    by (simp add: bt_of_list_def)
  moreover have "bt_of_list xs = m"
  proof (rule bt_ext [OF bt_wf_of_list wf])
    have "map_of (rev xs) k = map_of m k" for k
      using assms(3) bt_wf_distinct [OF wf] map_of_inject_set [of "rev m" m] by (auto simp flip: rev_map)
    then show "bt_get (bt_of_list xs) k = bt_get m k" for k unfolding bt_get_of_list by (simp add: bt_get_def)
  qed
  moreover have "bt_sum level_bytes xs = bt_sum level_bytes m" using assms(3) by (auto simp: bt_sum_def rev_map [symmetric] sum_list_rev)
  moreover have "length xs \<le> unat maximum" using assms(2,3) by auto
  ultimately show ?thesis by (simp add: book_side_def)
qed

lemma wire_levels: "map wire_level (bt_values m) = map (\<lambda>(k, l). wire_level l) m"
  "map wire_level (rev (bt_values m)) = map (\<lambda>(k, l). wire_level l) (rev m)"
  by (simp_all add: bt_values_def case_prod_beta comp_def rev_map)

text \<open>A state whose books the given one may follow.\<close>

lemma replace_book_again:
  assumes b: "sdk_book_ok sx st i b" and same: "ms_key st0 = ms_key st" "ms_budget st0 = ms_budget st"
    and old: "i < length (ms_books st0) \<Longrightarrow> book_step sx (ms_books st0 ! i) b
      \<and> side_ok sx (bo_bids (ms_books st0 ! i)) \<and> side_ok sx (bo_asks (ms_books st0 ! i))"
  shows "replace_book sx st0 i (wire_book b) = Inr b"
proof -
  have bids: "book_side sx (map wire_level (rev (bt_values (bo_bids b)))) (db_maximum_levels_per_side (ms_budget st))
      = Inr (bo_bids b, bt_sum level_bytes (bo_bids b))"
    and asks: "book_side sx (map wire_level (bt_values (bo_asks b))) (db_maximum_levels_per_side (ms_budget st))
      = Inr (bo_asks b, bt_sum level_bytes (bo_asks b))"
    unfolding wire_levels using b by (auto simp: sdk_book_ok_def intro!: book_side_wire)
  have rev: "tk_book_revision (bo_metadata (ms_books st0 ! i)) \<le> tk_book_revision (bo_metadata b)
    \<and> (tk_book_revision (bo_metadata b) = tk_book_revision (bo_metadata (ms_books st0 ! i)) \<longrightarrow>
        economic_metadata_equal sx (bo_metadata b) (bo_metadata (ms_books st0 ! i))
        \<and> same_side (bo_bids b) (bo_bids (ms_books st0 ! i)) \<and> same_side (bo_asks b) (bo_asks (ms_books st0 ! i)))"
    if "i < length (ms_books st0)"
    using old [OF that] b
    by (auto simp: book_step_def same_facts_def economic_metadata_equal_def side_ok_def sdk_book_ok_def same_side_numeric)
  have bytes: "bo_depth_bytes b = bt_sum level_bytes (bo_bids b) + bt_sum level_bytes (bo_asks b)"
    using b by (simp add: sdk_book_ok_def sides_bytes_def)
  have check: "check_metadata sx (bo_metadata b) (if i = 0 then mk_up_token_id (ms_key st) else mk_down_token_id (ms_key st))
          (if i = 0 then ''Up'' else ''Down'') = Inr ()"
    using b by (simp add: sdk_book_ok_def)
  show ?thesis
    unfolding replace_book_def wire_book_def
    using rev check by (cases "i = 0") (simp_all add: same bids asks bytes Let_def)
qed

section \<open>Encoded sizes\<close>

text \<open>
  The protobuf encoding of a snapshot: every field is a one-byte tag, its length and its content, an
  empty required string is left out.
\<close>

definition wire_lengths :: "sdk_ext \<Rightarrow> bool" where
  "wire_lengths sx \<longleftrightarrow> (\<forall>sn. list_all (\<lambda>b. tb_metadata b \<noteq> None) (sn_books sn) \<longrightarrow>
     sx_snapshot_len sx sn = sum_list (map (\<lambda>b. nested_bytes (nested_bytes (sx_meta_len sx (the (tb_metadata b)))
         + sum_list (map (\<lambda>l. nested_bytes (sx_level_len sx l)) (tb_bids b @ tb_asks b)))) (sn_books sn))
       + string_bytes (sn_source_status sn) False + (case sn_reason sn of None \<Rightarrow> 0 | Some s \<Rightarrow> string_bytes s True))"

lemma side_wire_bytes:
  assumes "side_ok sx m"
  shows "sum_list (map (\<lambda>l. nested_bytes (sx_level_len sx l)) (map wire_level (bt_values m))) = bt_sum level_bytes m"
proof -
  have "level_bytes l = nested_bytes (sx_level_len sx (wire_level l))" if "(k, l) \<in> set m" for k l
  proof -
    have "make_level sx (lv_price l) (lv_size l) = Inr (k, l)"
      using assms that by (simp add: side_ok_def bt_get_iff level_ok_def)
    from make_levelD(4) [OF this] show ?thesis by (simp add: level_bytes_def)
  qed
  then show ?thesis by (auto simp: bt_sum_def bt_values_def intro!: arg_cong [of _ _ sum_list])
qed

lemma wire_book_bytes:
  assumes "sdk_book_ok sx st i b"
  shows "sum_list (map (\<lambda>l. nested_bytes (sx_level_len sx l)) (tb_bids (wire_book b) @ tb_asks (wire_book b))) = bo_depth_bytes b"
proof -
  have "sum_list (map (\<lambda>l. nested_bytes (sx_level_len sx l)) (map wire_level (rev xs)))
      = sum_list (map (\<lambda>l. nested_bytes (sx_level_len sx l)) (map wire_level xs))" for xs
    by (simp add: rev_map [symmetric] sum_list_rev del: map_map)
  with assms show ?thesis
    by (simp add: wire_book_def sdk_book_ok_def sides_bytes_def side_wire_bytes del: map_map)
qed

section \<open>Runs\<close>

text \<open>What a subscription does to its state: frames that apply, a lost socket, a new connection.\<close>

inductive sdk_step :: "sdk_ext \<Rightarrow> market_state \<Rightarrow> market_state \<Rightarrow> bool" for sx where
  applied: "state_apply sx f st = Inr st' \<Longrightarrow> sdk_step sx st st'"
| disconnected: "sdk_step sx st (state_disconnect st)"
| reconnected: "sdk_step sx st (state_reconnect st)"

inductive_cases sdk_stepE: "sdk_step sx st st'"

definition sdk_reachable :: "sdk_ext \<Rightarrow> market_binding \<Rightarrow> delivery_budget \<Rightarrow> market_state \<Rightarrow> bool" where
  "sdk_reachable sx binding budget st \<longleftrightarrow> (\<exists>st0. state_new binding budget = Inr st0 \<and> (sdk_step sx)\<^sup>*\<^sup>* st0 st)"

lemma state_newD:
  assumes "state_new binding budget = Inr st"
  shows "state_ok sx st" "ms_books st = []" "ms_sequence st = None" "mb_key binding = Some (ms_key st)"
    "ms_stream_id st = mb_stream_id binding" "ms_budget st = budget"
  using assms by (auto simp: state_new_def and_then_Inr_iff state_ok_def)

text \<open>What a frame that applied has done.\<close>

definition encoded_bytes :: "sdk_ext \<Rightarrow> market_state \<Rightarrow> nat" where
  "encoded_bytes sx st = string_bytes (ms_source_status st) False
     + (case ms_reason st of None \<Rightarrow> 0 | Some s \<Rightarrow> string_bytes s True)
     + sum_list (map (\<lambda>b. nested_bytes (sides_bytes b + nested_bytes (sx_meta_len sx (bo_metadata b)))) (ms_books st))"

definition applied_from :: "sdk_ext \<Rightarrow> market_state \<Rightarrow> market_state \<Rightarrow> bool" where
  "applied_from sx st st' \<longleftrightarrow> (\<exists>b0 b1. ms_books st' = [b0, b1] \<and> sdk_book_ok sx st 0 b0 \<and> sdk_book_ok sx st 1 b1)
     \<and> ms_key st' = ms_key st \<and> ms_stream_id st' = ms_stream_id st \<and> ms_budget st' = ms_budget st
     \<and> (\<forall>i < length (ms_books st). book_step sx (ms_books st ! i) (ms_books st' ! i))
     \<and> (\<exists>s. ms_sequence st' = Some s \<and> is_none_or (\<lambda>old. s > old) (ms_sequence st))"

lemma encoded_bytes_snapshot:
  assumes "wire_lengths sx" and "ms_books st = [b0, b1]" and "sdk_book_ok sx st 0 b0" and "sdk_book_ok sx st 1 b1"
  shows "sx_snapshot_len sx (snapshot_of st) = encoded_bytes sx st"
proof -
  have "sx_snapshot_len sx (snapshot_of st) = sum_list (map (\<lambda>b. nested_bytes (nested_bytes (sx_meta_len sx (the (tb_metadata b)))
         + sum_list (map (\<lambda>l. nested_bytes (sx_level_len sx l)) (tb_bids b @ tb_asks b)))) (sn_books (snapshot_of st)))
       + string_bytes (sn_source_status (snapshot_of st)) False
       + (case sn_reason (snapshot_of st) of None \<Rightarrow> 0 | Some s \<Rightarrow> string_bytes s True)"
    using assms(1) by (rule wire_lengths_def [THEN iffD1, rule_format]) (simp add: snapshot_of_def wire_book_def list_all_iff)
  moreover have "tb_metadata (wire_book b) = Some (bo_metadata b)" for b by (simp add: wire_book_def)
  moreover have "bo_depth_bytes b0 = sides_bytes b0" "bo_depth_bytes b1 = sides_bytes b1"
    using assms(3,4) by (simp_all add: sdk_book_ok_def)
  ultimately show ?thesis
    using wire_book_bytes [OF assms(3)] wire_book_bytes [OF assms(4)]
    by (simp add: snapshot_of_def assms(2) encoded_bytes_def add.commute)
qed

lemma side_levels_loop_bytes:
  "side_levels_loop sx vs m bytes = Inr (m', bytes') \<Longrightarrow>
    bytes' = bytes + sum_list (map (\<lambda>l. nested_bytes (sx_level_len sx l)) vs)"
proof (induction vs arbitrary: m bytes)
  case (Cons v vs)
  from Cons.prems obtain k l where l: "make_level sx (pl_price v) (pl_size v) = Inr (k, l)"
    and rest: "side_levels_loop sx vs (bt_insert k l m) (bytes + nested_bytes (lv_encoded_bytes l)) = Inr (m', bytes')"
    by (auto simp: and_then_Inr_iff)
  have "wire_level l = v" using make_levelD(1,2) [OF l] by (simp add: wire_level_def)
  with make_levelD(4) [OF l] Cons.IH [OF rest] show ?case by simp
qed simp

lemma replaced_book_bytes:
  assumes "replace_book sx st i v = Inr b"
  shows "sides_bytes b = sum_list (map (\<lambda>l. nested_bytes (sx_level_len sx l)) (tb_bids v @ tb_asks v))"
    and "tb_metadata v = Some (bo_metadata b)"
proof -
  from assms obtain meta bids bb asks ab where m: "tb_metadata v = Some meta"
    and bids: "book_side sx (tb_bids v) (db_maximum_levels_per_side (ms_budget st)) = Inr (bids, bb)"
    and asks: "book_side sx (tb_asks v) (db_maximum_levels_per_side (ms_budget st)) = Inr (asks, ab)"
    and b: "b = \<lparr> bo_metadata = meta, bo_bids = bids, bo_asks = asks, bo_depth_bytes = bb + ab \<rparr>"
    by (rule replace_bookE)
  have "side_levels_loop sx (tb_bids v) [] 0 = Inr (bids, bb)" "side_levels_loop sx (tb_asks v) [] 0 = Inr (asks, ab)"
    using bids asks by (simp_all add: book_side_def and_then_Inr_iff)
  from this [THEN side_levels_loop_bytes] book_side_ok(2) [OF bids] book_side_ok(2) [OF asks] m
  show "sides_bytes b = sum_list (map (\<lambda>l. nested_bytes (sx_level_len sx l)) (tb_bids v @ tb_asks v))"
    "tb_metadata v = Some (bo_metadata b)" by (simp_all add: sides_bytes_def b)
qed

lemma replaced_book_step:
  assumes "replace_book sx st i v = Inr b" and "i < length (ms_books st)"
    and "side_ok sx (bo_bids (ms_books st ! i))" "side_ok sx (bo_asks (ms_books st ! i))"
  shows "book_step sx (ms_books st ! i) b"
proof -
  let ?old = "ms_books st ! i"
  from assms(1) have ok: "side_ok sx (bo_bids b)" "side_ok sx (bo_asks b)" using replace_book_ok by (auto simp: sdk_book_ok_def)
  from assms(1) obtain "tk_book_revision (bo_metadata ?old) \<le> tk_book_revision (bo_metadata b)"
    and "tk_book_revision (bo_metadata b) = tk_book_revision (bo_metadata ?old) \<Longrightarrow>
      economic_metadata_equal sx (bo_metadata b) (bo_metadata ?old)
      \<and> same_side (bo_bids b) (bo_bids ?old) \<and> same_side (bo_asks b) (bo_asks ?old)"
    by (rule replace_bookE) (use assms(2) in simp)
  with ok assms(3,4) show ?thesis
    by (auto simp: book_step_def same_facts_def economic_metadata_equal_def side_ok_def same_side_numeric)
qed

lemma replaced_state_bytes:
  assumes "wire_lengths sx" and "replace_state sx sn st = Inr st'"
  shows "encoded_bytes sx st' \<le> unat (db_maximum_state_bytes (ms_budget st))"
proof -
  from replace_state_cases [OF assms(2)] obtain b0 b1 where
    st': "st' = st\<lparr> ms_books := [b0, b1], ms_source_status := sn_source_status sn, ms_reason := sn_reason sn \<rparr>"
    and b: "replace_book sx st 0 (sn_books sn ! 0) = Inr b0" "replace_book sx st 1 (sn_books sn ! 1) = Inr b1"
    and len: "length (sn_books sn) = 2" and max: "sx_snapshot_len sx sn \<le> unat (db_maximum_state_bytes (ms_budget st))" by blast
  from len obtain v0 v1 where books: "sn_books sn = [v0, v1]" by (auto simp: numeral_2_eq_2 length_Suc_conv)
  note v = replaced_book_bytes [OF b(1)] replaced_book_bytes [OF b(2)]
  have "sx_snapshot_len sx sn = encoded_bytes sx st'"
    using assms(1) [unfolded wire_lengths_def, rule_format, of sn] v
    by (simp add: books encoded_bytes_def st' add.commute add.left_commute)
  with max show ?thesis by simp
qed

lemma state_apply_cases:
  assumes ok: "state_ok sx st"
  shows "case state_apply sx f st of Inl err \<Rightarrow> \<forall>m. err \<noteq> SdkPanic m
    | Inr st' \<Rightarrow> applied_from sx st st'
        \<and> (wire_lengths sx \<longrightarrow> encoded_bytes sx st' \<le> unat (db_maximum_state_bytes (ms_budget st)))"
proof (cases "state_apply sx f st")
  case (Inl err)
  have lv: "side_levels_loop sx vs m n \<noteq> Inl (SdkPanic x)" for vs m n x
  proof (induction vs arbitrary: m n)
    case (Cons v vs)
    have "make_level sx p q \<noteq> Inl (SdkPanic x)" for p q
      by (auto simp: make_level_def sdk_decimal_def and_then_def ensure_def sdk_require_def of_option_def split: sum.splits option.splits if_splits)
    with Cons show ?case by (auto simp: and_then_def ensure_def sdk_require_def split: sum.splits if_splits)
  qed simp
  have "check_metadata sx m token outcome \<noteq> Inl (SdkPanic x)" for m token outcome x
    by (auto simp: check_metadata_def sdk_decimal_def and_then_def ensure_def sdk_require_def of_option_def
        split: sum.splits option.splits if_splits)
  with lv have "replace_book sx st i v \<noteq> Inl (SdkPanic x)" for i v x
    by (auto simp: replace_book_def book_side_def and_then_def ensure_def sdk_require_def of_option_def Let_def
        split: sum.splits option.splits if_splits)
  then have "replace_state sx sn st \<noteq> Inl (SdkPanic x)" for sn x
    by (auto simp: replace_state_def and_then_def ensure_def sdk_require_def split: sum.splits if_splits)
  moreover have "change_state sx ch st \<noteq> Inl (SdkPanic x)" for ch x
  proof (cases "ms_books st = []")
    case True
    then show ?thesis by (simp add: change_state_def sdk_require_def ensure_def)
  next
    case False
    with ok obtain b0 b1 where "ms_books st = [b0, b1]" "sdk_book_ok sx st 0 b0" "sdk_book_ok sx st 1 b1" by (auto simp: state_ok_def)
    from change_state_cases [OF this, of ch] show ?thesis by (auto split: sum.splits)
  qed
  ultimately show ?thesis
    using Inl by (auto simp: state_apply_def and_then_def ensure_def sdk_require_def of_option_def
        split: sum.splits option.splits if_splits frame_body.splits)
next
  case (Inr st')
  then obtain body st1 where seq: "is_none_or (\<lambda>s. mf_state_sequence f > s) (ms_sequence st)" and body: "mf_body f = Some body"
    and st1: "(case body of SnapshotBody sn \<Rightarrow> replace_state sx sn st | ChangeBody ch \<Rightarrow> change_state sx ch st) = Inr st1"
    and st': "st' = st1\<lparr> ms_sequence := Some (mf_state_sequence f), ms_published_at := mf_published_at f \<rparr>"
    by (auto simp: state_apply_def and_then_Inr_iff)
  have "applied_from sx st st' \<and> (wire_lengths sx \<longrightarrow> encoded_bytes sx st' \<le> unat (db_maximum_state_bytes (ms_budget st)))"
  proof (cases body)
    case (SnapshotBody sn)
    with st1 have r: "replace_state sx sn st = Inr st1" by simp
    from replace_state_cases [OF r] obtain b0 b1 where
      b: "st1 = st\<lparr> ms_books := [b0, b1], ms_source_status := sn_source_status sn, ms_reason := sn_reason sn \<rparr>"
      "replace_book sx st 0 (sn_books sn ! 0) = Inr b0" "replace_book sx st 1 (sn_books sn ! 1) = Inr b1" by blast
    have "book_step sx (ms_books st ! i) ([b0, b1] ! i)" if "i < length (ms_books st)" for i
    proof -
      from that ok have "i = 0 \<or> i = 1" "side_ok sx (bo_bids (ms_books st ! i))" "side_ok sx (bo_asks (ms_books st ! i))"
        by (auto simp: state_ok_def sdk_book_ok_def less_Suc_eq)
      with that b(2,3) replaced_book_step [of sx st i] show ?thesis by auto
    qed
    moreover have "encoded_bytes sx st' = encoded_bytes sx st1" by (simp add: st' encoded_bytes_def)
    ultimately show ?thesis
      using replace_book_ok [OF b(2)] replace_book_ok [OF b(3)] seq replaced_state_bytes [OF _ r]
      by (simp add: applied_from_def st' b(1))
  next
    case (ChangeBody ch)
    with st1 have c: "change_state sx ch st = Inr st1" by simp
    have "ms_books st \<noteq> []" using c by (auto simp: change_state_def sdk_require_def ensure_def and_then_def split: if_splits)
    with ok obtain b0 b1 where b: "ms_books st = [b0, b1]" "sdk_book_ok sx st 0 b0" "sdk_book_ok sx st 1 b1" by (auto simp: state_ok_def)
    from change_state_cases [OF b, of ch] c obtain c0 c1 where
      "st1 = st\<lparr> ms_books := [c0, c1], ms_source_status := pc_source_status ch, ms_reason := pc_reason ch \<rparr>"
      "sdk_book_ok sx st 0 c0" "sdk_book_ok sx st 1 c1" "book_step sx b0 c0" "book_step sx b1 c1"
      "string_bytes (pc_source_status ch) False + (case pc_reason ch of None \<Rightarrow> 0 | Some s \<Rightarrow> string_bytes s True)
          + nested_bytes (sides_bytes c0 + nested_bytes (sx_meta_len sx (bo_metadata c0)))
          + nested_bytes (sides_bytes c1 + nested_bytes (sx_meta_len sx (bo_metadata c1)))
          \<le> unat (db_maximum_state_bytes (ms_budget st))" by auto
    then show ?thesis
      using b(1) seq by (simp add: applied_from_def st' encoded_bytes_def less_Suc_eq all_conj_distrib)
  qed
  then show ?thesis by (simp add: Inr)
qed

lemma sdk_book_ok_cong: "ms_key st' = ms_key st \<Longrightarrow> ms_budget st' = ms_budget st \<Longrightarrow> sdk_book_ok sx st' = sdk_book_ok sx st"
  by (simp add: fun_eq_iff sdk_book_ok_def)

text \<open>What every step keeps: the invariant, the identity of the market, and the order of each book's revisions.\<close>

definition state_follows :: "sdk_ext \<Rightarrow> market_state \<Rightarrow> market_state \<Rightarrow> bool" where
  "state_follows sx st st' \<longleftrightarrow> state_ok sx st' \<and> ms_key st' = ms_key st \<and> ms_stream_id st' = ms_stream_id st
     \<and> ms_budget st' = ms_budget st
     \<and> (\<forall>i < length (ms_books st). i < length (ms_books st') \<and> book_step sx (ms_books st ! i) (ms_books st' ! i))"

lemma state_follows_refl: "state_ok sx st \<Longrightarrow> state_follows sx st st"
  by (simp add: state_follows_def)

lemma state_follows_trans: "state_follows sx a b \<Longrightarrow> state_follows sx b c \<Longrightarrow> state_follows sx a c"
  unfolding state_follows_def using book_step_trans by fastforce

lemma applied_follows: "applied_from sx st st' \<Longrightarrow> state_ok sx st \<Longrightarrow> state_follows sx st st'"
  using sdk_book_ok_cong [of st' st sx] by (auto simp: applied_from_def state_follows_def state_ok_def)

lemma sdk_step_follows: "sdk_step sx st st' \<Longrightarrow> state_ok sx st \<Longrightarrow> state_follows sx st st'"
proof (erule sdk_stepE)
  fix f assume ok: "state_ok sx st" and "state_apply sx f st = Inr st'"
  with state_apply_cases [OF ok, of f] show "state_follows sx st st'" by (simp add: applied_follows)
next
  assume "state_ok sx st" "st' = state_disconnect st"
  moreover have "sdk_book_ok sx (state_disconnect st) = sdk_book_ok sx st" by (rule sdk_book_ok_cong) (simp_all add: state_disconnect_def)
  ultimately show "state_follows sx st st'" by (auto simp: state_follows_def state_ok_def) (simp_all add: state_disconnect_def)
next
  assume "state_ok sx st" "st' = state_reconnect st"
  moreover have "sdk_book_ok sx (state_reconnect st) = sdk_book_ok sx st" by (rule sdk_book_ok_cong) (simp_all add: state_reconnect_def)
  ultimately show "state_follows sx st st'" by (auto simp: state_follows_def state_ok_def) (simp_all add: state_reconnect_def)
qed

lemma sdk_steps_follow: "(sdk_step sx)\<^sup>*\<^sup>* st st' \<Longrightarrow> state_ok sx st \<Longrightarrow> state_follows sx st st'"
proof (induction rule: rtranclp_induct)
  case (step y z)
  then have "state_follows sx st y" by simp
  with step.hyps(2) show ?case by (meson state_follows_def state_follows_trans sdk_step_follows)
qed (rule state_follows_refl)

lemma sdk_reachable_ok: "sdk_reachable sx binding budget st \<Longrightarrow> state_ok sx st"
  using sdk_steps_follow state_newD(1) by (fastforce simp: sdk_reachable_def state_follows_def)

lemma snapshot_applies:
  assumes b: "ms_books st' = [b0, b1]" "sdk_book_ok sx st' 0 b0" "sdk_book_ok sx st' 1 b1"
    and wl: "wire_lengths sx" and max: "encoded_bytes sx st' \<le> unat (db_maximum_state_bytes (ms_budget x))"
    and same: "ms_key st' = ms_key x" "ms_stream_id st' = ms_stream_id x" "ms_budget st' = ms_budget x"
    and x: "state_ok sx x" "\<forall>i < length (ms_books x). book_step sx (ms_books x ! i) (ms_books st' ! i)"
    and seq: "ms_sequence st' = Some s" "is_none_or (\<lambda>old. s > old) (ms_sequence x)"
    and sn: "state_snapshot st' = Some sn"
  shows "state_apply sx sn x = Inr st'"
proof -
  have sides: "side_ok sx (bo_bids (ms_books x ! i)) \<and> side_ok sx (bo_asks (ms_books x ! i))" if "i < length (ms_books x)" for i
    using x(1) that by (auto simp: state_ok_def sdk_book_ok_def less_Suc_eq)
  have r0: "replace_book sx x 0 (wire_book b0) = Inr b0"
    by (rule replace_book_again [OF b(2)]) (use x(2) [rule_format, of 0] sides b(1) same in auto)
  have r1: "replace_book sx x 1 (wire_book b1) = Inr b1"
    by (rule replace_book_again [OF b(3)]) (use x(2) [rule_format, of 1] sides b(1) same in auto)
  from r0 r1 have "replace_state sx (snapshot_of st') x
      = Inr (x\<lparr> ms_books := [b0, b1], ms_source_status := ms_source_status st', ms_reason := ms_reason st' \<rparr>)"
    using encoded_bytes_snapshot [OF wl b] max
    by (simp add: replace_state_def) (simp add: snapshot_of_def b(1))
  moreover have "sn = \<lparr> mf_schema_version = market_schema, mf_key = Some (ms_key x), mf_stream_id = ms_stream_id x,
      mf_state_sequence = s, mf_published_at = ms_published_at st', mf_body = Some (SnapshotBody (snapshot_of st')) \<rparr>"
    using sn seq(1) by (simp add: state_snapshot_def same)
  ultimately have "state_apply sx sn x = Inr (x\<lparr> ms_books := [b0, b1], ms_source_status := ms_source_status st',
      ms_reason := ms_reason st', ms_sequence := Some s, ms_published_at := ms_published_at st' \<rparr>)"
    using seq(2) by (simp add: state_apply_def)
  then show ?thesis using same b(1) seq(1) by simp
qed

section \<open>A market on concrete inputs\<close>

definition demo_sdk_ext :: sdk_ext where
  "demo_sdk_ext = (let level_len = (\<lambda>l. string_bytes (pl_price l) False + string_bytes (pl_size l) False);
       meta_len = (\<lambda>m. string_bytes (tk_token_id m) False + string_bytes (tk_outcome m) False
         + 1 + varint_bytes (unat (tk_book_revision m)))
     in \<lparr> sx_parse = map_of [(''0.4'', 4 * 10 ^ 27), (''0.6'', 6 * 10 ^ 27), (''7'', 7 * 10 ^ 28), (''0'', 0)],
       sx_level_len = level_len, sx_meta_len = meta_len,
       sx_snapshot_len = (\<lambda>sn. sum_list (map (\<lambda>b. nested_bytes (nested_bytes (meta_len (the (tb_metadata b)))
         + sum_list (map (\<lambda>l. nested_bytes (level_len l)) (tb_bids b @ tb_asks b)))) (sn_books sn))
       + string_bytes (sn_source_status sn) False + (case sn_reason sn of None \<Rightarrow> 0 | Some s \<Rightarrow> string_bytes s True)) \<rparr>)"

lemma demo_wire_lengths: "wire_lengths demo_sdk_ext"
  by (simp add: wire_lengths_def demo_sdk_ext_def Let_def)

definition demo_sdk_key :: market_key where
  "demo_sdk_key = \<lparr> mk_market_id = ''m'', mk_condition_id = ''c'', mk_window_id = ''w'', mk_start_at = ''s'',
     mk_end_at = ''e'', mk_up_token_id = ''u'', mk_down_token_id = ''d'', mk_rules = Some (''r'', 1) \<rparr>"

definition demo_sdk_binding :: market_binding where
  "demo_sdk_binding = \<lparr> mb_key = Some demo_sdk_key, mb_role = ''current'', mb_stream_id = ''x'' \<rparr>"

definition demo_sdk_budget :: delivery_budget where
  "demo_sdk_budget = \<lparr> db_maximum_frame_bytes = 4096, db_maximum_state_bytes = 4096,
     db_maximum_levels_per_side = 8, db_maximum_changes = 8 \<rparr>"

definition demo_sdk_meta :: "string \<Rightarrow> string \<Rightarrow> u64 \<Rightarrow> token_metadata" where
  "demo_sdk_meta token outcome revision = \<lparr> tk_token_id = token, tk_outcome = outcome, tk_tick_size = None,
     tk_quote_source_at = None, tk_last_trade = None, tk_confirmation = None, tk_data_valid = True,
     tk_invalid_reason = None, tk_received_at = None, tk_book_revision = revision \<rparr>"

definition demo_sdk_frame :: "u64 \<Rightarrow> frame_body \<Rightarrow> market_frame" where
  "demo_sdk_frame s body = \<lparr> mf_schema_version = market_schema, mf_key = Some demo_sdk_key, mf_stream_id = ''x'',
     mf_state_sequence = s, mf_published_at = ''t'', mf_body = Some body \<rparr>"

definition demo_sdk_snapshot :: market_frame where
  "demo_sdk_snapshot = demo_sdk_frame 5 (SnapshotBody \<lparr> sn_books =
     [\<lparr> tb_metadata = Some (demo_sdk_meta ''u'' ''Up'' 1),
        tb_bids = [\<lparr> pl_price = ''0.4'', pl_size = ''7'' \<rparr>], tb_asks = [\<lparr> pl_price = ''0.6'', pl_size = ''7'' \<rparr>] \<rparr>,
      \<lparr> tb_metadata = Some (demo_sdk_meta ''d'' ''Down'' 1), tb_bids = [], tb_asks = [] \<rparr>],
     sn_source_status = ''available'', sn_reason = None \<rparr>)"

text \<open>The delta removes the bid of one token and adds it to the other.\<close>

definition demo_sdk_delta :: market_frame where
  "demo_sdk_delta = demo_sdk_frame 6 (ChangeBody \<lparr> pc_base_sequence = 5,
     pc_changes = [\<lparr> dc_token_id = ''u'', dc_side = ''BUY'', dc_price = ''0.4'', dc_size = ''0'' \<rparr>,
       \<lparr> dc_token_id = ''d'', dc_side = ''BUY'', dc_price = ''0.4'', dc_size = ''7'' \<rparr>],
     pc_post_metadata = [demo_sdk_meta ''u'' ''Up'' 2, demo_sdk_meta ''d'' ''Down'' 2],
     pc_source_status = ''available'', pc_reason = None,
     pc_base_books = [\<lparr> bb_token_id = ''u'', bb_book_revision = 1 \<rparr>, \<lparr> bb_token_id = ''d'', bb_book_revision = 1 \<rparr>] \<rparr>)"

definition demo_sdk_new :: market_state where
  "demo_sdk_new = \<lparr> ms_key = demo_sdk_key, ms_stream_id = ''x'', ms_sequence = None, ms_books = [],
     ms_source_status = ''unavailable'', ms_reason = None, ms_published_at = [], ms_budget = demo_sdk_budget \<rparr>"

definition demo_sdk_level :: "string \<Rightarrow> int \<Rightarrow> sdk_level" where
  "demo_sdk_level p n = \<lparr> lv_price = p, lv_size = ''7'', lv_numeric_size = n, lv_encoded_bytes = 8 \<rparr>"

definition demo_sdk_state :: market_state where
  "demo_sdk_state = demo_sdk_new\<lparr> ms_sequence := Some 5, ms_source_status := ''available'', ms_published_at := ''t'',
     ms_books := [
       \<lparr> bo_metadata = demo_sdk_meta ''u'' ''Up'' 1, bo_bids = [(4 * 10 ^ 27, demo_sdk_level ''0.4'' (7 * 10 ^ 28))],
         bo_asks = [(6 * 10 ^ 27, demo_sdk_level ''0.6'' (7 * 10 ^ 28))], bo_depth_bytes = 20 \<rparr>,
       \<lparr> bo_metadata = demo_sdk_meta ''d'' ''Down'' 1, bo_bids = [], bo_asks = [], bo_depth_bytes = 0 \<rparr>] \<rparr>"

definition demo_sdk_after :: market_state where
  "demo_sdk_after = demo_sdk_state\<lparr> ms_sequence := Some 6,
     ms_books := [
       \<lparr> bo_metadata = demo_sdk_meta ''u'' ''Up'' 2, bo_bids = [],
         bo_asks = [(6 * 10 ^ 27, demo_sdk_level ''0.6'' (7 * 10 ^ 28))], bo_depth_bytes = 10 \<rparr>,
       \<lparr> bo_metadata = demo_sdk_meta ''d'' ''Down'' 2, bo_bids = [(4 * 10 ^ 27, demo_sdk_level ''0.4'' (7 * 10 ^ 28))],
         bo_asks = [], bo_depth_bytes = 10 \<rparr>] \<rparr>"

lemmas demo_sdk_defs = demo_sdk_key_def demo_sdk_binding_def demo_sdk_budget_def demo_sdk_meta_def demo_sdk_frame_def
  demo_sdk_new_def demo_sdk_level_def demo_sdk_state_def

lemma demo_make_level:
  "make_level demo_sdk_ext ''0.4'' ''7'' = Inr (4 * 10 ^ 27, demo_sdk_level ''0.4'' (7 * 10 ^ 28))"
  "make_level demo_sdk_ext ''0.6'' ''7'' = Inr (6 * 10 ^ 27, demo_sdk_level ''0.6'' (7 * 10 ^ 28))"
  "make_level demo_sdk_ext ''0.4'' ''0'' = Inr (4 * 10 ^ 27, (demo_sdk_level ''0.4'' 0)\<lparr> lv_size := ''0'' \<rparr>)"
  by (simp_all add: make_level_def sdk_decimal_def sdk_require_def plain_char_def demo_sdk_ext_def sdk_one_def
      demo_sdk_level_def Let_def string_bytes_def nested_bytes_def varint_bytes.simps)

lemma demo_sdk_starts: "state_new demo_sdk_binding demo_sdk_budget = Inr demo_sdk_new"
  by (simp add: state_new_def demo_sdk_defs is_some_and_def)

lemma demo_sdk_opens: "state_apply demo_sdk_ext demo_sdk_snapshot demo_sdk_new = Inr demo_sdk_state"
proof -
  have [simp]: "sx_snapshot_len demo_sdk_ext sn \<le> unat (db_maximum_state_bytes (ms_budget demo_sdk_new))"
    if "sn = \<lparr> sn_books =
     [\<lparr> tb_metadata = Some (demo_sdk_meta ''u'' ''Up'' 1),
        tb_bids = [\<lparr> pl_price = ''0.4'', pl_size = ''7'' \<rparr>], tb_asks = [\<lparr> pl_price = ''0.6'', pl_size = ''7'' \<rparr>] \<rparr>,
      \<lparr> tb_metadata = Some (demo_sdk_meta ''d'' ''Down'' 1), tb_bids = [], tb_asks = [] \<rparr>],
     sn_source_status = ''available'', sn_reason = None \<rparr>" for sn
    by (simp add: that demo_sdk_ext_def Let_def demo_sdk_meta_def demo_sdk_new_def demo_sdk_budget_def string_bytes_def nested_bytes_def varint_bytes.simps)
  have meta: "check_metadata demo_sdk_ext (demo_sdk_meta token outcome n) token outcome = Inr ()" if "0 < n" for token outcome n
    by (simp add: check_metadata_def demo_sdk_meta_def that)
  have books: "replace_book demo_sdk_ext demo_sdk_new 0 \<lparr> tb_metadata = Some (demo_sdk_meta ''u'' ''Up'' 1),
      tb_bids = [\<lparr> pl_price = ''0.4'', pl_size = ''7'' \<rparr>], tb_asks = [\<lparr> pl_price = ''0.6'', pl_size = ''7'' \<rparr>] \<rparr>
      = Inr (ms_books demo_sdk_state ! 0)"
    "replace_book demo_sdk_ext demo_sdk_new 1 \<lparr> tb_metadata = Some (demo_sdk_meta ''d'' ''Down'' 1), tb_bids = [], tb_asks = [] \<rparr>
      = Inr (ms_books demo_sdk_state ! 1)"
    using meta [of 1 "''u''" "''Up''"] meta [of 1 "''d''" "''Down''"]
    by (simp_all add: replace_book_def book_side_def demo_make_level)
      (simp_all add: demo_sdk_defs nested_bytes_def varint_bytes.simps)
  show ?thesis
    using books
    by (simp add: state_apply_def demo_sdk_snapshot_def demo_sdk_frame_def replace_state_def)
      (simp add: demo_sdk_defs)
qed

lemma demo_sdk_changes: "state_apply demo_sdk_ext demo_sdk_delta demo_sdk_state = Inr demo_sdk_after"
proof -
  have meta: "check_metadata demo_sdk_ext (demo_sdk_meta token outcome n) token outcome = Inr ()" if "0 < n" for token outcome n
    by (simp add: check_metadata_def demo_sdk_meta_def that)
  have lens [simp]: "sx_meta_len demo_sdk_ext (demo_sdk_meta ''u'' ''Up'' 2) = 9"
    "sx_meta_len demo_sdk_ext (demo_sdk_meta ''d'' ''Down'' 2) = 11"
    by (simp_all add: demo_sdk_ext_def Let_def demo_sdk_meta_def string_bytes_def nested_bytes_def varint_bytes.simps)
  have facts [simp]: "tk_book_revision (demo_sdk_meta token outcome n) = n" "tk_token_id (demo_sdk_meta token outcome n) = token"
    "tk_outcome (demo_sdk_meta token outcome n) = outcome" for token outcome n
    by (simp_all add: demo_sdk_meta_def)
  have level [simp]: "lv_numeric_size (demo_sdk_level q n) = n" "lv_encoded_bytes (demo_sdk_level q n) = 8" for q n
    by (simp_all add: demo_sdk_level_def)
  have bytes [simp]: "nested_bytes 8 = 10" "nested_bytes 9 = 11" "nested_bytes 11 = 13"
    "nested_bytes 21 = 23" "nested_bytes 23 = 25"
    by (simp_all add: nested_bytes_def varint_bytes.simps)
  have new [simp]: "ms_key demo_sdk_new = demo_sdk_key" "ms_budget demo_sdk_new = demo_sdk_budget"
    "ms_stream_id demo_sdk_new = ''x''"
    by (simp_all add: demo_sdk_new_def)
  have names [simp]: "mk_up_token_id demo_sdk_key = ''u''" "mk_down_token_id demo_sdk_key = ''d''"
    "unat (db_maximum_levels_per_side demo_sdk_budget) = 8" "unat (db_maximum_changes demo_sdk_budget) = 8"
    "unat (db_maximum_state_bytes demo_sdk_budget) = 4096"
    by (simp_all add: demo_sdk_key_def demo_sdk_budget_def)
  show ?thesis
    by (simp add: state_apply_def demo_sdk_delta_def demo_sdk_frame_def change_state_def demo_sdk_state_def
        stage_delta_def staging_start_def token_index_def side_is_ask_def demo_make_level side_of_def bt_get_def
        checked_sub_def count_after_def check_post_def meta Let_def commit_level_def put_side_def commit_meta_def
        bt_remove_def string_bytes_def demo_sdk_after_def)
      (simp add: nested_bytes_def varint_bytes.simps demo_sdk_new_def)
qed

lemma demo_sdk_reaches: "sdk_reachable demo_sdk_ext demo_sdk_binding demo_sdk_budget demo_sdk_state"
  using sdk_step.applied [OF demo_sdk_opens] demo_sdk_starts by (auto simp: sdk_reachable_def)

section \<open>Properties\<close>

text \<open>C31: at every reachable state a frame either fails without an arithmetic panic, or leaves each
  book's \<open>depth_bytes\<close>, which deltas maintain from the touched levels only, equal to the encoded size of
  all its levels, and the encoded snapshot of the whole state within the state byte budget; both sides
  of both books stay within the level budget.\<close>

theorem delta_accounting_is_exact:
  "wire_lengths sx \<and> sdk_reachable sx binding budget st \<longrightarrow>
    (case state_apply sx f st of
       Inl err \<Rightarrow> \<forall>m. err \<noteq> SdkPanic m
     | Inr st' \<Rightarrow> sx_snapshot_len sx (snapshot_of st') \<le> unat (db_maximum_state_bytes budget)
         \<and> (\<forall>b \<in> set (ms_books st'). bo_depth_bytes b =
              sum_list (map (\<lambda>l. nested_bytes (sx_level_len sx l)) (tb_bids (wire_book b) @ tb_asks (wire_book b)))
            \<and> length (bo_bids b) \<le> unat (db_maximum_levels_per_side budget)
            \<and> length (bo_asks b) \<le> unat (db_maximum_levels_per_side budget)))"
proof (intro impI, elim conjE)
  assume wl: "wire_lengths sx" and reach: "sdk_reachable sx binding budget st"
  then have budget: "ms_budget st = budget"
    using sdk_steps_follow state_newD(1,6) by (fastforce simp: sdk_reachable_def state_follows_def)
  note ok = sdk_reachable_ok [OF reach]
  show "case state_apply sx f st of
       Inl err \<Rightarrow> \<forall>m. err \<noteq> SdkPanic m
     | Inr st' \<Rightarrow> sx_snapshot_len sx (snapshot_of st') \<le> unat (db_maximum_state_bytes budget)
         \<and> (\<forall>b \<in> set (ms_books st'). bo_depth_bytes b =
              sum_list (map (\<lambda>l. nested_bytes (sx_level_len sx l)) (tb_bids (wire_book b) @ tb_asks (wire_book b)))
            \<and> length (bo_bids b) \<le> unat (db_maximum_levels_per_side budget)
            \<and> length (bo_asks b) \<le> unat (db_maximum_levels_per_side budget))"
  proof (cases "state_apply sx f st")
    case (Inl err)
    with state_apply_cases [OF ok, of f] show ?thesis by simp
  next
    case (Inr st')
    with state_apply_cases [OF ok, of f] wl have a: "applied_from sx st st'"
      and max: "encoded_bytes sx st' \<le> unat (db_maximum_state_bytes budget)" by (simp_all add: budget)
    from a obtain b0 b1 where b: "ms_books st' = [b0, b1]" "sdk_book_ok sx st' 0 b0" "sdk_book_ok sx st' 1 b1"
      using sdk_book_ok_cong [of st' st sx] by (auto simp: applied_from_def)
    have "ms_budget st' = budget" using a by (simp add: applied_from_def budget)
    then have limits: "length (bo_bids b) \<le> unat (db_maximum_levels_per_side budget) \<and> length (bo_asks b) \<le> unat (db_maximum_levels_per_side budget)"
      if "b = b0 \<or> b = b1" for b using b(2,3) that by (auto simp: sdk_book_ok_def)
    show ?thesis
      using encoded_bytes_snapshot [OF wl b] max limits [of b0] limits [of b1] wire_book_bytes [OF b(2)] wire_book_bytes [OF b(3)]
      by (simp add: Inr b(1))
  qed
qed

theorem delta_accounting_is_exact_witness:
  "sx_snapshot_len demo_sdk_ext (snapshot_of demo_sdk_after) \<le> 4096"
  using delta_accounting_is_exact [of demo_sdk_ext demo_sdk_binding demo_sdk_budget demo_sdk_state demo_sdk_delta]
    demo_wire_lengths demo_sdk_reaches demo_sdk_changes by (simp add: demo_sdk_budget_def)

text \<open>C32: whatever frame a client applied, a snapshot or a delta, the snapshot the resulting state encodes
  brings the state before it, and a state that has just been created, to exactly that same state: books,
  byte counts, texts, sequence and status.\<close>

theorem snapshot_reproduces_the_state:
  "wire_lengths sx \<and> sdk_reachable sx binding budget st \<and> state_apply sx f st = Inr st' \<longrightarrow>
    (\<exists>sn. state_snapshot st' = Some sn \<and> state_apply sx sn st = Inr st'
      \<and> (\<forall>st0. state_new binding budget = Inr st0 \<longrightarrow> state_apply sx sn st0 = Inr st'))"
proof (intro impI, elim conjE)
  assume wl: "wire_lengths sx" and reach: "sdk_reachable sx binding budget st" and f: "state_apply sx f st = Inr st'"
  note ok = sdk_reachable_ok [OF reach]
  from state_apply_cases [OF ok, of f] f wl have a: "applied_from sx st st'"
    and max: "encoded_bytes sx st' \<le> unat (db_maximum_state_bytes (ms_budget st))" by simp_all
  from a obtain b0 b1 s where b: "ms_books st' = [b0, b1]" "sdk_book_ok sx st' 0 b0" "sdk_book_ok sx st' 1 b1"
    and s: "ms_sequence st' = Some s" "is_none_or (\<lambda>old. s > old) (ms_sequence st)"
    using sdk_book_ok_cong [of st' st sx] by (auto simp: applied_from_def)
  obtain sn where sn: "state_snapshot st' = Some sn" using s(1) by (simp add: state_snapshot_def)
  have "state_apply sx sn st = Inr st'"
    by (rule snapshot_applies [OF b wl max _ _ _ ok _ s sn]) (use a in \<open>auto simp: applied_from_def\<close>)
  moreover have "state_apply sx sn st0 = Inr st'" if new: "state_new binding budget = Inr st0" for st0
  proof -
    from reach new have "(sdk_step sx)\<^sup>*\<^sup>* st0 st" by (simp add: sdk_reachable_def)
    with state_newD(1) [OF new] have "state_follows sx st0 st" by (rule sdk_steps_follow [rotated])
    then have "ms_key st' = ms_key st0" "ms_stream_id st' = ms_stream_id st0" "ms_budget st' = ms_budget st0"
      "ms_budget st = ms_budget st0" using a by (simp_all add: state_follows_def applied_from_def)
    with snapshot_applies [OF b wl, of st0 s sn] state_newD [OF new] max s(1) sn show ?thesis by simp
  qed
  ultimately show "\<exists>sn. state_snapshot st' = Some sn \<and> state_apply sx sn st = Inr st'
      \<and> (\<forall>st0. state_new binding budget = Inr st0 \<longrightarrow> state_apply sx sn st0 = Inr st')" using sn by blast
qed

theorem snapshot_reproduces_the_state_witness:
  "\<exists>sn. state_snapshot demo_sdk_after = Some sn
    \<and> state_apply demo_sdk_ext sn demo_sdk_state = Inr demo_sdk_after
    \<and> state_apply demo_sdk_ext sn demo_sdk_new = Inr demo_sdk_after"
  using snapshot_reproduces_the_state [of demo_sdk_ext demo_sdk_binding demo_sdk_budget demo_sdk_state demo_sdk_delta demo_sdk_after]
    demo_wire_lengths demo_sdk_reaches demo_sdk_changes demo_sdk_starts by blast

text \<open>C33: over any number of frames, failed frames, disconnections and reconnections, the revision of a
  token's book never falls, and while it stays the same the book's facts stay the same: the numeric
  sizes at every price of both sides, the tick, the quote time and the validity.\<close>

theorem revision_identifies_book_facts:
  "sdk_reachable sx binding budget st \<and> (sdk_step sx)\<^sup>*\<^sup>* st st' \<and> i < length (ms_books st) \<longrightarrow>
    i < length (ms_books st')
    \<and> tk_book_revision (bo_metadata (ms_books st ! i)) \<le> tk_book_revision (bo_metadata (ms_books st' ! i))
    \<and> (tk_book_revision (bo_metadata (ms_books st ! i)) = tk_book_revision (bo_metadata (ms_books st' ! i)) \<longrightarrow>
        economic_metadata_equal sx (bo_metadata (ms_books st ! i)) (bo_metadata (ms_books st' ! i))
        \<and> numeric_side (bo_bids (ms_books st ! i)) = numeric_side (bo_bids (ms_books st' ! i))
        \<and> numeric_side (bo_asks (ms_books st ! i)) = numeric_side (bo_asks (ms_books st' ! i)))"
  using sdk_steps_follow [of sx st st'] sdk_reachable_ok [of sx binding budget st]
  by (auto simp: state_follows_def book_step_def same_facts_def)

theorem revision_identifies_book_facts_witness:
  "tk_book_revision (bo_metadata (ms_books demo_sdk_state ! 0)) \<le> tk_book_revision (bo_metadata (ms_books demo_sdk_after ! 0))"
proof -
  have "0 < length (ms_books demo_sdk_state)" by (simp add: demo_sdk_state_def)
  with revision_identifies_book_facts [of demo_sdk_ext demo_sdk_binding demo_sdk_budget demo_sdk_state demo_sdk_after 0]
    sdk_step.applied [OF demo_sdk_changes] demo_sdk_reaches show ?thesis by blast
qed

end
