(* ===== verification/Sdk_Price.thy ===== *)
theory Sdk_Price
  imports Sdk_Book
begin

text \<open>
  The live tail of a price source, \<open>sdk/crates/marketcow-sdk/src/price.rs\<close>: the state a subscriber keeps
  of a publication stream, and what a connection, a frame and a failure do to it. The parser of decimals
  is a parameter.
\<close>

section \<open>Frames\<close>

datatype price_source = SourceUnspecified | BinanceSpotTrade | ChainlinkBtcUsd | ChainlinkBtcUsdTwap60

fun source_number :: "price_source \<Rightarrow> int" where
  "source_number SourceUnspecified = 0"
| "source_number BinanceSpotTrade = 1"
| "source_number ChainlinkBtcUsd = 2"
| "source_number ChainlinkBtcUsdTwap60 = 3"

record btc_trade =
  bt_trade_id :: u64
  bt_trade_time_ms :: int
  bt_event_time_ms :: "int option"
  bt_price :: string
  bt_quantity :: string
  bt_buyer_is_maker :: "bool option"
  bt_received_at_ns :: "int option"
  bt_evidence :: "(string \<times> u32 option) option"

record observation =
  ob_source_time_ms :: int
  ob_price :: string
  ob_source_sequence :: "u64 option"
  ob_row_index :: "u32 option"
  ob_received_at_ns :: "int option"
  ob_evidence :: "(string \<times> u32 option) option"

record price_snapshot =
  ps_trades :: "btc_trade list"
  ps_observations :: "observation list"
  ps_truncated :: bool
  ps_retained_count :: u64
  ps_first_trade_id :: "u64 option"
  ps_last_trade_id :: "u64 option"

datatype price_payload =
    PriceSnapshot price_snapshot
  | TradeDelta "btc_trade option"
  | ObservationDelta "observation list"
  | StatusPayload int
  | ErrorPayload string bool "u64 option"

record price_frame =
  pf_schema_version :: string
  pf_producer_instance_id :: string
  pf_stream_id :: string
  pf_stream_sequence :: u64
  pf_source :: int
  pf_instrument_id :: string
  pf_source_sequence :: "u64 option"
  pf_published_at_ns :: int
  pf_latest_source_age_ms_at_emit :: "int option"
  pf_payload :: "price_payload option"

definition price_schema :: string where
  "price_schema = ''marketcow.btc-price-stream.v3''"

section \<open>State\<close>

record price_state =
  pr_source :: price_source
  pr_instrument :: string
  pr_stream_id :: "string option"
  pr_sequence :: "u64 option"
  pr_available :: bool
  pr_latest_trade :: "btc_trade option"
  pr_latest_observation :: "observation option"
  pr_signed_age_ms :: "int option"
  pr_initial_sequence :: "u64 option"
  pr_producer :: "string option"

definition price_instrument :: "price_source \<Rightarrow> string" where
  "price_instrument source = (case source of
     BinanceSpotTrade \<Rightarrow> ''BTCUSDT.BINANCE''
   | ChainlinkBtcUsdTwap60 \<Rightarrow> ''BTCUSD.CHAINLINK.TWAP60''
   | _ \<Rightarrow> ''BTCUSD.CHAINLINK'')"

definition price_start :: "price_source \<Rightarrow> price_state" where
  "price_start source = \<lparr> pr_source = source, pr_instrument = price_instrument source, pr_stream_id = None, pr_sequence = None,
     pr_available = False, pr_latest_trade = None, pr_latest_observation = None, pr_signed_age_ms = None,
     pr_initial_sequence = None, pr_producer = None \<rparr>"

definition price_new :: "price_source \<Rightarrow> sdk_error + price_state" where
  "price_new source =
     and_then (sdk_require (source \<noteq> SourceUnspecified) ''source required'') (\<lambda>_. Inr (price_start source))"

definition reset_transport :: "price_state \<Rightarrow> price_state" where
  "reset_transport st = st\<lparr> pr_available := False, pr_sequence := None, pr_initial_sequence := None,
     pr_producer := None, pr_stream_id := None \<rparr>"

section \<open>Payloads\<close>

definition validate_trade :: "sdk_ext \<Rightarrow> btc_trade \<Rightarrow> sdk_error + unit" where
  "validate_trade sx t =
     and_then (sdk_require (bt_trade_id t > 0 \<and> bt_trade_time_ms t > 0 \<and> bt_buyer_is_maker t \<noteq> None
        \<and> is_none_or (\<lambda>e. e > 0) (bt_event_time_ms t)) ''trade identity/time/maker presence'') (\<lambda>_.
     and_then (sdk_decimal sx (bt_price t) True) (\<lambda>_.
     and_then (sdk_decimal sx (bt_quantity t) True) (\<lambda>_. Inr ())))"

definition next_trade :: "btc_trade \<Rightarrow> btc_trade \<Rightarrow> bool" where
  "next_trade p t = (checked_add1 (bt_trade_id p) = Some (bt_trade_id t) \<and> bt_trade_time_ms p \<le> bt_trade_time_ms t)"

fun snapshot_trades :: "sdk_ext \<Rightarrow> btc_trade option \<Rightarrow> btc_trade list \<Rightarrow> sdk_error + unit" where
  "snapshot_trades sx previous [] = Inr ()"
| "snapshot_trades sx previous (t # ts) =
     and_then (validate_trade sx t) (\<lambda>_.
     and_then (sdk_require (is_none_or (\<lambda>p. next_trade p t) previous) ''snapshot trade continuity'') (\<lambda>_.
     snapshot_trades sx (Some t) ts))"

fun observation_rows ::
  "sdk_ext \<Rightarrow> bool \<Rightarrow> u64 option \<Rightarrow> nat \<Rightarrow> int option \<Rightarrow> observation list \<Rightarrow> sdk_error + unit" where
  "observation_rows sx snapshot first_sequence i previous [] = Inr ()"
| "observation_rows sx snapshot first_sequence i previous (o1 # os) =
     and_then (sdk_require (ob_source_time_ms o1 > 0 \<and> is_some_and (\<lambda>n. n > 0) (ob_source_sequence o1)
        \<and> ob_row_index o1 \<noteq> None) ''observation presence/time'') (\<lambda>_.
     and_then (sdk_decimal sx (ob_price o1) True) (\<lambda>_.
     and_then (sdk_require (is_none_or (\<lambda>t. ob_source_time_ms o1 \<ge> t) previous) ''observation time regression'') (\<lambda>_.
     and_then (if snapshot then Inr () else sdk_require (ob_row_index o1 = Some (of_nat i)
        \<and> ob_source_sequence o1 = first_sequence) ''observation frame rows'') (\<lambda>_.
     observation_rows sx snapshot first_sequence (Suc i) (Some (ob_source_time_ms o1)) os))))"

definition observations :: "sdk_ext \<Rightarrow> observation list \<Rightarrow> bool \<Rightarrow> price_state \<Rightarrow> sdk_error + unit" where
  "observations sx xs snapshot st =
     and_then (sdk_require (xs \<noteq> []) ''empty observation payload'') (\<lambda>_.
     observation_rows sx snapshot (ob_source_sequence (hd xs)) 0
       (if snapshot then None else map_option ob_source_time_ms (pr_latest_observation st)) xs)"

definition live_phase :: int where
  "live_phase = 4"

definition apply_payload :: "sdk_ext \<Rightarrow> price_frame \<Rightarrow> price_payload \<Rightarrow> price_state \<Rightarrow> sdk_error + price_state" where
  "apply_payload sx f payload st = (case payload of
     PriceSnapshot sn \<Rightarrow>
       if pr_source st = BinanceSpotTrade then
         and_then (sdk_require (ps_observations sn = [] \<and> ps_trades sn \<noteq> []) ''Binance snapshot shape'') (\<lambda>_.
         and_then (snapshot_trades sx None (ps_trades sn)) (\<lambda>_.
         and_then (sdk_require (ps_first_trade_id sn = Some (bt_trade_id (hd (ps_trades sn)))
            \<and> ps_last_trade_id sn = Some (bt_trade_id (last (ps_trades sn)))
            \<and> pf_source_sequence f = Some (bt_trade_id (last (ps_trades sn)))) ''snapshot tail binding'') (\<lambda>_.
         Inr (st\<lparr> pr_latest_trade := Some (last (ps_trades sn)), pr_available := True \<rparr>))))
       else
         and_then (sdk_require (ps_trades sn = []) ''mixed observation snapshot'') (\<lambda>_.
         and_then (observations sx (ps_observations sn) True st) (\<lambda>_.
         and_then (sdk_require (pf_source_sequence f = ob_source_sequence (last (ps_observations sn)))
            ''observation tail binding'') (\<lambda>_.
         Inr (st\<lparr> pr_latest_observation := Some (last (ps_observations sn)), pr_available := True \<rparr>))))
   | TradeDelta delta \<Rightarrow>
       and_then (sdk_require (pr_source st = BinanceSpotTrade \<and> pr_available st) ''trade before snapshot'') (\<lambda>_.
       and_then (of_option (Protocol ''missing trade'') delta) (\<lambda>t.
       and_then (validate_trade sx t) (\<lambda>_.
       and_then (of_option (Protocol ''missing previous trade'') (pr_latest_trade st)) (\<lambda>p.
       and_then (sdk_require (next_trade p t \<and> pf_source_sequence f = Some (bt_trade_id t))
          ''trade ID/time/source binding'') (\<lambda>_.
       Inr (st\<lparr> pr_latest_trade := Some t \<rparr>))))))
   | ObservationDelta xs \<Rightarrow>
       and_then (sdk_require (pr_source st \<noteq> BinanceSpotTrade \<and> pr_available st) ''observations before snapshot'') (\<lambda>_.
       and_then (observations sx xs False st) (\<lambda>_.
       and_then (sdk_require (is_none_or (\<lambda>n. is_some_and (\<lambda>k. k > n) (ob_source_sequence (last xs)))
             (Option.bind (pr_latest_observation st) ob_source_sequence)
           \<and> pf_source_sequence f = ob_source_sequence (last xs)) ''observation sequence'') (\<lambda>_.
       Inr (st\<lparr> pr_latest_observation := Some (last xs) \<rparr>))))
   | StatusPayload phase \<Rightarrow>
       and_then (sdk_require (0 \<le> phase \<and> phase \<le> live_phase) ''unknown source phase'') (\<lambda>_.
       and_then (sdk_require (phase \<noteq> 0) ''missing source phase'') (\<lambda>_.
       Inr (if phase \<noteq> live_phase then st\<lparr> pr_available := False \<rparr> else st)))
   | ErrorPayload code again after \<Rightarrow> Inl (Remote 0 code again after))"

section \<open>One frame\<close>

definition is_snapshot :: "price_payload \<Rightarrow> bool" where
  "is_snapshot payload = (case payload of PriceSnapshot sn \<Rightarrow> True | _ \<Rightarrow> False)"

text \<open>\<open>Inr None\<close> is \<open>Ok(false)\<close>: a publication queued before the initial snapshot, which is ignored.\<close>

definition price_apply :: "sdk_ext \<Rightarrow> price_frame \<Rightarrow> price_state \<Rightarrow> sdk_error + price_state option" where
  "price_apply sx f st =
     and_then (sdk_require (pf_schema_version f = price_schema \<and> pf_source f = source_number (pr_source st)
        \<and> pf_instrument_id f = pr_instrument st \<and> pf_producer_instance_id f \<noteq> [] \<and> pf_stream_id f \<noteq> [])
        ''price schema/source/identity'') (\<lambda>_.
     if is_some_and (\<lambda>s. pf_stream_sequence f \<le> s) (pr_initial_sequence st) then Inr None
     else
       and_then (case pr_sequence st of
           None \<Rightarrow> Inr ()
         | Some previous \<Rightarrow>
             and_then (sdk_require (checked_add1 previous = Some (pf_stream_sequence f)) ''price publication gap'') (\<lambda>_.
             sdk_require (pr_producer st = Some (pf_producer_instance_id f)) ''producer changed without reconnect'')) (\<lambda>_.
       and_then (of_option (Protocol ''missing price payload'') (pf_payload f)) (\<lambda>payload.
       and_then (if is_snapshot payload then Inr ()
         else sdk_require (is_none_or (\<lambda>s. s = pf_stream_id f) (pr_stream_id st)) ''generation requires snapshot'') (\<lambda>_.
       and_then (apply_payload sx f payload st) (\<lambda>st'.
       Inr (Some (st'\<lparr>
         pr_initial_sequence := (if pr_initial_sequence st = None then Some (pf_stream_sequence f) else pr_initial_sequence st),
         pr_sequence := Some (pf_stream_sequence f),
         pr_producer := Some (pf_producer_instance_id f),
         pr_stream_id := Some (pf_stream_id f),
         pr_signed_age_ms := pf_latest_source_age_ms_at_emit f \<rparr>)))))))"

text \<open>What \<open>PriceSubscription::next\<close> makes of a frame: a failure drops the socket and the availability.\<close>

definition price_receive :: "sdk_ext \<Rightarrow> price_frame \<Rightarrow> price_state \<Rightarrow> price_state" where
  "price_receive sx f st = (case price_apply sx f st of
     Inl err \<Rightarrow> st\<lparr> pr_available := False \<rparr>
   | Inr None \<Rightarrow> st
   | Inr (Some st') \<Rightarrow> st')"

end
