(* ===== verification/Sdk_Fanout.thy ===== *)
theory Sdk_Fanout
  imports Sdk_Book
begin

text \<open>
  The bounded local fan-out of the SDK, \<open>sdk/crates/marketcow-sdk/src/fanout.rs\<close>: one producer, at most
  128 consumers with a queue of their own, byte budgets per consumer and per client, and terminal
  reasons that a full queue cannot hide. A consumer record is both ends of its channel: the sender in
  the hub's map (while \<open>fc_attached\<close>) and the receiver its owner holds. Dropping a queued item returns
  its byte credits; waking the producer (\<open>Notify\<close>) is not modelled.
\<close>

section \<open>State\<close>

record 'a fan_consumer =
  fc_queue :: "('a \<times> nat) list"
  fc_bytes :: nat
  fc_terminal :: "string option option"
  fc_attached :: bool
  fc_closed :: bool

record 'a fan =
  fn_consumers :: "(u64, 'a fan_consumer) btree"
  fn_next :: u64
  fn_stopped :: bool
  fn_global :: nat

text \<open>What differs between the two users of the same code: the channel capacity and the error texts.\<close>

record fan_kind =
  fk_capacity :: nat
  fk_consumers :: string
  fk_seed :: string
  fk_identity :: string

definition fanout_kind :: fan_kind where
  "fanout_kind = \<lparr> fk_capacity = 64, fk_consumers = ''market local consumers'', fk_seed = ''market seed queue'',
     fk_identity = ''subscriber identity'' \<rparr>"

definition global_budget :: nat where
  "global_budget = 64 * 1024 * 1024"

definition local_budget :: nat where
  "local_budget = 16 * 1024 * 1024"

definition max_consumers :: nat where
  "max_consumers = 128"

definition fan_new :: "nat \<Rightarrow> 'a fan" where
  "fan_new global = \<lparr> fn_consumers = [], fn_next = 1, fn_stopped = False, fn_global = global \<rparr>"

definition new_consumer :: "'a fan_consumer" where
  "new_consumer = \<lparr> fc_queue = [], fc_bytes = 0, fc_terminal = None, fc_attached = True, fc_closed = False \<rparr>"

definition attached :: "(u64, 'a fan_consumer) btree \<Rightarrow> (u64, 'a fan_consumer) btree" where
  "attached m = filter (\<lambda>(i, c). fc_attached c) m"

section \<open>The producer's side\<close>

definition terminate :: "string option \<Rightarrow> 'a fan_consumer \<Rightarrow> 'a fan_consumer" where
  "terminate reason c = c\<lparr> fc_terminal := Some reason \<rparr>"

definition enqueue :: "nat \<Rightarrow> 'a \<Rightarrow> nat \<Rightarrow> nat \<Rightarrow> 'a fan_consumer \<Rightarrow> bool \<times> nat \<times> 'a fan_consumer" where
  "enqueue capacity value bytes global c =
     (if global + bytes > global_budget then (False, global, terminate (Some ''client_event_byte_budget'') c)
      else if fc_bytes c + bytes > local_budget then (False, global, terminate (Some ''slow_consumer_byte_budget'') c)
      else if length (fc_queue c) \<ge> capacity then (False, global, terminate (Some ''slow_consumer_item_budget'') c)
      else (True, global + bytes, c\<lparr> fc_queue := fc_queue c @ [(value, bytes)], fc_bytes := fc_bytes c + bytes \<rparr>))"

definition fan_attach :: "fan_kind \<Rightarrow> ('a \<times> nat) option \<Rightarrow> 'a fan \<Rightarrow> sdk_error + (u64 \<times> 'a fan)" where
  "fan_attach kind seed st =
     and_then (ensure (\<not> fn_stopped st) Cancelled) (\<lambda>_.
     and_then (ensure (length (attached (fn_consumers st)) < max_consumers) (Limit (fk_consumers kind))) (\<lambda>_.
     and_then (case seed of
         None \<Rightarrow> Inr (fn_global st, new_consumer)
       | Some (value, bytes) \<Rightarrow>
           (case enqueue (fk_capacity kind) value bytes (fn_global st) new_consumer of (ok, global, c) \<Rightarrow>
              if ok then Inr (global, c) else Inl (Limit (fk_seed kind)))) (\<lambda>(global, c).
     and_then (of_option (Limit (fk_identity kind)) (checked_add1 (fn_next st))) (\<lambda>following.
     Inr (fn_next st, st\<lparr> fn_next := following, fn_global := global,
       fn_consumers := bt_insert (fn_next st) c (fn_consumers st) \<rparr>)))))"

fun send_loop :: "nat \<Rightarrow> 'a \<Rightarrow> nat \<Rightarrow> nat \<Rightarrow> (u64, 'a fan_consumer) btree \<Rightarrow> nat \<times> (u64, 'a fan_consumer) btree" where
  "send_loop capacity value bytes global [] = (global, [])"
| "send_loop capacity value bytes global ((i, c) # m) =
     (if fc_attached c
      then (case enqueue capacity value bytes global c of (ok, global', c') \<Rightarrow>
        (case send_loop capacity value bytes global' m of (global'', m') \<Rightarrow>
           (global'', (i, if ok then c' else c'\<lparr> fc_attached := False \<rparr>) # m')))
      else (case send_loop capacity value bytes global m of (global', m') \<Rightarrow> (global', (i, c) # m')))"

definition fan_send :: "fan_kind \<Rightarrow> 'a \<Rightarrow> nat \<Rightarrow> 'a fan \<Rightarrow> 'a fan" where
  "fan_send kind value bytes st =
     (case send_loop (fk_capacity kind) value bytes (fn_global st) (fn_consumers st) of (global, m) \<Rightarrow>
        st\<lparr> fn_consumers := m, fn_global := global \<rparr>)"

definition fan_active :: "'a fan \<Rightarrow> bool \<times> 'a fan" where
  "fan_active st =
     (let stopped = (fn_stopped st \<or> attached (fn_consumers st) = []) in (\<not> stopped, st\<lparr> fn_stopped := stopped \<rparr>))"

definition fan_finish :: "string option \<Rightarrow> 'a fan \<Rightarrow> 'a fan" where
  "fan_finish reason st = st\<lparr> fn_stopped := True,
     fn_consumers := map (\<lambda>(i, c). (i, if fc_attached c then (terminate reason c)\<lparr> fc_attached := False \<rparr> else c)) (fn_consumers st) \<rparr>"

section \<open>The consumer's side\<close>

definition queued_bytes :: "'a fan_consumer \<Rightarrow> nat" where
  "queued_bytes c = sum_list (map snd (fc_queue c))"

definition fan_close :: "u64 \<Rightarrow> 'a fan \<Rightarrow> 'a fan" where
  "fan_close i st = (case bt_get (fn_consumers st) i of
     None \<Rightarrow> st
   | Some c \<Rightarrow> st\<lparr> fn_global := fn_global st - queued_bytes c,
       fn_consumers := bt_insert i (c\<lparr> fc_closed := True, fc_attached := False, fc_queue := [],
         fc_bytes := fc_bytes c - queued_bytes c \<rparr>) (fn_consumers st) \<rparr>)"

text \<open>A call of \<open>next\<close> that has to wait is \<open>Pending\<close>.\<close>

datatype 'a delivery = Pending | Delivered 'a | EndOfStream | Failed string

definition fan_next :: "u64 \<Rightarrow> 'a fan \<Rightarrow> 'a delivery \<times> 'a fan" where
  "fan_next i st = (case bt_get (fn_consumers st) i of
     None \<Rightarrow> (Pending, st)
   | Some c \<Rightarrow>
       if fc_closed c then (EndOfStream, st)
       else (case fc_terminal c of
           Some (Some err) \<Rightarrow> (Failed err, fan_close i st)
         | Some None \<Rightarrow> (EndOfStream, fan_close i st)
         | None \<Rightarrow>
             if \<not> fc_attached c then (EndOfStream, fan_close i st)
             else (case fc_queue c of
                 [] \<Rightarrow> (Pending, st)
               | (value, bytes) # queue \<Rightarrow>
                   (Delivered value, st\<lparr> fn_global := fn_global st - bytes,
                      fn_consumers := bt_insert i (c\<lparr> fc_queue := queue, fc_bytes := fc_bytes c - bytes \<rparr>) (fn_consumers st) \<rparr>))))"

end
