(* ===== verification/Sdk_Shared_Price.thy ===== *)
theory Sdk_Shared_Price
  imports Sdk_Price Sdk_Fanout
begin

text \<open>
  One source connection shared by many consumers, \<open>sdk/crates/marketcow-sdk/src/shared_price.rs\<close> with the
  delays of \<open>retry.rs\<close>. The owner loop is a function of what its socket and its timers yield; the sizes of
  encoded frames and the texts of errors are parameters, the random part of a delay is an argument. A failed
  read clears the seed and broadcasts in one step: a consumer that joins between the two lock sections has
  no seed and gets the broadcast, like one that joined before the first frame.
\<close>

datatype price_delivery = PriceFrame price_frame bool | Recovering string u64

record price_ext =
  pe_sdk :: sdk_ext
  pe_frame_len :: "price_frame \<Rightarrow> nat"
  pe_error_text :: "sdk_error \<Rightarrow> string"

section \<open>Retries\<close>

definition saturating_add :: "u64 \<Rightarrow> u64 \<Rightarrow> u64" where
  "saturating_add a b = (if unat a + unat b < 2 ^ 64 then a + b else - 1)"

definition retry_minimum :: "sdk_error option \<Rightarrow> u64" where
  "retry_minimum err = unwrap_or 0 (case err of
     Some (Remote _ _ _ after) \<Rightarrow> after
   | Some (WebSocket (WsHttp _ after)) \<Rightarrow> after
   | _ \<Rightarrow> None)"

definition delay_ms :: "u64 \<Rightarrow> sdk_error option \<Rightarrow> u64 \<Rightarrow> u64" where
  "delay_ms base err sample = max (saturating_add base (sample mod (base div 4 + 1))) (retry_minimum err)"

definition terminal_error :: "sdk_error \<Rightarrow> bool" where
  "terminal_error err = (case err of
     Remote status _ again _ \<Rightarrow> status \<in> {401, 403, 404, 426, 501} \<or> \<not> again
   | WebSocket (WsHttp status _) \<Rightarrow> status \<in> {400, 401, 403, 404, 426, 501}
   | Decode _ \<Rightarrow> True
   | WebSocket WsCapacity \<Rightarrow> True
   | Protocol message \<Rightarrow> message \<in> {''price schema/source/identity'', ''market frame identity/sequence''}
   | Configuration _ \<Rightarrow> True
   | _ \<Rightarrow> False)"

section \<open>The hub\<close>

definition price_kind :: fan_kind where
  "price_kind = \<lparr> fk_capacity = 4096, fk_consumers = ''source local consumers'', fk_seed = ''price seed queue'',
     fk_identity = ''subscription identity'' \<rparr>"

record price_hub =
  ph_fan :: "price_delivery fan"
  ph_seed :: "price_delivery option"

definition hub_new :: "nat \<Rightarrow> price_hub" where
  "hub_new global = \<lparr> ph_fan = fan_new global, ph_seed = None \<rparr>"

definition seed_bytes :: "price_ext \<Rightarrow> price_delivery \<Rightarrow> nat" where
  "seed_bytes pe seed = (case seed of PriceFrame f _ \<Rightarrow> pe_frame_len pe f | _ \<Rightarrow> 128)"

definition event_bytes :: "price_ext \<Rightarrow> price_delivery \<Rightarrow> nat" where
  "event_bytes pe event = (case event of PriceFrame f _ \<Rightarrow> pe_frame_len pe f | Recovering reason _ \<Rightarrow> length reason + 32)"

definition hub_attach :: "price_ext \<Rightarrow> price_hub \<Rightarrow> sdk_error + (u64 \<times> price_hub)" where
  "hub_attach pe hub =
     and_then (fan_attach price_kind (map_option (\<lambda>s. (s, seed_bytes pe s)) (ph_seed hub)) (ph_fan hub)) (\<lambda>(i, fan).
     Inr (i, hub\<lparr> ph_fan := fan \<rparr>))"

definition broadcast :: "price_ext \<Rightarrow> price_delivery \<Rightarrow> price_delivery option \<Rightarrow> price_hub \<Rightarrow> price_hub" where
  "broadcast pe event seed hub =
     hub\<lparr> ph_seed := opt_or seed (ph_seed hub), ph_fan := fan_send price_kind event (event_bytes pe event) (ph_fan hub) \<rparr>"

definition hub_finish :: "string option \<Rightarrow> price_hub \<Rightarrow> price_hub" where
  "hub_finish reason hub = hub\<lparr> ph_fan := fan_finish reason (ph_fan hub) \<rparr>"

section \<open>The owner\<close>

record price_owner =
  po_source :: price_source
  po_stream :: "price_state option"
  po_hub :: price_hub
  po_delay :: u64
  po_done :: bool

definition owner_start :: "price_source \<Rightarrow> nat \<Rightarrow> price_owner" where
  "owner_start source global = \<lparr> po_source = source, po_stream = None, po_hub = hub_new global, po_delay = 250, po_done = False \<rparr>"

text \<open>The snapshot of one point a joining consumer starts from.\<close>

definition option_list :: "'a option \<Rightarrow> 'a list" where
  "option_list x = (case x of None \<Rightarrow> [] | Some a \<Rightarrow> [a])"

definition seed_frame :: "price_frame \<Rightarrow> price_state \<Rightarrow> price_frame" where
  "seed_frame f st = (if pr_available st
     then f\<lparr> pf_payload := Some (PriceSnapshot \<lparr> ps_trades = option_list (pr_latest_trade st),
        ps_observations = option_list (pr_latest_observation st), ps_truncated = True, ps_retained_count = 1,
        ps_first_trade_id = map_option bt_trade_id (pr_latest_trade st),
        ps_last_trade_id = map_option bt_trade_id (pr_latest_trade st) \<rparr>) \<rparr>
     else f)"

definition owner_failed :: "price_ext \<Rightarrow> sdk_error \<Rightarrow> u64 \<Rightarrow> price_owner \<Rightarrow> price_owner" where
  "owner_failed pe err sample own =
     (if terminal_error err
      then own\<lparr> po_hub := hub_finish (Some (pe_error_text pe err)) (po_hub own), po_stream := None, po_done := True \<rparr>
      else let hub = (if po_stream own = None then po_hub own else (po_hub own)\<lparr> ph_seed := None \<rparr>);
               wait_ms = delay_ms (po_delay own) (Some err) sample
           in own\<lparr> po_hub := broadcast pe (Recovering (pe_error_text pe err) wait_ms) None hub, po_stream := None,
                po_delay := min (po_delay own * 2) 30000 \<rparr>)"

text \<open>\<open>healthy\<close>: ten seconds have passed since the source became available.\<close>

definition owner_frame :: "price_ext \<Rightarrow> price_frame \<Rightarrow> bool \<Rightarrow> u64 \<Rightarrow> price_owner \<Rightarrow> price_owner" where
  "owner_frame pe f healthy sample own = (case po_stream own of
     None \<Rightarrow> own
   | Some st \<Rightarrow> (case price_apply (pe_sdk pe) f st of
       Inl err \<Rightarrow> owner_failed pe err sample own
     | Inr None \<Rightarrow> own
     | Inr (Some st') \<Rightarrow>
         own\<lparr> po_stream := Some st',
           po_delay := (if pr_available st' \<and> healthy then 250 else po_delay own),
           po_hub := broadcast pe (PriceFrame f (pr_available st'))
             (Some (PriceFrame (seed_frame f st') (pr_available st'))) (po_hub own) \<rparr>))"

text \<open>The check before every turn of the loop: no consumer is left, or the client is closed.\<close>

definition owner_check :: "bool \<Rightarrow> price_owner \<Rightarrow> price_owner" where
  "owner_check client_closed own =
     (case fan_active (ph_fan (po_hub own)) of (active, fan) \<Rightarrow>
        if \<not> active \<or> client_closed
        then own\<lparr> po_hub := hub_finish None ((po_hub own)\<lparr> ph_fan := fan \<rparr>), po_stream := None, po_done := True \<rparr>
        else own\<lparr> po_hub := (po_hub own)\<lparr> ph_fan := fan \<rparr> \<rparr>)"

definition owner_connect :: "(sdk_error + unit) \<Rightarrow> u64 \<Rightarrow> price_ext \<Rightarrow> price_owner \<Rightarrow> price_owner" where
  "owner_connect result sample pe own = (case po_stream own of
     Some st \<Rightarrow> own
   | None \<Rightarrow> (case result of
       Inl err \<Rightarrow> owner_failed pe err sample own
     | Inr _ \<Rightarrow> own\<lparr> po_stream := Some (reset_transport (price_start (po_source own))) \<rparr>))"

section \<open>Runs\<close>

datatype price_op =
    Connect "sdk_error + unit" u64
  | FrameArrived price_frame bool u64
  | SocketFailed sdk_error u64
  | Check bool
  | Join
  | Next u64
  | Leave u64

definition owner_op :: "price_ext \<Rightarrow> price_op \<Rightarrow> price_owner \<Rightarrow> price_owner" where
  "owner_op pe turn own = (case turn of
     Connect result sample \<Rightarrow> owner_connect result sample pe own
   | FrameArrived f healthy sample \<Rightarrow> owner_frame pe f healthy sample own
   | SocketFailed err sample \<Rightarrow> (if po_stream own = None then own else owner_failed pe err sample own)
   | Check client_closed \<Rightarrow> owner_check client_closed own
   | _ \<Rightarrow> own)"

text \<open>One operation of the owner or of a consumer, with what a consumer was delivered.\<close>

definition with_fan :: "price_delivery fan \<Rightarrow> price_owner \<Rightarrow> price_owner" where
  "with_fan fan own = own\<lparr> po_hub := (po_hub own)\<lparr> ph_fan := fan \<rparr> \<rparr>"

definition price_op_step ::
  "price_ext \<Rightarrow> price_op \<Rightarrow> price_owner \<Rightarrow> price_owner \<times> (u64 \<times> price_delivery delivery) option" where
  "price_op_step pe turn own = (case turn of
     Join \<Rightarrow> ((case hub_attach pe (po_hub own) of Inl _ \<Rightarrow> own | Inr (i, hub) \<Rightarrow> own\<lparr> po_hub := hub \<rparr>), None)
   | Next i \<Rightarrow> (case fan_next i (ph_fan (po_hub own)) of (d, fan) \<Rightarrow> (with_fan fan own, Some (i, d)))
   | Leave i \<Rightarrow> (with_fan (fan_close i (ph_fan (po_hub own))) own, None)
   | _ \<Rightarrow> ((if po_done own then own else owner_op pe turn own), None))"

fun price_run ::
  "price_ext \<Rightarrow> price_op list \<Rightarrow> price_owner \<Rightarrow> price_owner \<times> (u64 \<times> price_delivery delivery) list" where
  "price_run pe [] own = (own, [])"
| "price_run pe (turn # turns) own =
     (case price_op_step pe turn own of (own', out) \<Rightarrow>
        (case price_run pe turns own' of (own'', outs) \<Rightarrow> (own'', option_list out @ outs)))"

end
