(* ===== verification/Sdk_Fanout_Safety.thy ===== *)
theory Sdk_Fanout_Safety
  imports Sdk_Fanout Map_Sums
begin

text \<open>
  The accounting of the fan-out: every queued byte is charged once to its consumer and once to the
  client, within the budgets, and every operation keeps it so.
\<close>

section \<open>The invariant\<close>

definition consumer_ok :: "nat \<Rightarrow> 'a fan_consumer \<Rightarrow> bool" where
  "consumer_ok capacity c \<longleftrightarrow> fc_bytes c = queued_bytes c \<and> fc_bytes c \<le> local_budget
     \<and> length (fc_queue c) \<le> capacity
     \<and> (fc_attached c \<longrightarrow> \<not> fc_closed c \<and> fc_terminal c = None) \<and> (fc_closed c \<longrightarrow> fc_queue c = [])"

definition fan_ok :: "nat \<Rightarrow> nat \<Rightarrow> 'a fan \<Rightarrow> bool" where
  "fan_ok capacity others st \<longleftrightarrow> bt_wf (fn_consumers st)
     \<and> (\<forall>(i, c) \<in> set (fn_consumers st). consumer_ok capacity c \<and> i < fn_next st)
     \<and> fn_global st = others + bt_sum queued_bytes (fn_consumers st) \<and> fn_global st \<le> global_budget
     \<and> length (attached (fn_consumers st)) \<le> max_consumers"

lemma new_consumer_ok [simp]: "consumer_ok capacity new_consumer"
  by (simp add: consumer_ok_def new_consumer_def queued_bytes_def)

lemma enqueue_cases:
  assumes "consumer_ok capacity c" and "fc_attached c" and "global \<le> global_budget"
  shows "case enqueue capacity item bytes global c of
      (True, global', c') \<Rightarrow> consumer_ok capacity c' \<and> global' = global + bytes \<and> global' \<le> global_budget
        \<and> queued_bytes c' = queued_bytes c + bytes
        \<and> c' = c\<lparr> fc_queue := fc_queue c @ [(item, bytes)], fc_bytes := fc_bytes c + bytes \<rparr>
    | (False, global', c') \<Rightarrow> global' = global \<and> (\<exists>reason. c' = terminate (Some reason) c)"
  using assms by (auto simp: enqueue_def consumer_ok_def queued_bytes_def)

lemma terminate_queue [simp]: "queued_bytes (terminate reason c) = queued_bytes c"
  "queued_bytes (c\<lparr> fc_attached := b \<rparr>) = queued_bytes c"
  by (simp_all add: terminate_def queued_bytes_def)

lemma detached_ok: "consumer_ok capacity c \<Longrightarrow> consumer_ok capacity ((terminate reason c)\<lparr> fc_attached := False \<rparr>)"
  by (simp add: consumer_ok_def terminate_def queued_bytes_def)

lemma send_loop_ok:
  assumes "send_loop capacity value bytes global m = (global', m')"
    and "\<forall>(i, c) \<in> set m. consumer_ok capacity c" and "global \<le> global_budget"
  shows "map fst m' = map fst m \<and> (\<forall>(i, c) \<in> set m'. consumer_ok capacity c) \<and> global' \<le> global_budget
    \<and> global' + bt_sum queued_bytes m = global + bt_sum queued_bytes m'
    \<and> length (attached m') \<le> length (attached m)"
  using assms
proof (induction m arbitrary: global global' m')
  case (Cons x m)
  obtain i c where x: "x = (i, c)" by fastforce
  show ?case
  proof (cases "fc_attached c")
    case False
    obtain m'' where "send_loop capacity value bytes global m = (global', m'')" "m' = (i, c) # m''"
      using Cons.prems(1) False by (auto simp: x split: prod.splits)
    with Cons.IH [OF this(1)] Cons.prems False show ?thesis by (auto simp: x attached_def)
  next
    case True
    obtain ok g c' where e: "enqueue capacity value bytes global c = (ok, g, c')" by (metis prod_cases3)
    then obtain m'' where m'': "send_loop capacity value bytes g m = (global', m'')"
      "m' = (i, if ok then c' else c'\<lparr> fc_attached := False \<rparr>) # m''"
      using Cons.prems(1) True by (auto simp: x split: prod.splits)
    have c: "consumer_ok capacity c" using Cons.prems(2) by (simp add: x)
    from enqueue_cases [OF c True Cons.prems(3), where item = "value" and bytes = bytes] have
      "g \<le> global_budget" "consumer_ok capacity (if ok then c' else c'\<lparr> fc_attached := False \<rparr>)"
      "g + queued_bytes c = global + queued_bytes c'"
      using Cons.prems(3) c by (auto simp: e detached_ok split: bool.splits)
    with Cons.IH [OF m''(1)] m''(2) Cons.prems(2) True show ?thesis
      by (auto simp: x attached_def)
  qed
qed simp

section \<open>Operations\<close>

lemma fan_new_ok: "global \<le> global_budget \<Longrightarrow> fan_ok capacity global (fan_new global)"
  by (simp add: fan_ok_def fan_new_def attached_def max_consumers_def)

lemma fan_send_ok:
  assumes "fan_ok (fk_capacity kind) others st"
  shows "fan_ok (fk_capacity kind) others (fan_send kind value bytes st)"
proof -
  obtain global m where l: "send_loop (fk_capacity kind) value bytes (fn_global st) (fn_consumers st) = (global, m)" by fastforce
  have k: "map fst m = map fst (fn_consumers st)" and m: "\<forall>(i, c) \<in> set m. consumer_ok (fk_capacity kind) c"
    "global \<le> global_budget" "global + bt_sum queued_bytes (fn_consumers st) = fn_global st + bt_sum queued_bytes m"
    "length (attached m) \<le> length (attached (fn_consumers st))"
    using send_loop_ok [OF l] assms by (auto simp: fan_ok_def)
  have "i < fn_next st" if "(i, c) \<in> set m" for i c
  proof -
    have "i \<in> set (map fst m)" using that by force
    then show ?thesis using assms unfolding k by (auto simp: fan_ok_def)
  qed
  moreover have "fan_send kind value bytes st = st\<lparr> fn_consumers := m, fn_global := global \<rparr>"
    by (simp add: fan_send_def l)
  ultimately show ?thesis using assms m k by (auto simp: fan_ok_def bt_wf_def)
qed

lemma attached_insert_length:
  "\<forall>k \<in> fst ` set m. k < i \<Longrightarrow> attached (bt_insert i c m) = attached m @ (if fc_attached c then [(i, c)] else [])"
  by (simp add: bt_insert_last attached_def)

lemma fan_attach_ok:
  assumes ok: "fan_ok (fk_capacity kind) others st" and "fan_attach kind seed st = Inr (i, st')"
  shows "fan_ok (fk_capacity kind) others st' \<and> i = fn_next st"
proof -
  from assms(2) obtain global c where
    seed: "(case seed of None \<Rightarrow> Inr (fn_global st, new_consumer)
       | Some (value, bytes) \<Rightarrow>
           (case enqueue (fk_capacity kind) value bytes (fn_global st) new_consumer of (ok, global, c) \<Rightarrow>
              if ok then Inr (global, c) else Inl (Limit (fk_seed kind)))) = Inr (global, c)"
    and room: "length (attached (fn_consumers st)) < max_consumers" and next_id: "fn_next st \<noteq> - 1"
    and st': "st' = st\<lparr> fn_next := fn_next st + 1, fn_global := global, fn_consumers := bt_insert (fn_next st) c (fn_consumers st) \<rparr>"
    and i: "i = fn_next st"
    by (auto simp: fan_attach_def and_then_Inr_iff)
  have c: "consumer_ok (fk_capacity kind) c" "global = fn_global st + queued_bytes c" "global \<le> global_budget"
  proof -
    have g: "fn_global st \<le> global_budget" using ok by (simp add: fan_ok_def)
    have "consumer_ok (fk_capacity kind) c \<and> global = fn_global st + queued_bytes c \<and> global \<le> global_budget"
    proof (cases seed)
      case None
      with seed g show ?thesis by (auto simp: new_consumer_def queued_bytes_def consumer_ok_def)
    next
      case (Some x)
      then obtain item bytes where "seed = Some (item, bytes)" by (cases x) auto
      with seed have e: "enqueue (fk_capacity kind) item bytes (fn_global st) new_consumer = (True, global, c)"
        by (auto split: prod.splits if_splits)
      then show ?thesis
        by (auto simp: enqueue_def new_consumer_def consumer_ok_def queued_bytes_def split: if_splits)
    qed
    then show "consumer_ok (fk_capacity kind) c" "global = fn_global st + queued_bytes c" "global \<le> global_budget" by simp_all
  qed
  have old: "\<forall>k \<in> fst ` set (fn_consumers st). k < fn_next st" using ok by (auto simp: fan_ok_def)
  have up: "fn_next st < fn_next st + 1" using unat_add1 [OF next_id] by (simp add: word_less_nat_alt)
  have "k < fn_next st + 1" if "k < fn_next st" for k using that up by (rule order.strict_trans)
  then have "\<forall>(k, d) \<in> set (bt_insert (fn_next st) c (fn_consumers st)). consumer_ok (fk_capacity kind) d \<and> k < fn_next st + 1"
    using ok c(1) up by (auto simp: bt_insert_last [OF old] fan_ok_def)
  moreover have "bt_sum queued_bytes (bt_insert (fn_next st) c (fn_consumers st)) = bt_sum queued_bytes (fn_consumers st) + queued_bytes c"
    by (simp add: bt_insert_last [OF old] bt_sum_def)
  ultimately show ?thesis
    using ok c room by (simp add: fan_ok_def st' i attached_insert_length [OF old])
qed

lemma fan_update_ok:
  assumes ok: "fan_ok capacity others st" and c: "bt_get (fn_consumers st) i = Some c"
    and c': "consumer_ok capacity c'" "queued_bytes c' + n = queued_bytes c" "fc_attached c' \<Longrightarrow> fc_attached c"
  shows "fan_ok capacity others (st\<lparr> fn_global := fn_global st - n, fn_consumers := bt_insert i c' (fn_consumers st) \<rparr>)"
proof -
  let ?m = "fn_consumers st"
  have wf: "bt_wf ?m" using ok by (simp add: fan_ok_def)
  have sum: "bt_sum queued_bytes (bt_insert i c' ?m) + n = bt_sum queued_bytes ?m"
    using bt_sum_insert [OF wf, of queued_bytes i c'] c c'(2) by simp
  have "bt_sum (\<lambda>c. if fc_attached c then 1 else 0) (bt_insert i c' ?m) \<le> bt_sum (\<lambda>c. if fc_attached c then 1 else 0) ?m"
    using bt_sum_insert [OF wf, of "\<lambda>c. if fc_attached c then 1 else 0" i c'] c c'(3) by (auto split: if_splits)
  moreover have "bt_sum (\<lambda>c. if fc_attached c then 1 else 0) m = length (attached m)" for m :: "(u64, 'a fan_consumer) btree"
    by (induction m) (auto simp: attached_def)
  ultimately have "length (attached (bt_insert i c' ?m)) \<le> max_consumers" using ok by (simp add: fan_ok_def)
  moreover have "\<forall>(k, d) \<in> set (bt_insert i c' ?m). consumer_ok capacity d \<and> k < fn_next st"
  proof (intro ballI case_prodI2 conjI)
    fix x k d assume x: "x \<in> set (bt_insert i c' ?m)" "x = (k, d)"
    then have d: "if k = i then d = c' else (k, d) \<in> set ?m"
      using bt_get_iff [OF bt_wf_insert [OF wf], of i c' k d] bt_get_iff [OF wf, of k d] by (auto split: if_splits)
    have "(i, c) \<in> set ?m" using c by (rule bt_get_in_set)
    with ok d c'(1) show "consumer_ok capacity d" "k < fn_next st" by (auto simp: fan_ok_def split: if_splits)
  qed
  moreover have "fn_global st - n = others + bt_sum queued_bytes (bt_insert i c' ?m)"
    using ok sum unfolding fan_ok_def by linarith
  moreover have "fn_global st - n \<le> global_budget" using ok unfolding fan_ok_def by linarith
  ultimately show ?thesis using wf by (simp add: fan_ok_def)
qed

lemma fan_close_ok:
  assumes ok: "fan_ok capacity others st"
  shows "fan_ok capacity others (fan_close i st)"
proof (cases "bt_get (fn_consumers st) i")
  case (Some c)
  have "(i, c) \<in> set (fn_consumers st)" using Some by (rule bt_get_in_set)
  with ok have "consumer_ok capacity c" by (auto simp: fan_ok_def)
  then have "fan_ok capacity others (st\<lparr> fn_global := fn_global st - queued_bytes c,
      fn_consumers := bt_insert i (c\<lparr> fc_closed := True, fc_attached := False, fc_queue := [],
         fc_bytes := fc_bytes c - queued_bytes c \<rparr>) (fn_consumers st) \<rparr>)"
    by (intro fan_update_ok [OF ok Some]) (auto simp: consumer_ok_def queued_bytes_def)
  then show ?thesis by (simp add: fan_close_def Some)
qed (simp add: fan_close_def ok)

lemma fan_next_ok:
  assumes ok: "fan_ok capacity others st"
  shows "fan_ok capacity others (snd (fan_next i st))"
proof (cases "bt_get (fn_consumers st) i")
  case (Some c)
  have "(i, c) \<in> set (fn_consumers st)" using Some by (rule bt_get_in_set)
  with ok have c: "consumer_ok capacity c" by (auto simp: fan_ok_def)
  show ?thesis
  proof (cases "fc_queue c")
    case (Cons x queue)
    obtain item bytes where x: "x = (item, bytes)" by fastforce
    have "fan_ok capacity others (st\<lparr> fn_global := fn_global st - bytes,
        fn_consumers := bt_insert i (c\<lparr> fc_queue := queue, fc_bytes := fc_bytes c - bytes \<rparr>) (fn_consumers st) \<rparr>)"
      by (rule fan_update_ok [OF ok Some]) (use c in \<open>auto simp: consumer_ok_def queued_bytes_def Cons x\<close>)
    then show ?thesis
      using ok fan_close_ok [OF ok] by (simp add: fan_next_def Some Cons x split: option.split)
  next
    case Nil
    then show ?thesis
      using ok fan_close_ok [OF ok] by (simp add: fan_next_def Some split: option.split)
  qed
qed (simp add: fan_next_def ok)

lemma fan_active_ok: "fan_ok capacity others st \<Longrightarrow> fan_ok capacity others (snd (fan_active st))"
  by (simp add: fan_ok_def fan_active_def Let_def)

lemma fan_finish_ok:
  assumes "fan_ok capacity others st"
  shows "fan_ok capacity others (fan_finish reason st)"
proof -
  let ?f = "\<lambda>(i, c). (i, if fc_attached c then (terminate reason c)\<lparr> fc_attached := False \<rparr> else c)"
  have "bt_sum queued_bytes (map ?f m) = bt_sum queued_bytes m" "attached (map ?f m) = []" "map fst (map ?f m) = map fst m"
    for m :: "(u64, 'a fan_consumer) btree"
    by (induction m) (auto simp: attached_def terminate_def queued_bytes_def split: if_splits)
  moreover from assms have "\<forall>(i, c) \<in> set (fn_consumers st). consumer_ok capacity c \<and> i < fn_next st" by (simp add: fan_ok_def)
  ultimately show ?thesis using assms
    by (auto simp: fan_ok_def fan_finish_def bt_wf_def detached_ok simp del: map_map)
qed

section \<open>Deliveries\<close>

text \<open>A consumer still attached, and what it has been sent and not yet taken.\<close>

definition live :: "u64 \<Rightarrow> 'a fan \<Rightarrow> bool" where
  "live i st \<longleftrightarrow> (\<exists>c. bt_get (fn_consumers st) i = Some c \<and> fc_attached c)"

definition pending :: "u64 \<Rightarrow> 'a fan \<Rightarrow> 'a list" where
  "pending i st = (case bt_get (fn_consumers st) i of None \<Rightarrow> [] | Some c \<Rightarrow> map fst (fc_queue c))"

lemma send_loop_get:
  assumes "send_loop capacity item bytes global m = (global', m')"
    and "bt_get m' i = Some c'" and "fc_attached c'"
  shows "\<exists>c. bt_get m i = Some c \<and> fc_attached c \<and> fc_queue c' = fc_queue c @ [(item, bytes)]"
  using assms
proof (induction m arbitrary: global m')
  case (Cons x m)
  obtain k c where x: "x = (k, c)" by fastforce
  obtain ok g c1 where e: "enqueue capacity item bytes global c = (ok, g, c1)" by (metis prod_cases3)
  obtain m'' where l: "send_loop capacity item bytes (if fc_attached c then g else global) m = (global', m'')"
    and m': "m' = (k, if fc_attached c then if ok then c1 else c1\<lparr> fc_attached := False \<rparr> else c) # m''"
    using Cons.prems(1) by (auto simp: x e split: if_splits prod.splits)
  show ?case
  proof (cases "i = k")
    case True
    with Cons.prems(2,3) m' e show ?thesis
      by (auto simp: x bt_get_Cons enqueue_def terminate_def split: if_splits)
  next
    case False
    with Cons.IH [OF l] Cons.prems(2,3) m' show ?thesis by (simp add: x bt_get_Cons)
  qed
qed (simp add: bt_get_def)

lemma live_send:
  assumes "live i (fan_send kind item bytes st)"
  shows "live i st \<and> pending i (fan_send kind item bytes st) = pending i st @ [item]"
proof -
  obtain g m where l: "send_loop (fk_capacity kind) item bytes (fn_global st) (fn_consumers st) = (g, m)" by fastforce
  with assms obtain c' where c': "bt_get m i = Some c'" "fc_attached c'" by (auto simp: live_def fan_send_def)
  from send_loop_get [OF l this] c' show ?thesis by (auto simp: live_def pending_def fan_send_def l)
qed

lemma live_attach:
  assumes "fan_attach kind seed st = Inr (j, st')"
  shows "live j st' \<and> pending j st' = (case seed of None \<Rightarrow> [] | Some (item, bytes) \<Rightarrow> [item])"
    and "i \<noteq> j \<Longrightarrow> live i st' = live i st \<and> pending i st' = pending i st"
  using assms
  by (auto simp: fan_attach_def and_then_Inr_iff live_def pending_def enqueue_def new_consumer_def
      split: option.splits if_splits prod.splits)

lemma live_close: "live i (fan_close j st) \<Longrightarrow> i \<noteq> j \<and> live i st \<and> pending i (fan_close j st) = pending i st"
  by (cases "bt_get (fn_consumers st) j") (auto simp: fan_close_def live_def pending_def split: if_splits)

lemma live_next:
  assumes "live i (snd (fan_next j st))"
  shows "live i st \<and> (case fst (fan_next j st) of
      Delivered item \<Rightarrow> pending j st = item # pending j (snd (fan_next j st))
        \<and> (i \<noteq> j \<longrightarrow> pending i (snd (fan_next j st)) = pending i st)
    | _ \<Rightarrow> pending i (snd (fan_next j st)) = pending i st)"
proof -
  have closed: "live i st \<and> pending i (fan_close j st) = pending i st" if "live i (fan_close j st)"
    using live_close [OF that] by simp
  show ?thesis
    using assms closed unfolding fan_next_def
    by (auto split: option.splits if_splits list.splits) (auto simp: live_def pending_def split: if_splits)
qed

lemma live_active: "live i (snd (fan_active st)) = live i st" "pending i (snd (fan_active st)) = pending i st"
  by (simp_all add: fan_active_def Let_def live_def pending_def)

lemma live_finish: "\<not> live i (fan_finish reason st)"
proof -
  have "bt_get (map (\<lambda>(i, c). (i, if fc_attached c then (terminate reason c)\<lparr> fc_attached := False \<rparr> else c)) m) i = Some c
    \<Longrightarrow> \<not> fc_attached c" for m :: "(u64, 'a fan_consumer) btree" and c
    by (induction m) (auto simp: bt_get_Cons bt_get_def split: if_splits)
  then show ?thesis by (auto simp: live_def fan_finish_def)
qed

end
