(* ===== verification/Sdk_Shared_Price_Theorems.thy ===== *)
theory Sdk_Shared_Price_Theorems
  imports Sdk_Shared_Price Sdk_Fanout_Safety
begin

text \<open>
  A consumer of a shared price source that applies what it is delivered keeps the state of the owner,
  whenever it joined and however often the source was reconnected.
\<close>

section \<open>The tail of a source\<close>

definition observation_ok :: "sdk_ext \<Rightarrow> observation \<Rightarrow> bool" where
  "observation_ok sx x \<longleftrightarrow> observation_rows sx True None 0 None [x] = Inr ()"

text \<open>What an accepted prefix of a stream says of the latest value, and of the sequence numbers.\<close>

definition tail_ok :: "sdk_ext \<Rightarrow> price_state \<Rightarrow> bool" where
  "tail_ok sx st \<longleftrightarrow> pr_instrument st = price_instrument (pr_source st)
     \<and> (pr_source st = BinanceSpotTrade \<longrightarrow> pr_latest_observation st = None
          \<and> (pr_available st \<longrightarrow> (\<exists>t. pr_latest_trade st = Some t \<and> validate_trade sx t = Inr ())))
     \<and> (pr_source st \<noteq> BinanceSpotTrade \<longrightarrow> pr_latest_trade st = None
          \<and> (pr_available st \<longrightarrow> (\<exists>x. pr_latest_observation st = Some x \<and> observation_ok sx x)))
     \<and> (pr_initial_sequence st = None \<longleftrightarrow> pr_sequence st = None)
     \<and> (\<forall>k s. pr_initial_sequence st = Some k \<longrightarrow> pr_sequence st = Some s \<longrightarrow> k \<le> s)"

lemma snapshot_trades_last: "snapshot_trades sx p ts = Inr () \<Longrightarrow> ts \<noteq> [] \<Longrightarrow> validate_trade sx (last ts) = Inr ()"
  by (induction ts arbitrary: p) (auto simp: and_then_Inr_iff)

lemma observation_rows_last:
  "observation_rows sx snapshot s i p xs = Inr () \<Longrightarrow> xs \<noteq> [] \<Longrightarrow> observation_ok sx (last xs)"
  by (induction xs arbitrary: i p) (auto simp: and_then_Inr_iff observation_ok_def)

lemma observations_last: "observations sx xs snapshot st = Inr () \<Longrightarrow> xs \<noteq> [] \<and> observation_ok sx (last xs)"
  by (auto simp: observations_def and_then_Inr_iff dest: observation_rows_last)

lemma start_ok: "tail_ok sx (price_start source)" "tail_ok sx (reset_transport (price_start source))"
  by (simp_all add: tail_ok_def price_start_def reset_transport_def)

lemma reset_start [simp]: "reset_transport (price_start source) = price_start source"
  by (simp add: reset_transport_def price_start_def)

text \<open>What an accepted frame has passed.\<close>

lemma price_applyE:
  assumes "price_apply sx f st = Inr (Some st')"
  obtains payload st1 where
    "pf_schema_version f = price_schema" "pf_source f = source_number (pr_source st)" "pf_instrument_id f = pr_instrument st"
    "pf_producer_instance_id f \<noteq> []" "pf_stream_id f \<noteq> []"
    "\<And>k. pr_initial_sequence st = Some k \<Longrightarrow> k < pf_stream_sequence f"
    "\<And>s. pr_sequence st = Some s \<Longrightarrow> s \<noteq> - 1 \<and> pf_stream_sequence f = s + 1 \<and> pr_producer st = Some (pf_producer_instance_id f)"
    "pf_payload f = Some payload" "apply_payload sx f payload st = Inr st1"
    "is_snapshot payload \<or> is_none_or (\<lambda>s. s = pf_stream_id f) (pr_stream_id st)"
    "st' = st1\<lparr> pr_initial_sequence := (if pr_initial_sequence st = None then Some (pf_stream_sequence f) else pr_initial_sequence st),
       pr_sequence := Some (pf_stream_sequence f), pr_producer := Some (pf_producer_instance_id f),
       pr_stream_id := Some (pf_stream_id f), pr_signed_age_ms := pf_latest_source_age_ms_at_emit f \<rparr>"
proof -
  from assms have ignored: "\<not> is_some_and (\<lambda>s. pf_stream_sequence f \<le> s) (pr_initial_sequence st)"
    and head: "pf_schema_version f = price_schema" "pf_source f = source_number (pr_source st)"
      "pf_instrument_id f = pr_instrument st" "pf_producer_instance_id f \<noteq> []" "pf_stream_id f \<noteq> []"
    by (auto simp: price_apply_def and_then_Inr_iff split: if_splits)
  with assms obtain payload st1 where rest:
    "(case pr_sequence st of None \<Rightarrow> Inr () | Some previous \<Rightarrow>
       and_then (sdk_require (checked_add1 previous = Some (pf_stream_sequence f)) ''price publication gap'') (\<lambda>_.
         sdk_require (pr_producer st = Some (pf_producer_instance_id f)) ''producer changed without reconnect'')) = Inr ()"
    and p: "pf_payload f = Some payload" "apply_payload sx f payload st = Inr st1"
      "is_snapshot payload \<or> is_none_or (\<lambda>s. s = pf_stream_id f) (pr_stream_id st)"
      "st' = st1\<lparr> pr_initial_sequence := (if pr_initial_sequence st = None then Some (pf_stream_sequence f) else pr_initial_sequence st),
       pr_sequence := Some (pf_stream_sequence f), pr_producer := Some (pf_producer_instance_id f),
       pr_stream_id := Some (pf_stream_id f), pr_signed_age_ms := pf_latest_source_age_ms_at_emit f \<rparr>"
    by (simp add: price_apply_def and_then_Inr_iff) (force split: if_splits)
  have new: "\<And>k. pr_initial_sequence st = Some k \<Longrightarrow> k < pf_stream_sequence f"
    using ignored by (simp add: is_some_and_def not_le)
  have gap: "s \<noteq> - 1 \<and> pf_stream_sequence f = s + 1 \<and> pr_producer st = Some (pf_producer_instance_id f)"
    if "pr_sequence st = Some s" for s using rest that by (simp add: and_then_Inr_iff)
  show thesis by (rule that [OF head new gap p])
qed

lemma apply_payload_frame:
  assumes "apply_payload sx f payload st = Inr st1"
  shows "pr_source st1 = pr_source st \<and> pr_instrument st1 = pr_instrument st \<and> pr_initial_sequence st1 = pr_initial_sequence st
    \<and> pr_sequence st1 = pr_sequence st"
  using assms by (auto simp: apply_payload_def and_then_Inr_iff split: price_payload.splits if_splits)

lemma apply_payload_tail:
  assumes "apply_payload sx f payload st = Inr st1" and "tail_ok sx st"
  shows "tail_ok sx st1"
  using assms
  by (cases payload) (auto simp: apply_payload_def and_then_Inr_iff tail_ok_def dest: observations_last
      intro: snapshot_trades_last split: if_splits)

lemma price_apply_tail:
  assumes "price_apply sx f st = Inr (Some st')" and ok: "tail_ok sx st"
  shows "tail_ok sx st'"
  using assms(1)
proof (rule price_applyE)
  fix payload st1
  assume p: "apply_payload sx f payload st = Inr st1" and new: "\<And>k. pr_initial_sequence st = Some k \<Longrightarrow> k < pf_stream_sequence f"
    and st': "st' = st1\<lparr> pr_initial_sequence := (if pr_initial_sequence st = None then Some (pf_stream_sequence f) else pr_initial_sequence st),
       pr_sequence := Some (pf_stream_sequence f), pr_producer := Some (pf_producer_instance_id f),
       pr_stream_id := Some (pf_stream_id f), pr_signed_age_ms := pf_latest_source_age_ms_at_emit f \<rparr>"
  from apply_payload_tail [OF p ok] new show "tail_ok sx st'"
    by (auto simp: tail_ok_def st' less_imp_le)
qed

section \<open>A joining consumer\<close>

text \<open>The state of a consumer follows the owner's: what it shows is the same, only the initial serial differs.\<close>

definition tracks :: "price_state \<Rightarrow> price_state \<Rightarrow> bool" where
  "tracks st c \<longleftrightarrow> pr_source c = pr_source st \<and> pr_instrument c = pr_instrument st \<and> pr_stream_id c = pr_stream_id st
     \<and> pr_sequence c = pr_sequence st \<and> pr_available c = pr_available st \<and> pr_signed_age_ms c = pr_signed_age_ms st
     \<and> pr_producer c = pr_producer st
     \<and> (pr_available st \<longrightarrow> pr_latest_trade c = pr_latest_trade st \<and> pr_latest_observation c = pr_latest_observation st)"

lemma tracks_refl [simp]: "tracks st st"
  by (simp add: tracks_def)

lemma observations_tracks:
  "pr_latest_observation c = pr_latest_observation st \<Longrightarrow> observations sx xs snapshot c = observations sx xs snapshot st"
  by (simp add: observations_def)

lemma observations_snapshot: "observations sx xs True c = observations sx xs True st"
  by (simp add: observations_def)

lemma apply_payload_tracks:
  assumes p: "apply_payload sx f payload st = Inr st1" and t: "tracks st c" and ok: "tail_ok sx st" "tail_ok sx c"
  shows "\<exists>c1. apply_payload sx f payload c = Inr c1 \<and> pr_available c1 = pr_available st1
    \<and> (pr_available st1 \<longrightarrow> pr_latest_trade c1 = pr_latest_trade st1 \<and> pr_latest_observation c1 = pr_latest_observation st1)"
proof (cases payload)
  case (PriceSnapshot sn)
  have src: "pr_source c = pr_source st" using t by (simp add: tracks_def)
  show ?thesis
  proof (cases "pr_source st = BinanceSpotTrade")
    case True
    then have "pr_latest_observation st = None" "pr_latest_observation c = None" using ok src by (simp_all add: tail_ok_def)
    with True p show ?thesis by (auto simp: apply_payload_def PriceSnapshot and_then_Inr_iff src)
  next
    case False
    then have "pr_latest_trade st = None" "pr_latest_trade c = None" using ok src by (simp_all add: tail_ok_def)
    with False p show ?thesis
      by (auto simp: apply_payload_def PriceSnapshot and_then_Inr_iff src observations_snapshot [of _ _ c st])
  qed
next
  case (ObservationDelta xs)
  with p have "pr_available st" by (auto simp: apply_payload_def and_then_Inr_iff)
  with t have eq: "pr_source c = pr_source st" "pr_available c" "pr_latest_observation c = pr_latest_observation st"
    "pr_latest_trade c = pr_latest_trade st" by (simp_all add: tracks_def)
  with p ObservationDelta show ?thesis
    by (auto simp: apply_payload_def and_then_Inr_iff observations_tracks [OF eq(3)])
next
  case (TradeDelta d)
  with p have "pr_available st" by (auto simp: apply_payload_def and_then_Inr_iff)
  with t have "pr_source c = pr_source st" "pr_available c" "pr_latest_observation c = pr_latest_observation st"
    "pr_latest_trade c = pr_latest_trade st" by (simp_all add: tracks_def)
  with p TradeDelta show ?thesis by (auto simp: apply_payload_def and_then_Inr_iff)
next
  case (StatusPayload phase)
  with p t show ?thesis by (auto simp: apply_payload_def and_then_Inr_iff tracks_def)
next
  case (ErrorPayload code again after)
  with p show ?thesis by (simp add: apply_payload_def)
qed

lemma price_applyI:
  assumes "pf_schema_version f = price_schema" "pf_source f = source_number (pr_source st)" "pf_instrument_id f = pr_instrument st"
    "pf_producer_instance_id f \<noteq> []" "pf_stream_id f \<noteq> []"
    "\<And>k. pr_initial_sequence st = Some k \<Longrightarrow> k < pf_stream_sequence f"
    "\<And>s. pr_sequence st = Some s \<Longrightarrow> s \<noteq> - 1 \<and> pf_stream_sequence f = s + 1 \<and> pr_producer st = Some (pf_producer_instance_id f)"
    "pf_payload f = Some payload" "apply_payload sx f payload st = Inr st1"
    "is_snapshot payload \<or> is_none_or (\<lambda>s. s = pf_stream_id f) (pr_stream_id st)"
  shows "price_apply sx f st = Inr (Some (st1\<lparr>
       pr_initial_sequence := (if pr_initial_sequence st = None then Some (pf_stream_sequence f) else pr_initial_sequence st),
       pr_sequence := Some (pf_stream_sequence f), pr_producer := Some (pf_producer_instance_id f),
       pr_stream_id := Some (pf_stream_id f), pr_signed_age_ms := pf_latest_source_age_ms_at_emit f \<rparr>))"
proof -
  have "\<not> is_some_and (\<lambda>s. pf_stream_sequence f \<le> s) (pr_initial_sequence st)"
    using assms(6) by (cases "pr_initial_sequence st") (simp_all add: is_some_and_def not_le)
  moreover have "(case pr_sequence st of None \<Rightarrow> Inr () | Some previous \<Rightarrow>
       and_then (sdk_require (checked_add1 previous = Some (pf_stream_sequence f)) ''price publication gap'') (\<lambda>_.
         sdk_require (pr_producer st = Some (pf_producer_instance_id f)) ''producer changed without reconnect'')) = Inr ()"
    using assms(7) by (auto split: option.split)
  moreover have "(if is_snapshot payload then Inr ()
      else sdk_require (is_none_or (\<lambda>s. s = pf_stream_id f) (pr_stream_id st)) ''generation requires snapshot'') = Inr ()"
    using assms(10) by auto
  ultimately show ?thesis using assms(1-5,8-9) by (simp add: price_apply_def)
qed

text \<open>A frame the owner accepts, its consumers accept, and they follow it.\<close>

lemma price_apply_tracks:
  assumes a: "price_apply sx f st = Inr (Some st')" and t: "tracks st c" and ok: "tail_ok sx st" "tail_ok sx c"
  shows "\<exists>c'. price_apply sx f c = Inr (Some c') \<and> tracks st' c'"
  using a
proof (rule price_applyE)
  fix payload st1
  assume head: "pf_schema_version f = price_schema" "pf_source f = source_number (pr_source st)" "pf_instrument_id f = pr_instrument st"
    "pf_producer_instance_id f \<noteq> []" "pf_stream_id f \<noteq> []"
    and gap: "\<And>s. pr_sequence st = Some s \<Longrightarrow> s \<noteq> - 1 \<and> pf_stream_sequence f = s + 1 \<and> pr_producer st = Some (pf_producer_instance_id f)"
    and p: "pf_payload f = Some payload" "apply_payload sx f payload st = Inr st1"
      "is_snapshot payload \<or> is_none_or (\<lambda>s. s = pf_stream_id f) (pr_stream_id st)"
    and st': "st' = st1\<lparr> pr_initial_sequence := (if pr_initial_sequence st = None then Some (pf_stream_sequence f) else pr_initial_sequence st),
       pr_sequence := Some (pf_stream_sequence f), pr_producer := Some (pf_producer_instance_id f),
       pr_stream_id := Some (pf_stream_id f), pr_signed_age_ms := pf_latest_source_age_ms_at_emit f \<rparr>"
  from t have eq: "pr_source c = pr_source st" "pr_instrument c = pr_instrument st" "pr_stream_id c = pr_stream_id st"
    "pr_sequence c = pr_sequence st" "pr_producer c = pr_producer st" by (simp_all add: tracks_def)
  have new: "k < pf_stream_sequence f" if k: "pr_initial_sequence c = Some k" for k
  proof -
    from ok(2) k obtain s where s: "pr_sequence c = Some s" "k \<le> s" by (auto simp: tail_ok_def)
    with gap eq have "s \<noteq> - 1" "pf_stream_sequence f = s + 1" by auto
    with unat_add1 [of s] have "s < pf_stream_sequence f" by (simp add: word_less_nat_alt)
    with s(2) show ?thesis by (rule order.strict_trans1)
  qed
  from apply_payload_tracks [OF p(2) t ok] obtain c1 where c1: "apply_payload sx f payload c = Inr c1"
    "pr_available c1 = pr_available st1"
    "pr_available st1 \<longrightarrow> pr_latest_trade c1 = pr_latest_trade st1 \<and> pr_latest_observation c1 = pr_latest_observation st1" by blast
  have "price_apply sx f c = Inr (Some (c1\<lparr>
       pr_initial_sequence := (if pr_initial_sequence c = None then Some (pf_stream_sequence f) else pr_initial_sequence c),
       pr_sequence := Some (pf_stream_sequence f), pr_producer := Some (pf_producer_instance_id f),
       pr_stream_id := Some (pf_stream_id f), pr_signed_age_ms := pf_latest_source_age_ms_at_emit f \<rparr>))"
    by (rule price_applyI [OF _ _ _ head(4,5) new _ p(1) c1(1)]) (use head gap p(3) in \<open>simp_all add: eq\<close>)
  moreover note apply_payload_frame [OF p(2)] apply_payload_frame [OF c1(1)]
  ultimately show ?thesis using c1(2,3) eq by (auto simp: tracks_def st')
qed

text \<open>
  A LIVE status taken while the source is available binds when it carries the source sequence of the
  latest trade or observation, as the frame that brought it did.  The seed of a joining consumer is a
  snapshot under the source sequence of the last frame, so only then is it one the consumer accepts.
\<close>

definition tail_sequence :: "price_state \<Rightarrow> u64 option" where
  "tail_sequence st = (if pr_source st = BinanceSpotTrade then map_option bt_trade_id (pr_latest_trade st)
     else Option.bind (pr_latest_observation st) ob_source_sequence)"

definition status_binds :: "price_frame \<Rightarrow> price_state \<Rightarrow> bool" where
  "status_binds f st \<longleftrightarrow> pf_payload f \<noteq> Some (StatusPayload live_phase) \<or> \<not> pr_available st
     \<or> pf_source_sequence f = tail_sequence st"

fun statuses_bind :: "price_ext \<Rightarrow> price_op list \<Rightarrow> price_owner \<Rightarrow> bool" where
  "statuses_bind pe [] own = True"
| "statuses_bind pe (turn # turns) own =
     ((case turn of FrameArrived f healthy sample \<Rightarrow> is_none_or (status_binds f) (po_stream own) | _ \<Rightarrow> True)
      \<and> statuses_bind pe turns (fst (price_op_step pe turn own)))"

lemma no_live_status_binds:
  "\<forall>f healthy sample. FrameArrived f healthy sample \<in> set turns \<longrightarrow> pf_payload f \<noteq> Some (StatusPayload live_phase)
   \<Longrightarrow> statuses_bind pe turns own"
  by (induction turns arbitrary: own) (auto simp: status_binds_def is_none_or_def split: price_op.split option.split)

text \<open>The seed made of an accepted frame brings a new consumer to the owner's state.\<close>

lemma seed_frame_tracks:
  assumes a: "price_apply sx f st = Inr (Some st')" and ok: "tail_ok sx st"
    and live: "status_binds f st"
  shows "\<exists>c. price_apply sx (seed_frame f st') (price_start (pr_source st)) = Inr (Some c) \<and> tracks st' c"
  using a
proof (rule price_applyE)
  fix payload st1
  let ?new = "price_start (pr_source st)"
  assume head: "pf_schema_version f = price_schema" "pf_source f = source_number (pr_source st)" "pf_instrument_id f = pr_instrument st"
    "pf_producer_instance_id f \<noteq> []" "pf_stream_id f \<noteq> []"
    and p: "pf_payload f = Some payload" "apply_payload sx f payload st = Inr st1"
    and st': "st' = st1\<lparr> pr_initial_sequence := (if pr_initial_sequence st = None then Some (pf_stream_sequence f) else pr_initial_sequence st),
       pr_sequence := Some (pf_stream_sequence f), pr_producer := Some (pf_producer_instance_id f),
       pr_stream_id := Some (pf_stream_id f), pr_signed_age_ms := pf_latest_source_age_ms_at_emit f \<rparr>"
  have start: "pr_source ?new = pr_source st" "pr_instrument ?new = pr_instrument st" "pr_sequence ?new = None"
    "pr_initial_sequence ?new = None" "pr_stream_id ?new = None" "pr_latest_trade ?new = None" "pr_latest_observation ?new = None"
    "pr_available ?new = False"
    using ok by (simp_all add: price_start_def tail_ok_def)
  have frame: "pr_source st1 = pr_source st" "pr_instrument st1 = pr_instrument st"
    using apply_payload_frame [OF p(2)] by simp_all
  have ok1: "tail_ok sx st1" by (rule apply_payload_tail [OF p(2) ok])
  show ?thesis
  proof (cases "pr_available st1")
    case False
    then obtain phase where "payload = StatusPayload phase" "0 < phase" "phase \<le> live_phase"
      using p(2) by (auto simp: apply_payload_def and_then_Inr_iff split: price_payload.splits if_splits)
    then have "apply_payload sx f payload ?new = Inr ?new"
      by (auto simp: apply_payload_def) (simp add: price_start_def)
    with price_applyI [of f ?new payload sx ?new] head p(1) start False frame show ?thesis
      by (simp add: seed_frame_def st' tracks_def)
  next
    case True
    let ?sn = "\<lparr> ps_trades = option_list (pr_latest_trade st1), ps_observations = option_list (pr_latest_observation st1),
        ps_truncated = True, ps_retained_count = 1, ps_first_trade_id = map_option bt_trade_id (pr_latest_trade st1),
        ps_last_trade_id = map_option bt_trade_id (pr_latest_trade st1) \<rparr>"
    let ?f = "f\<lparr> pf_payload := Some (PriceSnapshot ?sn) \<rparr>"
    have "apply_payload sx ?f (PriceSnapshot ?sn) ?new = Inr (?new\<lparr> pr_latest_trade := pr_latest_trade st1,
        pr_latest_observation := pr_latest_observation st1, pr_available := True \<rparr>)"
    proof (cases "pr_source st = BinanceSpotTrade")
      case True
      with ok1 frame \<open>pr_available st1\<close> obtain t where t: "pr_latest_trade st1 = Some t" "validate_trade sx t = Inr ()"
        "pr_latest_observation st1 = None" by (auto simp: tail_ok_def)
      moreover have "pf_source_sequence f = Some (bt_trade_id t)"
        using p live True t(1) \<open>pr_available st1\<close>
        by (auto simp: apply_payload_def and_then_Inr_iff status_binds_def tail_sequence_def
            split: price_payload.splits if_splits)
      ultimately show ?thesis using True start(1)
        by (simp add: apply_payload_def option_list_def) (simp add: price_start_def)
    next
      case False
      with ok1 frame \<open>pr_available st1\<close> obtain x where x: "pr_latest_observation st1 = Some x" "observation_ok sx x"
        "pr_latest_trade st1 = None" by (auto simp: tail_ok_def)
      moreover have "pf_source_sequence f = ob_source_sequence x"
        using p live False x(1) \<open>pr_available st1\<close>
        by (auto simp: apply_payload_def and_then_Inr_iff status_binds_def tail_sequence_def
            split: price_payload.splits if_splits)
      ultimately show ?thesis using False start(1)
        by (simp add: apply_payload_def option_list_def observations_def observation_ok_def and_then_Inr_iff)
          (simp add: price_start_def)
    qed
    with price_applyI [of ?f ?new "PriceSnapshot ?sn" sx] head start frame True show ?thesis
      by (simp add: seed_frame_def st' tracks_def is_snapshot_def)
  qed
qed

section \<open>The run of a hub\<close>

text \<open>A consumer that applies what it is delivered and starts again when the source is recovering.\<close>

definition consume :: "sdk_ext \<Rightarrow> price_source \<Rightarrow> price_delivery \<Rightarrow> price_state \<Rightarrow> price_state" where
  "consume sx source d c = (case d of PriceFrame f _ \<Rightarrow> price_receive sx f c | Recovering _ _ \<Rightarrow> price_start source)"

definition consumed :: "sdk_ext \<Rightarrow> price_source \<Rightarrow> price_delivery list \<Rightarrow> price_state" where
  "consumed sx source ds = fold (consume sx source) ds (price_start source)"

definition caught_up :: "sdk_ext \<Rightarrow> price_source \<Rightarrow> price_state option \<Rightarrow> price_delivery list \<Rightarrow> bool" where
  "caught_up sx source stream ds \<longleftrightarrow> tail_ok sx (consumed sx source ds)
     \<and> (case stream of None \<Rightarrow> consumed sx source ds = price_start source | Some st \<Rightarrow> tracks st (consumed sx source ds))"

abbreviation owner_fan :: "price_owner \<Rightarrow> price_delivery fan" where
  "owner_fan own \<equiv> ph_fan (po_hub own)"

text \<open>What a run keeps, with the deliveries each consumer has taken.\<close>

definition run_ok :: "price_ext \<Rightarrow> nat \<Rightarrow> (u64 \<Rightarrow> price_delivery list) \<Rightarrow> price_owner \<Rightarrow> bool" where
  "run_ok pe others h own \<longleftrightarrow>
     fan_ok (fk_capacity price_kind) others (owner_fan own)
     \<and> (\<forall>i. fn_next (owner_fan own) \<le> i \<longrightarrow> h i = [])
     \<and> (\<forall>i. live i (owner_fan own) \<longrightarrow>
           caught_up (pe_sdk pe) (po_source own) (po_stream own) (h i @ pending i (owner_fan own)))
     \<and> (if po_done own then fn_stopped (owner_fan own) \<and> (\<forall>i. \<not> live i (owner_fan own))
        else caught_up (pe_sdk pe) (po_source own) (po_stream own) (option_list (ph_seed (po_hub own))))
     \<and> (\<forall>st. po_stream own = Some st \<longrightarrow> tail_ok (pe_sdk pe) st \<and> pr_source st = po_source own)"

lemma consumed_simps [simp]: "consumed sx source [] = price_start source"
  "consumed sx source (ds @ [d]) = consume sx source d (consumed sx source ds)"
  by (simp_all add: consumed_def)

lemma option_list_simps [simp]: "option_list None = []" "option_list (Some x) = [x]"
  by (simp_all add: option_list_def)

lemma caught_up_recovering: "caught_up sx source None (ds @ [Recovering reason wait])"
  by (simp add: caught_up_def consume_def start_ok)

lemma caught_up_connect: "caught_up sx source None ds \<Longrightarrow> caught_up sx source (Some (price_start source)) ds"
  by (auto simp: caught_up_def)

lemma caught_up_frame:
  assumes "price_apply sx f st = Inr (Some st')" and "tail_ok sx st" and "caught_up sx source (Some st) ds"
  shows "caught_up sx source (Some st') (ds @ [PriceFrame f a])"
proof -
  from assms price_apply_tracks [of sx f st st' "consumed sx source ds"] obtain c' where
    c': "price_apply sx f (consumed sx source ds) = Inr (Some c')" "tracks st' c'" by (auto simp: caught_up_def)
  with price_apply_tail [OF c'(1)] assms(3) show ?thesis by (simp add: caught_up_def consume_def price_receive_def)
qed

lemma caught_up_seed:
  assumes "price_apply sx f st = Inr (Some st')" and "tail_ok sx st" and "pr_source st = source"
    and "status_binds f st"
  shows "caught_up sx source (Some st') [PriceFrame (seed_frame f st') a]"
proof -
  from seed_frame_tracks [OF assms(1,2,4)] obtain c where
    c: "price_apply sx (seed_frame f st') (price_start source) = Inr (Some c)" "tracks st' c" by (auto simp: assms(3))
  with price_apply_tail [OF c(1) start_ok(1)] show ?thesis
    using consumed_simps(2) [of sx source "[]"] by (simp add: caught_up_def consume_def price_receive_def del: consumed_simps(2))
qed

lemma live_broadcast:
  assumes "live i (ph_fan (broadcast pe event seed hub))"
  shows "live i (ph_fan hub) \<and> pending i (ph_fan (broadcast pe event seed hub)) = pending i (ph_fan hub) @ [event]"
  using live_send [of i price_kind event "event_bytes pe event" "ph_fan hub"] assms by (simp add: broadcast_def)

lemma next_id_send [simp]: "fn_next (fan_send kind item bytes st) = fn_next st" "fn_stopped (fan_send kind item bytes st) = fn_stopped st"
  by (simp_all add: fan_send_def split: prod.split)

lemma owner_failed_ok:
  assumes "run_ok pe others h own" and "\<not> po_done own"
  shows "run_ok pe others h (owner_failed pe err sample own)"
proof (cases "terminal_error err")
  case True
  with assms show ?thesis
    by (simp add: run_ok_def owner_failed_def hub_finish_def fan_finish_ok live_finish) (simp add: fan_finish_def)
next
  case False
  let ?own = "owner_failed pe err sample own"
  obtain hub wait where hub: "ph_fan hub = owner_fan own" "ph_seed hub = (if po_stream own = None then ph_seed (po_hub own) else None)"
    and own: "?own = own\<lparr> po_hub := broadcast pe (Recovering (pe_error_text pe err) wait) None hub, po_stream := None,
      po_delay := min (po_delay own * 2) 30000 \<rparr>"
    by (rule that [of "if po_stream own = None then po_hub own else (po_hub own)\<lparr> ph_seed := None \<rparr>"])
      (simp_all add: owner_failed_def Let_def False)
  have fan: "fan_ok (fk_capacity price_kind) others (owner_fan ?own)" "fn_next (owner_fan ?own) = fn_next (owner_fan own)"
    using assms(1) by (simp_all add: own broadcast_def hub run_ok_def fan_send_ok)
  have "caught_up (pe_sdk pe) (po_source ?own) (po_stream ?own) (h i @ pending i (owner_fan ?own))" if "live i (owner_fan ?own)" for i
    using live_broadcast [of i pe "Recovering (pe_error_text pe err) wait" None hub] that caught_up_recovering
    by (simp add: own flip: append_assoc)
  moreover have "caught_up (pe_sdk pe) (po_source ?own) (po_stream ?own) (option_list (ph_seed (po_hub ?own)))"
    using assms hub(2) by (auto simp: own broadcast_def run_ok_def opt_or_def caught_up_def start_ok)
  ultimately show ?thesis using assms fan by (simp add: run_ok_def own)
qed

definition record_out :: "(u64 \<times> 'a delivery) option \<Rightarrow> (u64 \<Rightarrow> 'a list) \<Rightarrow> u64 \<Rightarrow> 'a list" where
  "record_out out h = (case out of Some (i, Delivered d) \<Rightarrow> h(i := h i @ [d]) | _ \<Rightarrow> h)"

lemma record_none [simp]: "record_out None h = h"
  by (simp add: record_out_def)

lemma owner_frame_ok:
  assumes ok: "run_ok pe others h own" and "\<not> po_done own" and live: "is_none_or (status_binds f) (po_stream own)"
  shows "run_ok pe others h (owner_frame pe f healthy sample own)"
proof (cases "po_stream own")
  case (Some st)
  note st = Some
  have tail: "tail_ok (pe_sdk pe) st" and src: "pr_source st = po_source own" using ok st by (simp_all add: run_ok_def)
  show ?thesis
  proof (cases "price_apply (pe_sdk pe) f st")
    case (Inr r)
    show ?thesis
    proof (cases r)
      case (Some st')
      with Inr have a: "price_apply (pe_sdk pe) f st = Inr (Some st')" by simp
      let ?own = "owner_frame pe f healthy sample own"
      let ?event = "PriceFrame f (pr_available st')" and ?seed = "Some (PriceFrame (seed_frame f st') (pr_available st'))"
      obtain d where own: "?own = own\<lparr> po_stream := Some st', po_delay := d, po_hub := broadcast pe ?event ?seed (po_hub own) \<rparr>"
        by (simp add: owner_frame_def st a)
      have "fan_ok (fk_capacity price_kind) others (owner_fan ?own)"
        and "fn_next (owner_fan ?own) = fn_next (owner_fan own)"
        using ok by (simp_all add: own broadcast_def run_ok_def fan_send_ok)
      moreover have "caught_up (pe_sdk pe) (po_source own) (Some st') (h i @ pending i (owner_fan ?own))"
        if "live i (owner_fan ?own)" for i
      proof -
        from live_broadcast [of i pe ?event ?seed "po_hub own"] that have
          "live i (owner_fan own)" "pending i (owner_fan ?own) = pending i (owner_fan own) @ [?event]" by (simp_all add: own)
        moreover from this(1) ok have "caught_up (pe_sdk pe) (po_source own) (Some st) (h i @ pending i (owner_fan own))"
          by (simp add: run_ok_def st)
        ultimately show ?thesis using caught_up_frame [OF a tail] by (simp flip: append_assoc)
      qed
      moreover have "caught_up (pe_sdk pe) (po_source own) (Some st') (option_list (ph_seed (po_hub ?own)))"
        using caught_up_seed [OF a tail src] live by (simp add: st own broadcast_def opt_or_def)
      moreover have "tail_ok (pe_sdk pe) st' \<and> pr_source st' = po_source own"
      proof -
        have "pr_source st' = pr_source st" using a
          by (rule price_applyE) (use apply_payload_frame in fastforce)
        with price_apply_tail [OF a tail] src show ?thesis by simp
      qed
      ultimately show ?thesis using ok assms(2) by (simp add: run_ok_def own)
    qed (use ok in \<open>simp add: owner_frame_def st Inr\<close>)
  qed (use owner_failed_ok [OF ok assms(2)] in \<open>simp add: owner_frame_def st\<close>)
qed (use ok in \<open>simp add: owner_frame_def\<close>)

lemma owner_connect_ok:
  assumes ok: "run_ok pe others h own" and "\<not> po_done own"
  shows "run_ok pe others h (owner_connect result sample pe own)"
proof (cases "po_stream own")
  case None
  show ?thesis
  proof (cases result)
    case (Inr u)
    with None ok assms(2) start_ok show ?thesis
      by (auto simp: owner_connect_def run_ok_def caught_up_connect) (simp_all add: price_start_def)
  qed (use owner_failed_ok [OF assms] None in \<open>simp add: owner_connect_def\<close>)
qed (use ok in \<open>simp add: owner_connect_def\<close>)

lemma owner_check_ok:
  assumes ok: "run_ok pe others h own" and "\<not> po_done own"
  shows "run_ok pe others h (owner_check closed own)"
proof -
  obtain active fan where a: "fan_active (owner_fan own) = (active, fan)" by fastforce
  have "fan_ok (fk_capacity price_kind) others fan" "fn_next fan = fn_next (owner_fan own)"
    "live i fan = live i (owner_fan own)" "pending i fan = pending i (owner_fan own)" for i
    using fan_active_ok [of "fk_capacity price_kind" others "owner_fan own"] live_active [of i "owner_fan own"] a ok
    by (auto simp: run_ok_def fan_active_def Let_def)
  with ok assms(2) show ?thesis
    by (simp add: owner_check_def a run_ok_def hub_finish_def fan_finish_ok live_finish) (simp add: fan_finish_def)
qed

lemma owner_op_ok:
  assumes "run_ok pe others h own" and "\<not> po_done own"
    and "\<And>f healthy sample. turn = FrameArrived f healthy sample \<Longrightarrow> is_none_or (status_binds f) (po_stream own)"
  shows "run_ok pe others h (owner_op pe turn own)"
  using assms owner_connect_ok [OF assms(1,2)] owner_frame_ok [OF assms(1,2)] owner_failed_ok [OF assms(1,2)]
    owner_check_ok [OF assms(1,2)]
  by (cases turn) (simp_all add: owner_op_def)

lemma join_ok:
  assumes ok: "run_ok pe others h own" and j: "hub_attach pe (po_hub own) = Inr (i, hub)"
  shows "run_ok pe others h (own\<lparr> po_hub := hub \<rparr>)"
proof -
  from j obtain fan where a: "fan_attach price_kind (map_option (\<lambda>s. (s, seed_bytes pe s)) (ph_seed (po_hub own))) (owner_fan own) = Inr (i, fan)"
    and hub: "hub = (po_hub own)\<lparr> ph_fan := fan \<rparr>" by (auto simp: hub_attach_def and_then_Inr_iff)
  have fan: "fan_ok (fk_capacity price_kind) others fan" "i = fn_next (owner_fan own)"
    using fan_attach_ok [OF _ a, of others] ok by (simp_all add: run_ok_def)
  have new: "\<not> fn_stopped (owner_fan own)" "fn_next (owner_fan own) \<noteq> - 1" "fn_next fan = fn_next (owner_fan own) + 1"
    "fn_stopped fan = fn_stopped (owner_fan own)"
    using a by (auto simp: fan_attach_def and_then_Inr_iff)
  have "unat (fn_next fan) = Suc (unat (fn_next (owner_fan own)))" using unat_add1 [OF new(2)] new(3) by simp
  then have less: "fn_next fan \<le> k \<Longrightarrow> fn_next (owner_fan own) \<le> k" for k by (simp add: word_le_nat_alt)
  have running: "\<not> po_done own" using ok new(1) by (auto simp: run_ok_def)
  have "pending i fan = option_list (ph_seed (po_hub own))" "h i = []"
    using live_attach(1) [OF a] ok fan(2) by (auto simp: run_ok_def split: option.splits)
  then have joined: "caught_up (pe_sdk pe) (po_source own) (po_stream own) (h i @ pending i fan)"
    using ok running by (simp add: run_ok_def)
  have "caught_up (pe_sdk pe) (po_source own) (po_stream own) (h k @ pending k fan)" if "live k fan" for k
  proof (cases "k = i")
    case False
    with live_attach(2) [OF a, of k] that ok show ?thesis by (simp add: run_ok_def)
  qed (simp add: joined)
  then show ?thesis using ok fan(1) running new(4) less by (simp add: run_ok_def hub)
qed

lemma leave_ok:
  assumes ok: "run_ok pe others h own"
  shows "run_ok pe others h (with_fan (fan_close i (owner_fan own)) own)"
proof -
  have "fn_next (fan_close i (owner_fan own)) = fn_next (owner_fan own)"
    "fn_stopped (fan_close i (owner_fan own)) = fn_stopped (owner_fan own)"
    by (simp_all add: fan_close_def split: option.split)
  with ok show ?thesis using fan_close_ok [of "fk_capacity price_kind" others "owner_fan own" i]
    by (auto simp: run_ok_def with_fan_def dest: live_close)
qed

lemma next_ok:
  assumes ok: "run_ok pe others h own" and d: "fan_next j (owner_fan own) = (d, fan)"
  shows "run_ok pe others (record_out (Some (j, d)) h) (with_fan fan own)"
proof -
  have same: "fn_next fan = fn_next (owner_fan own)" "fn_stopped fan = fn_stopped (owner_fan own)"
    using d by (auto simp: fan_next_def fan_close_def split: option.splits if_splits list.splits)
  have fan: "fan_ok (fk_capacity price_kind) others fan"
    using fan_next_ok [of "fk_capacity price_kind" others "owner_fan own" j] ok d by (simp add: run_ok_def)
  have l: "live i (owner_fan own) \<and> (case d of
      Delivered item \<Rightarrow> pending j (owner_fan own) = item # pending j fan \<and> (i \<noteq> j \<longrightarrow> pending i fan = pending i (owner_fan own))
    | _ \<Rightarrow> pending i fan = pending i (owner_fan own))" if "live i fan" for i
    using live_next [of i j "owner_fan own"] that unfolding d fst_conv snd_conv .
  have "record_out (Some (j, d)) h i @ pending i fan = h i @ pending i (owner_fan own)" if "live i fan" for i
    using l [OF that] by (cases d) (auto simp: record_out_def)
  then have "\<forall>i. live i fan \<longrightarrow> caught_up (pe_sdk pe) (po_source own) (po_stream own) (record_out (Some (j, d)) h i @ pending i fan)"
    using ok l by (simp add: run_ok_def)
  moreover have "record_out (Some (j, d)) h i = []" if i: "fn_next fan \<le> i" for i
  proof -
    have "j \<noteq> i" if "d = Delivered item" for item
    proof -
      from d that obtain c where "bt_get (fn_consumers (owner_fan own)) j = Some c"
        by (auto simp: fan_next_def split: option.splits)
      then have "(j, c) \<in> set (fn_consumers (owner_fan own))" by (rule bt_get_in_set)
      with ok have "j < fn_next (owner_fan own)" by (auto simp: run_ok_def fan_ok_def)
      with i same show ?thesis by auto
    qed
    then show ?thesis using ok i same by (auto simp: record_out_def run_ok_def split: delivery.split)
  qed
  ultimately show ?thesis
    using ok l same fan by (auto simp: run_ok_def with_fan_def)
qed

lemma price_op_step_ok:
  assumes ok: "run_ok pe others h own" and s: "price_op_step pe turn own = (own', out)"
    and live: "\<And>f healthy sample. turn = FrameArrived f healthy sample \<Longrightarrow> is_none_or (status_binds f) (po_stream own)"
  shows "run_ok pe others (record_out out h) own'"
proof -
  have owner: "run_ok pe others h (if po_done own then own else owner_op pe turn own)"
    using ok owner_op_ok [OF ok _ live] by simp
  show ?thesis
  proof (cases turn)
    case Join
    then show ?thesis using s ok join_ok [OF ok] by (auto simp: price_op_step_def split: sum.splits)
  next
    case (Next j)
    then show ?thesis using s next_ok [OF ok] by (auto simp: price_op_step_def split: prod.splits)
  next
    case (Leave j)
    then show ?thesis using s leave_ok [OF ok] by (auto simp: price_op_step_def)
  qed (use s owner in \<open>auto simp: price_op_step_def\<close>)
qed

fun received :: "u64 \<Rightarrow> (u64 \<times> 'a delivery) list \<Rightarrow> 'a list" where
  "received i [] = []"
| "received i ((j, d) # outs) = (case d of Delivered item \<Rightarrow> if j = i then [item] else [] | _ \<Rightarrow> []) @ received i outs"

lemma price_run_ok:
  assumes "run_ok pe others h own" and "price_run pe turns own = (own', outs)"
    and "statuses_bind pe turns own"
  shows "run_ok pe others (\<lambda>i. h i @ received i outs) own'"
  using assms
proof (induction turns arbitrary: h own outs)
  case (Cons turn turns)
  obtain own1 out where s: "price_op_step pe turn own = (own1, out)" by fastforce
  obtain outs1 where r: "price_run pe turns own1 = (own', outs1)" and outs: "outs = option_list out @ outs1"
    using Cons.prems(2) s by (auto split: prod.splits)
  have "run_ok pe others (record_out out h) own1"
    by (rule price_op_step_ok [OF Cons.prems(1) s]) (use Cons.prems(3) in auto)
  then have "run_ok pe others (\<lambda>i. record_out out h i @ received i outs1) own'"
    by (rule Cons.IH [OF _ r]) (use Cons.prems(3) s in auto)
  moreover have "(\<lambda>i. record_out out h i @ received i outs1) = (\<lambda>i. h i @ received i outs)"
    by (auto simp: fun_eq_iff outs record_out_def split: option.split delivery.split)
  ultimately show ?case by simp
qed simp

lemma owner_start_ok:
  assumes "others \<le> global_budget"
  shows "run_ok pe others (\<lambda>i. []) (owner_start source others)"
proof -
  have "fan_ok n others (fan_new others :: price_delivery fan)" for n using assms by (rule fan_new_ok)
  then show ?thesis
    by (simp add: run_ok_def owner_start_def hub_new_def caught_up_def start_ok live_def) (simp add: fan_new_def bt_get_def)
qed

section \<open>Consecutive publications\<close>

text \<open>The frames that took effect, with the state after them.\<close>

fun price_feed :: "sdk_ext \<Rightarrow> price_frame list \<Rightarrow> price_state \<Rightarrow> sdk_error + (price_frame list \<times> price_state)" where
  "price_feed sx [] st = Inr ([], st)"
| "price_feed sx (f # fs) st =
     and_then (price_apply sx f st) (\<lambda>r. case r of
         None \<Rightarrow> price_feed sx fs st
       | Some st' \<Rightarrow> and_then (price_feed sx fs st') (\<lambda>(gs, end_state). Inr (f # gs, end_state)))"

definition tail_trade :: "price_payload \<Rightarrow> btc_trade option" where
  "tail_trade payload = (case payload of PriceSnapshot sn \<Rightarrow> Some (last (ps_trades sn)) | TradeDelta t \<Rightarrow> t | _ \<Rightarrow> None)"

text \<open>Two frames that took effect one after the other, and a trade after the one a state shows.\<close>

definition in_order :: "price_frame \<Rightarrow> price_frame \<Rightarrow> bool" where
  "in_order f g \<longleftrightarrow> unat (pf_stream_sequence g) = Suc (unat (pf_stream_sequence f))
     \<and> pf_producer_instance_id g = pf_producer_instance_id f
     \<and> (pf_stream_id g \<noteq> pf_stream_id f \<longrightarrow> (\<exists>sn. pf_payload g = Some (PriceSnapshot sn)))
     \<and> (\<forall>t p q. pf_payload f = Some p \<longrightarrow> tail_trade p = Some t \<longrightarrow> pf_payload g = Some (TradeDelta (Some q)) \<longrightarrow> next_trade t q)"

fun chained :: "('a \<Rightarrow> 'a \<Rightarrow> bool) \<Rightarrow> 'a list \<Rightarrow> bool" where
  "chained r (x # y # xs) \<longleftrightarrow> r x y \<and> chained r (y # xs)"
| "chained r _ \<longleftrightarrow> True"

text \<open>What the last frame that took effect has left in the state.\<close>

definition left_by :: "price_frame \<Rightarrow> price_state \<Rightarrow> bool" where
  "left_by f st \<longleftrightarrow> pr_sequence st = Some (pf_stream_sequence f) \<and> pr_producer st = Some (pf_producer_instance_id f)
     \<and> pr_stream_id st = Some (pf_stream_id f)
     \<and> (pr_source st = BinanceSpotTrade \<longrightarrow> (\<forall>t p. pf_payload f = Some p \<longrightarrow> tail_trade p = Some t \<longrightarrow> pr_latest_trade st = Some t))"

lemma applied_left_by: "price_apply sx f st = Inr (Some st') \<Longrightarrow> left_by f st'"
  by (erule price_applyE) (auto simp: left_by_def tail_trade_def apply_payload_def and_then_Inr_iff
      split: price_payload.splits if_splits)

lemma applied_in_order:
  assumes "price_apply sx g st = Inr (Some st')" and "left_by f st"
  shows "in_order f g"
  using assms(1)
proof (rule price_applyE)
  fix payload st1
  assume gap: "\<And>s. pr_sequence st = Some s \<Longrightarrow> s \<noteq> - 1 \<and> pf_stream_sequence g = s + 1 \<and> pr_producer st = Some (pf_producer_instance_id g)"
    and p: "pf_payload g = Some payload" "apply_payload sx g payload st = Inr st1"
      "is_snapshot payload \<or> is_none_or (\<lambda>s. s = pf_stream_id g) (pr_stream_id st)"
  from gap assms(2) have "unat (pf_stream_sequence g) = Suc (unat (pf_stream_sequence f)) \<and> pf_producer_instance_id g = pf_producer_instance_id f"
    using unat_add1 [of "pf_stream_sequence f"] by (auto simp: left_by_def)
  moreover have "pf_stream_id g \<noteq> pf_stream_id f \<longrightarrow> (\<exists>sn. pf_payload g = Some (PriceSnapshot sn))"
    using p(1,3) assms(2) by (cases payload) (auto simp: left_by_def is_snapshot_def)
  moreover have "next_trade t q" if "pf_payload f = Some p1" "tail_trade p1 = Some t" "pf_payload g = Some (TradeDelta (Some q))" for t p1 q
    using that p(1,2) assms(2) by (auto simp: left_by_def apply_payload_def and_then_Inr_iff)
  ultimately show "in_order f g" unfolding in_order_def by blast
qed

lemma price_feed_chained:
  assumes "price_feed sx fs st = Inr (gs, st')" and "left_by f st"
  shows "chained in_order (f # gs)"
  using assms
proof (induction fs arbitrary: st gs f)
  case (Cons g fs)
  from Cons.prems(1) obtain r where r: "price_apply sx g st = Inr r" by (auto simp: and_then_Inr_iff)
  show ?case
  proof (cases r)
    case None
    then have "price_feed sx fs st = Inr (gs, st')" using Cons.prems(1) r by simp
    then show ?thesis by (rule Cons.IH) (rule Cons.prems(2))
  next
    case (Some st1)
    with r have a: "price_apply sx g st = Inr (Some st1)" by simp
    with Cons.prems(1) obtain gs1 where "price_feed sx fs st1 = Inr (gs1, st')" "gs = g # gs1"
      by (auto simp: and_then_Inr_iff)
    with Cons.IH [OF this(1) applied_left_by [OF a]] applied_in_order [OF a Cons.prems(2)] show ?thesis by simp
  qed
qed simp

section \<open>A source on concrete inputs\<close>

definition demo_price_ext :: price_ext where
  "demo_price_ext = \<lparr> pe_sdk = \<lparr> sx_parse = map_of [(''7'', 7 * 10 ^ 28), (''0.4'', 4 * 10 ^ 27)],
       sx_level_len = (\<lambda>l. 0), sx_meta_len = (\<lambda>m. 0), sx_snapshot_len = (\<lambda>sn. 0) \<rparr>,
     pe_frame_len = (\<lambda>f. 100), pe_error_text = (\<lambda>err. ''error'') \<rparr>"

definition demo_trade :: "u64 \<Rightarrow> btc_trade" where
  "demo_trade n = \<lparr> bt_trade_id = n, bt_trade_time_ms = 5, bt_event_time_ms = None, bt_price = ''7'', bt_quantity = ''0.4'',
     bt_buyer_is_maker = Some False, bt_received_at_ns = None, bt_evidence = None \<rparr>"

definition demo_price_frame :: "u64 \<Rightarrow> u64 option \<Rightarrow> price_payload \<Rightarrow> price_frame" where
  "demo_price_frame n source_sequence payload = \<lparr> pf_schema_version = price_schema, pf_producer_instance_id = ''p'',
     pf_stream_id = ''g'', pf_stream_sequence = n, pf_source = 1, pf_instrument_id = ''BTCUSDT.BINANCE'',
     pf_source_sequence = source_sequence, pf_published_at_ns = 0, pf_latest_source_age_ms_at_emit = None,
     pf_payload = Some payload \<rparr>"

definition demo_price_snapshot :: price_frame where
  "demo_price_snapshot = demo_price_frame 8 (Some 40) (PriceSnapshot \<lparr> ps_trades = [demo_trade 40], ps_observations = [],
     ps_truncated = False, ps_retained_count = 1, ps_first_trade_id = Some 40, ps_last_trade_id = Some 40 \<rparr>)"

definition demo_price_delta :: price_frame where
  "demo_price_delta = demo_price_frame 9 (Some 41) (TradeDelta (Some (demo_trade 41)))"

definition demo_price_state :: "u64 \<Rightarrow> u64 \<Rightarrow> u64 \<Rightarrow> price_state" where
  "demo_price_state initial n trade = (price_start BinanceSpotTrade)\<lparr> pr_stream_id := Some ''g'', pr_sequence := Some n,
     pr_available := True, pr_latest_trade := Some (demo_trade trade), pr_initial_sequence := Some initial, pr_producer := Some ''p'' \<rparr>"

lemma demo_validate: "0 < n \<Longrightarrow> validate_trade (pe_sdk demo_price_ext) (demo_trade n) = Inr ()"
  by (simp add: validate_trade_def demo_trade_def demo_price_ext_def sdk_decimal_def plain_char_def)

lemma demo_price_opens:
  "price_apply (pe_sdk demo_price_ext) demo_price_snapshot (price_start BinanceSpotTrade) = Inr (Some (demo_price_state 8 8 40))"
  by (simp add: price_apply_def demo_price_snapshot_def demo_price_frame_def price_start_def price_instrument_def is_snapshot_def
      apply_payload_def demo_validate demo_price_state_def) (simp add: demo_trade_def)

lemma demo_price_trades:
  "price_apply (pe_sdk demo_price_ext) demo_price_delta (demo_price_state initial 8 40)
    = (if 9 \<le> initial then Inr None else Inr (Some (demo_price_state initial 9 41)))"
  by (simp add: price_apply_def demo_price_delta_def demo_price_frame_def price_start_def price_instrument_def is_snapshot_def
      apply_payload_def demo_validate demo_price_state_def next_trade_def) (simp add: demo_trade_def)

text \<open>The second consumer joins between the snapshot and the trade, and takes its seed.\<close>

definition demo_price_turns :: "price_op list" where
  "demo_price_turns = [Join, Connect (Inr ()) 0, FrameArrived demo_price_snapshot False 0, Join,
     FrameArrived demo_price_delta False 0, Next 2]"

definition demo_consumer :: "price_delivery list \<Rightarrow> price_delivery fan_consumer" where
  "demo_consumer ds = \<lparr> fc_queue = map (\<lambda>d. (d, 100)) ds, fc_bytes = 100 * length ds, fc_terminal = None,
     fc_attached = True, fc_closed = False \<rparr>"

definition demo_owner ::
  "price_state option \<Rightarrow> (u64, price_delivery fan_consumer) btree \<Rightarrow> u64 \<Rightarrow> nat \<Rightarrow> price_delivery option \<Rightarrow> price_owner" where
  "demo_owner stream consumers n global seed = \<lparr> po_source = BinanceSpotTrade, po_stream = stream,
     po_hub = \<lparr> ph_fan = \<lparr> fn_consumers = consumers, fn_next = n, fn_stopped = False, fn_global = global \<rparr>, ph_seed = seed \<rparr>,
     po_delay = 250, po_done = False \<rparr>"

lemma demo_enqueue:
  "global \<le> 1000 \<Longrightarrow> length ds \<le> 10 \<Longrightarrow>
    enqueue 4096 d 100 global (demo_consumer ds) = (True, global + 100, demo_consumer (ds @ [d]))"
  by (simp add: enqueue_def demo_consumer_def global_budget_def local_budget_def)

lemma demo_attached [simp]: "fc_attached (demo_consumer ds)"
  by (simp add: demo_consumer_def)

lemma demo_join:
  assumes "global \<le> 1000" and "n \<noteq> - 1" and "length m < 128" and "\<forall>(i, c) \<in> set m. i < n \<and> fc_attached c"
    and "\<forall>d. seed = Some d \<longrightarrow> seed_bytes demo_price_ext d = 100"
  shows "price_op_step demo_price_ext Join (demo_owner stream m n global seed)
    = (demo_owner stream (m @ [(n, demo_consumer (option_list seed))]) (n + 1) (global + 100 * length (option_list seed)) seed, None)"
proof -
  have new: "new_consumer = demo_consumer []" by (simp add: new_consumer_def demo_consumer_def)
  have last: "\<forall>k \<in> fst ` set m. k < n" and "attached m = m"
    using assms(4) by (auto simp: attached_def intro!: filter_True)
  then show ?thesis
    using assms(1-3,5) bt_insert_last [OF last]
    by (cases seed) (auto simp: price_op_step_def hub_attach_def fan_attach_def demo_owner_def new demo_enqueue price_kind_def
        max_consumers_def checked_add1_def)
qed

lemma demo_frame:
  assumes a: "price_apply (pe_sdk demo_price_ext) f st = Inr (Some st')" "pr_available st'"
    and l: "length ds1 \<le> 10" "length ds2 \<le> 10" "global \<le> 800"
  shows "price_op_step demo_price_ext (FrameArrived f False 0) (demo_owner (Some st) [(1, demo_consumer ds1)] n global seed)
    = (demo_owner (Some st') [(1, demo_consumer (ds1 @ [PriceFrame f True]))] n (global + 100)
         (Some (PriceFrame (seed_frame f st') True)), None)"
    and "price_op_step demo_price_ext (FrameArrived f False 0)
      (demo_owner (Some st) [(1, demo_consumer ds1), (2, demo_consumer ds2)] n global seed)
    = (demo_owner (Some st') [(1, demo_consumer (ds1 @ [PriceFrame f True])), (2, demo_consumer (ds2 @ [PriceFrame f True]))] n
         (global + 200) (Some (PriceFrame (seed_frame f st') True)), None)"
proof -
  have len: "pe_frame_len demo_price_ext g = 100" for g by (simp add: demo_price_ext_def)
  have e: "enqueue 4096 d 100 global (demo_consumer ds1) = (True, global + 100, demo_consumer (ds1 @ [d]))"
    "enqueue 4096 d 100 (global + 100) (demo_consumer ds2) = (True, global + 200, demo_consumer (ds2 @ [d]))" for d
    using demo_enqueue [of global ds1 d] demo_enqueue [of "global + 100" ds2 d] l by simp_all
  note ops = price_op_step_def owner_op_def owner_frame_def broadcast_def demo_owner_def fan_send_def price_kind_def
    event_bytes_def opt_or_def
  show "price_op_step demo_price_ext (FrameArrived f False 0) (demo_owner (Some st) [(1, demo_consumer ds1)] n global seed)
    = (demo_owner (Some st') [(1, demo_consumer (ds1 @ [PriceFrame f True]))] n (global + 100)
         (Some (PriceFrame (seed_frame f st') True)), None)"
    by (simp add: ops a len e)
  show "price_op_step demo_price_ext (FrameArrived f False 0)
      (demo_owner (Some st) [(1, demo_consumer ds1), (2, demo_consumer ds2)] n global seed)
    = (demo_owner (Some st') [(1, demo_consumer (ds1 @ [PriceFrame f True])), (2, demo_consumer (ds2 @ [PriceFrame f True]))] n
         (global + 200) (Some (PriceFrame (seed_frame f st') True)), None)"
    by (simp add: ops a len e)
qed

lemma demo_price_run:
  "\<exists>own outs. price_run demo_price_ext demo_price_turns (owner_start BinanceSpotTrade 0) = (own, outs)
    \<and> live 2 (owner_fan own) \<and> po_stream own = Some (demo_price_state 8 9 41)
    \<and> length (received 2 outs) = 1 \<and> length (pending 2 (owner_fan own)) = 1"
proof -
  have start: "owner_start BinanceSpotTrade 0 = demo_owner None [] 1 0 None"
    by (simp add: owner_start_def demo_owner_def hub_new_def fan_new_def)
  have connect: "price_op_step demo_price_ext (Connect (Inr ()) 0) (demo_owner None m n g None)
      = (demo_owner (Some (price_start BinanceSpotTrade)) m n g None, None)" for m n g
    by (simp add: price_op_step_def owner_op_def owner_connect_def demo_owner_def)
  have take: "price_op_step demo_price_ext (Next 2) (demo_owner st [(1, c), (2, demo_consumer (d # ds))] n g seed)
      = (demo_owner st [(1, c), (2, demo_consumer ds)] n (g - 100) seed, Some (2, Delivered d))" for st c d ds n g seed
    by (simp add: price_op_step_def fan_next_def demo_owner_def bt_get_def demo_consumer_def with_fan_def)
  have av: "pr_available (demo_price_state a b c)" for a b c by (simp add: demo_price_state_def)
  let ?seed = "PriceFrame (seed_frame demo_price_snapshot (demo_price_state 8 8 40)) True"
  let ?event = "\<lambda>f. PriceFrame f True"
  have j1: "price_op_step demo_price_ext Join (demo_owner None [] 1 0 None) = (demo_owner None [(1, demo_consumer [])] 2 0 None, None)"
    using demo_join [of 0 1 "[]" None None] by simp
  have f1: "price_op_step demo_price_ext (FrameArrived demo_price_snapshot False 0)
      (demo_owner (Some (price_start BinanceSpotTrade)) [(1, demo_consumer [])] 2 0 None)
    = (demo_owner (Some (demo_price_state 8 8 40)) [(1, demo_consumer [?event demo_price_snapshot])] 2 100 (Some ?seed), None)"
    using demo_frame(1) [OF demo_price_opens av, of "[]" "[]" 0 2 None] by simp
  have j2: "price_op_step demo_price_ext Join
      (demo_owner (Some (demo_price_state 8 8 40)) [(1, demo_consumer [?event demo_price_snapshot])] 2 100 (Some ?seed))
    = (demo_owner (Some (demo_price_state 8 8 40)) [(1, demo_consumer [?event demo_price_snapshot]), (2, demo_consumer [?seed])] 3 200 (Some ?seed), None)"
    using demo_join [of 100 2 "[(1, demo_consumer [?event demo_price_snapshot])]" "Some ?seed"]
    by (simp add: seed_bytes_def demo_price_ext_def)
  have trades: "price_apply (pe_sdk demo_price_ext) demo_price_delta (demo_price_state 8 8 40) = Inr (Some (demo_price_state 8 9 41))"
    using demo_price_trades [of 8] by simp
  have f2: "price_op_step demo_price_ext (FrameArrived demo_price_delta False 0)
      (demo_owner (Some (demo_price_state 8 8 40)) [(1, demo_consumer [?event demo_price_snapshot]), (2, demo_consumer [?seed])] 3 200 (Some ?seed))
    = (demo_owner (Some (demo_price_state 8 9 41)) [(1, demo_consumer [?event demo_price_snapshot, ?event demo_price_delta]),
         (2, demo_consumer [?seed, ?event demo_price_delta])] 3 400
         (Some (PriceFrame (seed_frame demo_price_delta (demo_price_state 8 9 41)) True)), None)"
    using demo_frame(2) [OF trades av, of "[?event demo_price_snapshot]" "[?seed]" 200] by simp
  show ?thesis
    by (simp only: demo_price_turns_def start price_run.simps j1 connect f1 j2 f2 take prod.case option_list_simps)
      (simp add: live_def pending_def demo_owner_def bt_get_def demo_consumer_def)
qed

section \<open>Properties\<close>

lemma price_run_source: "price_run pe turns own = (own', outs) \<Longrightarrow> po_source own' = po_source own"
proof (induction turns arbitrary: own outs)
  case (Cons turn turns)
  have "po_source (owner_failed pe err sample own) = po_source own" for err sample
    by (simp add: owner_failed_def Let_def)
  then have "po_source (fst (price_op_step pe turn own)) = po_source own"
    by (auto simp: price_op_step_def owner_op_def owner_connect_def owner_frame_def owner_check_def with_fan_def
        split: price_op.split option.split sum.split prod.split)
  with Cons show ?case by (auto split: prod.splits)
qed simp

text \<open>C30: any consumer of a shared price source, whenever it joined, that applies the deliveries it has
  taken and those still queued for it (starting again at every recovery event) is at the owner's
  publication: same serial, generation and availability, and, while the source is available, the same
  latest trade and observation. This is so in every run in which a LIVE status taken while the source
  is available carries the source sequence of the latest trade or observation; any other status, and
  a LIVE one while it is unavailable, may come at any time. (After a LIVE status without it the seed
  is rejected by the consumers that join next, see \<open>live_status_spoils_the_seed\<close>.)\<close>

theorem joined_consumer_tracks_the_source:
  "others \<le> global_budget \<and> price_run pe turns (owner_start source others) = (own, outs)
    \<and> statuses_bind pe turns (owner_start source others)
    \<and> live i (owner_fan own) \<and> po_stream own = Some st \<longrightarrow>
    (let c = consumed (pe_sdk pe) source (received i outs @ pending i (owner_fan own))
     in pr_sequence c = pr_sequence st \<and> pr_stream_id c = pr_stream_id st \<and> pr_available c = pr_available st
        \<and> (pr_available st \<longrightarrow> pr_latest_trade c = pr_latest_trade st \<and> pr_latest_observation c = pr_latest_observation st))"
proof (intro impI, elim conjE)
  assume others: "others \<le> global_budget" and run: "price_run pe turns (owner_start source others) = (own, outs)"
    and live: "statuses_bind pe turns (owner_start source others)"
    and i: "live i (owner_fan own)" and st: "po_stream own = Some st"
  have "po_source own = source" using price_run_source [OF run] by (simp add: owner_start_def)
  with price_run_ok [OF owner_start_ok [OF others] run live] i st
  have "tracks st (consumed (pe_sdk pe) source (received i outs @ pending i (owner_fan own)))"
    by (simp add: run_ok_def caught_up_def)
  then show "let c = consumed (pe_sdk pe) source (received i outs @ pending i (owner_fan own))
     in pr_sequence c = pr_sequence st \<and> pr_stream_id c = pr_stream_id st \<and> pr_available c = pr_available st
        \<and> (pr_available st \<longrightarrow> pr_latest_trade c = pr_latest_trade st \<and> pr_latest_observation c = pr_latest_observation st)"
    by (simp add: tracks_def Let_def)
qed

theorem joined_consumer_tracks_the_source_witness:
  "\<exists>own outs. price_run demo_price_ext demo_price_turns (owner_start BinanceSpotTrade 0) = (own, outs)
    \<and> pr_sequence (consumed (pe_sdk demo_price_ext) BinanceSpotTrade (received 2 outs @ pending 2 (owner_fan own))) = Some 9
    \<and> pr_latest_trade (consumed (pe_sdk demo_price_ext) BinanceSpotTrade (received 2 outs @ pending 2 (owner_fan own)))
      = Some (demo_trade 41)"
proof -
  obtain own outs where run: "price_run demo_price_ext demo_price_turns (owner_start BinanceSpotTrade 0) = (own, outs)"
    and i: "live 2 (owner_fan own)" and st: "po_stream own = Some (demo_price_state 8 9 41)"
    using demo_price_run by blast
  have turns: "statuses_bind demo_price_ext demo_price_turns (owner_start BinanceSpotTrade 0)"
    by (rule no_live_status_binds) (auto simp: demo_price_turns_def demo_price_snapshot_def demo_price_delta_def demo_price_frame_def)
  have "0 \<le> global_budget" by simp
  with joined_consumer_tracks_the_source [of 0 demo_price_ext demo_price_turns BinanceSpotTrade own outs 2] run turns i st
  show ?thesis by (auto simp: Let_def demo_price_state_def)
qed

lemma fan_broadcast_ok:
  "fan_ok (fk_capacity price_kind) others (ph_fan hub) \<Longrightarrow>
    fan_ok (fk_capacity price_kind) others (ph_fan (broadcast pe event seed hub))"
  by (simp add: broadcast_def fan_send_ok)

lemma owner_failed_fan:
  "fan_ok (fk_capacity price_kind) others (owner_fan own) \<Longrightarrow>
    fan_ok (fk_capacity price_kind) others (owner_fan (owner_failed pe err sample own))"
  by (simp add: owner_failed_def Let_def hub_finish_def fan_finish_ok fan_broadcast_ok)

lemma price_op_step_fan:
  assumes "fan_ok (fk_capacity price_kind) others (owner_fan own)"
  shows "fan_ok (fk_capacity price_kind) others (owner_fan (fst (price_op_step pe turn own)))"
proof -
  have "fan_ok (fk_capacity price_kind) others (snd (fan_next i (owner_fan own)))"
    "fan_ok (fk_capacity price_kind) others (fan_close i (owner_fan own))"
    "fan_ok (fk_capacity price_kind) others (snd (fan_active (owner_fan own)))" for i
    using assms by (simp_all add: fan_next_ok fan_close_ok fan_active_ok)
  moreover have "fan_ok (fk_capacity price_kind) others (ph_fan hub)" if "hub_attach pe (po_hub own) = Inr (i, hub)" for i hub
    using that assms by (auto simp: hub_attach_def and_then_Inr_iff dest: fan_attach_ok)
  ultimately show ?thesis
    using assms owner_failed_fan [OF assms] fan_broadcast_ok [of others "po_hub own"]
    by (cases turn) (auto simp: price_op_step_def owner_op_def owner_connect_def owner_frame_def owner_check_def with_fan_def
        hub_finish_def fan_finish_ok split: option.split sum.split prod.split dest: sndI)
qed

lemma price_run_fan:
  "price_run pe turns own = (own', outs) \<Longrightarrow> fan_ok (fk_capacity price_kind) others (owner_fan own) \<Longrightarrow>
    fan_ok (fk_capacity price_kind) others (owner_fan own')"
proof (induction turns arbitrary: own outs)
  case (Cons turn turns)
  with price_op_step_fan [of others own pe turn] show ?case by (auto split: prod.splits)
qed simp

text \<open>C34: in every run of a shared source the bytes charged to the client are those of the other
  subscriptions plus exactly those queued here, at most 64 MiB; every consumer is charged exactly its own
  queue, at most 16 MiB and 4096 items, and at most 128 consumers are attached. Taking, leaving and
  failing return every credit.\<close>

theorem fanout_budgets_hold:
  "others \<le> global_budget \<and> price_run pe turns (owner_start source others) = (own, outs) \<longrightarrow>
    fn_global (owner_fan own) = others + bt_sum queued_bytes (fn_consumers (owner_fan own))
    \<and> fn_global (owner_fan own) \<le> 64 * 1024 * 1024
    \<and> (\<forall>(i, c) \<in> set (fn_consumers (owner_fan own)). fc_bytes c = queued_bytes c \<and> fc_bytes c \<le> 16 * 1024 * 1024
          \<and> length (fc_queue c) \<le> 4096)
    \<and> length (attached (fn_consumers (owner_fan own))) \<le> 128"
proof (intro impI, elim conjE)
  assume "others \<le> global_budget" "price_run pe turns (owner_start source others) = (own, outs)"
  moreover have "fan_ok 4096 others (owner_fan (owner_start source others))" if "others \<le> global_budget"
    using fan_new_ok [OF that] by (simp add: owner_start_def hub_new_def)
  ultimately have "fan_ok 4096 others (owner_fan own)"
    using price_run_fan [of pe turns "owner_start source others" own outs others] by (simp add: price_kind_def)
  then show "fn_global (owner_fan own) = others + bt_sum queued_bytes (fn_consumers (owner_fan own))
    \<and> fn_global (owner_fan own) \<le> 64 * 1024 * 1024
    \<and> (\<forall>(i, c) \<in> set (fn_consumers (owner_fan own)). fc_bytes c = queued_bytes c \<and> fc_bytes c \<le> 16 * 1024 * 1024
          \<and> length (fc_queue c) \<le> 4096)
    \<and> length (attached (fn_consumers (owner_fan own))) \<le> 128"
    by (auto simp: fan_ok_def consumer_ok_def global_budget_def local_budget_def max_consumers_def)
qed

theorem fanout_budgets_hold_witness:
  "\<exists>own outs. price_run demo_price_ext demo_price_turns (owner_start BinanceSpotTrade 7) = (own, outs)
    \<and> fn_global (owner_fan own) = 7 + bt_sum queued_bytes (fn_consumers (owner_fan own))"
proof -
  obtain own outs where run: "price_run demo_price_ext demo_price_turns (owner_start BinanceSpotTrade 7) = (own, outs)"
    by fastforce
  have "7 \<le> global_budget" by (simp add: global_budget_def)
  with fanout_budgets_hold [of 7 demo_price_ext demo_price_turns BinanceSpotTrade own outs] run show ?thesis by auto
qed

text \<open>C35: of a sequence of frames a price state accepts, the ones that take effect (not those queued
  before the initial snapshot) have consecutive serials from one producer; a new generation starts only
  at a snapshot; and each trade delta carries the trade after the latest one, by identity and time.\<close>

theorem accepted_publications_are_consecutive:
  "price_feed sx fs st = Inr (gs, st') \<longrightarrow> chained in_order gs"
proof
  assume feed: "price_feed sx fs st = Inr (gs, st')"
  show "chained in_order gs"
    using feed
  proof (induction fs arbitrary: gs)
    case (Cons f fs)
    from Cons.prems obtain r where r: "price_apply sx f st = Inr r" by (auto simp: and_then_Inr_iff)
    show ?case
    proof (cases r)
      case (Some st1)
      with Cons.prems r obtain gs1 where "price_feed sx fs st1 = Inr (gs1, st')" "gs = f # gs1"
        by (auto simp: and_then_Inr_iff)
      with price_feed_chained [OF this(1)] applied_left_by [of sx f st st1] r Some show ?thesis by simp
    qed (use Cons r in simp)
  qed simp
qed

theorem accepted_publications_are_consecutive_witness:
  "chained in_order [demo_price_snapshot, demo_price_delta]"
proof -
  have "price_feed (pe_sdk demo_price_ext) [demo_price_snapshot, demo_price_delta] (price_start BinanceSpotTrade)
      = Inr ([demo_price_snapshot, demo_price_delta], demo_price_state 8 9 41)"
    by (simp add: demo_price_opens demo_price_trades)
  then show ?thesis
    using accepted_publications_are_consecutive [of "pe_sdk demo_price_ext" "[demo_price_snapshot, demo_price_delta]"
        "price_start BinanceSpotTrade" "[demo_price_snapshot, demo_price_delta]" "demo_price_state 8 9 41"] by blast
qed

text \<open>A LIVE status that carries no source sequence, repeated while a trade source is available, makes a seed
  that a joining consumer rejects: the seed keeps the source sequence of the status frame.\<close>

theorem live_status_spoils_the_seed:
  assumes "f = demo_price_frame 9 None (StatusPayload live_phase)"
  shows "price_apply (pe_sdk demo_price_ext) f (demo_price_state 8 8 40) = Inr (Some (demo_price_state 8 9 40))"
    and "price_apply (pe_sdk demo_price_ext) (seed_frame f (demo_price_state 8 9 40)) (price_start BinanceSpotTrade)
      = Inl (Protocol ''snapshot tail binding'')"
  by (simp_all add: assms price_apply_def demo_price_frame_def demo_price_state_def price_start_def price_instrument_def is_snapshot_def
      apply_payload_def live_phase_def seed_frame_def demo_validate option_list_def)

end
