(* ===== verification/Scope_Lease.thy ===== *)
theory Scope_Lease
  imports Results
begin

text \<open>
  The demand leases of upstream acquisition, \<open>crates/marketcowd/src/source_acquisition_lease.rs\<close>, and the
  registry of published scopes, \<open>crates/marketcowd/src/source_scope_registry.rs\<close>. Instants and durations are
  nanoseconds; an error is its message. The JSON status report and the waiting for a deadline are left out.
\<close>

section \<open>Leases\<close>

record lease =
  ls_markets :: "string set"
  ls_expires :: int

record leases =
  la_required :: bool
  la_maximum :: nat
  la_maximum_ttl :: nat
  la_leases :: "(string, lease) btree"

definition one_hour :: nat where
  "one_hour = 3600 * 10 ^ 9"

definition leases_new :: "bool \<Rightarrow> nat \<Rightarrow> nat \<Rightarrow> string + leases" where
  "leases_new required maximum maximum_ttl =
     and_then (ensure (required \<longrightarrow> 1 \<le> maximum \<and> maximum \<le> 64) ''acquisition lease capacity'') (\<lambda>_.
     and_then (ensure (required \<longrightarrow> maximum_ttl \<noteq> 0 \<and> maximum_ttl \<le> one_hour) ''acquisition lease TTL'') (\<lambda>_.
     Inr \<lparr> la_required = required, la_maximum = maximum, la_maximum_ttl = maximum_ttl, la_leases = [] \<rparr>))"

definition enabled :: "leases \<Rightarrow> bool" where
  "enabled l \<longleftrightarrow> \<not> la_required l \<or> la_leases l \<noteq> []"

definition market_ids :: "leases \<Rightarrow> string set" where
  "market_ids l = \<Union> (set (map ls_markets (bt_values (la_leases l))))"

definition lease_market_ids :: "string \<Rightarrow> int \<Rightarrow> leases \<Rightarrow> string + string set" where
  "lease_market_ids i now l =
     and_then (of_option ''acquisition lease not found'' (bt_get (la_leases l) i)) (\<lambda>x.
     and_then (ensure (ls_expires x > now) ''acquisition lease expired'') (\<lambda>_. Inr (ls_markets x)))"

definition validate_ttl :: "nat \<Rightarrow> leases \<Rightarrow> string + unit" where
  "validate_ttl ttl l = ensure (ttl \<noteq> 0 \<and> ttl \<le> la_maximum_ttl l) ''acquisition lease TTL outside profile''"

definition validate_acquire ::
  "string \<Rightarrow> nat \<Rightarrow> string set \<Rightarrow> string set \<Rightarrow> int \<Rightarrow> leases \<Rightarrow> string + unit" where
  "validate_acquire i ttl markets eligible now l =
     and_then (ensure (la_required l) ''acquisition leases are not enabled'') (\<lambda>_.
     and_then (validate_ttl ttl l) (\<lambda>_.
     and_then (ensure (markets \<noteq> {} \<and> markets \<subseteq> eligible) ''lease markets must be a nonempty eligible subset'') (\<lambda>_.
     case bt_get (la_leases l) i of
       Some x \<Rightarrow>
         and_then (ensure (ls_expires x > now) ''acquisition lease expired'') (\<lambda>_.
         ensure (ls_markets x = markets) ''acquisition lease identity conflict'')
     | None \<Rightarrow> ensure (length (la_leases l) < la_maximum l) ''acquisition lease capacity exhausted'')))"

definition put_lease :: "string \<Rightarrow> lease \<Rightarrow> leases \<Rightarrow> leases" where
  "put_lease i x l = l\<lparr> la_leases := bt_insert i x (la_leases l) \<rparr>"

definition acquire :: "string \<Rightarrow> nat \<Rightarrow> string set \<Rightarrow> string set \<Rightarrow> int \<Rightarrow> leases \<Rightarrow> string + leases" where
  "acquire i ttl markets eligible now l =
     and_then (validate_acquire i ttl markets eligible now l) (\<lambda>_.
     case bt_get (la_leases l) i of
       Some x \<Rightarrow> Inr (put_lease i (x\<lparr> ls_expires := now + int ttl \<rparr>) l)
     | None \<Rightarrow> Inr (put_lease i \<lparr> ls_markets = markets, ls_expires = now + int ttl \<rparr> l))"

definition renew :: "string \<Rightarrow> nat \<Rightarrow> int \<Rightarrow> leases \<Rightarrow> string + leases" where
  "renew i ttl now l =
     and_then (ensure (la_required l) ''acquisition leases are not enabled'') (\<lambda>_.
     and_then (validate_ttl ttl l) (\<lambda>_.
     and_then (of_option ''acquisition lease not found'' (bt_get (la_leases l) i)) (\<lambda>x.
     and_then (ensure (ls_expires x > now) ''acquisition lease expired'') (\<lambda>_.
     Inr (put_lease i (x\<lparr> ls_expires := now + int ttl \<rparr>) l)))))"

definition validate_replace ::
  "string \<Rightarrow> nat \<Rightarrow> string set \<Rightarrow> string set \<Rightarrow> string set \<Rightarrow> int \<Rightarrow> leases \<Rightarrow> string + unit" where
  "validate_replace i ttl expected markets eligible now l =
     and_then (ensure (la_required l) ''acquisition leases are not enabled'') (\<lambda>_.
     and_then (validate_ttl ttl l) (\<lambda>_.
     and_then (ensure (markets \<noteq> {} \<and> markets \<subseteq> eligible) ''replacement lease markets must be an eligible subset'') (\<lambda>_.
     and_then (of_option ''acquisition lease not found'' (bt_get (la_leases l) i)) (\<lambda>x.
     and_then (ensure (ls_expires x > now) ''acquisition lease expired'') (\<lambda>_.
     ensure (ls_markets x = expected) ''acquisition lease replacement incumbent conflict'')))))"

definition replace ::
  "string \<Rightarrow> nat \<Rightarrow> string set \<Rightarrow> string set \<Rightarrow> string set \<Rightarrow> int \<Rightarrow> leases \<Rightarrow> string + leases" where
  "replace i ttl expected markets eligible now l =
     and_then (validate_replace i ttl expected markets eligible now l) (\<lambda>_.
     and_then (of_option ''acquisition lease not found'' (bt_get (la_leases l) i)) (\<lambda>x.
     Inr (put_lease i (x\<lparr> ls_markets := markets, ls_expires := now + int ttl \<rparr>) l)))"

definition union_after_replacement :: "string \<Rightarrow> string set \<Rightarrow> leases \<Rightarrow> string + string set" where
  "union_after_replacement i markets l =
     and_then (ensure (bt_contains (la_leases l) i) ''acquisition lease not found'') (\<lambda>_.
     Inr (\<Union> (set (map (\<lambda>(k, x). if k = i then markets else ls_markets x) (la_leases l)))))"

definition union_after_release :: "string \<Rightarrow> leases \<Rightarrow> string + string set" where
  "union_after_release i l =
     and_then (ensure (bt_contains (la_leases l) i) ''acquisition lease not found'') (\<lambda>_.
     Inr (\<Union> (set (map (\<lambda>(k, x). ls_markets x) (filter (\<lambda>(k, x). k \<noteq> i) (la_leases l))))))"

definition release :: "string \<Rightarrow> leases \<Rightarrow> (string + unit) \<times> leases" where
  "release i l =
     (if \<not> la_required l then (Inl ''acquisition leases are not enabled'', l)
      else (ensure (bt_contains (la_leases l) i) ''acquisition lease not found'',
        l\<lparr> la_leases := bt_remove i (la_leases l) \<rparr>))"

definition expire :: "int \<Rightarrow> leases \<Rightarrow> nat \<times> leases" where
  "expire now l =
     (let kept = bt_retain (\<lambda>i x. ls_expires x > now) (la_leases l)
      in (length (la_leases l) - length kept, l\<lparr> la_leases := kept \<rparr>))"

section \<open>Scopes\<close>

text \<open>
  The watch channel of a scope is the deadline it was retired with; readers hold a scope by value. \<open>limit\<close> is
  the last instant the platform can represent.
\<close>

record 'a scope =
  sp_id :: string
  sp_revision :: u64
  sp_value :: 'a
  sp_retired :: "int option"

record 'a registry =
  rg_active :: "'a scope"
  rg_previous :: "'a scope option"
  rg_grace :: nat
  rg_limit :: int

definition registry_new :: "string \<Rightarrow> u64 \<Rightarrow> 'a \<Rightarrow> nat \<Rightarrow> int \<Rightarrow> string + 'a registry" where
  "registry_new i revision v grace limit =
     and_then (ensure (i \<noteq> [] \<and> revision > 0 \<and> grace \<noteq> 0 \<and> grace \<le> 300 * 10 ^ 9)
        ''explicit scope identity/grace required'') (\<lambda>_.
     Inr \<lparr> rg_active = \<lparr> sp_id = i, sp_revision = revision, sp_value = v, sp_retired = None \<rparr>, rg_previous = None,
       rg_grace = grace, rg_limit = limit \<rparr>)"

definition reap :: "int \<Rightarrow> 'a registry \<Rightarrow> 'a registry" where
  "reap now r =
     (if is_some_and (\<lambda>p. is_some_and (\<lambda>e. e \<le> now) (sp_retired p)) (rg_previous r)
      then r\<lparr> rg_previous := None \<rparr> else r)"

definition readable_scopes :: "int \<Rightarrow> 'a registry \<Rightarrow> 'a scope list \<times> 'a registry" where
  "readable_scopes now r =
     (let r' = reap now r
      in (rg_active r' # (case rg_previous r' of None \<Rightarrow> [] | Some p \<Rightarrow> [p]), r'))"

definition scope_get :: "string \<Rightarrow> int \<Rightarrow> 'a registry \<Rightarrow> (string + 'a scope) \<times> 'a registry" where
  "scope_get i now r =
     (let r' = reap now r
      in (if sp_id (rg_active r') = i then Inr (rg_active r')
          else (case rg_previous r' of
             Some old \<Rightarrow> if sp_id old = i then Inr old else Inl ''scope unavailable; new full-sync required''
           | None \<Rightarrow> Inl ''scope unavailable; new full-sync required''), r'))"

definition checked_instant :: "int \<Rightarrow> int \<Rightarrow> nat \<Rightarrow> int option" where
  "checked_instant limit now d = (if now + int d \<le> limit then Some (now + int d) else None)"

definition activation_guard :: "string \<Rightarrow> u64 \<Rightarrow> string \<Rightarrow> int \<Rightarrow> 'a registry \<Rightarrow> string + (u64 \<times> int)" where
  "activation_guard expected_id expected_revision i now r =
     and_then (ensure (sp_id (rg_active r) = expected_id \<and> sp_revision (rg_active r) = expected_revision)
        ''scope revision conflict'') (\<lambda>_.
     and_then (ensure (i \<noteq> [] \<and> i \<noteq> sp_id (rg_active r)) ''unchanged/empty scope'') (\<lambda>_.
     and_then (ensure (rg_previous r = None) ''scope retirement capacity'') (\<lambda>_.
     and_then (of_option ''scope revision overflow'' (checked_add1 expected_revision)) (\<lambda>revision.
     and_then (of_option ''scope deadline overflow'' (checked_instant (rg_limit r) now (rg_grace r))) (\<lambda>expires.
     Inr (revision, expires))))))"

definition check_activation :: "string \<Rightarrow> u64 \<Rightarrow> string \<Rightarrow> int \<Rightarrow> 'a registry \<Rightarrow> (string + unit) \<times> 'a registry" where
  "check_activation expected_id expected_revision i now r =
     (let r' = reap now r
      in (and_then (activation_guard expected_id expected_revision i now r') (\<lambda>_. Inr ()), r'))"

definition activate ::
  "string \<Rightarrow> u64 \<Rightarrow> string \<Rightarrow> 'a \<Rightarrow> int \<Rightarrow> 'a registry \<Rightarrow> (string + 'a scope) \<times> 'a registry" where
  "activate expected_id expected_revision i v now r =
     (let r' = reap now r
      in case activation_guard expected_id expected_revision i now r' of
           Inl err \<Rightarrow> (Inl err, r')
         | Inr (revision, expires) \<Rightarrow>
             (let following = \<lparr> sp_id = i, sp_revision = revision, sp_value = v, sp_retired = None \<rparr>
              in (Inr following, r'\<lparr> rg_active := following,
                   rg_previous := Some ((rg_active r')\<lparr> sp_retired := Some expires \<rparr>) \<rparr>)))"

end
