(* ===== verification/Scope_Journal.thy ===== *)
theory Scope_Journal
  imports Results
begin

text \<open>
  The restart state of the collector, \<open>crates/marketcowd/src/source_scope_journal.rs\<close>: the admitted markets with
  their metadata, pending retirements, the journal file they are kept in, and the offline plan that moves
  cold metadata out of it. The canonical envelope with its digest and the checks of reading it are defined here over
  \<open>journal_codec\<close>, what \<open>serde_json\<close> and the digest provide; the file is its content, and a write ends as a
  \<open>write_outcome\<close>. Paths, permissions and file kinds are not modelled.
\<close>

section \<open>State\<close>

record scope_state =
  ss_schema_version :: string
  ss_catalog_revision :: string
  ss_catalog_manifest_sha256 :: string
  ss_pool :: string
  ss_active_config :: json
  ss_active_revision :: u64
  ss_catalog_source :: json
  ss_records :: "(string, json) btree"
  ss_acquisition_market_ids :: "string set"
  ss_retiring_records :: "(string, json) btree"
  ss_retirement_ticket :: "u64 option"
  ss_retiring_acquisition_market_ids :: "string set option"

definition json_at :: "string \<Rightarrow> json \<Rightarrow> json" where
  "json_at k v = unwrap_or JNull (json_get k v)"

fun as_array :: "json \<Rightarrow> json list option" where
  "as_array (JArray xs) = Some xs"
| "as_array v = None"

definition record_identity :: "json \<Rightarrow> json" where
  "record_identity record = json_at ''identity'' record"

section \<open>Validation\<close>

fun outcome_tokens :: "json list \<Rightarrow> string set \<Rightarrow> string + string set" where
  "outcome_tokens [] tokens = Inr tokens"
| "outcome_tokens (v # vs) tokens =
     and_then (of_option ''runtime token'' (as_str (json_at ''token_id'' v))) (\<lambda>token.
     and_then (ensure (token \<noteq> [] \<and> length token \<le> 128 \<and> token \<notin> tokens) ''runtime token ownership'') (\<lambda>_.
     outcome_tokens vs (insert token tokens)))"

definition record_tokens :: "string \<Rightarrow> json \<Rightarrow> string set \<Rightarrow> string + string set" where
  "record_tokens i record tokens =
     and_then (ensure (i \<noteq> [] \<and> json_at ''market_id'' (record_identity record) = JString i) ''runtime metadata identity'') (\<lambda>_.
     and_then (of_option ''runtime outcomes'' (as_array (json_at ''outcomes'' (record_identity record)))) (\<lambda>outcomes.
     and_then (ensure (length outcomes = 2
        \<and> is_some_and (\<lambda>v. v \<noteq> []) (as_str (json_at ''condition_id'' (record_identity record)))) ''runtime binary identity'') (\<lambda>_.
     outcome_tokens outcomes tokens)))"

fun all_tokens :: "(string \<times> json) list \<Rightarrow> string set \<Rightarrow> string + string set" where
  "all_tokens [] tokens = Inr tokens"
| "all_tokens ((i, record) # xs) tokens = and_then (record_tokens i record tokens) (all_tokens xs)"

definition validate :: "scope_state \<Rightarrow> string + unit" where
  "validate st =
     and_then (ensure (ss_schema_version st \<in> {''marketcow.runtime-scope-state.v1'', ''marketcow.runtime-scope-state.v2''}
        \<and> ss_pool st \<in> {''live'', ''discovery''} \<and> ss_active_revision st > 0) ''runtime state identity'') (\<lambda>_.
     and_then (ensure (json_at ''catalog_revision'' (ss_active_config st) = JString (ss_catalog_revision st))
        ''runtime active catalog'') (\<lambda>_.
     and_then (ensure (ss_records st \<noteq> [] \<and> length (ss_records st) + length (ss_retiring_records st) \<le> 8192)
        ''runtime metadata capacity'') (\<lambda>_.
     and_then (ensure ((ss_retiring_records st = []) = (ss_retirement_ticket st = None)) ''runtime retirement binding'') (\<lambda>_.
     and_then (ensure (is_none_or (\<lambda>ids. \<forall>i \<in> ids. bt_contains (ss_retiring_records st) i)
        (ss_retiring_acquisition_market_ids st)) ''runtime retiring acquisition binding'') (\<lambda>_.
     and_then (all_tokens (ss_records st @ ss_retiring_records st) {}) (\<lambda>_.
     ensure (\<forall>i \<in> ss_acquisition_market_ids st. bt_contains (ss_records st) i) ''runtime acquisition metadata absent''))))))"

section \<open>Markets\<close>

record scope_market =
  sm_market_id :: string
  sm_condition_id :: string
  sm_token_ids :: "string \<times> string"

definition market_of :: "scope_state \<Rightarrow> string \<Rightarrow> string + scope_market" where
  "market_of st i =
     and_then (of_option ''runtime market missing'' (bt_get (ss_records st) i)) (\<lambda>record.
     and_then (of_option ''runtime outcomes'' (as_array (json_at ''outcomes'' (record_identity record)))) (\<lambda>outcomes.
     and_then (of_option ''runtime condition'' (as_str (json_at ''condition_id'' (record_identity record)))) (\<lambda>condition.
     and_then (if length outcomes < 1 then Inl ''index out of bounds''
        else of_option ''runtime token'' (as_str (json_at ''token_id'' (outcomes ! 0)))) (\<lambda>first.
     and_then (if length outcomes < 2 then Inl ''index out of bounds''
        else of_option ''runtime token'' (as_str (json_at ''token_id'' (outcomes ! 1)))) (\<lambda>second.
     Inr \<lparr> sm_market_id = i, sm_condition_id = condition, sm_token_ids = (first, second) \<rparr>)))))"

fun try_map :: "('a \<Rightarrow> 'e + 'b) \<Rightarrow> 'a list \<Rightarrow> 'e + 'b list" where
  "try_map f [] = Inr []"
| "try_map f (x # xs) = and_then (f x) (\<lambda>y. and_then (try_map f xs) (\<lambda>ys. Inr (y # ys)))"

definition markets_by_ids :: "scope_state \<Rightarrow> string set \<Rightarrow> string + scope_market list" where
  "markets_by_ids st ids = try_map (market_of st) (sorted_list_of_set ids)"

definition markets :: "scope_state \<Rightarrow> string + scope_market list" where
  "markets st = markets_by_ids st (ss_acquisition_market_ids st)"

text \<open>The markets a list of JSON values names, in two forms.\<close>

definition listed_ids :: "string \<Rightarrow> json list \<Rightarrow> string + string list" where
  "listed_ids message = try_map (\<lambda>v. of_option message (as_str v))"

definition keyed_ids :: "string \<Rightarrow> json list \<Rightarrow> string + string list" where
  "keyed_ids message = try_map (\<lambda>v. of_option message (as_str (json_at ''market_id'' v)))"

definition relation_ids :: "json \<Rightarrow> string + string list" where
  "relation_ids record = (case as_array (json_at ''relations'' record) of
     None \<Rightarrow> Inr []
   | Some relations \<Rightarrow>
       and_then (try_map (\<lambda>relation.
         and_then (of_option ''restart relation pairs'' (as_array (json_at ''outcome_pairs'' relation)))
           (keyed_ids ''restart relation market'')) relations) (\<lambda>xss. Inr (concat xss)))"

definition live_ids :: "scope_state \<Rightarrow> string + string set" where
  "live_ids st =
     and_then (of_option ''restart configured markets'' (as_array (json_at ''configured_markets'' (ss_active_config st)))) (\<lambda>vs.
     and_then (keyed_ids ''restart scope market'' vs) (\<lambda>roots.
     and_then (try_map (\<lambda>i. and_then (of_option ''restart scope metadata missing'' (bt_get (ss_records st) i)) relation_ids)
        (sorted_list_of_set (set roots))) (\<lambda>xss.
     Inr (set roots \<union> set (concat xss)))))"

definition discovery_ids :: "scope_state \<Rightarrow> string + string set" where
  "discovery_ids st =
     and_then (of_option ''restart discovery markets'' (as_array (json_at ''market_ids'' (ss_active_config st)))) (\<lambda>vs.
     and_then (listed_ids ''restart discovery market'' vs) (\<lambda>ids.
     and_then (of_option ''restart discovery relations'' (as_array (json_at ''relations'' (ss_active_config st)))) (\<lambda>relations.
     and_then (try_map (\<lambda>relation.
         and_then (of_option ''restart discovery members'' (as_array (json_at ''member_market_ids'' relation)))
           (listed_ids ''restart discovery member'')) relations) (\<lambda>xss.
     Inr (set ids \<union> set (concat xss))))))"

definition restart_ids :: "scope_state \<Rightarrow> string + string set" where
  "restart_ids st =
     and_then (if ss_pool st = ''live'' then live_ids st else discovery_ids st) (\<lambda>ids.
     and_then (ensure (ids \<subseteq> ss_acquisition_market_ids st) ''restart scope is not prepared'') (\<lambda>_. Inr ids))"

definition restart_markets :: "bool \<Rightarrow> scope_state \<Rightarrow> string + scope_market list" where
  "restart_markets on_demand st =
     (if \<not> on_demand then markets st else and_then (restart_ids st) (markets_by_ids st))"

section \<open>The journal\<close>

text \<open>
  \<open>serde_json\<close>: a state to a value and back (\<open>to_value\<close>, \<open>from_value\<close>), a value to its bytes, members in
  their order, and back (\<open>to_vec\<close>, \<open>from_slice\<close>); and the hexadecimal SHA-256 of bytes.
\<close>

record journal_codec =
  jc_to_value :: "scope_state \<Rightarrow> string + json"
  jc_from_value :: "json \<Rightarrow> string + scope_state"
  jc_text :: "json \<Rightarrow> string"
  jc_parse :: "string \<Rightarrow> string + json"
  jc_sha256 :: "string \<Rightarrow> string"

text \<open>\<open>canonical_hash\<close> of \<open>crates/marketcow-polymarket/src/discovery_source.rs\<close>: the digest of the value with its keys sorted.\<close>

primrec sorted_value :: "json \<Rightarrow> json" where
  "sorted_value JNull = JNull"
| "sorted_value (JBool b) = JBool b"
| "sorted_value (JUInt n) = JUInt n"
| "sorted_value (JInt n) = JInt n"
| "sorted_value (JFloat text) = JFloat text"
| "sorted_value (JString s) = JString s"
| "sorted_value (JArray vs) = JArray (map sorted_value vs)"
| "sorted_value (JObject members) = JObject (sort_key fst (map (map_prod id sorted_value) members))"

definition canonical_hash :: "journal_codec \<Rightarrow> json \<Rightarrow> string" where
  "canonical_hash jc v = jc_sha256 jc (jc_text jc (sorted_value v))"

definition envelope :: "journal_codec \<Rightarrow> json \<Rightarrow> json" where
  "envelope jc v = JObject [(''sha256'', JString (canonical_hash jc v)), (''state'', v)]"

text \<open>The bytes \<open>commit\<close> writes of a state, and the checks of \<open>read\<close> before the state is validated.\<close>

definition jc_encode :: "journal_codec \<Rightarrow> scope_state \<Rightarrow> string + string" where
  "jc_encode jc st = and_then (jc_to_value jc st) (\<lambda>v. Inr (jc_text jc (envelope jc v)))"

fun is_envelope :: "json \<Rightarrow> bool" where
  "is_envelope (JObject members) = (length members = 2 \<and> ''state'' \<in> fst ` set members \<and> ''sha256'' \<in> fst ` set members)"
| "is_envelope v = False"

definition jc_decode :: "journal_codec \<Rightarrow> string \<Rightarrow> string + scope_state" where
  "jc_decode jc bytes =
     and_then (jc_parse jc bytes) (\<lambda>v.
     and_then (ensure (jc_text jc v = bytes \<and> is_envelope v) ''runtime journal canonical envelope'') (\<lambda>_.
     and_then (ensure (json_at ''sha256'' v = JString (canonical_hash jc (json_at ''state'' v))) ''runtime journal hash'') (\<lambda>_.
     jc_from_value jc (json_at ''state'' v))))"

record journal =
  jn_state :: scope_state
  jn_disk :: "string option"
  jn_maximum_bytes :: nat

text \<open>
  How writing the new file ends: done, failed before the rename, or failed after it, when the directory
  could not be synchronised.
\<close>

datatype write_outcome = Written | FailedBeforeRename | FailedAfterRename

definition journal_read :: "journal_codec \<Rightarrow> nat \<Rightarrow> string option \<Rightarrow> string + scope_state option" where
  "journal_read jc maximum disk =
     and_then (ensure (1024 \<le> maximum \<and> maximum \<le> 256 * 1024 * 1024) ''runtime journal path/budget'') (\<lambda>_.
     case disk of
       None \<Rightarrow> Inr None
     | Some bytes \<Rightarrow>
         and_then (ensure (length bytes \<le> maximum) ''runtime journal file/bytes/permissions'') (\<lambda>_.
         and_then (jc_decode jc bytes) (\<lambda>st.
         and_then (validate st) (\<lambda>_. Inr (Some st)))))"

definition commit :: "journal_codec \<Rightarrow> write_outcome \<Rightarrow> scope_state \<Rightarrow> journal \<Rightarrow> (string + unit) \<times> journal" where
  "commit jc io following j =
     (case validate following of
        Inl err \<Rightarrow> (Inl err, j)
      | Inr _ \<Rightarrow>
          (case jc_encode jc following of
             Inl err \<Rightarrow> (Inl err, j)
           | Inr bytes \<Rightarrow>
               if jn_maximum_bytes j = 0 \<or> length bytes > jn_maximum_bytes j then (Inl ''encode'', j)
               else (case io of
                   FailedBeforeRename \<Rightarrow> (Inl ''write'', j)
                 | FailedAfterRename \<Rightarrow> (Inl ''sync'', j\<lparr> jn_disk := Some bytes \<rparr>)
                 | Written \<Rightarrow> (Inr (), j\<lparr> jn_disk := Some bytes, jn_state := following \<rparr>))))"

definition journal_open ::
  "journal_codec \<Rightarrow> write_outcome \<Rightarrow> nat \<Rightarrow> scope_state \<Rightarrow> string option \<Rightarrow> (string + journal) \<times> string option" where
  "journal_open jc io maximum initial disk =
     (case and_then (validate initial) (\<lambda>_.
         and_then (journal_read jc maximum disk) (\<lambda>saved.
         and_then (ensure (is_none_or (\<lambda>s. ss_catalog_manifest_sha256 s = ss_catalog_manifest_sha256 initial
             \<and> ss_catalog_revision s = ss_catalog_revision initial \<and> ss_pool s = ss_pool initial) saved)
           ''runtime source binding differs'') (\<lambda>_. Inr saved))) of
        Inl err \<Rightarrow> (Inl err, disk)
      | Inr saved \<Rightarrow>
          (let st = unwrap_or initial saved
           in case commit jc io st \<lparr> jn_state = st, jn_disk = disk, jn_maximum_bytes = maximum \<rparr> of
                (Inl err, j) \<Rightarrow> (Inl err, jn_disk j)
              | (Inr _, j) \<Rightarrow> (Inr j, jn_disk j)))"

fun admit_records :: "json list \<Rightarrow> scope_state \<Rightarrow> string + scope_state" where
  "admit_records [] st = Inr st"
| "admit_records (record # rs) st =
     and_then (of_option ''admission identity'' (as_str (json_at ''market_id'' (record_identity record)))) (\<lambda>i.
     and_then (ensure (\<not> bt_contains (ss_retiring_records st) i) ''runtime retirement pending'') (\<lambda>_.
     and_then (case bt_get (ss_records st) i of
         Some old \<Rightarrow> and_then (ensure (record_identity old = record_identity record) ''runtime identity changed'') (\<lambda>_. Inr st)
       | None \<Rightarrow> Inr (st\<lparr> ss_records := bt_insert i record (ss_records st) \<rparr>)) (admit_records rs)))"

definition admit :: "journal_codec \<Rightarrow> write_outcome \<Rightarrow> json list \<Rightarrow> string set \<Rightarrow> journal \<Rightarrow> (string + unit) \<times> journal" where
  "admit jc io records acquisition j =
     (case admit_records records (jn_state j) of
        Inl err \<Rightarrow> (Inl err, j)
      | Inr st \<Rightarrow> commit jc io
          (st\<lparr> ss_acquisition_market_ids := ss_acquisition_market_ids st \<union> acquisition \<rparr>) j)"

fun move_records :: "string list \<Rightarrow> scope_state \<Rightarrow> string + scope_state" where
  "move_records [] st = Inr st"
| "move_records (i # ids) st =
     and_then (of_option ''runtime retirement unknown market'' (bt_get (ss_records st) i)) (\<lambda>record.
     move_records ids (st\<lparr> ss_records := bt_remove i (ss_records st),
       ss_retiring_records := bt_insert i record (ss_retiring_records st),
       ss_acquisition_market_ids := ss_acquisition_market_ids st - {i} \<rparr>))"

definition retire :: "journal_codec \<Rightarrow> write_outcome \<Rightarrow> string set \<Rightarrow> u64 \<Rightarrow> journal \<Rightarrow> (string + unit) \<times> journal" where
  "retire jc io ids ticket j =
     (let st = jn_state j in
      if ss_retirement_ticket st = Some ticket \<and> set (bt_keys (ss_retiring_records st)) = ids then (Inr (), j)
      else if \<not> (ss_retiring_records st = [] \<and> ticket > 0) then (Inl ''runtime retirement slot busy'', j)
      else case move_records (sorted_list_of_set ids)
          (st\<lparr> ss_retiring_acquisition_market_ids := Some (ids \<inter> ss_acquisition_market_ids st) \<rparr>) of
        Inl err \<Rightarrow> (Inl err, j)
      | Inr following \<Rightarrow> commit jc io (following\<lparr> ss_retirement_ticket := Some ticket \<rparr>) j)"

definition settled :: "journal_codec \<Rightarrow> write_outcome \<Rightarrow> u64 \<Rightarrow> journal \<Rightarrow> (string + unit) \<times> journal" where
  "settled jc io ticket j =
     (if is_some_and (\<lambda>pending. pending \<le> ticket) (ss_retirement_ticket (jn_state j))
      then commit jc io ((jn_state j)\<lparr> ss_retiring_records := [], ss_retirement_ticket := None,
             ss_retiring_acquisition_market_ids := None \<rparr>) j
      else (Inr (), j))"

fun restore_records :: "(string \<times> json) list \<Rightarrow> scope_state \<Rightarrow> string + scope_state" where
  "restore_records [] st = Inr st"
| "restore_records ((i, record) # xs) st =
     and_then (ensure (\<not> bt_contains (ss_records st) i) ''runtime cancellation duplicate'') (\<lambda>_.
     restore_records xs (st\<lparr> ss_records := bt_insert i record (ss_records st) \<rparr>))"

definition cancel_unstarted_retirement ::
  "journal_codec \<Rightarrow> write_outcome \<Rightarrow> string set \<Rightarrow> u64 \<Rightarrow> u64 \<Rightarrow> string \<Rightarrow> journal \<Rightarrow> (string + unit) \<times> journal" where
  "cancel_unstarted_retirement jc io ids ticket revision catalog_revision j =
     (let st = jn_state j in
      if \<not> (ss_retirement_ticket st = Some ticket \<and> set (bt_keys (ss_retiring_records st)) = ids
          \<and> ss_active_revision st = revision \<and> ss_catalog_revision st = catalog_revision)
      then (Inl ''runtime retirement cancellation identity'', j)
      else (case ss_retiring_acquisition_market_ids st of
          None \<Rightarrow> (Inl ''runtime prior hot membership unknown; keep retirement pending'', j)
        | Some prior \<Rightarrow>
            (case restore_records (ss_retiring_records st) (st\<lparr> ss_retiring_records := [] \<rparr>) of
               Inl err \<Rightarrow> (Inl err, j)
             | Inr following \<Rightarrow> commit jc io (following\<lparr>
                 ss_acquisition_market_ids := ss_acquisition_market_ids following \<union> prior,
                 ss_retiring_acquisition_market_ids := None, ss_retirement_ticket := None \<rparr>) j)))"

section \<open>Moving cold metadata\<close>

record cold_migration =
  cm_hot_state :: scope_state
  cm_cold_records :: "(string, json) btree"

definition plan_offline_cold_migration :: "string set \<Rightarrow> scope_state \<Rightarrow> string + cold_migration" where
  "plan_offline_cold_migration additionally st =
     and_then (validate st) (\<lambda>_.
     and_then (ensure (ss_retirement_ticket st = None \<or> ss_retiring_acquisition_market_ids st \<noteq> None)
        ''legacy pending retirement has unknown prior hot membership'') (\<lambda>_.
     and_then (restart_markets True st) (\<lambda>ms.
     let retained = set (map sm_market_id ms) \<union> additionally in
     and_then (ensure (retained \<subseteq> ss_acquisition_market_ids st)
        ''offline migration cannot invent or revive hot admission'') (\<lambda>_.
     let cold = bt_retain (\<lambda>i v. i \<notin> retained) (ss_records st);
         hot = st\<lparr> ss_records := bt_retain (\<lambda>i v. i \<in> retained) (ss_records st),
           ss_acquisition_market_ids := ss_acquisition_market_ids st \<inter> retained \<rparr>
     in and_then (validate hot) (\<lambda>_.
        and_then (ensure (length cold + length (ss_records hot) = length (ss_records st))
          ''offline cold migration record conservation'') (\<lambda>_.
        and_then (ensure (\<forall>(i, v) \<in> set cold. json_at ''market_id'' (record_identity v) = JString i)
          ''offline cold migration identity mismatch'') (\<lambda>_.
        Inr \<lparr> cm_hot_state = hot, cm_cold_records = cold \<rparr>)))))))"

end
