(* ===== verification/Scope_Theorems.thy ===== *)
theory Scope_Theorems
  imports Scope_Lease Scope_Journal Map_Sums
begin

text \<open>
  Invariants of the acquisition scopes over sequences of calls: leases and their number, the revisions of the
  registry, the agreement of the journal's memory with its file, and how retirement, cancellation and the
  migration of cold metadata change a state. The concrete inputs are at the end.
\<close>

section \<open>Leases\<close>

definition leases_ok :: "leases \<Rightarrow> bool" where
  "leases_ok l \<longleftrightarrow> bt_wf (la_leases l) \<and> (la_required l \<longrightarrow> length (la_leases l) \<le> la_maximum l)
     \<and> (\<not> la_required l \<longrightarrow> la_leases l = [])"

datatype lease_op =
    Acquire string nat "string set" "string set" int
  | Renew string nat int
  | Replace string nat "string set" "string set" "string set" int
  | Release string
  | Expire int

fun op_id :: "lease_op \<Rightarrow> string option" where
  "op_id (Acquire i _ _ _ _) = Some i"
| "op_id (Renew i _ _) = Some i"
| "op_id (Replace i _ _ _ _ _) = Some i"
| "op_id _ = None"

fun op_time :: "lease_op \<Rightarrow> int option" where
  "op_time (Acquire _ _ _ _ now) = Some now"
| "op_time (Renew _ _ now) = Some now"
| "op_time (Replace _ _ _ _ _ now) = Some now"
| "op_time _ = None"

definition keep_or :: "leases \<Rightarrow> string + leases \<Rightarrow> leases" where
  "keep_or l r = (case r of Inl err \<Rightarrow> l | Inr l' \<Rightarrow> l')"

fun lease_step :: "leases \<Rightarrow> lease_op \<Rightarrow> leases" where
  "lease_step l (Acquire i ttl ms eligible now) = keep_or l (acquire i ttl ms eligible now l)"
| "lease_step l (Renew i ttl now) = keep_or l (renew i ttl now l)"
| "lease_step l (Replace i ttl expected ms eligible now) = keep_or l (replace i ttl expected ms eligible now l)"
| "lease_step l (Release i) = snd (release i l)"
| "lease_step l (Expire now) = snd (expire now l)"

definition lease_run :: "lease_op list \<Rightarrow> leases \<Rightarrow> leases" where
  "lease_run ops l = foldl lease_step l ops"

text \<open>What one call can do to the lease of one consumer.\<close>

lemma lease_step_get:
  assumes "bt_get (la_leases (lease_step l turn)) i = Some x" and wf: "bt_wf (la_leases l)"
  shows "(\<exists>y. bt_get (la_leases l) i = Some y \<and> ls_expires y = ls_expires x)
    \<or> (op_id turn = Some i \<and> (\<exists>now ttl. op_time turn = Some now \<and> ls_expires x = now + int ttl \<and> ttl \<le> la_maximum_ttl l))"
  using assms(1)
  by (cases turn) (auto simp: keep_or_def acquire_def renew_def replace_def validate_acquire_def validate_replace_def validate_ttl_def
      put_lease_def release_def expire_def Let_def and_then_def ensure_def of_option_def bt_get_retain [OF wf]
      split: sum.splits option.splits if_splits)

lemma lease_step_ok:
  assumes "leases_ok l"
  shows "leases_ok (lease_step l turn) \<and> la_maximum_ttl (lease_step l turn) = la_maximum_ttl l
    \<and> la_required (lease_step l turn) = la_required l \<and> la_maximum (lease_step l turn) = la_maximum l"
proof -
  let ?m = "la_leases l"
  have wf: "bt_wf ?m" using assms by (simp add: leases_ok_def)
  have len: "length (bt_insert i x ?m) = (if bt_get ?m i = None then Suc (length ?m) else length ?m)" for i x
    using bt_sum_insert [OF wf, of "\<lambda>v. Suc 0" i x] by auto
  have rem: "length (bt_remove i ?m) \<le> length ?m" for i by (simp add: bt_remove_def)
  have ret: "length (bt_retain P ?m) \<le> length ?m" for P by (simp add: bt_retain_def)
  have nil: "bt_remove i [] = []" "bt_retain P [] = []" for i :: string and P :: "string \<Rightarrow> lease \<Rightarrow> bool"
    by (simp_all add: bt_remove_def bt_retain_def)
  show ?thesis
    using assms wf
    by (cases turn) (auto simp: leases_ok_def len nil keep_or_def acquire_def renew_def replace_def validate_acquire_def
      validate_replace_def validate_ttl_def put_lease_def release_def expire_def Let_def and_then_def ensure_def of_option_def
      split: sum.splits option.splits if_splits intro: order.trans [OF rem] order.trans [OF ret])
qed

lemma lease_run_ok:
  assumes "leases_ok l"
  shows "leases_ok (lease_run ops l) \<and> la_maximum_ttl (lease_run ops l) = la_maximum_ttl l
    \<and> la_required (lease_run ops l) = la_required l \<and> la_maximum (lease_run ops l) = la_maximum l"
  using assms
  by (induction ops arbitrary: l) (use lease_step_ok in \<open>auto simp: lease_run_def\<close>)

text \<open>The expiry of a lease is at most the longest duration after the last call for it.\<close>

lemma lease_run_expires:
  assumes "leases_ok l" and "bt_get (la_leases (lease_run ops l)) i = Some x"
    and "\<forall>y. bt_get (la_leases l) i = Some y \<longrightarrow> ls_expires y \<le> bound"
    and "\<forall>turn \<in> set ops. op_id turn = Some i \<longrightarrow> (\<forall>now. op_time turn = Some now \<longrightarrow> now + int (la_maximum_ttl l) \<le> bound)"
  shows "ls_expires x \<le> bound"
  using assms
proof (induction ops arbitrary: l)
  case (Cons turn ops)
  note ok = lease_step_ok [OF Cons.prems(1), of turn]
  have wf: "bt_wf (la_leases l)" using Cons.prems(1) by (simp add: leases_ok_def)
  have "ls_expires y \<le> bound" if "bt_get (la_leases (lease_step l turn)) i = Some y" for y
    using lease_step_get [OF that wf] Cons.prems(3,4) by fastforce
  with ok Cons.prems show ?case
    by (intro Cons.IH [of "lease_step l turn"]) (auto simp: lease_run_def)
qed (simp add: lease_run_def)

text \<open>The union of markets a change of one lease leads to.\<close>

lemma market_ids_iff: "bt_wf (la_leases l) \<Longrightarrow>
    mk \<in> market_ids l \<longleftrightarrow> (\<exists>i x. bt_get (la_leases l) i = Some x \<and> mk \<in> ls_markets x)"
  unfolding market_ids_def Union_iff Bex_def set_map image_iff by (metis bt_values_iff)

lemma union_after_replacement_exact:
  assumes ok: "leases_ok l" and r: "replace i ttl expected ms eligible now l = Inr l'"
  shows "union_after_replacement i ms l = Inr (market_ids l')"
proof -
  have wf: "bt_wf (la_leases l)" using ok by (simp add: leases_ok_def)
  from r obtain x where x: "bt_get (la_leases l) i = Some x"
    and l': "l' = put_lease i (x\<lparr> ls_markets := ms, ls_expires := now + int ttl \<rparr>) l"
    by (auto simp: replace_def and_then_Inr_iff)
  let ?new = "\<lambda>k y. if k = i then ms else ls_markets y"
  have wf': "bt_wf (la_leases l')" using wf by (simp add: l' put_lease_def)
  have "mk \<in> \<Union> (set (map (\<lambda>(k, x). ?new k x) (la_leases l))) \<longleftrightarrow> mk \<in> market_ids l'" for mk
  proof
    assume "mk \<in> \<Union> (set (map (\<lambda>(k, x). ?new k x) (la_leases l)))"
    then obtain k y where y: "(k, y) \<in> set (la_leases l)" "mk \<in> ?new k y" by auto
    then have "bt_get (la_leases l) k = Some y" by (simp add: bt_get_iff [OF wf])
    then have "\<exists>z. bt_get (la_leases l') k = Some z \<and> mk \<in> ls_markets z" using y(2) by (auto simp: l' put_lease_def)
    then show "mk \<in> market_ids l'" unfolding market_ids_iff [OF wf'] by blast
  next
    assume "mk \<in> market_ids l'"
    then obtain k z where z: "bt_get (la_leases l') k = Some z" "mk \<in> ls_markets z"
      unfolding market_ids_iff [OF wf'] by blast
    then have "(k, if k = i then x else z) \<in> set (la_leases l)" "mk \<in> ?new k (if k = i then x else z)"
      using x by (auto simp: l' put_lease_def bt_get_iff [OF wf] split: if_splits)
    then show "mk \<in> \<Union> (set (map (\<lambda>(k, x). ?new k x) (la_leases l)))"
      by (intro UnionI [of "?new k (if k = i then x else z)"]) force+
  qed
  then show ?thesis using x by (auto simp: union_after_replacement_def bt_contains_def)
qed

lemma union_after_release_exact:
  assumes r: "release i l = (Inr (), l')"
  shows "union_after_release i l = Inr (market_ids l')"
proof -
  have m: "map (\<lambda>(k, x). ls_markets x) m = map ls_markets (bt_values m)" for m :: "(string, lease) btree"
    by (simp add: bt_values_def case_prod_beta comp_def)
  from r have "la_leases l' = filter (\<lambda>(k, v). k \<noteq> i) (la_leases l)" "bt_contains (la_leases l) i"
    by (auto simp: release_def bt_remove_def split: if_splits)
  then show ?thesis by (simp add: union_after_release_def m market_ids_def del: set_map)
qed

section \<open>Scopes\<close>

definition registry_ok :: "'a registry \<Rightarrow> bool" where
  "registry_ok r \<longleftrightarrow> sp_retired (rg_active r) = None
     \<and> (\<forall>p. rg_previous r = Some p \<longrightarrow> sp_retired p \<noteq> None \<and> sp_revision p < sp_revision (rg_active r) \<and> sp_id p \<noteq> sp_id (rg_active r))"

datatype 'a scope_op = Activate string u64 string 'a int | Check string u64 string int | Get string int | Readable int

fun scope_step :: "'a registry \<Rightarrow> 'a scope_op \<Rightarrow> 'a registry" where
  "scope_step r (Activate expected revision i v now) = snd (activate expected revision i v now r)"
| "scope_step r (Check expected revision i now) = snd (check_activation expected revision i now r)"
| "scope_step r (Get i now) = snd (scope_get i now r)"
| "scope_step r (Readable now) = snd (readable_scopes now r)"

definition scope_run :: "'a scope_op list \<Rightarrow> 'a registry \<Rightarrow> 'a registry" where
  "scope_run ops r = foldl scope_step r ops"

lemma reap_active [simp]: "rg_active (reap now r) = rg_active r"
  by (simp add: reap_def)

lemma reap_ok: "registry_ok r \<Longrightarrow> registry_ok (reap now r)"
  by (simp add: reap_def registry_ok_def)

lemma activate_cases:
  "activate expected revision i v now r = (case activation_guard expected revision i now (reap now r) of
       Inl err \<Rightarrow> (Inl err, reap now r)
     | Inr (n, expires) \<Rightarrow> (Inr \<lparr> sp_id = i, sp_revision = n, sp_value = v, sp_retired = None \<rparr>,
         (reap now r)\<lparr> rg_active := \<lparr> sp_id = i, sp_revision = n, sp_value = v, sp_retired = None \<rparr>,
           rg_previous := Some ((rg_active r)\<lparr> sp_retired := Some expires \<rparr>) \<rparr>))"
  by (simp add: activate_def Let_def split: sum.split)

lemma activation_guardD:
  assumes "activation_guard expected revision i now r = Inr (n, expires)"
  shows "sp_id (rg_active r) = expected" "sp_revision (rg_active r) = revision" "i \<noteq> sp_id (rg_active r)"
    "rg_previous r = None" "revision < n" "expires = now + int (rg_grace r)"
  using assms unat_add1 [of revision]
  by (auto simp: activation_guard_def and_then_Inr_iff checked_instant_def word_less_nat_alt split: if_splits)

lemma scope_step_ok:
  assumes "registry_ok r"
  shows "registry_ok (scope_step r turn) \<and> sp_revision (rg_active r) \<le> sp_revision (rg_active (scope_step r turn))"
proof (cases turn)
  case (Activate expected revision i v now)
  show ?thesis
  proof (cases "activation_guard expected revision i now (reap now r)")
    case (Inr ne)
    then obtain n expires where "activation_guard expected revision i now (reap now r) = Inr (n, expires)" by (cases ne) auto
    with activation_guardD [OF this] assms show ?thesis
      by (simp add: Activate activate_cases registry_ok_def)
  qed (use assms reap_ok [OF assms] in \<open>simp add: Activate activate_cases\<close>)
qed (use reap_ok [OF assms] in \<open>simp_all add: check_activation_def scope_get_def readable_scopes_def Let_def\<close>)

lemma scope_run_ok:
  assumes "registry_ok r"
  shows "registry_ok (scope_run ops r) \<and> sp_revision (rg_active r) \<le> sp_revision (rg_active (scope_run ops r))"
  using assms
proof (induction ops arbitrary: r)
  case (Cons turn ops)
  from scope_step_ok [OF Cons.prems, of turn] Cons.IH [of "scope_step r turn"] show ?case
    by (auto simp: scope_run_def intro: order.trans)
qed (simp add: scope_run_def)

lemma registry_new_ok: "registry_new i revision v grace limit = Inr r \<Longrightarrow> registry_ok r"
  by (auto simp: registry_new_def and_then_Inr_iff registry_ok_def)

section \<open>The journal\<close>

lemma try_map_cong: "(\<And>x. x \<in> set xs \<Longrightarrow> f x = g x) \<Longrightarrow> try_map f xs = try_map g xs"
  by (induction xs) auto

lemma try_map_Inr: "try_map f xs = Inr ys \<Longrightarrow> length ys = length xs \<and> (\<forall>i < length xs. f (xs ! i) = Inr (ys ! i))"
proof (induction xs arbitrary: ys)
  case (Cons x xs)
  then obtain y zs where "f x = Inr y" "try_map f xs = Inr zs" "ys = y # zs" by (auto simp: and_then_Inr_iff)
  with Cons.IH [of zs] show ?case by (auto simp: less_Suc_eq_0_disj)
qed simp

definition journal_ok :: "journal_codec \<Rightarrow> journal \<Rightarrow> bool" where
  "journal_ok jc j \<longleftrightarrow> validate (jn_state j) = Inr () \<and> 1024 \<le> jn_maximum_bytes j \<and> jn_maximum_bytes j \<le> 256 * 1024 * 1024
     \<and> (\<exists>st bytes. jc_encode jc st = Inr bytes \<and> jn_disk j = Some bytes \<and> validate st = Inr () \<and> length bytes \<le> jn_maximum_bytes j)"

definition in_step :: "journal_codec \<Rightarrow> journal \<Rightarrow> bool" where
  "in_step jc j \<longleftrightarrow> (\<exists>bytes. jc_encode jc (jn_state j) = Inr bytes \<and> jn_disk j = Some bytes)"

datatype journal_op =
    Admit write_outcome "json list" "string set"
  | Retire write_outcome "string set" u64
  | Settled write_outcome u64
  | Cancel write_outcome "string set" u64 u64 string

fun write_of :: "journal_op \<Rightarrow> write_outcome" where
  "write_of (Admit io _ _) = io"
| "write_of (Retire io _ _) = io"
| "write_of (Settled io _) = io"
| "write_of (Cancel io _ _ _ _) = io"

fun journal_step :: "journal_codec \<Rightarrow> journal \<Rightarrow> journal_op \<Rightarrow> journal" where
  "journal_step jc j (Admit io records acquisition) = snd (admit jc io records acquisition j)"
| "journal_step jc j (Retire io ids ticket) = snd (retire jc io ids ticket j)"
| "journal_step jc j (Settled io ticket) = snd (settled jc io ticket j)"
| "journal_step jc j (Cancel io ids ticket revision catalog) = snd (cancel_unstarted_retirement jc io ids ticket revision catalog j)"

definition journal_run :: "journal_codec \<Rightarrow> journal_op list \<Rightarrow> journal \<Rightarrow> journal" where
  "journal_run jc ops j = foldl (journal_step jc) j ops"

lemma commit_ok: "journal_ok jc j \<Longrightarrow> journal_ok jc (snd (commit jc io st j))"
  by (auto simp: commit_def journal_ok_def not_less split: sum.split write_outcome.split)

lemma commit_in_step: "in_step jc j \<Longrightarrow> io \<noteq> FailedAfterRename \<Longrightarrow> in_step jc (snd (commit jc io st j))"
  by (auto simp: commit_def in_step_def split: sum.split write_outcome.split)

lemma journal_step_commits:
  "journal_step jc j turn = j \<or> (\<exists>st. journal_step jc j turn = snd (commit jc (write_of turn) st j))"
  by (cases turn) (auto simp: admit_def retire_def settled_def cancel_unstarted_retirement_def Let_def
      split: sum.split option.split)

lemma journal_step_ok:
  assumes "journal_ok jc j"
  shows "journal_ok jc (journal_step jc j turn)"
  using journal_step_commits [of jc j turn] assms commit_ok by metis

lemma journal_step_in_step:
  assumes "in_step jc j" and "write_of turn \<noteq> FailedAfterRename"
  shows "in_step jc (journal_step jc j turn)"
  using journal_step_commits [of jc j turn] assms commit_in_step by metis

lemma journal_run_ok: "journal_ok jc j \<Longrightarrow> journal_ok jc (journal_run jc ops j)"
  by (induction ops arbitrary: j) (simp_all add: journal_run_def journal_step_ok)

lemma journal_run_in_step:
  "in_step jc j \<Longrightarrow> \<forall>turn \<in> set ops. write_of turn \<noteq> FailedAfterRename \<Longrightarrow> in_step jc (journal_run jc ops j)"
  by (induction ops arbitrary: j) (simp_all add: journal_run_def journal_step_in_step)

lemma journal_open_ok:
  assumes "journal_open jc io maximum initial disk = (Inr j, disk')"
  shows "journal_ok jc j \<and> in_step jc j"
proof -
  from assms obtain saved where v: "validate initial = Inr ()" and r: "journal_read jc maximum disk = Inr saved"
    and c: "commit jc io (unwrap_or initial saved) \<lparr> jn_state = unwrap_or initial saved, jn_disk = disk, jn_maximum_bytes = maximum \<rparr>
      = (Inr (), j)"
    by (auto simp: journal_open_def and_then_Inr_iff Let_def split: sum.splits prod.splits)
  have "1024 \<le> maximum \<and> maximum \<le> 256 * 1024 * 1024" using r by (auto simp: journal_read_def and_then_Inr_iff)
  then show ?thesis using c
    by (auto simp: commit_def journal_ok_def in_step_def not_less split: sum.splits write_outcome.splits if_splits)
qed

text \<open>Reading back what was written, as far as \<open>serde_json\<close> reads back this one value.\<close>

lemma envelope_parts [simp]: "is_envelope (envelope jc v)" "json_at ''state'' (envelope jc v) = v"
  "json_at ''sha256'' (envelope jc v) = JString (canonical_hash jc v)"
  by (simp_all add: envelope_def json_at_def unwrap_or_def)

lemma decode_written:
  assumes "jc_parse jc (jc_text jc (envelope jc v)) = Inr (envelope jc v)"
  shows "jc_decode jc (jc_text jc (envelope jc v)) = jc_from_value jc v"
  using assms by (simp add: jc_decode_def)

lemma decode_altered:
  assumes "jc_parse jc bytes = Inr w" and "jc_text jc w \<noteq> bytes"
  shows "jc_decode jc bytes = Inl ''runtime journal canonical envelope''"
  using assms by (simp add: jc_decode_def and_then_def ensure_def)

lemma commit_maximum: "jn_maximum_bytes (snd (commit jc io st j)) = jn_maximum_bytes j"
  by (auto simp: commit_def split: sum.split write_outcome.split)

lemma journal_step_maximum: "jn_maximum_bytes (journal_step jc j turn) = jn_maximum_bytes j"
  using journal_step_commits [of jc j turn] commit_maximum by metis

lemma journal_run_maximum: "jn_maximum_bytes (journal_run jc ops j) = jn_maximum_bytes j"
  by (induction ops arbitrary: j) (simp_all add: journal_run_def journal_step_maximum)

section \<open>Retiring and cancelling\<close>

text \<open>What moving some markets out of the records does to each of them.\<close>

lemma move_records_frame:
  "move_records ids st = Inr st' \<Longrightarrow>
    st' = st\<lparr> ss_records := ss_records st', ss_retiring_records := ss_retiring_records st',
        ss_acquisition_market_ids := ss_acquisition_market_ids st - set ids \<rparr>"
proof (induction ids arbitrary: st)
  case (Cons i ids)
  from Cons.prems obtain v where rest: "move_records ids (st\<lparr> ss_records := bt_remove i (ss_records st),
       ss_retiring_records := bt_insert i v (ss_retiring_records st),
       ss_acquisition_market_ids := ss_acquisition_market_ids st - {i} \<rparr>) = Inr st'"
    by (auto simp: and_then_Inr_iff)
  have "ss_acquisition_market_ids st - {i} - set ids = ss_acquisition_market_ids st - set (i # ids)" by auto
  with Cons.IH [OF rest] show ?case by simp
qed simp

lemma move_records_get:
  assumes "move_records ids st = Inr st'" and "distinct ids" and "bt_wf (ss_records st)" "bt_wf (ss_retiring_records st)"
  shows "bt_wf (ss_records st') \<and> bt_wf (ss_retiring_records st')
    \<and> bt_get (ss_records st') k = (if k \<in> set ids then None else bt_get (ss_records st) k)
    \<and> bt_get (ss_retiring_records st') k = (if k \<in> set ids then bt_get (ss_records st) k else bt_get (ss_retiring_records st) k)
    \<and> (k \<in> set ids \<longrightarrow> bt_get (ss_records st) k \<noteq> None)"
  using assms
proof (induction ids arbitrary: st)
  case (Cons i ids)
  from Cons.prems(1) obtain v where r: "bt_get (ss_records st) i = Some v"
    and rest: "move_records ids (st\<lparr> ss_records := bt_remove i (ss_records st),
       ss_retiring_records := bt_insert i v (ss_retiring_records st),
       ss_acquisition_market_ids := ss_acquisition_market_ids st - {i} \<rparr>) = Inr st'"
    by (auto simp: and_then_Inr_iff)
  from Cons.IH [OF rest] Cons.prems(2-4) r show ?case by (cases "k = i") (auto split: if_splits)
qed simp

lemma restore_records_get:
  assumes "ss_records st = base" and "distinct (map fst xs)" and "\<forall>k \<in> set (map fst xs). bt_get base k = None" and "bt_wf base"
  shows "\<exists>m. restore_records xs st = Inr (st\<lparr> ss_records := m \<rparr>) \<and> bt_wf m
    \<and> (\<forall>k. bt_get m k = (case bt_get xs k of Some v \<Rightarrow> Some v | None \<Rightarrow> bt_get base k))"
  using assms
proof (induction xs arbitrary: st base)
  case Nil
  then show ?case by (auto simp: bt_get_def intro!: exI [of _ base])
next
  case (Cons x xs)
  obtain i v where x: "x = (i, v)" by fastforce
  let ?base = "bt_insert i v base"
  have none: "bt_get xs i = None" "\<not> bt_contains base i"
    using Cons.prems(2,3) by (auto simp: x bt_get_def map_of_eq_None_iff bt_contains_def)
  have "\<exists>m. restore_records xs (st\<lparr> ss_records := ?base \<rparr>) = Inr (st\<lparr> ss_records := ?base \<rparr>\<lparr> ss_records := m \<rparr>) \<and> bt_wf m
    \<and> (\<forall>k. bt_get m k = (case bt_get xs k of Some v \<Rightarrow> Some v | None \<Rightarrow> bt_get ?base k))"
    by (rule Cons.IH) (use Cons.prems in \<open>auto simp: x\<close>)
  then obtain m where m: "restore_records xs (st\<lparr> ss_records := ?base \<rparr>) = Inr (st\<lparr> ss_records := m \<rparr>)" "bt_wf m"
    "\<And>k. bt_get m k = (case bt_get xs k of Some v \<Rightarrow> Some v | None \<Rightarrow> bt_get ?base k)" by auto
  have "bt_get m k = (case bt_get (x # xs) k of Some v \<Rightarrow> Some v | None \<Rightarrow> bt_get base k)" for k
    using m(3) [of k] none(1) by (cases "k = i") (simp_all add: x bt_get_Cons split: option.split)
  with m(1,2) none(2) Cons.prems(1) show ?case by (auto simp: x intro!: exI [of _ m])
qed

lemma cancelled_state:
  assumes wf: "bt_wf (ss_records st)" and free: "ss_retiring_records st = []" "ss_retirement_ticket st = None"
      "ss_retiring_acquisition_market_ids st = None"
    and fin: "finite ids"
    and move: "move_records (sorted_list_of_set ids) (st\<lparr> ss_retiring_acquisition_market_ids := Some (ids \<inter> ss_acquisition_market_ids st) \<rparr>) = Inr m"
  shows "\<exists>r. restore_records (ss_retiring_records m) (m\<lparr> ss_retirement_ticket := Some ticket, ss_retiring_records := [] \<rparr>) = Inr r
    \<and> r\<lparr> ss_acquisition_market_ids := ss_acquisition_market_ids r \<union> (ids \<inter> ss_acquisition_market_ids st),
        ss_retiring_acquisition_market_ids := None, ss_retirement_ticket := None \<rparr> = st"
    and "set (bt_keys (ss_retiring_records m)) = ids"
    and "ss_retiring_acquisition_market_ids m = Some (ids \<inter> ss_acquisition_market_ids st)"
    and "ss_active_revision m = ss_active_revision st" "ss_catalog_revision m = ss_catalog_revision st"
proof -
  let ?st = "st\<lparr> ss_retiring_acquisition_market_ids := Some (ids \<inter> ss_acquisition_market_ids st) \<rparr>"
  from move_records_frame [OF move] fin have
    m: "m = ?st\<lparr> ss_records := ss_records m, ss_retiring_records := ss_retiring_records m,
        ss_acquisition_market_ids := ss_acquisition_market_ids st - ids \<rparr>" by simp
  from move_records_get [OF move] wf free(1) fin have
    wfm: "bt_wf (ss_records m)" "bt_wf (ss_retiring_records m)"
    and get: "bt_get (ss_records m) k = (if k \<in> ids then None else bt_get (ss_records st) k)"
      "bt_get (ss_retiring_records m) k = (if k \<in> ids then bt_get (ss_records st) k else None)"
      "k \<in> ids \<Longrightarrow> bt_get (ss_records st) k \<noteq> None" for k
    by (simp_all add: bt_get_def)
  note fields = m [THEN arg_cong, of ss_retiring_acquisition_market_ids, simplified]
    m [THEN arg_cong, of ss_active_revision, simplified] m [THEN arg_cong, of ss_catalog_revision, simplified]
  show "ss_retiring_acquisition_market_ids m = Some (ids \<inter> ss_acquisition_market_ids st)"
    "ss_active_revision m = ss_active_revision st" "ss_catalog_revision m = ss_catalog_revision st" by (fact fields)+
  have keys: "k \<in> set (bt_keys (ss_retiring_records m)) \<longleftrightarrow> k \<in> ids" for k
    using get(2,3) [of k] by (auto simp: bt_contains_iff_keys [symmetric] bt_contains_def)
  then show "set (bt_keys (ss_retiring_records m)) = ids" by blast
  have "bt_get (ss_records m) k = None" if "k \<in> set (map fst (ss_retiring_records m))" for k
    using keys [of k] get(1) [of k] that by (simp add: bt_keys_def)
  with restore_records_get [of "m\<lparr> ss_retirement_ticket := Some ticket, ss_retiring_records := [] \<rparr>" "ss_records m" "ss_retiring_records m"]
    bt_wf_distinct [OF wfm(2)] wfm(1) obtain r where
    r: "restore_records (ss_retiring_records m) (m\<lparr> ss_retirement_ticket := Some ticket, ss_retiring_records := [] \<rparr>)
      = Inr (m\<lparr> ss_retirement_ticket := Some ticket, ss_retiring_records := [], ss_records := r \<rparr>)" "bt_wf r"
    "\<And>k. bt_get r k = (case bt_get (ss_retiring_records m) k of Some v \<Rightarrow> Some v | None \<Rightarrow> bt_get (ss_records m) k)"
    by auto
  have "r = ss_records st"
  proof (rule bt_ext [OF r(2) wf])
    show "bt_get r k = bt_get (ss_records st) k" for k
      using get [of k] by (auto simp: r(3) split: option.split)
  qed
  moreover obtain rs qs where mm: "m = ?st\<lparr> ss_records := rs, ss_retiring_records := qs,
      ss_acquisition_market_ids := ss_acquisition_market_ids st - ids \<rparr>" using m by blast
  moreover have "(ss_acquisition_market_ids st - ids) \<union> ids \<inter> ss_acquisition_market_ids st = ss_acquisition_market_ids st" by blast
  moreover have "st\<lparr> ss_retiring_records := [], ss_retiring_acquisition_market_ids := None, ss_retirement_ticket := None \<rparr> = st"
    using free by simp
  ultimately have "m\<lparr> ss_retiring_records := [], ss_records := r,
      ss_acquisition_market_ids := ss_acquisition_market_ids m \<union> (ids \<inter> ss_acquisition_market_ids st),
      ss_retiring_acquisition_market_ids := None, ss_retirement_ticket := None \<rparr> = st"
    by simp
  with r(1) show "\<exists>r. restore_records (ss_retiring_records m) (m\<lparr> ss_retirement_ticket := Some ticket, ss_retiring_records := [] \<rparr>) = Inr r
    \<and> r\<lparr> ss_acquisition_market_ids := ss_acquisition_market_ids r \<union> (ids \<inter> ss_acquisition_market_ids st),
        ss_retiring_acquisition_market_ids := None, ss_retirement_ticket := None \<rparr> = st"
    by simp
qed

section \<open>Moving cold metadata\<close>

lemma market_of_id: "market_of st i = Inr mk \<Longrightarrow> sm_market_id mk = i"
  by (auto simp: market_of_def and_then_Inr_iff)

lemma markets_by_ids_ids:
  assumes "markets_by_ids st ids = Inr ms" and "finite ids"
  shows "set (map sm_market_id ms) = ids"
proof -
  from try_map_Inr [OF assms(1) [unfolded markets_by_ids_def]] have len: "length ms = length (sorted_list_of_set ids)"
    and each: "\<forall>i < length (sorted_list_of_set ids). market_of st (sorted_list_of_set ids ! i) = Inr (ms ! i)" by simp_all
  have "sm_market_id (ms ! i) = sorted_list_of_set ids ! i" if "i < length ms" for i
    using each len that market_of_id by metis
  then have "map sm_market_id ms = sorted_list_of_set ids"
    by (intro nth_equalityI) (simp_all add: len)
  then show ?thesis using assms(2) by simp
qed

lemma restart_ids_finite: "restart_ids st = Inr ids \<Longrightarrow> finite ids"
  by (auto simp: restart_ids_def live_ids_def discovery_ids_def and_then_Inr_iff split: if_splits)

text \<open>The markets a restart needs depend on the configuration and on the records of the markets it names.\<close>

lemma restart_ids_cong:
  assumes "restart_ids st = Inr ids" and "ss_pool st' = ss_pool st" "ss_active_config st' = ss_active_config st"
    and "\<And>i. i \<in> ids \<Longrightarrow> bt_get (ss_records st') i = bt_get (ss_records st) i"
    and "ids \<subseteq> ss_acquisition_market_ids st'"
  shows "restart_ids st' = Inr ids"
proof (cases "ss_pool st = ''live''")
  case True
  with assms(1) obtain vs roots xss where l: "as_array (json_at ''configured_markets'' (ss_active_config st)) = Some vs"
    "keyed_ids ''restart scope market'' vs = Inr roots"
    "try_map (\<lambda>i. and_then (of_option ''restart scope metadata missing'' (bt_get (ss_records st) i)) relation_ids)
        (sorted_list_of_set (set roots)) = Inr xss" "ids = set roots \<union> set (concat xss)"
    by (auto simp: restart_ids_def live_ids_def and_then_Inr_iff)
  have "try_map (\<lambda>i. and_then (of_option ''restart scope metadata missing'' (bt_get (ss_records st') i)) relation_ids)
        (sorted_list_of_set (set roots))
      = try_map (\<lambda>i. and_then (of_option ''restart scope metadata missing'' (bt_get (ss_records st) i)) relation_ids)
        (sorted_list_of_set (set roots))"
    by (rule try_map_cong) (simp add: assms(4) l(4))
  then have "live_ids st' = Inr ids" using l by (simp add: live_ids_def assms(3))
  with True assms(2,5) show ?thesis by (simp add: restart_ids_def)
next
  case False
  have "discovery_ids st' = discovery_ids st" by (simp add: discovery_ids_def assms(3))
  with False assms(1,2,5) show ?thesis by (auto simp: restart_ids_def and_then_Inr_iff)
qed

lemma markets_by_ids_cong:
  assumes "finite ids" and "\<And>i. i \<in> ids \<Longrightarrow> bt_get (ss_records st') i = bt_get (ss_records st) i"
  shows "markets_by_ids st' ids = markets_by_ids st ids"
  unfolding markets_by_ids_def by (rule try_map_cong) (simp add: market_of_def assms)

lemma bt_retain_twice: "bt_retain (\<lambda>i v. P i) (bt_retain (\<lambda>i v. Q i) m) = bt_retain (\<lambda>i v. P i \<and> Q i) m"
  by (induction m) (auto simp: bt_retain_def)

lemma bt_retain_none [simp]: "bt_retain (\<lambda>i v. False) m = []"
  by (simp add: bt_retain_def)

section \<open>Concrete inputs\<close>

definition demo_scope_record :: "string \<Rightarrow> json" where
  "demo_scope_record i = JObject [(''identity'', JObject [(''market_id'', JString i), (''condition_id'', JString ''c''),
     (''outcomes'', JArray [JObject [(''token_id'', JString (i @ ''1''))], JObject [(''token_id'', JString (i @ ''2''))]])])]"

definition demo_scope :: scope_state where
  "demo_scope = \<lparr> ss_schema_version = ''marketcow.runtime-scope-state.v1'', ss_catalog_revision = ''r'',
     ss_catalog_manifest_sha256 = ''s'', ss_pool = ''discovery'',
     ss_active_config = JObject [(''catalog_revision'', JString ''r''), (''market_ids'', JArray [JString ''a'']), (''relations'', JArray [])],
     ss_active_revision = 1, ss_catalog_source = JNull,
     ss_records = [(''a'', demo_scope_record ''a''), (''b'', demo_scope_record ''b'')],
     ss_acquisition_market_ids = {''a'', ''b''}, ss_retiring_records = [], ss_retirement_ticket = None,
     ss_retiring_acquisition_market_ids = None \<rparr>"

text \<open>A codec for finitely many states.\<close>

definition demo_codec :: "scope_state list \<Rightarrow> journal_codec" where
  "demo_codec sts = \<lparr>
     jc_to_value = (\<lambda>st. if st \<in> set sts then Inr (JString (replicate (length (takeWhile (\<lambda>x. x \<noteq> st) sts)) CHR ''x''))
       else Inl ''serialize''),
     jc_from_value = (\<lambda>v. case as_str v of None \<Rightarrow> Inl ''from_value''
       | Some s \<Rightarrow> if length s < length sts then Inr (sts ! length s) else Inl ''from_value''),
     jc_text = (\<lambda>v. unwrap_or [] (as_str (json_at ''state'' v))),
     jc_parse = (\<lambda>s. Inr (JObject [(''sha256'', JString []), (''state'', JString s)])),
     jc_sha256 = (\<lambda>text. []) \<rparr>"

lemma takeWhile_finds:
  "x \<in> set xs \<Longrightarrow> length (takeWhile (\<lambda>y. y \<noteq> x) xs) < length xs \<and> xs ! length (takeWhile (\<lambda>y. y \<noteq> x) xs) = x"
  by (induction xs) auto

lemma demo_codec_sound:
  assumes "jc_to_value (demo_codec sts) st = Inr v"
  shows "jc_parse (demo_codec sts) (jc_text (demo_codec sts) (envelope (demo_codec sts) v)) = Inr (envelope (demo_codec sts) v)"
    and "jc_from_value (demo_codec sts) v = Inr st"
  using takeWhile_finds [of st sts] assms
  by (auto simp: demo_codec_def envelope_def canonical_hash_def json_at_def unwrap_or_def split: if_splits)

lemma demo_scope_valid: "validate demo_scope = Inr ()"
  by (simp add: validate_def demo_scope_def json_at_def record_tokens_def record_identity_def demo_scope_record_def
      is_some_and_def is_none_or_def bt_contains_def bt_get_def unwrap_or_def)

end
