(* ===== verification/Scope_Safety.thy ===== *)
theory Scope_Safety
  imports Scope_Theorems
begin

text \<open>
  What the acquisition scopes promise their callers: a consumer that falls silent stops costing anything, a
  scope revision is used once and the scope it replaces lives for its grace, the journal file can be read at
  every moment, a cancelled retirement leaves no trace, and the offline migration loses nothing.
\<close>

section \<open>Leases\<close>

text \<open>
  C36: a consumer cannot keep paid acquisition running by dying. Start from fresh leases and make any calls for
  any consumers; once the longest lease duration has passed since the last call for one of them, the next
  expiry has dropped its lease. When that holds for every consumer, acquisition is off and its union of markets
  is empty. Meanwhile no sequence of calls goes past the configured number of leases.
\<close>

theorem silent_consumer_is_dropped:
  "leases_new required maximum ttl = Inr l \<longrightarrow> s + int ttl \<le> t \<longrightarrow>
    ((\<forall>turn \<in> set ops. op_id turn = Some i \<longrightarrow> (\<forall>now. op_time turn = Some now \<longrightarrow> now \<le> s)) \<longrightarrow>
       bt_get (la_leases (snd (expire t (lease_run ops l)))) i = None)
    \<and> ((\<forall>turn \<in> set ops. \<forall>now. op_time turn = Some now \<longrightarrow> now \<le> s) \<longrightarrow>
       enabled (snd (expire t (lease_run ops l))) = (\<not> required) \<and> market_ids (snd (expire t (lease_run ops l))) = {})
    \<and> (required \<longrightarrow> length (la_leases (lease_run ops l)) \<le> maximum)"
proof (intro impI)
  assume new: "leases_new required maximum ttl = Inr l" and t: "s + int ttl \<le> t"
  from new have l: "l = \<lparr> la_required = required, la_maximum = maximum, la_maximum_ttl = ttl, la_leases = [] \<rparr>"
    by (auto simp: leases_new_def and_then_Inr_iff)
  have ok: "leases_ok l" by (simp add: l leases_ok_def)
  note run = lease_run_ok [OF ok, of ops]
  have wf: "bt_wf (la_leases (lease_run ops l))" using run by (simp add: leases_ok_def)
  have gone: "bt_get (la_leases (snd (expire t (lease_run ops l)))) i = None"
    if "\<forall>turn \<in> set ops. op_id turn = Some i \<longrightarrow> (\<forall>now. op_time turn = Some now \<longrightarrow> now \<le> s)" for i
  proof -
    have "ls_expires x \<le> s + int ttl" if "bt_get (la_leases (lease_run ops l)) i = Some x" for x
      by (rule lease_run_expires [OF ok that]) (use \<open>\<forall>turn \<in> set ops. op_id turn = Some i \<longrightarrow> _\<close> in \<open>auto simp: l bt_get_def\<close>)
    with t show ?thesis
      by (fastforce simp: expire_def Let_def bt_get_retain [OF wf] split: option.splits)
  qed
  have "la_leases (snd (expire t (lease_run ops l))) = []"
    if "\<forall>turn \<in> set ops. \<forall>now. op_time turn = Some now \<longrightarrow> now \<le> s"
  proof (rule bt_ext)
    show "bt_wf (la_leases (snd (expire t (lease_run ops l))))" using wf by (simp add: expire_def Let_def)
    show "bt_get (la_leases (snd (expire t (lease_run ops l)))) i = bt_get [] i" for i
      using gone [of i] that by (simp add: bt_get_def)
  qed simp
  then show "((\<forall>turn \<in> set ops. op_id turn = Some i \<longrightarrow> (\<forall>now. op_time turn = Some now \<longrightarrow> now \<le> s)) \<longrightarrow>
       bt_get (la_leases (snd (expire t (lease_run ops l)))) i = None)
    \<and> ((\<forall>turn \<in> set ops. \<forall>now. op_time turn = Some now \<longrightarrow> now \<le> s) \<longrightarrow>
       enabled (snd (expire t (lease_run ops l))) = (\<not> required) \<and> market_ids (snd (expire t (lease_run ops l))) = {})
    \<and> (required \<longrightarrow> length (la_leases (lease_run ops l)) \<le> maximum)"
    using gone run by (auto simp: enabled_def market_ids_def bt_values_def expire_def Let_def l leases_ok_def)
qed

theorem silent_consumer_is_dropped_witness:
  "bt_get (la_leases (snd (expire 20 (lease_run [Acquire ''a'' 10 {''m''} {''m''} 5, Acquire ''b'' 10 {''m''} {''m''} 15]
     \<lparr> la_required = True, la_maximum = 2, la_maximum_ttl = 10, la_leases = [] \<rparr>)))) ''a'' = None
   \<and> bt_get (la_leases (lease_run [Acquire ''a'' 10 {''m''} {''m''} 5, Acquire ''b'' 10 {''m''} {''m''} 15]
     \<lparr> la_required = True, la_maximum = 2, la_maximum_ttl = 10, la_leases = [] \<rparr>)) ''a'' \<noteq> None
   \<and> bt_get (la_leases (snd (expire 20 (lease_run [Acquire ''a'' 10 {''m''} {''m''} 5, Acquire ''b'' 10 {''m''} {''m''} 15]
     \<lparr> la_required = True, la_maximum = 2, la_maximum_ttl = 10, la_leases = [] \<rparr>)))) ''b'' \<noteq> None"
proof -
  let ?l = "\<lparr> la_required = True, la_maximum = 2, la_maximum_ttl = 10, la_leases = [] \<rparr>"
  let ?ops = "[Acquire ''a'' 10 {''m''} {''m''} 5, Acquire ''b'' 10 {''m''} {''m''} 15]"
  have "leases_new True 2 10 = Inr ?l" by (simp add: leases_new_def one_hour_def)
  with silent_consumer_is_dropped [of True 2 10 ?l 5 20 ?ops "''a''"]
  have "bt_get (la_leases (snd (expire 20 (lease_run ?ops ?l)))) ''a'' = None" by simp
  moreover have run: "la_leases (lease_run ?ops ?l)
      = [(''a'', \<lparr> ls_markets = {''m''}, ls_expires = 15 \<rparr>), (''b'', \<lparr> ls_markets = {''m''}, ls_expires = 25 \<rparr>)]"
    by (simp add: lease_run_def keep_or_def acquire_def validate_acquire_def validate_ttl_def put_lease_def bt_get_def)
  ultimately show ?thesis by (simp add: expire_def Let_def run bt_retain_def bt_get_def)
qed

section \<open>Scopes\<close>

lemma check_is_dry_activate:
  "fst (check_activation expected revision i now r) = Inr () \<longleftrightarrow> (\<exists>sc. fst (activate expected revision i v now r) = Inr sc)"
  "snd (check_activation expected revision i now r) = reap now r"
  by (auto simp: check_activation_def activate_cases Let_def and_then_def split: sum.split)

lemma spent_revision:
  assumes "revision < sp_revision (rg_active r)"
  shows "activation_guard expected revision i now (reap now r) = Inl ''scope revision conflict''"
proof -
  from assms have "sp_revision (rg_active r) \<noteq> revision" by auto
  then show ?thesis by (simp add: activation_guard_def ensure_def and_then_def)
qed

text \<open>
  of all candidates prepared against one revision of the scope, at most one becomes active. After any
  sequence of calls following a successful activation, both the activation and its check refuse every other
  candidate that names the revision it replaced, at whatever time and under whatever scope identity. The check
  alone accepts exactly what the activation would.
\<close>

theorem scope_revision_is_used_once:
  "registry_ok r \<longrightarrow> fst (activate expected revision i v now r) = Inr sc \<longrightarrow>
    fst (check_activation expected revision i now r) = Inr ()
    \<and> fst (activate expected' revision i' v' now' (scope_run ops (snd (activate expected revision i v now r))))
        = Inl ''scope revision conflict''
    \<and> fst (check_activation expected' revision i' now' (scope_run ops (snd (activate expected revision i v now r))))
        = Inl ''scope revision conflict''"
proof (intro impI)
  assume ok: "registry_ok r" and act: "fst (activate expected revision i v now r) = Inr sc"
  let ?r = "scope_run ops (snd (activate expected revision i v now r))"
  from act obtain n e where g: "activation_guard expected revision i now (reap now r) = Inr (n, e)"
    by (auto simp: activate_cases split: sum.splits)
  have after: "registry_ok (snd (activate expected revision i v now r))"
    using scope_step_ok [OF ok, of "Activate expected revision i v now"] by simp
  have "revision < sp_revision (rg_active (snd (activate expected revision i v now r)))"
    using activation_guardD(5) [OF g] g by (simp add: activate_cases)
  then have "revision < sp_revision (rg_active ?r)"
    using scope_run_ok [OF after, of ops] by (auto intro: less_le_trans)
  from spent_revision [OF this] act check_is_dry_activate(1) [of expected revision i now r v]
  show "fst (check_activation expected revision i now r) = Inr ()
    \<and> fst (activate expected' revision i' v' now' ?r) = Inl ''scope revision conflict''
    \<and> fst (check_activation expected' revision i' now' ?r) = Inl ''scope revision conflict''"
    by (auto simp: activate_cases check_activation_def Let_def and_then_def)
qed

definition demo_registry :: "nat registry" where
  "demo_registry = \<lparr> rg_active = \<lparr> sp_id = ''A'', sp_revision = 1, sp_value = 11, sp_retired = None \<rparr>, rg_previous = None,
     rg_grace = 2, rg_limit = 1000 \<rparr>"

lemma demo_registry_facts:
  "registry_ok demo_registry"
  "activate ''A'' 1 ''B'' 22 5 demo_registry = (Inr \<lparr> sp_id = ''B'', sp_revision = 2, sp_value = 22, sp_retired = None \<rparr>,
     demo_registry\<lparr> rg_active := \<lparr> sp_id = ''B'', sp_revision = 2, sp_value = 22, sp_retired = None \<rparr>,
       rg_previous := Some \<lparr> sp_id = ''A'', sp_revision = 1, sp_value = 11, sp_retired = Some 7 \<rparr> \<rparr>)"
  by (simp_all add: demo_registry_def registry_ok_def activate_cases activation_guard_def reap_def checked_add1_def
      checked_instant_def and_then_def ensure_def of_option_def)

theorem scope_revision_is_used_once_witness:
  "fst (activate ''A'' 1 ''C'' 33 9 (scope_run [Get ''A'' 6, Activate ''B'' 2 ''A'' 11 8] (snd (activate ''A'' 1 ''B'' 22 5 demo_registry))))
     = Inl ''scope revision conflict''"
  using scope_revision_is_used_once [of demo_registry "''A''" 1 "''B''" 22 5 _ "''A''" "''C''" 33 9 "[Get ''A'' 6, Activate ''B'' 2 ''A'' 11 8]"]
    demo_registry_facts by simp

fun scope_time :: "'a scope_op \<Rightarrow> int" where
  "scope_time (Activate expected revision i v now) = now"
| "scope_time (Check expected revision i now) = now"
| "scope_time (Get i now) = now"
| "scope_time (Readable now) = now"

lemma grace_step:
  assumes "rg_previous r = Some old" "sp_retired old = Some e" "scope_time turn < e"
  shows "scope_step r turn = r"
proof -
  have id: "reap (scope_time turn) r = r" using assms by (simp add: reap_def is_some_and_def)
  then show ?thesis using assms
    by (cases turn) (auto simp: activate_cases check_activation_def scope_get_def readable_scopes_def activation_guard_def Let_def
      and_then_def ensure_def split: sum.split)
qed

lemma grace_run:
  assumes "rg_previous r = Some old" "sp_retired old = Some e" "\<forall>turn \<in> set ops. scope_time turn < e"
  shows "scope_run ops r = r"
  using assms(3) by (induction ops) (simp_all add: scope_run_def grace_step [OF assms(1,2)])

text \<open>
  C37: a replaced scope lives for exactly its grace. Until the deadline no call changes the registry, so a second
  replacement cannot push the first one out while readers may still hold it; a reader that names the old scope
  gets it, with the deadline it was told, up to the deadline, and is sent back for a full synchronisation from
  then on, while the new scope can be read all the time.
\<close>

theorem replaced_scope_lives_for_its_grace:
  "activate expected revision i v now r = (Inr sc, r') \<longrightarrow> (\<forall>turn \<in> set ops. scope_time turn < now + int (rg_grace r)) \<longrightarrow>
    scope_run ops r' = r'
    \<and> fst (scope_get expected t (scope_run ops r')) = (if t < now + int (rg_grace r)
        then Inr ((rg_active r)\<lparr> sp_retired := Some (now + int (rg_grace r)) \<rparr>)
        else Inl ''scope unavailable; new full-sync required'')
    \<and> fst (scope_get i t (scope_run ops r')) = Inr sc"
proof (intro impI)
  assume act: "activate expected revision i v now r = (Inr sc, r')"
    and times: "\<forall>turn \<in> set ops. scope_time turn < now + int (rg_grace r)"
  from act obtain n e where g: "activation_guard expected revision i now (reap now r) = Inr (n, e)"
    by (auto simp: activate_cases split: sum.splits)
  have grace: "rg_grace (reap now r) = rg_grace r" by (simp add: reap_def)
  note guard = activation_guardD [OF g]
  have r': "r' = (reap now r)\<lparr> rg_active := sc, rg_previous := Some ((rg_active r)\<lparr> sp_retired := Some e \<rparr>) \<rparr>"
    and sc: "sc = \<lparr> sp_id = i, sp_revision = n, sp_value = v, sp_retired = None \<rparr>"
    using act g by (auto simp: activate_cases)
  have same: "scope_run ops r' = r'"
    by (rule grace_run [of r' "(rg_active r)\<lparr> sp_retired := Some e \<rparr>" e]) (use times guard(6) grace in \<open>simp_all add: r'\<close>)
  have all: "r' = \<lparr> rg_active = sc, rg_previous = Some ((rg_active r)\<lparr> sp_retired := Some (now + int (rg_grace r)) \<rparr>),
      rg_grace = rg_grace r, rg_limit = rg_limit r \<rparr>"
    unfolding r' using guard(6) grace by (cases r) (simp add: reap_def)
  have ids: "sp_id (rg_active r) = expected" "i \<noteq> sp_id (rg_active r)" using guard(1,3) by simp_all
  show "scope_run ops r' = r'
    \<and> fst (scope_get expected t (scope_run ops r')) = (if t < now + int (rg_grace r)
        then Inr ((rg_active r)\<lparr> sp_retired := Some (now + int (rg_grace r)) \<rparr>)
        else Inl ''scope unavailable; new full-sync required'')
    \<and> fst (scope_get i t (scope_run ops r')) = Inr sc"
    unfolding same using ids by (auto simp: scope_get_def Let_def reap_def [of t] all sc is_some_and_def)
qed

theorem replaced_scope_lives_for_its_grace_witness:
  "fst (scope_get ''A'' 6 (scope_run [Activate ''B'' 2 ''C'' 33 6] (snd (activate ''A'' 1 ''B'' 22 5 demo_registry))))
     = Inr \<lparr> sp_id = ''A'', sp_revision = 1, sp_value = 11, sp_retired = Some 7 \<rparr>
   \<and> fst (scope_get ''A'' 7 (scope_run [Activate ''B'' 2 ''C'' 33 6] (snd (activate ''A'' 1 ''B'' 22 5 demo_registry))))
     = Inl ''scope unavailable; new full-sync required''"
proof -
  let ?ops = "[Activate ''B'' 2 ''C'' 33 6]" and ?r = "snd (activate ''A'' 1 ''B'' 22 5 demo_registry)"
  have old: "rg_active demo_registry = \<lparr> sp_id = ''A'', sp_revision = 1, sp_value = 11, sp_retired = None \<rparr>" "rg_grace demo_registry = 2"
    by (simp_all add: demo_registry_def)
  then have "\<forall>turn \<in> set ?ops. scope_time turn < 5 + int (rg_grace demo_registry)" by simp
  note both = replaced_scope_lives_for_its_grace [THEN mp, OF demo_registry_facts(2), THEN mp, OF this, THEN conjunct2, THEN conjunct1]
  show ?thesis using both [of 6] both [of 7] by (simp add: old demo_registry_facts(2))
qed

section \<open>The journal\<close>

text \<open>The catalogue and pool a state belongs to; no operation changes them.\<close>

definition source_of :: "scope_state \<Rightarrow> string \<times> string \<times> string" where
  "source_of st = (ss_catalog_manifest_sha256 st, ss_catalog_revision st, ss_pool st)"

lemma admit_records_source: "admit_records rs st = Inr st' \<Longrightarrow> source_of st' = source_of st"
proof (induction rs arbitrary: st)
  case (Cons v rs)
  then obtain st1 where "admit_records rs st1 = Inr st'" "source_of st1 = source_of st"
    by (auto simp: and_then_Inr_iff source_of_def split: option.splits)
  with Cons.IH show ?case by simp
qed simp

lemma move_records_source: "move_records ids st = Inr st' \<Longrightarrow> source_of st' = source_of st"
  by (subst move_records_frame, assumption) (simp add: source_of_def)

lemma restore_records_source: "restore_records xs st = Inr st' \<Longrightarrow> source_of st' = source_of st"
proof (induction xs arbitrary: st)
  case (Cons x xs)
  then show ?case by (cases x) (force simp: and_then_Inr_iff source_of_def)
qed simp

lemma journal_step_source:
  "journal_step jc j turn = j \<or>
    (\<exists>st. source_of st = source_of (jn_state j) \<and> journal_step jc j turn = snd (commit jc (write_of turn) st j))"
proof (cases turn)
  case (Admit io records acquisition)
  show ?thesis
  proof (cases "admit_records records (jn_state j)")
    case (Inr st)
    have "source_of (st\<lparr> ss_acquisition_market_ids := ss_acquisition_market_ids st \<union> acquisition \<rparr>) = source_of (jn_state j)"
      using admit_records_source [OF Inr] by (simp add: source_of_def)
    then show ?thesis by (simp only: Admit journal_step.simps admit_def Inr sum.case write_of.simps) blast
  qed (simp add: Admit admit_def)
next
  case (Retire io ids ticket)
  let ?st = "(jn_state j)\<lparr> ss_retiring_acquisition_market_ids := Some (ids \<inter> ss_acquisition_market_ids (jn_state j)) \<rparr>"
  show ?thesis
  proof (cases "move_records (sorted_list_of_set ids) ?st")
    case (Inr st)
    have "source_of (st\<lparr> ss_retirement_ticket := Some ticket \<rparr>) = source_of (jn_state j)"
      using move_records_source [OF Inr] by (simp add: source_of_def)
    then show ?thesis by (simp only: Retire journal_step.simps retire_def Let_def Inr sum.case write_of.simps if_distrib [of snd] snd_conv) metis
  qed (simp add: Retire retire_def Let_def)
next
  case (Settled io ticket)
  have "source_of ((jn_state j)\<lparr> ss_retiring_records := [], ss_retirement_ticket := None,
      ss_retiring_acquisition_market_ids := None \<rparr>) = source_of (jn_state j)" by (simp add: source_of_def)
  then show ?thesis by (simp only: Settled journal_step.simps settled_def write_of.simps if_distrib [of snd] snd_conv) metis
next
  case (Cancel io ids ticket revision catalog)
  show ?thesis
  proof (cases "ss_retiring_acquisition_market_ids (jn_state j)")
    case (Some prior)
    show ?thesis
    proof (cases "restore_records (ss_retiring_records (jn_state j)) ((jn_state j)\<lparr> ss_retiring_records := [] \<rparr>)")
      case (Inr st)
      have "source_of (st\<lparr> ss_acquisition_market_ids := ss_acquisition_market_ids st \<union> prior,
          ss_retiring_acquisition_market_ids := None, ss_retirement_ticket := None \<rparr>) = source_of (jn_state j)"
        using restore_records_source [OF Inr] by (simp add: source_of_def)
      then show ?thesis
        by (simp only: Cancel journal_step.simps cancel_unstarted_retirement_def Let_def Some Inr sum.case option.case write_of.simps
          if_distrib [of snd] snd_conv) metis
    qed (simp add: Cancel cancel_unstarted_retirement_def Let_def Some)
  qed (simp add: Cancel cancel_unstarted_retirement_def Let_def)
qed

definition journal_bound :: "journal_codec \<Rightarrow> string \<times> string \<times> string \<Rightarrow> journal \<Rightarrow> bool" where
  "journal_bound jc b j \<longleftrightarrow> source_of (jn_state j) = b
     \<and> (\<exists>st bytes. jc_encode jc st = Inr bytes \<and> jn_disk j = Some bytes \<and> source_of st = b
          \<and> validate st = Inr () \<and> length bytes \<le> jn_maximum_bytes j)"

lemma commit_bound: "journal_bound jc b j \<Longrightarrow> source_of st = b \<Longrightarrow> journal_bound jc b (snd (commit jc io st j))"
  by (auto simp: commit_def journal_bound_def not_less split: sum.split write_outcome.split)

lemma journal_run_bound: "journal_bound jc b j \<Longrightarrow> journal_bound jc b (journal_run jc ops j)"
proof (induction ops arbitrary: j)
  case (Cons turn ops)
  have "journal_bound jc b (journal_step jc j turn)"
    using journal_step_source [of jc j turn] Cons.prems commit_bound [OF Cons.prems]
    by (metis journal_bound_def)
  from Cons.IH [OF this] show ?case by (simp add: journal_run_def)
qed (simp add: journal_run_def)

lemma journal_open_bound:
  assumes "journal_open jc io maximum initial disk = (Inr j, disk')"
  shows "journal_bound jc (source_of initial) j \<and> jn_maximum_bytes j = maximum"
proof -
  from assms obtain saved where
    b: "is_none_or (\<lambda>s. ss_catalog_manifest_sha256 s = ss_catalog_manifest_sha256 initial
        \<and> ss_catalog_revision s = ss_catalog_revision initial \<and> ss_pool s = ss_pool initial) saved"
    and c: "commit jc io (unwrap_or initial saved) \<lparr> jn_state = unwrap_or initial saved, jn_disk = disk, jn_maximum_bytes = maximum \<rparr>
      = (Inr (), j)"
    by (auto simp: journal_open_def and_then_Inr_iff Let_def split: sum.splits prod.splits)
  have "source_of (unwrap_or initial saved) = source_of initial"
    using b by (cases saved) (auto simp: source_of_def is_none_or_def unwrap_or_def)
  with c show ?thesis
    by (auto simp: commit_def journal_bound_def not_less split: sum.splits write_outcome.splits if_splits)
qed

text \<open>
  C38: the restart file is always one that can be read. Whatever sequence of admissions, retirements, settlements
  and cancellations follows opening the journal, and however each of their writes ends, the file is the canonical
  envelope, digest included, of a valid state of the same source, within the byte budget; it is the state in memory
  when no write failed after its rename. If \<open>serde_json\<close> reads back this one text and this one value, then the
  file passes every check of reading, and opening it again with the same initial state succeeds on that state.
  If instead the text is read as a value that is written differently, as \<open>serde_json\<close> without \<open>float_roundtrip\<close> may
  do with a fractional number in the metadata, reading it fails.
\<close>

theorem journal_file_can_be_reopened:
  "journal_open jc io maximum initial disk = (Inr j, disk') \<longrightarrow>
   (\<exists>st v bytes. jc_to_value jc st = Inr v \<and> bytes = jc_text jc (envelope jc v) \<and> jn_disk (journal_run jc ops j) = Some bytes
      \<and> validate st = Inr () \<and> source_of st = source_of initial \<and> length bytes \<le> maximum
      \<and> ((\<forall>turn \<in> set ops. write_of turn \<noteq> FailedAfterRename) \<longrightarrow> st = jn_state (journal_run jc ops j))
      \<and> (jc_parse jc bytes = Inr (envelope jc v) \<and> jc_from_value jc v = Inr st \<longrightarrow>
          journal_read jc maximum (Some bytes) = Inr (Some st)
          \<and> journal_open jc Written maximum initial (Some bytes)
              = (Inr ((journal_run jc ops j)\<lparr> jn_state := st \<rparr>), Some bytes))
      \<and> (\<forall>w. jc_parse jc bytes = Inr w \<and> jc_text jc w \<noteq> bytes \<longrightarrow>
          journal_read jc maximum (Some bytes) = Inl ''runtime journal canonical envelope''))"
proof (rule impI)
  assume opened: "journal_open jc io maximum initial disk = (Inr j, disk')"
  let ?j = "journal_run jc ops j"
  note open_ok = journal_open_ok [OF opened]
  have ok: "journal_ok jc ?j" and bound: "journal_bound jc (source_of initial) ?j" and m: "jn_maximum_bytes ?j = maximum"
    using journal_run_ok open_ok journal_run_bound journal_open_bound [OF opened] by (auto simp: journal_run_maximum)
  have range: "1024 \<le> maximum" "maximum \<le> 256 * 1024 * 1024" using ok m by (auto simp: journal_ok_def)
  have valid: "validate initial = Inr ()" using opened by (auto simp: journal_open_def and_then_Inr_iff split: sum.splits)
  obtain st bytes where st: "jc_encode jc st = Inr bytes" "jn_disk ?j = Some bytes" "source_of st = source_of initial"
    "validate st = Inr ()" "length bytes \<le> maximum"
    and same: "(\<forall>turn \<in> set ops. write_of turn \<noteq> FailedAfterRename) \<longrightarrow> st = jn_state ?j"
  proof (cases "in_step jc ?j")
    case True
    then obtain bytes where b: "jc_encode jc (jn_state ?j) = Inr bytes" "jn_disk ?j = Some bytes" by (auto simp: in_step_def)
    show thesis
    proof (rule that [OF b])
      show "source_of (jn_state ?j) = source_of initial" using bound by (simp add: journal_bound_def)
      show "validate (jn_state ?j) = Inr ()" using ok by (simp add: journal_ok_def)
      show "length bytes \<le> maximum" using ok b(2) m by (auto simp: journal_ok_def)
    qed simp
  next
    case False
    then have "\<not> (\<forall>turn \<in> set ops. write_of turn \<noteq> FailedAfterRename)"
      using journal_run_in_step [of jc j ops] open_ok by blast
    with bound m show thesis by (auto simp: journal_bound_def intro: that)
  qed
  from st(1) obtain v where v: "jc_to_value jc st = Inr v" "bytes = jc_text jc (envelope jc v)"
    by (auto simp: jc_encode_def and_then_Inr_iff)
  have reopened: "journal_read jc maximum (Some bytes) = Inr (Some st)
      \<and> journal_open jc Written maximum initial (Some bytes) = (Inr (?j\<lparr> jn_state := st \<rparr>), Some bytes)"
    if "jc_parse jc bytes = Inr (envelope jc v)" "jc_from_value jc v = Inr st"
  proof
    have "jc_decode jc bytes = Inr st" using that decode_written [of jc v] by (simp add: v(2))
    then show read: "journal_read jc maximum (Some bytes) = Inr (Some st)"
      using st(4,5) range by (simp add: journal_read_def)
    have "?j\<lparr> jn_state := st \<rparr> = \<lparr> jn_state = st, jn_disk = Some bytes, jn_maximum_bytes = maximum \<rparr>"
      by (rule journal.equality) (use st(2) m in simp_all)
    then show "journal_open jc Written maximum initial (Some bytes) = (Inr (?j\<lparr> jn_state := st \<rparr>), Some bytes)"
      using read st(1,3,4,5) valid range
      by (simp add: journal_open_def and_then_def ensure_def is_none_or_def source_of_def unwrap_or_def commit_def)
  qed
  have altered: "journal_read jc maximum (Some bytes) = Inl ''runtime journal canonical envelope''"
    if "jc_parse jc bytes = Inr w" "jc_text jc w \<noteq> bytes" for w
    using decode_altered [OF that] st(5) range by (simp add: journal_read_def and_then_def ensure_def)
  show "\<exists>st v bytes. jc_to_value jc st = Inr v \<and> bytes = jc_text jc (envelope jc v) \<and> jn_disk ?j = Some bytes
      \<and> validate st = Inr () \<and> source_of st = source_of initial \<and> length bytes \<le> maximum
      \<and> ((\<forall>turn \<in> set ops. write_of turn \<noteq> FailedAfterRename) \<longrightarrow> st = jn_state ?j)
      \<and> (jc_parse jc bytes = Inr (envelope jc v) \<and> jc_from_value jc v = Inr st \<longrightarrow>
          journal_read jc maximum (Some bytes) = Inr (Some st)
          \<and> journal_open jc Written maximum initial (Some bytes) = (Inr (?j\<lparr> jn_state := st \<rparr>), Some bytes))
      \<and> (\<forall>w. jc_parse jc bytes = Inr w \<and> jc_text jc w \<noteq> bytes \<longrightarrow>
          journal_read jc maximum (Some bytes) = Inl ''runtime journal canonical envelope'')"
    using v st same reopened altered by blast
qed

definition demo_retired :: scope_state where
  "demo_retired = demo_scope\<lparr> ss_records := [(''a'', demo_scope_record ''a'')], ss_acquisition_market_ids := {''a''},
     ss_retiring_records := [(''b'', demo_scope_record ''b'')], ss_retirement_ticket := Some 7,
     ss_retiring_acquisition_market_ids := Some {''b''} \<rparr>"

abbreviation demo_jc :: journal_codec where
  "demo_jc \<equiv> demo_codec [demo_scope, demo_retired]"

definition demo_journal :: journal where
  "demo_journal = \<lparr> jn_state = demo_scope, jn_disk = Some [], jn_maximum_bytes = 1024 \<rparr>"

lemma demo_jc_encode [simp]: "jc_encode demo_jc demo_scope = Inr []" "jc_encode demo_jc demo_retired = Inr ''x''"
proof -
  have "ss_retirement_ticket demo_scope \<noteq> ss_retirement_ticket demo_retired" by (simp add: demo_scope_def demo_retired_def)
  then have "demo_scope \<noteq> demo_retired" by metis
  then show "jc_encode demo_jc demo_scope = Inr []" "jc_encode demo_jc demo_retired = Inr ''x''"
    by (auto simp: jc_encode_def demo_codec_def envelope_def json_at_def unwrap_or_def)
qed

lemma demo_retired_valid: "validate demo_retired = Inr ()"
  by (simp add: validate_def demo_retired_def demo_scope_def json_at_def record_tokens_def record_identity_def demo_scope_record_def
      is_some_and_def is_none_or_def bt_contains_def bt_get_def unwrap_or_def)

lemma demo_move:
  "move_records [''b''] (demo_scope\<lparr> ss_retiring_acquisition_market_ids := Some ({''b''} \<inter> ss_acquisition_market_ids demo_scope) \<rparr>)
    = Inr (demo_retired\<lparr> ss_retirement_ticket := None \<rparr>)"
proof -
  have "{''a'', ''b''} - {''b''} = {''a''}" by auto
  then show ?thesis by (simp add: demo_scope_def demo_retired_def bt_get_def bt_remove_def)
qed

lemma demo_retire:
  "retire demo_jc Written {''b''} 7 demo_journal = (Inr (), demo_journal\<lparr> jn_state := demo_retired, jn_disk := Some ''x'' \<rparr>)"
  "retire demo_jc FailedAfterRename {''b''} 7 demo_journal = (Inl ''sync'', demo_journal\<lparr> jn_disk := Some ''x'' \<rparr>)"
proof -
  have "demo_retired\<lparr> ss_retirement_ticket := None \<rparr>\<lparr> ss_retirement_ticket := Some 7 \<rparr> = demo_retired"
    by (simp add: demo_retired_def demo_scope_def)
  moreover have "ss_retirement_ticket demo_scope = None" "ss_retiring_records demo_scope = []" by (simp_all add: demo_scope_def)
  ultimately show "retire demo_jc Written {''b''} 7 demo_journal = (Inr (), demo_journal\<lparr> jn_state := demo_retired, jn_disk := Some ''x'' \<rparr>)"
    "retire demo_jc FailedAfterRename {''b''} 7 demo_journal = (Inl ''sync'', demo_journal\<lparr> jn_disk := Some ''x'' \<rparr>)"
    using demo_move by (simp_all add: retire_def demo_journal_def commit_def demo_retired_valid)
qed

theorem journal_file_can_be_reopened_witness:
  "\<exists>st. journal_read demo_jc 1024 (jn_disk (journal_run demo_jc [Retire FailedAfterRename {''b''} 7] demo_journal)) = Inr (Some st)
    \<and> journal_open demo_jc Written 1024 demo_scope (Some ''x'') = (Inr (demo_journal\<lparr> jn_disk := Some ''x'', jn_state := st \<rparr>), Some ''x'')"
proof -
  have opened: "journal_open demo_jc Written 1024 demo_scope None = (Inr demo_journal, Some [])"
    by (simp add: journal_open_def demo_scope_valid journal_read_def is_none_or_def unwrap_or_def commit_def demo_journal_def)
  have run: "journal_run demo_jc [Retire FailedAfterRename {''b''} 7] demo_journal = demo_journal\<lparr> jn_disk := Some ''x'' \<rparr>"
    by (simp add: journal_run_def demo_retire)
  from journal_file_can_be_reopened [of demo_jc Written 1024 demo_scope None demo_journal "Some []"
      "[Retire FailedAfterRename {''b''} 7]", THEN mp, OF opened, unfolded run]
  obtain st v bytes where v: "jc_to_value demo_jc st = Inr v" and b: "bytes = jc_text demo_jc (envelope demo_jc v)"
    and d: "jn_disk (demo_journal\<lparr> jn_disk := Some ''x'' \<rparr>) = Some bytes"
    and r: "jc_parse demo_jc bytes = Inr (envelope demo_jc v) \<and> jc_from_value demo_jc v = Inr st \<longrightarrow>
      journal_read demo_jc 1024 (Some bytes) = Inr (Some st)
      \<and> journal_open demo_jc Written 1024 demo_scope (Some bytes)
          = (Inr ((demo_journal\<lparr> jn_disk := Some ''x'' \<rparr>)\<lparr> jn_state := st \<rparr>), Some bytes)"
    by (elim exE conjE) (rule that; assumption)
  have bytes: "bytes = ''x''" using d by simp
  from demo_codec_sound [OF v] r have "journal_read demo_jc 1024 (Some bytes) = Inr (Some st)
      \<and> journal_open demo_jc Written 1024 demo_scope (Some bytes)
          = (Inr ((demo_journal\<lparr> jn_disk := Some ''x'' \<rparr>)\<lparr> jn_state := st \<rparr>), Some bytes)"
    unfolding b by iprover
  then show ?thesis unfolding run bytes journal.select_convs by (intro exI [of _ st]) (simp add: bytes)
qed

section \<open>Cancelling a retirement\<close>

text \<open>
  C39: a retirement that was rejected before it had any effect leaves no trace. Retire any set of markets, retry
  the same retirement as often as one likes, then cancel it for the same ticket and revisions: the state is the
  one before the retirement, metadata and hot membership included, and so is the file; and a cancellation that
  names another ticket, another set or another revision is refused and changes nothing.
\<close>

theorem cancelled_retirement_leaves_no_trace:
  "bt_wf (ss_records (jn_state j)) \<and> validate (jn_state j) = Inr () \<and> ss_retirement_ticket (jn_state j) = None
      \<and> ss_retiring_acquisition_market_ids (jn_state j) = None \<and> finite ids \<longrightarrow>
    jc_encode jc (jn_state j) = Inr bytes \<longrightarrow> length bytes \<le> jn_maximum_bytes j \<longrightarrow>
    retire jc Written ids ticket j = (Inr (), j') \<longrightarrow>
    retire jc io ids ticket j' = (Inr (), j')
    \<and> cancel_unstarted_retirement jc Written ids ticket (ss_active_revision (jn_state j)) (ss_catalog_revision (jn_state j)) j'
        = (Inr (), j\<lparr> jn_disk := Some bytes \<rparr>)
    \<and> ((ticket', ids', revision, catalog) \<noteq> (ticket, ids, ss_active_revision (jn_state j), ss_catalog_revision (jn_state j)) \<longrightarrow>
        cancel_unstarted_retirement jc io ids' ticket' revision catalog j'
        = (Inl ''runtime retirement cancellation identity'', j'))"
proof (intro impI)
  let ?st = "jn_state j"
  assume pre: "bt_wf (ss_records ?st) \<and> validate ?st = Inr () \<and> ss_retirement_ticket ?st = None
      \<and> ss_retiring_acquisition_market_ids ?st = None \<and> finite ids"
    and bytes: "jc_encode jc ?st = Inr bytes" "length bytes \<le> jn_maximum_bytes j"
    and r: "retire jc Written ids ticket j = (Inr (), j')"
  have free: "ss_retiring_records ?st = []" using pre by (auto simp: validate_def and_then_Inr_iff)
  from r pre obtain m where m: "move_records (sorted_list_of_set ids)
      (?st\<lparr> ss_retiring_acquisition_market_ids := Some (ids \<inter> ss_acquisition_market_ids ?st) \<rparr>) = Inr m"
    and c: "commit jc Written (m\<lparr> ss_retirement_ticket := Some ticket \<rparr>) j = (Inr (), j')"
    by (auto simp: retire_def Let_def split: if_splits sum.splits)
  from c obtain b where j': "j' = j\<lparr> jn_disk := Some b, jn_state := m\<lparr> ss_retirement_ticket := Some ticket \<rparr> \<rparr>"
    and max: "jn_maximum_bytes j \<noteq> 0"
    by (auto simp: commit_def split: sum.splits if_splits)
  have none: "ss_retirement_ticket ?st = None" "ss_retiring_acquisition_market_ids ?st = None" and fin: "finite ids"
    and wf: "bt_wf (ss_records ?st)" and valid: "validate ?st = Inr ()" using pre by auto
  note cancelled = cancelled_state [OF wf free none fin m]
  from cancelled(1) [of ticket] obtain q where q: "restore_records (ss_retiring_records m) (m\<lparr> ss_retirement_ticket := Some ticket, ss_retiring_records := [] \<rparr>) = Inr q"
    "q\<lparr> ss_acquisition_market_ids := ss_acquisition_market_ids q \<union> (ids \<inter> ss_acquisition_market_ids ?st),
        ss_retiring_acquisition_market_ids := None, ss_retirement_ticket := None \<rparr> = ?st" by blast
  have "retire jc io ids ticket j' = (Inr (), j')"
    using cancelled(2) by (simp add: retire_def Let_def j')
  moreover have "cancel_unstarted_retirement jc Written ids ticket (ss_active_revision ?st) (ss_catalog_revision ?st) j'
      = (Inr (), j\<lparr> jn_disk := Some bytes \<rparr>)"
    using cancelled(2-5) q bytes max valid
    by (simp add: cancel_unstarted_retirement_def Let_def j' commit_def del: Int_iff)
  moreover have "cancel_unstarted_retirement jc io ids' ticket' revision catalog j' = (Inl ''runtime retirement cancellation identity'', j')"
    if "(ticket', ids', revision, catalog) \<noteq> (ticket, ids, ss_active_revision ?st, ss_catalog_revision ?st)"
    using cancelled(2-5) that by (auto simp: cancel_unstarted_retirement_def Let_def j')
  ultimately show "retire jc io ids ticket j' = (Inr (), j')
    \<and> cancel_unstarted_retirement jc Written ids ticket (ss_active_revision ?st) (ss_catalog_revision ?st) j'
        = (Inr (), j\<lparr> jn_disk := Some bytes \<rparr>)
    \<and> ((ticket', ids', revision, catalog) \<noteq> (ticket, ids, ss_active_revision ?st, ss_catalog_revision ?st) \<longrightarrow>
        cancel_unstarted_retirement jc io ids' ticket' revision catalog j'
        = (Inl ''runtime retirement cancellation identity'', j'))"
    by blast
qed

theorem cancelled_retirement_leaves_no_trace_witness:
  "cancel_unstarted_retirement demo_jc Written {''b''} 7 1 ''r'' (snd (retire demo_jc Written {''b''} 7 demo_journal))
     = (Inr (), demo_journal)
   \<and> fst (cancel_unstarted_retirement demo_jc Written {''b''} 7 2 ''r'' (snd (retire demo_jc Written {''b''} 7 demo_journal)))
     = Inl ''runtime retirement cancellation identity''"
proof -
  have st: "jn_state demo_journal = demo_scope" "jn_maximum_bytes demo_journal = 1024" "jn_disk demo_journal = Some []"
    by (simp_all add: demo_journal_def)
  have fields: "ss_active_revision demo_scope = 1" "ss_catalog_revision demo_scope = ''r''" "ss_retirement_ticket demo_scope = None"
    "ss_retiring_acquisition_market_ids demo_scope = None" "bt_wf (ss_records demo_scope)"
    by (simp_all add: demo_scope_def bt_wf_def)
  have same: "demo_journal\<lparr> jn_disk := Some [] \<rparr> = demo_journal" by (simp add: demo_journal_def)
  show ?thesis
    using cancelled_retirement_leaves_no_trace [of demo_journal "{''b''}" demo_jc "[]" 7 _ Written 7 "{''b''}" 2 "''r''"]
      demo_retire(1) by (simp add: st fields same demo_scope_valid)
qed

section \<open>Moving cold metadata\<close>

definition hot_part :: "string set \<Rightarrow> scope_state \<Rightarrow> scope_state" where
  "hot_part kept st = st\<lparr> ss_records := bt_retain (\<lambda>i v. i \<in> kept) (ss_records st),
     ss_acquisition_market_ids := ss_acquisition_market_ids st \<inter> kept \<rparr>"

lemma plan_shape:
  assumes "plan_offline_cold_migration additionally st = Inr m"
  obtains ids ms where "restart_ids st = Inr ids" "markets_by_ids st ids = Inr ms" "finite ids" "set (map sm_market_id ms) = ids"
    "ids \<union> additionally \<subseteq> ss_acquisition_market_ids st" "cm_hot_state m = hot_part (ids \<union> additionally) st"
    "cm_cold_records m = bt_retain (\<lambda>i v. i \<notin> ids \<union> additionally) (ss_records st)"
    "validate st = Inr ()" "validate (cm_hot_state m) = Inr ()"
    "ss_retirement_ticket st = None \<or> ss_retiring_acquisition_market_ids st \<noteq> None"
proof -
  from assms obtain ms where ms: "restart_markets True st = Inr ms" and m: "m = \<lparr> cm_hot_state = hot_part (set (map sm_market_id ms) \<union> additionally) st,
      cm_cold_records = bt_retain (\<lambda>i v. i \<notin> set (map sm_market_id ms) \<union> additionally) (ss_records st) \<rparr>"
    and v: "validate st = Inr ()" "validate (hot_part (set (map sm_market_id ms) \<union> additionally) st) = Inr ()"
    and sub: "set (map sm_market_id ms) \<union> additionally \<subseteq> ss_acquisition_market_ids st"
    and t: "ss_retirement_ticket st = None \<or> ss_retiring_acquisition_market_ids st \<noteq> None"
    unfolding plan_offline_cold_migration_def Let_def hot_part_def and_then_Inr_iff ensure_Inr_iff by auto
  from ms obtain ids where ids: "restart_ids st = Inr ids" "markets_by_ids st ids = Inr ms"
    by (auto simp: restart_markets_def and_then_Inr_iff)
  have fin: "finite ids" by (rule restart_ids_finite [OF ids(1)])
  have eq: "set (map sm_market_id ms) = ids" by (rule markets_by_ids_ids [OF ids(2) fin])
  show thesis by (rule that [OF ids fin eq]) (use sub m v t in \<open>simp_all only: eq cold_migration.select_convs\<close>)
qed

lemma plan_by:
  assumes "validate st = Inr ()" "ss_retirement_ticket st = None \<or> ss_retiring_acquisition_market_ids st \<noteq> None"
    and "restart_markets True st = Inr ms" "set (map sm_market_id ms) \<union> additionally = kept"
    and "kept \<subseteq> ss_acquisition_market_ids st" "validate (hot_part kept st) = Inr ()"
    and "bt_retain (\<lambda>i v. i \<notin> kept) (ss_records st) = []" "hot_part kept st = st"
  shows "plan_offline_cold_migration additionally st = Inr \<lparr> cm_hot_state = st, cm_cold_records = [] \<rparr>"
  unfolding plan_offline_cold_migration_def hot_part_def [symmetric] assms(1,3) and_then_simps Let_def assms(4,7,8)
  using assms(1,2,5) by simp

lemma hot_part_twice: "hot_part kept (hot_part kept st) = hot_part kept st"
  by (cases st) (simp add: hot_part_def bt_retain_twice Int_assoc)

text \<open>
  C40: the offline migration loses nothing and can be repeated. Every record of the journal is in exactly one of
  the hot state and the cold records, unchanged; the hot state keeps metadata for exactly the markets it
  acquires, among them only markets admitted before; a restart in on-demand mode starts from the same markets
  as before; and planning again on the hot state moves nothing.
\<close>

theorem cold_migration_loses_nothing:
  "bt_wf (ss_records st) \<longrightarrow> plan_offline_cold_migration additionally st = Inr m \<longrightarrow>
    (\<forall>i. bt_get (ss_records st) i = (if i \<in> ss_acquisition_market_ids (cm_hot_state m)
        then bt_get (ss_records (cm_hot_state m)) i else bt_get (cm_cold_records m) i))
    \<and> (\<forall>i. bt_get (ss_records (cm_hot_state m)) i \<noteq> None \<longleftrightarrow> i \<in> ss_acquisition_market_ids (cm_hot_state m))
    \<and> (\<forall>i. bt_get (cm_cold_records m) i \<noteq> None \<longrightarrow> bt_get (ss_records (cm_hot_state m)) i = None)
    \<and> ss_acquisition_market_ids (cm_hot_state m) \<subseteq> ss_acquisition_market_ids st
    \<and> restart_markets True (cm_hot_state m) = restart_markets True st
    \<and> plan_offline_cold_migration additionally (cm_hot_state m) = Inr \<lparr> cm_hot_state = cm_hot_state m, cm_cold_records = [] \<rparr>"
proof (intro impI)
  assume wf: "bt_wf (ss_records st)" and plan: "plan_offline_cold_migration additionally st = Inr m"
  from plan obtain ids ms where ids: "restart_ids st = Inr ids" "markets_by_ids st ids = Inr ms" and fin: "finite ids"
    and eq: "set (map sm_market_id ms) = ids"
    and sub: "ids \<union> additionally \<subseteq> ss_acquisition_market_ids st" and hot: "cm_hot_state m = hot_part (ids \<union> additionally) st"
    and cold: "cm_cold_records m = bt_retain (\<lambda>i v. i \<notin> ids \<union> additionally) (ss_records st)"
    and v: "validate st = Inr ()" "validate (cm_hot_state m) = Inr ()"
    and t: "ss_retirement_ticket st = None \<or> ss_retiring_acquisition_market_ids st \<noteq> None"
    by (rule plan_shape)
  let ?kept = "ids \<union> additionally" and ?hot = "hot_part (ids \<union> additionally) st"
  have acq: "ss_acquisition_market_ids ?hot = ?kept" using sub by (auto simp: hot_part_def)
  have get: "bt_get (ss_records ?hot) i = (if i \<in> ?kept then bt_get (ss_records st) i else None)" for i
    by (simp add: hot_part_def bt_get_retain [OF wf] split: option.split)
  have get_cold: "bt_get (cm_cold_records m) i = (if i \<in> ?kept then None else bt_get (ss_records st) i)" for i
    by (simp add: cold bt_get_retain [OF wf] split: option.split)
  have known: "bt_get (ss_records st) i \<noteq> None" if "i \<in> ?kept" for i
    using v(1) sub that by (auto simp: validate_def and_then_Inr_iff bt_contains_def)
  have restart: "restart_ids ?hot = Inr ids"
    by (rule restart_ids_cong [OF ids(1)]) (auto simp: hot_part_def bt_get_retain [OF wf] acq [unfolded hot_part_def, simplified] split: option.split)
  have "markets_by_ids ?hot ids = Inr ms"
    using markets_by_ids_cong [OF fin, of ?hot st] get ids(2) by simp
  with restart have same: "restart_markets True ?hot = Inr ms" by (simp add: restart_markets_def and_then_def)
  have "plan_offline_cold_migration additionally ?hot = Inr \<lparr> cm_hot_state = ?hot, cm_cold_records = [] \<rparr>"
  proof (rule plan_by [OF _ _ same])
    show "set (map sm_market_id ms) \<union> additionally = ?kept" by (simp only: eq)
    show "bt_retain (\<lambda>i v. i \<notin> ?kept) (ss_records ?hot) = []"
      by (auto simp: hot_part_def bt_retain_def filter_empty_conv)
  qed (use v(2) t acq hot in \<open>simp_all add: hot_part_twice, simp_all add: hot_part_def\<close>)
  with same ids acq get get_cold known sub show "(\<forall>i. bt_get (ss_records st) i = (if i \<in> ss_acquisition_market_ids (cm_hot_state m)
        then bt_get (ss_records (cm_hot_state m)) i else bt_get (cm_cold_records m) i))
    \<and> (\<forall>i. bt_get (ss_records (cm_hot_state m)) i \<noteq> None \<longleftrightarrow> i \<in> ss_acquisition_market_ids (cm_hot_state m))
    \<and> (\<forall>i. bt_get (cm_cold_records m) i \<noteq> None \<longrightarrow> bt_get (ss_records (cm_hot_state m)) i = None)
    \<and> ss_acquisition_market_ids (cm_hot_state m) \<subseteq> ss_acquisition_market_ids st
    \<and> restart_markets True (cm_hot_state m) = restart_markets True st
    \<and> plan_offline_cold_migration additionally (cm_hot_state m) = Inr \<lparr> cm_hot_state = cm_hot_state m, cm_cold_records = [] \<rparr>"
    by (simp add: hot restart_markets_def and_then_def)
qed

definition demo_hot :: scope_state where
  "demo_hot = demo_scope\<lparr> ss_records := [(''a'', demo_scope_record ''a'')], ss_acquisition_market_ids := {''a''} \<rparr>"

lemma demo_hot_valid: "validate demo_hot = Inr ()"
  by (simp add: validate_def demo_hot_def demo_scope_def json_at_def record_tokens_def record_identity_def demo_scope_record_def
      is_some_and_def is_none_or_def bt_contains_def bt_get_def unwrap_or_def)

lemma demo_restart:
  "restart_markets True demo_scope = Inr [\<lparr> sm_market_id = ''a'', sm_condition_id = ''c'', sm_token_ids = (''a1'', ''a2'') \<rparr>]"
  by (simp add: restart_markets_def restart_ids_def discovery_ids_def listed_ids_def markets_by_ids_def market_of_def demo_scope_def
      json_at_def record_identity_def demo_scope_record_def unwrap_or_def bt_get_def)

lemma demo_plan:
  "plan_offline_cold_migration {} demo_scope = Inr \<lparr> cm_hot_state = demo_hot, cm_cold_records = [(''b'', demo_scope_record ''b'')] \<rparr>"
proof -
  have "hot_part {''a''} demo_scope = demo_hot"
    by (auto simp: hot_part_def demo_hot_def demo_scope_def bt_retain_def)
  moreover have "ss_retirement_ticket demo_scope = None" "ss_acquisition_market_ids demo_scope = {''a'', ''b''}"
    "ss_records demo_scope = [(''a'', demo_scope_record ''a''), (''b'', demo_scope_record ''b'')]"
    "length (ss_records demo_hot) = 1" by (simp_all add: demo_scope_def demo_hot_def)
  moreover have "json_at ''market_id'' (record_identity (demo_scope_record ''b'')) = JString ''b''"
    by (simp add: json_at_def record_identity_def demo_scope_record_def unwrap_or_def)
  ultimately show ?thesis
    unfolding plan_offline_cold_migration_def hot_part_def [symmetric] demo_scope_valid demo_restart and_then_simps Let_def
    by (simp add: demo_hot_valid bt_retain_def)
qed

theorem cold_migration_loses_nothing_witness:
  "restart_markets True demo_hot = restart_markets True demo_scope
   \<and> plan_offline_cold_migration {} demo_hot = Inr \<lparr> cm_hot_state = demo_hot, cm_cold_records = [] \<rparr>
   \<and> bt_get (ss_records demo_scope) ''b'' = Some (demo_scope_record ''b'')"
proof -
  have "bt_wf (ss_records demo_scope)" by (simp add: demo_scope_def bt_wf_def)
  from cold_migration_loses_nothing [THEN mp, OF this, THEN mp, OF demo_plan]
  have "restart_markets True demo_hot = restart_markets True demo_scope"
    "plan_offline_cold_migration {} demo_hot = Inr \<lparr> cm_hot_state = demo_hot, cm_cold_records = [] \<rparr>"
    "bt_get (ss_records demo_scope) ''b'' = (if ''b'' \<in> ss_acquisition_market_ids demo_hot
        then bt_get (ss_records demo_hot) ''b'' else bt_get [(''b'', demo_scope_record ''b'')] ''b'')" by simp_all
  moreover have "''b'' \<notin> ss_acquisition_market_ids demo_hot" by (simp add: demo_hot_def)
  ultimately show ?thesis by (simp add: bt_get_def)
qed

end
