(* ===== verification/Shard_Pool.thy ===== *)
theory Shard_Pool
  imports Scope_Journal
begin

text \<open>
  The upstream connections of the collector, \<open>crates/marketcowd/src/source_acquisition_shards.rs\<close>: every market
  pair has its own socket, retirements and replacements are commands that count only once their receipt is
  back, and frames reach the owner through one bounded lane per socket. The transport's end of a command, which
  changes the membership it subscribes, is \<open>crates/marketcow-polymarket/src/subscription.rs\<close> with the update
  branch of the connection loops in \<open>transport_rotation.rs\<close> and \<open>lib.rs\<close>; when a socket task ends, what it
  delivers and whether its writes go through are arguments. Byte permits, retry delays and the JSON form of the
  statistics are left out.
\<close>

section \<open>Subscription commands\<close>

datatype socket_error =
    InvalidConfig | ConnectTimeout | ProxyConnectFailed | ProxyConnectRejected | ConnectFailed | HandshakeRejected
  | SendFailed | ReadFailed | InvalidFrame | FrameTooLarge | Backpressure | ReconnectExhausted | SubscriptionConflict

fun socket_reason :: "socket_error \<Rightarrow> string" where
  "socket_reason InvalidConfig = ''invalid_config''"
| "socket_reason ConnectTimeout = ''connect_timeout''"
| "socket_reason ProxyConnectFailed = ''proxy_connect_failed''"
| "socket_reason ProxyConnectRejected = ''proxy_connect_rejected''"
| "socket_reason ConnectFailed = ''connect_failed''"
| "socket_reason HandshakeRejected = ''handshake_rejected''"
| "socket_reason SendFailed = ''send_failed''"
| "socket_reason ReadFailed = ''read_failed''"
| "socket_reason InvalidFrame = ''invalid_frame''"
| "socket_reason FrameTooLarge = ''frame_too_large''"
| "socket_reason Backpressure = ''strict_backpressure''"
| "socket_reason ReconnectExhausted = ''reconnect_exhausted''"
| "socket_reason SubscriptionConflict = ''subscription_conflict''"

record update =
  up_expected :: "string set"
  up_tokens :: "string set"
  up_remove_first :: bool

definition token_ok :: "string \<Rightarrow> bool" where
  "token_ok token \<longleftrightarrow> token \<noteq> [] \<and> length token \<le> 128"

definition validate_tokens :: "string set \<Rightarrow> socket_error + unit" where
  "validate_tokens tokens =
     (if tokens = {} \<or> card tokens > 500 \<or> (\<exists>token \<in> tokens. \<not> token_ok token) then Inl InvalidConfig else Inr ())"

definition membership_diff :: "string set \<Rightarrow> update \<Rightarrow> socket_error + string set \<times> string set" where
  "membership_diff current u =
     and_then (validate_tokens (up_tokens u)) (\<lambda>_.
     and_then (ensure (current = up_expected u) SubscriptionConflict) (\<lambda>_.
     and_then (ensure (up_remove_first u \<or> card (current \<union> up_tokens u) \<le> 500) InvalidConfig) (\<lambda>_.
     Inr (up_tokens u - current, current - up_tokens u))))"

text \<open>
  The two writes of a change, each with its kind (subscribe or not), its tokens and whether the write succeeded;
  the membership is what the transport subscribes again after a reconnect.
\<close>

fun wire_operations :: "(bool \<times> string set \<times> bool) list \<Rightarrow> string set \<Rightarrow> string set \<Rightarrow> (socket_error + unit) \<times> string set" where
  "wire_operations [] added tokens = (Inr (), tokens)"
| "wire_operations ((subscribe, ids, sent) # ops) added tokens =
     (if ids = {} then wire_operations ops added tokens
      else if \<not> sent then (Inl SendFailed, tokens \<union> added)
      else wire_operations ops added (if subscribe then tokens \<union> ids else tokens - ids))"

definition apply_update :: "bool \<Rightarrow> bool \<Rightarrow> update \<Rightarrow> string set \<Rightarrow> (socket_error + unit) \<times> string set" where
  "apply_update sent1 sent2 u tokens =
     (case membership_diff tokens u of
        Inl err \<Rightarrow> (Inl err, tokens)
      | Inr (added, removed) \<Rightarrow> wire_operations
          (if up_remove_first u then [(False, removed, sent1), (True, added, sent2)]
           else [(True, added, sent1), (False, removed, sent2)]) added tokens)"

definition owned_or_unclassified :: "json \<Rightarrow> string set \<Rightarrow> bool" where
  "owned_or_unclassified v tokens =
     (let kind = json_at ''event_type'' v;
          ids = (\<lambda>changes. map (\<lambda>c. as_str (json_at ''asset_id'' c)) changes)
      in if kind \<in> set (map JString [''book'', ''tick_size_change'', ''last_trade_price'', ''best_bid_ask'', ''source_gap''])
            \<and> as_str (json_at ''asset_id'' v) \<noteq> None
         then is_some_and (\<lambda>token. token \<in> tokens) (as_str (json_at ''asset_id'' v))
         else if kind = JString ''price_change'' then
           (case as_array (json_at ''price_changes'' v) of
              Some changes \<Rightarrow>
                if changes \<noteq> [] \<and> None \<notin> set (ids changes)
                then list_ex (is_some_and (\<lambda>token. token \<in> tokens)) (ids changes) else True
            | None \<Rightarrow> True)
         else True)"

section \<open>The pool\<close>

datatype receipt = Waiting | Answered "socket_error + unit" | Lost

datatype shard_exit = Finished "socket_error + unit" | Panicked

text \<open>
  A shard with both ends of its channels: the stop signal, the command waiting in the channel of capacity one,
  whether the transport still holds the other end, the receipt the owner waits for, and the membership the
  transport holds.
\<close>

record shard =
  sh_tokens :: "string set"
  sh_stop :: bool
  sh_command :: "update option"
  sh_closed :: bool
  sh_pending :: "(string set \<times> receipt) option"
  sh_stopping :: bool
  sh_target :: "string set option"
  sh_wire :: "string set"

text \<open>
  Running tasks and tasks that ended but are not joined yet; \<open>po_ready\<close> is whether a lane's notification is
  queued; \<open>po_lanes\<close> is whether the shared budget admits another lane.
\<close>

record 'b pool =
  po_lanes :: bool
  po_maximum_tokens :: nat
  po_maximum_shards :: nat
  po_shard_tokens :: nat
  po_next_id :: u64
  po_shards :: "(u64, shard) btree"
  po_inputs :: "(u64, 'b list) btree"
  po_ready :: "(u64, bool) btree"
  po_notices :: "u64 list"
  po_running :: "u64 list"
  po_finished :: "(u64 \<times> shard_exit) list"
  po_failed :: "(string set \<times> string) list"

definition pool_new :: "bool \<Rightarrow> nat \<Rightarrow> nat \<Rightarrow> nat \<Rightarrow> string + 'b pool" where
  "pool_new lanes maximum_tokens maximum_shards shard_tokens =
     and_then (ensure (2 \<le> shard_tokens \<and> shard_tokens \<le> 500 \<and> 2 \<le> maximum_tokens \<and> maximum_tokens \<le> 8192
        \<and> maximum_shards > 0 \<and> maximum_shards \<le> 1024) ''explicit acquisition shard budgets'') (\<lambda>_.
     Inr \<lparr> po_lanes = lanes, po_maximum_tokens = maximum_tokens, po_maximum_shards = maximum_shards,
       po_shard_tokens = shard_tokens, po_next_id = 0, po_shards = [], po_inputs = [], po_ready = [], po_notices = [],
       po_running = [], po_finished = [], po_failed = [] \<rparr>)"

definition pool_tokens :: "'b pool \<Rightarrow> string set" where
  "pool_tokens s = \<Union> (set (map sh_tokens (bt_values (po_shards s))))"

definition jobs_len :: "'b pool \<Rightarrow> nat" where
  "jobs_len s = length (po_running s) + length (po_finished s)"

definition change_in_flight :: "shard \<Rightarrow> bool" where
  "change_in_flight sh \<longleftrightarrow> sh_target sh \<noteq> None \<or> sh_stopping sh"

definition draining_of :: "shard \<Rightarrow> string set" where
  "draining_of sh =
     (if sh_stopping sh then sh_tokens sh
      else (case sh_target sh of Some target \<Rightarrow> sh_tokens sh - target | None \<Rightarrow> {}))"

definition draining_tokens :: "'b pool \<Rightarrow> string set" where
  "draining_tokens s = \<Union> (set (map draining_of (bt_values (po_shards s))))"

definition pool_statistics :: "'b pool \<Rightarrow> nat \<times> nat \<times> nat" where
  "pool_statistics s = (card (pool_tokens s), jobs_len s, length (filter change_in_flight (bt_values (po_shards s))))"

definition management_statistics :: "'b pool \<Rightarrow> nat \<times> nat \<times> nat" where
  "management_statistics s =
     (card (pool_tokens s), card (pool_tokens s) - card (draining_tokens s), card (draining_tokens s))"

definition put_shard :: "u64 \<Rightarrow> shard \<Rightarrow> 'b pool \<Rightarrow> 'b pool" where
  "put_shard i sh s = s\<lparr> po_shards := bt_insert i sh (po_shards s) \<rparr>"

section \<open>Opening sockets\<close>

definition fresh_shard :: "string set \<Rightarrow> shard" where
  "fresh_shard tokens = \<lparr> sh_tokens = tokens, sh_stop = False, sh_command = None, sh_closed = False, sh_pending = None,
     sh_stopping = False, sh_target = None, sh_wire = tokens \<rparr>"

definition spawn_owned_tokens :: "string set \<Rightarrow> 'b pool \<Rightarrow> (string + u64) \<times> 'b pool" where
  "spawn_owned_tokens tokens s =
     (if tokens = {} \<or> card tokens > po_shard_tokens s then (Inl ''acquisition socket membership capacity'', s)
      else if \<not> jobs_len s < po_maximum_shards s then (Inl ''acquisition socket capacity'', s)
      else (case checked_add1 (po_next_id s) of
          None \<Rightarrow> (Inl ''shard identity overflow'', s)
        | Some following \<Rightarrow>
            (let i = po_next_id s; s1 = s\<lparr> po_next_id := following \<rparr>
             in if \<not> po_lanes s then (Inl ''market lane'', s1)
                else (Inr i, s1\<lparr> po_running := po_running s @ [i],
                  po_shards := bt_insert i (fresh_shard tokens) (po_shards s),
                  po_inputs := bt_insert i [] (po_inputs s), po_ready := bt_insert i False (po_ready s) \<rparr>))))"

fun pair_batches :: "(string \<times> string) list \<Rightarrow> string set \<Rightarrow> string + (string set \<times> string set list)" where
  "pair_batches [] tokens = Inr (tokens, [])"
| "pair_batches ((a, b) # pairs) tokens =
     and_then (ensure (token_ok a \<and> token_ok b \<and> a \<noteq> b) ''market token pair'') (\<lambda>_.
     and_then (ensure (a \<notin> tokens \<and> b \<notin> tokens) ''already-owned acquisition token'') (\<lambda>_.
     and_then (pair_batches pairs (tokens \<union> {a, b})) (\<lambda>(all, batches). Inr (all, {a, b} # batches))))"

definition validate_add_pairs :: "(string \<times> string) list \<Rightarrow> 'b pool \<Rightarrow> string + string set list" where
  "validate_add_pairs pairs s =
     and_then (pair_batches pairs (pool_tokens s)) (\<lambda>(all, batches).
     and_then (ensure (card all \<le> po_maximum_tokens s) ''acquisition token capacity'') (\<lambda>_.
     and_then (ensure (jobs_len s + length batches \<le> po_maximum_shards s) ''acquisition socket capacity'') (\<lambda>_.
     and_then (ensure (unat (po_next_id s) + length batches < 2 ^ 64) ''shard identity overflow'') (\<lambda>_. Inr batches))))"

fun spawn_all :: "string set list \<Rightarrow> 'b pool \<Rightarrow> (string + u64 list) \<times> 'b pool" where
  "spawn_all [] s = (Inr [], s)"
| "spawn_all (tokens # batches) s =
     (case spawn_owned_tokens tokens s of
        (Inl err, s1) \<Rightarrow> (Inl err, s1)
      | (Inr i, s1) \<Rightarrow>
          (case spawn_all batches s1 of
             (Inl err, s2) \<Rightarrow> (Inl err, s2)
           | (Inr is, s2) \<Rightarrow> (Inr (i # is), s2)))"

section \<open>Joining sockets that ended\<close>

definition handle_finished :: "u64 \<Rightarrow> shard_exit \<Rightarrow> 'b pool \<Rightarrow> (string + unit) \<times> 'b pool" where
  "handle_finished i result s =
     (case bt_get (po_shards s) i of
        None \<Rightarrow> (Inl ''finished acquisition socket absent'', s)
      | Some sh \<Rightarrow>
          (let s1 = s\<lparr> po_shards := bt_remove i (po_shards s), po_inputs := bt_remove i (po_inputs s),
                 po_ready := bt_remove i (po_ready s) \<rparr>;
               reason = (case result of Finished (Inr _) \<Rightarrow> ''socket_task_ended'' | Finished (Inl err) \<Rightarrow> socket_reason err
                 | Panicked \<Rightarrow> ''socket_task_panicked'')
           in if sh_stopping sh then (Inr (), s1)
              else (case spawn_owned_tokens (sh_tokens sh) s1 of
                  (Inl err, s2) \<Rightarrow> (Inl err, s2)
                | (Inr replacement, s2) \<Rightarrow>
                    (let s3 = (case sh_target sh of
                         Some target \<Rightarrow> put_shard replacement ((fresh_shard (sh_tokens sh))\<lparr> sh_target := Some target \<rparr>) s2
                       | None \<Rightarrow> s2)
                     in (Inr (), s3\<lparr> po_failed := po_failed s3 @ [(sh_tokens sh, reason)] \<rparr>)))))"

definition purge_retired_notifications :: "'b pool \<Rightarrow> (string + unit) \<times> 'b pool" where
  "purge_retired_notifications s =
     (let retained = filter (bt_contains (po_ready s)) (po_notices s)
      in if length retained \<le> po_maximum_shards s then (Inr (), s\<lparr> po_notices := retained \<rparr>)
         else (Inl ''market-ready notification budget differs'', s\<lparr> po_notices := take (po_maximum_shards s) retained \<rparr>))"

fun reap_loop :: "(u64 \<times> shard_exit) list \<Rightarrow> 'b pool \<Rightarrow> (string + unit) \<times> 'b pool" where
  "reap_loop [] s = purge_retired_notifications s"
| "reap_loop ((i, result) # ended) s =
     (case handle_finished i result (s\<lparr> po_finished := ended \<rparr>) of
        (Inl err, s1) \<Rightarrow> (Inl err, s1)
      | (Inr _, s1) \<Rightarrow> reap_loop ended s1)"

definition reap_finished :: "'b pool \<Rightarrow> (string + unit) \<times> 'b pool" where
  "reap_finished s = reap_loop (po_finished s) s"

definition take_failure :: "'b pool \<Rightarrow> (string set \<times> string) option \<times> 'b pool" where
  "take_failure s = (case po_failed s of [] \<Rightarrow> (None, s) | x # rest \<Rightarrow> (Some x, s\<lparr> po_failed := rest \<rparr>))"

definition add_pairs :: "(string \<times> string) list \<Rightarrow> 'b pool \<Rightarrow> (string + u64 list) \<times> 'b pool" where
  "add_pairs pairs s =
     (case reap_finished s of
        (Inl err, s1) \<Rightarrow> (Inl err, s1)
      | (Inr _, s1) \<Rightarrow>
          (case validate_add_pairs pairs s1 of
             Inl err \<Rightarrow> (Inl err, s1)
           | Inr batches \<Rightarrow> spawn_all batches s1))"

section \<open>Retiring and replacing\<close>

text \<open>A command can be submitted while the channel is empty and the transport holds its other end.\<close>

definition can_submit :: "shard \<Rightarrow> bool" where
  "can_submit sh \<longleftrightarrow> sh_command sh = None \<and> \<not> sh_closed sh"

definition submit_change :: "string set \<Rightarrow> shard \<Rightarrow> shard" where
  "submit_change following sh = sh\<lparr>
     sh_command := Some \<lparr> up_expected = sh_tokens sh, up_tokens = following, up_remove_first = True \<rparr>,
     sh_pending := Some (following, Waiting), sh_target := Some following \<rparr>"

fun plan_retire :: "string set \<Rightarrow> (u64 \<times> shard) list \<Rightarrow> string + (u64 \<times> string set) list" where
  "plan_retire removed [] = Inr []"
| "plan_retire removed ((i, sh) # shards) =
     (let following = sh_tokens sh - removed
      in if following = sh_tokens sh then plan_retire removed shards
         else and_then (ensure (sh_target sh = None \<and> \<not> sh_stopping sh) ''shard retirement in flight'') (\<lambda>_.
           and_then (ensure (following = {} \<or> can_submit sh) ''shard update in flight'') (\<lambda>_.
           and_then (plan_retire removed shards) (\<lambda>changes. Inr ((i, following) # changes)))))"

definition retire_shard :: "string set \<Rightarrow> shard \<Rightarrow> shard" where
  "retire_shard following sh =
     (if following = {} then sh\<lparr> sh_stopping := True, sh_stop := True \<rparr> else submit_change following sh)"

definition begin_retire :: "string set \<Rightarrow> 'b pool \<Rightarrow> (string + u64 list) \<times> 'b pool" where
  "begin_retire removed s =
     (if \<not> (removed \<noteq> {} \<and> removed \<subseteq> pool_tokens s) then (Inl ''unknown retirement token'', s)
      else (case plan_retire removed (po_shards s) of
          Inl err \<Rightarrow> (Inl err, s)
        | Inr changes \<Rightarrow> (Inr (map fst changes),
            s\<lparr> po_shards := fold (\<lambda>(i, following). bt_map_value (retire_shard following) i) changes (po_shards s) \<rparr>)))"

definition touches :: "string set \<Rightarrow> shard \<Rightarrow> bool" where
  "touches ids sh \<longleftrightarrow> sh_tokens sh \<inter> ids \<noteq> {}"

definition request_retire :: "string set \<Rightarrow> 'b pool \<Rightarrow> (string + bool) \<times> 'b pool" where
  "request_retire removed s =
     (if removed = {} then (Inl ''empty retirement token set'', s)
      else (let remaining = removed \<inter> pool_tokens s
        in if remaining = {} then (Inr True, s)
           else if list_ex (\<lambda>sh. touches remaining sh \<and> change_in_flight sh) (bt_values (po_shards s)) then (Inr False, s)
           else (case begin_retire remaining s of
               (Inl err, s1) \<Rightarrow> (Inl err, s1)
             | (Inr _, s1) \<Rightarrow> (Inr False, s1))))"

definition request_pair_replacement :: "string \<times> string \<Rightarrow> string \<times> string \<Rightarrow> 'b pool \<Rightarrow> (string + bool) \<times> 'b pool" where
  "request_pair_replacement old_pair new_pair s =
     (if \<not> (fst old_pair \<noteq> snd old_pair \<and> fst new_pair \<noteq> snd new_pair \<and> fst old_pair \<noteq> [] \<and> snd old_pair \<noteq> []
           \<and> fst new_pair \<noteq> [] \<and> snd new_pair \<noteq> []) then (Inl ''replacement market token pair'', s)
      else (let removed = {fst old_pair, snd old_pair}; added = {fst new_pair, snd new_pair}; owned = pool_tokens s
        in if removed \<inter> owned = {} \<and> added \<subseteq> owned then (Inr True, s)
           else if removed \<inter> owned = {} \<and> added \<inter> owned = {} then
             (case add_pairs [new_pair] s of (Inl err, s1) \<Rightarrow> (Inl err, s1) | (Inr _, s1) \<Rightarrow> (Inr True, s1))
           else if \<not> (removed \<subseteq> owned \<and> added \<inter> owned = {}) then (Inl ''replacement membership differs'', s)
           else if list_ex (\<lambda>sh. touches removed sh \<and> change_in_flight sh) (bt_values (po_shards s)) then (Inr False, s)
           else (case filter (\<lambda>(i, sh). removed \<subseteq> sh_tokens sh) (po_shards s) of
               [(i, sh)] \<Rightarrow>
                 (let following = (sh_tokens sh - removed) \<union> added
                  in if \<not> (card following \<le> po_shard_tokens s
                         \<and> card owned - card removed + 2 \<le> po_maximum_tokens s) then (Inl ''replacement acquisition capacity'', s)
                     else if \<not> can_submit sh then (Inl ''shard update in flight'', s)
                     else (Inr False, put_shard i (submit_change following sh) s))
             | _ \<Rightarrow> (Inl ''replacement pair must be owned by one shard'', s))))"

text \<open>One shard's turn of polling: the result says whether its change completed.\<close>

definition poll_receipt :: "shard \<Rightarrow> (string + bool) \<times> shard" where
  "poll_receipt sh =
     (case sh_pending sh of
        None \<Rightarrow> (Inr False, sh)
      | Some (following, receipt) \<Rightarrow>
          (case receipt of
             Answered (Inr _) \<Rightarrow> (Inr True, sh\<lparr> sh_tokens := following, sh_pending := None, sh_target := None \<rparr>)
           | Answered (Inl err) \<Rightarrow> (Inl ''shard unsubscribe failed'', sh\<lparr> sh_pending := None \<rparr>)
           | Waiting \<Rightarrow> (Inr False, sh)
           | Lost \<Rightarrow> (Inl ''shard unsubscribe receipt lost'', sh\<lparr> sh_pending := None \<rparr>)))"

definition poll_shard :: "shard \<Rightarrow> (string + bool) \<times> shard" where
  "poll_shard sh =
     (case (sh_pending sh, sh_target sh) of
        (None, Some following) \<Rightarrow>
          if can_submit sh then poll_receipt (submit_change following sh) else (Inl ''retirement retry busy or stopped'', sh)
      | _ \<Rightarrow> poll_receipt sh)"

fun poll_shards :: "(u64 \<times> shard) list \<Rightarrow> (string + u64 list) \<times> (u64 \<times> shard) list" where
  "poll_shards [] = (Inr [], [])"
| "poll_shards ((i, sh) # shards) =
     (case poll_shard sh of
        (Inl err, sh1) \<Rightarrow> (Inl err, (i, sh1) # shards)
      | (Inr completed, sh1) \<Rightarrow>
          (case poll_shards shards of
             (Inl err, rest) \<Rightarrow> (Inl err, (i, sh1) # rest)
           | (Inr ids, rest) \<Rightarrow> (Inr (if completed then i # ids else ids), (i, sh1) # rest)))"

definition poll_retirements :: "'b pool \<Rightarrow> (string + u64 list) \<times> 'b pool" where
  "poll_retirements s =
     (case poll_shards (po_shards s) of
        (Inl err, shards) \<Rightarrow> (Inl err, s\<lparr> po_shards := shards \<rparr>)
      | (Inr completed, shards) \<Rightarrow>
          (case reap_finished (s\<lparr> po_shards := shards \<rparr>) of
             (Inl err, s1) \<Rightarrow> (Inl err, s1)
           | (Inr _, s1) \<Rightarrow> (Inr completed, s1)))"

section \<open>Frames\<close>

definition signal :: "u64 \<Rightarrow> 'b pool \<Rightarrow> (socket_error + unit) \<times> 'b pool" where
  "signal i s =
     (if bt_get (po_ready s) i = Some True then (Inr (), s)
      else if length (po_notices s) < po_maximum_shards s
      then (Inr (), s\<lparr> po_ready := bt_insert i True (po_ready s), po_notices := po_notices s @ [i] \<rparr>)
      else (Inl Backpressure, s))"

definition take_ready :: "u64 \<Rightarrow> 'b pool \<Rightarrow> (string + 'b option) \<times> 'b pool" where
  "take_ready i s =
     (case bt_get (po_ready s) i of
        None \<Rightarrow> (Inr None, s)
      | Some _ \<Rightarrow>
          (let s1 = s\<lparr> po_ready := bt_insert i False (po_ready s) \<rparr>
           in case bt_get (po_inputs s1) i of
                None \<Rightarrow> (Inr None, s1)
              | Some [] \<Rightarrow> (Inr None, s1)
              | Some (batch # rest) \<Rightarrow>
                  (let s2 = s1\<lparr> po_inputs := bt_insert i rest (po_inputs s1) \<rparr>
                   in if rest = [] then (Inr (Some batch), s2)
                      else (case signal i s2 of
                          (Inl err, s3) \<Rightarrow> (Inl (socket_reason err), s3)
                        | (Inr _, s3) \<Rightarrow> (Inr (Some batch), s3)))))"

fun drain_notices :: "u64 list \<Rightarrow> 'b pool \<Rightarrow> (string + 'b option) \<times> 'b pool" where
  "drain_notices [] s = (Inr None, s)"
| "drain_notices (i # notices) s =
     (case take_ready i (s\<lparr> po_notices := notices \<rparr>) of
        (Inl err, s1) \<Rightarrow> (Inl err, s1)
      | (Inr (Some batch), s1) \<Rightarrow> (Inr (Some batch), s1)
      | (Inr None, s1) \<Rightarrow> drain_notices notices s1)"

definition try_next_batch :: "'b pool \<Rightarrow> (string + 'b option) \<times> 'b pool" where
  "try_next_batch s = (if po_failed s \<noteq> [] then (Inr None, s) else drain_notices (po_notices s) s)"

datatype 'b event = Batch 'b | ShardFailed "string set" string

text \<open>
  The waiting form takes the branches its select chooses, one after the other; \<open>None\<close> means that it still
  waits after them.
\<close>

datatype wake = Noticed | Joined

fun next_batch_or_failure :: "wake list \<Rightarrow> 'b pool \<Rightarrow> (string + 'b event) option \<times> 'b pool" where
  "next_batch_or_failure wakes s =
     (case po_failed s of
        (tokens, reason) # rest \<Rightarrow> (Some (Inr (ShardFailed tokens reason)), s\<lparr> po_failed := rest \<rparr>)
      | [] \<Rightarrow>
          (case wakes of
             [] \<Rightarrow> (None, s)
           | Noticed # wakes \<Rightarrow>
               (case po_notices s of
                  [] \<Rightarrow> next_batch_or_failure wakes s
                | i # notices \<Rightarrow>
                    (case take_ready i (s\<lparr> po_notices := notices \<rparr>) of
                       (Inl err, s1) \<Rightarrow> (Some (Inl err), s1)
                     | (Inr (Some batch), s1) \<Rightarrow> (Some (Inr (Batch batch)), s1)
                     | (Inr None, s1) \<Rightarrow> next_batch_or_failure wakes s1))
           | Joined # wakes \<Rightarrow>
               (case po_finished s of
                  [] \<Rightarrow> next_batch_or_failure wakes s
                | (i, result) # ended \<Rightarrow>
                    (case handle_finished i result (s\<lparr> po_finished := ended \<rparr>) of
                       (Inl err, s1) \<Rightarrow> (Some (Inl err), s1)
                     | (Inr _, s1) \<Rightarrow>
                         (case purge_retired_notifications s1 of
                            (Inl err, s2) \<Rightarrow> (Some (Inl err), s2)
                          | (Inr _, s2) \<Rightarrow> next_batch_or_failure wakes s2)))))"

declare next_batch_or_failure.simps [simp del]

definition stop :: "'b pool \<Rightarrow> 'b pool" where
  "stop s = s\<lparr> po_shards := [], po_inputs := [], po_ready := [], po_failed := [], po_running := [], po_finished := [] \<rparr>"

section \<open>The transport's side\<close>

text \<open>
  What the socket tasks do between the calls of the owner: carry out the waiting command, end, and deliver a
  batch into their lane.
\<close>

definition serve :: "u64 \<Rightarrow> bool \<Rightarrow> bool \<Rightarrow> 'b pool \<Rightarrow> 'b pool" where
  "serve i sent1 sent2 s =
     (case bt_get (po_shards s) i of
        None \<Rightarrow> s
      | Some sh \<Rightarrow>
          (case sh_command sh of
             None \<Rightarrow> s
           | Some u \<Rightarrow>
               (case apply_update sent1 sent2 u (sh_wire sh) of
                  (answer, wire) \<Rightarrow> put_shard i (sh\<lparr> sh_command := None, sh_wire := wire,
                    sh_pending := map_option (\<lambda>(following, receipt). (following, Answered answer)) (sh_pending sh) \<rparr>) s)))"

definition socket_ends :: "u64 \<Rightarrow> shard_exit \<Rightarrow> 'b pool \<Rightarrow> 'b pool" where
  "socket_ends i result s =
     (if i \<notin> set (po_running s) then s
      else (let s1 = s\<lparr> po_running := remove1 i (po_running s), po_finished := po_finished s @ [(i, result)] \<rparr>
        in case bt_get (po_shards s) i of
             None \<Rightarrow> s1
           | Some sh \<Rightarrow> put_shard i (sh\<lparr> sh_closed := True, sh_command := None,
               sh_pending := map_option (\<lambda>(following, receipt). (following, if receipt = Waiting then Lost else receipt))
                 (sh_pending sh) \<rparr>) s1))"

text \<open>A full lane makes the socket wait: the batch is not in the lane yet.\<close>

definition deliver :: "u64 \<Rightarrow> 'b \<Rightarrow> 'b pool \<Rightarrow> (socket_error + bool) \<times> 'b pool" where
  "deliver i batch s =
     (case bt_get (po_inputs s) i of
        None \<Rightarrow> (Inl Backpressure, s)
      | Some lane \<Rightarrow>
          if i \<in> set (po_running s) \<and> length lane < 2048
          then (case signal i (s\<lparr> po_inputs := bt_insert i (lane @ [batch]) (po_inputs s) \<rparr>) of
              (Inl err, s1) \<Rightarrow> (Inl err, s1)
            | (Inr _, s1) \<Rightarrow> (Inr True, s1))
          else (Inr False, s))"

end
