(* ===== verification/Shard_Safety.thy ===== *)
theory Shard_Safety
  imports Shard_Pool Map_Sums
begin

text \<open>
  Invariants of the socket pool: every task has its shard and its lane, a shard's command, receipt and target
  agree, a lane with a frame is announced, no token is claimed by two sockets, and the budgets hold.
\<close>

section \<open>Changing shards in place\<close>

definition pointwise :: "('v \<Rightarrow> 'v \<Rightarrow> bool) \<Rightarrow> ('k \<times> 'v) list \<Rightarrow> ('k \<times> 'v) list \<Rightarrow> bool" where
  "pointwise R = list_all2 (\<lambda>(i, x) (j, y). i = j \<and> R x y)"

lemma pointwise_simps [simp]:
  "pointwise R [] m' \<longleftrightarrow> m' = []"
  "pointwise R ((i, x) # m) m' \<longleftrightarrow> (\<exists>y n'. m' = (i, y) # n' \<and> R x y \<and> pointwise R m n')"
  by (auto simp: pointwise_def list_all2_Cons1)

lemma pointwise_keys: "pointwise R m m' \<Longrightarrow> map fst m' = map fst m"
  by (induction m arbitrary: m') auto

lemma pointwise_wf: "pointwise R m m' \<Longrightarrow> bt_wf m' = bt_wf m"
  by (simp add: bt_wf_def pointwise_keys)

lemma pointwise_get: "pointwise R m m' \<Longrightarrow> rel_option R (bt_get m i) (bt_get m' i)"
  by (induction m arbitrary: m') (auto simp: bt_get_Cons)

lemma pointwise_sum: "pointwise R m m' \<Longrightarrow> (\<And>x y. R x y \<Longrightarrow> f y \<le> f x) \<Longrightarrow> bt_sum f m' \<le> bt_sum f m"
  by (induction m arbitrary: m') (auto intro!: add_mono)

lemma pointwise_refl: "(\<And>x. R x x) \<Longrightarrow> pointwise R m m"
  by (induction m) auto

lemma pointwise_mono: "pointwise R m m' \<Longrightarrow> (\<And>x y. R x y \<Longrightarrow> S x y) \<Longrightarrow> pointwise S m m'"
  by (induction m arbitrary: m') auto

lemma pointwise_on: "pointwise R m m' \<Longrightarrow> \<forall>(i, x) \<in> set m. P x \<Longrightarrow> pointwise (\<lambda>x y. P x \<and> R x y) m m'"
  by (induction m arbitrary: m') auto

lemma pointwise_trans: "pointwise R m m' \<Longrightarrow> pointwise S m' m'' \<Longrightarrow> pointwise (R OO S) m m''"
  by (induction m arbitrary: m' m'') (auto, blast)

lemma pointwise_insert:
  "bt_wf m \<Longrightarrow> bt_get m i = Some x \<Longrightarrow> R x y \<Longrightarrow> (\<And>z. R z z) \<Longrightarrow> pointwise R m (bt_insert i y m)"
proof (induction m)
  case (Cons a m)
  obtain j z where a: "a = (j, z)" by fastforce
  from Cons show ?case
    using bt_get_smaller [of j z m i] by (auto simp: a bt_wf_Cons bt_get_Cons pointwise_refl split: if_splits)
qed simp

lemma pointwise_map_value:
  "(\<And>z. R z z) \<Longrightarrow> (\<And>x. R x (f x)) \<Longrightarrow> pointwise R m (bt_map_value f i m)"
  by (induction m) (auto simp: bt_map_value_def)

section \<open>The invariant\<close>

text \<open>Every task, running or ended, has its shard, its lane and its notification state, and nothing else has.\<close>

definition tasks :: "'b pool \<Rightarrow> u64 list" where
  "tasks s = po_running s @ map fst (po_finished s)"

definition sockets_ok :: "'b pool \<Rightarrow> bool" where
  "sockets_ok s \<longleftrightarrow> bt_wf (po_shards s) \<and> bt_wf (po_inputs s) \<and> bt_wf (po_ready s) \<and> distinct (tasks s)
     \<and> (\<forall>i. (bt_get (po_shards s) i \<noteq> None) = (i \<in> set (tasks s))
          \<and> (bt_get (po_inputs s) i \<noteq> None) = (i \<in> set (tasks s))
          \<and> (bt_get (po_ready s) i \<noteq> None) = (i \<in> set (tasks s)))
     \<and> (\<forall>i \<in> set (tasks s). i < po_next_id s) \<and> length (tasks s) \<le> po_maximum_shards s \<and> po_lanes s
     \<and> 2 \<le> po_shard_tokens s \<and> po_shard_tokens s \<le> 500"

lemma jobs_len_tasks: "jobs_len s = length (tasks s)"
  by (simp add: jobs_len_def tasks_def)

definition shard_ok :: "nat \<Rightarrow> shard \<Rightarrow> bool" where
  "shard_ok n sh \<longleftrightarrow> finite (sh_tokens sh) \<and> sh_tokens sh \<noteq> {} \<and> card (sh_tokens sh) \<le> n
     \<and> (\<forall>target. sh_target sh = Some target \<longrightarrow> \<not> sh_stopping sh \<and> finite target \<and> target \<noteq> {} \<and> card target \<le> card (sh_tokens sh))
     \<and> (\<forall>following receipt. sh_pending sh = Some (following, receipt) \<longrightarrow> sh_target sh = Some following)
     \<and> (\<forall>u. sh_command sh = Some u \<longrightarrow> (\<exists>following. u = \<lparr> up_expected = sh_tokens sh, up_tokens = following, up_remove_first = True \<rparr>
          \<and> sh_pending sh = Some (following, Waiting)))"

definition shards_ok :: "'b pool \<Rightarrow> bool" where
  "shards_ok s \<longleftrightarrow> (\<forall>i sh. bt_get (po_shards s) i = Some sh \<longrightarrow> shard_ok (po_shard_tokens s) sh)"

text \<open>Waiting frames are announced; a notification of a socket that was just removed may linger.\<close>

definition lanes_ok :: "'b pool \<Rightarrow> bool" where
  "lanes_ok s \<longleftrightarrow> distinct (po_notices s) \<and> (\<forall>i \<in> set (po_notices s). i < po_next_id s)
     \<and> (\<forall>i. bt_get (po_ready s) i \<noteq> None \<longrightarrow> (i \<in> set (po_notices s)) = (bt_get (po_ready s) i = Some True))
     \<and> (\<forall>i batch rest. bt_get (po_inputs s) i = Some (batch # rest) \<longrightarrow> bt_get (po_ready s) i = Some True)"

definition purged :: "'b pool \<Rightarrow> bool" where
  "purged s \<longleftrightarrow> (\<forall>i \<in> set (po_notices s). bt_get (po_ready s) i \<noteq> None)"

text \<open>A token is claimed by the socket that owns it and by the one a change would give it to.\<close>

definition claims :: "shard \<Rightarrow> string set" where
  "claims sh = sh_tokens sh \<union> (case sh_target sh of Some target \<Rightarrow> target | None \<Rightarrow> {})"

definition exclusive :: "'b pool \<Rightarrow> bool" where
  "exclusive s \<longleftrightarrow> (\<forall>i j x y. bt_get (po_shards s) i = Some x \<longrightarrow> bt_get (po_shards s) j = Some y \<longrightarrow> i \<noteq> j \<longrightarrow> claims x \<inter> claims y = {})
     \<and> bt_sum (\<lambda>sh. card (sh_tokens sh)) (po_shards s) \<le> po_maximum_tokens s"

definition pool_ok :: "'b pool \<Rightarrow> bool" where
  "pool_ok s \<longleftrightarrow> sockets_ok s \<and> shards_ok s \<and> lanes_ok s"

section \<open>Steps on the shards alone\<close>

definition shard_step :: "nat \<Rightarrow> shard \<Rightarrow> shard \<Rightarrow> bool" where
  "shard_step n x y \<longleftrightarrow> (shard_ok n x \<longrightarrow> shard_ok n y)"

definition shrinks :: "nat \<Rightarrow> shard \<Rightarrow> shard \<Rightarrow> bool" where
  "shrinks n x y \<longleftrightarrow> (shard_ok n x \<longrightarrow> shard_ok n y \<and> claims y \<subseteq> claims x \<and> card (sh_tokens y) \<le> card (sh_tokens x))"

lemma reshape_ok:
  assumes "pool_ok s" and "pointwise R (po_shards s) m" and "\<And>x y. R x y \<Longrightarrow> shard_ok (po_shard_tokens s) x \<Longrightarrow> shard_ok (po_shard_tokens s) y"
  shows "pool_ok (s\<lparr> po_shards := m \<rparr>)"
proof -
  have get: "rel_option R (bt_get (po_shards s) i) (bt_get m i)" for i by (rule pointwise_get [OF assms(2)])
  have none: "bt_get m i = None \<longleftrightarrow> bt_get (po_shards s) i = None" for i
    using get [of i] by (cases "bt_get m i"; cases "bt_get (po_shards s) i") auto
  have "shard_ok (po_shard_tokens s) y" if "bt_get m i = Some y" for i y
    using get [of i] that assms(1,3) by (auto simp: pool_ok_def shards_ok_def option_rel_Some2)
  then show ?thesis
    using assms(1) pointwise_wf [OF assms(2)] by (auto simp: pool_ok_def sockets_ok_def shards_ok_def lanes_ok_def tasks_def none)
qed

lemma reshape_exclusive:
  assumes "exclusive s" and "shards_ok s" and m: "pointwise (shrinks (po_shard_tokens s)) (po_shards s) m" and "bt_wf (po_shards s)"
  shows "exclusive (s\<lparr> po_shards := m \<rparr>)"
proof -
  let ?n = "po_shard_tokens s"
  have get: "rel_option (shrinks ?n) (bt_get (po_shards s) i) (bt_get m i)" for i by (rule pointwise_get [OF m])
  have claims: "\<exists>x. bt_get (po_shards s) i = Some x \<and> claims y \<subseteq> claims x" if "bt_get m i = Some y" for i y
    using get [of i] that assms(2) by (auto simp: shards_ok_def option_rel_Some2 shrinks_def)
  have "claims x \<inter> claims y = {}" if "bt_get m i = Some x" "bt_get m j = Some y" "i \<noteq> j" for i j x y
    using claims [OF that(1)] claims [OF that(2)] assms(1) that(3) unfolding exclusive_def by blast
  moreover have "bt_sum (\<lambda>sh. card (sh_tokens sh)) m \<le> bt_sum (\<lambda>sh. card (sh_tokens sh)) (po_shards s)"
  proof (rule pointwise_sum)
    have "\<forall>(i, x) \<in> set (po_shards s). shard_ok ?n x"
      using assms(2,4) by (auto simp: shards_ok_def bt_get_iff)
    from pointwise_on [OF m this] show "pointwise (\<lambda>x y. shard_ok ?n x \<and> shrinks ?n x y) (po_shards s) m" .
  qed (simp add: shrinks_def)
  ultimately show ?thesis using assms(1) by (auto simp: exclusive_def)
qed

text \<open>What polling, serving and retiring do to one shard.\<close>

lemma submit_ok: "shard_ok n sh \<Longrightarrow> \<not> sh_stopping sh \<Longrightarrow> finite f \<Longrightarrow> f \<noteq> {} \<Longrightarrow> card f \<le> card (sh_tokens sh) \<Longrightarrow> shard_ok n (submit_change f sh)"
  by (auto simp: shard_ok_def submit_change_def)

lemma poll_receipt_ok:
  assumes "shard_ok n sh"
  shows "shard_ok n (snd (poll_receipt sh)) \<and> claims (snd (poll_receipt sh)) \<subseteq> claims sh
    \<and> card (sh_tokens (snd (poll_receipt sh))) \<le> card (sh_tokens sh)"
  using assms
  by (auto simp: poll_receipt_def shard_ok_def claims_def split: option.splits receipt.splits sum.splits)

lemma poll_shard_shrinks: "shrinks n sh (snd (poll_shard sh))"
  unfolding shrinks_def
proof
  assume ok: "shard_ok n sh"
  show "shard_ok n (snd (poll_shard sh)) \<and> claims (snd (poll_shard sh)) \<subseteq> claims sh
    \<and> card (sh_tokens (snd (poll_shard sh))) \<le> card (sh_tokens sh)"
  proof (cases "sh_pending sh = None \<and> sh_target sh \<noteq> None \<and> can_submit sh")
    case True
    then obtain f where f: "sh_target sh = Some f" "sh_pending sh = None" "can_submit sh" by auto
    then have "shard_ok n (submit_change f sh)" using ok by (intro submit_ok) (auto simp: shard_ok_def)
    from poll_receipt_ok [OF this] f show ?thesis by (simp add: poll_shard_def claims_def submit_change_def)
  next
    case False
    then have "snd (poll_shard sh) = sh \<or> snd (poll_shard sh) = snd (poll_receipt sh)"
      by (auto simp: poll_shard_def split: option.split)
    with poll_receipt_ok [OF ok] ok show ?thesis by auto
  qed
qed

lemma shrinks_refl: "shrinks n x x"
  by (simp add: shrinks_def)

lemma poll_shards_pointwise: "pointwise (shrinks n) m (snd (poll_shards m))"
proof (induction m)
  case (Cons a m)
  obtain i sh where a: "a = (i, sh)" by fastforce
  from Cons poll_shard_shrinks [of n sh] show ?case
    by (auto simp: a pointwise_refl [OF shrinks_refl] split: sum.split prod.split)
qed simp

lemma retire_shard_shrinks:
  "\<not> change_in_flight sh \<Longrightarrow> f \<subseteq> sh_tokens sh \<Longrightarrow> shrinks n sh (retire_shard f sh)"
  by (auto simp: shrinks_def retire_shard_def submit_change_def shard_ok_def claims_def change_in_flight_def intro: card_mono finite_subset)

lemma plan_retire_facts:
  assumes "plan_retire removed m = Inr changes" and "distinct (map fst m)"
  shows "distinct (map fst changes)" and "set (map fst changes) \<subseteq> set (map fst m)"
    and "(i, f) \<in> set changes \<longleftrightarrow> (\<exists>sh. (i, sh) \<in> set m \<and> sh_tokens sh \<inter> removed \<noteq> {} \<and> f = sh_tokens sh - removed)"
    and "(i, sh) \<in> set m \<Longrightarrow> sh_tokens sh \<inter> removed \<noteq> {} \<Longrightarrow> \<not> change_in_flight sh \<and> (sh_tokens sh - removed = {} \<or> can_submit sh)"
proof -
  have "distinct (map fst changes) \<and> set (map fst changes) \<subseteq> set (map fst m)
    \<and> (\<forall>i f. (i, f) \<in> set changes \<longleftrightarrow> (\<exists>sh. (i, sh) \<in> set m \<and> sh_tokens sh \<inter> removed \<noteq> {} \<and> f = sh_tokens sh - removed))
    \<and> (\<forall>i sh. (i, sh) \<in> set m \<longrightarrow> sh_tokens sh \<inter> removed \<noteq> {} \<longrightarrow> \<not> change_in_flight sh \<and> (sh_tokens sh - removed = {} \<or> can_submit sh))"
    using assms
  proof (induction m arbitrary: changes)
    case (Cons a m)
    obtain j x where a: "a = (j, x)" by fastforce
    have same: "sh_tokens x - removed = sh_tokens x \<longleftrightarrow> sh_tokens x \<inter> removed = {}" by auto
    show ?case
    proof (cases "sh_tokens x \<inter> removed = {}")
      case True
      with Cons show ?thesis by (auto simp: a same)
    next
      case False
      with Cons.prems(1) obtain rest where rest: "plan_retire removed m = Inr rest" "changes = (j, sh_tokens x - removed) # rest"
        "sh_target x = None" "\<not> sh_stopping x" "sh_tokens x - removed = {} \<or> can_submit x"
        by (auto simp: a same and_then_Inr_iff Let_def)
      from Cons.IH [OF rest(1)] Cons.prems(2) False rest show ?thesis by (auto simp: a change_in_flight_def)
    qed
  qed simp
  note all = this
  from all show "distinct (map fst changes)" by (rule conjunct1)
  from all show "set (map fst changes) \<subseteq> set (map fst m)" by (rule conjunct2 [THEN conjunct1])
  from spec [OF spec [OF all [THEN conjunct2, THEN conjunct2, THEN conjunct1], of i], of f]
  show "(i, f) \<in> set changes \<longleftrightarrow> (\<exists>sh. (i, sh) \<in> set m \<and> sh_tokens sh \<inter> removed \<noteq> {} \<and> f = sh_tokens sh - removed)" .
  from spec [OF spec [OF all [THEN conjunct2, THEN conjunct2, THEN conjunct2], of i], of sh]
  show "(i, sh) \<in> set m \<Longrightarrow> sh_tokens sh \<inter> removed \<noteq> {} \<Longrightarrow> \<not> change_in_flight sh \<and> (sh_tokens sh - removed = {} \<or> can_submit sh)"
    by iprover
qed

lemma fold_map_value:
  "distinct (map fst changes) \<Longrightarrow> fold (\<lambda>(i, f). bt_map_value (g f) i) changes m
    = map (\<lambda>(k, v). (k, case map_of changes k of Some f \<Rightarrow> g f v | None \<Rightarrow> v)) m"
proof (induction changes arbitrary: m)
  case (Cons c changes)
  obtain i f where c: "c = (i, f)" by fastforce
  have "map_of changes i = None" using Cons.prems by (auto simp: c map_of_eq_None_iff)
  with Cons show ?case by (auto simp: c bt_map_value_def)
qed (simp add: case_prod_beta)

lemma pointwise_map: "pointwise R m (map (\<lambda>(k, v). (k, h k v)) m) \<longleftrightarrow> (\<forall>(k, v) \<in> set m. R v (h k v))"
  by (induction m) auto

lemma map_of_changes:
  assumes "plan_retire removed m = Inr changes" and "bt_wf m" and "(k, v) \<in> set m"
  shows "map_of changes k = (if sh_tokens v \<inter> removed = {} then None else Some (sh_tokens v - removed))"
proof -
  note facts = plan_retire_facts [OF assms(1) bt_wf_distinct [OF assms(2)]]
  have only: "(k, x) \<in> set m \<longleftrightarrow> x = v" for x
    using assms(2,3) bt_get_iff [OF assms(2)] by (metis option.inject)
  show ?thesis
  proof (cases "sh_tokens v \<inter> removed = {}")
    case True
    then have "k \<notin> set (map fst changes)" using facts(3) [of k] only by auto
    with True show ?thesis by (simp add: map_of_eq_None_iff)
  next
    case False
    then have "(k, sh_tokens v - removed) \<in> set changes" using facts(3) [of k] only by auto
    with False facts(1) show ?thesis by simp
  qed
qed

text \<open>Retirement, shard by shard.\<close>

lemma begin_retire_shards:
  assumes "plan_retire removed m = Inr changes" and "bt_wf m"
  shows "fold (\<lambda>(i, f). bt_map_value (retire_shard f) i) changes m
    = map (\<lambda>(k, v). (k, if sh_tokens v \<inter> removed = {} then v else retire_shard (sh_tokens v - removed) v)) m"
proof -
  have "(case map_of changes k of Some f \<Rightarrow> retire_shard f v | None \<Rightarrow> v)
      = (if sh_tokens v \<inter> removed = {} then v else retire_shard (sh_tokens v - removed) v)" if "(k, v) \<in> set m" for k v
    using map_of_changes [OF assms that] by simp
  then show ?thesis
    unfolding fold_map_value [OF plan_retire_facts(1) [OF assms(1) bt_wf_distinct [OF assms(2)]]]
    by (auto intro!: map_cong)
qed

lemma begin_retire_pointwise:
  assumes "plan_retire removed m = Inr changes" and "bt_wf m"
  shows "pointwise (shrinks n) m (fold (\<lambda>(i, f). bt_map_value (retire_shard f) i) changes m)"
  unfolding begin_retire_shards [OF assms] pointwise_map
  using plan_retire_facts(4) [OF assms(1) bt_wf_distinct [OF assms(2)]]
  by (auto intro!: retire_shard_shrinks shrinks_refl)

section \<open>Opening and joining\<close>

definition same_budgets :: "'b pool \<Rightarrow> 'b pool \<Rightarrow> bool" where
  "same_budgets s s' \<longleftrightarrow> po_lanes s' = po_lanes s \<and> po_maximum_tokens s' = po_maximum_tokens s
     \<and> po_maximum_shards s' = po_maximum_shards s \<and> po_shard_tokens s' = po_shard_tokens s \<and> po_next_id s \<le> po_next_id s'"

lemma same_budgets_refl [simp]: "same_budgets s s"
  by (simp add: same_budgets_def)

lemma same_budgets_trans: "same_budgets s s' \<Longrightarrow> same_budgets s' s'' \<Longrightarrow> same_budgets s s''"
  by (auto simp: same_budgets_def)

lemma same_budgets_room: "same_budgets s s' \<Longrightarrow> po_next_id s' \<noteq> - 1 \<Longrightarrow> po_next_id s \<noteq> - 1"
  by (metis same_budgets_def word_order.extremum_unique)

lemma next_larger: "x \<noteq> - 1 \<Longrightarrow> (x :: u64) < x + 1"
  using checked_add1_unat [of x "x + 1"] by (simp add: word_less_nat_alt)

lemma spawn_budgets: "same_budgets s (snd (spawn_owned_tokens tokens s))"
  using next_larger [of "po_next_id s"]
  by (auto simp: spawn_owned_tokens_def same_budgets_def checked_add1_def Let_def)

lemma spawn_ok:
  assumes ok: "pool_ok s" and "finite tokens" "tokens \<noteq> {}" "card tokens \<le> po_shard_tokens s" "jobs_len s < po_maximum_shards s"
    and room: "po_next_id s \<noteq> - 1"
  defines "i \<equiv> po_next_id s"
  defines "s' \<equiv> s\<lparr> po_next_id := i + 1, po_running := po_running s @ [i], po_shards := bt_insert i (fresh_shard tokens) (po_shards s),
      po_inputs := bt_insert i [] (po_inputs s), po_ready := bt_insert i False (po_ready s) \<rparr>"
  shows "spawn_owned_tokens tokens s = (Inr i, s')" and "pool_ok s'"
    and "bt_get (po_shards s) i = None"
    and "exclusive s \<Longrightarrow> (\<forall>j x. bt_get (po_shards s) j = Some x \<longrightarrow> claims x \<inter> tokens = {}) \<Longrightarrow>
      bt_sum (\<lambda>sh. card (sh_tokens sh)) (po_shards s) + card tokens \<le> po_maximum_tokens s \<Longrightarrow> exclusive s'"
proof -
  have lanes: "po_lanes s" using ok by (simp add: pool_ok_def sockets_ok_def)
  then show "spawn_owned_tokens tokens s = (Inr i, s')"
    using assms(3,4,5) room by (simp add: spawn_owned_tokens_def checked_add1_def Let_def s'_def i_def)
  have fresh: "i \<notin> set (tasks s)" "i \<notin> set (po_notices s)" using ok by (auto simp: pool_ok_def sockets_ok_def lanes_ok_def i_def)
  then show none: "bt_get (po_shards s) i = None" using ok by (metis pool_ok_def sockets_ok_def)
  have less: "i < i + 1" using next_larger [OF room] by (simp add: i_def)
  have tasks: "set (tasks s') = insert i (set (tasks s))" "length (tasks s') = Suc (length (tasks s))"
    "distinct (tasks s') = distinct (i # tasks s)"
    by (auto simp: tasks_def s'_def)
  have older: "j < i + 1" if "j < i" for j using that less by (rule less_trans)
  have "sockets_ok s'" using ok fresh less older assms(5) unfolding sockets_ok_def tasks
    by (auto simp: pool_ok_def sockets_ok_def jobs_len_tasks i_def s'_def)
  moreover have "shards_ok s'"
    using ok assms(2-4) by (auto simp: pool_ok_def shards_ok_def s'_def shard_ok_def fresh_shard_def)
  moreover have "lanes_ok s'"
    using ok fresh less older by (auto simp: pool_ok_def lanes_ok_def s'_def i_def)
  ultimately show "pool_ok s'" by (simp add: pool_ok_def)
  assume ex: "exclusive s" and free: "\<forall>j x. bt_get (po_shards s) j = Some x \<longrightarrow> claims x \<inter> tokens = {}"
    and sum: "bt_sum (\<lambda>sh. card (sh_tokens sh)) (po_shards s) + card tokens \<le> po_maximum_tokens s"
  have "bt_sum (\<lambda>sh. card (sh_tokens sh)) (po_shards s') = bt_sum (\<lambda>sh. card (sh_tokens sh)) (po_shards s) + card tokens"
    using bt_sum_insert [of "po_shards s" "\<lambda>sh. card (sh_tokens sh)" i "fresh_shard tokens"] none ok
    by (simp add: s'_def fresh_shard_def pool_ok_def sockets_ok_def)
  moreover have "claims (fresh_shard tokens) = tokens" by (simp add: claims_def fresh_shard_def)
  moreover have "\<forall>j x. bt_get (po_shards s) j = Some x \<longrightarrow> tokens \<inter> claims x = {}" using free by blast
  ultimately show "exclusive s'" using ex free sum by (simp add: exclusive_def s'_def)
qed

text \<open>A task that ended is joined: first its shard and lane go.\<close>

definition dropped :: "u64 \<Rightarrow> (u64 \<times> shard_exit) list \<Rightarrow> 'b pool \<Rightarrow> 'b pool" where
  "dropped i ended s = s\<lparr> po_finished := ended, po_shards := bt_remove i (po_shards s), po_inputs := bt_remove i (po_inputs s),
     po_ready := bt_remove i (po_ready s) \<rparr>"

lemma dropped_ok:
  assumes ok: "pool_ok s" and fin: "po_finished s = (i, result) # ended" and sh: "bt_get (po_shards s) i = Some sh"
  shows "pool_ok (dropped i ended s)" and "exclusive s \<Longrightarrow> exclusive (dropped i ended s)"
    and "jobs_len (dropped i ended s) < po_maximum_shards s"
    and "bt_sum (\<lambda>sh. card (sh_tokens sh)) (po_shards (dropped i ended s)) + card (sh_tokens sh)
      = bt_sum (\<lambda>sh. card (sh_tokens sh)) (po_shards s)"
proof -
  have tasks: "set (tasks s) = insert i (set (tasks (dropped i ended s)))" "length (tasks s) = Suc (length (tasks (dropped i ended s)))"
    and distinct: "i \<notin> set (tasks (dropped i ended s))" "distinct (tasks (dropped i ended s))"
    using ok by (auto simp: tasks_def dropped_def fin pool_ok_def sockets_ok_def)
  have "sockets_ok (dropped i ended s)"
    using ok tasks distinct unfolding pool_ok_def sockets_ok_def by (auto simp: dropped_def)
  moreover have "shards_ok (dropped i ended s)" "lanes_ok (dropped i ended s)"
    using ok by (auto simp: pool_ok_def shards_ok_def lanes_ok_def dropped_def)
  ultimately show "pool_ok (dropped i ended s)" by (simp add: pool_ok_def)
  show "jobs_len (dropped i ended s) < po_maximum_shards s"
    using ok tasks(2) by (simp add: jobs_len_tasks pool_ok_def sockets_ok_def)
  show sum: "bt_sum (\<lambda>sh. card (sh_tokens sh)) (po_shards (dropped i ended s)) + card (sh_tokens sh)
      = bt_sum (\<lambda>sh. card (sh_tokens sh)) (po_shards s)"
    using bt_sum_remove [of "po_shards s" "\<lambda>sh. card (sh_tokens sh)" i] ok sh by (simp add: dropped_def pool_ok_def sockets_ok_def)
  show "exclusive (dropped i ended s)" if "exclusive s"
    using that sum by (simp add: exclusive_def dropped_def)
qed

definition exit_reason :: "shard_exit \<Rightarrow> string" where
  "exit_reason result = (case result of Finished (Inr _) \<Rightarrow> ''socket_task_ended'' | Finished (Inl err) \<Rightarrow> socket_reason err
     | Panicked \<Rightarrow> ''socket_task_panicked'')"

lemma handle_finished_cases:
  assumes "bt_get (po_shards s) i = Some sh"
  shows "handle_finished i result (s\<lparr> po_finished := ended \<rparr>) =
    (if sh_stopping sh then (Inr (), dropped i ended s)
     else (case spawn_owned_tokens (sh_tokens sh) (dropped i ended s) of
        (Inl err, s2) \<Rightarrow> (Inl err, s2)
      | (Inr k, s2) \<Rightarrow> (Inr (), (case sh_target sh of
            Some target \<Rightarrow> put_shard k ((fresh_shard (sh_tokens sh))\<lparr> sh_target := Some target \<rparr>) s2 | None \<Rightarrow> s2)
          \<lparr> po_failed := po_failed s2 @ [(sh_tokens sh, exit_reason result)] \<rparr>)))"
proof -
  have "(s\<lparr> po_finished := ended \<rparr>)\<lparr> po_shards := bt_remove i (po_shards s), po_inputs := bt_remove i (po_inputs s),
      po_ready := bt_remove i (po_ready s) \<rparr> = dropped i ended s"
    by (simp add: dropped_def)
  with assms show ?thesis
    by (simp add: handle_finished_def Let_def exit_reason_def put_shard_def split: sum.split prod.split option.split)
qed

text \<open>The shard that replaces one whose socket failed.\<close>

definition reborn :: "shard \<Rightarrow> shard" where
  "reborn sh = (fresh_shard (sh_tokens sh))\<lparr> sh_target := sh_target sh \<rparr>"

lemma claims_reborn [simp]: "claims (reborn sh) = claims sh"
  by (simp add: claims_def reborn_def fresh_shard_def)

lemma bt_insert_twice: "bt_insert k x (bt_insert k y m) = bt_insert k x m"
  by (induction m) auto

lemma handle_finished_ok:
  assumes ok: "pool_ok s" and fin: "po_finished s = (i, result) # ended" and room: "po_next_id s \<noteq> - 1"
  obtains sh s' where "bt_get (po_shards s) i = Some sh" "handle_finished i result (s\<lparr> po_finished := ended \<rparr>) = (Inr (), s')"
    "pool_ok s'" "exclusive s \<longrightarrow> exclusive s'" "same_budgets s s'" "po_finished s' = ended" "po_notices s' = po_notices s"
    "\<And>k. bt_get (po_shards s') k = (if k = po_next_id s \<and> \<not> sh_stopping sh then Some (reborn sh)
       else if k = i then None else bt_get (po_shards s) k)"
    "po_failed s' = po_failed s @ (if sh_stopping sh then [] else [(sh_tokens sh, exit_reason result)])"
    "\<And>k. bt_get (po_inputs s') k = (if k = po_next_id s \<and> \<not> sh_stopping sh then Some []
       else if k = i then None else bt_get (po_inputs s) k)"
    "set (po_running s) \<subseteq> set (po_running s')"
proof -
  have "i \<in> set (tasks s)" by (simp add: tasks_def fin)
  then obtain sh where sh: "bt_get (po_shards s) i = Some sh" using ok by (auto simp: pool_ok_def sockets_ok_def)
  have shok: "shard_ok (po_shard_tokens s) sh" using ok sh by (auto simp: pool_ok_def shards_ok_def)
  note dropped = dropped_ok [OF ok fin sh]
  let ?d = "dropped i ended s" and ?k = "po_next_id s"
  have d: "po_next_id ?d = ?k" "po_failed ?d = po_failed s" "po_notices ?d = po_notices s" "po_finished ?d = ended"
    "po_shard_tokens ?d = po_shard_tokens s" "po_maximum_shards ?d = po_maximum_shards s" "po_maximum_tokens ?d = po_maximum_tokens s"
    "po_lanes ?d = po_lanes s" by (simp_all add: dropped_def)
  have fresh: "?k \<noteq> i" "bt_get (po_shards s) ?k = None" "bt_get (po_inputs s) ?k = None"
    using ok sh by (metis pool_ok_def sockets_ok_def order_less_irrefl \<open>i \<in> set (tasks s)\<close>)+
  show thesis
  proof (cases "sh_stopping sh")
    case True
    then have "handle_finished i result (s\<lparr> po_finished := ended \<rparr>) = (Inr (), ?d)" by (simp add: handle_finished_cases [OF sh])
    then show ?thesis
      by (rule that [OF sh _ dropped(1)]) (use dropped(2) True in \<open>auto simp: same_budgets_def dropped_def\<close>)
  next
    case False
    let ?s1 = "?d\<lparr> po_next_id := ?k + 1, po_running := po_running ?d @ [?k],
      po_shards := bt_insert ?k (fresh_shard (sh_tokens sh)) (po_shards ?d),
      po_inputs := bt_insert ?k [] (po_inputs ?d), po_ready := bt_insert ?k False (po_ready ?d) \<rparr>"
    have fin: "finite (sh_tokens sh)" "sh_tokens sh \<noteq> {}" "card (sh_tokens sh) \<le> po_shard_tokens ?d"
      using shok by (auto simp: shard_ok_def d)
    note spawn = spawn_ok [OF dropped(1) fin, unfolded d, OF dropped(3) room]
    have reborn: "shard_ok (po_shard_tokens s) (reborn sh)" using shok by (auto simp: shard_ok_def reborn_def fresh_shard_def)
    let ?m = "bt_insert ?k (reborn sh) (po_shards ?d)"
    let ?s2 = "?s1\<lparr> po_shards := ?m \<rparr>"
    let ?s' = "?s2\<lparr> po_failed := po_failed s @ [(sh_tokens sh, exit_reason result)] \<rparr>"
    have m: "?m = bt_insert ?k (reborn sh) (po_shards ?s1)" by (simp add: bt_insert_twice)
    have wfd: "bt_wf (po_shards ?d)" using dropped(1) by (simp add: pool_ok_def sockets_ok_def)
    have "pointwise (\<lambda>x y. y = x \<or> y = reborn sh) (po_shards ?s1) ?m"
      unfolding m by (rule pointwise_insert [of _ _ "fresh_shard (sh_tokens sh)"]) (use wfd in simp_all)
    from reshape_ok [OF spawn(2) this] reborn have ok2: "pool_ok ?s2" by (auto simp: d)
    have ok': "pool_ok ?s'" using ok2 by (simp add: pool_ok_def sockets_ok_def shards_ok_def lanes_ok_def tasks_def)
    have target: "(case sh_target sh of Some target \<Rightarrow> put_shard ?k ((fresh_shard (sh_tokens sh))\<lparr> sh_target := Some target \<rparr>) ?s1 | None \<Rightarrow> ?s1) = ?s2"
      by (cases "sh_target sh") (simp_all add: put_shard_def reborn_def bt_insert_twice fresh_shard_def)
    have run: "handle_finished i result (s\<lparr> po_finished := ended \<rparr>) = (Inr (), ?s')"
      using False by (simp add: handle_finished_cases [OF sh] spawn(1) target d)
    have get: "bt_get (po_shards ?s') k = (if k = ?k then Some (reborn sh) else if k = i then None else bt_get (po_shards s) k)" for k
      by (simp add: dropped_def)
    have "exclusive ?s'" if ex: "exclusive s"
    proof -
      have "bt_sum (\<lambda>sh. card (sh_tokens sh)) ?m = bt_sum (\<lambda>sh. card (sh_tokens sh)) (po_shards s)"
        using bt_sum_insert [OF wfd, of "\<lambda>sh. card (sh_tokens sh)" ?k "reborn sh"] dropped(4) fresh(2)
        by (simp add: dropped_def fresh(1) reborn_def fresh_shard_def)
      moreover have "claims sh \<inter> claims x = {}" "claims x \<inter> claims sh = {}" if "bt_get (po_shards s) j = Some x" "j \<noteq> i" for j x
        using ex sh that unfolding exclusive_def by blast+
      ultimately show ?thesis using ex unfolding exclusive_def get by (auto simp: d)
    qed
    moreover have "same_budgets s ?s'" using next_larger [OF room] by (auto simp: same_budgets_def dropped_def)
    ultimately show ?thesis
      by (intro that [OF sh run ok']) (use False in \<open>auto simp: dropped_def\<close>)
  qed
qed

lemma handle_finished_budgets: "same_budgets s (snd (handle_finished i result s))"
proof (cases "bt_get (po_shards s) i")
  case (Some sh)
  have s: "s\<lparr> po_finished := po_finished s \<rparr> = s" by simp
  have "same_budgets s (dropped i ended s)" for ended by (simp add: same_budgets_def dropped_def)
  moreover have "same_budgets (dropped i ended s) (snd (spawn_owned_tokens (sh_tokens sh) (dropped i ended s)))" for ended
    by (rule spawn_budgets)
  ultimately have d: "same_budgets s (dropped i (po_finished s) s)"
    "same_budgets s (snd (spawn_owned_tokens (sh_tokens sh) (dropped i (po_finished s) s)))"
    by (blast intro: same_budgets_trans)+
  show ?thesis
    using d handle_finished_cases [OF Some, of result "po_finished s", unfolded s]
    by (auto simp: same_budgets_def put_shard_def split: sum.split prod.split option.split)
qed (simp add: handle_finished_def)

lemma purge_budgets: "same_budgets s (snd (purge_retired_notifications s))"
  by (simp add: purge_retired_notifications_def Let_def same_budgets_def)

lemma purge_ok:
  assumes "pool_ok s"
  shows "purge_retired_notifications s = (Inr (), s\<lparr> po_notices := filter (bt_contains (po_ready s)) (po_notices s) \<rparr>)"
    and "pool_ok (s\<lparr> po_notices := filter (bt_contains (po_ready s)) (po_notices s) \<rparr>)"
    and "purged (s\<lparr> po_notices := filter (bt_contains (po_ready s)) (po_notices s) \<rparr>)"
proof -
  let ?n = "filter (bt_contains (po_ready s)) (po_notices s)"
  have "set ?n \<subseteq> set (tasks s)" using assms by (auto simp: bt_contains_def pool_ok_def sockets_ok_def)
  moreover have "distinct ?n" using assms by (simp add: pool_ok_def lanes_ok_def)
  ultimately have "length ?n \<le> length (tasks s)"
    by (metis List.finite_set card_mono card_length distinct_card order.trans)
  then have "length ?n \<le> po_maximum_shards s" using assms by (auto simp: pool_ok_def sockets_ok_def)
  then show "purge_retired_notifications s = (Inr (), s\<lparr> po_notices := ?n \<rparr>)"
    by (simp add: purge_retired_notifications_def)
  show "pool_ok (s\<lparr> po_notices := ?n \<rparr>)" "purged (s\<lparr> po_notices := ?n \<rparr>)"
    using assms by (auto simp: pool_ok_def sockets_ok_def shards_ok_def lanes_ok_def tasks_def purged_def bt_contains_def)
qed

lemma reap_loop_budgets: "same_budgets s (snd (reap_loop fin s))"
proof (induction fin arbitrary: s)
  case Nil
  show ?case by (simp add: purge_budgets)
next
  case (Cons x fin)
  obtain i result where x: "x = (i, result)" by fastforce
  have "same_budgets s (snd (handle_finished i result (s\<lparr> po_finished := fin \<rparr>)))"
    using handle_finished_budgets [of "s\<lparr> po_finished := fin \<rparr>" i result] by (simp add: same_budgets_def)
  with Cons.IH show ?case by (auto simp: x split: sum.split prod.split intro: same_budgets_trans)
qed

text \<open>What joining ended tasks does: the claims stay, each failed socket has a successor.\<close>

definition kept :: "'b pool \<Rightarrow> 'b pool \<Rightarrow> bool" where
  "kept s s' \<longleftrightarrow>
     (\<forall>k y. bt_get (po_shards s') k = Some y \<longrightarrow> (\<exists>j x. bt_get (po_shards s) j = Some x \<and> (y = x \<or> y = reborn x)))
     \<and> (\<forall>j x. bt_get (po_shards s) j = Some x \<longrightarrow> sh_stopping x \<or> (\<exists>k y. bt_get (po_shards s') k = Some y \<and> (y = x \<or> y = reborn x)))"

lemma reborn_reborn [simp]: "reborn (reborn x) = reborn x" "sh_stopping (reborn x) = False" "sh_tokens (reborn x) = sh_tokens x"
  by (simp_all add: reborn_def fresh_shard_def)

lemma kept_trans:
  assumes "kept s s'" and "kept s' s''"
  shows "kept s s''"
proof -
  have "\<exists>j x. bt_get (po_shards s) j = Some x \<and> (z = x \<or> z = reborn x)" if "bt_get (po_shards s'') k = Some z" for k z
    using assms that unfolding kept_def by (metis reborn_reborn(1))
  moreover have "sh_stopping x \<or> (\<exists>k z. bt_get (po_shards s'') k = Some z \<and> (z = x \<or> z = reborn x))" if "bt_get (po_shards s) j = Some x" for j x
    using assms that unfolding kept_def by (metis reborn_reborn(1,2))
  ultimately show ?thesis unfolding kept_def by blast
qed

lemma kept_same: "po_shards s' = po_shards s \<Longrightarrow> kept s s'"
  by (auto simp: kept_def)

lemma successor_kept:
  assumes "pool_ok s" and "bt_get (po_shards s) i = Some sh"
    and "\<And>k. bt_get (po_shards s') k = (if k = po_next_id s \<and> \<not> sh_stopping sh then Some (reborn sh)
       else if k = i then None else bt_get (po_shards s) k)"
  shows "kept s s'"
proof -
  have "po_next_id s \<notin> set (tasks s)" using assms(1) by (auto simp: pool_ok_def sockets_ok_def)
  then have "bt_get (po_shards s) (po_next_id s) = None" using assms(1) by (metis pool_ok_def sockets_ok_def)
  note none = this
  have "sh_stopping x \<or> (\<exists>k y. bt_get (po_shards s') k = Some y \<and> (y = x \<or> y = reborn x))" if "bt_get (po_shards s) j = Some x" for j x
  proof (cases "j = i")
    case True
    then have "x = sh" using assms(2) that by simp
    moreover have "bt_get (po_shards s') (po_next_id s) = Some (reborn sh)" if "\<not> sh_stopping sh" using assms(3) that by simp
    ultimately show ?thesis by blast
  next
    case False
    moreover have "j \<noteq> po_next_id s" using none that by auto
    ultimately have "bt_get (po_shards s') j = Some x" using assms(3) that by simp
    then show ?thesis by blast
  qed
  then show "kept s s'" unfolding kept_def using assms(2,3) by (auto split: if_splits)
qed

lemma reap_loop_ok:
  assumes "pool_ok s" and "po_finished s = fin" and "po_next_id (snd (reap_loop fin s)) \<noteq> - 1"
  shows "fst (reap_loop fin s) = Inr () \<and> pool_ok (snd (reap_loop fin s)) \<and> purged (snd (reap_loop fin s))
    \<and> po_finished (snd (reap_loop fin s)) = [] \<and> (exclusive s \<longrightarrow> exclusive (snd (reap_loop fin s)))
    \<and> kept s (snd (reap_loop fin s))"
  using assms
proof (induction fin arbitrary: s)
  case Nil
  from purge_ok [OF Nil.prems(1)] Nil.prems(2) show ?case by (simp add: exclusive_def kept_same)
next
  case (Cons x fin)
  obtain i result where x: "x = (i, result)" by fastforce
  have room: "po_next_id s \<noteq> - 1" using reap_loop_budgets same_budgets_room Cons.prems(3) by blast
  have f: "po_finished s = (i, result) # fin" using Cons.prems(2) x by simp
  obtain sh s' where sh: "bt_get (po_shards s) i = Some sh" and run: "handle_finished i result (s\<lparr> po_finished := fin \<rparr>) = (Inr (), s')"
    and s': "pool_ok s'" "exclusive s \<longrightarrow> exclusive s'" "same_budgets s s'" "po_finished s' = fin"
    and get: "\<And>k. bt_get (po_shards s') k = (if k = po_next_id s \<and> \<not> sh_stopping sh then Some (reborn sh)
       else if k = i then None else bt_get (po_shards s) k)"
    by (rule handle_finished_ok [OF Cons.prems(1) f room]) blast
  have "kept s s'" by (rule successor_kept [OF Cons.prems(1) sh get])
  moreover have "po_next_id (snd (reap_loop fin s')) \<noteq> - 1" using Cons.prems(3) run by (simp add: x)
  moreover note Cons.IH [OF s'(1,4) this]
  ultimately show ?case using run s'(2) kept_trans by (auto simp: x)
qed

lemma pool_reap_ok:
  assumes "pool_ok s" and "po_next_id (snd (reap_finished s)) \<noteq> - 1"
  shows "fst (reap_finished s) = Inr ()" "pool_ok (snd (reap_finished s))" "purged (snd (reap_finished s))"
    "exclusive s \<Longrightarrow> exclusive (snd (reap_finished s))" "kept s (snd (reap_finished s))"
  using reap_loop_ok [OF assms(1) refl] assms(2) by (simp_all add: reap_finished_def)

section \<open>Adding pairs\<close>

definition pool_claims :: "'b pool \<Rightarrow> string set" where
  "pool_claims s = \<Union> (set (map claims (bt_values (po_shards s))))"

definition incoming :: "'b pool \<Rightarrow> string set" where
  "incoming s = \<Union> (set (map (\<lambda>sh. claims sh - sh_tokens sh) (bt_values (po_shards s))))"

lemma Union_values: "bt_wf m \<Longrightarrow> t \<in> \<Union> (set (map f (bt_values m))) \<longleftrightarrow> (\<exists>i x. bt_get m i = Some x \<and> t \<in> f x)"
  unfolding Union_iff Bex_def set_map image_iff by (metis bt_values_iff)

lemma pool_members:
  assumes "pool_ok s"
  shows "t \<in> pool_tokens s \<longleftrightarrow> (\<exists>i x. bt_get (po_shards s) i = Some x \<and> t \<in> sh_tokens x)"
    "t \<in> pool_claims s \<longleftrightarrow> (\<exists>i x. bt_get (po_shards s) i = Some x \<and> t \<in> claims x)"
    "t \<in> incoming s \<longleftrightarrow> (\<exists>i x. bt_get (po_shards s) i = Some x \<and> t \<in> claims x - sh_tokens x)"
proof -
  have wf: "bt_wf (po_shards s)" using assms by (simp add: pool_ok_def sockets_ok_def)
  show "t \<in> pool_tokens s \<longleftrightarrow> (\<exists>i x. bt_get (po_shards s) i = Some x \<and> t \<in> sh_tokens x)"
    "t \<in> pool_claims s \<longleftrightarrow> (\<exists>i x. bt_get (po_shards s) i = Some x \<and> t \<in> claims x)"
    "t \<in> incoming s \<longleftrightarrow> (\<exists>i x. bt_get (po_shards s) i = Some x \<and> t \<in> claims x - sh_tokens x)"
    unfolding pool_tokens_def pool_claims_def incoming_def by (rule Union_values [OF wf])+
qed

lemma tokens_claims: "sh_tokens x \<subseteq> claims x"
  by (simp add: claims_def)

lemma claims_split:
  assumes "pool_ok s"
  shows "pool_claims s = pool_tokens s \<union> incoming s"
  unfolding set_eq_iff Un_iff pool_members [OF assms] using tokens_claims by blast

lemma kept_incoming: "kept s s' \<Longrightarrow> pool_ok s \<Longrightarrow> pool_ok s' \<Longrightarrow> incoming s' \<subseteq> incoming s"
  unfolding kept_def by (fastforce simp: pool_members)

lemma card_Union_values:
  "bt_wf m \<Longrightarrow> (\<And>i j x y. bt_get m i = Some x \<Longrightarrow> bt_get m j = Some y \<Longrightarrow> i \<noteq> j \<Longrightarrow> f x \<inter> f y = {})
    \<Longrightarrow> (\<And>i x. bt_get m i = Some x \<Longrightarrow> finite (f x))
    \<Longrightarrow> finite (\<Union> (set (map f (bt_values m)))) \<and> card (\<Union> (set (map f (bt_values m)))) = bt_sum (\<lambda>x. card (f x)) m"
proof (induction m)
  case (Cons a m)
  obtain i x where a: "a = (i, x)" by fastforce
  have wf: "bt_wf m" and none: "bt_get m i = None"
    using Cons.prems(1) by (auto simp: a bt_wf_Cons bt_get_def map_of_eq_None_iff)
  have rest: "bt_get (a # m) j = Some y" if "bt_get m j = Some y" for j y using that none by (auto simp: a bt_get_Cons)
  have ih: "finite (\<Union> (set (map f (bt_values m)))) \<and> card (\<Union> (set (map f (bt_values m)))) = bt_sum (\<lambda>x. card (f x)) m"
    by (rule Cons.IH [OF wf]) (use Cons.prems(2,3) rest in blast)+
  have x: "bt_get (a # m) i = Some x" by (simp add: a bt_get_Cons)
  have "f x \<inter> \<Union> (set (map f (bt_values m))) = {}"
  proof (rule equals0I)
    fix t assume "t \<in> f x \<inter> \<Union> (set (map f (bt_values m)))"
    then have "t \<in> f x" "\<exists>j y. bt_get m j = Some y \<and> t \<in> f y" unfolding Union_values [OF wf, symmetric] by blast+
    then obtain j y where "bt_get m j = Some y" "t \<in> f y" "t \<in> f x" by blast
    then show False using Cons.prems(2) [OF x rest] none by (metis disjoint_iff option.distinct(1))
  qed
  then show ?case using ih Cons.prems(3) [OF x] by (simp add: a bt_values_def card_Un_disjoint)
qed (simp add: bt_values_def)

lemma card_pool_tokens:
  assumes "pool_ok s" and "exclusive s"
  shows "finite (pool_tokens s) \<and> card (pool_tokens s) = bt_sum (\<lambda>sh. card (sh_tokens sh)) (po_shards s)"
  unfolding pool_tokens_def
proof (rule card_Union_values)
  show "bt_wf (po_shards s)" using assms(1) by (simp add: pool_ok_def sockets_ok_def)
  show "sh_tokens x \<inter> sh_tokens y = {}" if "bt_get (po_shards s) i = Some x" "bt_get (po_shards s) j = Some y" "i \<noteq> j" for i j x y
    using assms(2) that tokens_claims unfolding exclusive_def by blast
  show "finite (sh_tokens x)" if "bt_get (po_shards s) i = Some x" for i x
    using assms(1) that by (auto simp: pool_ok_def shards_ok_def shard_ok_def)
qed

lemma finite_pool_tokens: "pool_ok s \<Longrightarrow> finite (pool_tokens s)"
  by (auto simp: pool_tokens_def bt_values_iff pool_ok_def sockets_ok_def shards_ok_def shard_ok_def)

text \<open>The batches of an admission are disjoint pairs.\<close>

fun fresh_batches :: "string set \<Rightarrow> string set list \<Rightarrow> bool" where
  "fresh_batches T [] = True"
| "fresh_batches T (B # Bs) \<longleftrightarrow> B \<inter> T = {} \<and> fresh_batches (T \<union> B) Bs"

lemma pair_batches_facts:
  assumes "pair_batches pairs T = Inr (all, batches)" and "finite T"
  shows "fresh_batches T batches \<and> card all = card T + 2 * length batches \<and> (\<forall>B \<in> set batches. finite B \<and> B \<noteq> {} \<and> card B = 2)
    \<and> length batches = length pairs \<and> \<Union> (set batches) = \<Union> (set (map (\<lambda>(a, b). {a, b}) pairs))"
  using assms
proof (induction pairs arbitrary: T all batches)
  case (Cons p pairs)
  obtain a b where p: "p = (a, b)" by fastforce
  with Cons.prems obtain rest where r: "pair_batches pairs (T \<union> {a, b}) = Inr (all, rest)" "batches = {a, b} # rest"
    "a \<noteq> b" "a \<notin> T" "b \<notin> T" by (auto simp: and_then_Inr_iff)
  from Cons.IH [OF r(1)] Cons.prems(2) r(2-5) show ?case by (auto simp: p)
qed simp

lemma fresh_batches_Un: "fresh_batches T Bs \<Longrightarrow> \<Union> (set Bs) \<inter> U = {} \<Longrightarrow> fresh_batches (T \<union> U) Bs"
proof (induction Bs arbitrary: T)
  case (Cons B Bs)
  have "fresh_batches (T \<union> B \<union> U) Bs" by (rule Cons.IH) (use Cons.prems in auto)
  then show ?case using Cons.prems by (auto simp: Un_ac)
qed simp

lemma spawn_all_budgets: "same_budgets s (snd (spawn_all Bs s))"
proof (induction Bs arbitrary: s)
  case (Cons B Bs)
  from Cons.IH spawn_budgets [of s B] show ?case
    by (auto split: sum.split prod.split intro: same_budgets_trans) (metis same_budgets_trans snd_conv)+
qed simp

lemma spawn_all_ok:
  assumes "pool_ok s" and "\<forall>B \<in> set Bs. finite B \<and> B \<noteq> {} \<and> card B = 2" and "jobs_len s + length Bs \<le> po_maximum_shards s"
    and "po_next_id (snd (spawn_all Bs s)) \<noteq> - 1"
  shows "(\<exists>ids. fst (spawn_all Bs s) = Inr ids) \<and> pool_ok (snd (spawn_all Bs s))
    \<and> po_notices (snd (spawn_all Bs s)) = po_notices s \<and> po_failed (snd (spawn_all Bs s)) = po_failed s
    \<and> (\<forall>i x. bt_get (po_shards s) i = Some x \<longrightarrow> bt_get (po_shards (snd (spawn_all Bs s))) i = Some x)
    \<and> (\<forall>i x. bt_get (po_ready s) i = Some x \<longrightarrow> bt_get (po_ready (snd (spawn_all Bs s))) i = Some x)
    \<and> (exclusive s \<and> fresh_batches (pool_claims s) Bs
        \<and> bt_sum (\<lambda>sh. card (sh_tokens sh)) (po_shards s) + 2 * length Bs \<le> po_maximum_tokens s \<longrightarrow> exclusive (snd (spawn_all Bs s)))"
  using assms
proof (induction Bs arbitrary: s)
  case (Cons B Bs)
  let ?i = "po_next_id s"
  let ?s = "s\<lparr> po_next_id := ?i + 1, po_running := po_running s @ [?i], po_shards := bt_insert ?i (fresh_shard B) (po_shards s),
      po_inputs := bt_insert ?i [] (po_inputs s), po_ready := bt_insert ?i False (po_ready s) \<rparr>"
  have room: "?i \<noteq> - 1" using spawn_all_budgets same_budgets_room Cons.prems(4) by blast
  have B: "finite B" "B \<noteq> {}" "card B \<le> po_shard_tokens s" "jobs_len s < po_maximum_shards s"
    using Cons.prems(1-3) by (auto simp: pool_ok_def sockets_ok_def)
  note spawn = spawn_ok [OF Cons.prems(1) B room]
  have snd: "snd (spawn_all (B # Bs) s) = snd (spawn_all Bs ?s)"
    "fst (spawn_all (B # Bs) s) = (case fst (spawn_all Bs ?s) of Inl err \<Rightarrow> Inl err | Inr ids \<Rightarrow> Inr (?i # ids))"
    by (simp_all add: spawn(1) split: sum.split prod.split)
  have jobs: "jobs_len ?s + length Bs \<le> po_maximum_shards ?s" using Cons.prems(3) by (simp add: jobs_len_def)
  have ih: "(\<exists>ids. fst (spawn_all Bs ?s) = Inr ids) \<and> pool_ok (snd (spawn_all Bs ?s))
    \<and> po_notices (snd (spawn_all Bs ?s)) = po_notices ?s \<and> po_failed (snd (spawn_all Bs ?s)) = po_failed ?s
    \<and> (\<forall>i x. bt_get (po_shards ?s) i = Some x \<longrightarrow> bt_get (po_shards (snd (spawn_all Bs ?s))) i = Some x)
    \<and> (\<forall>i x. bt_get (po_ready ?s) i = Some x \<longrightarrow> bt_get (po_ready (snd (spawn_all Bs ?s))) i = Some x)
    \<and> (exclusive ?s \<and> fresh_batches (pool_claims ?s) Bs
        \<and> bt_sum (\<lambda>sh. card (sh_tokens sh)) (po_shards ?s) + 2 * length Bs \<le> po_maximum_tokens ?s \<longrightarrow> exclusive (snd (spawn_all Bs ?s)))"
    by (rule Cons.IH [OF spawn(2)]) (use Cons.prems(2) in simp, rule jobs, use Cons.prems(4) snd in simp)
  have ready_none: "bt_get (po_ready s) ?i = None" using spawn(3) Cons.prems(1) by (metis pool_ok_def sockets_ok_def)
  have claims: "pool_claims ?s = pool_claims s \<union> B"
    unfolding set_eq_iff Un_iff pool_members [OF spawn(2)] pool_members [OF Cons.prems(1)]
    using spawn(3) by (auto simp: claims_def fresh_shard_def) (metis option.distinct(1))+
  have sum: "bt_sum (\<lambda>sh. card (sh_tokens sh)) (po_shards ?s) = bt_sum (\<lambda>sh. card (sh_tokens sh)) (po_shards s) + card B"
    using bt_sum_insert [of "po_shards s" "\<lambda>sh. card (sh_tokens sh)" ?i "fresh_shard B"] spawn(3) Cons.prems(1)
    by (simp add: fresh_shard_def pool_ok_def sockets_ok_def)
  have ex: "exclusive (snd (spawn_all Bs ?s))" if h: "exclusive s" "fresh_batches (pool_claims s) (B # Bs)"
    "bt_sum (\<lambda>sh. card (sh_tokens sh)) (po_shards s) + 2 * length (B # Bs) \<le> po_maximum_tokens s"
  proof -
    have two: "card B = 2" using Cons.prems(2) by simp
    have "claims x \<inter> B = {}" if "bt_get (po_shards s) j = Some x" for j x
    proof -
      have "claims x \<subseteq> pool_claims s" using pool_members(2) [OF Cons.prems(1)] that by blast
      then show ?thesis using h(2) by auto
    qed
    then have "exclusive ?s" by (intro spawn(4) [OF h(1)]) (use h(3) two in auto)
    then show ?thesis using ih h(2,3) two unfolding claims sum by simp
  qed
  have keep: "bt_get (po_shards (snd (spawn_all Bs ?s))) i = Some x" if "bt_get (po_shards s) i = Some x" for i x
  proof -
    have "bt_get (po_shards ?s) i = Some x" using that spawn(3) by auto
    then show ?thesis using ih by blast
  qed
  have keep_ready: "bt_get (po_ready (snd (spawn_all Bs ?s))) i = Some x" if "bt_get (po_ready s) i = Some x" for i x
  proof -
    have "bt_get (po_ready ?s) i = Some x" using that ready_none by auto
    then show ?thesis using ih by blast
  qed
  obtain ids where "fst (spawn_all Bs ?s) = Inr ids" using ih by blast
  then have "\<exists>ids. (case fst (spawn_all Bs ?s) of Inl err \<Rightarrow> Inl err | Inr ids \<Rightarrow> Inr (?i # ids)) = Inr ids" by simp
  moreover have "po_notices (snd (spawn_all Bs ?s)) = po_notices s \<and> po_failed (snd (spawn_all Bs ?s)) = po_failed s"
    using ih by simp
  ultimately show ?case unfolding snd using ih ex keep keep_ready by blast
qed (auto simp del: split_paired_All)

definition pair_tokens :: "(string \<times> string) list \<Rightarrow> string set" where
  "pair_tokens pairs = \<Union> (set (map (\<lambda>(a, b). {a, b}) pairs))"

text \<open>Tokens are only lost with sockets that stop on purpose.\<close>

definition survives :: "'b pool \<Rightarrow> 'b pool \<Rightarrow> bool" where
  "survives s s' \<longleftrightarrow> (\<forall>j x. bt_get (po_shards s) j = Some x \<longrightarrow>
     sh_stopping x \<or> (\<exists>k y. bt_get (po_shards s') k = Some y \<and> sh_tokens y = sh_tokens x))"

lemma kept_survives: "kept s s' \<Longrightarrow> survives s s'"
  unfolding kept_def survives_def by (metis reborn_reborn(3))

lemma add_pairs_budgets: "same_budgets s (snd (add_pairs pairs s))"
proof -
  have reap: "same_budgets s (snd (reap_finished s))" unfolding reap_finished_def by (rule reap_loop_budgets)
  have "same_budgets s (snd (spawn_all Bs (snd (reap_finished s))))" for Bs
    using reap spawn_all_budgets same_budgets_trans by blast
  with reap show ?thesis by (auto simp: add_pairs_def split: sum.split prod.split)
qed

lemma add_pairs_ok:
  assumes ok: "pool_ok s" and room: "po_next_id (snd (add_pairs pairs s)) \<noteq> - 1"
  shows "pool_ok (snd (add_pairs pairs s))" "purged (snd (add_pairs pairs s))" "survives s (snd (add_pairs pairs s))"
    "exclusive s \<Longrightarrow> pair_tokens pairs \<inter> incoming s = {} \<Longrightarrow> exclusive (snd (add_pairs pairs s))"
proof -
  obtain r s1 where reap: "reap_finished s = (r, s1)" by fastforce
  have "same_budgets s1 (snd (add_pairs pairs s))"
    using spawn_all_budgets by (auto simp: add_pairs_def reap split: sum.split)
  from same_budgets_room [OF this room] have room1: "po_next_id (snd (reap_finished s)) \<noteq> - 1" by (simp add: reap)
  note r1 = pool_reap_ok [OF ok room1, unfolded reap, simplified]
  have "pool_ok (snd (add_pairs pairs s)) \<and> purged (snd (add_pairs pairs s)) \<and> survives s (snd (add_pairs pairs s))
      \<and> (exclusive s \<longrightarrow> pair_tokens pairs \<inter> incoming s = {} \<longrightarrow> exclusive (snd (add_pairs pairs s)))"
  proof (cases "validate_add_pairs pairs s1")
    case (Inl err)
    then have "snd (add_pairs pairs s) = s1" by (simp add: add_pairs_def reap r1(1))
    with r1 kept_survives show ?thesis by auto
  next
    case (Inr Bs)
    then obtain all where v: "pair_batches pairs (pool_tokens s1) = Inr (all, Bs)" "card all \<le> po_maximum_tokens s1"
      "jobs_len s1 + length Bs \<le> po_maximum_shards s1"
      by (auto simp: validate_add_pairs_def and_then_Inr_iff)
    note facts = pair_batches_facts [OF v(1) finite_pool_tokens [OF r1(2)]]
    have snd: "snd (add_pairs pairs s) = snd (spawn_all Bs s1)" using Inr by (simp add: add_pairs_def reap r1(1))
    have spawned: "(\<exists>ids. fst (spawn_all Bs s1) = Inr ids) \<and> pool_ok (snd (spawn_all Bs s1))
      \<and> po_notices (snd (spawn_all Bs s1)) = po_notices s1 \<and> po_failed (snd (spawn_all Bs s1)) = po_failed s1
      \<and> (\<forall>i x. bt_get (po_shards s1) i = Some x \<longrightarrow> bt_get (po_shards (snd (spawn_all Bs s1))) i = Some x)
      \<and> (\<forall>i x. bt_get (po_ready s1) i = Some x \<longrightarrow> bt_get (po_ready (snd (spawn_all Bs s1))) i = Some x)
      \<and> (exclusive s1 \<and> fresh_batches (pool_claims s1) Bs
        \<and> bt_sum (\<lambda>sh. card (sh_tokens sh)) (po_shards s1) + 2 * length Bs \<le> po_maximum_tokens s1 \<longrightarrow> exclusive (snd (spawn_all Bs s1)))"
      by (rule spawn_all_ok [OF r1(2) _ v(3)]) (use facts room snd in simp_all)
    have "purged (snd (spawn_all Bs s1))" using r1(3) spawned unfolding purged_def by (metis not_Some_eq)
    moreover have "survives s (snd (spawn_all Bs s1))"
      using kept_survives [OF r1(5)] spawned unfolding survives_def by blast
    moreover have "exclusive (snd (spawn_all Bs s1))" if "exclusive s" "pair_tokens pairs \<inter> incoming s = {}"
    proof -
      have ex: "exclusive s1" by (rule r1(4) [OF that(1)])
      have "\<Union> (set Bs) \<inter> incoming s1 = {}"
        using that(2) kept_incoming [OF r1(5) ok r1(2)] facts by (auto simp: pair_tokens_def)
      then have "fresh_batches (pool_claims s1) Bs"
        unfolding claims_split [OF r1(2)] using facts by (intro fresh_batches_Un) blast+
      moreover have "bt_sum (\<lambda>sh. card (sh_tokens sh)) (po_shards s1) + 2 * length Bs \<le> po_maximum_tokens s1"
        using card_pool_tokens [OF r1(2) ex] facts v(2) by simp
      ultimately show ?thesis using spawned ex by blast
    qed
    ultimately show ?thesis
      unfolding snd using spawned by blast
  qed
  then show "pool_ok (snd (add_pairs pairs s))" "purged (snd (add_pairs pairs s))" "survives s (snd (add_pairs pairs s))"
    "exclusive s \<Longrightarrow> pair_tokens pairs \<inter> incoming s = {} \<Longrightarrow> exclusive (snd (add_pairs pairs s))" by simp_all
qed

end
