(* ===== verification/Shard_Lanes.thy ===== *)
theory Shard_Lanes
  imports Shard_Safety
begin

text \<open>
  The remaining operations of the socket pool keep its invariants: frames and their notifications, retirement,
  replacement, polling, and what the transports do.
\<close>

section \<open>Frames\<close>

text \<open>All of the invariant but the announcement of one lane.\<close>

definition lanes_but :: "u64 \<Rightarrow> 'b pool \<Rightarrow> bool" where
  "lanes_but i s \<longleftrightarrow> distinct (po_notices s) \<and> (\<forall>j \<in> set (po_notices s). j < po_next_id s)
     \<and> (\<forall>j. bt_get (po_ready s) j \<noteq> None \<longrightarrow> (j \<in> set (po_notices s)) = (bt_get (po_ready s) j = Some True))
     \<and> (\<forall>j batch rest. j \<noteq> i \<longrightarrow> bt_get (po_inputs s) j = Some (batch # rest) \<longrightarrow> bt_get (po_ready s) j = Some True)"

lemma signal_ok:
  assumes ok: "sockets_ok s" "shards_ok s" "lanes_but i s" "purged s" and i: "i \<in> set (tasks s)"
  shows "fst (signal i s) = Inr ()" "pool_ok (snd (signal i s))" "purged (snd (signal i s))"
    "po_inputs (snd (signal i s)) = po_inputs s" "po_shards (snd (signal i s)) = po_shards s"
    "po_maximum_tokens (snd (signal i s)) = po_maximum_tokens s" "po_next_id (snd (signal i s)) = po_next_id s"
proof -
  have "fst (signal i s) = Inr () \<and> pool_ok (snd (signal i s)) \<and> purged (snd (signal i s))"
  proof (cases "bt_get (po_ready s) i = Some True")
    case True
    then have "lanes_ok s" using ok(3) by (auto simp: lanes_but_def lanes_ok_def)
    with True ok show ?thesis by (simp add: signal_def pool_ok_def)
  next
    case False
    have i_ready: "bt_get (po_ready s) i \<noteq> None" using ok(1) i by (simp add: sockets_ok_def)
    then have new: "i \<notin> set (po_notices s)" using False ok(3) by (auto simp: lanes_but_def)
    have "set (i # po_notices s) \<subseteq> set (tasks s)"
      using ok(1,4) i by (auto simp: purged_def sockets_ok_def)
    moreover have "distinct (i # po_notices s)" using new ok(3) by (simp add: lanes_but_def)
    ultimately have "length (i # po_notices s) \<le> length (tasks s)"
      by (metis List.finite_set card_mono card_length distinct_card order.trans)
    then have room: "length (po_notices s) < po_maximum_shards s" using ok(1) by (simp add: sockets_ok_def)
    let ?s = "s\<lparr> po_ready := bt_insert i True (po_ready s), po_notices := po_notices s @ [i] \<rparr>"
    have "signal i s = (Inr (), ?s)" using False room by (simp add: signal_def)
    moreover have "sockets_ok ?s" using ok(1) i by (auto simp: sockets_ok_def tasks_def)
    moreover have "i < po_next_id s" using ok(1) i by (simp add: sockets_ok_def)
    then have "lanes_ok ?s" using ok(3) new by (auto simp: lanes_ok_def lanes_but_def)
    moreover have "purged ?s" using ok(4) by (auto simp: purged_def)
    ultimately show ?thesis using ok(2) by (simp add: pool_ok_def shards_ok_def)
  qed
  then show "fst (signal i s) = Inr ()" "pool_ok (snd (signal i s))" "purged (snd (signal i s))" by simp_all
qed (simp_all add: signal_def)

definition first_of :: "'b list \<Rightarrow> 'b option" where
  "first_of xs = (case xs of [] \<Rightarrow> None | x # _ \<Rightarrow> Some x)"

definition lane :: "'b pool \<Rightarrow> u64 \<Rightarrow> 'b list" where
  "lane s i = unwrap_or [] (bt_get (po_inputs s) i)"

text \<open>A notified lane gives its oldest batch and is announced again when more wait.\<close>

lemma take_ready_ok:
  assumes ok: "pool_ok s" "purged s" and n: "po_notices s = i # ns"
  obtains s' where "take_ready i (s\<lparr> po_notices := ns \<rparr>) = (Inr (first_of (lane s i)), s')" "pool_ok s'" "purged s'"
    "lane s i = [] \<Longrightarrow> po_notices s' = ns" "\<And>j. lane s' j = (if j = i then drop 1 (lane s i) else lane s j)"
    "po_shards s' = po_shards s" "po_maximum_tokens s' = po_maximum_tokens s" "po_next_id s' = po_next_id s"
    "po_failed s' = po_failed s"
proof -
  have ready: "bt_get (po_ready s) i \<noteq> None" using ok(2) n by (simp add: purged_def)
  then have i: "i \<in> set (tasks s)" using ok(1) by (simp add: pool_ok_def sockets_ok_def)
  then obtain xs where xs: "bt_get (po_inputs s) i = Some xs" using ok(1) by (auto simp: pool_ok_def sockets_ok_def)
  have lane: "lane s i = xs" by (simp add: lane_def xs unwrap_or_def)
  have new: "i \<notin> set ns" using ok(1) n by (simp add: pool_ok_def lanes_ok_def)
  let ?s1 = "s\<lparr> po_notices := ns, po_ready := bt_insert i False (po_ready s) \<rparr>"
  have sock: "sockets_ok ?s1" "shards_ok ?s1" using ok(1) i by (auto simp: pool_ok_def sockets_ok_def shards_ok_def tasks_def)
  have purged1: "purged ?s1" using ok(2) n by (auto simp: purged_def)
  have flags: "(j \<in> set ns) = (bt_get (po_ready s) j = Some True)" if "j \<noteq> i" "bt_get (po_ready s) j \<noteq> None" for j
    using ok(1) n that by (auto simp: pool_ok_def lanes_ok_def)
  have base: "distinct ns" "\<forall>j \<in> set ns. j < po_next_id s"
    "\<And>j batch rest. bt_get (po_inputs s) j = Some (batch # rest) \<Longrightarrow> bt_get (po_ready s) j = Some True"
    using ok(1) n by (auto simp: pool_ok_def lanes_ok_def)
  show thesis
  proof (cases xs)
    case Nil
    have "lanes_ok ?s1" using base flags new xs Nil by (auto simp: lanes_ok_def)
    then have "pool_ok ?s1" using sock by (simp add: pool_ok_def)
    moreover have "take_ready i (s\<lparr> po_notices := ns \<rparr>) = (Inr (first_of (lane s i)), ?s1)"
      using ready by (auto simp: take_ready_def Let_def xs Nil lane first_of_def split: option.split)
    ultimately show thesis
      by (intro that [of ?s1]) (use purged1 lane Nil in \<open>auto simp: lane_def\<close>)
  next
    case (Cons batch rest)
    let ?s2 = "?s1\<lparr> po_inputs := bt_insert i rest (po_inputs s) \<rparr>"
    have sock2: "sockets_ok ?s2" "shards_ok ?s2" using sock i by (auto simp: sockets_ok_def shards_ok_def tasks_def)
    have purged2: "purged ?s2" using purged1 by (simp add: purged_def)
    have but: "lanes_but i ?s2" using base flags new by (auto simp: lanes_but_def)
    have tasks2: "tasks ?s2 = tasks s" by (simp add: tasks_def)
    have lanes2: "lane ?s2 j = (if j = i then rest else lane s j)" for j by (simp add: lane_def unwrap_or_def)
    show thesis
    proof (cases "rest = []")
      case True
      have "lanes_ok ?s2" using but True by (auto simp: lanes_ok_def lanes_but_def)
      then have "pool_ok ?s2" using sock2 by (simp add: pool_ok_def)
      moreover have "take_ready i (s\<lparr> po_notices := ns \<rparr>) = (Inr (first_of (lane s i)), ?s2)"
        using ready True by (auto simp: take_ready_def Let_def xs Cons lane first_of_def split: option.split)
      ultimately show thesis
        by (intro that [of ?s2]) (use purged2 lane Cons lanes2 in simp_all)
    next
      case False
      have i2: "i \<in> set (tasks ?s2)" using i by (simp add: tasks2)
      note sig = signal_ok [OF sock2 but purged2 i2]
      obtain s3 where s3: "signal i ?s2 = (Inr (), s3)" using sig(1) by (cases "signal i ?s2") simp
      have failed: "po_failed s3 = po_failed s" using s3 by (auto simp: signal_def split: if_splits)
      have "take_ready i (s\<lparr> po_notices := ns \<rparr>) = (Inr (first_of (lane s i)), s3)"
        using ready False s3 by (auto simp: take_ready_def Let_def xs Cons lane first_of_def split: option.split)
      moreover have "lane s3 j = lane ?s2 j" for j using sig(4) by (simp add: s3 lane_def)
      ultimately show thesis
        using sig [unfolded s3 snd_conv] lane Cons lanes2 failed by (intro that [of s3]) simp_all
    qed
  qed
qed

text \<open>Going through the notifications finds a batch whenever one waits.\<close>

definition same_pool :: "'b pool \<Rightarrow> 'b pool \<Rightarrow> bool" where
  "same_pool s s' \<longleftrightarrow> po_shards s' = po_shards s \<and> po_maximum_tokens s' = po_maximum_tokens s \<and> po_next_id s' = po_next_id s
     \<and> po_failed s' = po_failed s"

lemma drain_notices_ok:
  assumes "pool_ok s" "purged s" "po_notices s = ns"
  shows "pool_ok (snd (drain_notices ns s)) \<and> purged (snd (drain_notices ns s)) \<and> same_pool s (snd (drain_notices ns s))
    \<and> ((\<forall>i. lane s i = []) \<and> fst (drain_notices ns s) = Inr None \<and> (\<forall>i. lane (snd (drain_notices ns s)) i = [])
       \<or> (\<exists>i batch rest. lane s i = batch # rest \<and> fst (drain_notices ns s) = Inr (Some batch)
            \<and> (\<forall>j. lane (snd (drain_notices ns s)) j = (if j = i then rest else lane s j))))"
  using assms
proof (induction ns arbitrary: s)
  case Nil
  have "lane s i = []" for i
  proof (cases "bt_get (po_inputs s) i")
    case (Some xs)
    have "bt_get (po_ready s) i \<noteq> Some True" using Nil by (metis pool_ok_def lanes_ok_def option.distinct(1) empty_iff empty_set)
    then show ?thesis using Some Nil.prems(1) by (cases xs) (auto simp: lane_def unwrap_or_def pool_ok_def lanes_ok_def)
  qed (simp add: lane_def unwrap_or_def)
  with Nil show ?case by (simp add: same_pool_def)
next
  case (Cons i ns)
  obtain s' where run: "take_ready i (s\<lparr> po_notices := ns \<rparr>) = (Inr (first_of (lane s i)), s')" and s': "pool_ok s'" "purged s'"
    and notices: "lane s i = [] \<Longrightarrow> po_notices s' = ns" and lanes: "\<And>j. lane s' j = (if j = i then drop 1 (lane s i) else lane s j)"
    and same: "same_pool s s'"
    by (rule take_ready_ok [OF Cons.prems]) (auto simp: same_pool_def)
  show ?case
  proof (cases "lane s i")
    case Nil
    have drain: "drain_notices (i # ns) s = drain_notices ns s'" using run Nil by (simp add: first_of_def)
    have lanes': "lane s' = lane s" using lanes Nil by auto
    from Cons.IH [OF s' notices [OF Nil]] same show ?thesis unfolding drain lanes' by (auto simp: same_pool_def)
  next
    case (Cons batch rest)
    have "drain_notices (i # ns) s = (Inr (Some batch), s')" using run Cons by (simp add: first_of_def)
    then show ?thesis using s' lanes Cons same by auto
  qed
qed

lemma try_next_ok:
  assumes "pool_ok s" "purged s"
  shows "pool_ok (snd (try_next_batch s))" "purged (snd (try_next_batch s))" "same_pool s (snd (try_next_batch s))"
  using drain_notices_ok [OF assms refl] assms by (auto simp: try_next_batch_def same_pool_def)

lemma deliver_ok:
  assumes ok: "pool_ok s" "purged s"
  shows "pool_ok (snd (deliver i batch s))" "purged (snd (deliver i batch s))" "same_pool s (snd (deliver i batch s))"
    "fst (deliver i batch s) = Inr True \<Longrightarrow> lane (snd (deliver i batch s)) j = (if j = i then lane s i @ [batch] else lane s j)"
proof -
  have "pool_ok (snd (deliver i batch s)) \<and> purged (snd (deliver i batch s)) \<and> same_pool s (snd (deliver i batch s))
    \<and> (fst (deliver i batch s) = Inr True \<longrightarrow> lane (snd (deliver i batch s)) j = (if j = i then lane s i @ [batch] else lane s j))"
  proof (cases "i \<in> set (po_running s) \<and> (\<exists>xs. bt_get (po_inputs s) i = Some xs \<and> length xs < 2048)")
    case True
    then obtain xs where xs: "bt_get (po_inputs s) i = Some xs" "length xs < 2048" and i: "i \<in> set (po_running s)" by auto
    let ?s = "s\<lparr> po_inputs := bt_insert i (xs @ [batch]) (po_inputs s) \<rparr>"
    have run: "i \<in> set (tasks s)" using i by (simp add: tasks_def)
    have tasks: "tasks ?s = tasks s" by (simp add: tasks_def)
    have "sockets_ok ?s" using ok(1) run unfolding pool_ok_def sockets_ok_def tasks by auto
    moreover have "shards_ok ?s" "lanes_but i ?s" "purged ?s"
      using ok by (auto simp: pool_ok_def shards_ok_def lanes_ok_def lanes_but_def purged_def)
    moreover have "i \<in> set (tasks ?s)" using run by (simp only: tasks)
    ultimately have sig: "fst (signal i ?s) = Inr ()" "pool_ok (snd (signal i ?s))" "purged (snd (signal i ?s))"
      "po_inputs (snd (signal i ?s)) = po_inputs ?s" by (rule signal_ok)+
    obtain s3 where s3: "signal i ?s = (Inr (), s3)" using sig(1) by (cases "signal i ?s") simp
    have "same_pool s s3" using s3 by (auto simp: signal_def same_pool_def split: if_splits)
    moreover have "deliver i batch s = (Inr True, s3)" using xs i s3 by (simp add: deliver_def)
    ultimately show ?thesis using sig by (simp add: s3 lane_def unwrap_or_def xs(1))
  next
    case False
    then have "fst (deliver i batch s) \<noteq> Inr True \<and> snd (deliver i batch s) = s" by (auto simp: deliver_def split: option.split)
    then show ?thesis using ok by (simp add: same_pool_def)
  qed
  then show "pool_ok (snd (deliver i batch s))" "purged (snd (deliver i batch s))" "same_pool s (snd (deliver i batch s))"
    "fst (deliver i batch s) = Inr True \<Longrightarrow> lane (snd (deliver i batch s)) j = (if j = i then lane s i @ [batch] else lane s j)"
    by simp_all
qed

section \<open>Retiring, replacing, polling\<close>

lemma reshape_purged: "purged (s\<lparr> po_shards := m \<rparr>) = purged s"
  by (simp add: purged_def)

definition quiet :: "nat \<Rightarrow> shard \<Rightarrow> shard \<Rightarrow> bool" where
  "quiet n x y \<longleftrightarrow> shrinks n x y \<and> sh_tokens y = sh_tokens x"

definition released :: "'b pool \<Rightarrow> 'b pool \<Rightarrow> bool" where
  "released s s' \<longleftrightarrow> (\<forall>j x. bt_get (po_shards s) j = Some x \<longrightarrow> sh_stopping x
     \<or> (\<exists>k y. bt_get (po_shards s') k = Some y \<and> (sh_tokens y = sh_tokens x
          \<or> (\<exists>following. sh_pending x = Some (following, Answered (Inr ())) \<and> sh_tokens y = following))))"

lemma survives_released: "survives s s' \<Longrightarrow> released s s'"
  unfolding survives_def released_def by blast

lemma pointwise_survives: "pointwise R (po_shards s) (po_shards s') \<Longrightarrow> (\<And>x y. R x y \<Longrightarrow> sh_tokens y = sh_tokens x) \<Longrightarrow> survives s s'"
  unfolding survives_def using pointwise_get [of R "po_shards s" "po_shards s'"] by (metis option_rel_Some1)

lemma survives_refl [simp]: "survives s s" "released s s"
  by (auto simp: survives_def released_def)

lemma begin_retire_pool:
  assumes ok: "pool_ok s"
  shows "pool_ok (snd (begin_retire removed s))" "exclusive s \<Longrightarrow> exclusive (snd (begin_retire removed s))"
    "purged (snd (begin_retire removed s)) = purged s" "survives s (snd (begin_retire removed s))"
    "same_budgets s (snd (begin_retire removed s))"
proof -
  have wf: "bt_wf (po_shards s)" using ok by (simp add: pool_ok_def sockets_ok_def)
  have "pool_ok (snd (begin_retire removed s)) \<and> (exclusive s \<longrightarrow> exclusive (snd (begin_retire removed s)))
    \<and> purged (snd (begin_retire removed s)) = purged s \<and> survives s (snd (begin_retire removed s)) \<and> same_budgets s (snd (begin_retire removed s))"
  proof (cases "removed \<noteq> {} \<and> removed \<subseteq> pool_tokens s \<and> (\<exists>changes. plan_retire removed (po_shards s) = Inr changes)")
    case True
    then obtain changes where plan: "plan_retire removed (po_shards s) = Inr changes" by blast
    let ?m = "fold (\<lambda>(i, f). bt_map_value (retire_shard f) i) changes (po_shards s)"
    have run: "snd (begin_retire removed s) = s\<lparr> po_shards := ?m \<rparr>" using True plan by (simp add: begin_retire_def)
    note shrink = begin_retire_pointwise [OF plan wf, of "po_shard_tokens s"]
    have "pool_ok (s\<lparr> po_shards := ?m \<rparr>)" by (rule reshape_ok [OF ok shrink]) (simp add: shrinks_def)
    moreover have "exclusive (s\<lparr> po_shards := ?m \<rparr>)" if "exclusive s"
      by (rule reshape_exclusive [OF that _ shrink wf]) (use ok in \<open>simp add: pool_ok_def\<close>)
    moreover have "pointwise (\<lambda>x y. sh_tokens y = sh_tokens x) (po_shards s) ?m"
      unfolding begin_retire_shards [OF plan wf] pointwise_map by (auto simp: retire_shard_def submit_change_def)
    then have "survives s (s\<lparr> po_shards := ?m \<rparr>)" by (intro pointwise_survives) simp_all
    ultimately show ?thesis unfolding run by (simp add: reshape_purged same_budgets_def)
  next
    case False
    then have "snd (begin_retire removed s) = s" by (auto simp: begin_retire_def split: sum.split)
    then show ?thesis using ok by simp
  qed
  then show "pool_ok (snd (begin_retire removed s))" "exclusive s \<Longrightarrow> exclusive (snd (begin_retire removed s))"
    "purged (snd (begin_retire removed s)) = purged s" "survives s (snd (begin_retire removed s))"
    "same_budgets s (snd (begin_retire removed s))" by simp_all
qed

lemma request_retire_snd: "snd (request_retire removed s) = s \<or> snd (request_retire removed s) = snd (begin_retire (removed \<inter> pool_tokens s) s)"
  by (auto simp: request_retire_def Let_def split: sum.split prod.split)

definition polled :: "shard \<Rightarrow> shard \<Rightarrow> bool" where
  "polled x y \<longleftrightarrow> sh_stopping y = sh_stopping x \<and> (sh_tokens y = sh_tokens x
     \<or> (\<exists>following. sh_pending x = Some (following, Answered (Inr ())) \<and> sh_tokens y = following))"

lemma poll_shard_polled: "polled x (snd (poll_shard x))"
  by (auto simp: polled_def poll_shard_def poll_receipt_def submit_change_def split: option.split receipt.split sum.split)

lemma poll_shards_polled: "pointwise polled m (snd (poll_shards m))"
proof (induction m)
  case (Cons a m)
  obtain i sh where a: "a = (i, sh)" by fastforce
  have "pointwise polled m m" by (rule pointwise_refl) (simp add: polled_def)
  with Cons poll_shard_polled [of sh] show ?case by (auto simp: a split: sum.split prod.split)
qed simp

lemma polled_released:
  assumes "pointwise polled (po_shards s) (po_shards s1)" and "survives s1 s2"
  shows "released s s2"
  unfolding released_def
proof (intro allI impI)
  fix j x assume x: "bt_get (po_shards s) j = Some x"
  from pointwise_get [OF assms(1), of j] x obtain y where y: "bt_get (po_shards s1) j = Some y" "polled x y"
    by (auto simp: option_rel_Some1)
  then show "sh_stopping x \<or> (\<exists>k y. bt_get (po_shards s2) k = Some y \<and> (sh_tokens y = sh_tokens x
      \<or> (\<exists>following. sh_pending x = Some (following, Answered (Inr ())) \<and> sh_tokens y = following)))"
    using assms(2) unfolding survives_def polled_def by metis
qed

lemma poll_pool:
  assumes ok: "pool_ok s" and room: "po_next_id (snd (poll_retirements s)) \<noteq> - 1"
  shows "pool_ok (snd (poll_retirements s))" "exclusive s \<Longrightarrow> exclusive (snd (poll_retirements s))"
    "purged s \<Longrightarrow> purged (snd (poll_retirements s))" "released s (snd (poll_retirements s))"
proof -
  let ?m = "snd (poll_shards (po_shards s))"
  let ?s = "s\<lparr> po_shards := ?m \<rparr>"
  have wf: "bt_wf (po_shards s)" using ok by (simp add: pool_ok_def sockets_ok_def)
  have okm: "pool_ok ?s"
    by (rule reshape_ok [OF ok poll_shards_pointwise [of "po_shard_tokens s"]]) (simp add: shrinks_def)
  have exm: "exclusive ?s" if "exclusive s"
    by (rule reshape_exclusive [OF that _ poll_shards_pointwise wf]) (use ok in \<open>simp add: pool_ok_def\<close>)
  have polled: "pointwise polled (po_shards s) (po_shards ?s)" by (simp add: poll_shards_polled)
  have "pool_ok (snd (poll_retirements s)) \<and> (exclusive s \<longrightarrow> exclusive (snd (poll_retirements s)))
    \<and> (purged s \<longrightarrow> purged (snd (poll_retirements s))) \<and> released s (snd (poll_retirements s))"
  proof (cases "fst (poll_shards (po_shards s))")
    case (Inl err)
    then have "snd (poll_retirements s) = ?s" by (auto simp: poll_retirements_def split: sum.split prod.split)
    with okm exm polled_released [OF polled, of ?s] show ?thesis by (simp add: reshape_purged)
  next
    case (Inr ids)
    then have run: "snd (poll_retirements s) = snd (reap_finished ?s)"
      by (auto simp: poll_retirements_def split: sum.split prod.split)
    note reap = pool_reap_ok [OF okm room [unfolded run]]
    have "released s (snd (reap_finished ?s))" using polled_released [OF polled] kept_survives [OF reap(5)] by blast
    with reap exm show ?thesis unfolding run by blast
  qed
  then show "pool_ok (snd (poll_retirements s))" "exclusive s \<Longrightarrow> exclusive (snd (poll_retirements s))"
    "purged s \<Longrightarrow> purged (snd (poll_retirements s))" "released s (snd (poll_retirements s))" by simp_all
qed

lemma poll_budgets: "same_budgets s (snd (poll_retirements s))"
proof -
  have "same_budgets s (snd (reap_finished (s\<lparr> po_shards := m \<rparr>)))" for m
    using reap_loop_budgets [of "s\<lparr> po_shards := m \<rparr>"] by (simp add: reap_finished_def same_budgets_def)
  then show ?thesis by (auto simp: poll_retirements_def same_budgets_def split: sum.split prod.split) (metis snd_conv)+
qed

text \<open>A replacement puts the new pair among the claims of its shard.\<close>

lemma put_shard_pool:
  assumes ok: "pool_ok s" and x: "bt_get (po_shards s) i = Some x" and y: "shard_ok (po_shard_tokens s) y"
  shows "pool_ok (put_shard i y s)" "purged (put_shard i y s) = purged s"
    "sh_tokens y = sh_tokens x \<Longrightarrow> survives s (put_shard i y s)"
    "exclusive s \<Longrightarrow> (\<forall>j z. j \<noteq> i \<longrightarrow> bt_get (po_shards s) j = Some z \<longrightarrow> claims y \<inter> claims z = {})
      \<Longrightarrow> card (sh_tokens y) \<le> card (sh_tokens x) \<Longrightarrow> exclusive (put_shard i y s)"
proof -
  have wf: "bt_wf (po_shards s)" using ok by (simp add: pool_ok_def sockets_ok_def)
  have p: "pointwise (\<lambda>u v. v = u \<or> u = x \<and> v = y) (po_shards s) (bt_insert i y (po_shards s))"
    by (rule pointwise_insert [OF wf x]) simp_all
  show "pool_ok (put_shard i y s)" unfolding put_shard_def by (rule reshape_ok [OF ok p]) (use y in auto)
  show "purged (put_shard i y s) = purged s" by (simp add: put_shard_def reshape_purged)
  show "survives s (put_shard i y s)" if "sh_tokens y = sh_tokens x"
    using p that by (intro pointwise_survives [where R = "\<lambda>u v. v = u \<or> u = x \<and> v = y"]) (auto simp: put_shard_def)
  show "exclusive (put_shard i y s)"
    if ex: "exclusive s" and dis: "\<forall>j z. j \<noteq> i \<longrightarrow> bt_get (po_shards s) j = Some z \<longrightarrow> claims y \<inter> claims z = {}"
      and card: "card (sh_tokens y) \<le> card (sh_tokens x)"
  proof -
    have "bt_sum (\<lambda>sh. card (sh_tokens sh)) (bt_insert i y (po_shards s)) \<le> bt_sum (\<lambda>sh. card (sh_tokens sh)) (po_shards s)"
      by (rule pointwise_sum [OF p]) (use card in auto)
    moreover have "\<forall>j z. j \<noteq> i \<longrightarrow> bt_get (po_shards s) j = Some z \<longrightarrow> claims z \<inter> claims y = {}" using dis by blast
    ultimately show ?thesis using ex dis by (auto simp: exclusive_def put_shard_def)
  qed
qed

lemma replacement_cases:
  assumes "pool_ok s"
  obtains (same) "snd (request_pair_replacement old_pair new_pair s) = s" "fst (request_pair_replacement old_pair new_pair s) \<noteq> Inr False
      \<or> (\<exists>j x. bt_get (po_shards s) j = Some x \<and> change_in_flight x \<and> touches {fst old_pair, snd old_pair} x)"
  | (add) "snd (request_pair_replacement old_pair new_pair s) = snd (add_pairs [new_pair] s)"
  | (submitted) i sh where "bt_get (po_shards s) i = Some sh" "{fst old_pair, snd old_pair} \<subseteq> sh_tokens sh" "\<not> change_in_flight sh"
      "fst old_pair \<noteq> snd old_pair" "fst new_pair \<noteq> snd new_pair"
      "{fst new_pair, snd new_pair} \<inter> pool_tokens s = {}" "can_submit sh"
      "request_pair_replacement old_pair new_pair s = (Inr False,
         put_shard i (submit_change (sh_tokens sh - {fst old_pair, snd old_pair} \<union> {fst new_pair, snd new_pair}) sh) s)"
proof -
  let ?r = "request_pair_replacement old_pair new_pair s"
  let ?removed = "{fst old_pair, snd old_pair}" and ?added = "{fst new_pair, snd new_pair}"
  have wf: "bt_wf (po_shards s)" using assms by (simp add: pool_ok_def sockets_ok_def)
  have ex: "list_ex P (bt_values (po_shards s)) \<longleftrightarrow> (\<exists>j x. bt_get (po_shards s) j = Some x \<and> P x)" for P
    unfolding list_ex_iff Bex_def bt_values_iff [OF wf] by blast
  show thesis
  proof (cases "snd ?r = s \<and> (fst ?r \<noteq> Inr False \<or> (\<exists>j x. bt_get (po_shards s) j = Some x \<and> change_in_flight x \<and> touches ?removed x))
      \<or> snd ?r = snd (add_pairs [new_pair] s)")
    case True
    then show thesis using same add by blast
  next
    case False
    have c1: "fst old_pair \<noteq> snd old_pair \<and> fst new_pair \<noteq> snd new_pair \<and> fst old_pair \<noteq> [] \<and> snd old_pair \<noteq> []
           \<and> fst new_pair \<noteq> [] \<and> snd new_pair \<noteq> []"
      by (rule ccontr) (use False in \<open>simp add: request_pair_replacement_def\<close>)
    have c2: "\<not> (?removed \<inter> pool_tokens s = {} \<and> ?added \<subseteq> pool_tokens s)"
      by (rule notI) (use False c1 in \<open>simp add: request_pair_replacement_def Let_def\<close>)
    have c3: "\<not> (?removed \<inter> pool_tokens s = {} \<and> ?added \<inter> pool_tokens s = {})"
      by (rule notI) (use False c1 c2 in \<open>simp add: request_pair_replacement_def Let_def split: sum.split prod.split\<close>)
    have c4: "?removed \<subseteq> pool_tokens s \<and> ?added \<inter> pool_tokens s = {}"
      by (rule ccontr) (use False in \<open>simp only: request_pair_replacement_def Let_def c1 c2 c3 if_True if_False simp_thms, simp\<close>)
    have c3': "?removed \<inter> pool_tokens s \<noteq> {}" using c4 by auto
    have c5: "\<not> list_ex (\<lambda>sh. touches ?removed sh \<and> change_in_flight sh) (bt_values (po_shards s))"
    proof
      assume t: "list_ex (\<lambda>sh. touches ?removed sh \<and> change_in_flight sh) (bt_values (po_shards s))"
      then have "snd ?r = s"
        by (simp only: request_pair_replacement_def Let_def c1 c3' c4 if_True if_False simp_thms snd_conv)
      with t False show False unfolding ex by blast
    qed
    note eq = request_pair_replacement_def [of old_pair new_pair s, unfolded Let_def, simplified c1 c3' c4 c5 simp_thms if_True if_False]
    have other: "?r \<noteq> (Inl e, s)" for e using False by auto
    show thesis
    proof (cases "filter (\<lambda>(i, sh). ?removed \<subseteq> sh_tokens sh) (po_shards s)")
      case Nil
      with eq other [of "''replacement pair must be owned by one shard''"] show thesis by simp
    next
      case (Cons a rest)
      obtain i sh where a: "a = (i, sh)" by fastforce
      show thesis
      proof (cases rest)
        case (Cons b rest')
        with eq other [of "''replacement pair must be owned by one shard''"] \<open>filter _ _ = a # rest\<close> show thesis by (simp add: a)
      next
        case Nil
        note f = \<open>filter _ _ = a # rest\<close> [unfolded Nil a]
        then have "(i, sh) \<in> set (filter (\<lambda>(i, sh). ?removed \<subseteq> sh_tokens sh) (po_shards s))" by (simp only: f) simp
        then have get: "bt_get (po_shards s) i = Some sh" and sub: "?removed \<subseteq> sh_tokens sh" by (auto simp: bt_get_iff [OF wf])
        have "touches ?removed sh" using sub by (auto simp: touches_def)
        then have idle: "\<not> change_in_flight sh" using c5 get unfolding ex by blast
        let ?following = "sh_tokens sh - ?removed \<union> ?added"
        have eq2: "?r = (if \<not> (card ?following \<le> po_shard_tokens s \<and> card (pool_tokens s) - card ?removed + 2 \<le> po_maximum_tokens s)
            then (Inl ''replacement acquisition capacity'', s)
            else if \<not> can_submit sh then (Inl ''shard update in flight'', s) else (Inr False, put_shard i (submit_change ?following sh) s))"
          unfolding eq f by simp
        have can: "can_submit sh" using eq2 other by (metis (full_types))
        then have "?r = (Inr False, put_shard i (submit_change ?following sh) s)" using eq2 other by (metis (full_types))
        with get sub idle c1 c4 can show thesis by (intro submitted) auto
      qed
    qed
  qed
qed

lemma replacement_pool:
  assumes ok: "pool_ok s" and room: "po_next_id (snd (request_pair_replacement old_pair new_pair s)) \<noteq> - 1"
  shows "pool_ok (snd (request_pair_replacement old_pair new_pair s))" "purged s \<Longrightarrow> purged (snd (request_pair_replacement old_pair new_pair s))"
    "survives s (snd (request_pair_replacement old_pair new_pair s))"
    "exclusive s \<Longrightarrow> pair_tokens [new_pair] \<inter> incoming s = {} \<Longrightarrow> exclusive (snd (request_pair_replacement old_pair new_pair s))"
proof -
  let ?s' = "snd (request_pair_replacement old_pair new_pair s)"
  have "pool_ok ?s' \<and> (purged s \<longrightarrow> purged ?s') \<and> survives s ?s' \<and> (exclusive s \<longrightarrow> pair_tokens [new_pair] \<inter> incoming s = {} \<longrightarrow> exclusive ?s')"
    using ok
  proof (cases rule: replacement_cases [of s old_pair new_pair])
    case same
    then show ?thesis using ok by simp
  next
    case add
    with room have "po_next_id (snd (add_pairs [new_pair] s)) \<noteq> - 1" by simp
    from add_pairs_ok [OF ok this] show ?thesis unfolding add by blast
  next
    case (submitted i sh)
    let ?following = "sh_tokens sh - {fst old_pair, snd old_pair} \<union> {fst new_pair, snd new_pair}"
    have shok: "shard_ok (po_shard_tokens s) sh" using ok submitted(1) by (simp add: pool_ok_def shards_ok_def)
    have fin: "finite (sh_tokens sh)" using shok by (simp add: shard_ok_def)
    have "card (sh_tokens sh - {fst old_pair, snd old_pair}) = card (sh_tokens sh) - 2"
      using submitted(2,4) by (simp add: card_Diff_subset)
    moreover have "card {fst old_pair, snd old_pair} \<le> card (sh_tokens sh)" by (rule card_mono [OF fin submitted(2)])
    moreover have "card ?following \<le> card (sh_tokens sh - {fst old_pair, snd old_pair}) + card {fst new_pair, snd new_pair}"
      by (rule card_Un_le)
    ultimately have card: "card ?following \<le> card (sh_tokens sh)" using submitted(4,5) by simp
    have y: "shard_ok (po_shard_tokens s) (submit_change ?following sh)"
      by (rule submit_ok [OF shok]) (use submitted(3) fin card in \<open>auto simp: change_in_flight_def\<close>)
    have "exclusive (put_shard i (submit_change ?following sh) s)" if ex: "exclusive s" and free: "pair_tokens [new_pair] \<inter> incoming s = {}"
    proof (rule put_shard_pool(4) [OF ok submitted(1) y ex])
      have new: "{fst new_pair, snd new_pair} \<inter> pool_claims s = {}"
        using submitted(6) free unfolding claims_split [OF ok] by (auto simp: pair_tokens_def case_prod_beta)
      show "\<forall>j z. j \<noteq> i \<longrightarrow> bt_get (po_shards s) j = Some z \<longrightarrow> claims (submit_change ?following sh) \<inter> claims z = {}"
      proof (intro allI impI)
        fix j z assume z: "j \<noteq> i" "bt_get (po_shards s) j = Some z"
        have "claims z \<subseteq> pool_claims s" using pool_members(2) [OF ok] z(2) by blast
        moreover have "claims sh \<inter> claims z = {}" using ex submitted(1) z unfolding exclusive_def by blast
        moreover have "claims (submit_change ?following sh) \<subseteq> sh_tokens sh \<union> {fst new_pair, snd new_pair}"
          by (auto simp: claims_def submit_change_def)
        ultimately show "claims (submit_change ?following sh) \<inter> claims z = {}" using new tokens_claims [of sh] by blast
      qed
    qed (simp add: submit_change_def)
    with put_shard_pool(1-3) [OF ok submitted(1) y] show ?thesis unfolding submitted(8) by (simp add: submit_change_def)
  qed
  then show "pool_ok ?s'" "purged s \<Longrightarrow> purged ?s'" "survives s ?s'"
    "exclusive s \<Longrightarrow> pair_tokens [new_pair] \<inter> incoming s = {} \<Longrightarrow> exclusive ?s'" by simp_all
qed

section \<open>The transports\<close>

lemma serve_shard:
  assumes "shard_ok n x" and "sh_command x = Some u"
  shows "shard_ok n (x\<lparr> sh_command := None, sh_wire := wire,
    sh_pending := map_option (\<lambda>(following, receipt). (following, Answered answer)) (sh_pending x) \<rparr>)"
  using assms by (auto simp: shard_ok_def)

lemma serve_pool:
  assumes ok: "pool_ok s"
  shows "pool_ok (serve i sent1 sent2 s)" "purged (serve i sent1 sent2 s) = purged s" "survives s (serve i sent1 sent2 s)"
    "exclusive s \<Longrightarrow> exclusive (serve i sent1 sent2 s)"
proof -
  have "pool_ok (serve i sent1 sent2 s) \<and> purged (serve i sent1 sent2 s) = purged s \<and> survives s (serve i sent1 sent2 s)
    \<and> (exclusive s \<longrightarrow> exclusive (serve i sent1 sent2 s))"
  proof (cases "\<exists>x u. bt_get (po_shards s) i = Some x \<and> sh_command x = Some u")
    case True
    then obtain x u where x: "bt_get (po_shards s) i = Some x" "sh_command x = Some u" by blast
    obtain answer wire where aw: "apply_update sent1 sent2 u (sh_wire x) = (answer, wire)" by fastforce
    let ?y = "x\<lparr> sh_command := None, sh_wire := wire,
      sh_pending := map_option (\<lambda>(following, receipt). (following, Answered answer)) (sh_pending x) \<rparr>"
    have run: "serve i sent1 sent2 s = put_shard i ?y s" using x aw by (simp add: serve_def)
    have y: "shard_ok (po_shard_tokens s) ?y" using serve_shard x ok by (simp add: pool_ok_def shards_ok_def)
    have "claims ?y = claims x" by (simp add: claims_def)
    then have "exclusive (put_shard i ?y s)" if "exclusive s"
      by (intro put_shard_pool(4) [OF ok x(1) y that]) (use that x(1) in \<open>auto simp: exclusive_def\<close>)
    with put_shard_pool(1-3) [OF ok x(1) y] show ?thesis unfolding run by simp
  next
    case False
    then have "serve i sent1 sent2 s = s" by (auto simp: serve_def split: option.split)
    then show ?thesis using ok by simp
  qed
  then show "pool_ok (serve i sent1 sent2 s)" "purged (serve i sent1 sent2 s) = purged s" "survives s (serve i sent1 sent2 s)"
    "exclusive s \<Longrightarrow> exclusive (serve i sent1 sent2 s)" by simp_all
qed

lemma ends_pool:
  assumes ok: "pool_ok s"
  shows "pool_ok (socket_ends i result s)" "purged (socket_ends i result s) = purged s" "survives s (socket_ends i result s)"
    "exclusive s \<Longrightarrow> exclusive (socket_ends i result s)"
proof -
  have "pool_ok (socket_ends i result s) \<and> purged (socket_ends i result s) = purged s \<and> survives s (socket_ends i result s)
    \<and> (exclusive s \<longrightarrow> exclusive (socket_ends i result s))"
  proof (cases "i \<in> set (po_running s)")
    case True
    let ?s1 = "s\<lparr> po_running := remove1 i (po_running s), po_finished := po_finished s @ [(i, result)] \<rparr>"
    have len: "length (tasks ?s1) = length (tasks s)" and set: "set (tasks ?s1) = set (tasks s)" and dist: "distinct (tasks ?s1)"
      using True ok length_pos_if_in_set [OF True] by (auto simp: tasks_def length_remove1 pool_ok_def sockets_ok_def)
    have ok1: "pool_ok ?s1"
      using ok unfolding pool_ok_def sockets_ok_def set len using dist by (simp add: shards_ok_def lanes_ok_def)
    have "i \<in> set (tasks s)" using True by (simp add: tasks_def)
    then obtain x where x: "bt_get (po_shards s) i = Some x" using ok by (auto simp: pool_ok_def sockets_ok_def)
    then have x1: "bt_get (po_shards ?s1) i = Some x" by simp
    let ?y = "x\<lparr> sh_closed := True, sh_command := None,
      sh_pending := map_option (\<lambda>(following, receipt). (following, if receipt = Waiting then Lost else receipt)) (sh_pending x) \<rparr>"
    have run: "socket_ends i result s = put_shard i ?y ?s1" using True x by (simp add: socket_ends_def)
    have "shard_ok (po_shard_tokens s) x" using ok x by (simp add: pool_ok_def shards_ok_def)
    then have y: "shard_ok (po_shard_tokens ?s1) ?y" by (auto simp: shard_ok_def)
    have ex1: "exclusive ?s1" if "exclusive s" using that by (simp add: exclusive_def)
    have "claims ?y = claims x" by (simp add: claims_def)
    then have "exclusive (put_shard i ?y ?s1)" if "exclusive s"
      by (intro put_shard_pool(4) [OF ok1 x1 y ex1 [OF that]]) (use that x in \<open>auto simp: exclusive_def\<close>)
    with put_shard_pool(1-3) [OF ok1 x1 y] show ?thesis unfolding run by (simp add: survives_def purged_def)
  next
    case False
    then show ?thesis using ok by (simp add: socket_ends_def)
  qed
  then show "pool_ok (socket_ends i result s)" "purged (socket_ends i result s) = purged s" "survives s (socket_ends i result s)"
    "exclusive s \<Longrightarrow> exclusive (socket_ends i result s)" by simp_all
qed

section \<open>Waiting for the next event\<close>

lemma next_failed: "po_failed s = (tokens, reason) # rest \<Longrightarrow>
    next_batch_or_failure wakes s = (Some (Inr (ShardFailed tokens reason)), s\<lparr> po_failed := rest \<rparr>)"
  by (subst next_batch_or_failure.simps) simp

lemma next_Nil: "po_failed s = [] \<Longrightarrow> next_batch_or_failure [] s = (None, s)"
  by (subst next_batch_or_failure.simps) simp

lemma next_Noticed: "po_failed s = [] \<Longrightarrow> next_batch_or_failure (Noticed # wakes) s =
    (case po_notices s of [] \<Rightarrow> next_batch_or_failure wakes s
     | i # notices \<Rightarrow> (case take_ready i (s\<lparr> po_notices := notices \<rparr>) of (Inl err, s1) \<Rightarrow> (Some (Inl err), s1)
        | (Inr (Some batch), s1) \<Rightarrow> (Some (Inr (Batch batch)), s1) | (Inr None, s1) \<Rightarrow> next_batch_or_failure wakes s1))"
  by (subst next_batch_or_failure.simps) simp

lemma next_Joined: "po_failed s = [] \<Longrightarrow> next_batch_or_failure (Joined # wakes) s =
    (case po_finished s of [] \<Rightarrow> next_batch_or_failure wakes s
     | (i, result) # ended \<Rightarrow> (case handle_finished i result (s\<lparr> po_finished := ended \<rparr>) of (Inl err, s1) \<Rightarrow> (Some (Inl err), s1)
        | (Inr _, s1) \<Rightarrow> (case purge_retired_notifications s1 of (Inl err, s2) \<Rightarrow> (Some (Inl err), s2)
            | (Inr _, s2) \<Rightarrow> next_batch_or_failure wakes s2)))"
  by (subst next_batch_or_failure.simps) simp

lemma signal_budgets: "same_budgets s (snd (signal i s))"
  by (simp add: signal_def same_budgets_def)

lemma take_ready_budgets: "same_budgets s (snd (take_ready i s))"
proof -
  have "same_budgets s (snd (signal i (s\<lparr> po_ready := r, po_inputs := q \<rparr>)))" for r q
    using signal_budgets [of "s\<lparr> po_ready := r, po_inputs := q \<rparr>" i] by (simp add: same_budgets_def)
  then show ?thesis by (auto simp: take_ready_def Let_def same_budgets_def split: option.split list.split sum.split prod.split) (metis snd_conv)+
qed

lemma next_budgets: "same_budgets s (snd (next_batch_or_failure wakes s))"
proof (induction wakes arbitrary: s)
  case Nil
  show ?case by (cases "po_failed s") (auto simp: next_Nil next_failed same_budgets_def)
next
  case (Cons w wakes)
  have step: "same_budgets s (snd (next_batch_or_failure wakes s1))" if "same_budgets s s1" for s1
    using that Cons.IH same_budgets_trans by blast
  show ?case
  proof (cases "po_failed s")
    case (Cons f rest)
    then show ?thesis by (cases f) (simp add: next_failed same_budgets_def)
  next
    case Nil
    have take: "same_budgets s s1" if "take_ready i (s\<lparr> po_notices := ns \<rparr>) = (r, s1)" for i ns r s1
      using take_ready_budgets [of "s\<lparr> po_notices := ns \<rparr>" i] that by (simp add: same_budgets_def)
    have hand: "same_budgets s s1" if "handle_finished i result (s\<lparr> po_finished := ended \<rparr>) = (r, s1)" for i result ended r s1
      using handle_finished_budgets [of "s\<lparr> po_finished := ended \<rparr>" i result] that by (simp add: same_budgets_def)
    have purge: "same_budgets s s2" if "purge_retired_notifications s1 = (r, s2)" "same_budgets s s1" for r s1 s2
      using purge_budgets [of s1] that same_budgets_trans by fastforce
    show ?thesis
    proof (cases w)
      case Noticed
      show ?thesis
      proof (cases "po_notices s")
        case (Cons i ns)
        obtain r s1 where t: "take_ready i (s\<lparr> po_notices := ns \<rparr>) = (r, s1)" by fastforce
        have "snd (next_batch_or_failure (Noticed # wakes) s) = s1 \<or> next_batch_or_failure (Noticed # wakes) s = next_batch_or_failure wakes s1"
          by (cases r) (auto simp: next_Noticed Nil Cons t split: option.split)
        then show ?thesis using take [OF t] step [OF take [OF t]] by (auto simp: Noticed)
      qed (use step [of s] in \<open>simp add: Noticed next_Noticed Nil\<close>)
    next
      case Joined
      show ?thesis
      proof (cases "po_finished s")
        case (Cons x ended)
        obtain i result where x: "x = (i, result)" by fastforce
        obtain r s1 where t: "handle_finished i result (s\<lparr> po_finished := ended \<rparr>) = (r, s1)" by fastforce
        obtain q s2 where p: "purge_retired_notifications s1 = (q, s2)" by fastforce
        have "snd (next_batch_or_failure (Joined # wakes) s) \<in> {s1, s2} \<or> next_batch_or_failure (Joined # wakes) s = next_batch_or_failure wakes s2"
          by (cases r; cases q) (simp_all add: next_Joined Nil Cons x t p)
        then show ?thesis using hand [OF t] purge [OF p hand [OF t]] step [OF purge [OF p hand [OF t]]] by (auto simp: Joined)
      qed (use step [of s] in \<open>simp add: Joined next_Joined Nil\<close>)
    qed
  qed
qed

lemma pool_failed [simp]:
  "pool_ok (s\<lparr> po_failed := f \<rparr>) = pool_ok s" "purged (s\<lparr> po_failed := f \<rparr>) = purged s" "exclusive (s\<lparr> po_failed := f \<rparr>) = exclusive s"
  by (simp_all add: pool_ok_def sockets_ok_def shards_ok_def lanes_ok_def purged_def exclusive_def tasks_def)

lemma kept_refl [simp]: "kept s s"
  by (simp add: kept_same)

text \<open>What every branch of the loop keeps, the loop keeps.\<close>

lemma next_rule:
  assumes trans: "\<And>s s' s''. R s s' \<Longrightarrow> R s' s'' \<Longrightarrow> R s s''"
    and same: "\<And>s s'. po_shards s' = po_shards s \<Longrightarrow> po_running s' = po_running s \<Longrightarrow> po_maximum_tokens s' = po_maximum_tokens s \<Longrightarrow> R s s'"
    and join: "\<And>s i result ended s'. pool_ok s \<Longrightarrow> po_finished s = (i, result) # ended \<Longrightarrow> po_next_id s \<noteq> - 1 \<Longrightarrow>
      handle_finished i result (s\<lparr> po_finished := ended \<rparr>) = (Inr (), s') \<Longrightarrow> R s s'"
    and "pool_ok s" "purged s" and "po_next_id (snd (next_batch_or_failure wakes s)) \<noteq> - 1"
  shows "pool_ok (snd (next_batch_or_failure wakes s)) \<and> purged (snd (next_batch_or_failure wakes s))
    \<and> R s (snd (next_batch_or_failure wakes s))"
  using assms(4-6)
proof (induction wakes arbitrary: s)
  case Nil
  show ?case
  proof (cases "po_failed s")
    case (Cons f rest)
    then show ?thesis using Nil.prems by (cases f) (simp add: next_failed same)
  qed (use Nil in \<open>simp add: next_Nil same\<close>)
next
  case (Cons w wakes)
  have via: ?case if eq: "next_batch_or_failure (w # wakes) s = next_batch_or_failure wakes s1"
    and s1: "pool_ok s1" "purged s1" "R s s1" for s1
  proof -
    have "po_next_id (snd (next_batch_or_failure wakes s1)) \<noteq> - 1" using Cons.prems(3) eq by simp
    from Cons.IH [OF s1(1,2) this] s1(3) trans show ?thesis unfolding eq by blast
  qed
  have self: "R s s" by (simp add: same)
  show ?case
  proof (cases "po_failed s")
    case failed: (Cons f rest)
    then show ?thesis using Cons.prems by (cases f) (simp add: next_failed same)
  next
    case Nil
    show ?thesis
    proof (cases w)
      case Noticed
      show ?thesis
      proof (cases "po_notices s")
        case no: (Nil)
        show ?thesis by (rule via [of s]) (use no Nil Noticed Cons.prems self in \<open>simp_all add: next_Noticed\<close>)
      next
        case some: (Cons i ns)
        obtain s' where run: "take_ready i (s\<lparr> po_notices := ns \<rparr>) = (Inr (first_of (lane s i)), s')" and s': "pool_ok s'" "purged s'"
          and eq: "po_shards s' = po_shards s" "po_maximum_tokens s' = po_maximum_tokens s"
          by (rule take_ready_ok [OF Cons.prems(1,2) some])
        have "po_running s' = po_running s"
          using run by (auto simp: take_ready_def signal_def Let_def split: option.splits list.splits if_splits)
        then have here: "R s s'" using eq by (simp add: same)
        show ?thesis
        proof (cases "first_of (lane s i)")
          case None
          show ?thesis by (rule via [of s']) (use s' here in \<open>simp_all add: Noticed next_Noticed Nil some run None\<close>)
        next
          case (Some batch)
          then have "snd (next_batch_or_failure (w # wakes) s) = s'" by (simp add: Noticed next_Noticed Nil some run)
          then show ?thesis using s' here by simp
        qed
      qed
    next
      case Joined
      show ?thesis
      proof (cases "po_finished s")
        case no: (Nil)
        show ?thesis by (rule via [of s]) (use no Nil Joined Cons.prems self in \<open>simp_all add: next_Joined\<close>)
      next
        case some: (Cons x ended)
        obtain i result where f: "po_finished s = (i, result) # ended" using some by (cases x) simp
        have room: "po_next_id s \<noteq> - 1" using next_budgets same_budgets_room Cons.prems(3) by blast
        obtain s' where run: "handle_finished i result (s\<lparr> po_finished := ended \<rparr>) = (Inr (), s')" and s': "pool_ok s'"
          by (rule handle_finished_ok [OF Cons.prems(1) f room]) blast
        let ?s2 = "s'\<lparr> po_notices := filter (bt_contains (po_ready s')) (po_notices s') \<rparr>"
        have "R s s'" by (rule join [OF Cons.prems(1) f room run])
        moreover have "R s' ?s2" by (simp add: same)
        ultimately have "R s ?s2" by (rule trans)
        then show ?thesis
          by (intro via [of ?s2]) (use purge_ok [OF s'] in \<open>simp_all add: Joined next_Joined Nil f run\<close>)
      qed
    qed
  qed
qed

lemma next_pool:
  assumes "pool_ok s" "purged s" and "po_next_id (snd (next_batch_or_failure wakes s)) \<noteq> - 1"
  shows "pool_ok (snd (next_batch_or_failure wakes s)) \<and> purged (snd (next_batch_or_failure wakes s))
    \<and> kept s (snd (next_batch_or_failure wakes s)) \<and> (exclusive s \<longrightarrow> exclusive (snd (next_batch_or_failure wakes s)))"
proof (rule next_rule [of "\<lambda>s s'. kept s s' \<and> (exclusive s \<longrightarrow> exclusive s')", OF _ _ _ assms])
  fix s s' :: "'a pool" and i result ended
  assume h: "pool_ok s" "po_finished s = (i, result) # ended" "po_next_id s \<noteq> - 1"
    and run: "handle_finished i result (s\<lparr> po_finished := ended \<rparr>) = (Inr (), s')"
  obtain sh s1 where sh: "bt_get (po_shards s) i = Some sh" and eq: "handle_finished i result (s\<lparr> po_finished := ended \<rparr>) = (Inr (), s1)"
    and ex: "exclusive s \<longrightarrow> exclusive s1"
    and get: "\<And>k. bt_get (po_shards s1) k = (if k = po_next_id s \<and> \<not> sh_stopping sh then Some (reborn sh)
      else if k = i then None else bt_get (po_shards s) k)"
    by (rule handle_finished_ok [OF h]) blast
  have "s1 = s'" using eq run by simp
  with successor_kept [OF h(1) sh get] ex show "kept s s' \<and> (exclusive s \<longrightarrow> exclusive s')" by simp
next
  show "kept s s'' \<and> (exclusive s \<longrightarrow> exclusive s'')" if "kept s s' \<and> (exclusive s \<longrightarrow> exclusive s')" "kept s' s'' \<and> (exclusive s' \<longrightarrow> exclusive s'')"
    for s s' s'' :: "'a pool"
    using that kept_trans [of s s' s''] by blast
qed (simp add: kept_same exclusive_def)

end
