(* ===== verification/Shard_Theorems.thy ===== *)
theory Shard_Theorems
  imports Shard_Lanes
begin

text \<open>
  The properties of the socket pool over runs of its operations and of its transports: every token has one
  socket and the budgets hold, tokens are given up only on purpose, a waiting frame is always found, and a
  replacement whose second write fails never completes.
\<close>

section \<open>Runs\<close>

datatype 'b pool_op =
    AddPairs "(string \<times> string) list" | BeginRetire "string set" | RequestRetire "string set"
  | ReplacePair "string \<times> string" "string \<times> string" | PollRetirements | Reap | TakeFailure | TryNext | AwaitNext "wake list"
  | Serve u64 bool bool | SocketEnds u64 shard_exit | Deliver u64 'b

fun pool_step :: "'b pool \<Rightarrow> 'b pool_op \<Rightarrow> 'b pool" where
  "pool_step s (AddPairs pairs) = snd (add_pairs pairs s)"
| "pool_step s (BeginRetire removed) = snd (begin_retire removed s)"
| "pool_step s (RequestRetire removed) = snd (request_retire removed s)"
| "pool_step s (ReplacePair old_pair new_pair) = snd (request_pair_replacement old_pair new_pair s)"
| "pool_step s PollRetirements = snd (poll_retirements s)"
| "pool_step s Reap = snd (reap_finished s)"
| "pool_step s TakeFailure = snd (take_failure s)"
| "pool_step s TryNext = snd (try_next_batch s)"
| "pool_step s (AwaitNext wakes) = snd (next_batch_or_failure wakes s)"
| "pool_step s (Serve i sent1 sent2) = serve i sent1 sent2 s"
| "pool_step s (SocketEnds i result) = socket_ends i result s"
| "pool_step s (Deliver i batch) = snd (deliver i batch s)"

definition pool_run :: "'b pool_op list \<Rightarrow> 'b pool \<Rightarrow> 'b pool" where
  "pool_run ops s = foldl pool_step s ops"

lemma pool_run_simps [simp]: "pool_run [] s = s" "pool_run (turn # ops) s = pool_run ops (pool_step s turn)"
  by (simp_all add: pool_run_def)

text \<open>The tokens an operation asks the pool to acquire.\<close>

fun named :: "'b pool_op \<Rightarrow> string set" where
  "named (AddPairs pairs) = pair_tokens pairs"
| "named (ReplacePair old_pair new_pair) = pair_tokens [new_pair]"
| "named turn = {}"

text \<open>No operation asks for a token that a replacement under way is about to bring.\<close>

fun careful :: "'b pool_op list \<Rightarrow> 'b pool \<Rightarrow> bool" where
  "careful [] s = True"
| "careful (turn # ops) s \<longleftrightarrow> named turn \<inter> incoming s = {} \<and> careful ops (pool_step s turn)"

lemma if_either: "P a \<Longrightarrow> P b \<Longrightarrow> P (if c then a else b)"
  by simp

lemma replacement_budgets: "same_budgets s (snd (request_pair_replacement old_pair new_pair s))"
proof -
  have put: "same_budgets s (put_shard i y s)" for i y by (simp add: put_shard_def same_budgets_def)
  have add: "same_budgets s (snd (case add_pairs [new_pair] s of (Inl err, s1) \<Rightarrow> (Inl err, s1) | (Inr _, s1) \<Rightarrow> (Inr True, s1)))"
    using add_pairs_budgets [of s "[new_pair]"] by (auto split: sum.split prod.split)
  show ?thesis
    unfolding request_pair_replacement_def Let_def
    by (intro if_either [of "\<lambda>r. same_budgets s (snd r)"] add) (simp_all add: put split: list.split prod.split)
qed

lemma step_budgets: "same_budgets s (pool_step s turn)"
proof (cases turn)
  case (BeginRetire removed)
  then show ?thesis by (auto simp: begin_retire_def same_budgets_def split: sum.split)
next
  case (RequestRetire removed)
  have "same_budgets s (snd (begin_retire r s))" for r by (auto simp: begin_retire_def same_budgets_def split: sum.split)
  then show ?thesis using request_retire_snd [of removed s] by (auto simp: RequestRetire)
next
  case Reap
  then show ?thesis using reap_loop_budgets by (simp add: reap_finished_def)
next
  case TryNext
  have "same_budgets s (snd (drain_notices ns s))" for ns :: "u64 list"
  proof (induction ns arbitrary: s)
    case (Cons i ns)
    obtain r s1 where t: "take_ready i (s\<lparr> po_notices := ns \<rparr>) = (r, s1)" by fastforce
    have "same_budgets s s1" using take_ready_budgets [of "s\<lparr> po_notices := ns \<rparr>" i] by (simp add: t same_budgets_def)
    then show ?case using Cons.IH [of s1] by (auto simp: t split: sum.split option.split intro: same_budgets_trans)
  qed simp
  then show ?thesis by (simp add: TryNext try_next_batch_def)
next
  case (Deliver i batch)
  then show ?thesis by (auto simp: deliver_def signal_def same_budgets_def split: option.split)
next
  case TakeFailure
  then show ?thesis by (auto simp: take_failure_def same_budgets_def split: list.split)
next
  case (Serve i sent1 sent2)
  then show ?thesis by (auto simp: serve_def put_shard_def same_budgets_def split: option.split prod.split)
next
  case (SocketEnds i result)
  then show ?thesis by (auto simp: socket_ends_def Let_def put_shard_def same_budgets_def split: option.split)
qed (simp_all add: add_pairs_budgets replacement_budgets poll_budgets next_budgets)

lemma run_budgets: "same_budgets s (pool_run ops s)"
  by (induction ops arbitrary: s) (auto intro: same_budgets_trans step_budgets)

text \<open>One operation keeps the invariant.\<close>

definition keeps :: "'b pool \<Rightarrow> 'b pool \<Rightarrow> bool" where
  "keeps s s' \<longleftrightarrow> pool_ok s' \<and> purged s' \<and> released s s'"

lemma released_same: "po_shards s' = po_shards s \<Longrightarrow> released s s'"
  unfolding released_def by metis

lemma same_pool_keeps:
  assumes "pool_ok s'" "purged s'" "same_pool s s'"
  shows "keeps s s'" and "exclusive s \<Longrightarrow> exclusive s'"
  using assms by (auto simp: keeps_def same_pool_def released_same exclusive_def)

lemma step_pool:
  assumes ok: "pool_ok s" "purged s" and room: "po_next_id (pool_step s turn) \<noteq> - 1"
  shows "keeps s (pool_step s turn)" and "exclusive s \<Longrightarrow> named turn \<inter> incoming s = {} \<Longrightarrow> exclusive (pool_step s turn)"
proof -
  have "keeps s (pool_step s turn) \<and> (exclusive s \<longrightarrow> named turn \<inter> incoming s = {} \<longrightarrow> exclusive (pool_step s turn))"
  proof (cases turn)
    case (AddPairs pairs)
    with add_pairs_ok [OF ok(1)] room show ?thesis by (simp add: keeps_def survives_released)
  next
    case (BeginRetire removed)
    with begin_retire_pool [OF ok(1)] ok(2) show ?thesis by (simp add: keeps_def survives_released)
  next
    case (RequestRetire removed)
    with begin_retire_pool [OF ok(1)] ok request_retire_snd [of removed s] show ?thesis
      by (auto simp: keeps_def survives_released)
  next
    case (ReplacePair old_pair new_pair)
    with replacement_pool [OF ok(1)] ok(2) room show ?thesis by (simp add: keeps_def survives_released)
  next
    case PollRetirements
    with poll_pool [OF ok(1)] ok(2) room show ?thesis by (simp add: keeps_def)
  next
    case Reap
    with pool_reap_ok [OF ok(1)] room show ?thesis by (simp add: keeps_def survives_released kept_survives)
  next
    case TakeFailure
    have "snd (take_failure s) = s \<or> (\<exists>f. snd (take_failure s) = s\<lparr> po_failed := f \<rparr>)" by (auto simp: take_failure_def split: list.split)
    then show ?thesis using ok by (auto simp: TakeFailure keeps_def released_same)
  next
    case TryNext
    with same_pool_keeps [OF try_next_ok [OF ok]] show ?thesis by simp
  next
    case (AwaitNext wakes)
    with next_pool [OF ok] room show ?thesis by (simp add: keeps_def survives_released kept_survives)
  next
    case (Serve i sent1 sent2)
    with serve_pool [OF ok(1)] ok(2) show ?thesis by (simp add: keeps_def survives_released)
  next
    case (SocketEnds i result)
    with ends_pool [OF ok(1)] ok(2) show ?thesis by (simp add: keeps_def survives_released)
  next
    case (Deliver i batch)
    with same_pool_keeps [OF deliver_ok(1-3) [OF ok]] show ?thesis by simp
  qed
  then show "keeps s (pool_step s turn)" "exclusive s \<Longrightarrow> named turn \<inter> incoming s = {} \<Longrightarrow> exclusive (pool_step s turn)" by simp_all
qed

lemma run_pool:
  assumes "pool_ok s" "purged s" "po_next_id (pool_run ops s) \<noteq> - 1"
  shows "pool_ok (pool_run ops s) \<and> purged (pool_run ops s) \<and> (exclusive s \<and> careful ops s \<longrightarrow> exclusive (pool_run ops s))"
  using assms
proof (induction ops arbitrary: s)
  case (Cons turn ops)
  have room: "po_next_id (pool_step s turn) \<noteq> - 1" using same_budgets_room [OF run_budgets Cons.prems(3) [simplified]] .
  note step = step_pool [OF Cons.prems(1,2) room]
  from Cons.IH [of "pool_step s turn"] step Cons.prems(3) show ?case by (auto simp: keeps_def)
qed simp

lemma pool_new_ok:
  assumes "pool_new True maximum_tokens maximum_shards shard_tokens = Inr s"
  shows "pool_ok s" "purged s" "exclusive s" "po_maximum_tokens s = maximum_tokens" "po_maximum_shards s = maximum_shards"
  using assms by (auto simp: pool_new_def and_then_Inr_iff pool_ok_def sockets_ok_def shards_ok_def lanes_ok_def purged_def exclusive_def tasks_def)

section \<open>Properties\<close>

text \<open>
  every token has one socket, and the budgets of tokens and sockets hold, over all runs of the pool's
  operations and of its transports, whatever fails or ends, provided no operation asks for a token that a
  replacement still under way is about to bring. Tokens stay counted while their retirement is under way, and
  a socket that failed keeps its tokens through its successor. The run may not use up the socket identities.
\<close>

theorem every_token_has_one_socket:
  "pool_new True maximum_tokens maximum_shards shard_tokens = Inr s \<longrightarrow> careful ops s \<longrightarrow> po_next_id (pool_run ops s) \<noteq> - 1 \<longrightarrow>
    (\<forall>i j x y. bt_get (po_shards (pool_run ops s)) i = Some x \<longrightarrow> bt_get (po_shards (pool_run ops s)) j = Some y \<longrightarrow> i \<noteq> j \<longrightarrow>
       sh_tokens x \<inter> sh_tokens y = {})
    \<and> card (pool_tokens (pool_run ops s)) \<le> maximum_tokens \<and> jobs_len (pool_run ops s) \<le> maximum_shards
    \<and> (\<forall>i. bt_get (po_shards (pool_run ops s)) i \<noteq> None \<longleftrightarrow> i \<in> set (po_running (pool_run ops s) @ map fst (po_finished (pool_run ops s))))"
proof (intro impI)
  let ?s = "pool_run ops s"
  assume new: "pool_new True maximum_tokens maximum_shards shard_tokens = Inr s" and careful: "careful ops s" and room: "po_next_id ?s \<noteq> - 1"
  note s = pool_new_ok [OF new]
  from run_pool [OF s(1,2) room] s(3) careful have ok: "pool_ok ?s" "exclusive ?s" by blast+
  have budgets: "po_maximum_tokens ?s = maximum_tokens" "po_maximum_shards ?s = maximum_shards"
    using run_budgets [of s ops] s(4,5) by (simp_all add: same_budgets_def)
  have "sh_tokens x \<inter> sh_tokens y = {}" if "bt_get (po_shards ?s) i = Some x" "bt_get (po_shards ?s) j = Some y" "i \<noteq> j" for i j x y
    using ok(2) that tokens_claims unfolding exclusive_def by blast
  moreover have "card (pool_tokens ?s) \<le> maximum_tokens"
    using card_pool_tokens [OF ok] ok(2) budgets(1) by (simp add: exclusive_def)
  ultimately show "(\<forall>i j x y. bt_get (po_shards ?s) i = Some x \<longrightarrow> bt_get (po_shards ?s) j = Some y \<longrightarrow> i \<noteq> j \<longrightarrow>
       sh_tokens x \<inter> sh_tokens y = {})
    \<and> card (pool_tokens ?s) \<le> maximum_tokens \<and> jobs_len ?s \<le> maximum_shards
    \<and> (\<forall>i. bt_get (po_shards ?s) i \<noteq> None \<longleftrightarrow> i \<in> set (po_running ?s @ map fst (po_finished ?s)))"
    using ok(1) budgets(2) by (simp add: pool_ok_def sockets_ok_def tasks_def jobs_len_def)
qed

text \<open>
  the pool gives up a token only on purpose. When an operation leaves a token unowned, its socket was told
  to stop, or the transport had acknowledged a change that leaves the token out: neither a failed socket nor a
  lost or negative receipt nor a request alone releases anything.
\<close>

theorem tokens_leave_only_on_purpose:
  "pool_new True maximum_tokens maximum_shards shard_tokens = Inr s \<longrightarrow> po_next_id (pool_run (ops @ [turn]) s) \<noteq> - 1 \<longrightarrow>
    t \<in> pool_tokens (pool_run ops s) \<longrightarrow> t \<notin> pool_tokens (pool_run (ops @ [turn]) s) \<longrightarrow>
    (\<exists>i x. bt_get (po_shards (pool_run ops s)) i = Some x \<and> t \<in> sh_tokens x
      \<and> (sh_stopping x \<or> (\<exists>following. sh_pending x = Some (following, Answered (Inr ())) \<and> t \<notin> following)))"
proof (intro impI)
  let ?s = "pool_run ops s"
  assume new: "pool_new True maximum_tokens maximum_shards shard_tokens = Inr s" and room: "po_next_id (pool_run (ops @ [turn]) s) \<noteq> - 1"
    and t: "t \<in> pool_tokens ?s" "t \<notin> pool_tokens (pool_run (ops @ [turn]) s)"
  have step: "pool_run (ops @ [turn]) s = pool_step ?s turn" by (simp add: pool_run_def)
  note s = pool_new_ok [OF new]
  have room1: "po_next_id ?s \<noteq> - 1" using same_budgets_room [OF step_budgets room [unfolded step]] .
  have ok: "pool_ok ?s" "purged ?s" using run_pool [OF s(1,2) room1] by blast+
  have keeps: "keeps ?s (pool_step ?s turn)" by (rule step_pool(1) [OF ok room [unfolded step]])
  from t(1) obtain i x where x: "bt_get (po_shards ?s) i = Some x" "t \<in> sh_tokens x" unfolding pool_members(1) [OF ok(1)] by blast
  have gone: "t \<notin> sh_tokens y" if "bt_get (po_shards (pool_step ?s turn)) k = Some y" for k y
    using t(2) that keeps pool_members(1) [of "pool_step ?s turn"] unfolding step keeps_def by blast
  from keeps x(1) have "sh_stopping x \<or> (\<exists>following. sh_pending x = Some (following, Answered (Inr ())) \<and> t \<notin> following)"
    unfolding keeps_def released_def using gone x(2) by metis
  with x show "\<exists>i x. bt_get (po_shards ?s) i = Some x \<and> t \<in> sh_tokens x
      \<and> (sh_stopping x \<or> (\<exists>following. sh_pending x = Some (following, Answered (Inr ())) \<and> t \<notin> following))" by blast
qed

text \<open>
  no frame is forgotten. After any run, as long as no failure is waiting to be taken, asking for the next
  batch gives the oldest batch of some lane when any lane has one, removes exactly that batch, and reports
  nothing only when every lane is empty: a notification is never lost, neither to a socket that ended nor to
  one that was announced while it was read.
\<close>

theorem waiting_frames_are_found:
  "pool_new True maximum_tokens maximum_shards shard_tokens = Inr s \<longrightarrow> po_next_id (pool_run ops s) \<noteq> - 1 \<longrightarrow>
    po_failed (pool_run ops s) = [] \<longrightarrow>
    (\<forall>i. lane (pool_run ops s) i = []) \<and> fst (try_next_batch (pool_run ops s)) = Inr None
    \<or> (\<exists>i batch rest. lane (pool_run ops s) i = batch # rest \<and> fst (try_next_batch (pool_run ops s)) = Inr (Some batch)
         \<and> (\<forall>j. lane (snd (try_next_batch (pool_run ops s))) j = (if j = i then rest else lane (pool_run ops s) j)))"
proof (intro impI)
  let ?s = "pool_run ops s"
  assume new: "pool_new True maximum_tokens maximum_shards shard_tokens = Inr s" and room: "po_next_id ?s \<noteq> - 1" and f: "po_failed ?s = []"
  note s = pool_new_ok [OF new]
  have ok: "pool_ok ?s" "purged ?s" using run_pool [OF s(1,2) room] by blast+
  have found: "try_next_batch ?s = drain_notices (po_notices ?s) ?s" by (simp add: try_next_batch_def f)
  show "(\<forall>i. lane ?s i = []) \<and> fst (try_next_batch ?s) = Inr None
    \<or> (\<exists>i batch rest. lane ?s i = batch # rest \<and> fst (try_next_batch ?s) = Inr (Some batch)
         \<and> (\<forall>j. lane (snd (try_next_batch ?s)) j = (if j = i then rest else lane ?s j)))"
    unfolding found using drain_notices_ok [OF ok refl] by blast
qed

section \<open>A replacement that failed half-way\<close>

text \<open>What the owner's operations do to one shard, and that they leave a running one in place.\<close>

definition owner_move :: "shard \<Rightarrow> shard \<Rightarrow> bool" where
  "owner_move x y \<longleftrightarrow> y = x \<or> (\<not> change_in_flight x \<and> (\<exists>f. y = submit_change f x \<or> y = retire_shard f x)) \<or> y = snd (poll_shard x)"

definition in_place :: "u64 \<Rightarrow> 'b pool \<Rightarrow> 'b pool \<Rightarrow> bool" where
  "in_place i s s' \<longleftrightarrow> (i \<in> set (po_running s) \<longrightarrow> i \<in> set (po_running s')
     \<and> (\<forall>x. bt_get (po_shards s) i = Some x \<longrightarrow> (\<exists>y. bt_get (po_shards s') i = Some y \<and> owner_move x y)))"

definition untouched :: "u64 \<Rightarrow> 'b pool \<Rightarrow> 'b pool \<Rightarrow> bool" where
  "untouched i s s' \<longleftrightarrow> (i \<in> set (po_running s) \<longrightarrow> i \<in> set (po_running s') \<and> bt_get (po_shards s') i = bt_get (po_shards s) i)"

lemma untouched_trans: "untouched i s s' \<Longrightarrow> untouched i s' s'' \<Longrightarrow> untouched i s s''"
  by (simp add: untouched_def)

lemma untouched_in_place: "untouched i s s' \<Longrightarrow> in_place i s s'"
  by (simp add: untouched_def in_place_def owner_move_def)

lemma running_shard: "pool_ok s \<Longrightarrow> i \<in> set (po_running s) \<Longrightarrow> i \<notin> fst ` set (po_finished s) \<and> i \<noteq> po_next_id s \<and> (\<exists>x. bt_get (po_shards s) i = Some x)"
  unfolding pool_ok_def sockets_ok_def tasks_def by (metis Un_iff disjoint_iff distinct_append image_set less_irrefl not_Some_eq set_append)

lemma spawn_untouched: "pool_ok s \<Longrightarrow> untouched i s (snd (spawn_owned_tokens B s))"
  using running_shard [of s i] by (auto simp: untouched_def spawn_owned_tokens_def Let_def split: option.split)

lemma handle_untouched:
  assumes "pool_ok s" and "po_finished s = (k, result) # ended" and "po_next_id s \<noteq> - 1"
  shows "untouched i s (snd (handle_finished k result (s\<lparr> po_finished := ended \<rparr>)))"
proof -
  obtain sh s' where run: "handle_finished k result (s\<lparr> po_finished := ended \<rparr>) = (Inr (), s')"
    and get: "\<And>j. bt_get (po_shards s') j = (if j = po_next_id s \<and> \<not> sh_stopping sh then Some (reborn sh)
       else if j = k then None else bt_get (po_shards s) j)" and "set (po_running s) \<subseteq> set (po_running s')"
    by (rule handle_finished_ok [OF assms]) blast
  then show ?thesis using running_shard [OF assms(1), of i] by (auto simp: untouched_def assms(2))
qed

lemma reap_untouched:
  "pool_ok s \<Longrightarrow> po_finished s = fin \<Longrightarrow> po_next_id (snd (reap_loop fin s)) \<noteq> - 1 \<Longrightarrow> untouched i s (snd (reap_loop fin s))"
proof (induction fin arbitrary: s)
  case Nil
  then show ?case by (simp add: purge_ok(1) untouched_def)
next
  case (Cons x fin)
  obtain k result where x: "x = (k, result)" by fastforce
  have f: "po_finished s = (k, result) # fin" using Cons.prems(2) x by simp
  have room: "po_next_id s \<noteq> - 1" using reap_loop_budgets same_budgets_room Cons.prems(3) by blast
  obtain s' where run: "handle_finished k result (s\<lparr> po_finished := fin \<rparr>) = (Inr (), s')" and s': "pool_ok s'" "po_finished s' = fin"
    by (rule handle_finished_ok [OF Cons.prems(1) f room]) blast
  have "po_next_id (snd (reap_loop fin s')) \<noteq> - 1" using Cons.prems(3) run by (simp add: x)
  from Cons.IH [OF s' this] handle_untouched [OF Cons.prems(1) f room, of i] show ?case
    by (auto simp: x run intro: untouched_trans)
qed

lemma spawn_all_running: "set (po_running s) \<subseteq> set (po_running (snd (spawn_all Bs s)))"
proof (induction Bs arbitrary: s)
  case (Cons B Bs)
  obtain r s1 where t: "spawn_owned_tokens B s = (r, s1)" by fastforce
  have "set (po_running s) \<subseteq> set (po_running s1)"
    using t by (auto simp: spawn_owned_tokens_def Let_def split: if_splits option.splits)
  with Cons.IH [of s1] show ?case by (auto simp: t split: sum.split prod.split)
qed simp

lemma add_pairs_untouched:
  assumes ok: "pool_ok s" and room: "po_next_id (snd (add_pairs pairs s)) \<noteq> - 1"
  shows "untouched i s (snd (add_pairs pairs s))"
proof -
  obtain r s1 where reap: "reap_finished s = (r, s1)" by fastforce
  have "same_budgets s1 (snd (add_pairs pairs s))"
    using spawn_all_budgets by (auto simp: add_pairs_def reap split: sum.split)
  from same_budgets_room [OF this room] have room1: "po_next_id (snd (reap_finished s)) \<noteq> - 1" by (simp add: reap)
  note r1 = pool_reap_ok [OF ok room1, unfolded reap, simplified]
  have first: "untouched i s s1" using reap_untouched [OF ok refl] room1 reap by (simp add: reap_finished_def)
  show ?thesis
  proof (cases "validate_add_pairs pairs s1")
    case (Inl err)
    then have "snd (add_pairs pairs s) = s1" by (simp add: add_pairs_def reap r1(1))
    with first show ?thesis by simp
  next
    case (Inr Bs)
    then obtain all where v: "pair_batches pairs (pool_tokens s1) = Inr (all, Bs)" "jobs_len s1 + length Bs \<le> po_maximum_shards s1"
      by (auto simp: validate_add_pairs_def and_then_Inr_iff)
    have snd: "snd (add_pairs pairs s) = snd (spawn_all Bs s1)" using Inr by (simp add: add_pairs_def reap r1(1))
    have "\<forall>B \<in> set Bs. finite B \<and> B \<noteq> {} \<and> card B = 2" using pair_batches_facts [OF v(1) finite_pool_tokens [OF r1(2)]] by blast
    from spawn_all_ok [OF r1(2) this v(2)] room have
      keep: "\<forall>i x. bt_get (po_shards s1) i = Some x \<longrightarrow> bt_get (po_shards (snd (spawn_all Bs s1))) i = Some x" unfolding snd by blast
    have "untouched i s1 (snd (spawn_all Bs s1))"
      unfolding untouched_def
    proof
      assume i: "i \<in> set (po_running s1)"
      then obtain x where "bt_get (po_shards s1) i = Some x" using running_shard [OF r1(2)] by blast
      with keep i spawn_all_running [of s1 Bs]
      show "i \<in> set (po_running (snd (spawn_all Bs s1))) \<and> bt_get (po_shards (snd (spawn_all Bs s1))) i = bt_get (po_shards s1) i"
        by auto
    qed
    with first show ?thesis unfolding snd by (rule untouched_trans)
  qed
qed

lemma next_untouched:
  assumes "pool_ok s" "purged s" and "po_next_id (snd (next_batch_or_failure wakes s)) \<noteq> - 1"
  shows "untouched i s (snd (next_batch_or_failure wakes s))"
proof -
  have "pool_ok (snd (next_batch_or_failure wakes s)) \<and> purged (snd (next_batch_or_failure wakes s))
    \<and> untouched i s (snd (next_batch_or_failure wakes s))"
  proof (rule next_rule [of "untouched i", OF _ _ _ assms])
    fix s s' :: "'a pool" and k result ended
    assume "pool_ok s" "po_finished s = (k, result) # ended" "po_next_id s \<noteq> - 1"
      and run: "handle_finished k result (s\<lparr> po_finished := ended \<rparr>) = (Inr (), s')"
    from handle_untouched [OF this(1-3), of i] run show "untouched i s s'" by simp
  qed (auto simp: untouched_def)
  then show ?thesis by blast
qed

lemma pointwise_in_place:
  assumes "pointwise owner_move (po_shards s) m"
  shows "in_place i s (s\<lparr> po_shards := m \<rparr>)"
  using pointwise_get [OF assms, of i] by (auto simp: in_place_def option_rel_Some1)

lemma poll_shards_moves: "pointwise owner_move m (snd (poll_shards m))"
proof (induction m)
  case (Cons a m)
  obtain i sh where a: "a = (i, sh)" by fastforce
  have "owner_move sh (snd (poll_shard sh))" by (simp add: owner_move_def)
  moreover have "pointwise owner_move m m" by (rule pointwise_refl) (simp add: owner_move_def)
  ultimately show ?case using Cons by (auto simp: a split: sum.split prod.split)
qed simp

lemma begin_retire_in_place:
  assumes "pool_ok s"
  shows "in_place i s (snd (begin_retire removed s))"
proof -
  have wf: "bt_wf (po_shards s)" using assms by (simp add: pool_ok_def sockets_ok_def)
  have self: "in_place i s s" by (simp add: in_place_def owner_move_def)
  have "in_place i s (s\<lparr> po_shards := fold (\<lambda>(i, f). bt_map_value (retire_shard f) i) changes (po_shards s) \<rparr>)"
    if plan: "plan_retire removed (po_shards s) = Inr changes" for changes
  proof (rule pointwise_in_place)
    show "pointwise owner_move (po_shards s) (fold (\<lambda>(i, f). bt_map_value (retire_shard f) i) changes (po_shards s))"
      unfolding begin_retire_shards [OF plan wf] pointwise_map
      using plan_retire_facts(4) [OF plan bt_wf_distinct [OF wf]] by (auto simp: owner_move_def)
  qed
  with self show ?thesis by (auto simp: begin_retire_def split: sum.split)
qed

lemma step_in_place:
  assumes ok: "pool_ok s" "purged s" and room: "po_next_id (pool_step s turn) \<noteq> - 1"
    and other: "\<And>sent1 sent2. turn \<noteq> Serve i sent1 sent2" "\<And>result. turn \<noteq> SocketEnds i result"
  shows "in_place i s (pool_step s turn)"
proof -
  have self: "in_place i s s" by (simp add: in_place_def owner_move_def)
  have quiet: "in_place i s s'" if "po_shards s' = po_shards s" "po_running s' = po_running s" for s'
    using that by (simp add: untouched_in_place untouched_def)
  show ?thesis
  proof (cases turn)
    case (AddPairs pairs)
    with add_pairs_untouched [OF ok(1)] room show ?thesis by (simp add: untouched_in_place)
  next
    case (BeginRetire removed)
    with begin_retire_in_place [OF ok(1)] show ?thesis by simp
  next
    case (RequestRetire removed)
    with begin_retire_in_place [OF ok(1)] self request_retire_snd [of removed s] show ?thesis by auto
  next
    case (ReplacePair old_pair new_pair)
    from ok(1) show ?thesis
    proof (cases rule: replacement_cases [of s old_pair new_pair])
      case same
      with self show ?thesis by (simp add: ReplacePair)
    next
      case add
      with add_pairs_untouched [OF ok(1)] room show ?thesis by (simp add: ReplacePair untouched_in_place)
    next
      case (submitted j sh)
      then show ?thesis by (auto simp: ReplacePair put_shard_def in_place_def owner_move_def)
    qed
  next
    case PollRetirements
    let ?s = "s\<lparr> po_shards := snd (poll_shards (po_shards s)) \<rparr>"
    have first: "in_place i s ?s" by (rule pointwise_in_place [OF poll_shards_moves])
    show ?thesis
    proof (cases "fst (poll_shards (po_shards s))")
      case (Inl err)
      then have "snd (poll_retirements s) = ?s" by (auto simp: poll_retirements_def split: sum.split prod.split)
      with first show ?thesis by (simp add: PollRetirements)
    next
      case (Inr ids)
      then have run: "snd (poll_retirements s) = snd (reap_finished ?s)"
        by (auto simp: poll_retirements_def split: sum.split prod.split)
      have okm: "pool_ok ?s"
        by (rule reshape_ok [OF ok(1) poll_shards_pointwise [of "po_shard_tokens s"]]) (simp add: shrinks_def)
      have "untouched i ?s (snd (reap_finished ?s))"
        using reap_untouched [OF okm refl] room run by (simp add: PollRetirements reap_finished_def)
      with first show ?thesis unfolding PollRetirements pool_step.simps run by (auto simp: in_place_def untouched_def)
    qed
  next
    case Reap
    with reap_untouched [OF ok(1) refl] room show ?thesis by (simp add: reap_finished_def untouched_in_place)
  next
    case TakeFailure
    then show ?thesis by (auto simp: take_failure_def self split: list.split intro: quiet)
  next
    case TryNext
    have "po_shards (snd (drain_notices ns s)) = po_shards s \<and> po_running (snd (drain_notices ns s)) = po_running s" for ns :: "u64 list"
    proof (induction ns arbitrary: s)
      case (Cons k ns)
      obtain r s1 where t: "take_ready k (s\<lparr> po_notices := ns \<rparr>) = (r, s1)" by fastforce
      have "po_shards s1 = po_shards s \<and> po_running s1 = po_running s"
        using t by (auto simp: take_ready_def signal_def Let_def split: option.splits list.splits if_splits)
      then show ?case using Cons.IH [of s1] by (auto simp: t split: sum.split option.split)
    qed simp
    then show ?thesis by (simp add: TryNext try_next_batch_def quiet)
  next
    case (AwaitNext wakes)
    with next_untouched [OF ok] room show ?thesis by (simp add: untouched_in_place)
  next
    case (Serve j sent1 sent2)
    with other have "j \<noteq> i" by blast
    then show ?thesis
      by (auto simp: Serve serve_def put_shard_def in_place_def owner_move_def split: option.split prod.split)
  next
    case (SocketEnds j result)
    with other have "j \<noteq> i" by blast
    then show ?thesis
      by (auto simp: SocketEnds socket_ends_def Let_def put_shard_def in_place_def owner_move_def split: option.split)
  next
    case (Deliver j batch)
    have "po_shards (snd (deliver j batch s)) = po_shards s \<and> po_running (snd (deliver j batch s)) = po_running s"
      by (auto simp: deliver_def signal_def split: option.split)
    then show ?thesis by (simp add: Deliver quiet)
  qed
qed

text \<open>A shard whose transport holds another membership than the owner expects.\<close>

definition stuck_half_way :: "string set \<Rightarrow> string set \<Rightarrow> shard \<Rightarrow> bool" where
  "stuck_half_way tokens following x \<longleftrightarrow> sh_tokens x = tokens \<and> sh_target x = Some following \<and> sh_wire x = following \<and> following \<noteq> tokens \<and> \<not> sh_closed x
     \<and> (sh_pending x = None \<and> sh_command x = None
      \<or> sh_pending x = Some (following, Waiting) \<and> sh_command x = Some \<lparr> up_expected = tokens, up_tokens = following, up_remove_first = True \<rparr>
      \<or> (\<exists>err. sh_pending x = Some (following, Answered (Inl err)) \<and> sh_command x = None))"

lemma stuck_move:
  assumes st: "stuck_half_way tokens following x" and move: "owner_move x y"
  shows "stuck_half_way tokens following y"
proof -
  have "change_in_flight x" using st by (simp add: stuck_half_way_def change_in_flight_def)
  with move have "y = x \<or> y = snd (poll_shard x)" by (auto simp: owner_move_def)
  moreover have "stuck_half_way tokens following (snd (poll_shard x))"
  proof -
    from st consider "sh_pending x = None" "sh_command x = None" | "sh_pending x = Some (following, Waiting)"
      | err where "sh_pending x = Some (following, Answered (Inl err))" "sh_command x = None"
      unfolding stuck_half_way_def by (elim conjE disjE exE) iprover+
    then show ?thesis
    proof cases
      case 1
      have "can_submit x" "sh_target x = Some following" using st 1(2) unfolding stuck_half_way_def can_submit_def by blast+
      then have "snd (poll_shard x) = submit_change following x" using 1(1) by (simp add: poll_shard_def poll_receipt_def submit_change_def)
      moreover have "stuck_half_way tokens following (submit_change following x)" using st unfolding stuck_half_way_def submit_change_def by simp
      ultimately show ?thesis by simp
    next
      case 2
      then have "snd (poll_shard x) = x" by (simp add: poll_shard_def poll_receipt_def)
      with st show ?thesis by simp
    next
      case 3
      then have "snd (poll_shard x) = x\<lparr> sh_pending := None \<rparr>" by (simp add: poll_shard_def poll_receipt_def)
      moreover have "stuck_half_way tokens following (x\<lparr> sh_pending := None \<rparr>)" using st 3(2) unfolding stuck_half_way_def by simp
      ultimately show ?thesis by simp
    qed
  qed
  ultimately show ?thesis using st by blast
qed

lemma stuck_serve:
  assumes "stuck_half_way tokens following x" and "bt_get (po_shards s) i = Some x"
  shows "\<exists>y. bt_get (po_shards (serve i sent1 sent2 s)) i = Some y \<and> stuck_half_way tokens following y"
proof (cases "sh_command x")
  case None
  then show ?thesis using assms by (simp add: serve_def)
next
  case (Some u)
  then have u: "u = \<lparr> up_expected = tokens, up_tokens = following, up_remove_first = True \<rparr>" "sh_pending x = Some (following, Waiting)"
    and differ: "sh_wire x \<noteq> tokens" using assms(1) by (auto simp: stuck_half_way_def)
  have "\<exists>err. apply_update sent1 sent2 u (sh_wire x) = (Inl err, sh_wire x)"
    using differ by (simp add: apply_update_def membership_diff_def u(1) validate_tokens_def)
  then obtain err where "apply_update sent1 sent2 u (sh_wire x) = (Inl err, sh_wire x)" by blast
  then show ?thesis using assms Some u(2) by (auto simp: serve_def put_shard_def stuck_half_way_def)
qed

lemma stuck_run:
  assumes "pool_ok s" "purged s" "po_next_id (pool_run ops s) \<noteq> - 1" "i \<in> set (po_running s)"
    and "\<forall>turn \<in> set ops. \<forall>result. turn \<noteq> SocketEnds i result"
    and "bt_get (po_shards s) i = Some x" "stuck_half_way tokens following x"
  shows "i \<in> set (po_running (pool_run ops s)) \<and> (\<exists>y. bt_get (po_shards (pool_run ops s)) i = Some y \<and> stuck_half_way tokens following y)"
  using assms
proof (induction ops arbitrary: s x)
  case (Cons turn ops)
  have room: "po_next_id (pool_step s turn) \<noteq> - 1" using same_budgets_room [OF run_budgets Cons.prems(3) [simplified]] .
  have after: "pool_ok (pool_step s turn)" "purged (pool_step s turn)" using step_pool(1) [OF Cons.prems(1,2) room] by (simp_all add: keeps_def)
  have "i \<in> set (po_running (pool_step s turn)) \<and> (\<exists>y. bt_get (po_shards (pool_step s turn)) i = Some y \<and> stuck_half_way tokens following y)"
  proof (cases "\<exists>sent1 sent2. turn = Serve i sent1 sent2")
    case True
    then obtain sent1 sent2 where turn: "turn = Serve i sent1 sent2" by blast
    have "po_running (serve i sent1 sent2 s) = po_running s"
      by (auto simp: serve_def put_shard_def split: option.split prod.split)
    with stuck_serve [OF Cons.prems(7,6)] Cons.prems(4) show ?thesis by (simp add: turn)
  next
    case False
    have "in_place i s (pool_step s turn)" by (rule step_in_place [OF Cons.prems(1,2) room]) (use False Cons.prems(5) in auto)
    with Cons.prems(4,6,7) show ?thesis unfolding in_place_def using stuck_move by blast
  qed
  then obtain y where y: "i \<in> set (po_running (pool_step s turn))" "bt_get (po_shards (pool_step s turn)) i = Some y" "stuck_half_way tokens following y" by blast
  from Cons.IH [OF after _ y(1) _ y(2,3)] Cons.prems(3,5) show ?case by simp
qed auto

text \<open>
  a replacement whose first write succeeds and whose second fails never completes while its socket lives.
  The transport has left the old membership for the new one, the owner still expects the old one, and every
  retry is a subscription conflict: whatever the owner and the other transports do, and whatever writes go
  through, the shard goes on owning the old pair and stays in flight.
\<close>

theorem half_written_replacement_never_completes:
  "pool_new True maximum_tokens maximum_shards shard_tokens = Inr s \<longrightarrow>
    bt_get (po_shards (pool_run ops s)) i = Some x \<longrightarrow> i \<in> set (po_running (pool_run ops s)) \<longrightarrow> \<not> sh_closed x \<longrightarrow>
    sh_command x = Some u \<longrightarrow> sh_wire x = sh_tokens x \<longrightarrow> validate_tokens (up_tokens u) = Inr () \<longrightarrow>
    \<not> sh_tokens x \<subseteq> up_tokens u \<longrightarrow> \<not> up_tokens u \<subseteq> sh_tokens x \<longrightarrow>
    (\<forall>turn \<in> set later. \<forall>result. turn \<noteq> SocketEnds i result) \<longrightarrow>
    po_next_id (pool_run (ops @ Serve i True False # later) s) \<noteq> - 1 \<longrightarrow>
    (\<exists>y. bt_get (po_shards (pool_run (ops @ Serve i True False # later) s)) i = Some y \<and> sh_tokens y = sh_tokens x
       \<and> sh_wire y = up_tokens u \<and> change_in_flight y)"
proof (intro impI)
  let ?s = "pool_run ops s" and ?following = "up_tokens u"
  assume new: "pool_new True maximum_tokens maximum_shards shard_tokens = Inr s" and x: "bt_get (po_shards ?s) i = Some x"
    and running: "i \<in> set (po_running ?s)" and alive: "\<not> sh_closed x" and u: "sh_command x = Some u" "sh_wire x = sh_tokens x"
    and valid: "validate_tokens ?following = Inr ()" and differ: "\<not> sh_tokens x \<subseteq> ?following" "\<not> ?following \<subseteq> sh_tokens x"
    and later: "\<forall>turn \<in> set later. \<forall>result. turn \<noteq> SocketEnds i result"
    and room: "po_next_id (pool_run (ops @ Serve i True False # later) s) \<noteq> - 1"
  have split: "pool_run (ops @ Serve i True False # later) s = pool_run later (serve i True False ?s)" by (simp add: pool_run_def)
  note s = pool_new_ok [OF new]
  have room1: "po_next_id (serve i True False ?s) \<noteq> - 1" using same_budgets_room [OF run_budgets room [unfolded split]] .
  have "po_next_id ?s \<noteq> - 1" using same_budgets_room [OF step_budgets [of ?s "Serve i True False"]] room1 by simp
  then have ok: "pool_ok ?s" "purged ?s" using run_pool [OF s(1,2)] by blast+
  have served: "pool_ok (serve i True False ?s)" "purged (serve i True False ?s)" using serve_pool [OF ok(1)] ok(2) by simp_all
  have "shard_ok (po_shard_tokens ?s) x" using ok(1) x by (simp add: pool_ok_def shards_ok_def)
  then have eq: "up_expected u = sh_tokens x" "up_remove_first u" "sh_pending x = Some (?following, Waiting)" "sh_target x = Some ?following"
    using u(1) by (auto simp: shard_ok_def)
  have wire: "sh_tokens x - (sh_tokens x - ?following) \<union> (?following - sh_tokens x) = ?following" by auto
  have "apply_update True False u (sh_wire x) = (Inl SendFailed, ?following)"
    using differ wire by (simp add: apply_update_def membership_diff_def valid eq(1,2) u(2) Diff_eq_empty_iff)
  then have "bt_get (po_shards (serve i True False ?s)) i = Some (x\<lparr> sh_command := None, sh_wire := ?following,
      sh_pending := Some (?following, Answered (Inl SendFailed)) \<rparr>)"
    using x u(1) eq(3) by (simp add: serve_def put_shard_def)
  moreover have "stuck_half_way (sh_tokens x) ?following (x\<lparr> sh_command := None, sh_wire := ?following,
      sh_pending := Some (?following, Answered (Inl SendFailed)) \<rparr>)"
    using differ alive eq(4) by (auto simp: stuck_half_way_def)
  moreover have "i \<in> set (po_running (serve i True False ?s))"
    using running by (auto simp: serve_def put_shard_def split: option.split prod.split)
  ultimately obtain y where "bt_get (po_shards (pool_run later (serve i True False ?s))) i = Some y" "stuck_half_way (sh_tokens x) ?following y"
    using stuck_run [OF served room [unfolded split] _ later] by blast
  then show "\<exists>y. bt_get (po_shards (pool_run (ops @ Serve i True False # later) s)) i = Some y \<and> sh_tokens y = sh_tokens x
       \<and> sh_wire y = ?following \<and> change_in_flight y"
    unfolding split by (auto simp: stuck_half_way_def change_in_flight_def)
qed

section \<open>Concrete inputs\<close>

definition demo_pool :: "nat pool" where
  "demo_pool = \<lparr> po_lanes = True, po_maximum_tokens = 6, po_maximum_shards = 3, po_shard_tokens = 2, po_next_id = 0, po_shards = [],
     po_inputs = [], po_ready = [], po_notices = [], po_running = [], po_finished = [], po_failed = [] \<rparr>"

definition demo_added :: "nat pool" where
  "demo_added = demo_pool\<lparr> po_next_id := 1, po_running := [0], po_shards := [(0, fresh_shard {''11'', ''12''})],
     po_inputs := [(0, [])], po_ready := [(0, False)] \<rparr>"

definition demo_replacing :: "nat pool" where
  "demo_replacing = demo_added\<lparr> po_shards := [(0, submit_change {''31'', ''32''} (fresh_shard {''11'', ''12''}))] \<rparr>"

definition demo_twice :: "nat pool" where
  "demo_twice = demo_replacing\<lparr> po_next_id := 2, po_running := [0, 1],
     po_shards := po_shards demo_replacing @ [(1, fresh_shard {''31'', ''32''})], po_inputs := [(0, []), (1, [])], po_ready := [(0, False), (1, False)] \<rparr>"

lemma demo_new: "pool_new True 6 3 2 = Inr demo_pool"
  by (simp add: pool_new_def demo_pool_def)

lemma demo_add: "pool_step demo_pool (AddPairs [(''11'', ''12'')]) = demo_added"
  by (simp add: demo_pool_def demo_added_def add_pairs_def reap_finished_def purge_retired_notifications_def validate_add_pairs_def
      pool_tokens_def bt_values_def token_ok_def jobs_len_def spawn_owned_tokens_def checked_add1_def)

lemma demo_replace: "request_pair_replacement (''11'', ''12'') (''31'', ''32'') demo_added = (Inr False, demo_replacing)"
  by (simp add: request_pair_replacement_def Let_def demo_added_def demo_replacing_def pool_tokens_def bt_values_def fresh_shard_def
      change_in_flight_def can_submit_def submit_change_def put_shard_def demo_pool_def)

lemma demo_readd: "pool_step demo_replacing (AddPairs [(''31'', ''32'')]) = demo_twice"
  by (simp add: demo_twice_def demo_replacing_def demo_pool_def demo_added_def add_pairs_def reap_finished_def purge_retired_notifications_def
      validate_add_pairs_def pool_tokens_def bt_values_def token_ok_def jobs_len_def spawn_owned_tokens_def checked_add1_def submit_change_def
      fresh_shard_def)

end
