(* ===== verification/Spec2Isabelle.thy ===== *)
theory Spec2Isabelle
  imports Core_Durability_Theorems Jobs_Theorems Realtime_Transport_Theorems Sdk_Book_Theorems
    Sdk_Shared_Price_Theorems Scope_Safety Shard_Theorems
begin

text \<open>
  Verification library of MarketCow, a market-data server and its client SDK, both in Rust.

  \<^bold>\<open>The program's parts.\<close> The Polymarket side keeps one projection of all markets and books: a single writer
  evaluates event after event, makes the outcome durable in a segmented write-ahead log, and only then
  publishes it (\<open>crates/marketcow-core\<close>). Work for external providers goes through a job engine with leases
  (\<open>crates/marketcow-jobs\<close>). The Hyperliquid side runs from a websocket transport and a normalizer through a
  durable writer and a hub to a gateway and to subscribers that resume by sequence (\<open>crates/marketcow-realtime\<close>,
  with its owner task in \<open>crates/marketcowd/src/main.rs\<close>). Clients of the daemon keep local market books and
  price tails from its publications and share one connection among many consumers (\<open>sdk/crates/marketcow-sdk\<close>).
  What the daemon acquires at all is decided by leases of its consumers, a registry of published scopes and a
  journal it restarts from, and it acquires it over one socket per market pair (\<open>crates/marketcowd/src\<close>).

  \<^bold>\<open>Theories and code.\<close>
  \<^item> \<open>Prelude\<close>, \<open>Results\<close>, \<open>Map_Sums\<close>: machine integers, options, ordered maps (\<open>bt_\<close>, the code's \<open>BTreeMap\<close>, with
    the locale \<open>ordered_map\<close>), JSON values and paths, fallible computations, sums over a map.
  \<^item> \<open>Core_Model\<close>, \<open>Core_Book\<close>, \<open>Core_Projection\<close>, \<open>Core_Health\<close>, \<open>Core_Evaluate\<close>, \<open>Core_Writer\<close>, \<open>Core_Wal\<close>: the
    definitions of \<open>marketcow-core/src/lib.rs\<close> in its order: data, book operations, the read side and the
    health rules of the projection, the evaluation of one event stage by stage, the writer over any durable
    log (locale \<open>durable_log\<close>, interpreted by the log in \<open>Core_Durable\<close>), the log. \<open>Core_Frame\<close> and \<open>Core_Step\<close> give
    the frame and branch lemmas of the step, \<open>Core_Safety\<close>, \<open>Core_Ready\<close>, \<open>Core_Total\<close>, \<open>Core_Local\<close> its
    invariants, \<open>Core_Replay\<close> and \<open>Core_Durable\<close> the log as the abstract list of its outcomes; the properties are in
    \<open>Core_Theorems\<close>, \<open>Core_Log_Theorems\<close>, \<open>Core_Durability_Theorems\<close>, their concrete inputs in \<open>Core_Demo\<close>.
  \<^item> \<open>Jobs\<close>: \<open>JobEngine\<close> of \<open>marketcow-jobs/src/lib.rs\<close>; \<open>Jobs_Moves\<close> its transitions, \<open>Jobs_Safety\<close> its
    invariants, \<open>Jobs_Theorems\<close> the properties.
  \<^item> \<open>Realtime_Replay\<close> (the bounded window), \<open>Realtime_Wal\<close> (segments, checkpoints, verification),
    \<open>Realtime_Writer\<close> (\<open>DurableRealtimeWriter\<close>), \<open>Realtime_Hub\<close> (\<open>hub.rs\<close>), \<open>Realtime_Normalizer\<close>,
    \<open>Realtime_Transport\<close> and \<open>Realtime_Owner\<close> model \<open>marketcow-realtime\<close> and its owner task. \<open>Realtime_Window\<close>,
    \<open>Realtime_Recovery\<close>, \<open>Realtime_Chain\<close>, \<open>Realtime_Log\<close>, \<open>Realtime_Append\<close>, \<open>Realtime_Durable\<close>, \<open>Realtime_Safety\<close>
    relate the memory of the writer to what verification reads back from disk, \<open>Realtime_Reader\<close> states the
    contract of a resumable source once (locale \<open>replay_source\<close>) for the window and for the hub's projection;
    the properties are in \<open>Realtime_Theorems\<close>, \<open>Realtime_Normalizer_Theorems\<close>, \<open>Realtime_Transport_Theorems\<close>.
  \<^item> \<open>Sdk_Book\<close> (\<open>book.rs\<close>), \<open>Sdk_Price\<close> (\<open>price.rs\<close>), \<open>Sdk_Fanout\<close> (\<open>fanout.rs\<close>), \<open>Sdk_Shared_Price\<close>
    (\<open>shared_price.rs\<close>, \<open>retry.rs\<close>) model the SDK's local state; \<open>Sdk_Book_Safety\<close> and \<open>Sdk_Fanout_Safety\<close> hold
    their invariants, \<open>Sdk_Book_Theorems\<close> and \<open>Sdk_Shared_Price_Theorems\<close> the properties.
  \<^item> \<open>Scope_Lease\<close> (\<open>source_acquisition_lease.rs\<close>, \<open>source_scope_registry.rs\<close>) and \<open>Scope_Journal\<close>
    (\<open>source_scope_journal.rs\<close>) model what may be acquired and what a restart begins with; \<open>Scope_Theorems\<close>
    holds their invariants and \<open>Scope_Safety\<close> the properties.
  \<^item> \<open>Shard_Pool\<close> (\<open>source_acquisition_shards.rs\<close>, \<open>marketcow-polymarket/src/subscription.rs\<close>) models the upstream
    sockets those markets are acquired over; \<open>Shard_Safety\<close> and \<open>Shard_Lanes\<close> hold the invariants of membership and
    of the frame lanes, \<open>Shard_Theorems\<close> their consequences and runs of the two cases in which they fail.

  \<^bold>\<open>State and errors.\<close> A struct is a record with the code's fields, an enum a datatype with its variants; a method
  that mutates its receiver returns the new state. A fallible function returns a sum with the error on the
  left, a panic is an error of its own; where an operation changes its state before it fails, the model
  returns that state too. Words have the width of the code and wrap where the release build wraps; a decimal is
  its integer in units of 1e-28, a time an integer of nanoseconds. Loops are structural recursions over the
  events, files, lines or levels they consume; the two loops with a counter carry a measure, so no definition
  needs fuel.

  \<^bold>\<open>What the lemmas show.\<close> For the core: books stay sorted, uncrossed and aligned, the catalogue consistent, faults
  stay with their market, readiness means the absence of a fault, the step fails only by its guards, and the
  log determines the published projection again, for single events and batches and across segment rotations.
  For the jobs: validity of every job, exclusive and expiring leases, idempotent submission, dispatch within
  the policy, recovery of snapshots, all without an assumption on the order of the clock readings. For the realtime path: what was published survives every reopening that
  succeeds, a restart restores window and position, identities and sequences are unique, the gateway gets
  exactly what the log gained, subscribers resume without gaps or are refused, the supervisor ends. For the SDK: deltas keep
  byte counts exact without re-encoding, a snapshot reproduces the state, revisions identify facts, price
  publications are consecutive, a consumer joining a shared source tracks it, and the byte budgets balance.
  For the scopes: the lease of a silent consumer ends, a replaced scope lives for exactly its grace, the journal
  file is a readable envelope of a valid state after every outcome of a write, a cancelled retirement leaves no trace, and the migration of
  cold metadata is a partition. For the sockets: every token has one socket within the budgets, no token is given
  up but on purpose, and no waiting frame is forgotten.
  Each property stands next to a witness on concrete inputs. Some properties state what the code does where it
  does not do what it means to; they are named in the findings of the manifest.

  \<^bold>\<open>Parameters.\<close> Digests, checksums, serialised sizes and texts (SHA-256, CRC, serde, protobuf), the decimal
  parser, fresh identifiers, clocks, random samples, the outcomes of file operations and of socket reads are
  arguments (\<open>eval_ext\<close>, \<open>wal_ext\<close>, \<open>rt_ext\<close>, \<open>sdk_ext\<close>, \<open>price_ext\<close> and the like); what a property needs of them
  (injective digests, that \<open>serde_json\<close> reads back the value it wrote, the length of an encoded message) is a hypothesis
  it names, and its witness instantiates them.

  \<^bold>\<open>Not modelled.\<close> Latency measurements, tracing, wake-ups and file modes. Storage, HTTP routing and wire contracts
  (\<open>marketcow-storage\<close>, \<open>marketcow-api\<close>, \<open>marketcow-contracts\<close>): calls of external clients and data types. The
  daemon's other modules for Polymarket acquisition, discovery, publication, replay and trade history (\<open>source_*\<close>,
  \<open>discovery_*\<close>, \<open>btc_*\<close> under \<open>crates/marketcowd/src\<close>), the Polymarket and LongPort normalizers and transports,
  the runtime crate, the SDK's HTTP client, histories and Python bindings, and the probe scripts: they come
  after the core state machines, and much of them is asynchronous I/O over external libraries.
\<close>

end
